(* ===== verification/Vimla_Prelude.thy ===== *)
theory Vimla_Prelude
  imports Main "HOL-Library.Multiset" "HOL-Library.Signed_Division"
begin

text \<open>
  Shared ground of the development. Results that may throw are sums (\<open>Inl\<close> is what
  is thrown, \<open>Inr\<close> what is returned), sequenced by \<open>rbind\<close>; a loop whose body may
  throw is \<open>fold_res\<close>. A database table is a list of rows in insertion order,
  updated by primary key with \<open>row_update\<close>. \<open>Array.prototype.sort\<close> is the stable
  \<open>js_sort\<close>, and the locale \<open>comparator\<close> states what a comparison callback has
  to promise for the sort to order its input.
\<close>

section \<open>Throwing computations\<close>

named_theorems res_simps "unfolding of throwing computations"

definition rbind :: "'e + 'a \<Rightarrow> ('a \<Rightarrow> 'e + 'b) \<Rightarrow> 'e + 'b" where
  "rbind m f = (case m of Inl e \<Rightarrow> Inl e | Inr a \<Rightarrow> f a)"

lemma rbind_simps [simp]:
  "rbind (Inl e) f = Inl e"
  "rbind (Inr a) f = f a"
  by (simp_all add: rbind_def)

lemma rbind_eq_Inr [res_simps]: "rbind m f = Inr b \<longleftrightarrow> (\<exists>a. m = Inr a \<and> f a = Inr b)"
  by (cases m) auto

lemma rbind_eq_Inl [res_simps]:
  "rbind m f = Inl e \<longleftrightarrow> m = Inl e \<or> (\<exists>a. m = Inr a \<and> f a = Inl e)"
  by (cases m) auto

definition guard_res :: "bool \<Rightarrow> 'e \<Rightarrow> 'e + unit" where
  "guard_res c e = (if c then Inl e else Inr ())"

lemma guard_res_eq [res_simps]:
  "guard_res c e = Inr u \<longleftrightarrow> \<not> c"
  "guard_res c e = Inl e' \<longleftrightarrow> c \<and> e' = e"
  by (auto simp: guard_res_def)

definition the_row :: "'e \<Rightarrow> 'a option \<Rightarrow> 'e + 'a" where
  "the_row e r = (case r of None \<Rightarrow> Inl e | Some a \<Rightarrow> Inr a)"

lemma the_row_eq [res_simps]:
  "the_row e r = Inr a \<longleftrightarrow> r = Some a"
  "the_row e r = Inl e' \<longleftrightarrow> r = None \<and> e' = e"
  by (auto simp: the_row_def split: option.splits)

lemma the_row_simps [simp]: "the_row e None = Inl e" "the_row e (Some a) = Inr a"
  by (simp_all add: the_row_def)

fun fold_res :: "('x \<Rightarrow> 's \<Rightarrow> 'e + 's) \<Rightarrow> 'x list \<Rightarrow> 's \<Rightarrow> 'e + 's" where
  "fold_res f [] s = Inr s"
| "fold_res f (x # xs) s = rbind (f x s) (fold_res f xs)"

fun map_res :: "('a \<Rightarrow> 'e + 'b) \<Rightarrow> 'a list \<Rightarrow> 'e + 'b list" where
  "map_res f [] = Inr []"
| "map_res f (x # xs) = rbind (f x) (\<lambda>y. rbind (map_res f xs) (\<lambda>ys. Inr (y # ys)))"

lemma map_res_Inr: "map_res f xs = Inr ys \<longleftrightarrow> list_all2 (\<lambda>x y. f x = Inr y) xs ys"
  by (induction xs arbitrary: ys) (auto simp: rbind_eq_Inr list_all2_Cons1)

lemma fold_res_invariant:
  assumes "fold_res f xs s = Inr s'" and "P s"
    and "\<And>x s s'. x \<in> set xs \<Longrightarrow> P s \<Longrightarrow> f x s = Inr s' \<Longrightarrow> P s'"
  shows "P s'"
  using assms
proof (induction xs arbitrary: s)
  case Nil
  then show ?case by simp
next
  case (Cons x xs)
  from Cons.prems(1) obtain t where t: "f x s = Inr t" "fold_res f xs t = Inr s'"
    by (auto simp: rbind_eq_Inr)
  have "P t" using Cons.prems(2,3) t(1) by (meson list.set_intros(1))
  then show ?case using Cons.IH[OF t(2)] Cons.prems(3) by (meson list.set_intros(2))
qed

lemma fold_res_append: "fold_res f (xs @ ys) s = rbind (fold_res f xs s) (fold_res f ys)"
proof (induction xs arbitrary: s)
  case Nil
  then show ?case by simp
next
  case (Cons x xs)
  then show ?case by (cases "f x s") simp_all
qed

text \<open>
  A transaction either throws, and the state stays, or commits its new state. The locale
  \<open>transactional\<close> is the contract of a handler of such transactions with respect to an
  invariant; running any sequence of requests keeps the invariant.
\<close>

definition commit :: "'s \<Rightarrow> 'e + 's \<times> 'r \<Rightarrow> 's" where
  "commit s res = (case res of Inl _ \<Rightarrow> s | Inr (s', _) \<Rightarrow> s')"

definition run_requests :: "('i \<Rightarrow> 's \<Rightarrow> 'e + 's \<times> 'r) \<Rightarrow> 'i list \<Rightarrow> 's \<Rightarrow> 's" where
  "run_requests handle requests s = fold (\<lambda>i s. commit s (handle i s)) requests s"

lemma run_requests_simps [simp]:
  "run_requests handle [] s = s"
  "run_requests handle (i # is) s = run_requests handle is (commit s (handle i s))"
  by (simp_all add: run_requests_def)

locale transactional =
  fixes handle :: "'i \<Rightarrow> 's \<Rightarrow> 'e + 's \<times> 'r"
    and inv :: "'s \<Rightarrow> bool"
  assumes handle_inv: "inv s \<Longrightarrow> handle i s = Inr (s', v) \<Longrightarrow> inv s'"
begin

lemma commit_inv: "inv s \<Longrightarrow> inv (commit s (handle i s))"
  using handle_inv by (auto simp: commit_def split: sum.splits)

lemma run_inv: "inv s \<Longrightarrow> inv (run_requests handle is s)"
  by (induction "is" arbitrary: s) (simp_all add: commit_inv)

end

text \<open>A handler that also leaves part of the state alone.\<close>

locale framed = transactional handle inv
  for handle :: "'i \<Rightarrow> 's \<Rightarrow> 'e + 's \<times> 'r" and inv :: "'s \<Rightarrow> bool" +
  fixes view :: "'s \<Rightarrow> 'v"
  assumes handle_view: "inv s \<Longrightarrow> handle i s = Inr (s', v) \<Longrightarrow> view s' = view s"
begin

lemma run_view: "inv s \<Longrightarrow> view (run_requests handle is s) = view s"
proof (induction "is" arbitrary: s)
  case Nil
  then show ?case by simp
next
  case (Cons i "is")
  have "view (commit s (handle i s)) = view s"
    using handle_view[OF Cons.prems] by (auto simp: commit_def split: sum.splits)
  with Cons.IH[OF commit_inv[OF Cons.prems]] show ?case by simp
qed

end

section \<open>Tables\<close>

definition row_update :: "('r \<Rightarrow> 'k) \<Rightarrow> 'k \<Rightarrow> ('r \<Rightarrow> 'r) \<Rightarrow> 'r list \<Rightarrow> 'r list" where
  "row_update key k f rows = map (\<lambda>r. if key r = k then f r else r) rows"

definition row_find :: "('r \<Rightarrow> 'k) \<Rightarrow> 'k \<Rightarrow> 'r list \<Rightarrow> 'r option" where
  "row_find key k rows = find (\<lambda>r. key r = k) rows"

lemma row_find_Some: "row_find key k rows = Some r \<Longrightarrow> r \<in> set rows \<and> key r = k"
  unfolding row_find_def by (auto simp: find_Some_iff)

lemma row_find_None: "row_find key k rows = None \<longleftrightarrow> k \<notin> key ` set rows"
  unfolding row_find_def by (auto simp: find_None_iff)

lemma row_find_distinct:
  "distinct (map key rows) \<Longrightarrow> r \<in> set rows \<Longrightarrow> row_find key (key r) rows = Some r"
  unfolding row_find_def
  by (induction rows) (auto simp: rev_image_eqI)

lemma row_find_Some_iff:
  "distinct (map key rows) \<Longrightarrow> row_find key k rows = Some r \<longleftrightarrow> r \<in> set rows \<and> key r = k"
  using row_find_Some row_find_distinct by metis

lemma find_snoc:
  "find P (xs @ [x]) = (case find P xs of None \<Rightarrow> if P x then Some x else None | Some y \<Rightarrow> Some y)"
  by (induction xs) auto

lemma findD: "find P xs = Some x \<Longrightarrow> x \<in> set xs \<and> P x"
  by (auto simp: find_Some_iff)

text \<open>Looking a row up by key and a further test that the row with that key passes.\<close>

lemma find_by_key:
  assumes "distinct (map key rows)" and "r \<in> set rows" and "Q r"
  shows "find (\<lambda>x. key x = key r \<and> Q x) rows = Some r"
proof (cases "find (\<lambda>x. key x = key r \<and> Q x) rows")
  case None
  with assms(2) have "\<not> Q r" by (auto simp: find_None_iff)
  with assms(3) show ?thesis by simp
next
  case (Some x)
  then have "x \<in> set rows" "key x = key r" by (auto simp: find_Some_iff)
  with Some assms show ?thesis by (simp add: distinct_map inj_on_def)
qed

lemma length_row_update [simp]: "length (row_update key k f rows) = length rows"
  by (simp add: row_update_def)

lemma map_row_update [simp]:
  "(\<And>r. h (f r) = h r) \<Longrightarrow> map h (row_update key k f rows) = map h rows"
  by (simp add: row_update_def)

lemma map_row_update_key:
  "(\<And>r. key r = k \<Longrightarrow> h (f r) = h r) \<Longrightarrow> map h (row_update key k f rows) = map h rows"
  by (simp add: row_update_def)

lemma row_update_append [simp]:
  "row_update key k f (xs @ ys) = row_update key k f xs @ row_update key k f ys"
  by (simp add: row_update_def)

lemma row_update_absent: "k \<notin> key ` set rows \<Longrightarrow> row_update key k f rows = rows"
  by (induction rows) (auto simp: row_update_def)

lemma set_row_update:
  "set (row_update key k f rows) = (\<lambda>r. if key r = k then f r else r) ` set rows"
  by (simp add: row_update_def)

lemma row_find_row_update:
  assumes "\<And>r. key (f r) = key r"
  shows "row_find key k' (row_update key k f rows) =
    (if k' = k then map_option f (row_find key k' rows) else row_find key k' rows)"
  unfolding row_find_def row_update_def using assms by (induction rows) auto

text \<open>Replacing one row changes a column sum by the difference of that row's summands.\<close>

lemma sum_row_update:
  fixes h :: "'r \<Rightarrow> int"
  assumes "distinct (map key rows)" and "r \<in> set rows"
  shows "sum_list (map h (row_update key (key r) f rows)) =
    sum_list (map h rows) - h r + h (f r)"
  using assms
proof (induction rows)
  case Nil
  then show ?case by simp
next
  case (Cons a rows)
  show ?case
  proof (cases "r = a")
    case True
    with Cons.prems have "key r \<notin> key ` set rows" by auto
    then have "row_update key (key r) f rows = rows" by (rule row_update_absent)
    with True show ?thesis by (simp add: row_update_def)
  next
    case False
    with Cons.prems have "r \<in> set rows" "key a \<noteq> key r" by (auto simp: rev_image_eqI)
    with Cons show ?thesis by (simp add: row_update_def)
  qed
qed

lemma sum_list_map_cong_set:
  "(\<And>x. x \<in> set xs \<Longrightarrow> f x = g x) \<Longrightarrow> sum_list (map f xs) = sum_list (map g xs)"
  by (induction xs) auto

lemma sum_list_nonneg_int: "(\<And>x. x \<in> set xs \<Longrightarrow> (0::int) \<le> f x) \<Longrightarrow> 0 \<le> sum_list (map f xs)"
  by (induction xs) auto

lemma sum_list_member_le:
  assumes "\<And>x. x \<in> set xs \<Longrightarrow> (0::int) \<le> f x" and "y \<in> set xs"
  shows "f y \<le> sum_list (map f xs)"
  using assms
proof (induction xs)
  case Nil
  then show ?case by simp
next
  case (Cons a xs)
  then show ?case
    using sum_list_nonneg_int[of xs f] by (cases "y = a") force+
qed

section \<open>Array.prototype.sort\<close>

fun js_insert :: "('a \<Rightarrow> 'a \<Rightarrow> int) \<Rightarrow> 'a \<Rightarrow> 'a list \<Rightarrow> 'a list" where
  "js_insert cmp x [] = [x]"
| "js_insert cmp x (y # ys) = (if cmp x y \<le> 0 then x # y # ys else y # js_insert cmp x ys)"

definition js_sort :: "('a \<Rightarrow> 'a \<Rightarrow> int) \<Rightarrow> 'a list \<Rightarrow> 'a list" where
  "js_sort cmp xs = foldr (js_insert cmp) xs []"

lemma js_sort_simps [simp]:
  "js_sort cmp [] = []"
  "js_sort cmp (x # xs) = js_insert cmp x (js_sort cmp xs)"
  by (simp_all add: js_sort_def)

lemma mset_js_insert: "mset (js_insert cmp x ys) = add_mset x (mset ys)"
  by (induction ys) auto

lemma mset_js_sort [simp]: "mset (js_sort cmp xs) = mset xs"
  by (induction xs) (auto simp: mset_js_insert)

lemma set_js_sort [simp]: "set (js_sort cmp xs) = set xs"
  by (metis mset_js_sort set_mset_mset)

lemma set_js_insert [simp]: "set (js_insert cmp x ys) = insert x (set ys)"
  by (metis mset_js_insert set_mset_add_mset_insert set_mset_mset)

lemma length_js_sort [simp]: "length (js_sort cmp xs) = length xs"
  by (metis mset_js_sort size_mset)

lemma distinct_map_js_sort [simp]: "distinct (map f (js_sort cmp xs)) = distinct (map f xs)"
  by (metis distinct_count_atmost_1 mset_js_sort mset_map set_js_sort set_map)

lemma sum_list_map_mset_cong:
  "mset xs = mset ys \<Longrightarrow> sum_list (map f xs) = (sum_list (map f ys) :: int)"
  by (metis mset_map sum_mset_sum_list)

lemma sum_list_js_sort [simp]:
  "sum_list (map f (js_sort cmp xs)) = (sum_list (map f xs) :: int)"
  by (rule sum_list_map_mset_cong) simp

text \<open>
  What a comparison callback has to promise: its sign is antisymmetric and the order it
  describes is transitive (a total preorder).
\<close>

locale comparator =
  fixes cmp :: "'a \<Rightarrow> 'a \<Rightarrow> int"
  assumes cmp_antisym: "cmp x y < 0 \<longleftrightarrow> 0 < cmp y x"
    and cmp_trans: "cmp x y \<le> 0 \<Longrightarrow> cmp y z \<le> 0 \<Longrightarrow> cmp x z \<le> 0"
begin

lemma cmp_refl: "cmp x x = 0"
  using cmp_antisym[of x x] by linarith

lemma cmp_total: "cmp x y \<le> 0 \<or> cmp y x \<le> 0"
  using cmp_antisym[of x y] by linarith

lemma cmp_zero_sym: "cmp x y = 0 \<Longrightarrow> cmp y x = 0"
  using cmp_antisym[of x y] cmp_antisym[of y x] by linarith

lemma cmp_less_trans: "cmp x y < 0 \<Longrightarrow> cmp y z \<le> 0 \<Longrightarrow> cmp x z < 0"
  using cmp_trans[of y z x] cmp_antisym by (meson leI le_less_trans less_le_not_le)

lemma sorted_js_insert:
  "sorted_wrt (\<lambda>a b. cmp a b \<le> 0) ys \<Longrightarrow> sorted_wrt (\<lambda>a b. cmp a b \<le> 0) (js_insert cmp x ys)"
proof (induction ys)
  case Nil
  then show ?case by simp
next
  case (Cons y ys)
  then show ?case using cmp_total[of x y] cmp_trans by (auto intro: cmp_trans)
qed

lemma sorted_js_sort: "sorted_wrt (\<lambda>a b. cmp a b \<le> 0) (js_sort cmp xs)"
  by (induction xs) (auto intro: sorted_js_insert)

lemma js_insert_front:
  "\<forall>y \<in> set ys. cmp x y \<le> 0 \<Longrightarrow> js_insert cmp x ys = x # ys"
  by (cases ys) auto

lemma js_sort_sorted_id: "sorted_wrt (\<lambda>a b. cmp a b \<le> 0) xs \<Longrightarrow> js_sort cmp xs = xs"
  by (induction xs) (auto simp: js_insert_front)

lemma filter_js_insert_other:
  "cmp a x \<noteq> 0 \<Longrightarrow> filter (\<lambda>y. cmp a y = 0) (js_insert cmp x ys) = filter (\<lambda>y. cmp a y = 0) ys"
  by (induction ys) auto

lemma filter_js_insert_same:
  assumes "cmp a x = 0" and "sorted_wrt (\<lambda>a b. cmp a b \<le> 0) ys"
  shows "filter (\<lambda>y. cmp a y = 0) (js_insert cmp x ys) = x # filter (\<lambda>y. cmp a y = 0) ys"
  using assms
proof (induction ys)
  case Nil
  then show ?case by simp
next
  case (Cons y ys)
  have "cmp a y \<noteq> 0" if "\<not> cmp x y \<le> 0"
    using that cmp_zero_sym[OF Cons.prems(1)] cmp_trans[of x a y] by linarith
  with Cons show ?case by auto
qed

lemma js_sort_stable: "filter (\<lambda>y. cmp a y = 0) (js_sort cmp xs) = filter (\<lambda>y. cmp a y = 0) xs"
proof (induction xs)
  case Nil
  then show ?case by simp
next
  case (Cons x xs)
  then show ?case
    using sorted_js_sort[of xs]
    by (cases "cmp a x = 0") (simp_all add: filter_js_insert_other filter_js_insert_same)
qed

end

end
