(* ===== verification/Money.thy ===== *)
theory Money
  imports Vimla_Prelude
begin

text \<open>
  \<open>packages/billing/src/money.ts\<close> and \<open>errors.ts\<close>: amounts are JavaScript
  \<open>bigint\<close>s in microRUB, so they are \<open>int\<close> here, and \<open>bigint\<close> division, which
  truncates towards zero, is \<open>sdiv\<close>. Every function that throws returns a sum. A
  JavaScript string is a list of code units; \<open>char\<close> holds the code units below 256,
  so \<open>trim\<close> knows the white space of that range.
\<close>

section \<open>Errors\<close>

datatype billing_error_code =
    INSUFFICIENT_USAGE
  | INVALID_TOPUP_AMOUNT
  | NO_ACTIVE_SUBSCRIPTION
  | SUBSCRIPTION_ALREADY_ACTIVE
  | RESERVATION_NOT_FOUND
  | RESERVATION_ALREADY_SETTLED
  | RESERVATION_ALREADY_RELEASED
  | RESERVATION_CONFLICT
  | FINANCIAL_OPERATION_FAILED
  | PAYMENT_NOT_FOUND
  | PLAN_NOT_FOUND
  | MOCK_PROVIDER_DISABLED
  | PAYMENT_TEMPORARILY_UNAVAILABLE
  | PAYMENT_ALREADY_PROCESSED
  | PAYMENT_AMOUNT_INVALID
  | PAYMENT_RECONCILIATION_REQUIRED
  | PAYMENT_PROVIDER_UNAVAILABLE
  | PAYMENT_RATE_LIMITED
  | PAYMENT_NOTIFICATION_INVALID
  | POLICY_CONFIRMATION_REQUIRED
  | ENTITLEMENT_INVALID

fun httpStatusByCode :: "billing_error_code \<Rightarrow> nat" where
  "httpStatusByCode INSUFFICIENT_USAGE = 402"
| "httpStatusByCode INVALID_TOPUP_AMOUNT = 400"
| "httpStatusByCode NO_ACTIVE_SUBSCRIPTION = 404"
| "httpStatusByCode SUBSCRIPTION_ALREADY_ACTIVE = 409"
| "httpStatusByCode RESERVATION_NOT_FOUND = 404"
| "httpStatusByCode RESERVATION_ALREADY_SETTLED = 409"
| "httpStatusByCode RESERVATION_ALREADY_RELEASED = 409"
| "httpStatusByCode RESERVATION_CONFLICT = 409"
| "httpStatusByCode FINANCIAL_OPERATION_FAILED = 503"
| "httpStatusByCode PAYMENT_NOT_FOUND = 404"
| "httpStatusByCode PLAN_NOT_FOUND = 404"
| "httpStatusByCode MOCK_PROVIDER_DISABLED = 404"
| "httpStatusByCode PAYMENT_TEMPORARILY_UNAVAILABLE = 503"
| "httpStatusByCode PAYMENT_ALREADY_PROCESSED = 409"
| "httpStatusByCode PAYMENT_AMOUNT_INVALID = 400"
| "httpStatusByCode PAYMENT_RECONCILIATION_REQUIRED = 409"
| "httpStatusByCode PAYMENT_PROVIDER_UNAVAILABLE = 503"
| "httpStatusByCode PAYMENT_RATE_LIMITED = 429"
| "httpStatusByCode PAYMENT_NOTIFICATION_INVALID = 400"
| "httpStatusByCode POLICY_CONFIRMATION_REQUIRED = 400"
| "httpStatusByCode ENTITLEMENT_INVALID = 400"

text \<open>
  What a billing operation can throw: a \<open>BillingError\<close> with its code, a plain
  \<open>Error\<close> with its message, or an error of the database driver with its code and
  message (\<open>P2002\<close> is a unique-constraint violation, \<open>P2025\<close> a missing row).
\<close>

datatype js_error =
    BillingError billing_error_code
  | PlainError string
  | DbError string string

section \<open>Decimal strings\<close>

fun decimal_of_nat :: "nat \<Rightarrow> string" where
  "decimal_of_nat n =
    (if n < 10 then [char_of (48 + n)]
     else decimal_of_nat (n div 10) @ [char_of (48 + n mod 10)])"

declare decimal_of_nat.simps [simp del]

definition decimal_of_int :: "int \<Rightarrow> string" where
  "decimal_of_int i = (if i < 0 then CHR ''-'' # decimal_of_nat (nat (- i)) else decimal_of_nat (nat i))"

definition is_digit :: "char \<Rightarrow> bool" where
  "is_digit c \<longleftrightarrow> 48 \<le> (of_char c :: nat) \<and> (of_char c :: nat) \<le> 57"

fun nat_of_digits :: "nat \<Rightarrow> string \<Rightarrow> nat" where
  "nat_of_digits acc [] = acc"
| "nat_of_digits acc (c # cs) = nat_of_digits (10 * acc + ((of_char c :: nat) - 48)) cs"

definition js_white :: "char \<Rightarrow> bool" where
  "js_white c \<longleftrightarrow> (of_char c :: nat) \<in> {9, 10, 11, 12, 13, 32, 160}"

definition js_trim :: "string \<Rightarrow> string" where
  "js_trim s = rev (dropWhile js_white (rev (dropWhile js_white s)))"

text \<open>The regular expression \<open>/^-?\d+$/\<close>, and \<open>BigInt\<close> on a string that matches it.\<close>

fun integer_string_pattern :: "string \<Rightarrow> bool" where
  "integer_string_pattern [] = False"
| "integer_string_pattern (c # cs) =
    (if c = CHR ''-'' then cs \<noteq> [] \<and> list_all is_digit cs
     else list_all is_digit (c # cs))"

fun bigint_of_string :: "string \<Rightarrow> int" where
  "bigint_of_string [] = 0"
| "bigint_of_string (c # cs) =
    (if c = CHR ''-'' then - int (nat_of_digits 0 cs) else int (nat_of_digits 0 (c # cs)))"

section \<open>money.ts\<close>

type_synonym microRub = int

definition MICRORUB_PER_RUB :: int where "MICRORUB_PER_RUB = 1000000"

definition KOPECKS_PER_RUB :: int where "KOPECKS_PER_RUB = 100"

definition MICRORUB_PER_KOPECK :: int where
  "MICRORUB_PER_KOPECK = MICRORUB_PER_RUB sdiv KOPECKS_PER_RUB"

definition BASIS_POINTS_DENOMINATOR :: int where "BASIS_POINTS_DENOMINATOR = 10000"

definition microRubToJson :: "microRub \<Rightarrow> string" where
  "microRubToJson value = decimal_of_int value"

definition microRubFromJson :: "string \<Rightarrow> js_error + microRub" where
  "microRubFromJson value =
    (let trimmed = js_trim value in
     if \<not> integer_string_pattern trimmed then Inl (PlainError ''Invalid microRUB JSON value'')
     else Inr (bigint_of_string trimmed))"

definition rubToMicroRub :: "int \<Rightarrow> js_error + microRub" where
  "rubToMicroRub rub =
    (if rub < 0 then Inl (PlainError ''Ruble amounts must be non-negative'')
     else Inr (rub * MICRORUB_PER_RUB))"

definition availableMicroRub :: "microRub \<Rightarrow> microRub \<Rightarrow> microRub \<Rightarrow> microRub" where
  "availableMicroRub tot spent reserved = tot - spent - reserved"

definition topupProviderBudgetMicroRub :: "microRub \<Rightarrow> int \<Rightarrow> js_error + microRub" where
  "topupProviderBudgetMicroRub amount ratioBps =
    (if amount < 0 \<or> ratioBps < 0 \<or> ratioBps > BASIS_POINTS_DENOMINATOR
     then Inl (PlainError ''Invalid top-up budget inputs'')
     else Inr ((amount * ratioBps) sdiv BASIS_POINTS_DENOMINATOR))"

definition microRubToKopecks :: "microRub \<Rightarrow> js_error + int" where
  "microRubToKopecks amount =
    (if amount < 0 then Inl (PlainError ''Money amounts must be non-negative'')
     else if amount smod MICRORUB_PER_KOPECK \<noteq> 0
       then Inl (PlainError ''Amount is not representable as whole kopecks'')
     else Inr (amount sdiv MICRORUB_PER_KOPECK))"

definition kopecksToMicroRub :: "int \<Rightarrow> js_error + microRub" where
  "kopecksToMicroRub kopecks =
    (if kopecks < 0 then Inl (PlainError ''Kopeck amounts must be non-negative'')
     else Inr (kopecks * MICRORUB_PER_KOPECK))"

definition applyBpsCeil :: "microRub \<Rightarrow> int \<Rightarrow> js_error + microRub" where
  "applyBpsCeil amount bps =
    (if amount < 0 \<or> bps < 0 \<or> bps > BASIS_POINTS_DENOMINATOR
     then Inl (PlainError ''Invalid basis-point fee inputs'')
     else if amount = 0 \<or> bps = 0 then Inr 0
     else Inr ((amount * bps + BASIS_POINTS_DENOMINATOR - 1) sdiv BASIS_POINTS_DENOMINATOR))"

text \<open>\<open>Number(bigint)\<close> of a basis-point quotient; the model keeps the integer.\<close>

definition marginBpsFloor :: "microRub \<Rightarrow> microRub \<Rightarrow> int option" where
  "marginBpsFloor contribution netSales =
    (if netSales \<le> 0 then None
     else Some ((contribution * BASIS_POINTS_DENOMINATOR) sdiv netSales))"

definition usedPercentFloor :: "microRub \<Rightarrow> microRub \<Rightarrow> int" where
  "usedPercentFloor committed tot =
    (if tot \<le> 0 then 0
     else let percent = (committed * 100) sdiv tot in if percent > 100 then 100 else percent)"

section \<open>Lemmas\<close>

named_theorems money_consts "the constants of money.ts as numerals"

lemma money_consts_values [money_consts]:
  "MICRORUB_PER_RUB = 1000000" "KOPECKS_PER_RUB = 100" "MICRORUB_PER_KOPECK = 10000"
  "BASIS_POINTS_DENOMINATOR = 10000"
  by (simp_all add: MICRORUB_PER_RUB_def KOPECKS_PER_RUB_def MICRORUB_PER_KOPECK_def
      BASIS_POINTS_DENOMINATOR_def)

lemma sdiv_nonneg_div: "0 \<le> (a::int) \<Longrightarrow> 0 < b \<Longrightarrow> a sdiv b = a div b"
  by (cases "a = 0") (simp_all add: signed_divide_int_def)

lemma smod_nonneg_mod: "0 \<le> (a::int) \<Longrightarrow> 0 < b \<Longrightarrow> a smod b = a mod b"
  by (cases "a = 0") (simp_all add: signed_modulo_int_def sdiv_nonneg_div minus_div_mult_eq_mod)

lemma list_all_digit_decimal: "list_all is_digit (decimal_of_nat n)"
proof (induction n rule: decimal_of_nat.induct)
  case (1 n)
  have d: "m < 10 \<Longrightarrow> is_digit (char_of (48 + m))" for m :: nat
    by (simp add: is_digit_def)
  show ?case
    using 1 by (subst decimal_of_nat.simps) (simp add: d)
qed

lemma decimal_of_nat_nonempty: "decimal_of_nat n \<noteq> []"
  by (subst decimal_of_nat.simps) simp

lemma nat_of_digits_append:
  "nat_of_digits acc (xs @ [c]) = 10 * nat_of_digits acc xs + ((of_char c :: nat) - 48)"
  by (induction xs arbitrary: acc) auto

lemma nat_of_digits_decimal: "nat_of_digits 0 (decimal_of_nat n) = n"
proof (induction n rule: decimal_of_nat.induct)
  case (1 n)
  then show ?case
    by (subst decimal_of_nat.simps) (auto simp: nat_of_digits_append)
qed

lemma digit_not_white: "is_digit c \<Longrightarrow> \<not> js_white c"
  by (auto simp: is_digit_def js_white_def)

lemma minus_not_white: "\<not> js_white (CHR ''-'')"
  by (simp add: js_white_def)

lemma minus_not_digit: "\<not> is_digit (CHR ''-'')"
  by (simp add: is_digit_def)

lemma js_trim_id: "list_all (\<lambda>c. \<not> js_white c) s \<Longrightarrow> js_trim s = s"
proof -
  assume a: "list_all (\<lambda>c. \<not> js_white c) s"
  have id: "dropWhile js_white t = t" if "list_all (\<lambda>c. \<not> js_white c) t" for t
    using that by (cases t) auto
  have "list_all (\<lambda>c. \<not> js_white c) (rev s)" using a by (simp add: list_all_iff)
  then show ?thesis using a by (simp add: js_trim_def id)
qed

lemma decimal_of_int_not_white: "list_all (\<lambda>c. \<not> js_white c) (decimal_of_int i)"
  using list_all_digit_decimal digit_not_white minus_not_white
  by (auto simp: decimal_of_int_def list_all_iff)

lemma decimal_of_nat_Cons:
  obtains c cs where "decimal_of_nat n = c # cs" "is_digit c" "c \<noteq> CHR ''-''"
  using decimal_of_nat_nonempty[of n] list_all_digit_decimal[of n] minus_not_digit
  by (cases "decimal_of_nat n") auto

lemma decimal_of_int_pattern: "integer_string_pattern (decimal_of_int i)"
proof (cases "i < 0")
  case True
  then show ?thesis
    by (simp add: decimal_of_int_def list_all_digit_decimal decimal_of_nat_nonempty)
next
  case False
  obtain c cs where d: "decimal_of_nat (nat i) = c # cs" "c \<noteq> CHR ''-''"
    by (rule decimal_of_nat_Cons[of "nat i"])
  have "list_all is_digit (c # cs)" by (metis d(1) list_all_digit_decimal)
  with False d show ?thesis by (simp add: decimal_of_int_def)
qed

lemma bigint_of_decimal: "bigint_of_string (decimal_of_int i) = i"
proof (cases "i < 0")
  case True
  then show ?thesis by (simp add: decimal_of_int_def nat_of_digits_decimal)
next
  case False
  obtain c cs where d: "decimal_of_nat (nat i) = c # cs" "c \<noteq> CHR ''-''"
    by (rule decimal_of_nat_Cons[of "nat i"])
  have "nat_of_digits 0 (c # cs) = nat i" by (metis d(1) nat_of_digits_decimal)
  with False d show ?thesis by (simp add: decimal_of_int_def)
qed

lemma microRubFromJson_ToJson: "microRubFromJson (microRubToJson v) = Inr v"
  by (simp add: microRubFromJson_def microRubToJson_def js_trim_id decimal_of_int_not_white
      decimal_of_int_pattern bigint_of_decimal)

lemma topup_budget_bounds:
  assumes "topupProviderBudgetMicroRub a r = Inr g"
  shows "0 \<le> g" and "g \<le> a" and "g * 10000 \<le> a * r" and "a * r < (g + 1) * 10000"
proof -
  from assms have h: "0 \<le> a" "0 \<le> r" "r \<le> 10000" "g = (a * r) div 10000"
    by (auto simp: topupProviderBudgetMicroRub_def money_consts sdiv_nonneg_div split: if_splits)
  then show "0 \<le> g" by (simp add: pos_imp_zdiv_nonneg_iff)
  have "a * r \<le> a * 10000" using h by (intro mult_left_mono) auto
  then show "g \<le> a" using h(4) by linarith
  have d: "a * r = g * 10000 + (a * r) mod 10000" "0 \<le> (a * r) mod 10000" "(a * r) mod 10000 < 10000"
    using h(4) by simp_all
  then show "g * 10000 \<le> a * r" by linarith
  have "(g + 1) * 10000 = g * 10000 + 10000" by simp
  with d show "a * r < (g + 1) * 10000" by linarith
qed

lemma applyBpsCeil_bounds:
  assumes "applyBpsCeil a b = Inr f"
  shows "0 \<le> f" and "f \<le> a" and "a * b \<le> f * 10000" and "f * 10000 < a * b + 10000"
proof -
  from assms have h: "0 \<le> a" "0 \<le> b" "b \<le> 10000" "f = (a * b + 9999) div 10000"
    by (auto simp: applyBpsCeil_def money_consts sdiv_nonneg_div split: if_splits)
  have p: "0 \<le> a * b" using h by simp
  then show "0 \<le> f" using h(4) by (simp add: pos_imp_zdiv_nonneg_iff)
  have "a * b \<le> a * 10000" using h by (intro mult_left_mono) auto
  then show "f \<le> a" using h(4) by linarith
  show "a * b \<le> f * 10000" using h(4) by linarith
  show "f * 10000 < a * b + 10000" using h(4) by linarith
qed

text \<open>Both percentages succeed on every non-negative amount and every ratio up to 100%.\<close>

lemma applyBpsCeil_total: "0 \<le> a \<Longrightarrow> 0 \<le> b \<Longrightarrow> b \<le> 10000 \<Longrightarrow> \<exists>f. applyBpsCeil a b = Inr f"
  by (auto simp: applyBpsCeil_def money_consts)

lemma kopecks_roundtrip:
  "microRubToKopecks a = Inr k \<Longrightarrow> kopecksToMicroRub k = Inr a"
  by (auto simp: microRubToKopecks_def kopecksToMicroRub_def money_consts sdiv_nonneg_div
      smod_nonneg_mod split: if_splits)

lemma kopecks_roundtrip_back:
  "kopecksToMicroRub k = Inr a \<Longrightarrow> microRubToKopecks a = Inr k"
  by (auto simp: microRubToKopecks_def kopecksToMicroRub_def money_consts sdiv_nonneg_div
      smod_nonneg_mod split: if_splits)

lemma usedPercentFloor_range:
  assumes "0 \<le> c"
  shows "0 \<le> usedPercentFloor c t" "usedPercentFloor c t \<le> 100"
  using assms by (auto simp: usedPercentFloor_def Let_def sdiv_nonneg_div pos_imp_zdiv_nonneg_iff)

section \<open>Properties\<close>

text \<open>
  Amounts survive their JSON form: every microRUB amount, negative ones included, is
  printed as a decimal string that \<open>microRubFromJson\<close> accepts and reads back unchanged.
\<close>

theorem money_json_roundtrip: "microRubFromJson (microRubToJson v) = Inr v"
  by (rule microRubFromJson_ToJson)

end
