(* ===== verification/Fee_Economics.thy ===== *)
theory Fee_Economics
  imports Money
begin

text \<open>
  The economics of a payment: \<open>fee-estimate.ts\<close> (acquiring, fiscalization and tax
  estimates, always rounded up), \<open>payment-method.ts\<close> (the method names) and
  \<open>tariff-simulator.ts\<close> (the contribution of a tariff under every payment method and
  the guardrail on its margin).
\<close>

section \<open>fee-estimate.ts\<close>

record acquiring_fee_policy =
  feeBps :: int
  feeVatBps :: int
  minimumFeeMicroRub :: "microRub option"
  fixedFeeMicroRub :: "microRub option"

record fiscalization_fee_policy =
  percentageBps :: "int option"
  fiscalFixedFeeMicroRub :: "microRub option"

record estimated_acquiring_fee =
  feeMicroRub :: microRub
  vatMicroRub :: microRub

definition estimateAcquiringFee ::
    "microRub \<Rightarrow> acquiring_fee_policy \<Rightarrow> js_error + estimated_acquiring_fee" where
  "estimateAcquiringFee gross policy =
    rbind (applyBpsCeil gross (feeBps policy)) (\<lambda>fee0.
      let fee1 = (case fixedFeeMicroRub policy of None \<Rightarrow> fee0 | Some x \<Rightarrow> fee0 + x);
          fee2 = (case minimumFeeMicroRub policy of
                    None \<Rightarrow> fee1 | Some m \<Rightarrow> if fee1 < m then m else fee1)
      in rbind (applyBpsCeil fee2 (feeVatBps policy)) (\<lambda>vat.
           Inr \<lparr>feeMicroRub = fee2, vatMicroRub = vat\<rparr>))"

definition estimateFiscalizationFee ::
    "microRub \<Rightarrow> fiscalization_fee_policy \<Rightarrow> js_error + microRub" where
  "estimateFiscalizationFee gross policy =
    rbind (case percentageBps policy of None \<Rightarrow> Inr 0 | Some b \<Rightarrow> applyBpsCeil gross b) (\<lambda>fee.
      Inr (case fiscalFixedFeeMicroRub policy of None \<Rightarrow> fee | Some x \<Rightarrow> fee + x))"

definition estimateTaxReserve :: "microRub \<Rightarrow> int \<Rightarrow> js_error + microRub" where
  "estimateTaxReserve netSales reserveBps = applyBpsCeil netSales reserveBps"

datatype fee_quality = ACTUAL | ESTIMATED | PARTIAL | UNKNOWN

definition chooseFee :: "microRub option \<Rightarrow> microRub option \<Rightarrow> microRub \<times> fee_quality" where
  "chooseFee actual estimated =
    (case actual of Some a \<Rightarrow> (a, ACTUAL)
     | None \<Rightarrow> (case estimated of Some e \<Rightarrow> (e, ESTIMATED) | None \<Rightarrow> (0, UNKNOWN)))"

text \<open>\<open>new Set(qualities)\<close> is the list without repetitions, its \<open>size\<close> the length.\<close>

definition mergeQuality :: "fee_quality list \<Rightarrow> fee_quality" where
  "mergeQuality qualities =
    (let unique = remdups qualities in
     if length unique = 0 \<or> (length unique = 1 \<and> List.member unique UNKNOWN) then UNKNOWN
     else if List.member unique PARTIAL then PARTIAL
     else if List.member unique UNKNOWN \<and> length unique > 1 then PARTIAL
     else if List.member unique ACTUAL \<and> List.member unique ESTIMATED then PARTIAL
     else if List.member unique ACTUAL then ACTUAL
     else ESTIMATED)"

section \<open>payment-method.ts\<close>

datatype payment_method = CARD | SBP | T_PAY | OTHER_METHOD | UNKNOWN_METHOD

section \<open>tariff-simulator.ts\<close>

datatype guardrail_assessment = SAFE | WARNING | NEGATIVE

record tariff_assumptions =
  ta_priceMicroRub :: microRub
  ta_monthlyUsageGrantMicroRub :: microRub
  ta_paymentFees :: "payment_method \<Rightarrow> acquiring_fee_policy option"
  ta_fiscalization :: "fiscalization_fee_policy option"
  ta_taxReserveBps :: "int option"
  ta_otherVariableCostMicroRub :: "microRub option"
  ta_targetMinimumMarginBps :: "int option"

record payment_method_simulation =
  sim_paymentMethod :: payment_method
  sim_paymentCostMicroRub :: microRub
  sim_fiscalizationCostMicroRub :: microRub
  sim_taxReserveMicroRub :: "microRub option"
  sim_maxAiCommitmentMicroRub :: microRub
  sim_conservativeContributionMicroRub :: microRub
  sim_conservativeMarginBps :: "int option"
  sim_guardrail :: guardrail_assessment

definition assessGuardrail :: "int option \<Rightarrow> int \<Rightarrow> guardrail_assessment" where
  "assessGuardrail marginBps targetMinimumMarginBps =
    (case marginBps of
       None \<Rightarrow> NEGATIVE
     | Some m \<Rightarrow> if m < 0 then NEGATIVE else if m < targetMinimumMarginBps then WARNING else SAFE)"

definition simulateOne ::
    "payment_method \<Rightarrow> acquiring_fee_policy \<Rightarrow> tariff_assumptions \<Rightarrow> js_error + payment_method_simulation"
where
  "simulateOne method feePolicy inp =
    rbind (estimateAcquiringFee (ta_priceMicroRub inp) feePolicy) (\<lambda>acquiring.
    let paymentCost = feeMicroRub acquiring + vatMicroRub acquiring in
    rbind (case ta_fiscalization inp of
             None \<Rightarrow> Inr 0 | Some f \<Rightarrow> estimateFiscalizationFee (ta_priceMicroRub inp) f) (\<lambda>fiscalizationCost.
    let netAfterFees = ta_priceMicroRub inp - paymentCost - fiscalizationCost in
    rbind (case ta_taxReserveBps inp of
             None \<Rightarrow> Inr None
           | Some b \<Rightarrow> rbind (estimateTaxReserve (if netAfterFees < 0 then 0 else netAfterFees) b)
                         (\<lambda>t. Inr (Some t))) (\<lambda>taxReserve.
    let otherCost = (case ta_otherVariableCostMicroRub inp of None \<Rightarrow> 0 | Some x \<Rightarrow> x);
        tax = (case taxReserve of None \<Rightarrow> 0 | Some x \<Rightarrow> x);
        contribution = ta_priceMicroRub inp - paymentCost - fiscalizationCost - tax - otherCost
                       - ta_monthlyUsageGrantMicroRub inp;
        margin = marginBpsFloor contribution (ta_priceMicroRub inp)
    in Inr \<lparr>sim_paymentMethod = method,
            sim_paymentCostMicroRub = paymentCost,
            sim_fiscalizationCostMicroRub = fiscalizationCost,
            sim_taxReserveMicroRub = taxReserve,
            sim_maxAiCommitmentMicroRub = ta_monthlyUsageGrantMicroRub inp,
            sim_conservativeContributionMicroRub = contribution,
            sim_conservativeMarginBps = margin,
            sim_guardrail = assessGuardrail margin
              (case ta_targetMinimumMarginBps inp of None \<Rightarrow> 0 | Some t \<Rightarrow> t)\<rparr>)))"

definition simulate_step ::
    "tariff_assumptions \<Rightarrow> payment_method \<Rightarrow> payment_method_simulation list
     \<Rightarrow> js_error + payment_method_simulation list" where
  "simulate_step inp method methods =
    (case ta_paymentFees inp method of
       None \<Rightarrow> Inr methods
     | Some feePolicy \<Rightarrow> rbind (simulateOne method feePolicy inp) (\<lambda>m. Inr (methods @ [m])))"

text \<open>\<open>methods.reduce\<close> without an initial value: the first element is the accumulator.\<close>

fun worst_case :: "payment_method_simulation list \<Rightarrow> payment_method_simulation option" where
  "worst_case [] = None"
| "worst_case (m # ms) =
    Some (foldl (\<lambda>worst current.
      if sim_conservativeContributionMicroRub current < sim_conservativeContributionMicroRub worst
      then current else worst) m ms)"

definition simulateTariffEconomics ::
    "tariff_assumptions
     \<Rightarrow> js_error + (payment_method_simulation list \<times> payment_method_simulation option)" where
  "simulateTariffEconomics inp =
    rbind (fold_res (simulate_step inp) [CARD, SBP, T_PAY, OTHER_METHOD] []) (\<lambda>methods.
      Inr (methods, worst_case methods))"

section \<open>Lemmas\<close>

lemma worst_case_least:
  assumes "worst_case ms = Some w"
  shows "w \<in> set ms" and "\<forall>m \<in> set ms. sim_conservativeContributionMicroRub w \<le> sim_conservativeContributionMicroRub m"
proof -
  let ?c = sim_conservativeContributionMicroRub
  let ?f = "\<lambda>worst current. if ?c current < ?c worst then current else worst"
  have fold: "foldl ?f a xs \<in> insert a (set xs) \<and> (\<forall>m \<in> insert a (set xs). ?c (foldl ?f a xs) \<le> ?c m)"
    for a xs
  proof (induction xs arbitrary: a)
    case Nil
    then show ?case by simp
  next
    case (Cons x xs)
    from Cons.IH[of "?f a x"] show ?case by (auto split: if_splits)
  qed
  from assms obtain a xs where "ms = a # xs" "w = foldl ?f a xs" by (cases ms) auto
  with fold[of a xs] show "w \<in> set ms" "\<forall>m \<in> set ms. ?c w \<le> ?c m" by auto
qed

lemma worst_case_None: "worst_case ms = None \<longleftrightarrow> ms = []"
  by (cases ms) auto

lemma simulateOne_identity:
  assumes "simulateOne method feePolicy inp = Inr s"
  shows "sim_conservativeContributionMicroRub s =
      ta_priceMicroRub inp - sim_paymentCostMicroRub s - sim_fiscalizationCostMicroRub s
      - (case sim_taxReserveMicroRub s of None \<Rightarrow> 0 | Some t \<Rightarrow> t)
      - (case ta_otherVariableCostMicroRub inp of None \<Rightarrow> 0 | Some x \<Rightarrow> x)
      - sim_maxAiCommitmentMicroRub s"
    and "sim_paymentMethod s = method"
    and "sim_conservativeMarginBps s =
      marginBpsFloor (sim_conservativeContributionMicroRub s) (ta_priceMicroRub inp)"
    and "sim_guardrail s = assessGuardrail (sim_conservativeMarginBps s)
      (case ta_targetMinimumMarginBps inp of None \<Rightarrow> 0 | Some t \<Rightarrow> t)"
  using assms by (auto simp: simulateOne_def rbind_eq_Inr Let_def)

lemma simulate_fold:
  assumes "fold_res (simulate_step inp) ms acc = Inr out"
  shows "\<exists>new. out = acc @ new \<and>
    map sim_paymentMethod new = filter (\<lambda>m. ta_paymentFees inp m \<noteq> None) ms \<and>
    (\<forall>s \<in> set new. \<exists>p. ta_paymentFees inp (sim_paymentMethod s) = Some p \<and>
       simulateOne (sim_paymentMethod s) p inp = Inr s)"
  using assms
proof (induction ms arbitrary: acc)
  case Nil
  then show ?case by simp
next
  case (Cons m ms)
  show ?case
  proof (cases "ta_paymentFees inp m")
    case None
    with Cons show ?thesis by (simp add: simulate_step_def)
  next
    case (Some p)
    from Cons.prems obtain t where t: "simulate_step inp m acc = Inr t"
      "fold_res (simulate_step inp) ms t = Inr out"
      by (auto simp: rbind_eq_Inr)
    from t(1) Some obtain s where "simulateOne m p inp = Inr s" "t = acc @ [s]"
      by (auto simp: simulate_step_def rbind_eq_Inr)
    with t(2) have s: "simulateOne m p inp = Inr s"
      "fold_res (simulate_step inp) ms (acc @ [s]) = Inr out" by simp_all
    from Cons.IH[OF s(2)] obtain new where
      "out = (acc @ [s]) @ new"
      "map sim_paymentMethod new = filter (\<lambda>m. ta_paymentFees inp m \<noteq> None) ms"
      "\<forall>s \<in> set new. \<exists>p. ta_paymentFees inp (sim_paymentMethod s) = Some p \<and>
         simulateOne (sim_paymentMethod s) p inp = Inr s"
      by blast
    with Some s simulateOne_identity(2)[OF s(1)] show ?thesis
      by (intro exI[of _ "s # new"]) auto
  qed
qed

lemma mergeQuality_ACTUAL:
  "mergeQuality qs = ACTUAL \<longleftrightarrow> qs \<noteq> [] \<and> set qs = {ACTUAL}"
proof -
  have u: "set (remdups qs) = set qs" by simp
  have l: "length (remdups qs) = card (set qs)" by (simp add: length_remdups_card_conv)
  have all: "set qs \<subseteq> {ACTUAL, ESTIMATED, PARTIAL, UNKNOWN}" by (auto intro: fee_quality.exhaust)
  show ?thesis
  proof
    assume a: "mergeQuality qs = ACTUAL"
    then have n: "PARTIAL \<notin> set qs" "ACTUAL \<in> set qs" "ESTIMATED \<notin> set qs"
      "UNKNOWN \<in> set qs \<Longrightarrow> card (set qs) \<le> 1"
      by (auto simp: mergeQuality_def Let_def l split: if_splits)
    have "UNKNOWN \<notin> set qs"
    proof
      assume "UNKNOWN \<in> set qs"
      with n have "{UNKNOWN, ACTUAL} \<subseteq> set qs" "card (set qs) \<le> 1" by auto
      then have "card {UNKNOWN, ACTUAL} \<le> 1" using card_mono[OF finite_set] le_trans by blast
      then show False by simp
    qed
    with n all show "qs \<noteq> [] \<and> set qs = {ACTUAL}" by fastforce
  next
    assume "qs \<noteq> [] \<and> set qs = {ACTUAL}"
    then show "mergeQuality qs = ACTUAL" by (simp add: mergeQuality_def Let_def l)
  qed
qed

section \<open>Properties\<close>

text \<open>
  An estimated acquiring fee is never understated: it is at least the exact
  percentage plus the fixed fee and at least the minimum, exceeds the larger of the two by
  less than one microRUB, and the VAT on it is rounded up in the same way.
\<close>

theorem acquiring_fee_never_understated:
  assumes "estimateAcquiringFee gross policy = Inr e"
  defines "fixed \<equiv> (case fixedFeeMicroRub policy of None \<Rightarrow> 0 | Some x \<Rightarrow> x)"
  shows "gross * feeBps policy \<le> (feeMicroRub e - fixed) * 10000
    \<and> (\<forall>m. minimumFeeMicroRub policy = Some m \<longrightarrow> m \<le> feeMicroRub e)
    \<and> ((feeMicroRub e - fixed) * 10000 < gross * feeBps policy + 10000
       \<or> minimumFeeMicroRub policy = Some (feeMicroRub e))
    \<and> feeMicroRub e * feeVatBps policy \<le> vatMicroRub e * 10000
    \<and> vatMicroRub e * 10000 < feeMicroRub e * feeVatBps policy + 10000"
proof -
  define lift where "lift fee1 = (case minimumFeeMicroRub policy of
      None \<Rightarrow> fee1 | Some m \<Rightarrow> if fee1 < m then m else fee1)" for fee1
  have plus_fixed: "(case fixedFeeMicroRub policy of None \<Rightarrow> f0 | Some x \<Rightarrow> f0 + x) = f0 + fixed" for f0
    by (simp add: fixed_def split: option.split)
  have "estimateAcquiringFee gross policy =
      rbind (applyBpsCeil gross (feeBps policy)) (\<lambda>fee0.
        rbind (applyBpsCeil (lift (fee0 + fixed)) (feeVatBps policy)) (\<lambda>vat.
          Inr \<lparr>feeMicroRub = lift (fee0 + fixed), vatMicroRub = vat\<rparr>))"
    unfolding estimateAcquiringFee_def plus_fixed Let_def lift_def ..
  with assms(1) obtain fee0 where f: "applyBpsCeil gross (feeBps policy) = Inr fee0"
    "feeMicroRub e = lift (fee0 + fixed)"
    "applyBpsCeil (feeMicroRub e) (feeVatBps policy) = Inr (vatMicroRub e)"
    by (auto simp: rbind_eq_Inr)
  note b = applyBpsCeil_bounds[OF f(1)] applyBpsCeil_bounds[OF f(3)]
  have "fee0 + fixed \<le> feeMicroRub e"
    "feeMicroRub e = fee0 + fixed \<or> minimumFeeMicroRub policy = Some (feeMicroRub e)"
    "\<forall>m. minimumFeeMicroRub policy = Some m \<longrightarrow> m \<le> feeMicroRub e"
    using f(2) by (auto simp: lift_def split: option.splits if_splits)
  with b show ?thesis by auto
qed

definition card_policy :: acquiring_fee_policy where
  "card_policy = \<lparr>feeBps = 249, feeVatBps = 2000, minimumFeeMicroRub = Some 3490000,
    fixedFeeMicroRub = None\<rparr>"

theorem acquiring_fee_never_understated_witness:
  "estimateAcquiringFee 150000001 card_policy = Inr \<lparr>feeMicroRub = 3735001, vatMicroRub = 747001\<rparr>
   \<and> 150000001 * 249 \<le> (3735001 - 0) * (10000::int)"
proof -
  have h: "estimateAcquiringFee 150000001 card_policy = Inr \<lparr>feeMicroRub = 3735001, vatMicroRub = 747001\<rparr>"
    by (simp add: estimateAcquiringFee_def card_policy_def applyBpsCeil_def money_consts
        sdiv_nonneg_div)
  show ?thesis
    using h acquiring_fee_never_understated[OF h] by (simp add: card_policy_def)
qed

text \<open>
  The tariff simulator reports exactly the payment methods that have a fee policy, in
  catalogue order; every reported contribution is the price minus all of its costs and the
  AI grant; and the reported worst case is one of the simulations and has the least
  contribution (it is absent exactly when no method has a policy).
\<close>

theorem tariff_simulation_correct:
  assumes "simulateTariffEconomics inp = Inr (methods, worst)"
  shows "map sim_paymentMethod methods =
      filter (\<lambda>m. ta_paymentFees inp m \<noteq> None) [CARD, SBP, T_PAY, OTHER_METHOD]
    \<and> (\<forall>s \<in> set methods. sim_conservativeContributionMicroRub s =
        ta_priceMicroRub inp - sim_paymentCostMicroRub s - sim_fiscalizationCostMicroRub s
        - (case sim_taxReserveMicroRub s of None \<Rightarrow> 0 | Some t \<Rightarrow> t)
        - (case ta_otherVariableCostMicroRub inp of None \<Rightarrow> 0 | Some x \<Rightarrow> x)
        - sim_maxAiCommitmentMicroRub s)
    \<and> (case worst of
         None \<Rightarrow> methods = []
       | Some w \<Rightarrow> w \<in> set methods \<and> (\<forall>m \<in> set methods.
           sim_conservativeContributionMicroRub w \<le> sim_conservativeContributionMicroRub m))"
proof -
  from assms have f: "fold_res (simulate_step inp) [CARD, SBP, T_PAY, OTHER_METHOD] [] = Inr methods"
    and w: "worst = worst_case methods"
    by (auto simp: simulateTariffEconomics_def rbind_eq_Inr)
  from simulate_fold[OF f] have
    m: "map sim_paymentMethod methods =
      filter (\<lambda>m. ta_paymentFees inp m \<noteq> None) [CARD, SBP, T_PAY, OTHER_METHOD]"
    and s: "\<forall>s \<in> set methods. \<exists>p. simulateOne (sim_paymentMethod s) p inp = Inr s"
    by auto
  from s have "\<forall>s \<in> set methods. sim_conservativeContributionMicroRub s =
        ta_priceMicroRub inp - sim_paymentCostMicroRub s - sim_fiscalizationCostMicroRub s
        - (case sim_taxReserveMicroRub s of None \<Rightarrow> 0 | Some t \<Rightarrow> t)
        - (case ta_otherVariableCostMicroRub inp of None \<Rightarrow> 0 | Some x \<Rightarrow> x)
        - sim_maxAiCommitmentMicroRub s"
    using simulateOne_identity(1) by blast
  moreover have "case worst of
         None \<Rightarrow> methods = []
       | Some w \<Rightarrow> w \<in> set methods \<and> (\<forall>m \<in> set methods.
           sim_conservativeContributionMicroRub w \<le> sim_conservativeContributionMicroRub m)"
    using worst_case_least worst_case_None unfolding w by (auto split: option.split)
  ultimately show ?thesis using m by blast
qed

definition sample_tariff :: tariff_assumptions where
  "sample_tariff = \<lparr>ta_priceMicroRub = 199000000, ta_monthlyUsageGrantMicroRub = 60000000,
    ta_paymentFees = (\<lambda>m. if m = CARD then Some card_policy
      else if m = SBP then Some (card_policy\<lparr>feeBps := 70, minimumFeeMicroRub := None\<rparr>) else None),
    ta_fiscalization = None, ta_taxReserveBps = Some 600, ta_otherVariableCostMicroRub = None,
    ta_targetMinimumMarginBps = Some 2000\<rparr>"

theorem tariff_simulation_correct_witness:
  "\<exists>methods w. simulateTariffEconomics sample_tariff = Inr (methods, Some w)
    \<and> map sim_paymentMethod methods = [CARD, SBP] \<and> sim_paymentMethod w = CARD
    \<and> w \<in> set methods"
proof -
  have "\<exists>methods w. simulateTariffEconomics sample_tariff = Inr (methods, Some w) \<and> sim_paymentMethod w = CARD"
    by (simp add: simulateTariffEconomics_def simulate_step_def simulateOne_def sample_tariff_def
        card_policy_def estimateAcquiringFee_def estimateTaxReserve_def applyBpsCeil_def
        money_consts sdiv_nonneg_div Let_def marginBpsFloor_def)
  then obtain methods w where h: "simulateTariffEconomics sample_tariff = Inr (methods, Some w)"
    "sim_paymentMethod w = CARD" by blast
  from tariff_simulation_correct[OF h(1)] have "map sim_paymentMethod methods = [CARD, SBP]" "w \<in> set methods"
    by (auto simp: sample_tariff_def)
  with h show ?thesis by (intro exI[of _ methods] exI[of _ w]) simp
qed

end
