(* ===== verification/Allocation.thy ===== *)
theory Allocation
  imports Money
begin

text \<open>
  \<open>packages/billing/src/allocation.ts\<close>: how a reservation is spread over a user's usage
  buckets. Instants are milliseconds (\<open>Date.getTime()\<close>), \<open>null\<close> is \<open>None\<close>, and row
  ids, which the code only compares for equality, are numbers. The comparison callback is
  interpreted as a \<open>comparator\<close>, so \<open>[...buckets].sort(compareBucketPriority)\<close> orders
  the buckets; \<open>takes\<close> is the greedy specification the loop refines.
\<close>

datatype usage_bucket_type = MONTHLY | TOPUP

record locked_bucket =
  lb_id :: nat
  lb_type :: usage_bucket_type
  lb_total :: microRub
  lb_spent :: microRub
  lb_reserved :: microRub
  lb_expiresAt :: "int option"
  lb_createdAt :: int

record allocation_plan =
  ap_bucketId :: nat
  ap_reserved :: microRub

definition bucketTypeRank :: "usage_bucket_type \<Rightarrow> int" where
  "bucketTypeRank type = (if type = MONTHLY then 0 else 1)"

definition compareBucketPriority :: "locked_bucket \<Rightarrow> locked_bucket \<Rightarrow> int" where
  "compareBucketPriority left right =
    (let leftRank = bucketTypeRank (lb_type left); rightRank = bucketTypeRank (lb_type right);
         byCreation = lb_createdAt left - lb_createdAt right
     in if leftRank \<noteq> rightRank then leftRank - rightRank
        else (case (lb_expiresAt left, lb_expiresAt right) of
            (Some l, Some r) \<Rightarrow> if l - r \<noteq> 0 then l - r else byCreation
          | (Some _, None) \<Rightarrow> -1
          | (None, Some _) \<Rightarrow> 1
          | (None, None) \<Rightarrow> byCreation))"

abbreviation lb_available :: "locked_bucket \<Rightarrow> microRub" where
  "lb_available b \<equiv> availableMicroRub (lb_total b) (lb_spent b) (lb_reserved b)"

text \<open>The loop over the ordered buckets: \<open>remaining\<close> and the allocations so far.\<close>

fun plan_loop ::
    "locked_bucket list \<Rightarrow> microRub \<Rightarrow> allocation_plan list \<Rightarrow> allocation_plan list \<times> microRub" where
  "plan_loop [] remaining acc = (acc, remaining)"
| "plan_loop (bucket # buckets) remaining acc =
    (if remaining = 0 then (acc, remaining)
     else let available = lb_available bucket in
       if available \<le> 0 then plan_loop buckets remaining acc
       else let take = (if available < remaining then available else remaining)
         in plan_loop buckets (remaining - take)
              (acc @ [\<lparr>ap_bucketId = lb_id bucket, ap_reserved = take\<rparr>]))"

definition planReservationAllocations ::
    "locked_bucket list \<Rightarrow> microRub \<Rightarrow> allocation_plan list option" where
  "planReservationAllocations buckets estimated =
    (if estimated \<le> 0 then None
     else case plan_loop (js_sort compareBucketPriority buckets) estimated [] of
       (allocations, remaining) \<Rightarrow> if remaining > 0 then None else Some allocations)"

section \<open>The priority order\<close>

interpretation bucket_priority: comparator compareBucketPriority
proof unfold_locales
  fix x y z :: locked_bucket
  show "compareBucketPriority x y < 0 \<longleftrightarrow> 0 < compareBucketPriority y x"
    by (auto simp: compareBucketPriority_def Let_def bucketTypeRank_def split: option.splits)
  assume "compareBucketPriority x y \<le> 0" and "compareBucketPriority y z \<le> 0"
  then show "compareBucketPriority x z \<le> 0"
    by (auto simp: compareBucketPriority_def Let_def bucketTypeRank_def
        split: option.splits if_splits)
qed

section \<open>The greedy specification\<close>

text \<open>Each bucket in turn gives what it has, up to what is still wanted.\<close>

fun takes :: "microRub \<Rightarrow> locked_bucket list \<Rightarrow> (locked_bucket \<times> microRub) list" where
  "takes r [] = []"
| "takes r (b # bs) = (let t = min (max 0 (lb_available b)) r in (b, t) # takes (r - t) bs)"

definition to_plan :: "locked_bucket \<times> microRub \<Rightarrow> allocation_plan" where
  "to_plan bt = \<lparr>ap_bucketId = lb_id (fst bt), ap_reserved = snd bt\<rparr>"

lemma to_plan_simps [simp]:
  "ap_bucketId (to_plan bt) = lb_id (fst bt)" "ap_reserved (to_plan bt) = snd bt"
  by (simp_all add: to_plan_def)

definition spendable :: "locked_bucket list \<Rightarrow> microRub" where
  "spendable bs = sum_list (map (\<lambda>b. max 0 (lb_available b)) bs)"

lemma spendable_Cons: "spendable (b # bs) = max 0 (lb_available b) + spendable bs"
  by (simp add: spendable_def)

lemma spendable_nonneg: "0 \<le> spendable bs"
  unfolding spendable_def by (rule sum_list_nonneg_int) simp

lemma takes_zero: "filter (\<lambda>bt. 0 < snd bt) (takes 0 bs) = []"
  by (induction bs) (auto simp: Let_def)

lemma sum_takes: "0 \<le> r \<Longrightarrow> sum_list (map snd (takes r bs)) = min r (spendable bs)"
proof (induction bs arbitrary: r)
  case Nil
  then show ?case by (simp add: spendable_def)
next
  case (Cons b bs)
  have "0 \<le> r - min (max 0 (lb_available b)) r" by simp
  from Cons.IH[OF this] show ?case
    using spendable_nonneg[of bs] Cons.prems
    by (simp add: Let_def spendable_Cons min_def max_def)
qed

lemma plan_loop_takes:
  "0 \<le> r \<Longrightarrow> plan_loop bs r acc =
    (acc @ map to_plan (filter (\<lambda>bt. 0 < snd bt) (takes r bs)), r - min r (spendable bs))"
proof (induction bs arbitrary: r acc)
  case Nil
  then show ?case by (simp add: spendable_def)
next
  case (Cons b bs)
  show ?case
  proof (cases "r = 0")
    case True
    then show ?thesis
      using takes_zero[of "b # bs"] spendable_nonneg[of "b # bs"] by simp
  next
    case False
    with Cons show ?thesis
      using spendable_nonneg[of bs]
      by (auto simp: Let_def spendable_Cons to_plan_def max_def min_def)
  qed
qed

lemma map_fst_takes: "map fst (takes r bs) = bs"
  by (induction bs arbitrary: r) (auto simp: Let_def)

lemma takes_bounds:
  "0 \<le> r \<Longrightarrow> (b, t) \<in> set (takes r bs) \<Longrightarrow> b \<in> set bs \<and> 0 \<le> t \<and> t \<le> max 0 (lb_available b)"
proof (induction bs arbitrary: r)
  case Nil
  then show ?case by simp
next
  case (Cons a bs)
  define s where "s = min (max 0 (lb_available a)) r"
  have s: "0 \<le> r - s" "0 \<le> s" "s \<le> max 0 (lb_available a)"
    using Cons.prems(1) by (simp_all add: s_def)
  from Cons.prems(2) consider "b = a" "t = s" | "(b, t) \<in> set (takes (r - s) bs)"
    by (auto simp: Let_def s_def)
  then show ?case
  proof cases
    case 1
    then show ?thesis using s by simp
  next
    case 2
    then show ?thesis using Cons.IH[OF s(1)] by simp
  qed
qed

text \<open>Greedy: a bucket gives something only when all before it are drained.\<close>

lemma takes_greedy:
  "0 \<le> r \<Longrightarrow> takes r bs = xs @ (b, t) # ys \<Longrightarrow> 0 < t \<Longrightarrow> (c, u) \<in> set xs \<Longrightarrow>
    u = max 0 (lb_available c)"
proof (induction bs arbitrary: r xs)
  case Nil
  then show ?case by simp
next
  case (Cons a bs)
  define s where "s = min (max 0 (lb_available a)) r"
  have s0: "0 \<le> r - s" by (simp add: s_def)
  from Cons.prems(2,4) obtain xs' where xs: "xs = (a, s) # xs'"
    "takes (r - s) bs = xs' @ (b, t) # ys"
    by (cases xs) (auto simp: Let_def s_def)
  show ?case
  proof (cases "(c, u) \<in> set xs'")
    case True
    with Cons.IH[OF s0 xs(2) Cons.prems(3)] show ?thesis by blast
  next
    case False
    with xs Cons.prems(4) have cu: "c = a" "u = s" by auto
    have "(b, t) \<in> set (takes (r - s) bs)" by (simp add: xs(2))
    have "t \<le> r - s"
    proof -
      have "t \<le> sum_list (map snd (takes (r - s) bs))"
        using takes_bounds[OF s0] sum_list_member_le[of "takes (r - s) bs" snd "(b, t)"]
          \<open>(b, t) \<in> set (takes (r - s) bs)\<close> by force
      then show ?thesis using sum_takes[OF s0] by simp
    qed
    with Cons.prems(3) cu show ?thesis by (auto simp: s_def min_def split: if_splits)
  qed
qed

section \<open>What a plan is\<close>

lemma plan_eq:
  "planReservationAllocations bs e =
    (if e \<le> 0 \<or> spendable bs < e then None
     else Some (map to_plan (filter (\<lambda>bt. 0 < snd bt) (takes e (js_sort compareBucketPriority bs)))))"
proof -
  have "spendable (js_sort compareBucketPriority bs) = spendable bs"
    by (simp add: spendable_def)
  then show ?thesis
    by (simp add: planReservationAllocations_def plan_loop_takes)
qed

lemma plan_Some_sum:
  assumes "planReservationAllocations bs e = Some ps"
  shows "sum_list (map ap_reserved ps) = e"
proof -
  let ?ts = "takes e (js_sort compareBucketPriority bs)"
  from assms have e: "0 < e" "e \<le> spendable bs" and ps: "ps = map to_plan (filter (\<lambda>bt. 0 < snd bt) ?ts)"
    by (auto simp: plan_eq split: if_splits)
  have "sum_list (map snd (filter (\<lambda>bt. 0 < snd bt) ts)) = sum_list (map snd ts)"
    if "\<forall>bt \<in> set ts. 0 \<le> snd bt" for ts :: "(locked_bucket \<times> int) list"
    using that by (induction ts) auto
  moreover have "\<forall>bt \<in> set ?ts. 0 \<le> snd bt"
    using takes_bounds[of e] e(1) by (metis less_imp_le prod.collapse)
  moreover have "sum_list (map snd ?ts) = min e (spendable bs)"
    using sum_takes[of e "js_sort compareBucketPriority bs"] e(1) by (simp add: spendable_def)
  ultimately show ?thesis using e(2) by (simp add: ps to_plan_def comp_def)
qed

lemma plan_Some_member:
  assumes "planReservationAllocations bs e = Some ps" and "p \<in> set ps"
  shows "0 < ap_reserved p \<and>
    (\<exists>b \<in> set bs. lb_id b = ap_bucketId p \<and> ap_reserved p \<le> lb_available b)"
proof -
  let ?ts = "takes e (js_sort compareBucketPriority bs)"
  from assms obtain b t where bt: "(b, t) \<in> set ?ts" "0 < t" "p = to_plan (b, t)" and e: "0 \<le> e"
    by (auto simp: plan_eq split: if_splits)
  from takes_bounds[OF e bt(1)] bt(2) have "b \<in> set bs" "t \<le> lb_available b"
    by (auto simp: max_def split: if_splits)
  with bt(2,3) show ?thesis by (auto simp: to_plan_def)
qed

lemma plan_Some_distinct:
  assumes "planReservationAllocations bs e = Some ps" and "distinct (map lb_id bs)"
  shows "distinct (map ap_bucketId ps)"
proof -
  let ?ts = "takes e (js_sort compareBucketPriority bs)"
  have "map (lb_id \<circ> fst) ?ts = map lb_id (js_sort compareBucketPriority bs)"
    by (metis map_fst_takes map_map)
  then have "distinct (map (lb_id \<circ> fst) ?ts)" using assms(2) by simp
  then have "distinct (map (lb_id \<circ> fst) (filter (\<lambda>bt. 0 < snd bt) ?ts))"
    by (rule distinct_map_filter)
  moreover from assms(1) have "ps = map to_plan (filter (\<lambda>bt. 0 < snd bt) ?ts)"
    by (auto simp: plan_eq split: if_splits)
  ultimately show ?thesis by (simp add: to_plan_def comp_def)
qed

section \<open>Properties\<close>

text \<open>The amount a plan takes from one bucket.\<close>

definition planned :: "allocation_plan list \<Rightarrow> nat \<Rightarrow> microRub" where
  "planned ps i = sum_list (map ap_reserved (filter (\<lambda>p. ap_bucketId p = i) ps))"

lemma planned_takes:
  assumes "distinct (map (lb_id \<circ> fst) ts)" and "(b, t) \<in> set ts" and "0 \<le> t"
  shows "planned (map to_plan (filter (\<lambda>bt. 0 < snd bt) ts)) (lb_id b) = t"
  using assms
proof (induction ts)
  case Nil
  then show ?case by simp
next
  case (Cons x ts)
  have none: "planned (map to_plan (filter (\<lambda>bt. 0 < snd bt) ts)) i = 0"
    if "i \<notin> (lb_id \<circ> fst) ` set ts" for i
    using that unfolding planned_def by (induction ts) auto
  show ?case
  proof (cases "x = (b, t)")
    case True
    with Cons.prems none[of "lb_id b"] show ?thesis by (auto simp: planned_def)
  next
    case False
    with Cons.prems have "(b, t) \<in> set ts" "lb_id (fst x) \<noteq> lb_id b" by force+
    with Cons show ?thesis by (auto simp: planned_def)
  qed
qed

text \<open>
  C5: a reservation is planned exactly when it is positive and the buckets hold enough: the
  plan is \<open>null\<close> otherwise; a plan adds up to the estimate to the microRUB, takes a
  positive amount from each bucket it names and never more than is available there, and names
  no bucket twice.
\<close>

theorem reservation_plan_exact:
  assumes "distinct (map lb_id buckets)"
  shows "case planReservationAllocations buckets e of
      None \<Rightarrow> e \<le> 0 \<or> spendable buckets < e
    | Some ps \<Rightarrow> 0 < e \<and> e \<le> spendable buckets \<and> sum_list (map ap_reserved ps) = e \<and>
        distinct (map ap_bucketId ps) \<and>
        (\<forall>p \<in> set ps. 0 < ap_reserved p \<and>
          (\<exists>b \<in> set buckets. lb_id b = ap_bucketId p \<and> ap_reserved p \<le> lb_available b))"
proof (cases "planReservationAllocations buckets e")
  case None
  then show ?thesis by (auto simp: plan_eq split: if_splits)
next
  case (Some ps)
  then have "0 < e" "e \<le> spendable buckets" by (auto simp: plan_eq split: if_splits)
  with Some show ?thesis
    using plan_Some_sum[OF Some] plan_Some_distinct[OF Some assms] plan_Some_member[OF Some]
    by simp
qed

definition demo_buckets :: "locked_bucket list" where
  "demo_buckets =
    [\<lparr>lb_id = 1, lb_type = TOPUP, lb_total = 500, lb_spent = 0, lb_reserved = 0,
      lb_expiresAt = None, lb_createdAt = 10\<rparr>,
     \<lparr>lb_id = 2, lb_type = MONTHLY, lb_total = 300, lb_spent = 100, lb_reserved = 50,
      lb_expiresAt = Some 900, lb_createdAt = 20\<rparr>,
     \<lparr>lb_id = 3, lb_type = MONTHLY, lb_total = 40, lb_spent = 0, lb_reserved = 0,
      lb_expiresAt = Some 700, lb_createdAt = 30\<rparr>]"

lemma reservation_plan_exact_witness:
  "planReservationAllocations demo_buckets 250 = Some
     [\<lparr>ap_bucketId = 3, ap_reserved = 40\<rparr>, \<lparr>ap_bucketId = 2, ap_reserved = 150\<rparr>,
      \<lparr>ap_bucketId = 1, ap_reserved = 60\<rparr>] \<and>
   250 \<le> spendable demo_buckets \<and> spendable demo_buckets = 690"
proof -
  have d: "distinct (map lb_id demo_buckets)" by (simp add: demo_buckets_def)
  have p: "planReservationAllocations demo_buckets 250 = Some
     [\<lparr>ap_bucketId = 3, ap_reserved = 40\<rparr>, \<lparr>ap_bucketId = 2, ap_reserved = 150\<rparr>,
      \<lparr>ap_bucketId = 1, ap_reserved = 60\<rparr>]"
    by code_simp
  moreover have "250 \<le> spendable demo_buckets"
    using reservation_plan_exact[OF d, of 250] unfolding p by simp
  ultimately show ?thesis
    by (simp add: demo_buckets_def spendable_def availableMicroRub_def)
qed

text \<open>
  Priority: a plan touches a bucket only when every bucket that comes before it
  (monthly before top-up, sooner expiry first, then the older one) is drained completely.
\<close>

theorem reservation_plan_priority:
  assumes "planReservationAllocations buckets e = Some ps" and "distinct (map lb_id buckets)"
    and "b \<in> set buckets" and "c \<in> set buckets" and "compareBucketPriority c b < 0"
    and "0 < planned ps (lb_id b)"
  shows "planned ps (lb_id c) = max 0 (lb_available c)"
proof -
  let ?s = "js_sort compareBucketPriority buckets"
  let ?ts = "takes e ?s"
  from assms(1) have e: "0 \<le> e" and ps: "ps = map to_plan (filter (\<lambda>bt. 0 < snd bt) ?ts)"
    by (auto simp: plan_eq split: if_splits)
  have d: "distinct (map (lb_id \<circ> fst) ?ts)"
    using assms(2) by (metis distinct_map_js_sort map_fst_takes map_map)
  have "b \<in> set (map fst ?ts)" "c \<in> set (map fst ?ts)"
    using assms(3,4) by (simp_all only: map_fst_takes set_js_sort)
  then obtain t u where bt: "(b, t) \<in> set ?ts" and cu: "(c, u) \<in> set ?ts" by auto
  have tu: "planned ps (lb_id b) = t" "planned ps (lb_id c) = u"
    using planned_takes[OF d] bt cu takes_bounds[OF e] ps by blast+
  from bt obtain xs ys where split: "?ts = xs @ (b, t) # ys" by (auto simp: in_set_conv_decomp)
  have "c \<noteq> b" using assms(5) bucket_priority.cmp_refl[of b] by auto
  moreover have "(c, u) \<notin> set ys"
  proof
    assume "(c, u) \<in> set ys"
    moreover have "sorted_wrt (\<lambda>a b. compareBucketPriority a b \<le> 0) (map fst ?ts)"
      by (simp add: map_fst_takes bucket_priority.sorted_js_sort)
    ultimately have "compareBucketPriority b c \<le> 0"
      by (auto simp: split sorted_wrt_append)
    then show False using assms(5) bucket_priority.cmp_antisym[of c b] by simp
  qed
  ultimately have "(c, u) \<in> set xs" using cu split by auto
  from takes_greedy[OF e split _ this] show ?thesis using tu assms(6) by simp
qed

lemma reservation_plan_priority_witness:
  "planned [\<lparr>ap_bucketId = 3, ap_reserved = 40\<rparr>, \<lparr>ap_bucketId = 2, ap_reserved = 150\<rparr>,
     \<lparr>ap_bucketId = 1, ap_reserved = 60\<rparr>] 2 = 150"
proof -
  have "planReservationAllocations demo_buckets 250 = Some
     [\<lparr>ap_bucketId = 3, ap_reserved = 40\<rparr>, \<lparr>ap_bucketId = 2, ap_reserved = 150\<rparr>,
      \<lparr>ap_bucketId = 1, ap_reserved = 60\<rparr>]"
    by code_simp
  from reservation_plan_priority[OF this, of "demo_buckets ! 0" "demo_buckets ! 1"]
  show ?thesis
    by (simp add: demo_buckets_def compareBucketPriority_def bucketTypeRank_def planned_def
        availableMicroRub_def)
qed

end
