(* ===== verification/Billing_Db.thy ===== *)
theory Billing_Db
  imports Allocation
begin

text \<open>
  The usage tables of the billing database (\<open>usage_bucket\<close>, \<open>usage_reservation\<close>,
  \<open>usage_reservation_allocation\<close>, \<open>usage_ledger_entry\<close>) and the accesses of
  \<open>packages/billing/src/billing-engine.ts\<close> to them. Rows are kept in insertion order;
  the ids the database generates are numbers drawn from a counter, user and request ids are
  strings. A transaction holds its row locks to the end, so it is one function from the state
  to an error, which rolls back, or to the new state. \<open>createdAt\<close> of a reservation and
  \<open>updatedAt\<close> columns are never read by the engine and are left out.

  The accounting invariant \<open>usage_ok\<close> relates the columns of the four tables. The
  \<open>CHECK\<close> constraints of the migrations are not guards of the updates here: that no
  operation would violate them is part of the invariant.
\<close>

section \<open>Tables\<close>

record usage_bucket =
  b_id :: nat
  b_userId :: string
  b_type :: usage_bucket_type
  b_total :: microRub
  b_spent :: microRub
  b_reserved :: microRub
  b_expiresAt :: "int option"
  b_sourceType :: string
  b_sourceId :: nat
  b_createdAt :: int

datatype reservation_status = ACTIVE | SETTLED | RELEASED | ANOMALY

record usage_reservation =
  rs_id :: nat
  rs_userId :: string
  rs_requestId :: string
  rs_estimated :: microRub
  rs_settled :: microRub
  rs_status :: reservation_status
  rs_settledAt :: "int option"

record usage_allocation =
  al_id :: nat
  al_reservationId :: nat
  al_bucketId :: nat
  al_reserved :: microRub
  al_settled :: microRub

datatype ledger_type =
    BUCKET_GRANTED | TOPUP_GRANTED | BUCKET_REVOKED | RESERVATION_CREATED | USAGE_SETTLED
  | RESERVATION_RELEASED | ADJUSTMENT

text \<open>A metadata value: a string, \<open>null\<close>, or the id of a row.\<close>

datatype meta_value = MString string | MNull | MId nat

record ledger_entry =
  le_userId :: string
  le_bucketId :: "nat option"
  le_reservationId :: "nat option"
  le_paymentId :: "nat option"
  le_type :: ledger_type
  le_amount :: microRub
  le_metadata :: "(string \<times> meta_value) list"

record usage_db =
  db_buckets :: "usage_bucket list"
  db_reservations :: "usage_reservation list"
  db_allocations :: "usage_allocation list"
  db_ledger :: "ledger_entry list"
  db_next :: nat

section \<open>Accesses\<close>

definition meta_opt :: "string option \<Rightarrow> meta_value" where
  "meta_opt s = (case s of None \<Rightarrow> MNull | Some t \<Rightarrow> MString t)"

definition appendLedger :: "ledger_entry \<Rightarrow> 'a usage_db_scheme \<Rightarrow> 'a usage_db_scheme" where
  "appendLedger entry db = db\<lparr>db_ledger := db_ledger db @ [entry]\<rparr>"

definition to_locked :: "usage_bucket \<Rightarrow> locked_bucket" where
  "to_locked row =
    \<lparr>lb_id = b_id row, lb_type = b_type row, lb_total = b_total row, lb_spent = b_spent row,
     lb_reserved = b_reserved row, lb_expiresAt = b_expiresAt row, lb_createdAt = b_createdAt row\<rparr>"

text \<open>
  \<open>SELECT ... ORDER BY\<close> type, expiry with nulls last, creation \<open>FOR UPDATE\<close>: the order
  of the query is that of \<open>compareBucketPriority\<close>. The rows are the user's buckets that
  have not expired at \<open>now\<close> or are named in \<open>includeIds\<close>.
\<close>

definition unexpired :: "int \<Rightarrow> int option \<Rightarrow> bool" where
  "unexpired now e = (case e of None \<Rightarrow> True | Some t \<Rightarrow> t > now)"

definition lockUserBuckets ::
    "'a usage_db_scheme \<Rightarrow> string \<Rightarrow> nat list \<Rightarrow> int \<Rightarrow> locked_bucket list" where
  "lockUserBuckets db userId includeIds now =
    js_sort compareBucketPriority (map to_locked
      (filter (\<lambda>row. b_userId row = userId \<and>
          (b_id row \<in> set includeIds \<or> unexpired now (b_expiresAt row)))
        (db_buckets db)))"

definition lockReservationForUser ::
    "'a usage_db_scheme \<Rightarrow> string \<Rightarrow> nat \<Rightarrow> js_error + usage_reservation" where
  "lockReservationForUser db userId reservationId =
    the_row (BillingError RESERVATION_NOT_FOUND)
      (find (\<lambda>r. rs_id r = reservationId \<and> rs_userId r = userId) (db_reservations db))"

definition reservation_allocations :: "'a usage_db_scheme \<Rightarrow> nat \<Rightarrow> usage_allocation list" where
  "reservation_allocations db reservationId =
    filter (\<lambda>a. al_reservationId a = reservationId) (db_allocations db)"

record allocation_view =
  av_bucketId :: nat
  av_reserved :: microRub
  av_settled :: microRub

record reservation_view =
  rv_id :: nat
  rv_userId :: string
  rv_requestId :: string
  rv_estimated :: microRub
  rv_settled :: microRub
  rv_status :: reservation_status
  rv_allocations :: "allocation_view list"

definition toReservationView ::
    "usage_reservation \<Rightarrow> usage_allocation list \<Rightarrow> reservation_view" where
  "toReservationView reservation allocations =
    \<lparr>rv_id = rs_id reservation, rv_userId = rs_userId reservation,
     rv_requestId = rs_requestId reservation, rv_estimated = rs_estimated reservation,
     rv_settled = rs_settled reservation, rv_status = rs_status reservation,
     rv_allocations = map (\<lambda>a. \<lparr>av_bucketId = al_bucketId a, av_reserved = al_reserved a,
       av_settled = al_settled a\<rparr>) allocations\<rparr>"

text \<open>\<open>findUniqueOrThrow\<close> throws \<open>P2025\<close> when the row is missing.\<close>

definition getReservation :: "'a usage_db_scheme \<Rightarrow> nat \<Rightarrow> js_error + reservation_view" where
  "getReservation db reservationId =
    rbind (the_row (DbError ''P2025'' '''') (row_find rs_id reservationId (db_reservations db)))
      (\<lambda>r. Inr (toReservationView r (reservation_allocations db reservationId)))"

section \<open>The accounting invariant\<close>

definition is_active :: "usage_reservation list \<Rightarrow> nat \<Rightarrow> bool" where
  "is_active rs i \<longleftrightarrow> (\<exists>r \<in> set rs. rs_id r = i \<and> rs_status r = ACTIVE)"

text \<open>What the allocations that satisfy \<open>P\<close> hold in a bucket, what allocations have
  settled in it, and what the ledger says it has received and given.\<close>

definition held_in :: "(usage_allocation \<Rightarrow> bool) \<Rightarrow> usage_allocation list \<Rightarrow> nat \<Rightarrow> int" where
  "held_in P as i =
    sum_list (map (\<lambda>a. if al_bucketId a = i \<and> P a then al_reserved a else 0) as)"

definition settled_in :: "usage_allocation list \<Rightarrow> nat \<Rightarrow> int" where
  "settled_in as i = sum_list (map (\<lambda>a. if al_bucketId a = i then al_settled a else 0) as)"

definition ledger_balance :: "ledger_entry list \<Rightarrow> nat \<Rightarrow> int" where
  "ledger_balance les i =
    sum_list (map (\<lambda>l. if le_bucketId l = Some i then le_amount l else 0) les)"

definition held_for :: "usage_allocation list \<Rightarrow> nat \<Rightarrow> int" where
  "held_for as r = sum_list (map (\<lambda>a. if al_reservationId a = r then al_reserved a else 0) as)"

definition settled_for :: "usage_allocation list \<Rightarrow> nat \<Rightarrow> int" where
  "settled_for as r = sum_list (map (\<lambda>a. if al_reservationId a = r then al_settled a else 0) as)"

definition bucket_ok :: "(usage_allocation \<Rightarrow> bool) \<Rightarrow> 'a usage_db_scheme \<Rightarrow> usage_bucket \<Rightarrow> bool" where
  "bucket_ok P db b \<longleftrightarrow>
    0 \<le> b_spent b \<and> 0 \<le> b_reserved b \<and> b_spent b + b_reserved b \<le> b_total b \<and>
    b_reserved b = held_in P (db_allocations db) (b_id b) \<and>
    b_spent b = settled_in (db_allocations db) (b_id b) \<and>
    b_total b - b_spent b = ledger_balance (db_ledger db) (b_id b)"

definition reservation_ok :: "'a usage_db_scheme \<Rightarrow> usage_reservation \<Rightarrow> bool" where
  "reservation_ok db r \<longleftrightarrow>
    rs_settled r = settled_for (db_allocations db) (rs_id r) \<and>
    (rs_status r = ACTIVE \<longrightarrow> rs_estimated r = held_for (db_allocations db) (rs_id r) \<and>
      rs_settled r = 0)"

definition allocation_ok :: "'a usage_db_scheme \<Rightarrow> usage_allocation \<Rightarrow> bool" where
  "allocation_ok db a \<longleftrightarrow>
    0 \<le> al_settled a \<and> al_settled a \<le> al_reserved a \<and>
    (\<exists>r \<in> set (db_reservations db). rs_id r = al_reservationId a \<and>
      (\<exists>b \<in> set (db_buckets db). b_id b = al_bucketId a \<and> b_userId b = rs_userId r))"

definition keys_ok :: "'a usage_db_scheme \<Rightarrow> bool" where
  "keys_ok db \<longleftrightarrow>
    distinct (map b_id (db_buckets db)) \<and> distinct (map rs_id (db_reservations db)) \<and>
    distinct (map (\<lambda>r. (rs_userId r, rs_requestId r)) (db_reservations db)) \<and>
    distinct (map al_id (db_allocations db)) \<and>
    distinct (map (\<lambda>a. (al_reservationId a, al_bucketId a)) (db_allocations db)) \<and>
    list_all (\<lambda>i. i < db_next db) (map b_id (db_buckets db)) \<and>
    list_all (\<lambda>i. i < db_next db) (map rs_id (db_reservations db)) \<and>
    list_all (\<lambda>i. i < db_next db) (map al_id (db_allocations db)) \<and>
    (\<forall>l \<in> set (db_ledger db). \<forall>i. le_bucketId l = Some i \<longrightarrow> i < db_next db)"

text \<open>
  \<open>pool_ok P\<close> is the part of the invariant that every single step keeps: the bucket columns
  agree with the allocations \<open>P\<close> that still hold something. Between transactions
  \<open>P\<close> is "the reservation is active" and the reservations agree as well.
\<close>

definition pool_ok :: "(usage_allocation \<Rightarrow> bool) \<Rightarrow> 'a usage_db_scheme \<Rightarrow> bool" where
  "pool_ok P db \<longleftrightarrow> keys_ok db \<and> list_all (bucket_ok P db) (db_buckets db) \<and>
    list_all (allocation_ok db) (db_allocations db)"

abbreviation active_in :: "usage_reservation list \<Rightarrow> usage_allocation \<Rightarrow> bool" where
  "active_in rs a \<equiv> is_active rs (al_reservationId a)"

definition usage_ok :: "'a usage_db_scheme \<Rightarrow> bool" where
  "usage_ok db \<longleftrightarrow> pool_ok (active_in (db_reservations db)) db \<and>
    list_all (reservation_ok db) (db_reservations db)"

end
