(* ===== verification/Usage_Engine.thy ===== *)
theory Usage_Engine
  imports Billing_Db
begin

text \<open>
  The usage half of \<open>packages/billing/src/billing-engine.ts\<close>: \<open>reserveUsage\<close>,
  \<open>settleUsage\<close>, \<open>releaseUsage\<close>, the views, and \<open>withRetry\<close>. A clock reading is an
  argument. Logging is left out.

  The loops update a bucket row from the locked copy they hold (\<open>bucket.reservedMicroRub +
  x\<close>, an absolute value) and then the copy itself; both are kept in the state of the
  loop here.
\<close>

section \<open>Ledger entries\<close>

definition reserve_entry ::
    "string \<Rightarrow> string \<Rightarrow> string option \<Rightarrow> nat \<Rightarrow> nat \<Rightarrow> microRub \<Rightarrow> ledger_entry" where
  "reserve_entry userId requestId correlationId reservationId bucketId amount =
    \<lparr>le_userId = userId, le_bucketId = Some bucketId, le_reservationId = Some reservationId,
     le_paymentId = None, le_type = RESERVATION_CREATED, le_amount = 0,
     le_metadata = [(''correlationId'', meta_opt correlationId),
       (''reservedMicroRub'', MString (microRubToJson amount)),
       (''requestId'', MString requestId)]\<rparr>"

definition settle_entry ::
    "string \<Rightarrow> string option \<Rightarrow> nat \<Rightarrow> nat \<Rightarrow> microRub \<Rightarrow> ledger_entry" where
  "settle_entry userId correlationId reservationId bucketId amount =
    \<lparr>le_userId = userId, le_bucketId = Some bucketId, le_reservationId = Some reservationId,
     le_paymentId = None, le_type = USAGE_SETTLED, le_amount = - amount,
     le_metadata = [(''correlationId'', meta_opt correlationId),
       (''settledMicroRub'', MString (microRubToJson amount))]\<rparr>"

definition release_entry ::
    "string \<Rightarrow> string option \<Rightarrow> nat \<Rightarrow> nat \<Rightarrow> microRub \<Rightarrow> ledger_entry" where
  "release_entry userId correlationId reservationId bucketId amount =
    \<lparr>le_userId = userId, le_bucketId = Some bucketId, le_reservationId = Some reservationId,
     le_paymentId = None, le_type = RESERVATION_RELEASED, le_amount = 0,
     le_metadata = [(''correlationId'', meta_opt correlationId),
       (''releasedMicroRub'', MString (microRubToJson amount))]\<rparr>"

section \<open>reserveUsage\<close>

definition reserve_step ::
    "string \<Rightarrow> string \<Rightarrow> string option \<Rightarrow> nat \<Rightarrow> allocation_plan \<Rightarrow>
      'a usage_db_scheme \<times> locked_bucket list \<Rightarrow>
      js_error + 'a usage_db_scheme \<times> locked_bucket list" where
  "reserve_step userId requestId correlationId reservationId allocation st = (case st of (db, buckets) \<Rightarrow>
    (case find (\<lambda>item. lb_id item = ap_bucketId allocation) buckets of
       None \<Rightarrow> Inl (BillingError FINANCIAL_OPERATION_FAILED)
     | Some bucket \<Rightarrow>
        let created = \<lparr>al_id = db_next db, al_reservationId = reservationId,
              al_bucketId = ap_bucketId allocation, al_reserved = ap_reserved allocation,
              al_settled = 0\<rparr>;
            held = lb_reserved bucket + ap_reserved allocation;
            db1 = db\<lparr>db_allocations := db_allocations db @ [created], db_next := Suc (db_next db),
              db_buckets := row_update b_id (lb_id bucket) (\<lambda>b. b\<lparr>b_reserved := held\<rparr>)
                (db_buckets db)\<rparr>
        in Inr (appendLedger (reserve_entry userId requestId correlationId reservationId
              (lb_id bucket) (ap_reserved allocation)) db1,
            row_update lb_id (lb_id bucket) (\<lambda>lb. lb\<lparr>lb_reserved := held\<rparr>) buckets)))"

definition reserveUsage ::
    "string \<Rightarrow> string \<Rightarrow> microRub \<Rightarrow> string option \<Rightarrow> int \<Rightarrow> 'a usage_db_scheme \<Rightarrow>
      js_error + 'a usage_db_scheme \<times> reservation_view" where
  "reserveUsage userId requestId estimated correlationId now db =
    (if estimated \<le> 0 then Inl (BillingError INSUFFICIENT_USAGE)
     else case find (\<lambda>r. rs_userId r = userId \<and> rs_requestId r = requestId) (db_reservations db) of
       Some existing \<Rightarrow>
         if rs_status existing = ACTIVE \<and> rs_estimated existing = estimated
         then Inr (db, toReservationView existing (reservation_allocations db (rs_id existing)))
         else Inl (BillingError RESERVATION_CONFLICT)
     | None \<Rightarrow>
         let buckets = lockUserBuckets db userId [] now in
         (case planReservationAllocations buckets estimated of
            None \<Rightarrow> Inl (BillingError INSUFFICIENT_USAGE)
          | Some allocations \<Rightarrow>
             let reservation = \<lparr>rs_id = db_next db, rs_userId = userId, rs_requestId = requestId,
                   rs_estimated = estimated, rs_settled = 0, rs_status = ACTIVE,
                   rs_settledAt = None\<rparr>;
                 db1 = db\<lparr>db_reservations := db_reservations db @ [reservation],
                   db_next := Suc (db_next db)\<rparr>
             in rbind (fold_res (reserve_step userId requestId correlationId (rs_id reservation))
                    allocations (db1, buckets)) (\<lambda>(db2, _).
                rbind (getReservation db2 (rs_id reservation)) (\<lambda>view. Inr (db2, view)))))"

section \<open>settleUsage\<close>

definition bucket_rank :: "locked_bucket list \<Rightarrow> nat \<Rightarrow> int" where
  "bucket_rank buckets bucketId =
    (case map_of (rev (zip (map lb_id buckets) [0..<length buckets])) bucketId of
       None \<Rightarrow> 0 | Some n \<Rightarrow> int n)"

definition allocation_cmp :: "locked_bucket list \<Rightarrow> usage_allocation \<Rightarrow> usage_allocation \<Rightarrow> int" where
  "allocation_cmp buckets left right =
    bucket_rank buckets (al_bucketId left) - bucket_rank buckets (al_bucketId right)"

definition orderAllocations ::
    "usage_allocation list \<Rightarrow> locked_bucket list \<Rightarrow> usage_allocation list" where
  "orderAllocations allocations buckets = js_sort (allocation_cmp buckets) allocations"

definition spendableBuckets :: "int \<Rightarrow> locked_bucket list \<Rightarrow> locked_bucket list" where
  "spendableBuckets now buckets = filter (\<lambda>b. unexpired now (lb_expiresAt b)) buckets"

text \<open>One extra allocation: grow the reservation's allocation in that bucket, or add one.\<close>

definition extra_step ::
    "nat \<Rightarrow> allocation_plan \<Rightarrow>
      'a usage_db_scheme \<times> locked_bucket list \<times> usage_allocation list \<Rightarrow>
      js_error + 'a usage_db_scheme \<times> locked_bucket list \<times> usage_allocation list" where
  "extra_step reservationId extraAllocation st = (case st of (db, buckets, allocationOrder) \<Rightarrow>
    (case find (\<lambda>item. lb_id item = ap_bucketId extraAllocation) buckets of
       None \<Rightarrow> Inl (BillingError FINANCIAL_OPERATION_FAILED)
     | Some bucket \<Rightarrow>
        let (db1, order1) =
              (case find (\<lambda>item. al_bucketId item = ap_bucketId extraAllocation) allocationOrder of
                 Some existing \<Rightarrow>
                   let grown = al_reserved existing + ap_reserved extraAllocation in
                   (db\<lparr>db_allocations := row_update al_id (al_id existing)
                      (\<lambda>a. a\<lparr>al_reserved := grown\<rparr>) (db_allocations db)\<rparr>,
                    row_update al_id (al_id existing) (\<lambda>a. a\<lparr>al_reserved := grown\<rparr>) allocationOrder)
               | None \<Rightarrow>
                   let created = \<lparr>al_id = db_next db, al_reservationId = reservationId,
                         al_bucketId = ap_bucketId extraAllocation,
                         al_reserved = ap_reserved extraAllocation, al_settled = 0\<rparr> in
                   (db\<lparr>db_allocations := db_allocations db @ [created],
                       db_next := Suc (db_next db)\<rparr>,
                    allocationOrder @ [created]));
            held = lb_reserved bucket + ap_reserved extraAllocation
        in Inr (db1\<lparr>db_buckets := row_update b_id (lb_id bucket) (\<lambda>b. b\<lparr>b_reserved := held\<rparr>)
                (db_buckets db1)\<rparr>,
            row_update lb_id (lb_id bucket) (\<lambda>lb. lb\<lparr>lb_reserved := held\<rparr>) buckets,
            order1)))"

text \<open>
  The block for an actual cost above the estimate: it yields the state, the locked copies and
  the allocations to settle, the amount that can be settled, and whether it is an anomaly.
\<close>

definition settle_extend ::
    "usage_reservation \<Rightarrow> microRub \<Rightarrow> int \<Rightarrow>
      'a usage_db_scheme \<times> locked_bucket list \<times> usage_allocation list \<Rightarrow>
      js_error + ('a usage_db_scheme \<times> locked_bucket list \<times> usage_allocation list) \<times> microRub \<times> bool"
  where
  "settle_extend reservation actual now st =
    (if actual > rs_estimated reservation then
       (let extra = actual - rs_estimated reservation in
        case planReservationAllocations (spendableBuckets now (fst (snd st))) extra of
          Some extraPlan \<Rightarrow>
            rbind (fold_res (extra_step (rs_id reservation)) extraPlan st) (\<lambda>(db, buckets, order).
              Inr ((db\<lparr>db_reservations := row_update rs_id (rs_id reservation)
                      (\<lambda>r. r\<lparr>rs_estimated := rs_estimated reservation + extra\<rparr>)
                      (db_reservations db)\<rparr>, buckets, order), actual, False))
        | None \<Rightarrow> Inr (st, rs_estimated reservation, True))
     else Inr (st, actual, False))"

definition settle_step ::
    "string \<Rightarrow> nat \<Rightarrow> string option \<Rightarrow> usage_allocation \<Rightarrow>
      'a usage_db_scheme \<times> locked_bucket list \<times> microRub \<Rightarrow>
      js_error + 'a usage_db_scheme \<times> locked_bucket list \<times> microRub" where
  "settle_step userId reservationId correlationId allocation st = (case st of (db, buckets, remaining) \<Rightarrow>
    let settleAmount = (if remaining < al_reserved allocation then remaining
          else al_reserved allocation);
        releaseAmount = al_reserved allocation - settleAmount in
    (case find (\<lambda>item. lb_id item = al_bucketId allocation) buckets of
       None \<Rightarrow> Inl (BillingError FINANCIAL_OPERATION_FAILED)
     | Some bucket \<Rightarrow>
        let held = lb_reserved bucket - al_reserved allocation;
            spent = lb_spent bucket + settleAmount;
            db1 = db\<lparr>db_allocations := row_update al_id (al_id allocation)
                (\<lambda>a. a\<lparr>al_settled := settleAmount\<rparr>) (db_allocations db),
              db_buckets := row_update b_id (lb_id bucket)
                (\<lambda>b. b\<lparr>b_reserved := held, b_spent := spent\<rparr>) (db_buckets db)\<rparr>;
            db2 = (if settleAmount > 0 then appendLedger (settle_entry userId correlationId
                reservationId (lb_id bucket) settleAmount) db1 else db1);
            db3 = (if releaseAmount > 0 then appendLedger (release_entry userId correlationId
                reservationId (lb_id bucket) releaseAmount) db2 else db2)
        in Inr (db3, row_update lb_id (lb_id bucket)
             (\<lambda>lb. lb\<lparr>lb_reserved := held, lb_spent := spent\<rparr>) buckets,
             remaining - settleAmount)))"

text \<open>
  \<open>now1\<close>, \<open>now2\<close> and \<open>now3\<close> are the clock readings of \<open>lockUserBuckets\<close>,
  \<open>spendableBuckets\<close> and \<open>settledAt\<close>, in this order.
\<close>

definition settleUsage ::
    "string \<Rightarrow> nat \<Rightarrow> microRub \<Rightarrow> string option \<Rightarrow> int \<Rightarrow> int \<Rightarrow> int \<Rightarrow> 'a usage_db_scheme \<Rightarrow>
      js_error + 'a usage_db_scheme \<times> reservation_view" where
  "settleUsage userId reservationId actualMicroRub correlationId now1 now2 now3 db =
    (if actualMicroRub < 0 then Inl (BillingError FINANCIAL_OPERATION_FAILED)
     else rbind (lockReservationForUser db userId reservationId) (\<lambda>reservation.
       case rs_status reservation of
         SETTLED \<Rightarrow>
           if rs_settled reservation = actualMicroRub
           then rbind (getReservation db (rs_id reservation)) (\<lambda>view. Inr (db, view))
           else Inl (BillingError RESERVATION_CONFLICT)
       | RELEASED \<Rightarrow> Inl (BillingError RESERVATION_ALREADY_RELEASED)
       | ANOMALY \<Rightarrow> Inl (BillingError RESERVATION_CONFLICT)
       | ACTIVE \<Rightarrow>
           let allocations = reservation_allocations db (rs_id reservation);
               buckets = lockUserBuckets db userId (map al_bucketId allocations) now1;
               allocationOrder = orderAllocations allocations buckets in
           rbind (settle_extend reservation actualMicroRub now2 (db, buckets, allocationOrder))
             (\<lambda>((db1, buckets1, order1), actual, anomaly).
           rbind (fold_res (settle_step userId (rs_id reservation) correlationId) order1
               (db1, buckets1, actual)) (\<lambda>(db2, _, _).
           let db3 = db2\<lparr>db_reservations := row_update rs_id (rs_id reservation)
                 (\<lambda>r. r\<lparr>rs_settled := actual, rs_status := (if anomaly then ANOMALY else SETTLED),
                   rs_settledAt := Some now3\<rparr>) (db_reservations db2)\<rparr> in
           rbind (getReservation db3 (rs_id reservation)) (\<lambda>view. Inr (db3, view))))))"

section \<open>releaseUsage\<close>

definition release_step ::
    "string \<Rightarrow> nat \<Rightarrow> string option \<Rightarrow> usage_allocation \<Rightarrow>
      'a usage_db_scheme \<times> locked_bucket list \<Rightarrow>
      js_error + 'a usage_db_scheme \<times> locked_bucket list" where
  "release_step userId reservationId correlationId allocation st = (case st of (db, buckets) \<Rightarrow>
    (case find (\<lambda>item. lb_id item = al_bucketId allocation) buckets of
       None \<Rightarrow> Inl (BillingError FINANCIAL_OPERATION_FAILED)
     | Some bucket \<Rightarrow>
        let held = lb_reserved bucket - al_reserved allocation;
            db1 = db\<lparr>db_buckets := row_update b_id (lb_id bucket) (\<lambda>b. b\<lparr>b_reserved := held\<rparr>)
                (db_buckets db),
              db_allocations := row_update al_id (al_id allocation) (\<lambda>a. a\<lparr>al_settled := 0\<rparr>)
                (db_allocations db)\<rparr>
        in Inr (appendLedger (release_entry userId correlationId reservationId (lb_id bucket)
              (al_reserved allocation)) db1,
            row_update lb_id (lb_id bucket) (\<lambda>lb. lb\<lparr>lb_reserved := held\<rparr>) buckets)))"

definition releaseUsage ::
    "string \<Rightarrow> nat \<Rightarrow> string option \<Rightarrow> int \<Rightarrow> int \<Rightarrow> 'a usage_db_scheme \<Rightarrow>
      js_error + 'a usage_db_scheme \<times> reservation_view" where
  "releaseUsage userId reservationId correlationId now1 now2 db =
    rbind (lockReservationForUser db userId reservationId) (\<lambda>reservation.
      case rs_status reservation of
        RELEASED \<Rightarrow> rbind (getReservation db (rs_id reservation)) (\<lambda>view. Inr (db, view))
      | SETTLED \<Rightarrow> Inl (BillingError RESERVATION_ALREADY_SETTLED)
      | ANOMALY \<Rightarrow> Inl (BillingError RESERVATION_ALREADY_SETTLED)
      | ACTIVE \<Rightarrow>
          let allocations = reservation_allocations db (rs_id reservation);
              buckets = lockUserBuckets db userId (map al_bucketId allocations) now1 in
          rbind (fold_res (release_step userId (rs_id reservation) correlationId) allocations
              (db, buckets)) (\<lambda>(db1, _).
          let db2 = db1\<lparr>db_reservations := row_update rs_id (rs_id reservation)
                (\<lambda>r. r\<lparr>rs_status := RELEASED, rs_settled := 0, rs_settledAt := Some now2\<rparr>)
                (db_reservations db1)\<rparr> in
          rbind (getReservation db2 (rs_id reservation)) (\<lambda>view. Inr (db2, view))))"

section \<open>Views\<close>

record usage_group =
  ug_total :: microRub
  ug_spent :: microRub
  ug_reserved :: microRub
  ug_remaining :: microRub
  ug_usedPercent :: int

definition summarizeBuckets :: "usage_bucket list \<Rightarrow> usage_group" where
  "summarizeBuckets buckets =
    (let tot = fold (\<lambda>b s. s + b_total b) buckets 0;
         spent = fold (\<lambda>b s. s + b_spent b) buckets 0;
         reserved = fold (\<lambda>b s. s + b_reserved b) buckets 0
     in \<lparr>ug_total = tot, ug_spent = spent, ug_reserved = reserved,
         ug_remaining = availableMicroRub tot spent reserved,
         ug_usedPercent = usedPercentFloor spent tot\<rparr>)"

definition getUsageSnapshot ::
    "string \<Rightarrow> int \<Rightarrow> 'a usage_db_scheme \<Rightarrow> usage_group \<times> usage_group" where
  "getUsageSnapshot userId now db =
    (let buckets = filter (\<lambda>b. b_userId b = userId \<and>
           (unexpired now (b_expiresAt b) \<or> b_reserved b > 0)) (db_buckets db)
     in (summarizeBuckets (filter (\<lambda>b. b_type b = MONTHLY) buckets),
         summarizeBuckets (filter (\<lambda>b. b_type b = TOPUP) buckets)))"

definition getSpendableUsageState ::
    "string \<Rightarrow> int \<Rightarrow> 'a usage_db_scheme \<Rightarrow> microRub \<times> microRub" where
  "getSpendableUsageState userId now db =
    (let buckets = filter (\<lambda>b. b_userId b = userId \<and> unexpired now (b_expiresAt b)) (db_buckets db)
     in (fold (\<lambda>b s. s + availableMicroRub (b_total b) (b_spent b) (b_reserved b)) buckets 0,
         fold (\<lambda>b s. s + b_reserved b) buckets 0))"

definition getSpendableUsageMicroRub :: "string \<Rightarrow> int \<Rightarrow> 'a usage_db_scheme \<Rightarrow> microRub" where
  "getSpendableUsageMicroRub userId now db = fst (getSpendableUsageState userId now db)"

section \<open>withRetry\<close>

definition MAX_TRANSACTION_ATTEMPTS :: nat where "MAX_TRANSACTION_ATTEMPTS = 3"

definition js_includes :: "string \<Rightarrow> string \<Rightarrow> bool" where
  "js_includes s sub \<longleftrightarrow> (\<exists>i \<in> set [0..<Suc (length s)]. take (length sub) (drop i s) = sub)"

definition ascii_lower :: "string \<Rightarrow> string" where
  "ascii_lower s = map (\<lambda>c. let n = (of_char c :: nat) in
     if 65 \<le> n \<and> n \<le> 90 then char_of (n + 32) else c) s"

definition error_code :: "js_error \<Rightarrow> string" where
  "error_code e = (case e of DbError code _ \<Rightarrow> code | _ \<Rightarrow> [])"

definition error_message :: "js_error \<Rightarrow> string" where
  "error_message e = (case e of DbError _ m \<Rightarrow> m | PlainError m \<Rightarrow> m | BillingError _ \<Rightarrow> [])"

definition isUniqueConstraintError :: "js_error \<Rightarrow> bool" where
  "isUniqueConstraintError e \<longleftrightarrow> error_code e = ''P2002''"

definition isRetryableTransactionError :: "js_error \<Rightarrow> bool" where
  "isRetryableTransactionError e \<longleftrightarrow>
    (if error_code e = ''P2034'' \<or> error_code e = ''P2028'' then True
     else js_includes (error_message e) ''40001'' \<or> js_includes (error_message e) ''40P01'' \<or>
       js_includes (ascii_lower (error_message e)) ''deadlock'')"

definition is_billing_error :: "js_error \<Rightarrow> bool" where
  "is_billing_error e = (case e of BillingError _ \<Rightarrow> True | _ \<Rightarrow> False)"

text \<open>
  \<open>outcome k\<close> is what the k-th call of the transaction gives; the result comes with the
  number of calls made. The pause between attempts is left out.
\<close>

function retry_loop :: "(nat \<Rightarrow> js_error + 'a) \<Rightarrow> nat \<Rightarrow> (js_error + 'a) \<times> nat" where
  "retry_loop outcome attempt =
    (if attempt > MAX_TRANSACTION_ATTEMPTS
     then (Inl (BillingError FINANCIAL_OPERATION_FAILED), attempt - 1)
     else case outcome attempt of
         Inr a \<Rightarrow> (Inr a, attempt)
       | Inl error \<Rightarrow>
           if is_billing_error error \<or> \<not> isRetryableTransactionError error
           then (Inl error, attempt)
           else if attempt = MAX_TRANSACTION_ATTEMPTS
           then (Inl (BillingError FINANCIAL_OPERATION_FAILED), attempt)
           else retry_loop outcome (Suc attempt))"
  by pat_completeness auto
termination by (relation "measure (\<lambda>(_, attempt). Suc MAX_TRANSACTION_ATTEMPTS - attempt)") auto

declare retry_loop.simps [simp del]

definition withRetry :: "(nat \<Rightarrow> js_error + 'a) \<Rightarrow> (js_error + 'a) \<times> nat" where
  "withRetry outcome = retry_loop outcome 1"

end
