(* ===== verification/Usage_Pool.thy ===== *)
theory Usage_Pool
  imports Billing_Db
begin

text \<open>
  The abstract steps the loops of the billing engine refine: put an amount on hold with a new
  allocation (\<open>hold_new\<close>), enlarge an allocation (\<open>hold_more\<close>), and finish an allocation
  by spending part of what it holds (\<open>finish_allocation\<close>). Each is stated on the tables
  with relative updates, and each keeps \<open>pool_ok\<close>.
\<close>

section \<open>Relative updates of a bucket\<close>

definition bump :: "nat \<Rightarrow> int \<Rightarrow> int \<Rightarrow> usage_bucket list \<Rightarrow> usage_bucket list" where
  "bump i dr ds rows = row_update b_id i
    (\<lambda>b. b\<lparr>b_reserved := b_reserved b + dr, b_spent := b_spent b + ds\<rparr>) rows"

definition lbump :: "nat \<Rightarrow> int \<Rightarrow> int \<Rightarrow> locked_bucket list \<Rightarrow> locked_bucket list" where
  "lbump i dr ds rows = row_update lb_id i
    (\<lambda>b. b\<lparr>lb_reserved := lb_reserved b + dr, lb_spent := lb_spent b + ds\<rparr>) rows"

lemma map_bump [simp]: "map b_id (bump i dr ds rows) = map b_id rows"
  "map b_userId (bump i dr ds rows) = map b_userId rows"
  "map b_total (bump i dr ds rows) = map b_total rows"
  by (simp_all add: bump_def)

lemma ids_lbump [simp]: "map lb_id (lbump i dr ds rows) = map lb_id rows"
  by (simp add: lbump_def)

lemma set_bump: "set (bump i dr ds rows) =
    (\<lambda>b. if b_id b = i then b\<lparr>b_reserved := b_reserved b + dr, b_spent := b_spent b + ds\<rparr> else b)
      ` set rows"
  by (simp add: bump_def set_row_update)

lemma length_bump [simp]: "length (bump i dr ds rows) = length rows"
  by (simp add: bump_def)

lemma bump_ids [simp]: "b_id ` set (bump i dr ds rows) = b_id ` set rows"
  by (metis list.set_map map_bump(1))

text \<open>The locked copies are up to date.\<close>

definition synced :: "usage_bucket list \<Rightarrow> locked_bucket list \<Rightarrow> bool" where
  "synced rows locked \<longleftrightarrow> set locked \<subseteq> to_locked ` set rows"

lemma to_locked_simps [simp]:
  "lb_id (to_locked b) = b_id b" "lb_type (to_locked b) = b_type b"
  "lb_total (to_locked b) = b_total b" "lb_spent (to_locked b) = b_spent b"
  "lb_reserved (to_locked b) = b_reserved b" "lb_expiresAt (to_locked b) = b_expiresAt b"
  "lb_createdAt (to_locked b) = b_createdAt b"
  by (simp_all add: to_locked_def)

lemma synced_lockUserBuckets: "synced (db_buckets db) (lockUserBuckets db u ids now)"
  by (auto simp: synced_def lockUserBuckets_def)

lemma synced_bump: "synced rows locked \<Longrightarrow> synced (bump i dr ds rows) (lbump i dr ds locked)"
proof -
  define f where "f b = (if b_id b = i then b\<lparr>b_reserved := b_reserved b + dr, b_spent := b_spent b + ds\<rparr> else b)"
    for b :: usage_bucket
  define g where "g b = (if lb_id b = i then b\<lparr>lb_reserved := lb_reserved b + dr, lb_spent := lb_spent b + ds\<rparr> else b)"
    for b :: locked_bucket
  assume "synced rows locked"
  then have "g ` set locked \<subseteq> g ` to_locked ` set rows" by (auto simp: synced_def)
  moreover have "g (to_locked b) = to_locked (f b)" for b by (simp add: f_def g_def to_locked_def)
  then have "g ` to_locked ` set rows = to_locked ` f ` set rows" by (simp add: image_image)
  moreover have "set (bump i dr ds rows) = f ` set rows" by (simp add: set_bump f_def cong: image_cong)
  moreover have "set (lbump i dr ds locked) = g ` set locked"
    by (simp add: lbump_def set_row_update g_def cong: image_cong)
  ultimately show ?thesis by (simp add: synced_def)
qed

lemma synced_find:
  assumes "synced rows locked" and "distinct (map b_id rows)"
    and "find (\<lambda>item. lb_id item = i) locked = Some lb"
  obtains b where "b \<in> set rows" "b_id b = i" "lb = to_locked b"
proof -
  from assms(3) have "lb \<in> set locked" "lb_id lb = i" by (auto simp: find_Some_iff)
  with assms(1) show ?thesis using that by (auto simp: synced_def)
qed

text \<open>Under \<open>synced\<close> an absolute write from the locked copy is a relative one.\<close>

lemma row_update_cong:
  "(\<And>r. r \<in> set rows \<Longrightarrow> key r = k \<Longrightarrow> f r = g r) \<Longrightarrow> row_update key k f rows = row_update key k g rows"
  by (auto simp: row_update_def)

lemma row_update_write:
  assumes "distinct (map b_id rows)" and "b \<in> set rows"
  shows "row_update b_id (b_id b) (\<lambda>r. r\<lparr>b_reserved := b_reserved b + dr, b_spent := b_spent b + ds\<rparr>) rows
      = bump (b_id b) dr ds rows"
    and "row_update b_id (b_id b) (\<lambda>r. r\<lparr>b_reserved := b_reserved b + dr\<rparr>) rows
      = bump (b_id b) dr 0 rows"
proof -
  have "r = b" if "r \<in> set rows" "b_id r = b_id b" for r
    using that assms by (metis distinct_map inj_onD)
  then show "row_update b_id (b_id b) (\<lambda>r. r\<lparr>b_reserved := b_reserved b + dr, b_spent := b_spent b + ds\<rparr>) rows
      = bump (b_id b) dr ds rows"
    "row_update b_id (b_id b) (\<lambda>r. r\<lparr>b_reserved := b_reserved b + dr\<rparr>) rows
      = bump (b_id b) dr 0 rows"
    unfolding bump_def by (auto intro!: row_update_cong)
qed

lemma lrow_update_write:
  assumes "synced rows locked" and "distinct (map b_id rows)" and "b \<in> set rows"
  shows "row_update lb_id (b_id b) (\<lambda>r. r\<lparr>lb_reserved := b_reserved b + dr, lb_spent := b_spent b + ds\<rparr>) locked
      = lbump (b_id b) dr ds locked"
    and "row_update lb_id (b_id b) (\<lambda>r. r\<lparr>lb_reserved := b_reserved b + dr\<rparr>) locked
      = lbump (b_id b) dr 0 locked"
proof -
  have "lb_reserved r = b_reserved b \<and> lb_spent r = b_spent b"
    if r: "r \<in> set locked" "lb_id r = b_id b" for r
  proof -
    from assms(1) r(1) obtain c where c: "c \<in> set rows" "r = to_locked c"
      by (auto simp: synced_def)
    with r(2) have "c = b" using assms(2,3) by (metis distinct_map inj_onD to_locked_simps(1))
    with c show ?thesis by simp
  qed
  then show "row_update lb_id (b_id b) (\<lambda>r. r\<lparr>lb_reserved := b_reserved b + dr, lb_spent := b_spent b + ds\<rparr>) locked
      = lbump (b_id b) dr ds locked"
    "row_update lb_id (b_id b) (\<lambda>r. r\<lparr>lb_reserved := b_reserved b + dr\<rparr>) locked
      = lbump (b_id b) dr 0 locked"
    unfolding lbump_def by (auto intro!: row_update_cong)
qed

section \<open>Column sums\<close>

lemma held_in_append [simp]: "held_in P (xs @ ys) i = held_in P xs i + held_in P ys i"
  by (simp add: held_in_def)

lemma settled_in_append [simp]: "settled_in (xs @ ys) i = settled_in xs i + settled_in ys i"
  by (simp add: settled_in_def)

lemma held_for_append [simp]: "held_for (xs @ ys) i = held_for xs i + held_for ys i"
  by (simp add: held_for_def)

lemma settled_for_append [simp]: "settled_for (xs @ ys) i = settled_for xs i + settled_for ys i"
  by (simp add: settled_for_def)

lemma ledger_balance_append [simp]:
  "ledger_balance (xs @ ys) i = ledger_balance xs i + ledger_balance ys i"
  by (simp add: ledger_balance_def)

lemma sums_Cons [simp]:
  "held_in P (a # as) i = (if al_bucketId a = i \<and> P a then al_reserved a else 0) + held_in P as i"
  "settled_in (a # as) i = (if al_bucketId a = i then al_settled a else 0) + settled_in as i"
  "held_for (a # as) i = (if al_reservationId a = i then al_reserved a else 0) + held_for as i"
  "settled_for (a # as) i = (if al_reservationId a = i then al_settled a else 0) + settled_for as i"
  "ledger_balance (l # ls) i = (if le_bucketId l = Some i then le_amount l else 0) + ledger_balance ls i"
  by (simp_all add: held_in_def settled_in_def held_for_def settled_for_def ledger_balance_def)

lemma sums_Nil [simp]:
  "held_in P [] i = 0" "settled_in [] i = 0" "held_for [] i = 0" "settled_for [] i = 0"
  "ledger_balance [] i = 0"
  by (simp_all add: held_in_def settled_in_def held_for_def settled_for_def ledger_balance_def)

lemma held_in_cong:
  "(\<And>a. a \<in> set as \<Longrightarrow> P a = Q a) \<Longrightarrow> held_in P as i = held_in Q as i"
  unfolding held_in_def by (rule sum_list_map_cong_set) auto

text \<open>Setting one column of one allocation.\<close>

lemma set_reserved_sums:
  assumes "distinct (map al_id as)" and "a \<in> set as"
    and "\<And>x. P (x\<lparr>al_reserved := v\<rparr>) = P x"
  defines "as' \<equiv> row_update al_id (al_id a) (\<lambda>x. x\<lparr>al_reserved := v\<rparr>) as"
  shows "held_in P as' i = held_in P as i +
      (if al_bucketId a = i \<and> P a then v - al_reserved a else 0)"
    and "settled_in as' i = settled_in as i"
    and "held_for as' i = held_for as i + (if al_reservationId a = i then v - al_reserved a else 0)"
    and "settled_for as' i = settled_for as i"
  using assms(3) unfolding as'_def held_in_def settled_in_def held_for_def settled_for_def
    sum_row_update[OF assms(1,2)] by simp_all

lemma set_settled_sums:
  assumes "distinct (map al_id as)" and "a \<in> set as"
    and "\<And>x. P (x\<lparr>al_settled := v\<rparr>) = P x"
  defines "as' \<equiv> row_update al_id (al_id a) (\<lambda>x. x\<lparr>al_settled := v\<rparr>) as"
  shows "held_in P as' i = held_in P as i"
    and "settled_in as' i = settled_in as i + (if al_bucketId a = i then v - al_settled a else 0)"
    and "held_for as' i = held_for as i"
    and "settled_for as' i = settled_for as i +
      (if al_reservationId a = i then v - al_settled a else 0)"
  using assms(3) unfolding as'_def held_in_def settled_in_def held_for_def settled_for_def
    sum_row_update[OF assms(1,2)] by simp_all

lemma held_in_drop:
  assumes "distinct (map al_id as)" and "a \<in> set as" and "P a"
  shows "held_in (\<lambda>x. P x \<and> al_id x \<noteq> al_id a) as i =
    held_in P as i - (if al_bucketId a = i then al_reserved a else 0)"
  using assms
proof (induction as)
  case Nil
  then show ?case by simp
next
  case (Cons x as)
  show ?case
  proof (cases "x = a")
    case True
    with Cons.prems have "held_in (\<lambda>x. P x \<and> al_id x \<noteq> al_id a) as i = held_in P as i"
      by (intro held_in_cong) (auto simp: image_iff)
    with True Cons.prems show ?thesis by simp
  next
    case False
    with Cons.prems have "a \<in> set as" "al_id x \<noteq> al_id a" by (auto simp: image_iff)
    with Cons show ?thesis by simp
  qed
qed

lemma held_in_member_le:
  assumes "\<And>x. x \<in> set as \<Longrightarrow> 0 \<le> al_reserved x" and "a \<in> set as" and "P a"
  shows "al_reserved a \<le> held_in P as (al_bucketId a)"
  unfolding held_in_def
  using sum_list_member_le[of as "\<lambda>x. if al_bucketId x = al_bucketId a \<and> P x then al_reserved x else 0" a]
    assms by auto

section \<open>Abstract steps\<close>

definition hold_new ::
    "nat \<Rightarrow> nat \<Rightarrow> int \<Rightarrow> ledger_entry list \<Rightarrow> 'a usage_db_scheme \<Rightarrow> 'a usage_db_scheme" where
  "hold_new rid bid amt ls db = db
    \<lparr>db_allocations := db_allocations db @ [\<lparr>al_id = db_next db, al_reservationId = rid,
        al_bucketId = bid, al_reserved = amt, al_settled = 0\<rparr>],
     db_next := Suc (db_next db),
     db_buckets := bump bid amt 0 (db_buckets db),
     db_ledger := db_ledger db @ ls\<rparr>"

definition hold_more :: "usage_allocation \<Rightarrow> int \<Rightarrow> 'a usage_db_scheme \<Rightarrow> 'a usage_db_scheme" where
  "hold_more a amt db = db
    \<lparr>db_allocations := row_update al_id (al_id a) (\<lambda>x. x\<lparr>al_reserved := al_reserved a + amt\<rparr>)
        (db_allocations db),
     db_buckets := bump (al_bucketId a) amt 0 (db_buckets db)\<rparr>"

definition finish_allocation ::
    "usage_allocation \<Rightarrow> int \<Rightarrow> ledger_entry list \<Rightarrow> 'a usage_db_scheme \<Rightarrow> 'a usage_db_scheme" where
  "finish_allocation a amt ls db = db
    \<lparr>db_allocations := row_update al_id (al_id a) (\<lambda>x. x\<lparr>al_settled := amt\<rparr>) (db_allocations db),
     db_buckets := bump (al_bucketId a) (- al_reserved a) amt (db_buckets db),
     db_ledger := db_ledger db @ ls\<rparr>"

definition entries_for :: "nat \<Rightarrow> int \<Rightarrow> ledger_entry list \<Rightarrow> bool" where
  "entries_for bid amt ls \<longleftrightarrow> (\<forall>l \<in> set ls. le_bucketId l = Some bid) \<and>
    sum_list (map le_amount ls) = amt"

lemma entries_for_balance:
  "entries_for bid amt ls \<Longrightarrow> ledger_balance ls i = (if i = bid then amt else 0)"
  unfolding entries_for_def by (induction ls arbitrary: amt) auto

lemma step_frames [simp]:
  "db_reservations (hold_new rid bid amt ls db) = db_reservations db"
  "db_reservations (hold_more a amt db) = db_reservations db"
  "db_reservations (finish_allocation a amt ls db) = db_reservations db"
  "db_buckets (hold_new rid bid amt ls db) = bump bid amt 0 (db_buckets db)"
  "db_buckets (hold_more a amt db) = bump (al_bucketId a) amt 0 (db_buckets db)"
  "db_buckets (finish_allocation a amt ls db) = bump (al_bucketId a) (- al_reserved a) amt (db_buckets db)"
  by (simp_all add: hold_new_def hold_more_def finish_allocation_def)

text \<open>A bucket row after an update, and the rows it came from.\<close>

lemma bump_cases:
  assumes "b' \<in> set (bump i dr ds rows)"
  obtains b where "b \<in> set rows" "b_id b' = b_id b" "b_total b' = b_total b"
    "b_userId b' = b_userId b"
    "b_reserved b' = b_reserved b + (if b_id b = i then dr else 0)"
    "b_spent b' = b_spent b + (if b_id b = i then ds else 0)"
  using assms that by (auto simp: set_bump split: if_splits)

lemma allocation_ok_frame:
  assumes "list_all (allocation_ok db) (db_allocations db)"
    and "db_reservations db' = db_reservations db"
    and "db_buckets db' = bump i dr ds (db_buckets db)"
    and "a \<in> set (db_allocations db)" and "al_reservationId a' = al_reservationId a"
    and "al_bucketId a' = al_bucketId a" and "0 \<le> al_settled a'" and "al_settled a' \<le> al_reserved a'"
  shows "allocation_ok db' a'"
proof -
  from assms(1,4) obtain r b where rb: "r \<in> set (db_reservations db)" "rs_id r = al_reservationId a"
      "b \<in> set (db_buckets db)" "b_id b = al_bucketId a" "b_userId b = rs_userId r"
    by (auto simp: list_all_iff allocation_ok_def)
  from rb(3) have "\<exists>b' \<in> set (db_buckets db'). b_id b' = b_id b \<and> b_userId b' = b_userId b"
    unfolding assms(3) set_bump
    by (intro bexI[of _ "if b_id b = i then b\<lparr>b_reserved := b_reserved b + dr,
      b_spent := b_spent b + ds\<rparr> else b"]) simp_all
  with rb assms show ?thesis unfolding allocation_ok_def by metis
qed

lemma allocation_okD:
  "list_all (allocation_ok db) (db_allocations db) \<Longrightarrow> a \<in> set (db_allocations db) \<Longrightarrow>
    0 \<le> al_settled a \<and> al_settled a \<le> al_reserved a"
  by (simp add: list_all_iff allocation_ok_def)

lemma list_all_less_Suc: "list_all (\<lambda>i. i < n) xs \<Longrightarrow> list_all (\<lambda>i. i < n \<or> i = n) xs"
  by (auto elim: list.pred_mono_strong)

lemma bucket_unique:
  "keys_ok db \<Longrightarrow> b \<in> set (db_buckets db) \<Longrightarrow> c \<in> set (db_buckets db) \<Longrightarrow> b_id c = b_id b \<Longrightarrow> c = b"
  unfolding keys_ok_def by (simp add: distinct_map inj_on_def)

lemma allocation_unique:
  "keys_ok db \<Longrightarrow> a \<in> set (db_allocations db) \<Longrightarrow> x \<in> set (db_allocations db) \<Longrightarrow> al_id x = al_id a \<Longrightarrow>
    x = a"
  unfolding keys_ok_def by (simp add: distinct_map inj_on_def)

lemma bucket_bump_exists:
  "b \<in> set rows \<Longrightarrow> \<exists>b' \<in> set (bump i dr ds rows). b_id b' = b_id b \<and> b_userId b' = b_userId b"
  unfolding set_bump
  by (intro bexI[of _ "if b_id b = i then b\<lparr>b_reserved := b_reserved b + dr,
      b_spent := b_spent b + ds\<rparr> else b"]) simp_all

lemma hold_new_keys_ok:
  assumes "keys_ok db" and "bid \<in> b_id ` set (db_buckets db)"
    and "\<forall>a \<in> set (db_allocations db). \<not> (al_reservationId a = rid \<and> al_bucketId a = bid)"
    and "entries_for bid 0 ls"
  shows "keys_ok (hold_new rid bid amt ls db)"
proof -
  have "bid < db_next db" using assms(1,2) by (auto simp: keys_ok_def list_all_iff)
  moreover have "db_next db \<notin> al_id ` set (db_allocations db)"
    using assms(1) by (auto simp: keys_ok_def list_all_iff)
  moreover have "(rid, bid) \<notin> (\<lambda>a. (al_reservationId a, al_bucketId a)) ` set (db_allocations db)"
    using assms(3) by auto
  ultimately show ?thesis
    using assms(1,4)
    by (simp add: keys_ok_def hold_new_def entries_for_def ball_Un less_Suc_eq list_all_less_Suc)
qed

lemma hold_more_keys_ok: "keys_ok db \<Longrightarrow> keys_ok (hold_more a amt db)"
  by (simp add: keys_ok_def hold_more_def)

lemma finish_keys_ok:
  assumes "keys_ok db" and "al_bucketId a \<in> b_id ` set (db_buckets db)"
    and "entries_for (al_bucketId a) x ls"
  shows "keys_ok (finish_allocation a amt ls db)"
proof -
  have "al_bucketId a < db_next db" using assms(1,2) by (auto simp: keys_ok_def list_all_iff)
  then show ?thesis
    using assms(1,3) by (simp add: keys_ok_def finish_allocation_def entries_for_def ball_Un)
qed

lemma hold_new_pool_ok:
  assumes ok: "pool_ok P db" and amt: "0 \<le> amt"
    and b: "b \<in> set (db_buckets db)" and room: "amt \<le> b_total b - b_spent b - b_reserved b"
    and r: "r \<in> set (db_reservations db)" "rs_userId r = b_userId b"
    and fresh: "\<forall>a \<in> set (db_allocations db). \<not> (al_reservationId a = rs_id r \<and> al_bucketId a = b_id b)"
    and P: "\<And>a. al_reservationId a = rs_id r \<Longrightarrow> P a"
    and ls: "entries_for (b_id b) 0 ls"
  shows "pool_ok P (hold_new (rs_id r) (b_id b) amt ls db)" (is "pool_ok P ?db")
proof -
  from ok have keys: "keys_ok db" by (simp add: pool_ok_def)
  have "keys_ok ?db" using hold_new_keys_ok[OF keys _ fresh ls] b by simp
  moreover have "bucket_ok P ?db b'" if "b' \<in> set (db_buckets ?db)" for b'
  proof -
    from that obtain c where c: "c \<in> set (db_buckets db)" "b_id b' = b_id c" "b_total b' = b_total c"
        "b_reserved b' = b_reserved c + (if b_id c = b_id b then amt else 0)"
        "b_spent b' = b_spent c"
      by (auto elim: bump_cases)
    have "c = b" if "b_id c = b_id b"
      by (rule bucket_unique[OF keys b c(1) that])
    moreover have "bucket_ok P db c" using ok c(1) by (simp add: pool_ok_def list_all_iff)
    moreover have held: "held_in P (db_allocations ?db) i =
        held_in P (db_allocations db) i + (if b_id b = i then amt else 0)"
      and settled: "settled_in (db_allocations ?db) i = settled_in (db_allocations db) i"
      and ledger: "ledger_balance (db_ledger ?db) i = ledger_balance (db_ledger db) i" for i
      using P entries_for_balance[OF ls] by (simp_all add: hold_new_def)
    ultimately show ?thesis
      using c amt room unfolding bucket_ok_def held settled ledger by (auto split: if_splits)
  qed
  moreover have "allocation_ok ?db a" if "a \<in> set (db_allocations ?db)" for a
  proof (cases "a \<in> set (db_allocations db)")
    case True
    have al: "list_all (allocation_ok db) (db_allocations db)" using ok by (simp add: pool_ok_def)
    with allocation_okD[OF al True] show ?thesis
      by (intro allocation_ok_frame[OF al _ _ True]) simp_all
  next
    case False
    with that have "al_reservationId a = rs_id r" "al_bucketId a = b_id b" "al_settled a = 0"
        "al_reserved a = amt"
      by (auto simp: hold_new_def)
    moreover have "\<exists>b' \<in> set (db_buckets ?db). b_id b' = b_id b \<and> b_userId b' = b_userId b"
      using bucket_bump_exists[OF b] by simp
    then obtain b' where "b' \<in> set (db_buckets ?db)" "b_id b' = b_id b" "b_userId b' = rs_userId r"
      using r(2) by auto
    ultimately show ?thesis
      using amt r unfolding allocation_ok_def by (intro conjI bexI[of _ r] bexI[of _ b']) simp_all
  qed
  ultimately show ?thesis by (simp add: pool_ok_def list_all_iff)
qed

lemma hold_more_pool_ok:
  assumes ok: "pool_ok P db" and amt: "0 \<le> amt"
    and b: "b \<in> set (db_buckets db)" and room: "amt \<le> b_total b - b_spent b - b_reserved b"
    and a: "a \<in> set (db_allocations db)" "al_bucketId a = b_id b"
    and P: "P a" "\<And>x v. P (x\<lparr>al_reserved := v\<rparr>) = P x"
  shows "pool_ok P (hold_more a amt db)" (is "pool_ok P ?db")
proof -
  from ok have keys: "keys_ok db" by (simp add: pool_ok_def)
  then have dist: "distinct (map al_id (db_allocations db))" by (simp add: keys_ok_def)
  have uniq: "x = a" if "x \<in> set (db_allocations db)" "al_id x = al_id a" for x
    by (rule allocation_unique[OF keys a(1) that])
  have "keys_ok ?db" by (rule hold_more_keys_ok[OF keys])
  moreover have "bucket_ok P ?db b'" if "b' \<in> set (db_buckets ?db)" for b'
  proof -
    from that obtain c where c: "c \<in> set (db_buckets db)" "b_id b' = b_id c" "b_total b' = b_total c"
        "b_reserved b' = b_reserved c + (if b_id c = b_id b then amt else 0)"
        "b_spent b' = b_spent c"
      by (auto simp: a(2) elim: bump_cases)
    have "c = b" if "b_id c = b_id b"
      by (rule bucket_unique[OF keys b c(1) that])
    moreover have "bucket_ok P db c" using ok c(1) by (simp add: pool_ok_def list_all_iff)
    moreover have held: "held_in P (db_allocations ?db) i =
        held_in P (db_allocations db) i + (if al_bucketId a = i then amt else 0)" for i
      using set_reserved_sums(1)[where P = P, OF dist a(1) P(2)] P(1) by (simp add: hold_more_def)
    moreover have settled: "settled_in (db_allocations ?db) i = settled_in (db_allocations db) i" for i
      using set_reserved_sums(2)[where P = P, OF dist a(1) P(2)] by (simp add: hold_more_def)
    moreover have ledger: "db_ledger ?db = db_ledger db" by (simp add: hold_more_def)
    ultimately show ?thesis
      using c amt room a(2) unfolding bucket_ok_def held settled ledger by (auto split: if_splits)
  qed
  moreover have "allocation_ok ?db x" if x: "x \<in> set (db_allocations ?db)" for x
  proof -
    have al: "list_all (allocation_ok db) (db_allocations db)" using ok by (simp add: pool_ok_def)
    from x obtain y where y: "y \<in> set (db_allocations db)"
        "x = (if al_id y = al_id a then y\<lparr>al_reserved := al_reserved a + amt\<rparr> else y)"
      by (auto simp: hold_more_def set_row_update)
    with allocation_okD[OF al y(1)] uniq[OF y(1)] amt show ?thesis
      by (intro allocation_ok_frame[OF al _ _ y(1)]) (auto split: if_splits)
  qed
  ultimately show ?thesis by (simp add: pool_ok_def list_all_iff)
qed

lemma finish_pool_ok:
  assumes ok: "pool_ok P db" and amt: "0 \<le> amt" "amt \<le> al_reserved a"
    and a: "a \<in> set (db_allocations db)" "al_settled a = 0"
    and P: "P a" "\<And>x v. P (x\<lparr>al_settled := v\<rparr>) = P x"
    and ls: "entries_for (al_bucketId a) (- amt) ls"
  shows "pool_ok (\<lambda>x. P x \<and> al_id x \<noteq> al_id a) (finish_allocation a amt ls db)"
    (is "pool_ok ?Q ?db")
proof -
  from ok have keys: "keys_ok db" by (simp add: pool_ok_def)
  then have dist: "distinct (map al_id (db_allocations db))" by (simp add: keys_ok_def)
  have al: "list_all (allocation_ok db) (db_allocations db)" using ok by (simp add: pool_ok_def)
  have uniq: "x = a" if "x \<in> set (db_allocations db)" "al_id x = al_id a" for x
    by (rule allocation_unique[OF keys a(1) that])
  from al a(1) obtain b where b: "b \<in> set (db_buckets db)" "b_id b = al_bucketId a"
    by (auto simp: list_all_iff allocation_ok_def)
  then have "keys_ok ?db" using finish_keys_ok[OF keys _ ls] by (metis image_eqI)
  moreover have "bucket_ok ?Q ?db b'" if "b' \<in> set (db_buckets ?db)" for b'
  proof -
    from that obtain c where c: "c \<in> set (db_buckets db)" "b_id b' = b_id c" "b_total b' = b_total c"
        "b_reserved b' = b_reserved c + (if b_id c = al_bucketId a then - al_reserved a else 0)"
        "b_spent b' = b_spent c + (if b_id c = al_bucketId a then amt else 0)"
      by (auto elim: bump_cases)
    have cok: "bucket_ok P db c" using ok c(1) by (auto simp: pool_ok_def list_all_iff)
    have le: "al_reserved a \<le> b_reserved c" if "b_id c = al_bucketId a"
      using held_in_member_le[of "db_allocations db" a P] al a P(1) cok that
      by (force simp: bucket_ok_def list_all_iff allocation_ok_def)
    have held: "held_in ?Q (db_allocations ?db) i =
        held_in P (db_allocations db) i - (if al_bucketId a = i then al_reserved a else 0)" for i
    proof -
      have "held_in ?Q (db_allocations ?db) i = held_in ?Q (db_allocations db) i"
        unfolding finish_allocation_def
        by (simp add: set_settled_sums(1)[OF dist a(1)] P(2))
      then show ?thesis
        using held_in_drop[where P = P, OF dist a(1)] P(1) by simp
    qed
    have settled: "settled_in (db_allocations ?db) i =
        settled_in (db_allocations db) i + (if al_bucketId a = i then amt else 0)" for i
      using set_settled_sums(2)[where P = P, OF dist a(1) P(2)] a(2)
      by (simp add: finish_allocation_def)
    have ledger: "ledger_balance (db_ledger ?db) i =
        ledger_balance (db_ledger db) i + (if i = al_bucketId a then - amt else 0)" for i
      using entries_for_balance[OF ls] by (simp add: finish_allocation_def)
    show ?thesis
      using c cok le amt unfolding bucket_ok_def held settled ledger by auto
  qed
  moreover have "allocation_ok ?db x" if x: "x \<in> set (db_allocations ?db)" for x
  proof -
    from x obtain y where y: "y \<in> set (db_allocations db)"
        "x = (if al_id y = al_id a then y\<lparr>al_settled := amt\<rparr> else y)"
      by (auto simp: finish_allocation_def set_row_update)
    with allocation_okD[OF al y(1)] uniq[OF y(1)] amt show ?thesis
      by (intro allocation_ok_frame[OF al _ _ y(1)]) (auto split: if_splits)
  qed
  ultimately show ?thesis by (simp add: pool_ok_def list_all_iff)
qed

section \<open>Sums per reservation\<close>

lemma hold_new_sums [simp]:
  "held_for (db_allocations (hold_new rid bid amt ls db)) i =
    held_for (db_allocations db) i + (if rid = i then amt else 0)"
  "settled_for (db_allocations (hold_new rid bid amt ls db)) i = settled_for (db_allocations db) i"
  by (simp_all add: hold_new_def)

lemma hold_more_sums:
  assumes "keys_ok db" and "a \<in> set (db_allocations db)"
  shows "held_for (db_allocations (hold_more a amt db)) i =
      held_for (db_allocations db) i + (if al_reservationId a = i then amt else 0)"
    and "settled_for (db_allocations (hold_more a amt db)) i = settled_for (db_allocations db) i"
  using assms set_reserved_sums(3,4)[where P = "\<lambda>_. True"]
  by (simp_all add: hold_more_def keys_ok_def)

lemma finish_sums:
  assumes "keys_ok db" and "a \<in> set (db_allocations db)" and "al_settled a = 0"
  shows "held_for (db_allocations (finish_allocation a amt ls db)) i = held_for (db_allocations db) i"
    and "settled_for (db_allocations (finish_allocation a amt ls db)) i =
      settled_for (db_allocations db) i + (if al_reservationId a = i then amt else 0)"
  using assms set_settled_sums(3,4)[where P = "\<lambda>_. True"]
  by (simp_all add: finish_allocation_def keys_ok_def)

text \<open>Only the ids and owners of the reservations matter to \<open>pool_ok\<close>.\<close>

lemma pool_ok_reservations:
  assumes ok: "pool_ok P db"
    and rs: "map (\<lambda>r. (rs_id r, rs_userId r, rs_requestId r)) rs' =
      map (\<lambda>r. (rs_id r, rs_userId r, rs_requestId r)) (db_reservations db)"
    and PQ: "\<forall>a \<in> set (db_allocations db). P a = Q a"
  shows "pool_ok Q (db\<lparr>db_reservations := rs'\<rparr>)"
proof -
  have ids: "map rs_id rs' = map rs_id (db_reservations db)"
    using arg_cong[OF rs, of "map fst"] by (simp add: comp_def)
  have reqs: "map (\<lambda>r. (rs_userId r, rs_requestId r)) rs' =
      map (\<lambda>r. (rs_userId r, rs_requestId r)) (db_reservations db)"
    using arg_cong[OF rs, of "map snd"] by (simp add: comp_def)
  have pairs: "(\<lambda>r. (rs_id r, rs_userId r, rs_requestId r)) ` set rs' =
      (\<lambda>r. (rs_id r, rs_userId r, rs_requestId r)) ` set (db_reservations db)"
    using arg_cong[OF rs, of set] by simp
  have ex: "(\<exists>r \<in> set rs'. rs_id r = i \<and> R (rs_userId r)) =
      (\<exists>r \<in> set (db_reservations db). rs_id r = i \<and> R (rs_userId r))" for i R
  proof -
    have "(\<exists>t \<in> (\<lambda>r. (rs_id r, rs_userId r, rs_requestId r)) ` set rs'. fst t = i \<and> R (fst (snd t))) =
      (\<exists>t \<in> (\<lambda>r. (rs_id r, rs_userId r, rs_requestId r)) ` set (db_reservations db).
        fst t = i \<and> R (fst (snd t)))"
      by (simp only: pairs)
    then show ?thesis by simp
  qed
  have "held_in P (db_allocations db) i = held_in Q (db_allocations db) i" for i
    using PQ by (intro held_in_cong) simp
  then have "bucket_ok P db b = bucket_ok Q (db\<lparr>db_reservations := rs'\<rparr>) b" for b
    by (simp add: bucket_ok_def)
  moreover have "allocation_ok (db\<lparr>db_reservations := rs'\<rparr>) a = allocation_ok db a" for a
    using ex[of "al_reservationId a" "\<lambda>u. \<exists>b \<in> set (db_buckets db). b_id b = al_bucketId a \<and> b_userId b = u"]
    by (simp add: allocation_ok_def)
  moreover have "keys_ok (db\<lparr>db_reservations := rs'\<rparr>) = keys_ok db"
    by (simp add: keys_ok_def ids reqs)
  ultimately show ?thesis using ok by (simp add: pool_ok_def list_all_iff)
qed

text \<open>Adding an active reservation that has no allocations yet.\<close>

lemma pool_ok_new_reservation:
  assumes ok: "pool_ok P db" and rid: "rs_id r = db_next db"
    and req: "(rs_userId r, rs_requestId r) \<notin>
      (\<lambda>r. (rs_userId r, rs_requestId r)) ` set (db_reservations db)"
    and PQ: "\<forall>a \<in> set (db_allocations db). P a = Q a"
  shows "pool_ok Q (db\<lparr>db_reservations := db_reservations db @ [r], db_next := Suc (db_next db)\<rparr>)"
    (is "pool_ok Q ?db")
proof -
  from ok have keys: "keys_ok db" by (simp add: pool_ok_def)
  have "db_next db \<notin> rs_id ` set (db_reservations db)"
    using keys by (auto simp: keys_ok_def list_all_iff)
  moreover have "\<forall>l \<in> set (db_ledger db). \<forall>i. le_bucketId l = Some i \<longrightarrow> i < db_next db \<or> i = db_next db"
    using keys unfolding keys_ok_def by blast
  ultimately have "keys_ok ?db"
    using keys rid req by (simp add: keys_ok_def less_Suc_eq list_all_less_Suc)
  moreover have "held_in P (db_allocations db) i = held_in Q (db_allocations db) i" for i
    using PQ by (intro held_in_cong) simp
  then have "bucket_ok P db b = bucket_ok Q ?db b" for b by (simp add: bucket_ok_def)
  moreover have "allocation_ok db a \<Longrightarrow> allocation_ok ?db a" for a
    by (auto simp: allocation_ok_def)
  ultimately show ?thesis using ok by (simp add: pool_ok_def list_all_iff)
qed

end
