(* ===== verification/Usage_Refinement.thy ===== *)
theory Usage_Refinement
  imports Usage_Engine Usage_Pool
begin

text \<open>
  The loops of the usage operations refine the abstract steps of \<open>Usage_Pool\<close>: as long as
  the locked copies are up to date, each iteration is one abstract step, the loop does not
  fail, and its effect on the bucket columns is a sum over what the loop handled.
\<close>

section \<open>What a loop has locked\<close>

text \<open>The locked copies are current and belong to the user.\<close>

definition locked_ok :: "usage_bucket list \<Rightarrow> string \<Rightarrow> locked_bucket list \<Rightarrow> bool" where
  "locked_ok rows userId locked \<longleftrightarrow> synced rows locked \<and>
    (\<forall>lb \<in> set locked. \<exists>b \<in> set rows. b_id b = lb_id lb \<and> b_userId b = userId)"

lemma locked_ok_lock: "locked_ok (db_buckets db) u (lockUserBuckets db u ids now)"
  unfolding locked_ok_def using synced_lockUserBuckets by (auto simp: lockUserBuckets_def)

lemma locked_ok_bump:
  assumes "locked_ok rows u locked"
  shows "locked_ok (bump i dr ds rows) u (lbump i dr ds locked)"
proof -
  have "\<exists>b \<in> set (bump i dr ds rows). b_id b = lb_id lb \<and> b_userId b = u"
    if "lb \<in> set (lbump i dr ds locked)" for lb
  proof -
    from that have "lb_id lb \<in> set (map lb_id (lbump i dr ds locked))" by (simp only: set_map imageI)
    then have "lb_id lb \<in> set (map lb_id locked)" by (simp only: ids_lbump)
    with assms obtain b where "b \<in> set rows" "b_id b = lb_id lb" "b_userId b = u"
      by (auto simp: locked_ok_def)
    with bucket_bump_exists[OF this(1)] show ?thesis by metis
  qed
  with assms show ?thesis by (simp add: locked_ok_def synced_bump)
qed

lemma locked_find:
  assumes "locked_ok rows u locked" and "distinct (map b_id rows)" and "i \<in> lb_id ` set locked"
  obtains b where "find (\<lambda>item. lb_id item = i) locked = Some (to_locked b)" "b \<in> set rows"
    "b_id b = i" "b_userId b = u"
proof -
  from assms(3) obtain lb where lb: "find (\<lambda>item. lb_id item = i) locked = Some lb"
    by (cases "find (\<lambda>item. lb_id item = i) locked") (auto simp: find_None_iff)
  from assms(1) have "synced rows locked" by (simp add: locked_ok_def)
  from synced_find[OF this assms(2) lb] obtain b where b: "b \<in> set rows" "b_id b = i"
      "lb = to_locked b" by blast
  from lb have "lb \<in> set locked" by (auto simp: find_Some_iff)
  with assms(1) b(3) obtain c where c: "c \<in> set rows" "b_id c = i" "b_userId c = u"
    by (auto simp: locked_ok_def b(2))
  with b assms(2) have "c = b" by (simp add: distinct_map inj_on_def)
  with that lb b c show ?thesis by simp
qed

lemma find_some_member:
  "find Q xs = Some x \<Longrightarrow> x \<in> set xs \<and> Q x"
  by (auto simp: find_Some_iff)

section \<open>One iteration\<close>

lemma entries_for_entries [simp]:
  "entries_for i 0 [reserve_entry u q c r i x]"
  "entries_for i 0 [release_entry u c r i x]"
  "entries_for i m ((if 0 < y then [settle_entry u c r i y] else []) @
      (if 0 < x then [release_entry u c r i x] else [])) \<longleftrightarrow> m = (if 0 < y then - y else 0)"
  by (auto simp: entries_for_def reserve_entry_def release_entry_def settle_entry_def)

lemma reserve_step_refines:
  assumes lo: "locked_ok (db_buckets db) u locked" and dist: "distinct (map b_id (db_buckets db))"
    and i: "ap_bucketId p \<in> lb_id ` set locked"
  obtains b ls where "b \<in> set (db_buckets db)" "b_id b = ap_bucketId p" "b_userId b = u"
    "entries_for (ap_bucketId p) 0 ls"
    "reserve_step u q c rid p (db, locked) =
      Inr (hold_new rid (ap_bucketId p) (ap_reserved p) ls db,
           lbump (ap_bucketId p) (ap_reserved p) 0 locked)"
proof -
  from locked_find[OF lo dist i] obtain b where
    b: "find (\<lambda>item. lb_id item = ap_bucketId p) locked = Some (to_locked b)"
      "b \<in> set (db_buckets db)" "b_id b = ap_bucketId p" "b_userId b = u"
    by blast
  have "synced (db_buckets db) locked" using lo by (simp add: locked_ok_def)
  then show ?thesis
    using b row_update_write(2)[OF dist b(2), of "ap_reserved p"]
      lrow_update_write(2)[OF _ dist b(2), of locked "ap_reserved p"]
    by (intro that[OF b(2-4) entries_for_entries(1)])
      (simp add: reserve_step_def hold_new_def appendLedger_def Let_def)
qed

lemma release_step_refines:
  assumes lo: "locked_ok (db_buckets db) u locked" and dist: "distinct (map b_id (db_buckets db))"
    and i: "al_bucketId a \<in> lb_id ` set locked"
  obtains ls where "entries_for (al_bucketId a) 0 ls"
    "release_step u rid c a (db, locked) =
      Inr (finish_allocation a 0 ls db, lbump (al_bucketId a) (- al_reserved a) 0 locked)"
proof -
  from locked_find[OF lo dist i] obtain b where
    b: "find (\<lambda>item. lb_id item = al_bucketId a) locked = Some (to_locked b)"
      "b \<in> set (db_buckets db)" "b_id b = al_bucketId a" "b_userId b = u"
    by blast
  have "synced (db_buckets db) locked" using lo by (simp add: locked_ok_def)
  then show ?thesis
    using b row_update_write(2)[OF dist b(2), of "- al_reserved a"]
      lrow_update_write(2)[OF _ dist b(2), of locked "- al_reserved a"]
    by (intro that[OF entries_for_entries(2)])
      (auto simp: release_step_def finish_allocation_def appendLedger_def Let_def
        intro!: usage_db.equality)
qed

lemma settle_step_refines:
  assumes lo: "locked_ok (db_buckets db) u locked" and dist: "distinct (map b_id (db_buckets db))"
    and i: "al_bucketId a \<in> lb_id ` set locked" and m: "0 \<le> m" "0 \<le> al_reserved a"
  obtains ls where "entries_for (al_bucketId a) (- min m (al_reserved a)) ls"
    "settle_step u rid c a (db, locked, m) =
      Inr (finish_allocation a (min m (al_reserved a)) ls db,
        lbump (al_bucketId a) (- al_reserved a) (min m (al_reserved a)) locked,
        m - min m (al_reserved a))"
proof -
  define s where "s = min m (al_reserved a)"
  have amt: "(if m < al_reserved a then m else al_reserved a) = s" and s: "0 \<le> s"
    using m by (simp_all add: s_def min_def)
  define ls where "ls = (if 0 < s then [settle_entry u c rid (al_bucketId a) s] else []) @
      (if 0 < al_reserved a - s
       then [release_entry u c rid (al_bucketId a) (al_reserved a - s)] else [])"
  have ls: "entries_for (al_bucketId a) (- s) ls"
    using s unfolding ls_def entries_for_entries(3) by simp
  from locked_find[OF lo dist i] obtain b where
    b: "find (\<lambda>item. lb_id item = al_bucketId a) locked = Some (to_locked b)"
      "b \<in> set (db_buckets db)" "b_id b = al_bucketId a" "b_userId b = u"
    by blast
  have "synced (db_buckets db) locked" using lo by (simp add: locked_ok_def)
  then have "settle_step u rid c a (db, locked, m) =
      Inr (finish_allocation a s ls db, lbump (al_bucketId a) (- al_reserved a) s locked, m - s)"
    using b row_update_write(1)[where dr = "- al_reserved a" and ds = s, OF dist b(2)]
      lrow_update_write(1)[where dr = "- al_reserved a" and ds = s, OF _ dist b(2)]
    by (simp add: settle_step_def amt finish_allocation_def appendLedger_def Let_def ls_def)
  with ls show ?thesis using that unfolding s_def by blast
qed

section \<open>The loops\<close>

text \<open>What a plan adds to the buckets.\<close>

definition hold_plan :: "allocation_plan list \<Rightarrow> usage_bucket list \<Rightarrow> usage_bucket list" where
  "hold_plan ps rows = map (\<lambda>b. b\<lparr>b_reserved := b_reserved b + planned ps (b_id b)\<rparr>) rows"

lemma planned_simps [simp]:
  "planned [] i = 0"
  "planned (p # ps) i = (if ap_bucketId p = i then ap_reserved p else 0) + planned ps i"
  by (simp_all add: planned_def)

lemma hold_plan_Nil [simp]: "hold_plan [] rows = rows"
  by (simp add: hold_plan_def)

lemma hold_plan_Cons:
  "hold_plan ps (bump (ap_bucketId p) (ap_reserved p) 0 rows) = hold_plan (p # ps) rows"
  by (auto simp: hold_plan_def bump_def row_update_def)

text \<open>A plan fits the buckets when each of its amounts is still free there.\<close>

definition plan_fits :: "usage_bucket list \<Rightarrow> locked_bucket list \<Rightarrow> allocation_plan list \<Rightarrow> bool" where
  "plan_fits rows locked ps \<longleftrightarrow> distinct (map ap_bucketId ps) \<and>
    (\<forall>p \<in> set ps. 0 \<le> ap_reserved p \<and> ap_bucketId p \<in> lb_id ` set locked \<and>
      (\<forall>b \<in> set rows. b_id b = ap_bucketId p \<longrightarrow> ap_reserved p \<le> b_total b - b_spent b - b_reserved b))"

lemma plan_fits_step:
  assumes "plan_fits rows locked (p # ps)"
  shows "plan_fits (bump (ap_bucketId p) x 0 rows) (lbump (ap_bucketId p) x 0 locked) ps"
proof -
  have ids: "lb_id ` set (lbump (ap_bucketId p) x 0 locked) = lb_id ` set locked"
    by (metis ids_lbump list.set_map)
  have "ap_reserved q \<le> b_total b - b_spent b - b_reserved b"
    if q: "q \<in> set ps" and b: "b \<in> set (bump (ap_bucketId p) x 0 rows)" "b_id b = ap_bucketId q" for q b
  proof -
    have "ap_bucketId p \<notin> ap_bucketId ` set ps" using assms by (simp add: plan_fits_def)
    with q have "ap_bucketId q \<noteq> ap_bucketId p" by (metis imageI)
    with b obtain c where "c \<in> set rows" "b_id c = ap_bucketId q" "b_total b = b_total c"
        "b_reserved b = b_reserved c" "b_spent b = b_spent c"
      by (auto elim!: bump_cases)
    with assms q show ?thesis by (auto simp: plan_fits_def)
  qed
  then show ?thesis using assms by (simp add: plan_fits_def ids)
qed

lemma reserve_loop:
  assumes "pool_ok P db" and "locked_ok (db_buckets db) u locked" and "plan_fits (db_buckets db) locked ps"
    and "r \<in> set (db_reservations db)" and "rs_userId r = u" and "rs_id r = rid"
    and "\<forall>a \<in> set (db_allocations db). al_reservationId a = rid \<longrightarrow> al_bucketId a \<notin> ap_bucketId ` set ps"
    and "\<And>a. al_reservationId a = rid \<Longrightarrow> P a"
  shows "\<exists>db' locked' news. fold_res (reserve_step u q c rid) ps (db, locked) = Inr (db', locked') \<and>
    pool_ok P db' \<and> db_reservations db' = db_reservations db \<and>
    db_buckets db' = hold_plan ps (db_buckets db) \<and>
    db_allocations db' = db_allocations db @ news \<and>
    map (\<lambda>a. (al_reservationId a, al_bucketId a, al_reserved a, al_settled a)) news =
      map (\<lambda>p. (rid, ap_bucketId p, ap_reserved p, 0)) ps"
  using assms
proof (induction ps arbitrary: db locked)
  case Nil
  then show ?case by simp
next
  case (Cons p ps)
  have keys: "distinct (map b_id (db_buckets db))" using Cons.prems(1) by (simp add: pool_ok_def keys_ok_def)
  have p: "0 \<le> ap_reserved p" "ap_bucketId p \<in> lb_id ` set locked"
    using Cons.prems(3) by (auto simp: plan_fits_def)
  obtain b ls where b: "b \<in> set (db_buckets db)" "b_id b = ap_bucketId p" "b_userId b = u"
      and ls: "entries_for (ap_bucketId p) 0 ls"
      and st: "reserve_step u q c rid p (db, locked) = Inr (hold_new rid (ap_bucketId p) (ap_reserved p) ls db,
           lbump (ap_bucketId p) (ap_reserved p) 0 locked)"
    by (rule reserve_step_refines[OF Cons.prems(2) keys p(2), of q c rid])
  let ?db = "hold_new rid (ap_bucketId p) (ap_reserved p) ls db"
  let ?a = "\<lparr>al_id = db_next db, al_reservationId = rid, al_bucketId = ap_bucketId p,
    al_reserved = ap_reserved p, al_settled = 0\<rparr>"
  have allocs: "db_allocations ?db = db_allocations db @ [?a]" by (simp add: hold_new_def)
  have room: "ap_reserved p \<le> b_total b - b_spent b - b_reserved b"
    using Cons.prems(3) b by (auto simp: plan_fits_def)
  have pool: "pool_ok P ?db"
    using hold_new_pool_ok[OF Cons.prems(1) p(1) b(1) room Cons.prems(4), of ls]
      Cons.prems(5-8) b ls by auto
  have later: "ap_bucketId p \<notin> ap_bucketId ` set ps" using Cons.prems(3) by (auto simp: plan_fits_def)
  have "\<exists>db' locked' news. fold_res (reserve_step u q c rid) ps (?db, lbump (ap_bucketId p) (ap_reserved p) 0 locked) = Inr (db', locked') \<and>
    pool_ok P db' \<and> db_reservations db' = db_reservations ?db \<and>
    db_buckets db' = hold_plan ps (db_buckets ?db) \<and>
    db_allocations db' = db_allocations ?db @ news \<and>
    map (\<lambda>a. (al_reservationId a, al_bucketId a, al_reserved a, al_settled a)) news =
      map (\<lambda>p. (rid, ap_bucketId p, ap_reserved p, 0)) ps"
    using Cons.prems(2-7) plan_fits_step[OF Cons.prems(3)] later
    by (intro Cons.IH[OF pool _ _ _ Cons.prems(5,6) _ Cons.prems(8)])
      (auto simp: locked_ok_bump allocs)
  then show ?case
    by (auto simp: st hold_plan_Cons allocs intro!: exI[of _ "?a # _"])
qed

text \<open>
  The loop over the extra allocations works on the reservation's own allocations too: the
  local list it keeps holds exactly the rows of the reservation.
\<close>

definition order_ok :: "'a usage_db_scheme \<Rightarrow> nat \<Rightarrow> usage_allocation list \<Rightarrow> bool" where
  "order_ok db rid order \<longleftrightarrow> distinct (map al_id order) \<and>
    set order = set (reservation_allocations db rid)"

lemma order_ok_mem:
  "order_ok db rid order \<Longrightarrow> a \<in> set order \<longleftrightarrow> a \<in> set (db_allocations db) \<and> al_reservationId a = rid"
  by (auto simp: order_ok_def reservation_allocations_def)

definition allocations_open :: "'a usage_db_scheme \<Rightarrow> nat \<Rightarrow> bool" where
  "allocations_open db rid \<longleftrightarrow>
    (\<forall>a \<in> set (db_allocations db). al_reservationId a = rid \<longrightarrow> al_settled a = 0)"

lemma extra_step_refines:
  assumes pool: "pool_ok P db" and lo: "locked_ok (db_buckets db) u locked"
    and fits: "plan_fits (db_buckets db) locked (p # ps)"
    and r: "r \<in> set (db_reservations db)" "rs_userId r = u" "rs_id r = rid"
    and ord: "order_ok db rid order" and op: "allocations_open db rid"
    and P: "\<And>a. al_reservationId a = rid \<Longrightarrow> P a" "\<And>x v. P (x\<lparr>al_reserved := v\<rparr>) = P x"
  obtains db' order' where
    "extra_step rid p (db, locked, order) =
      Inr (db', lbump (ap_bucketId p) (ap_reserved p) 0 locked, order')"
    "pool_ok P db'" "db_reservations db' = db_reservations db"
    "db_buckets db' = bump (ap_bucketId p) (ap_reserved p) 0 (db_buckets db)"
    "order_ok db' rid order'" "allocations_open db' rid"
    "al_bucketId ` set order' \<subseteq> insert (ap_bucketId p) (al_bucketId ` set order)"
    "\<forall>i. held_for (db_allocations db') i = held_for (db_allocations db) i + (if rid = i then ap_reserved p else 0)"
    "\<forall>i. settled_for (db_allocations db') i = settled_for (db_allocations db) i"
proof -
  from pool have keys: "keys_ok db" by (simp add: pool_ok_def)
  then have dist: "distinct (map b_id (db_buckets db))" "distinct (map al_id (db_allocations db))"
    by (simp_all add: keys_ok_def)
  have p: "0 \<le> ap_reserved p" "ap_bucketId p \<in> lb_id ` set locked"
    using fits by (auto simp: plan_fits_def)
  from locked_find[OF lo dist(1) p(2)] obtain b where
    fb: "find (\<lambda>item. lb_id item = ap_bucketId p) locked = Some (to_locked b)"
    and b: "b \<in> set (db_buckets db)" "b_id b = ap_bucketId p" "b_userId b = u"
    by blast
  have room: "ap_reserved p \<le> b_total b - b_spent b - b_reserved b"
    using fits b by (auto simp: plan_fits_def)
  have "synced (db_buckets db) locked" using lo by (simp add: locked_ok_def)
  note writes = row_update_write(2)[OF dist(1) b(1), of "ap_reserved p", unfolded b(2)]
    lrow_update_write(2)[OF this dist(1) b(1), of "ap_reserved p", unfolded b(2)]
  show ?thesis
  proof (cases "find (\<lambda>item. al_bucketId item = ap_bucketId p) order")
    case (Some a)
    then have aord: "a \<in> set order" and ab: "al_bucketId a = ap_bucketId p"
      by (auto dest: find_some_member)
    with order_ok_mem[OF ord] have a: "a \<in> set (db_allocations db)" "al_reservationId a = rid"
      by auto
    let ?db = "hold_more a (ap_reserved p) db"
    let ?order = "row_update al_id (al_id a) (\<lambda>x. x\<lparr>al_reserved := al_reserved a + ap_reserved p\<rparr>) order"
    have "extra_step rid p (db, locked, order) =
        Inr (?db, lbump (ap_bucketId p) (ap_reserved p) 0 locked, ?order)"
      using writes by (simp add: extra_step_def fb Some b(2) ab hold_more_def Let_def)
    moreover have "al_bucketId ` set ?order \<subseteq> insert (ap_bucketId p) (al_bucketId ` set order)"
      by (auto simp: set_row_update)
    moreover have "pool_ok P ?db"
      using hold_more_pool_ok[OF pool p(1) b(1) room a(1)] ab b(2) P a(2) by simp
    moreover have "order_ok ?db rid ?order"
      using ord a(2) allocation_unique[OF keys a(1)] order_ok_mem[OF ord]
      by (auto simp: order_ok_def reservation_allocations_def hold_more_def set_row_update
          image_iff)
    moreover have "allocations_open ?db rid"
      using op by (auto simp: allocations_open_def hold_more_def set_row_update)
    ultimately show ?thesis
      using that hold_more_sums[OF keys a(1)] a(2) ab by simp
  next
    case None
    let ?db = "hold_new rid (ap_bucketId p) (ap_reserved p) [] db"
    let ?a = "\<lparr>al_id = db_next db, al_reservationId = rid, al_bucketId = ap_bucketId p,
      al_reserved = ap_reserved p, al_settled = 0\<rparr>"
    have fresh: "\<forall>a \<in> set (db_allocations db). \<not> (al_reservationId a = rid \<and> al_bucketId a = ap_bucketId p)"
      using None order_ok_mem[OF ord] by (auto simp: find_None_iff)
    have id: "db_next db \<notin> al_id ` set (db_allocations db)"
      using keys by (auto simp: keys_ok_def list_all_iff)
    have "extra_step rid p (db, locked, order) =
        Inr (?db, lbump (ap_bucketId p) (ap_reserved p) 0 locked, order @ [?a])"
      using writes by (simp add: extra_step_def fb None b(2) hold_new_def Let_def)
    moreover have "pool_ok P ?db"
      using hold_new_pool_ok[OF pool p(1) b(1) room r(1), of "[]"] b r fresh P(1)
      by (simp add: entries_for_def)
    moreover have "order_ok ?db rid (order @ [?a])"
      using ord id by (auto simp: order_ok_def reservation_allocations_def hold_new_def)
    moreover have "allocations_open ?db rid"
      using op by (auto simp: allocations_open_def hold_new_def)
    ultimately show ?thesis using that by simp
  qed
qed

lemma extra_loop:
  assumes "pool_ok P db" and "locked_ok (db_buckets db) u locked"
    and "plan_fits (db_buckets db) locked ps"
    and "r \<in> set (db_reservations db)" and "rs_userId r = u" and "rs_id r = rid"
    and "order_ok db rid order" and "allocations_open db rid"
    and P: "\<And>a. al_reservationId a = rid \<Longrightarrow> P a" "\<And>x v. P (x\<lparr>al_reserved := v\<rparr>) = P x"
  shows "\<exists>db' locked' order'. fold_res (extra_step rid) ps (db, locked, order) = Inr (db', locked', order') \<and>
    pool_ok P db' \<and> db_reservations db' = db_reservations db \<and>
    db_buckets db' = hold_plan ps (db_buckets db) \<and> locked_ok (db_buckets db') u locked' \<and>
    map lb_id locked' = map lb_id locked \<and>
    order_ok db' rid order' \<and> allocations_open db' rid \<and>
    al_bucketId ` set order' \<subseteq> ap_bucketId ` set ps \<union> al_bucketId ` set order \<and>
    (\<forall>i. held_for (db_allocations db') i = held_for (db_allocations db) i +
      (if rid = i then sum_list (map ap_reserved ps) else 0)) \<and>
    (\<forall>i. settled_for (db_allocations db') i = settled_for (db_allocations db) i)"
  using assms(1-8)
proof (induction ps arbitrary: db locked order)
  case Nil
  then show ?case by simp
next
  case (Cons p ps)
  obtain db1 order1 where st:
      "extra_step rid p (db, locked, order) =
        Inr (db1, lbump (ap_bucketId p) (ap_reserved p) 0 locked, order1)"
      "pool_ok P db1" "db_reservations db1 = db_reservations db"
      "db_buckets db1 = bump (ap_bucketId p) (ap_reserved p) 0 (db_buckets db)"
      "order_ok db1 rid order1" "allocations_open db1 rid"
      "al_bucketId ` set order1 \<subseteq> insert (ap_bucketId p) (al_bucketId ` set order)"
      "\<forall>i. held_for (db_allocations db1) i = held_for (db_allocations db) i + (if rid = i then ap_reserved p else 0)"
      "\<forall>i. settled_for (db_allocations db1) i = settled_for (db_allocations db) i"
    by (rule extra_step_refines[OF Cons.prems P])
  let ?locked = "lbump (ap_bucketId p) (ap_reserved p) 0 locked"
  have "locked_ok (db_buckets db1) u ?locked" "plan_fits (db_buckets db1) ?locked ps"
    using Cons.prems(2) plan_fits_step[OF Cons.prems(3)] by (simp_all add: st(4) locked_ok_bump)
  from Cons.IH[OF st(2) this _ Cons.prems(5,6) st(5,6)] Cons.prems(4)
  obtain db' locked' order' where
    "fold_res (extra_step rid) ps (db1, ?locked, order1) = Inr (db', locked', order')"
    "pool_ok P db'" "db_reservations db' = db_reservations db"
    "db_buckets db' = hold_plan (p # ps) (db_buckets db)" "locked_ok (db_buckets db') u locked'"
    "map lb_id locked' = map lb_id locked"
    "order_ok db' rid order'" "allocations_open db' rid"
    "al_bucketId ` set order' \<subseteq> ap_bucketId ` set ps \<union> al_bucketId ` set order1"
    "\<forall>i. held_for (db_allocations db') i = held_for (db_allocations db1) i +
      (if rid = i then sum_list (map ap_reserved ps) else 0)"
    "\<forall>i. settled_for (db_allocations db') i = settled_for (db_allocations db1) i"
    by (auto simp: st(3,4) hold_plan_Cons)
  moreover from this(9) st(7) have
    "al_bucketId ` set order' \<subseteq> ap_bucketId ` set (p # ps) \<union> al_bucketId ` set order"
    by (simp add: subset_iff) blast
  ultimately show ?case by (simp add: st(1,8,9))
qed

section \<open>Finishing the allocations of a reservation\<close>

text \<open>
  What each allocation spends when \<open>m\<close> is settled over them in order, and what that does to
  the buckets. Releasing is settling nothing.
\<close>

fun settle_amounts :: "int \<Rightarrow> usage_allocation list \<Rightarrow> (usage_allocation \<times> int) list" where
  "settle_amounts m [] = []"
| "settle_amounts m (a # as) =
    (let x = min m (al_reserved a) in (a, x) # settle_amounts (m - x) as)"

definition paid_in :: "(usage_allocation \<times> int) list \<Rightarrow> nat \<Rightarrow> int" where
  "paid_in ps i = sum_list (map (\<lambda>p. if al_bucketId (fst p) = i then snd p else 0) ps)"

definition freed_in :: "(usage_allocation \<times> int) list \<Rightarrow> nat \<Rightarrow> int" where
  "freed_in ps i = sum_list (map (\<lambda>p. if al_bucketId (fst p) = i then al_reserved (fst p) else 0) ps)"

definition settle_rows :: "(usage_allocation \<times> int) list \<Rightarrow> usage_bucket list \<Rightarrow> usage_bucket list" where
  "settle_rows ps rows = map (\<lambda>b. b\<lparr>b_reserved := b_reserved b - freed_in ps (b_id b),
     b_spent := b_spent b + paid_in ps (b_id b)\<rparr>) rows"

lemma paid_freed_simps [simp]:
  "paid_in [] i = 0" "freed_in [] i = 0"
  "paid_in ((a, x) # ps) i = (if al_bucketId a = i then x else 0) + paid_in ps i"
  "freed_in ((a, x) # ps) i = (if al_bucketId a = i then al_reserved a else 0) + freed_in ps i"
  by (simp_all add: paid_in_def freed_in_def)

lemma settle_rows_simps:
  "settle_rows [] rows = rows"
  "settle_rows ps (bump (al_bucketId a) (- al_reserved a) x rows) = settle_rows ((a, x) # ps) rows"
  by (auto simp: settle_rows_def bump_def row_update_def)

lemma settle_amounts_total:
  assumes "0 \<le> m" and "\<forall>a \<in> set as. 0 \<le> al_reserved a"
  shows "sum_list (map snd (settle_amounts m as)) = min m (sum_list (map al_reserved as))"
  using assms
proof (induction as arbitrary: m)
  case Nil
  then show ?case by simp
next
  case (Cons a as)
  have "0 \<le> m - min m (al_reserved a)" by simp
  moreover have "0 \<le> sum_list (map al_reserved as)"
    using Cons.prems(2) by (intro sum_list_nonneg_int) simp
  ultimately show ?case using Cons by (simp add: Let_def min_def)
qed

lemma settle_amounts_zero:
  "\<forall>a \<in> set as. 0 \<le> al_reserved a \<Longrightarrow> settle_amounts 0 as = map (\<lambda>a. (a, 0)) as"
  by (induction as) (simp_all add: Let_def)

text \<open>The columns of the allocations that finishing leaves alone.\<close>

definition allocation_shape :: "usage_allocation \<Rightarrow> nat \<times> nat \<times> nat \<times> int" where
  "allocation_shape a = (al_id a, al_reservationId a, al_bucketId a, al_reserved a)"

lemma finish_shape [simp]:
  "map allocation_shape (db_allocations (finish_allocation a x ls db)) =
    map allocation_shape (db_allocations db)"
  by (simp add: finish_allocation_def allocation_shape_def)

text \<open>The rows a loop still has to finish, and the progress of one step.\<close>

definition to_finish ::
    "(usage_allocation \<Rightarrow> bool) \<Rightarrow> 'a usage_db_scheme \<Rightarrow> nat \<Rightarrow> usage_allocation list \<Rightarrow> bool" where
  "to_finish P db rid as \<longleftrightarrow> distinct (map al_id as) \<and> set as \<subseteq> set (db_allocations db) \<and>
    (\<forall>a \<in> set as. P a \<and> al_settled a = 0 \<and> al_reservationId a = rid \<and> 0 \<le> al_reserved a)"

lemma row_update_other: "y \<in> set rows \<Longrightarrow> key y \<noteq> k \<Longrightarrow> y \<in> set (row_update key k f rows)"
  by (auto simp: row_update_def image_iff intro!: bexI[of _ y])

lemma finish_progress:
  assumes pool: "pool_ok P db" and lo: "locked_ok (db_buckets db) u locked"
    and tf: "to_finish P db rid (a # as)" and P: "\<And>x v. P (x\<lparr>al_settled := v\<rparr>) = P x"
    and x: "0 \<le> x" "x \<le> al_reserved a" and ls: "entries_for (al_bucketId a) (- x) ls"
  defines "db1 \<equiv> finish_allocation a x ls db"
    and "locked1 \<equiv> lbump (al_bucketId a) (- al_reserved a) x locked"
    and "P1 \<equiv> \<lambda>y. P y \<and> al_id y \<noteq> al_id a"
  shows "pool_ok P1 db1" and "locked_ok (db_buckets db1) u locked1" and "to_finish P1 db1 rid as"
    and "\<And>y v. P1 (y\<lparr>al_settled := v\<rparr>) = P1 y"
    and "lb_id ` set locked1 = lb_id ` set locked"
    and "held_for (db_allocations db1) i = held_for (db_allocations db) i"
    and "settled_for (db_allocations db1) i =
      settled_for (db_allocations db) i + (if rid = i then x else 0)"
proof -
  from pool have keys: "keys_ok db" by (simp add: pool_ok_def)
  from tf have a: "a \<in> set (db_allocations db)" "al_settled a = 0" "P a" "al_reservationId a = rid"
    by (auto simp: to_finish_def)
  show "pool_ok P1 db1"
    unfolding P1_def db1_def by (rule finish_pool_ok[OF pool x a(1-3) P ls])
  show "locked_ok (db_buckets db1) u locked1"
    using lo by (simp add: db1_def locked1_def locked_ok_bump)
  have rest: "al_id y \<noteq> al_id a" "y \<in> set (db_allocations db1)" if y: "y \<in> set as" for y
  proof -
    have "al_id a \<notin> al_id ` set as" "set as \<subseteq> set (db_allocations db)"
      using tf by (simp_all add: to_finish_def)
    with y show ne: "al_id y \<noteq> al_id a" by (metis imageI)
    have "y \<in> set (db_allocations db)" using y \<open>set as \<subseteq> _\<close> by blast
    with ne show "y \<in> set (db_allocations db1)"
      by (simp add: db1_def finish_allocation_def row_update_other)
  qed
  have "set as \<subseteq> set (db_allocations db1)" using rest(2) by blast
  moreover have "P1 y \<and> al_settled y = 0 \<and> al_reservationId y = rid \<and> 0 \<le> al_reserved y"
    if "y \<in> set as" for y
    using tf that rest(1)[OF that] by (simp add: to_finish_def P1_def)
  ultimately show "to_finish P1 db1 rid as" using tf by (simp add: to_finish_def)
  show "\<And>y v. P1 (y\<lparr>al_settled := v\<rparr>) = P1 y" using P by (simp add: P1_def)
  show "lb_id ` set locked1 = lb_id ` set locked"
    unfolding locked1_def by (metis ids_lbump list.set_map)
  show "held_for (db_allocations db1) i = held_for (db_allocations db) i"
    "settled_for (db_allocations db1) i =
      settled_for (db_allocations db) i + (if rid = i then x else 0)"
    using finish_sums[OF keys a(1,2)] a(4) by (simp_all add: db1_def)
qed

definition settled_to ::
    "(usage_allocation \<Rightarrow> bool) \<Rightarrow> nat \<Rightarrow> (usage_allocation \<times> int) list \<Rightarrow>
      'a usage_db_scheme \<Rightarrow> 'a usage_db_scheme \<Rightarrow> bool" where
  "settled_to P rid ps db db' \<longleftrightarrow>
    pool_ok (\<lambda>y. P y \<and> al_id y \<notin> al_id ` set (map fst ps)) db' \<and>
    db_reservations db' = db_reservations db \<and>
    db_buckets db' = settle_rows ps (db_buckets db) \<and>
    map allocation_shape (db_allocations db') = map allocation_shape (db_allocations db) \<and>
    (\<forall>i. held_for (db_allocations db') i = held_for (db_allocations db) i) \<and>
    (\<forall>i. settled_for (db_allocations db') i =
      settled_for (db_allocations db) i + (if rid = i then sum_list (map snd ps) else 0))"

lemma settled_to_step:
  assumes fp: "settled_to (\<lambda>y. P y \<and> al_id y \<noteq> al_id a) rid ps (finish_allocation a x ls db) db'"
    and sums: "\<And>i. held_for (db_allocations (finish_allocation a x ls db)) i = held_for (db_allocations db) i"
      "\<And>i. settled_for (db_allocations (finish_allocation a x ls db)) i =
        settled_for (db_allocations db) i + (if rid = i then x else 0)"
  shows "settled_to P rid ((a, x) # ps) db db'"
proof -
  have "(\<lambda>y. (P y \<and> al_id y \<noteq> al_id a) \<and> al_id y \<notin> al_id ` set (map fst ps)) =
      (\<lambda>y. P y \<and> al_id y \<notin> al_id ` set (map fst ((a, x) # ps)))"
    by (auto simp: fun_eq_iff)
  with fp show ?thesis by (simp add: settled_to_def settle_rows_simps sums)
qed

lemma settle_loop:
  assumes "pool_ok P db" and "locked_ok (db_buckets db) u locked" and "to_finish P db rid as"
    and "al_bucketId ` set as \<subseteq> lb_id ` set locked" and "0 \<le> m"
    and "\<And>x v. P (x\<lparr>al_settled := v\<rparr>) = P x"
  shows "\<exists>db' locked' m'. fold_res (settle_step u rid c) as (db, locked, m) = Inr (db', locked', m') \<and>
    settled_to P rid (settle_amounts m as) db db'"
  using assms
proof (induction as arbitrary: P db locked m)
  case Nil
  then show ?case by (simp add: settled_to_def settle_rows_simps)
next
  case (Cons a as)
  have dist: "distinct (map b_id (db_buckets db))"
    using Cons.prems(1) by (simp add: pool_ok_def keys_ok_def)
  have i: "al_bucketId a \<in> lb_id ` set locked" and r: "0 \<le> al_reserved a"
    using Cons.prems(3,4) by (auto simp: to_finish_def)
  let ?x = "min m (al_reserved a)"
  obtain ls where ls: "entries_for (al_bucketId a) (- ?x) ls"
    and st: "settle_step u rid c a (db, locked, m) = Inr (finish_allocation a ?x ls db,
        lbump (al_bucketId a) (- al_reserved a) ?x locked, m - ?x)"
    by (rule settle_step_refines[OF Cons.prems(2) dist i Cons.prems(5) r, of rid c])
  have x: "0 \<le> ?x" "?x \<le> al_reserved a" using Cons.prems(5) r by simp_all
  note fp = finish_progress[OF Cons.prems(1-3,6) x ls]
  have "al_bucketId ` set as \<subseteq> lb_id ` set (lbump (al_bucketId a) (- al_reserved a) ?x locked)"
    using Cons.prems(4) by (simp add: fp(5))
  moreover have "0 \<le> m - ?x" by simp
  ultimately obtain db' locked' m' where
    "fold_res (settle_step u rid c) as (finish_allocation a ?x ls db,
        lbump (al_bucketId a) (- al_reserved a) ?x locked, m - ?x) = Inr (db', locked', m')"
    "settled_to (\<lambda>y. P y \<and> al_id y \<noteq> al_id a) rid (settle_amounts (m - ?x) as)
      (finish_allocation a ?x ls db) db'"
    using Cons.IH[OF fp(1-3) _ _ fp(4)] by blast
  with settled_to_step[OF this(2) fp(6,7)] show ?case by (simp add: st Let_def)
qed

lemma release_loop:
  assumes "pool_ok P db" and "locked_ok (db_buckets db) u locked" and "to_finish P db rid as"
    and "al_bucketId ` set as \<subseteq> lb_id ` set locked"
    and "\<And>x v. P (x\<lparr>al_settled := v\<rparr>) = P x"
  shows "\<exists>db' locked'. fold_res (release_step u rid c) as (db, locked) = Inr (db', locked') \<and>
    settled_to P rid (map (\<lambda>a. (a, 0)) as) db db'"
  using assms
proof (induction as arbitrary: P db locked)
  case Nil
  then show ?case by (simp add: settled_to_def settle_rows_simps)
next
  case (Cons a as)
  have dist: "distinct (map b_id (db_buckets db))"
    using Cons.prems(1) by (simp add: pool_ok_def keys_ok_def)
  have i: "al_bucketId a \<in> lb_id ` set locked" and r: "0 \<le> al_reserved a"
    using Cons.prems(3,4) by (auto simp: to_finish_def)
  obtain ls where ls: "entries_for (al_bucketId a) 0 ls"
    and st: "release_step u rid c a (db, locked) = Inr (finish_allocation a 0 ls db,
        lbump (al_bucketId a) (- al_reserved a) 0 locked)"
    by (rule release_step_refines[OF Cons.prems(2) dist i, of rid c])
  note fp = finish_progress[OF Cons.prems(1-3,5) order_refl r, of ls]
  have ls0: "entries_for (al_bucketId a) (- 0) ls" using ls by simp
  have "al_bucketId ` set as \<subseteq> lb_id ` set (lbump (al_bucketId a) (- al_reserved a) 0 locked)"
    using Cons.prems(4) by (simp add: fp(5)[OF ls0])
  from Cons.IH[OF fp(1-3)[OF ls0] this fp(4)[OF ls0]] obtain db' locked' where
    "fold_res (release_step u rid c) as (finish_allocation a 0 ls db,
        lbump (al_bucketId a) (- al_reserved a) 0 locked) = Inr (db', locked')"
    "settled_to (\<lambda>y. P y \<and> al_id y \<noteq> al_id a) rid (map (\<lambda>a. (a, 0)) as)
      (finish_allocation a 0 ls db) db'"
    by blast
  with settled_to_step[OF this(2) fp(6,7)[OF ls0]] show ?case by (simp add: st)
qed

end
