(* ===== verification/Usage_Accounting.thy ===== *)
theory Usage_Accounting
  imports Usage_Refinement
begin

text \<open>
  What \<open>reserveUsage\<close>, \<open>settleUsage\<close> and \<open>releaseUsage\<close> do from a state whose accounts
  are in order: each keeps \<open>usage_ok\<close>, none fails half way, and their effect on the bucket
  columns is given in closed form.
\<close>

section \<open>What is locked\<close>

lemma lock_ids_distinct:
  "keys_ok db \<Longrightarrow> distinct (map lb_id (lockUserBuckets db u ids now))"
  by (simp add: lockUserBuckets_def keys_ok_def comp_def distinct_map_filter)

lemma lock_contains:
  assumes "b \<in> set (db_buckets db)" and "b_userId b = u"
    and "b_id b \<in> set ids \<or> unexpired now (b_expiresAt b)"
  shows "b_id b \<in> lb_id ` set (lockUserBuckets db u ids now)"
  using assms by (force simp: lockUserBuckets_def image_image)

lemma fold_sum: "fold (\<lambda>b s. s + f b) bs (x::int) = x + sum_list (map f bs)"
  by (induction bs arbitrary: x) simp_all

lemma spendable_lock:
  assumes "usage_ok db"
  shows "spendable (lockUserBuckets db u [] now) = getSpendableUsageMicroRub u now db"
proof -
  have "max 0 (lb_available (to_locked b)) = availableMicroRub (b_total b) (b_spent b) (b_reserved b)"
    if "b \<in> set (db_buckets db)" for b
    using assms that
    by (auto simp: usage_ok_def pool_ok_def list_all_iff bucket_ok_def availableMicroRub_def)
  then show ?thesis
    by (auto simp: spendable_def lockUserBuckets_def getSpendableUsageMicroRub_def
        getSpendableUsageState_def fold_sum Let_def intro!: sum_list_map_cong_set)
qed

lemma plan_fits_plan:
  assumes plan: "planReservationAllocations bs e = Some ps" and sub: "set bs \<subseteq> set locked"
    and lo: "locked_ok rows u locked" and dist: "distinct (map b_id rows)" "distinct (map lb_id bs)"
  shows "plan_fits rows locked ps"
  unfolding plan_fits_def
proof (intro conjI ballI impI)
  show "distinct (map ap_bucketId ps)" by (rule plan_Some_distinct[OF plan dist(2)])
  fix p assume p: "p \<in> set ps"
  from plan_Some_member[OF plan p] obtain lb where lb: "lb \<in> set bs" "lb_id lb = ap_bucketId p"
      "ap_reserved p \<le> lb_available lb" "0 < ap_reserved p"
    by blast
  then show "0 \<le> ap_reserved p" "ap_bucketId p \<in> lb_id ` set locked" using sub by force+
  fix b assume b: "b \<in> set rows" "b_id b = ap_bucketId p"
  from lo lb(1) sub obtain c where c: "c \<in> set rows" "lb = to_locked c"
    by (auto simp: locked_ok_def synced_def)
  with b lb(2) dist(1) have "c = b" by (simp add: distinct_map inj_on_def)
  with c lb(3) show "ap_reserved p \<le> b_total b - b_spent b - b_reserved b"
    by (simp add: availableMicroRub_def)
qed

section \<open>Reserving\<close>

lemma held_for_new:
  assumes "map (\<lambda>a. (al_reservationId a, al_bucketId a, al_reserved a, al_settled a)) news =
      map (\<lambda>p. (rid, ap_bucketId p, ap_reserved p, 0)) ps"
  shows "held_for news i = (if i = rid then sum_list (map ap_reserved ps) else 0)"
    and "settled_for news i = 0"
    and "map (\<lambda>a. \<lparr>av_bucketId = al_bucketId a, av_reserved = al_reserved a,
        av_settled = al_settled a\<rparr>) (filter (\<lambda>a. al_reservationId a = rid) news) =
      map (\<lambda>p. \<lparr>av_bucketId = ap_bucketId p, av_reserved = ap_reserved p, av_settled = 0\<rparr>) ps"
  using assms
proof (induction news arbitrary: ps)
  case Nil
  { case 1 then show ?case by simp next case 2 then show ?case by simp next case 3 then show ?case by simp }
next
  case (Cons a news)
  { case 1 with Cons show ?case by (cases ps) auto
  next case 2 with Cons show ?case by (cases ps) auto
  next case 3 with Cons show ?case by (cases ps) auto }
qed

text \<open>The allocations and reservations of a well-formed state refer to older ids.\<close>

lemma allocation_refs:
  assumes "pool_ok P db" and "a \<in> set (db_allocations db)"
  obtains r b where "r \<in> set (db_reservations db)" "rs_id r = al_reservationId a"
    "b \<in> set (db_buckets db)" "b_id b = al_bucketId a" "b_userId b = rs_userId r"
    "al_reservationId a < db_next db"
proof -
  from assms obtain r b where *: "r \<in> set (db_reservations db)" "rs_id r = al_reservationId a"
    "b \<in> set (db_buckets db)" "b_id b = al_bucketId a" "b_userId b = rs_userId r"
    by (auto simp: pool_ok_def list_all_iff allocation_ok_def)
  moreover have "rs_id r < db_next db"
    using assms(1) *(1) by (auto simp: pool_ok_def keys_ok_def list_all_iff)
  ultimately show ?thesis using that by simp
qed

lemma sums_absent:
  assumes "\<forall>a \<in> set as. al_reservationId a \<noteq> i"
  shows "held_for as i = 0" and "settled_for as i = 0"
  using assms by (induction as) auto

definition find_request :: "string \<Rightarrow> string \<Rightarrow> 'a usage_db_scheme \<Rightarrow> usage_reservation option" where
  "find_request u q db = find (\<lambda>r. rs_userId r = u \<and> rs_requestId r = q) (db_reservations db)"

lemma is_active_append:
  "is_active (rs @ [r]) i \<longleftrightarrow> is_active rs i \<or> (rs_id r = i \<and> rs_status r = ACTIVE)"
  by (auto simp: is_active_def)

lemma reserve_success:
  assumes ok: "usage_ok db" and e: "0 < e" and new: "find_request u q db = None"
    and plan: "planReservationAllocations (lockUserBuckets db u [] now) e = Some ps"
  obtains db' v where "reserveUsage u q e c now db = Inr (db', v)" "usage_ok db'"
    "db_buckets db' = hold_plan ps (db_buckets db)"
    "db_reservations db' = db_reservations db @ [\<lparr>rs_id = db_next db, rs_userId = u,
      rs_requestId = q, rs_estimated = e, rs_settled = 0, rs_status = ACTIVE, rs_settledAt = None\<rparr>]"
    "v = \<lparr>rv_id = db_next db, rv_userId = u, rv_requestId = q, rv_estimated = e, rv_settled = 0,
      rv_status = ACTIVE, rv_allocations = map (\<lambda>p. \<lparr>av_bucketId = ap_bucketId p,
        av_reserved = ap_reserved p, av_settled = 0\<rparr>) ps\<rparr>"
    "v = toReservationView (last (db_reservations db')) (reservation_allocations db' (db_next db))"
proof -
  let ?rid = "db_next db"
  let ?r = "\<lparr>rs_id = ?rid, rs_userId = u, rs_requestId = q, rs_estimated = e, rs_settled = 0,
      rs_status = ACTIVE, rs_settledAt = None\<rparr>"
  let ?db = "db\<lparr>db_reservations := db_reservations db @ [?r], db_next := Suc ?rid\<rparr>"
  let ?P = "active_in (db_reservations ?db)"
  let ?locked = "lockUserBuckets db u [] now"
  from ok have pool: "pool_ok (active_in (db_reservations db)) db" by (simp add: usage_ok_def)
  then have keys: "keys_ok db" by (simp add: pool_ok_def)
  have old: "al_reservationId a \<noteq> ?rid" if "a \<in> set (db_allocations db)" for a
    using allocation_refs[OF pool that] by (metis less_irrefl)
  have "(u, q) \<notin> (\<lambda>r. (rs_userId r, rs_requestId r)) ` set (db_reservations db)"
    using new by (auto simp: find_request_def find_None_iff)
  moreover have "\<forall>a \<in> set (db_allocations db). active_in (db_reservations db) a = ?P a"
    using old by (simp add: is_active_append) metis
  ultimately have pool1: "pool_ok ?P ?db"
    using pool_ok_new_reservation[OF pool, of ?r ?P] by simp
  have lo: "locked_ok (db_buckets ?db) u ?locked" using locked_ok_lock by simp
  have fits: "plan_fits (db_buckets ?db) ?locked ps"
    using plan_fits_plan[OF plan order_refl lo _ lock_ids_distinct[OF keys]] keys
    by (simp add: keys_ok_def)
  have "\<exists>db' locked' news. fold_res (reserve_step u q c ?rid) ps (?db, ?locked) = Inr (db', locked') \<and>
    pool_ok ?P db' \<and> db_reservations db' = db_reservations ?db \<and>
    db_buckets db' = hold_plan ps (db_buckets ?db) \<and>
    db_allocations db' = db_allocations ?db @ news \<and>
    map (\<lambda>a. (al_reservationId a, al_bucketId a, al_reserved a, al_settled a)) news =
      map (\<lambda>p. (?rid, ap_bucketId p, ap_reserved p, 0)) ps"
    by (rule reserve_loop[OF pool1 lo fits, of ?r]) (use old in \<open>auto simp: is_active_append\<close>)
  then obtain db' locked' news where loop:
      "fold_res (reserve_step u q c ?rid) ps (?db, ?locked) = Inr (db', locked')"
      "pool_ok ?P db'" "db_reservations db' = db_reservations db @ [?r]"
      "db_buckets db' = hold_plan ps (db_buckets db)" "db_allocations db' = db_allocations db @ news"
    and news: "map (\<lambda>a. (al_reservationId a, al_bucketId a, al_reserved a, al_settled a)) news =
      map (\<lambda>p. (?rid, ap_bucketId p, ap_reserved p, 0)) ps"
    by auto
  note sums = held_for_new[OF news]
  have fresh_id: "?rid \<notin> rs_id ` set (db_reservations db)"
    using keys by (auto simp: keys_ok_def list_all_iff)
  have "reservation_ok db' r" if "r \<in> set (db_reservations db)" for r
  proof -
    have "reservation_ok db r" using ok that by (simp add: usage_ok_def list_all_iff)
    moreover have "rs_id r \<noteq> ?rid" using that fresh_id by (metis imageI)
    ultimately show ?thesis by (auto simp: reservation_ok_def loop(5) sums)
  qed
  moreover have "reservation_ok db' ?r"
    using plan_Some_sum[OF plan] sums_absent[of "db_allocations db" ?rid] old
    by (simp add: reservation_ok_def loop(5) sums)
  ultimately have "usage_ok db'"
    using loop(2) by (simp add: usage_ok_def loop(3) list_all_iff)
  moreover have "row_find rs_id ?rid (db_reservations db') = Some ?r"
    using row_find_distinct[of rs_id "db_reservations db'" ?r] loop(2)
    by (simp add: loop(3) pool_ok_def keys_ok_def)
  moreover have "filter (\<lambda>a. al_reservationId a = ?rid) (db_allocations db) = []"
    using old by (simp add: filter_empty_conv)
  ultimately show ?thesis
    using e new plan loop(1,3,4) sums(3) that
    by (simp add: reserveUsage_def find_request_def getReservation_def toReservationView_def
        reservation_allocations_def loop(5))
qed

section \<open>Closing a reservation\<close>

text \<open>
  Both ways of ending an active reservation finish all its allocations and then close its row;
  this is the common step, with \<open>paid\<close> the amount that was settled.
\<close>

definition close_row ::
    "nat \<Rightarrow> microRub \<Rightarrow> reservation_status \<Rightarrow> int \<Rightarrow> 'a usage_db_scheme \<Rightarrow> 'a usage_db_scheme" where
  "close_row rid paid st now db = db\<lparr>db_reservations := row_update rs_id rid
     (\<lambda>r. r\<lparr>rs_settled := paid, rs_status := st, rs_settledAt := Some now\<rparr>) (db_reservations db)\<rparr>"

lemma is_active_close:
  assumes "st \<noteq> ACTIVE"
  shows "is_active (db_reservations (close_row rid paid st now db)) i \<longleftrightarrow>
    is_active (db_reservations db) i \<and> i \<noteq> rid"
  using assms by (auto simp: close_row_def is_active_def set_row_update)

lemma shape_member:
  assumes "map allocation_shape as = map allocation_shape bs" and "a \<in> set as"
  obtains b where "b \<in> set bs" "al_id b = al_id a" "al_reservationId b = al_reservationId a"
    "al_bucketId b = al_bucketId a" "al_reserved b = al_reserved a"
proof -
  have "allocation_shape a \<in> set (map allocation_shape as)" using assms(2) by simp
  then have "allocation_shape a \<in> set (map allocation_shape bs)" by (simp only: assms(1))
  then show ?thesis using that by (auto simp: allocation_shape_def)
qed

text \<open>The allocations of the order list are the ones of the reservation, before and after.\<close>

lemma finished_iff:
  assumes keys: "keys_ok db" and ord: "order_ok db rid as"
    and shape: "map allocation_shape as' = map allocation_shape (db_allocations db)"
    and a: "a \<in> set as'"
  shows "al_id a \<in> al_id ` set as \<longleftrightarrow> al_reservationId a = rid"
proof -
  from shape a obtain b where b: "b \<in> set (db_allocations db)" "al_id b = al_id a"
      "al_reservationId b = al_reservationId a"
    by (rule shape_member)
  have "b \<in> set as" if "x \<in> set as" "al_id x = al_id b" for x
  proof -
    have "x \<in> set (db_allocations db)" using that(1) order_ok_mem[OF ord] by simp
    then have "x = b" using allocation_unique[OF keys b(1)] that(2) by simp
    with that(1) show ?thesis by simp
  qed
  then have "al_id b \<in> al_id ` set as \<longleftrightarrow> b \<in> set as" by (auto simp: image_iff)
  with b order_ok_mem[OF ord, of b] show ?thesis by simp
qed

lemma active_order:
  assumes "usage_ok db" and "r \<in> set (db_reservations db)" and "rs_status r = ACTIVE"
    and "order_ok db (rs_id r) as"
  shows "allocations_open db (rs_id r)"
    and "to_finish (active_in (db_reservations db)) db (rs_id r) as"
    and "sum_list (map al_reserved as) = rs_estimated r"
proof -
  let ?all = "db_allocations db"
  from assms(1) have pool: "pool_ok (active_in (db_reservations db)) db" by (simp add: usage_ok_def)
  then have dist: "distinct (map al_id ?all)" by (simp add: pool_ok_def keys_ok_def)
  have ok: "0 \<le> al_settled a \<and> al_settled a \<le> al_reserved a" if "a \<in> set ?all" for a
    using pool allocation_okD[of db a] that by (simp add: pool_ok_def)
  have rok: "rs_settled r = settled_for ?all (rs_id r)" "rs_settled r = 0"
      "rs_estimated r = held_for ?all (rs_id r)"
    using assms(1-3) by (auto simp: usage_ok_def list_all_iff reservation_ok_def)
  have zero: "al_settled a = 0" if "a \<in> set ?all" "al_reservationId a = rs_id r" for a
  proof -
    have "al_settled a \<le> settled_for ?all (rs_id r)"
      unfolding settled_for_def
      using sum_list_member_le[of ?all "\<lambda>x. if al_reservationId x = rs_id r then al_settled x else 0" a]
        ok that by simp
    with rok ok[OF that(1)] show ?thesis by linarith
  qed
  then show "allocations_open db (rs_id r)" by (simp add: allocations_open_def)
  show "to_finish (active_in (db_reservations db)) db (rs_id r) as"
    using assms(2-4) order_ok_mem[OF assms(4)] zero ok
    by (fastforce simp: to_finish_def order_ok_def is_active_def)
  have "mset as = mset (filter (\<lambda>a. al_reservationId a = rs_id r) ?all)"
    using assms(4) dist
    by (intro set_eq_iff_mset_eq_distinct[THEN iffD1])
      (auto simp: order_ok_def reservation_allocations_def distinct_map distinct_map_filter)
  then have "sum_list (map al_reserved as) =
      sum_list (map al_reserved (filter (\<lambda>a. al_reservationId a = rs_id r) ?all))"
    by (rule sum_list_map_mset_cong)
  also have "\<dots> = held_for ?all (rs_id r)"
    unfolding held_for_def by (rule sum_list_map_filter')
  finally show "sum_list (map al_reserved as) = rs_estimated r" using rok(3) by simp
qed

lemma close_usage_ok:
  assumes ok: "usage_ok db" and r: "r \<in> set (db_reservations db)" "rs_status r = ACTIVE"
    and ord: "order_ok db (rs_id r) (map fst ps)"
    and fin: "settled_to (active_in (db_reservations db)) (rs_id r) ps db db1"
    and paid: "paid = sum_list (map snd ps)" and st: "st \<noteq> ACTIVE"
  shows "usage_ok (close_row (rs_id r) paid st now db1)" (is "usage_ok ?db")
proof -
  let ?P = "\<lambda>y. active_in (db_reservations db) y \<and> al_id y \<notin> al_id ` set (map fst ps)"
  have rs: "db_reservations db1 = db_reservations db" using fin by (simp add: settled_to_def)
  have pool: "pool_ok ?P db1" using fin by (simp add: settled_to_def)
  have distr: "distinct (map rs_id (db_reservations db))"
    using ok by (simp add: usage_ok_def pool_ok_def keys_ok_def)
  have keys: "keys_ok db" using ok by (simp add: usage_ok_def pool_ok_def)
  have shape: "map allocation_shape (db_allocations db1) = map allocation_shape (db_allocations db)"
    using fin by (simp add: settled_to_def)
  note closed = finished_iff[OF keys ord shape]
  have "pool_ok (active_in (db_reservations ?db)) (db1\<lparr>db_reservations := db_reservations ?db\<rparr>)"
  proof (rule pool_ok_reservations[OF pool])
    show "map (\<lambda>r. (rs_id r, rs_userId r, rs_requestId r)) (db_reservations ?db) =
        map (\<lambda>r. (rs_id r, rs_userId r, rs_requestId r)) (db_reservations db1)"
      by (simp add: close_row_def)
    show "\<forall>a \<in> set (db_allocations db1). ?P a = active_in (db_reservations ?db) a"
      using closed by (simp add: is_active_close[OF st] rs)
  qed
  then have pool': "pool_ok (active_in (db_reservations ?db)) ?db" by (simp add: close_row_def)
  have "reservation_ok ?db r'" if r': "r' \<in> set (db_reservations ?db)" for r'
  proof -
    have sums: "held_for (db_allocations ?db) i = held_for (db_allocations db) i"
      "settled_for (db_allocations ?db) i = settled_for (db_allocations db) i +
        (if rs_id r = i then paid else 0)" for i
      using fin by (simp_all add: close_row_def settled_to_def paid)
    from r' obtain x where x: "x \<in> set (db_reservations db)"
      "r' = (if rs_id x = rs_id r then x\<lparr>rs_settled := paid, rs_status := st, rs_settledAt := Some now\<rparr> else x)"
      by (auto simp: close_row_def rs set_row_update)
    have xok: "reservation_ok db x" using ok x(1) by (simp add: usage_ok_def list_all_iff)
    show ?thesis
    proof (cases "rs_id x = rs_id r")
      case True
      then have "x = r" using x(1) r(1) distr by (simp add: distinct_map inj_on_def)
      with True x xok r(2) st show ?thesis by (simp add: reservation_ok_def sums)
    next
      case False
      with x xok show ?thesis by (auto simp: reservation_ok_def sums)
    qed
  qed
  with pool' show ?thesis by (simp add: usage_ok_def list_all_iff)
qed

section \<open>Releasing\<close>

lemma order_ok_allocations: "keys_ok db \<Longrightarrow> order_ok db rid (reservation_allocations db rid)"
  by (simp add: order_ok_def keys_ok_def reservation_allocations_def distinct_map_filter)

lemma order_ok_sorted:
  "keys_ok db \<Longrightarrow> order_ok db rid (orderAllocations (reservation_allocations db rid) locked)"
  using order_ok_allocations[of db rid] by (simp add: order_ok_def orderAllocations_def)

lemma lock_covers_allocations:
  assumes "pool_ok P db" and "r \<in> set (db_reservations db)"
    and "a \<in> set (reservation_allocations db (rs_id r))"
  shows "al_bucketId a \<in> lb_id ` set (lockUserBuckets db (rs_userId r)
    (map al_bucketId (reservation_allocations db (rs_id r))) now)"
proof -
  have a: "a \<in> set (db_allocations db)" "al_reservationId a = rs_id r"
    using assms(3) by (simp_all add: reservation_allocations_def)
  from allocation_refs[OF assms(1) a(1)] obtain r' b where
    rb: "r' \<in> set (db_reservations db)" "rs_id r' = rs_id r" "b \<in> set (db_buckets db)"
      "b_id b = al_bucketId a" "b_userId b = rs_userId r'"
    by (metis a(2))
  moreover have "distinct (map rs_id (db_reservations db))"
    using assms(1) by (simp add: pool_ok_def keys_ok_def)
  ultimately have "r' = r" using assms(2) by (simp add: distinct_map inj_on_def)
  with rb assms(3) lock_contains[of b db "rs_userId r"
      "map al_bucketId (reservation_allocations db (rs_id r))" now]
  show ?thesis by auto
qed

lemma lockReservation_Inr:
  "lockReservationForUser db u rid = Inr r \<Longrightarrow>
    r \<in> set (db_reservations db) \<and> rs_id r = rid \<and> rs_userId r = u"
  by (auto simp: lockReservationForUser_def res_simps dest: find_some_member)

lemma getReservation_eq:
  assumes "distinct (map rs_id (db_reservations db))" and "r \<in> set (db_reservations db)"
  shows "getReservation db (rs_id r) =
    Inr (toReservationView r (reservation_allocations db (rs_id r)))"
  by (simp add: getReservation_def row_find_distinct[OF assms])

lemma close_row_member:
  "r \<in> set (db_reservations db) \<Longrightarrow>
    r\<lparr>rs_settled := paid, rs_status := st, rs_settledAt := Some now\<rparr>
      \<in> set (db_reservations (close_row (rs_id r) paid st now db))"
  by (force simp: close_row_def set_row_update)

lemma release_success:
  assumes ok: "usage_ok db" and lr: "lockReservationForUser db u rid = Inr r"
    and act: "rs_status r = ACTIVE"
  obtains db' v where "releaseUsage u rid c now1 now2 db = Inr (db', v)" "usage_ok db'"
    "db_buckets db' = settle_rows (map (\<lambda>a. (a, 0)) (reservation_allocations db rid)) (db_buckets db)"
    "rv_status v = RELEASED" "rv_settled v = 0" "rv_id v = rid"
    "db_reservations db' = row_update rs_id rid
      (\<lambda>r. r\<lparr>rs_settled := 0, rs_status := RELEASED, rs_settledAt := Some now2\<rparr>) (db_reservations db)"
proof -
  from lockReservation_Inr[OF lr] have r: "r \<in> set (db_reservations db)" "rs_id r = rid" "rs_userId r = u"
    by auto
  let ?as = "reservation_allocations db rid"
  let ?P = "active_in (db_reservations db)"
  let ?locked = "lockUserBuckets db u (map al_bucketId ?as) now1"
  from ok have pool: "pool_ok ?P db" by (simp add: usage_ok_def)
  then have ord: "order_ok db rid ?as" by (simp add: pool_ok_def order_ok_allocations)
  note ao = active_order[OF ok r(1) act, unfolded r(2), OF ord]
  have "al_bucketId ` set ?as \<subseteq> lb_id ` set ?locked"
    using lock_covers_allocations[OF pool r(1)] by (auto simp: r(2,3))
  from release_loop[OF pool locked_ok_lock ao(2) this, of c]
  obtain db1 locked' where loop:
      "fold_res (release_step u rid c) ?as (db, ?locked) = Inr (db1, locked')"
      "settled_to ?P rid (map (\<lambda>a. (a, 0)) ?as) db db1"
    by auto
  let ?db = "close_row rid 0 RELEASED now2 db1"
  have okc: "usage_ok ?db"
    using close_usage_ok[OF ok r(1) act, unfolded r(2), of "map (\<lambda>a. (a, 0)) ?as" db1 0 RELEASED now2]
      ord loop(2) by (simp add: comp_def)
  have rs1: "db_reservations db1 = db_reservations db" using loop(2) by (simp add: settled_to_def)
  have "distinct (map rs_id (db_reservations ?db))"
    using okc by (simp add: usage_ok_def pool_ok_def keys_ok_def)
  moreover have "r\<lparr>rs_settled := 0, rs_status := RELEASED, rs_settledAt := Some now2\<rparr>
      \<in> set (db_reservations ?db)"
    using close_row_member[where r = r and db = db1 and paid = 0 and st = RELEASED and now = now2] r
    by (simp add: rs1)
  ultimately have "\<exists>v. getReservation ?db rid = Inr v \<and> rv_status v = RELEASED \<and> rv_settled v = 0 \<and> rv_id v = rid"
    using getReservation_eq r(2) by (fastforce simp: toReservationView_def)
  then obtain v where v: "getReservation ?db rid = Inr v" "rv_status v = RELEASED" "rv_settled v = 0"
      "rv_id v = rid"
    by blast
  have "db1\<lparr>db_reservations := row_update rs_id rid
      (\<lambda>r. r\<lparr>rs_status := RELEASED, rs_settled := 0, rs_settledAt := Some now2\<rparr>) (db_reservations db1)\<rparr> = ?db"
    by (simp add: close_row_def row_update_def)
  then have "releaseUsage u rid c now1 now2 db = Inr (?db, v)"
    using lr act loop(1) v(1) by (simp add: releaseUsage_def r(2) Let_def)
  moreover have "db_buckets ?db = settle_rows (map (\<lambda>a. (a, 0)) ?as) (db_buckets db)"
    using loop(2) by (simp add: close_row_def settled_to_def)
  ultimately show ?thesis using that[of ?db v] okc v by (simp add: close_row_def rs1)
qed

section \<open>Settling\<close>

text \<open>The state after the block for an actual cost above the estimate.\<close>

definition extended ::
    "usage_reservation \<Rightarrow> allocation_plan list \<Rightarrow> 'a usage_db_scheme \<Rightarrow> 'a usage_db_scheme \<Rightarrow> bool" where
  "extended r ps db db' \<longleftrightarrow> usage_ok db' \<and>
    db_buckets db' = hold_plan ps (db_buckets db) \<and>
    r\<lparr>rs_estimated := rs_estimated r + sum_list (map ap_reserved ps)\<rparr> \<in> set (db_reservations db') \<and>
    map (\<lambda>r. (rs_id r, rs_userId r, rs_requestId r)) (db_reservations db') =
      map (\<lambda>r. (rs_id r, rs_userId r, rs_requestId r)) (db_reservations db)"

lemma extended_refl: "usage_ok db \<Longrightarrow> r \<in> set (db_reservations db) \<Longrightarrow> extended r [] db db"
  by (simp add: extended_def)

lemma is_active_map:
  "is_active rs i \<longleftrightarrow> (i, ACTIVE) \<in> set (map (\<lambda>r. (rs_id r, rs_status r)) rs)"
  by (force simp: is_active_def)

lemma extend_usage_ok:
  assumes ok: "usage_ok db" and r: "r \<in> set (db_reservations db)" "rs_status r = ACTIVE"
    and pool: "pool_ok (active_in (db_reservations db)) db1"
    and rs: "db_reservations db1 = db_reservations db"
    and rows: "db_buckets db1 = hold_plan ps (db_buckets db)"
    and held: "\<forall>i. held_for (db_allocations db1) i = held_for (db_allocations db) i +
      (if rs_id r = i then sum_list (map ap_reserved ps) else 0)"
    and settled: "\<forall>i. settled_for (db_allocations db1) i = settled_for (db_allocations db) i"
  shows "extended r ps db (db1\<lparr>db_reservations := row_update rs_id (rs_id r)
      (\<lambda>x. x\<lparr>rs_estimated := rs_estimated r + sum_list (map ap_reserved ps)\<rparr>) (db_reservations db1)\<rparr>)"
    (is "extended r ps db ?db")
proof -
  let ?e = "rs_estimated r + sum_list (map ap_reserved ps)"
  have distr: "distinct (map rs_id (db_reservations db))"
    using ok by (simp add: usage_ok_def pool_ok_def keys_ok_def)
  have act: "is_active (db_reservations ?db) i = is_active (db_reservations db) i" for i
    by (simp add: is_active_map rs)
  have pool': "pool_ok (active_in (db_reservations ?db)) ?db"
    by (rule pool_ok_reservations[OF pool]) (use act in \<open>simp_all add: rs\<close>)
  have "reservation_ok ?db r'" if r': "r' \<in> set (db_reservations ?db)" for r'
  proof -
    from r' obtain x where x: "x \<in> set (db_reservations db)"
      "r' = (if rs_id x = rs_id r then x\<lparr>rs_estimated := ?e\<rparr> else x)"
      by (auto simp: rs set_row_update)
    have xok: "reservation_ok db x" using ok x(1) by (simp add: usage_ok_def list_all_iff)
    show ?thesis
    proof (cases "rs_id x = rs_id r")
      case True
      then have "x = r" using x(1) r(1) distr by (simp add: distinct_map inj_on_def)
      with True x xok r(2) show ?thesis by (simp add: reservation_ok_def held settled)
    next
      case False
      with x xok show ?thesis by (auto simp: reservation_ok_def held settled)
    qed
  qed
  moreover have "r\<lparr>rs_estimated := ?e\<rparr> \<in> set (db_reservations ?db)"
    using r(1) by (force simp: rs set_row_update)
  ultimately show ?thesis
    using pool' rows by (simp add: extended_def usage_ok_def list_all_iff rs)
qed

text \<open>The extra amount is planned over the locked buckets that are still valid.\<close>

definition extra_plan ::
    "'a usage_db_scheme \<Rightarrow> string \<Rightarrow> nat \<Rightarrow> int \<Rightarrow> int \<Rightarrow> microRub \<Rightarrow> allocation_plan list option" where
  "extra_plan db u rid now1 now2 extra = planReservationAllocations
    (spendableBuckets now2 (lockUserBuckets db u
      (map al_bucketId (reservation_allocations db rid)) now1)) extra"

lemma settle_extend_result:
  fixes now1 now2 :: int
  assumes ok: "usage_ok db" and r: "r \<in> set (db_reservations db)" "rs_status r = ACTIVE"
    "rs_userId r = u" "rs_id r = rid" and actual: "0 \<le> actual"
  defines "as \<equiv> reservation_allocations db rid"
  defines "locked \<equiv> lockUserBuckets db u (map al_bucketId as) now1"
  defines "px \<equiv> (if rs_estimated r < actual
      then extra_plan db u rid now1 now2 (actual - rs_estimated r) else Some [])"
  obtains db1 locked1 order1 where
    "settle_extend r actual now2 (db, locked, orderAllocations as locked) =
      Inr ((db1, locked1, order1), (case px of None \<Rightarrow> rs_estimated r | Some _ \<Rightarrow> actual), px = None)"
    "extended r (case px of None \<Rightarrow> [] | Some ps \<Rightarrow> ps) db db1"
    "locked_ok (db_buckets db1) u locked1" "order_ok db1 rid order1"
    "al_bucketId ` set order1 \<subseteq> lb_id ` set locked1"
proof -
  from ok have pool: "pool_ok (active_in (db_reservations db)) db" by (simp add: usage_ok_def)
  then have keys: "keys_ok db" by (simp add: pool_ok_def)
  have lo: "locked_ok (db_buckets db) u locked" by (simp add: locked_def locked_ok_lock)
  have ord: "order_ok db rid (orderAllocations as locked)"
    unfolding as_def by (rule order_ok_sorted[OF keys])
  have cov: "al_bucketId ` set (orderAllocations as locked) \<subseteq> lb_id ` set locked"
    using lock_covers_allocations[OF pool r(1)]
    by (auto simp: r(3,4) orderAllocations_def as_def locked_def)
  show ?thesis
  proof (cases "rs_estimated r < actual \<and> px \<noteq> None")
    case False
    then show ?thesis
      using that[of db locked "orderAllocations as locked"] lo ord cov extended_refl[OF ok r(1)]
      by (auto simp: settle_extend_def px_def extra_plan_def locked_def as_def r(4) Let_def)
  next
    case True
    then obtain ps where ps: "px = Some ps" "rs_estimated r < actual" by auto
    let ?extra = "actual - rs_estimated r"
    have plan: "planReservationAllocations (spendableBuckets now2 locked) ?extra = Some ps"
      using ps by (simp add: px_def extra_plan_def locked_def as_def)
    have "distinct (map lb_id (spendableBuckets now2 locked))"
      using lock_ids_distinct[OF keys] by (simp add: spendableBuckets_def locked_def distinct_map_filter)
    then have fits: "plan_fits (db_buckets db) locked ps"
      using plan_fits_plan[OF plan _ lo] keys by (auto simp: keys_ok_def spendableBuckets_def)
    have op: "allocations_open db rid" using active_order(1)[OF ok r(1,2)] ord r(4) by simp
    have "active_in (db_reservations db) a" if "al_reservationId a = rid" for a
      using r that by (auto simp: is_active_def)
    from extra_loop[OF pool lo fits r(1,3,4) ord op this] obtain db1 locked1 order1 where loop:
        "fold_res (extra_step rid) ps (db, locked, orderAllocations as locked) = Inr (db1, locked1, order1)"
        "pool_ok (active_in (db_reservations db)) db1" "db_reservations db1 = db_reservations db"
        "db_buckets db1 = hold_plan ps (db_buckets db)" "locked_ok (db_buckets db1) u locked1"
        "map lb_id locked1 = map lb_id locked" "order_ok db1 rid order1"
        "al_bucketId ` set order1 \<subseteq> ap_bucketId ` set ps \<union> al_bucketId ` set (orderAllocations as locked)"
      and sums: "\<forall>i. held_for (db_allocations db1) i = held_for (db_allocations db) i +
          (if rid = i then sum_list (map ap_reserved ps) else 0)"
        "\<forall>i. settled_for (db_allocations db1) i = settled_for (db_allocations db) i"
      by auto
    have ext: "extended r ps db (db1\<lparr>db_reservations := row_update rs_id rid
        (\<lambda>x. x\<lparr>rs_estimated := rs_estimated r + ?extra\<rparr>) (db_reservations db1)\<rparr>)"
      using extend_usage_ok[OF ok r(1,2) loop(2-4)] sums plan_Some_sum[OF plan] r(4) by simp
    have ids: "lb_id ` set locked1 = lb_id ` set locked" using loop(6) by (metis list.set_map)
    have "ap_bucketId ` set ps \<subseteq> lb_id ` set locked"
      using fits by (auto simp: plan_fits_def)
    from subset_trans[OF loop(8) Un_least[OF this cov]]
    have "al_bucketId ` set order1 \<subseteq> lb_id ` set locked1" by (simp only: ids)
    with ext loop ps show ?thesis
      by (intro that[of "db1\<lparr>db_reservations := row_update rs_id rid
            (\<lambda>x. x\<lparr>rs_estimated := rs_estimated r + ?extra\<rparr>) (db_reservations db1)\<rparr>" locked1 order1])
        (simp_all add: settle_extend_def plan r(4) order_ok_def reservation_allocations_def)
  qed
qed

lemma settle_success:
  fixes now1 now2 :: int
  assumes ok: "usage_ok db" and lr: "lockReservationForUser db u rid = Inr r"
    and act: "rs_status r = ACTIVE" and actual: "0 \<le> actual"
  defines "px \<equiv> (if rs_estimated r < actual
      then extra_plan db u rid now1 now2 (actual - rs_estimated r) else Some [])"
  defines "paid \<equiv> (case px of None \<Rightarrow> rs_estimated r | Some _ \<Rightarrow> actual)"
  defines "st \<equiv> (if px = None then ANOMALY else SETTLED)"
  obtains db' v ps1 where "settleUsage u rid actual c now1 now2 now3 db = Inr (db', v)" "usage_ok db'"
    "db_buckets db' = settle_rows ps1 (hold_plan (case px of None \<Rightarrow> [] | Some ps \<Rightarrow> ps) (db_buckets db))"
    "sum_list (map snd ps1) = paid"
    "sum_list (map (al_reserved \<circ> fst) ps1) =
      rs_estimated r + sum_list (map ap_reserved (case px of None \<Rightarrow> [] | Some ps \<Rightarrow> ps))"
    "\<forall>p \<in> set ps1. \<exists>b \<in> set (db_buckets db). b_id b = al_bucketId (fst p) \<and> b_userId b = u"
    "rv_status v = st" "rv_settled v = paid" "rv_id v = rid"
    "v = toReservationView (r\<lparr>rs_estimated := rs_estimated r + sum_list (map ap_reserved (case px of None \<Rightarrow> [] | Some ps \<Rightarrow> ps)),
       rs_settled := paid, rs_status := st, rs_settledAt := Some now3\<rparr>) (reservation_allocations db' rid)"
    "r\<lparr>rs_estimated := rs_estimated r + sum_list (map ap_reserved (case px of None \<Rightarrow> [] | Some ps \<Rightarrow> ps)),
       rs_settled := paid, rs_status := st, rs_settledAt := Some now3\<rparr> \<in> set (db_reservations db')"
proof -
  let ?ps = "case px of None \<Rightarrow> [] | Some ps \<Rightarrow> ps"
  from lockReservation_Inr[OF lr] have r: "r \<in> set (db_reservations db)" "rs_id r = rid" "rs_userId r = u"
    by auto
  let ?as = "reservation_allocations db rid"
  let ?locked = "lockUserBuckets db u (map al_bucketId ?as) now1"
  obtain db1 locked1 order1 where ex:
    "settle_extend r actual now2 (db, ?locked, orderAllocations ?as ?locked) =
      Inr ((db1, locked1, order1), paid, px = None)"
    "extended r ?ps db db1" "locked_ok (db_buckets db1) u locked1" "order_ok db1 rid order1"
    "al_bucketId ` set order1 \<subseteq> lb_id ` set locked1"
    by (rule settle_extend_result[OF ok r(1) act r(3,2) actual, of now2 now1,
          folded px_def paid_def])
  define r1 where "r1 = r\<lparr>rs_estimated := rs_estimated r + sum_list (map ap_reserved ?ps)\<rparr>"
  from ex(2) have ok1: "usage_ok db1" and r1: "r1 \<in> set (db_reservations db1)"
      and rows1: "db_buckets db1 = hold_plan ?ps (db_buckets db)"
    by (simp_all add: extended_def r1_def)
  have r1s: "rs_status r1 = ACTIVE" "rs_id r1 = rid" "rs_userId r1 = u"
    using act r by (simp_all add: r1_def)
  note ao = active_order[OF ok1 r1 r1s(1), unfolded r1s(2), OF ex(4)]
  from ok1 have pool1: "pool_ok (active_in (db_reservations db1)) db1" by (simp add: usage_ok_def)
  have est: "0 \<le> rs_estimated r"
  proof -
    have "sum_list (map al_reserved ?as) = rs_estimated r"
      using active_order(3)[OF ok r(1) act] order_ok_allocations[of db rid] ok r(2)
      by (simp add: usage_ok_def pool_ok_def)
    moreover have "0 \<le> al_reserved a" if "a \<in> set ?as" for a
      using allocation_okD[of db a] ok that
      by (auto simp: usage_ok_def pool_ok_def reservation_allocations_def)
    then have "0 \<le> sum_list (map al_reserved ?as)" by (rule sum_list_nonneg_int)
    ultimately show ?thesis by simp
  qed
  have pos: "0 \<le> paid" using actual est by (auto simp: paid_def split: option.splits)
  have le: "paid \<le> rs_estimated r1"
  proof (cases "rs_estimated r < actual")
    case True
    show ?thesis
    proof (cases px)
      case None
      then show ?thesis by (simp add: paid_def r1_def)
    next
      case (Some ps)
      with True have "planReservationAllocations (spendableBuckets now2 ?locked) (actual - rs_estimated r) = Some ps"
        by (simp add: px_def extra_plan_def)
      from plan_Some_sum[OF this] Some show ?thesis by (simp add: paid_def r1_def)
    qed
  next
    case False
    then show ?thesis by (simp add: px_def paid_def r1_def)
  qed
  from settle_loop[OF pool1 ex(3) ao(2) ex(5) pos, of c] obtain db2 locked2 m2 where loop:
      "fold_res (settle_step u rid c) order1 (db1, locked1, paid) = Inr (db2, locked2, m2)"
      "settled_to (active_in (db_reservations db1)) rid (settle_amounts paid order1) db1 db2"
    by auto
  let ?ps1 = "settle_amounts paid order1"
  let ?db = "close_row rid paid st now3 db2"
  have fst_ps: "map fst ?ps1 = order1"
  proof -
    have "map fst (settle_amounts m as) = as" for m as
      by (induction as arbitrary: m) (simp_all add: Let_def)
    then show ?thesis .
  qed
  have nonneg: "\<forall>a \<in> set order1. 0 \<le> al_reserved a" using ao(2) by (simp add: to_finish_def)
  have total: "sum_list (map snd ?ps1) = paid"
    using settle_amounts_total[OF pos nonneg] le ao(3) by simp
  have "rs_estimated r1 = sum_list (map al_reserved (map fst ?ps1))" using ao(3) by (simp add: fst_ps)
  then have freed: "sum_list (map (al_reserved \<circ> fst) ?ps1) =
      rs_estimated r + sum_list (map ap_reserved ?ps)"
    by (simp add: r1_def)
  have stn: "st \<noteq> ACTIVE" by (simp add: st_def)
  have okc: "usage_ok ?db"
    using close_usage_ok[OF ok1 r1 r1s(1), unfolded r1s(2), of ?ps1 db2 paid st now3]
      loop(2) total stn ex(4) by (simp add: fst_ps)
  have rs2: "db_reservations db2 = db_reservations db1" using loop(2) by (simp add: settled_to_def)
  define r2 where "r2 = r1\<lparr>rs_settled := paid, rs_status := st, rs_settledAt := Some now3\<rparr>"
  have r2: "r2 \<in> set (db_reservations ?db)" "rs_id r2 = rid"
    using close_row_member[where r = r1 and db = db2 and paid = paid and st = st and now = now3]
      r1 r1s(2) by (simp_all add: rs2 r2_def)
  have "distinct (map rs_id (db_reservations ?db))"
    using okc by (simp add: usage_ok_def pool_ok_def keys_ok_def)
  from getReservation_eq[OF this r2(1)] have view:
    "getReservation ?db rid = Inr (toReservationView r2 (reservation_allocations ?db rid))"
    by (simp add: r2(2))
  have "settleUsage u rid actual c now1 now2 now3 db =
      Inr (?db, toReservationView r2 (reservation_allocations ?db rid))"
    using actual lr act ex(1) loop(1) view
    by (simp add: settleUsage_def r(2) st_def[symmetric] close_row_def Let_def)
  moreover have "\<exists>b \<in> set (db_buckets db). b_id b = al_bucketId (fst p) \<and> b_userId b = u"
    if "p \<in> set ?ps1" for p
  proof -
    have "fst p \<in> set order1" using that fst_ps by (metis image_eqI list.set_map)
    with ex(5) have "al_bucketId (fst p) \<in> lb_id ` set locked1" by blast
    with ex(3) obtain b where "b \<in> set (db_buckets db1)" "b_id b = al_bucketId (fst p)" "b_userId b = u"
      by (auto simp: locked_ok_def)
    then show ?thesis by (auto simp: rows1 hold_plan_def)
  qed
  moreover have "db_buckets ?db = settle_rows ?ps1 (hold_plan ?ps (db_buckets db))"
    using loop(2) by (simp add: close_row_def settled_to_def rows1)
  ultimately show ?thesis
    using that[of ?db _ ?ps1] okc total freed r2
    by (simp add: r2_def r1_def toReservationView_def r(2))
qed

end
