(* ===== verification/Usage_Properties.thy ===== *)
theory Usage_Properties
  imports Usage_Accounting
begin

text \<open>
  The promises of the usage operations of \<open>packages/billing/src/billing-engine.ts\<close>: how
  much a reservation takes, what settling and releasing give back, that a replayed request is
  harmless, and that no sequence of requests overspends a bucket. The three operations are one
  \<open>framed\<close> handler of transactions, interpreted at the end of the first section.
\<close>

section \<open>Requests\<close>

datatype usage_request =
    Reserve string string microRub "string option" int
  | Settle string nat microRub "string option" int int int
  | Release string nat "string option" int int

definition handle_usage ::
    "usage_request \<Rightarrow> 'a usage_db_scheme \<Rightarrow> js_error + 'a usage_db_scheme \<times> reservation_view" where
  "handle_usage req db = (case req of
     Reserve u q e c now \<Rightarrow> reserveUsage u q e c now db
   | Settle u rid x c n1 n2 n3 \<Rightarrow> settleUsage u rid x c n1 n2 n3 db
   | Release u rid c n1 n2 \<Rightarrow> releaseUsage u rid c n1 n2 db)"

text \<open>What no usage request changes in a bucket.\<close>

definition bucket_frame :: "'a usage_db_scheme \<Rightarrow> (nat \<times> string \<times> microRub) list" where
  "bucket_frame db = map (\<lambda>b. (b_id b, b_userId b, b_total b)) (db_buckets db)"

lemma frame_rows [simp]:
  "map (\<lambda>b. (b_id b, b_userId b, b_total b)) (hold_plan ps rows) =
    map (\<lambda>b. (b_id b, b_userId b, b_total b)) rows"
  "map (\<lambda>b. (b_id b, b_userId b, b_total b)) (settle_rows qs rows) =
    map (\<lambda>b. (b_id b, b_userId b, b_total b)) rows"
  by (simp_all add: hold_plan_def settle_rows_def)

lemma reserve_keeps:
  assumes "usage_ok db" and "reserveUsage u q e c now db = Inr (db', v)"
  shows "usage_ok db' \<and> bucket_frame db' = bucket_frame db"
proof (cases "find_request u q db")
  case (Some r)
  then have "db' = db"
    using assms(2) by (auto simp: reserveUsage_def find_request_def split: if_splits)
  with assms(1) show ?thesis by simp
next
  case None
  from assms(2) have e: "0 < e" by (auto simp: reserveUsage_def split: if_splits)
  show ?thesis
  proof (cases "planReservationAllocations (lockUserBuckets db u [] now) e")
    case None': None
    with None e assms(2) show ?thesis by (simp add: reserveUsage_def find_request_def)
  next
    case (Some ps)
    obtain db1 v1 where "reserveUsage u q e c now db = Inr (db1, v1)" "usage_ok db1"
        "db_buckets db1 = hold_plan ps (db_buckets db)"
      by (rule reserve_success[OF assms(1) e None Some])
    with assms(2) show ?thesis by (simp add: bucket_frame_def)
  qed
qed

lemma settle_keeps:
  assumes ok: "usage_ok db" and st: "settleUsage u rid x c n1 n2 n3 db = Inr (db', v)"
  shows "usage_ok db' \<and> bucket_frame db' = bucket_frame db"
proof -
  from st obtain r where r: "lockReservationForUser db u rid = Inr r" and x: "0 \<le> x"
    by (auto simp: settleUsage_def res_simps split: if_splits)
  show ?thesis
  proof (cases "rs_status r = ACTIVE")
    case True
    obtain db1 v1 qs ps where "settleUsage u rid x c n1 n2 n3 db = Inr (db1, v1)" "usage_ok db1"
        "db_buckets db1 = settle_rows qs (hold_plan ps (db_buckets db))"
      by (rule settle_success[OF ok r True x])
    with st show ?thesis by (simp add: bucket_frame_def)
  next
    case False
    then have "db' = db"
      using st r by (auto simp: settleUsage_def res_simps split: if_splits reservation_status.splits)
    with ok show ?thesis by simp
  qed
qed

lemma release_keeps:
  assumes ok: "usage_ok db" and st: "releaseUsage u rid c n1 n2 db = Inr (db', v)"
  shows "usage_ok db' \<and> bucket_frame db' = bucket_frame db"
proof -
  from st obtain r where r: "lockReservationForUser db u rid = Inr r"
    by (auto simp: releaseUsage_def res_simps)
  show ?thesis
  proof (cases "rs_status r = ACTIVE")
    case True
    obtain db1 v1 qs where "releaseUsage u rid c n1 n2 db = Inr (db1, v1)" "usage_ok db1"
        "db_buckets db1 = settle_rows qs (db_buckets db)"
      by (rule release_success[OF ok r True])
    with st show ?thesis by (simp add: bucket_frame_def)
  next
    case False
    then have "db' = db"
      using st r by (auto simp: releaseUsage_def res_simps split: reservation_status.splits)
    with ok show ?thesis by simp
  qed
qed

interpretation usage: framed handle_usage usage_ok bucket_frame
proof unfold_locales
  fix db db' :: "'a usage_db_scheme" and req v
  assume "usage_ok db" and "handle_usage req db = Inr (db', v)"
  then show "usage_ok db'" and "bucket_frame db' = bucket_frame db"
    by (cases req; simp add: handle_usage_def; blast dest: reserve_keeps settle_keeps release_keeps)+
qed

section \<open>Sums over the buckets of a user\<close>

definition user_sum :: "(usage_bucket \<Rightarrow> int) \<Rightarrow> string \<Rightarrow> 'a usage_db_scheme \<Rightarrow> int" where
  "user_sum f u db = sum_list (map f (filter (\<lambda>b. b_userId b = u) (db_buckets db)))"

text \<open>Amounts spread over the buckets add up to what was spread.\<close>

lemma sum_single_bucket:
  "distinct (map b_id rows) \<Longrightarrow> k \<in> b_id ` set rows \<Longrightarrow>
    sum_list (map (\<lambda>b. if k = b_id b then x else 0) rows) = (x::int)"
proof (induction rows)
  case Nil
  then show ?case by simp
next
  case (Cons b rows)
  have zero: "sum_list (map (\<lambda>b. if k = b_id b then x else 0) rows) = 0" if "k \<notin> b_id ` set rows"
    using that by (induction rows) auto
  show ?case
  proof (cases "k = b_id b")
    case True
    with Cons.prems have "k \<notin> b_id ` set rows" by simp
    with True zero show ?thesis by simp
  next
    case False
    with Cons show ?thesis by auto
  qed
qed

lemma sum_spread:
  fixes f :: "'p \<Rightarrow> int"
  assumes "distinct (map b_id rows)" and "\<forall>p \<in> set ps. key p \<in> b_id ` set rows"
  shows "sum_list (map (\<lambda>b. sum_list (map (\<lambda>p. if key p = b_id b then f p else 0) ps)) rows) =
    sum_list (map f ps)"
  using assms
proof (induction ps)
  case Nil
  then show ?case by (simp add: sum_list_0)
next
  case (Cons p ps)
  then show ?case
    using sum_single_bucket[OF Cons.prems(1), of "key p" "f p"] by (simp add: sum_list_addf)
qed

lemma planned_indicator:
  "planned ps i = sum_list (map (\<lambda>p. if ap_bucketId p = i then ap_reserved p else 0) ps)"
  unfolding planned_def by (rule sum_list_map_filter')

lemma spendable_after_plan:
  assumes ok: "usage_ok db" and ok': "usage_ok db'"
    and rows: "db_buckets db' = hold_plan ps (db_buckets db)"
    and plan: "planReservationAllocations (lockUserBuckets db u [] now) e = Some ps"
  shows "getSpendableUsageMicroRub u now db' = getSpendableUsageMicroRub u now db - e"
proof -
  let ?Q = "\<lambda>b. b_userId b = u \<and> unexpired now (b_expiresAt b)"
  let ?rows = "filter ?Q (db_buckets db)"
  have dist: "distinct (map b_id ?rows)"
    using ok by (simp add: usage_ok_def pool_ok_def keys_ok_def distinct_map_filter)
  have "\<forall>p \<in> set ps. ap_bucketId p \<in> b_id ` set ?rows"
    using plan_Some_member[OF plan] by (force simp: lockUserBuckets_def)
  from sum_spread[OF dist this, of ap_reserved]
  have spread: "sum_list (map (\<lambda>b. planned ps (b_id b)) ?rows) = e"
    using plan_Some_sum[OF plan] by (simp add: planned_indicator)
  have "filter ?Q (hold_plan ps (db_buckets db)) = hold_plan ps ?rows"
    by (simp add: hold_plan_def filter_map comp_def)
  then have "getSpendableUsageMicroRub u now db' = sum_list (map
      (\<lambda>b. availableMicroRub (b_total b) (b_spent b) (b_reserved b + planned ps (b_id b))) ?rows)"
    by (simp add: getSpendableUsageMicroRub_def getSpendableUsageState_def fold_sum rows Let_def
        hold_plan_def comp_def)
  also have "\<dots> = sum_list (map (\<lambda>b. availableMicroRub (b_total b) (b_spent b) (b_reserved b)) ?rows) -
      sum_list (map (\<lambda>b. planned ps (b_id b)) ?rows)"
    by (simp add: availableMicroRub_def sum_list_subtractf[symmetric] algebra_simps)
  finally show ?thesis
    by (simp add: spread getSpendableUsageMicroRub_def getSpendableUsageState_def fold_sum Let_def)
qed

section \<open>Sample state\<close>

definition sample_bucket :: "nat \<Rightarrow> usage_bucket_type \<Rightarrow> microRub \<Rightarrow> int option \<Rightarrow> usage_bucket" where
  "sample_bucket i t amount exp =
    \<lparr>b_id = i, b_userId = ''ann'', b_type = t, b_total = amount, b_spent = 0, b_reserved = 0,
     b_expiresAt = exp, b_sourceType = ''PAYMENT'', b_sourceId = i, b_createdAt = int i\<rparr>"

definition sample_grant :: "nat \<Rightarrow> microRub \<Rightarrow> ledger_entry" where
  "sample_grant i amount =
    \<lparr>le_userId = ''ann'', le_bucketId = Some i, le_reservationId = None, le_paymentId = None,
     le_type = BUCKET_GRANTED, le_amount = amount, le_metadata = []\<rparr>"

definition sample_db :: usage_db where
  "sample_db =
    \<lparr>db_buckets = [sample_bucket 0 TOPUP 500 None, sample_bucket 1 MONTHLY 300 (Some 900)],
     db_reservations = [], db_allocations = [],
     db_ledger = [sample_grant 0 500, sample_grant 1 300], db_next = 2\<rparr>"

lemma sample_db_ok: "usage_ok sample_db"
  by (simp add: usage_ok_def pool_ok_def keys_ok_def bucket_ok_def sample_db_def sample_bucket_def
      sample_grant_def)

definition sample_reserved :: usage_db where
  "sample_reserved = commit sample_db (reserveUsage ''ann'' ''q1'' 350 None 100 sample_db)"

lemma sample_reserved_ok: "usage_ok sample_reserved"
  using usage.commit_inv[OF sample_db_ok, of "Reserve ''ann'' ''q1'' 350 None 100"]
  by (simp add: sample_reserved_def handle_usage_def)

section \<open>Properties\<close>

text \<open>
  C2: reserving is exact. For a request that was not made before, a reservation is made
  precisely when the estimate is positive and no more than what the user's unexpired buckets
  have left (the amount \<open>getSpendableUsageMicroRub\<close> reports), and is refused with
  INSUFFICIENT_USAGE otherwise. Made, it holds exactly the estimate, what is left drops by
  exactly the estimate, and the accounts stay in order.
\<close>

theorem reserve_usage_exact:
  assumes "usage_ok db" and "find_request u q db = None"
  shows "case reserveUsage u q e c now db of
      Inl err \<Rightarrow> err = BillingError INSUFFICIENT_USAGE \<and>
        (e \<le> 0 \<or> getSpendableUsageMicroRub u now db < e)
    | Inr (db', v) \<Rightarrow> 0 < e \<and> e \<le> getSpendableUsageMicroRub u now db \<and> usage_ok db' \<and>
        getSpendableUsageMicroRub u now db' = getSpendableUsageMicroRub u now db - e \<and>
        rv_status v = ACTIVE \<and> rv_userId v = u \<and> rv_requestId v = q \<and> rv_estimated v = e \<and>
        sum_list (map av_reserved (rv_allocations v)) = e"
proof (cases "planReservationAllocations (lockUserBuckets db u [] now) e")
  case None
  then have "e \<le> 0 \<or> getSpendableUsageMicroRub u now db < e"
    using spendable_lock[OF assms(1)] by (auto simp: plan_eq split: if_splits)
  with None assms(2) show ?thesis by (auto simp: reserveUsage_def find_request_def)
next
  case (Some ps)
  then have e: "0 < e" "e \<le> getSpendableUsageMicroRub u now db"
    using spendable_lock[OF assms(1)] by (auto simp: plan_eq split: if_splits)
  obtain db' v where r: "reserveUsage u q e c now db = Inr (db', v)" "usage_ok db'"
      "db_buckets db' = hold_plan ps (db_buckets db)"
      "v = \<lparr>rv_id = db_next db, rv_userId = u, rv_requestId = q, rv_estimated = e, rv_settled = 0,
        rv_status = ACTIVE, rv_allocations = map (\<lambda>p. \<lparr>av_bucketId = ap_bucketId p,
          av_reserved = ap_reserved p, av_settled = 0\<rparr>) ps\<rparr>"
    by (rule reserve_success[OF assms(1) e(1) assms(2) Some])
  then show ?thesis
    using e spendable_after_plan[OF assms(1) r(2,3) Some] plan_Some_sum[OF Some]
    by (simp add: comp_def)
qed

lemma reserve_usage_exact_witness:
  "usage_ok sample_db \<and> getSpendableUsageMicroRub ''ann'' 100 sample_db = 800 \<and>
   (\<exists>db' v. reserveUsage ''ann'' ''q1'' 350 None 100 sample_db = Inr (db', v) \<and>
     getSpendableUsageMicroRub ''ann'' 100 db' = 450)"
proof -
  have "find_request ''ann'' ''q1'' sample_db = None"
    by (simp add: find_request_def sample_db_def)
  note spec = reserve_usage_exact[OF sample_db_ok this, where e = 350 and c = None and now = 100]
  have s: "getSpendableUsageMicroRub ''ann'' 100 sample_db = 800"
    by code_simp
  show ?thesis
    using spec sample_db_ok by (auto simp: s split: sum.splits)
qed

text \<open>
  A replayed reservation is harmless: once a reservation is made, making the same request
  again, at any later time, changes nothing and returns the same view; asking again with
  another amount is refused with RESERVATION_CONFLICT.
\<close>

theorem reserve_usage_idempotent:
  assumes "usage_ok db" and "reserveUsage u q e c now db = Inr (db', v)"
  shows "reserveUsage u q e c' now' db' = Inr (db', v) \<and>
    (\<forall>e'. 0 < e' \<and> e' \<noteq> e \<longrightarrow>
      reserveUsage u q e' c' now' db' = Inl (BillingError RESERVATION_CONFLICT))"
proof (cases "find_request u q db")
  case (Some r)
  then have "db' = db"
    using assms(2) by (auto simp: reserveUsage_def find_request_def split: if_splits)
  with Some assms(2) show ?thesis
    by (auto simp: reserveUsage_def find_request_def split: if_splits)
next
  case None
  from assms(2) have e: "0 < e" by (auto simp: reserveUsage_def split: if_splits)
  from assms(2) None e obtain ps where
    ps: "planReservationAllocations (lockUserBuckets db u [] now) e = Some ps"
    by (auto simp: reserveUsage_def find_request_def Let_def split: option.splits)
  obtain db1 v1 where r: "reserveUsage u q e c now db = Inr (db1, v1)"
      "db_reservations db1 = db_reservations db @ [\<lparr>rs_id = db_next db, rs_userId = u,
        rs_requestId = q, rs_estimated = e, rs_settled = 0, rs_status = ACTIVE, rs_settledAt = None\<rparr>]"
      "v1 = toReservationView (last (db_reservations db1)) (reservation_allocations db1 (db_next db))"
    by (rule reserve_success[OF assms(1) e None ps])
  from r(1) assms(2) have "db1 = db'" "v1 = v" by simp_all
  with None r(2,3) e show ?thesis by (simp add: reserveUsage_def find_request_def find_snoc)
qed

lemma reserve_usage_idempotent_witness:
  "\<exists>v. reserveUsage ''ann'' ''q1'' 350 None 999 sample_reserved = Inr (sample_reserved, v)"
proof -
  obtain db' v where r: "reserveUsage ''ann'' ''q1'' 350 None 100 sample_db = Inr (db', v)"
    using reserve_usage_exact_witness by blast
  then have "db' = sample_reserved" by (simp add: sample_reserved_def commit_def)
  with reserve_usage_idempotent[OF sample_db_ok r, where c' = None and now' = 999] show ?thesis by blast
qed

text \<open>How a settlement moves the sums of the user's buckets, whichever plan was added first.\<close>

lemma user_sum_settled:
  assumes ok: "usage_ok db"
    and rows: "db_buckets db' = settle_rows qs (hold_plan ps (db_buckets db))"
    and qs: "\<forall>q \<in> set qs. \<exists>b \<in> set (db_buckets db). b_id b = al_bucketId (fst q) \<and> b_userId b = u"
    and ps: "\<forall>p \<in> set ps. \<exists>b \<in> set (db_buckets db). b_id b = ap_bucketId p \<and> b_userId b = u"
  shows "user_sum b_spent u db' = user_sum b_spent u db + sum_list (map snd qs)"
    and "user_sum b_reserved u db' = user_sum b_reserved u db + sum_list (map ap_reserved ps)
      - sum_list (map (al_reserved \<circ> fst) qs)"
    and "w \<noteq> u \<Longrightarrow> filter (\<lambda>b. b_userId b = w) (db_buckets db') = filter (\<lambda>b. b_userId b = w) (db_buckets db)"
proof -
  let ?rows = "filter (\<lambda>b. b_userId b = u) (db_buckets db)"
  have dist: "distinct (map b_id (db_buckets db))"
    using ok by (simp add: usage_ok_def pool_ok_def keys_ok_def)
  then have distu: "distinct (map b_id ?rows)" by (simp add: distinct_map_filter)
  have inq: "\<forall>q \<in> set qs. al_bucketId (fst q) \<in> b_id ` set ?rows" using qs by force
  have inp: "\<forall>p \<in> set ps. ap_bucketId p \<in> b_id ` set ?rows" using ps by force
  have paid: "sum_list (map (\<lambda>b. paid_in qs (b_id b)) ?rows) = sum_list (map snd qs)"
    using sum_spread[OF distu inq, of snd] by (simp add: paid_in_def)
  have freed: "sum_list (map (\<lambda>b. freed_in qs (b_id b)) ?rows) = sum_list (map (al_reserved \<circ> fst) qs)"
    using sum_spread[OF distu inq, of "al_reserved \<circ> fst"] by (simp only: freed_in_def o_apply)
  have held: "sum_list (map (\<lambda>b. planned ps (b_id b)) ?rows) = sum_list (map ap_reserved ps)"
    using sum_spread[OF distu inp, of ap_reserved] by (simp add: planned_indicator)
  have rowsu: "filter (\<lambda>b. b_userId b = x) (db_buckets db') =
      settle_rows qs (hold_plan ps (filter (\<lambda>b. b_userId b = x) (db_buckets db)))" for x
    by (simp add: rows settle_rows_def hold_plan_def filter_map comp_def)
  show "user_sum b_spent u db' = user_sum b_spent u db + sum_list (map snd qs)"
    unfolding user_sum_def rowsu paid[symmetric]
    by (simp add: settle_rows_def hold_plan_def comp_def sum_list_addf)
  show "user_sum b_reserved u db' = user_sum b_reserved u db + sum_list (map ap_reserved ps)
      - sum_list (map (al_reserved \<circ> fst) qs)"
    unfolding user_sum_def rowsu freed[symmetric] held[symmetric]
    by (simp add: settle_rows_def hold_plan_def comp_def sum_list_addf sum_list_subtractf)
  assume w: "w \<noteq> u"
  have "paid_in qs (b_id b) = 0 \<and> freed_in qs (b_id b) = 0 \<and> planned ps (b_id b) = 0"
    if "b \<in> set (db_buckets db)" "b_userId b = w" for b
  proof -
    have other: "b_id b \<noteq> b_id c" if "c \<in> set (db_buckets db)" "b_userId c = u" for c
      using bucket_unique[of db c b] ok that \<open>b \<in> _\<close> \<open>b_userId b = w\<close> w
      by (auto simp: usage_ok_def pool_ok_def)
    have "al_bucketId (fst q) \<noteq> b_id b" if "q \<in> set qs" for q
      using qs that other by metis
    moreover have "ap_bucketId p \<noteq> b_id b" if "p \<in> set ps" for p
      using ps that other by metis
    ultimately show ?thesis
      unfolding paid_in_def freed_in_def planned_def
      by (simp add: filter_empty_conv[THEN iffD2] sum_list_0 cong: map_cong)
  qed
  then show "filter (\<lambda>b. b_userId b = w) (db_buckets db') = filter (\<lambda>b. b_userId b = w) (db_buckets db)"
    unfolding rowsu settle_rows_def hold_plan_def map_map by (intro map_idI) simp
qed

text \<open>
  C3: settling is exact. Settling an active reservation always succeeds. When the actual cost
  is within the estimate, or the part above it can still be taken from the user's buckets, the
  reservation is SETTLED for exactly the actual cost; otherwise it is an ANOMALY settled for
  exactly the estimate. The user's spent total grows by exactly the settled amount, the
  reserved total drops by exactly the old estimate (nothing stays on hold), the buckets of
  other users are untouched, and the accounts stay in order.
\<close>

theorem settle_usage_exact:
  assumes "usage_ok db" and "lockReservationForUser db u rid = Inr r" and "rs_status r = ACTIVE"
    and "0 \<le> actual"
  shows "\<exists>db' v. settleUsage u rid actual c n1 n2 n3 db = Inr (db', v) \<and> usage_ok db' \<and>
    (let covered = actual \<le> rs_estimated r \<or>
           actual - rs_estimated r \<le> spendable (spendableBuckets n2 (lockUserBuckets db u
             (map al_bucketId (reservation_allocations db rid)) n1));
         paid = (if covered then actual else rs_estimated r)
     in rv_id v = rid \<and> rv_status v = (if covered then SETTLED else ANOMALY) \<and> rv_settled v = paid \<and>
        user_sum b_spent u db' = user_sum b_spent u db + paid \<and>
        user_sum b_reserved u db' = user_sum b_reserved u db - rs_estimated r \<and>
        (\<forall>w. w \<noteq> u \<longrightarrow> filter (\<lambda>b. b_userId b = w) (db_buckets db') =
          filter (\<lambda>b. b_userId b = w) (db_buckets db)))"
proof -
  define px where "px = (if rs_estimated r < actual
      then extra_plan db u rid n1 n2 (actual - rs_estimated r) else Some [])"
  define ps where "ps = (case px of None \<Rightarrow> [] | Some ps \<Rightarrow> ps)"
  obtain db' v qs where
    s: "settleUsage u rid actual c n1 n2 n3 db = Inr (db', v)" "usage_ok db'"
      "db_buckets db' = settle_rows qs (hold_plan ps (db_buckets db))"
      "sum_list (map snd qs) = (case px of None \<Rightarrow> rs_estimated r | Some _ \<Rightarrow> actual)"
      "sum_list (map (al_reserved \<circ> fst) qs) = rs_estimated r + sum_list (map ap_reserved ps)"
      "\<forall>q \<in> set qs. \<exists>b \<in> set (db_buckets db). b_id b = al_bucketId (fst q) \<and> b_userId b = u"
      "rv_status v = (if px = None then ANOMALY else SETTLED)"
      "rv_settled v = (case px of None \<Rightarrow> rs_estimated r | Some _ \<Rightarrow> actual)" "rv_id v = rid"
    unfolding ps_def px_def by (rule settle_success[OF assms])
  have ps_users: "\<forall>p \<in> set ps. \<exists>b \<in> set (db_buckets db). b_id b = ap_bucketId p \<and> b_userId b = u"
  proof
    fix p assume p: "p \<in> set ps"
    then have "px = Some ps" by (cases px) (simp_all add: ps_def)
    with p have "planReservationAllocations (spendableBuckets n2 (lockUserBuckets db u
          (map al_bucketId (reservation_allocations db rid)) n1)) (actual - rs_estimated r) = Some ps"
      by (auto simp: px_def extra_plan_def split: if_splits)
    from plan_Some_member[OF this p] show "\<exists>b \<in> set (db_buckets db). b_id b = ap_bucketId p \<and> b_userId b = u"
      by (auto simp: spendableBuckets_def lockUserBuckets_def)
  qed
  have "px = None \<longleftrightarrow> \<not> (actual \<le> rs_estimated r \<or> actual - rs_estimated r \<le>
      spendable (spendableBuckets n2 (lockUserBuckets db u
        (map al_bucketId (reservation_allocations db rid)) n1)))"
    by (auto simp: px_def extra_plan_def plan_eq)
  then show ?thesis
    using s user_sum_settled[OF assms(1) s(3,6) ps_users]
    by (auto simp: Let_def split: option.splits)
qed

lemma settle_usage_exact_witness:
  "\<exists>db' v. settleUsage ''ann'' 2 500 None 100 100 101 sample_reserved = Inr (db', v) \<and>
    rv_status v = SETTLED \<and> user_sum b_spent ''ann'' db' = 500"
proof -
  let ?r = "\<lparr>rs_id = 2, rs_userId = ''ann'', rs_requestId = ''q1'', rs_estimated = 350,
    rs_settled = 0, rs_status = ACTIVE, rs_settledAt = None\<rparr>"
  have "lockReservationForUser sample_reserved ''ann'' 2 = Inr ?r" by code_simp
  moreover have "spendable (spendableBuckets 100 (lockUserBuckets sample_reserved ''ann''
      (map al_bucketId (reservation_allocations sample_reserved 2)) 100)) = 450"
    by code_simp
  moreover have "user_sum b_spent ''ann'' sample_reserved = 0" by code_simp
  ultimately show ?thesis
    using settle_usage_exact[OF sample_reserved_ok, of "''ann''" 2 ?r 500 None 100 100 101]
    by (auto simp: Let_def)
qed

text \<open>
  What a settlement answers when the reservation is not active: a settled one is returned
  unchanged for the same amount and refused with RESERVATION_CONFLICT for another; a released
  one and an anomaly are refused; a reservation of another user, or none, is not found; a
  negative amount is refused before anything is read.
\<close>

theorem settle_usage_closed:
  assumes "lockReservationForUser db u rid = Inr r" and "0 \<le> actual" and "usage_ok db"
  shows "settleUsage u rid actual c n1 n2 n3 db =
    (case rs_status r of
       SETTLED \<Rightarrow> if rs_settled r = actual
         then Inr (db, toReservationView r (reservation_allocations db rid))
         else Inl (BillingError RESERVATION_CONFLICT)
     | RELEASED \<Rightarrow> Inl (BillingError RESERVATION_ALREADY_RELEASED)
     | ANOMALY \<Rightarrow> Inl (BillingError RESERVATION_CONFLICT)
     | ACTIVE \<Rightarrow> settleUsage u rid actual c n1 n2 n3 db) \<and>
    (\<forall>x < 0. settleUsage u rid x c n1 n2 n3 db = Inl (BillingError FINANCIAL_OPERATION_FAILED)) \<and>
    (\<forall>w. w \<noteq> u \<longrightarrow> settleUsage w rid actual c n1 n2 n3 db = Inl (BillingError RESERVATION_NOT_FOUND))"
proof -
  from lockReservation_Inr[OF assms(1)] have r: "r \<in> set (db_reservations db)" "rs_id r = rid" "rs_userId r = u"
    by auto
  have dist: "distinct (map rs_id (db_reservations db))"
    using assms(3) by (simp add: usage_ok_def pool_ok_def keys_ok_def)
  have "x = r" if "x \<in> set (db_reservations db)" "rs_id x = rid" for x
    using that r(1,2) dist by (simp add: distinct_map inj_on_def)
  then have "find (\<lambda>r. rs_id r = rid \<and> rs_userId r = w) (db_reservations db) = None" if "w \<noteq> u" for w
    using that r(3) by (auto simp: find_None_iff)
  then have "lockReservationForUser db w rid = Inl (BillingError RESERVATION_NOT_FOUND)" if "w \<noteq> u" for w
    using that by (simp add: lockReservationForUser_def)
  then show ?thesis
    using getReservation_eq[OF dist r(1)] r(2) assms(1,2)
    by (auto simp: settleUsage_def split: reservation_status.splits)
qed

lemma settle_usage_closed_witness:
  "settleUsage ''bob'' 2 10 None 100 100 101 sample_reserved = Inl (BillingError RESERVATION_NOT_FOUND)"
proof -
  have "lockReservationForUser sample_reserved ''ann'' 2 = Inr \<lparr>rs_id = 2, rs_userId = ''ann'',
      rs_requestId = ''q1'', rs_estimated = 350, rs_settled = 0, rs_status = ACTIVE,
      rs_settledAt = None\<rparr>"
    by code_simp
  from settle_usage_closed[OF this _ sample_reserved_ok, of 10 None 100 100 101] show ?thesis
    by simp
qed

lemma sum_allocations:
  assumes "usage_ok db" and "r \<in> set (db_reservations db)" and "rs_status r = ACTIVE"
  shows "sum_list (map al_reserved (reservation_allocations db (rs_id r))) = rs_estimated r"
  using active_order(3)[OF assms] order_ok_allocations[of db "rs_id r"] assms(1)
  by (simp add: usage_ok_def pool_ok_def)

lemma allocation_owner:
  assumes "usage_ok db" and "r \<in> set (db_reservations db)"
    and "a \<in> set (reservation_allocations db (rs_id r))"
  shows "\<exists>b \<in> set (db_buckets db). b_id b = al_bucketId a \<and> b_userId b = rs_userId r"
proof -
  have pool: "pool_ok (active_in (db_reservations db)) db" using assms(1) by (simp add: usage_ok_def)
  have a: "a \<in> set (db_allocations db)" "al_reservationId a = rs_id r"
    using assms(3) by (simp_all add: reservation_allocations_def)
  from allocation_refs[OF pool a(1)] obtain r' b where rb: "r' \<in> set (db_reservations db)"
      "rs_id r' = rs_id r" "b \<in> set (db_buckets db)" "b_id b = al_bucketId a" "b_userId b = rs_userId r'"
    by (metis a(2))
  moreover have "distinct (map rs_id (db_reservations db))" using pool by (simp add: pool_ok_def keys_ok_def)
  ultimately have "r' = r" using assms(2) by (simp add: distinct_map inj_on_def)
  with rb show ?thesis by auto
qed

lemma lock_after_update:
  assumes "distinct (map rs_id (db_reservations db))" and "r \<in> set (db_reservations db)"
    and "db_reservations db' = row_update rs_id (rs_id r) f (db_reservations db)"
    and "\<And>x. rs_id (f x) = rs_id x" and "\<And>x. rs_userId (f x) = rs_userId x"
  shows "lockReservationForUser db' (rs_userId r) (rs_id r) = Inr (f r)"
proof -
  have "f r \<in> set (db_reservations db')" using assms(2) by (force simp: assms(3) set_row_update)
  moreover have "distinct (map rs_id (db_reservations db'))" using assms(1) by (simp add: assms(3,4))
  ultimately have "find (\<lambda>x. rs_id x = rs_id (f r) \<and> rs_userId x = rs_userId r) (db_reservations db') = Some (f r)"
    by (intro find_by_key) (simp_all add: assms(5))
  then show ?thesis by (simp add: lockReservationForUser_def assms(4))
qed

text \<open>
  Releasing gives everything back: an active reservation is always released, nothing of it
  is spent, the user's reserved total drops by exactly its estimate, the accounts stay in
  order, and releasing it once more changes nothing and succeeds while settling it is refused.
\<close>

theorem release_usage_exact:
  assumes "usage_ok db" and "lockReservationForUser db u rid = Inr r" and "rs_status r = ACTIVE"
  shows "\<exists>db' v. releaseUsage u rid c n1 n2 db = Inr (db', v) \<and> usage_ok db' \<and>
    rv_status v = RELEASED \<and> rv_settled v = 0 \<and>
    user_sum b_spent u db' = user_sum b_spent u db \<and>
    user_sum b_reserved u db' = user_sum b_reserved u db - rs_estimated r \<and>
    (\<exists>v'. releaseUsage u rid c n1 n2 db' = Inr (db', v')) \<and>
    (\<forall>x \<ge> 0. settleUsage u rid x c n1 n2 n3 db' = Inl (BillingError RESERVATION_ALREADY_RELEASED))"
proof -
  let ?as = "reservation_allocations db rid"
  let ?f = "\<lambda>r. r\<lparr>rs_settled := 0, rs_status := RELEASED, rs_settledAt := Some n2\<rparr>"
  obtain db' v where rel: "releaseUsage u rid c n1 n2 db = Inr (db', v)" "usage_ok db'"
      "db_buckets db' = settle_rows (map (\<lambda>a. (a, 0)) ?as) (hold_plan [] (db_buckets db))"
      "rv_status v = RELEASED" "rv_settled v = 0"
      "db_reservations db' = row_update rs_id rid ?f (db_reservations db)"
    unfolding hold_plan_Nil by (rule release_success[OF assms])
  from lockReservation_Inr[OF assms(2)] have r: "r \<in> set (db_reservations db)" "rs_id r = rid" "rs_userId r = u"
    by auto
  have dist: "distinct (map rs_id (db_reservations db))" "distinct (map rs_id (db_reservations db'))"
    using assms(1) rel(2) by (simp_all add: usage_ok_def pool_ok_def keys_ok_def)
  have "\<forall>q \<in> set (map (\<lambda>a. (a, 0::int)) ?as).
      \<exists>b \<in> set (db_buckets db). b_id b = al_bucketId (fst q) \<and> b_userId b = u"
    using allocation_owner[OF assms(1) r(1)] r(2,3) by simp
  from user_sum_settled(1,2)[OF assms(1) rel(3) this]
  have sums: "user_sum b_spent u db' = user_sum b_spent u db"
      "user_sum b_reserved u db' = user_sum b_reserved u db - rs_estimated r"
    using sum_allocations[OF assms(1) r(1) assms(3)] r(2) by (simp_all add: comp_def sum_list_0)
  have lock: "lockReservationForUser db' u rid = Inr (?f r)"
    using lock_after_update[OF dist(1) r(1), of db' ?f] rel(6) r(2,3) by simp
  from lockReservation_Inr[OF lock] getReservation_eq[OF dist(2), of "?f r"] r(2)
  have "\<exists>v'. getReservation db' rid = Inr v'" by simp
  then show ?thesis
    using rel(1,2,4,5) sums lock r(2) by (auto simp: releaseUsage_def settleUsage_def)
qed

lemma release_usage_exact_witness:
  "\<exists>db' v. releaseUsage ''ann'' 2 None 100 101 sample_reserved = Inr (db', v) \<and>
    user_sum b_reserved ''ann'' db' = 0"
proof -
  have "lockReservationForUser sample_reserved ''ann'' 2 = Inr \<lparr>rs_id = 2, rs_userId = ''ann'',
      rs_requestId = ''q1'', rs_estimated = 350, rs_settled = 0, rs_status = ACTIVE,
      rs_settledAt = None\<rparr>"
    by code_simp
  moreover have "user_sum b_reserved ''ann'' sample_reserved = 350" by code_simp
  ultimately show ?thesis
    using release_usage_exact[OF sample_reserved_ok, of "''ann''" 2 _ None 100 101 102] by fastforce
qed

text \<open>
  C4: reserving and then releasing, at whatever later time, leaves every bucket row exactly as
  it was before the reservation, and a later request finds the same amount to spend.
\<close>

theorem reserve_release_roundtrip:
  assumes "usage_ok db" and "find_request u q db = None" and "reserveUsage u q e c now db = Inr (db1, v)"
  shows "\<exists>db2 v2. releaseUsage u (rv_id v) c' n1 n2 db1 = Inr (db2, v2) \<and>
    db_buckets db2 = db_buckets db \<and>
    getSpendableUsageMicroRub u n3 db2 = getSpendableUsageMicroRub u n3 db"
proof -
  from assms(3) have e: "0 < e" by (auto simp: reserveUsage_def split: if_splits)
  from assms(2,3) e obtain ps where
    ps: "planReservationAllocations (lockUserBuckets db u [] now) e = Some ps"
    by (auto simp: reserveUsage_def find_request_def Let_def split: option.splits)
  let ?r = "\<lparr>rs_id = db_next db, rs_userId = u, rs_requestId = q, rs_estimated = e, rs_settled = 0,
      rs_status = ACTIVE, rs_settledAt = None\<rparr>"
  obtain db' v' where "reserveUsage u q e c now db = Inr (db', v')" "usage_ok db'"
      "db_buckets db' = hold_plan ps (db_buckets db)"
      "db_reservations db' = db_reservations db @ [?r]"
      "v' = \<lparr>rv_id = db_next db, rv_userId = u, rv_requestId = q, rv_estimated = e, rv_settled = 0,
        rv_status = ACTIVE, rv_allocations = map (\<lambda>p. \<lparr>av_bucketId = ap_bucketId p,
          av_reserved = ap_reserved p, av_settled = 0\<rparr>) ps\<rparr>"
      "v' = toReservationView (last (db_reservations db')) (reservation_allocations db' (db_next db))"
    by (rule reserve_success[OF assms(1) e assms(2) ps])
  with assms(3) have r: "usage_ok db1" "db_buckets db1 = hold_plan ps (db_buckets db)"
      "db_reservations db1 = db_reservations db @ [?r]" "rv_id v = db_next db"
    and views: "map (\<lambda>a. \<lparr>av_bucketId = al_bucketId a, av_reserved = al_reserved a, av_settled = al_settled a\<rparr>)
        (reservation_allocations db1 (db_next db)) =
      map (\<lambda>p. \<lparr>av_bucketId = ap_bucketId p, av_reserved = ap_reserved p, av_settled = 0\<rparr>) ps"
    by (auto simp: toReservationView_def)
  let ?as = "reservation_allocations db1 (db_next db)"
  have freed: "freed_in (map (\<lambda>a. (a, 0)) ?as) i = planned ps i"
      and paid: "paid_in (map (\<lambda>a. (a, 0)) ?as) i = 0" for i
    using views
  proof -
    have "sum_list (map (\<lambda>w. if av_bucketId w = i then av_reserved w else 0)
        (map (\<lambda>a. \<lparr>av_bucketId = al_bucketId a, av_reserved = al_reserved a, av_settled = al_settled a\<rparr>) ?as)) =
      sum_list (map (\<lambda>w. if av_bucketId w = i then av_reserved w else 0)
        (map (\<lambda>p. \<lparr>av_bucketId = ap_bucketId p, av_reserved = ap_reserved p, av_settled = 0\<rparr>) ps))"
      by (simp only: views)
    then show "freed_in (map (\<lambda>a. (a, 0)) ?as) i = planned ps i"
      by (simp add: freed_in_def planned_indicator comp_def cong: if_cong)
    show "paid_in (map (\<lambda>a. (a, 0)) ?as) i = 0" by (simp add: paid_in_def comp_def cong: if_cong)
  qed
  have fresh: "db_next db \<notin> rs_id ` set (db_reservations db)"
    using assms(1) by (auto simp: usage_ok_def pool_ok_def keys_ok_def list_all_iff)
  then have "find (\<lambda>r. rs_id r = db_next db \<and> rs_userId r = u) (db_reservations db) = None"
    by (auto simp: find_None_iff image_iff)
  then have lr: "lockReservationForUser db1 u (rv_id v) = Inr ?r"
    by (simp add: lockReservationForUser_def r(3,4) find_snoc)
  obtain db2 v2 where rel: "releaseUsage u (rv_id v) c' n1 n2 db1 = Inr (db2, v2)"
      "db_buckets db2 = settle_rows (map (\<lambda>a. (a, 0)) (reservation_allocations db1 (rv_id v))) (db_buckets db1)"
    by (rule release_success[OF r(1) lr]) simp
  have "db_buckets db2 = db_buckets db"
    by (simp add: rel(2) r(2,4) settle_rows_def hold_plan_def comp_def freed paid map_idI)
  with rel(1) show ?thesis
    by (simp add: getSpendableUsageMicroRub_def getSpendableUsageState_def)
qed

lemma reserve_release_roundtrip_witness:
  "\<exists>db1 v db2 v2. reserveUsage ''ann'' ''q1'' 350 None 100 sample_db = Inr (db1, v) \<and>
    releaseUsage ''ann'' (rv_id v) None 150 151 db1 = Inr (db2, v2) \<and>
    db_buckets db2 = db_buckets sample_db"
proof -
  obtain db1 v where r: "reserveUsage ''ann'' ''q1'' 350 None 100 sample_db = Inr (db1, v)"
    using reserve_usage_exact_witness by blast
  have "find_request ''ann'' ''q1'' sample_db = None"
    by (simp add: find_request_def sample_db_def)
  from reserve_release_roundtrip[OF sample_db_ok this r, of None 150 151] r show ?thesis by blast
qed

text \<open>
  C1: no sequence of reservations, settlements and releases, in any order and with any of them
  failing, overspends: the accounts stay in order, no bucket's total moves, and in every bucket
  what is spent and what is on hold are non-negative and together within the total; the on-hold
  column is exactly what active reservations hold and the spent column what was settled.
\<close>

theorem usage_runs_never_overspend:
  assumes "usage_ok db"
  shows "usage_ok (run_requests handle_usage reqs db) \<and>
    bucket_frame (run_requests handle_usage reqs db) = bucket_frame db \<and>
    (\<forall>b \<in> set (db_buckets (run_requests handle_usage reqs db)).
      0 \<le> b_spent b \<and> 0 \<le> b_reserved b \<and> b_spent b + b_reserved b \<le> b_total b \<and>
      b_reserved b = held_in (active_in (db_reservations (run_requests handle_usage reqs db)))
        (db_allocations (run_requests handle_usage reqs db)) (b_id b) \<and>
      b_spent b = settled_in (db_allocations (run_requests handle_usage reqs db)) (b_id b))"
  using usage.run_inv[OF assms, of reqs] usage.run_view[OF assms, of reqs]
  by (auto simp: usage_ok_def pool_ok_def list_all_iff bucket_ok_def)

definition sample_requests :: "usage_request list" where
  "sample_requests =
    [Reserve ''ann'' ''a'' 350 None 100, Reserve ''ann'' ''b'' 400 None 110,
     Reserve ''ann'' ''c'' 100 None 120, Settle ''ann'' 2 360 None 130 130 131,
     Release ''ann'' 5 None 140 141, Settle ''ann'' 5 1 None 150 150 151]"

lemma usage_runs_never_overspend_witness:
  "usage_ok (run_requests handle_usage sample_requests sample_db) \<and>
   map b_spent (db_buckets (run_requests handle_usage sample_requests sample_db)) = [60, 300] \<and>
   map b_reserved (db_buckets (run_requests handle_usage sample_requests sample_db)) = [0, 0]"
proof (intro conjI)
  show "usage_ok (run_requests handle_usage sample_requests sample_db)"
    using usage_runs_never_overspend[OF sample_db_ok, of sample_requests] by blast
  show "map b_spent (db_buckets (run_requests handle_usage sample_requests sample_db)) = [60, 300]"
    by code_simp
  show "map b_reserved (db_buckets (run_requests handle_usage sample_requests sample_db)) = [0, 0]"
    by code_simp
qed

lemma retry_loop_spec:
  "1 \<le> k \<Longrightarrow> k \<le> 3 \<Longrightarrow> (\<forall>i. 1 \<le> i \<and> i < k \<longrightarrow> (\<exists>e. outcome i = Inl e \<and> \<not> is_billing_error e \<and>
      isRetryableTransactionError e)) \<Longrightarrow>
    (case retry_loop outcome k of (res, n) \<Rightarrow> k \<le> n \<and> n \<le> 3 \<and>
      (\<forall>i. 1 \<le> i \<and> i < n \<longrightarrow> (\<exists>e. outcome i = Inl e \<and> \<not> is_billing_error e \<and>
        isRetryableTransactionError e)) \<and>
      res = (case outcome n of Inr a \<Rightarrow> Inr a | Inl e \<Rightarrow>
        if \<not> is_billing_error e \<and> isRetryableTransactionError e
        then Inl (BillingError FINANCIAL_OPERATION_FAILED) else Inl e) \<and>
      (n < 3 \<longrightarrow> (case outcome n of Inr _ \<Rightarrow> True | Inl e \<Rightarrow> is_billing_error e \<or>
        \<not> isRetryableTransactionError e)))"
proof (induction outcome k rule: retry_loop.induct)
  case (1 outcome k)
  show ?case
  proof (cases "outcome k")
    case (Inr a)
    with 1(2-4) show ?thesis
      by (subst retry_loop.simps) (simp add: MAX_TRANSACTION_ATTEMPTS_def)
  next
    case (Inl e)
    show ?thesis
    proof (cases "is_billing_error e \<or> \<not> isRetryableTransactionError e \<or> k = 3")
      case True
      with Inl 1(2-4) show ?thesis
        by (subst retry_loop.simps) (auto simp: MAX_TRANSACTION_ATTEMPTS_def)
    next
      case False
      with 1(3) have "k < 3" by simp
      moreover have "\<forall>i. 1 \<le> i \<and> i < Suc k \<longrightarrow> (\<exists>e. outcome i = Inl e \<and> \<not> is_billing_error e \<and>
          isRetryableTransactionError e)"
        using 1(4) Inl False by (auto simp: less_Suc_eq)
      ultimately show ?thesis
        using 1(1)[OF _ Inl] False Inl 1(2)
        by (subst retry_loop.simps) (auto simp: MAX_TRANSACTION_ATTEMPTS_def)
    qed
  qed
qed

text \<open>
  C8: retries are bounded and fail closed: a transaction is attempted at most three times; a
  further attempt is made only after a retryable database error, never after a billing error;
  the answer is that of the last attempt, except that a third retryable failure becomes
  FINANCIAL_OPERATION_FAILED.
\<close>

theorem retry_bounded_fail_closed:
  "case withRetry outcome of (res, n) \<Rightarrow> 1 \<le> n \<and> n \<le> MAX_TRANSACTION_ATTEMPTS \<and>
    (\<forall>i. 1 \<le> i \<and> i < n \<longrightarrow> (\<exists>e. outcome i = Inl e \<and> \<not> is_billing_error e \<and>
      isRetryableTransactionError e)) \<and>
    res = (case outcome n of Inr a \<Rightarrow> Inr a | Inl e \<Rightarrow>
      if \<not> is_billing_error e \<and> isRetryableTransactionError e
      then Inl (BillingError FINANCIAL_OPERATION_FAILED) else Inl e) \<and>
    (n < MAX_TRANSACTION_ATTEMPTS \<longrightarrow> (case outcome n of Inr _ \<Rightarrow> True
      | Inl e \<Rightarrow> is_billing_error e \<or> \<not> isRetryableTransactionError e))"
  using retry_loop_spec[of 1 outcome]
  by (simp add: withRetry_def MAX_TRANSACTION_ATTEMPTS_def)

lemma retry_bounded_fail_closed_witness:
  "withRetry (\<lambda>k. if k < 3 then Inl (DbError ''P2034'' ''write conflict'') else Inr k) = (Inr 3, 3)"
proof -
  let ?o = "\<lambda>k. if k < 3 then Inl (DbError ''P2034'' ''write conflict'') else Inr k"
  have r: "\<not> is_billing_error (DbError ''P2034'' ''write conflict'')"
      "isRetryableTransactionError (DbError ''P2034'' ''write conflict'')"
    by (simp_all add: is_billing_error_def isRetryableTransactionError_def error_code_def)
  obtain res n where w: "withRetry ?o = (res, n)" by (cases "withRetry ?o")
  from retry_bounded_fail_closed[of ?o] r have "n = 3 \<and> res = Inr 3"
    unfolding w by (cases "n < 3") (auto simp: MAX_TRANSACTION_ATTEMPTS_def split: if_splits)
  with w show ?thesis by simp
qed

end
