(* ===== verification/Payment_States.thy ===== *)
theory Payment_States
  imports Money
begin

text \<open>
  \<open>packages/billing/src/payment-states.ts\<close>: how a provider status is read as a money
  event, and how a money event moves the status of a payment. The transitions are also
  given as the step relation \<open>status_step\<close>, over which reachability is stated.
\<close>

section \<open>Provider statuses\<close>

datatype payment_status =
    CREATED | PENDING | SUCCEEDED | FAILED | CANCELED | REFUNDED | PARTIALLY_REFUNDED
  | RECONCILIATION_REQUIRED

datatype provider_money_event =
    Ev_ignore | Ev_pending | Ev_confirmed | Ev_failed | Ev_canceled | Ev_refunded
  | Ev_partially_refunded

text \<open>
  \<open>String.prototype.toUpperCase\<close> on the code units below 256. The two letters whose
  upper case lies outside that range are kept: no status contains either form.
\<close>

definition js_upper_char :: "char \<Rightarrow> string" where
  "js_upper_char c = (let n = (of_char c :: nat) in
     if 97 \<le> n \<and> n \<le> 122 \<or> 224 \<le> n \<and> n \<le> 254 \<and> n \<noteq> 247 then [char_of (n - 32)]
     else if n = 223 then ''SS'' else [c])"

definition js_upper :: "string \<Rightarrow> string" where
  "js_upper s = concat (map js_upper_char s)"

definition TBANK_PAYMENT_STATUSES :: "string list" where
  "TBANK_PAYMENT_STATUSES =
    [''NEW'', ''FORM_SHOWED'', ''AUTHORIZING'', ''3DS_CHECKING'', ''3DS_CHECKED'',
     ''AUTHORIZED'', ''CONFIRMING'', ''CONFIRMED'', ''REVERSING'', ''PARTIAL_REVERSED'',
     ''REVERSED'', ''REFUNDING'', ''PARTIAL_REFUNDED'', ''REFUNDED'', ''CANCELED'',
     ''REJECTED'', ''DEADLINE_EXPIRED'', ''AUTH_FAIL'']"

definition IN_FLIGHT :: "string list" where
  "IN_FLIGHT =
    [''NEW'', ''FORM_SHOWED'', ''AUTHORIZING'', ''3DS_CHECKING'', ''3DS_CHECKED'',
     ''AUTHORIZED'', ''CONFIRMING'']"

definition FAILURE :: "string list" where
  "FAILURE = [''REJECTED'', ''DEADLINE_EXPIRED'', ''AUTH_FAIL'']"

definition classifyTBankStatus :: "string \<Rightarrow> provider_money_event" where
  "classifyTBankStatus status =
    (let normalized = js_upper status in
     if normalized = ''CONFIRMED'' then Ev_confirmed
     else if normalized \<in> set IN_FLIGHT then Ev_pending
     else if normalized \<in> set FAILURE then Ev_failed
     else if normalized = ''CANCELED'' \<or> normalized = ''REVERSED'' \<or>
         normalized = ''PARTIAL_REVERSED'' then Ev_canceled
     else if normalized = ''REFUNDED'' then Ev_refunded
     else if normalized = ''PARTIAL_REFUNDED'' then Ev_partially_refunded
     else Ev_ignore)"

section \<open>Domain statuses\<close>

definition TERMINAL_PAID :: "payment_status list" where
  "TERMINAL_PAID = [SUCCEEDED, REFUNDED, PARTIALLY_REFUNDED, RECONCILIATION_REQUIRED]"

definition nextDomainStatus :: "payment_status \<Rightarrow> provider_money_event \<Rightarrow> payment_status option" where
  "nextDomainStatus current event =
    (case event of
       Ev_ignore \<Rightarrow> if current = CREATED then Some PENDING else None
     | Ev_pending \<Rightarrow> if current = CREATED then Some PENDING else None
     | Ev_confirmed \<Rightarrow>
         if current = SUCCEEDED \<or> current = REFUNDED \<or> current = PARTIALLY_REFUNDED then None
         else if current = RECONCILIATION_REQUIRED then None
         else if current = CREATED \<or> current = PENDING then Some SUCCEEDED
         else None
     | Ev_failed \<Rightarrow>
         if current \<in> set TERMINAL_PAID \<or> current = CANCELED then None else Some FAILED
     | Ev_canceled \<Rightarrow>
         if current = SUCCEEDED \<or> current = REFUNDED \<or> current = PARTIALLY_REFUNDED then None
         else if current = FAILED then None
         else Some CANCELED
     | Ev_refunded \<Rightarrow>
         if current = CREATED \<or> current = PENDING \<or> current = FAILED \<or> current = CANCELED
         then (if current = PENDING \<or> current = CREATED then Some CANCELED else None)
         else Some REFUNDED
     | Ev_partially_refunded \<Rightarrow>
         if current = SUCCEEDED \<or> current = PARTIALLY_REFUNDED then Some PARTIALLY_REFUNDED
         else None)"

definition isPaidDomainStatus :: "payment_status \<Rightarrow> bool" where
  "isPaidDomainStatus status \<longleftrightarrow> status = SUCCEEDED"

section \<open>The transition relation\<close>

inductive status_step :: "payment_status \<Rightarrow> payment_status \<Rightarrow> bool" where
  moves: "nextDomainStatus s e = Some t \<Longrightarrow> status_step s t"
| stays: "nextDomainStatus s e = None \<Longrightarrow> status_step s s"

inductive_cases status_stepE: "status_step s t"

inductive reachable_status :: "payment_status \<Rightarrow> payment_status \<Rightarrow> bool" where
  here: "reachable_status s s"
| step: "reachable_status s t \<Longrightarrow> status_step t u \<Longrightarrow> reachable_status s u"

lemma status_step_from:
  "status_step SUCCEEDED t \<Longrightarrow> t \<in> {SUCCEEDED, REFUNDED, PARTIALLY_REFUNDED}"
  "status_step PARTIALLY_REFUNDED t \<Longrightarrow> t \<in> {PARTIALLY_REFUNDED, REFUNDED}"
  "status_step REFUNDED t \<Longrightarrow> t = REFUNDED"
  "status_step CANCELED t \<Longrightarrow> t = CANCELED"
  "status_step FAILED t \<Longrightarrow> t = FAILED"
  by (auto elim!: status_stepE
      simp: nextDomainStatus_def TERMINAL_PAID_def split: provider_money_event.splits if_splits)

lemma status_step_into_paid:
  "status_step s t \<Longrightarrow> t = SUCCEEDED \<Longrightarrow> s = CREATED \<or> s = PENDING \<or> s = SUCCEEDED"
  by (auto elim!: status_stepE
      simp: nextDomainStatus_def TERMINAL_PAID_def split: provider_money_event.splits if_splits)

lemma reachable_closed:
  assumes "reachable_status s t" and "P s" and "\<And>a b. P a \<Longrightarrow> status_step a b \<Longrightarrow> P b"
  shows "P t"
  using assms by (induction rule: reachable_status.induct) auto

section \<open>Properties\<close>



text \<open>
  Only the provider status CONFIRMED, in any letter case, counts as money received, and
  every status the provider documents except REVERSING and REFUNDING is given a meaning.
\<close>

theorem provider_status_classified:
  "(classifyTBankStatus s = Ev_confirmed \<longleftrightarrow> js_upper s = ''CONFIRMED'') \<and>
   filter (\<lambda>t. classifyTBankStatus t = Ev_ignore) TBANK_PAYMENT_STATUSES =
     [''REVERSING'', ''REFUNDING'']"
proof
  show "classifyTBankStatus s = Ev_confirmed \<longleftrightarrow> js_upper s = ''CONFIRMED''"
    by (simp add: classifyTBankStatus_def Let_def)
  show "filter (\<lambda>t. classifyTBankStatus t = Ev_ignore) TBANK_PAYMENT_STATUSES =
     [''REVERSING'', ''REFUNDING'']"
    by code_simp
qed

end
