(* ===== verification/Entitlements.thy ===== *)
theory Entitlements
  imports Money
begin

text \<open>
  \<open>packages/billing/src/entitlements.ts\<close> and \<open>policy.ts\<close>: the entitlements of a plan
  version, their database encoding, the limits read off them, and the bounds on a top-up.
  Keys and kinds are the source's string literals. Numbers that the code counts things with
  are integers.
\<close>

section \<open>Keys and values\<close>

definition PLAN_ENTITLEMENT_KEYS :: "string list" where
  "PLAN_ENTITLEMENT_KEYS =
    [''projects.max'', ''projects.membersPerProject'', ''projects.ownedActiveMax'',
     ''projects.externalActiveMax'', ''projects.membersPerOwnedProjectMax'',
     ''ai.manualModelSelection'', ''ai.auto.minimum'', ''ai.auto.medium'', ''ai.auto.maximum'',
     ''storage.maxBytes'', ''billing.topupAllowed'']"

definition DEPRECATED_PROJECT_ENTITLEMENT_KEYS :: "string list" where
  "DEPRECATED_PROJECT_ENTITLEMENT_KEYS = [''projects.max'', ''projects.membersPerProject'']"

datatype limit_kind = COUNT | BYTES

datatype entitlement_value =
    Unlimited limit_kind
  | Limited limit_kind int
  | BoolValue bool
  | TBD

record plan_entitlement =
  pe_key :: string
  pe_value :: entitlement_value

record entitlement_row =
  er_key :: string
  er_valueKind :: string
  er_unlimited :: bool
  er_intValue :: "int option"
  er_boolValue :: "bool option"

definition KEY_KIND :: "(string \<times> string) list" where
  "KEY_KIND =
    [(''projects.max'', ''COUNT''), (''projects.membersPerProject'', ''COUNT''),
     (''projects.ownedActiveMax'', ''COUNT''), (''projects.externalActiveMax'', ''COUNT''),
     (''projects.membersPerOwnedProjectMax'', ''COUNT''),
     (''ai.manualModelSelection'', ''BOOLEAN''), (''ai.auto.minimum'', ''TBD''),
     (''ai.auto.medium'', ''TBD''), (''ai.auto.maximum'', ''TBD''),
     (''storage.maxBytes'', ''BYTES''), (''billing.topupAllowed'', ''BOOLEAN'')]"

definition isPlanEntitlementKey :: "string \<Rightarrow> bool" where
  "isPlanEntitlementKey key \<longleftrightarrow> key \<in> set PLAN_ENTITLEMENT_KEYS"

definition isDeprecatedProjectEntitlementKey :: "string \<Rightarrow> bool" where
  "isDeprecatedProjectEntitlementKey key \<longleftrightarrow> key \<in> set DEPRECATED_PROJECT_ENTITLEMENT_KEYS"

definition assertKnownEntitlementKey :: "string \<Rightarrow> js_error + string" where
  "assertKnownEntitlementKey key =
    (if \<not> isPlanEntitlementKey key then Inl (PlainError (''Unknown entitlement key: '' @ key))
     else Inr key)"

definition assertWritableEntitlementKey :: "string \<Rightarrow> js_error + string" where
  "assertWritableEntitlementKey key =
    rbind (assertKnownEntitlementKey key) (\<lambda>known.
      if isDeprecatedProjectEntitlementKey known
      then Inl (PlainError (''Deprecated entitlement key is not writable: '' @ known))
      else Inr known)"

text \<open>\<open>KEY_KIND[key]\<close>, for keys the type admits; others give no kind.\<close>

definition expectedKindForKey :: "string \<Rightarrow> string option" where
  "expectedKindForKey key = map_of KEY_KIND key"

definition limit_kind_name :: "limit_kind \<Rightarrow> string" where
  "limit_kind_name k = (case k of COUNT \<Rightarrow> ''COUNT'' | BYTES \<Rightarrow> ''BYTES'')"

section \<open>Encoding\<close>

definition encodeEntitlement :: "string \<Rightarrow> entitlement_value \<Rightarrow> entitlement_row" where
  "encodeEntitlement key value = (case value of
     TBD \<Rightarrow> \<lparr>er_key = key, er_valueKind = ''TBD'', er_unlimited = False, er_intValue = None,
       er_boolValue = None\<rparr>
   | BoolValue b \<Rightarrow> \<lparr>er_key = key, er_valueKind = ''BOOLEAN'', er_unlimited = False,
       er_intValue = None, er_boolValue = Some b\<rparr>
   | Unlimited k \<Rightarrow> \<lparr>er_key = key, er_valueKind = limit_kind_name k, er_unlimited = True,
       er_intValue = None, er_boolValue = None\<rparr>
   | Limited k v \<Rightarrow> \<lparr>er_key = key, er_valueKind = limit_kind_name k, er_unlimited = False,
       er_intValue = Some v, er_boolValue = None\<rparr>)"

text \<open>
  The cast \<open>row.valueKind as "COUNT" | "BYTES"\<close>: it is reached only with the expected kind
  of the key, which is one of the two once \<open>TBD\<close> and \<open>BOOLEAN\<close> are excluded.
\<close>

definition as_limit_kind :: "string \<Rightarrow> limit_kind" where
  "as_limit_kind s = (if s = ''BYTES'' then BYTES else COUNT)"

definition decodeEntitlement :: "entitlement_row \<Rightarrow> js_error + plan_entitlement" where
  "decodeEntitlement row =
    rbind (assertKnownEntitlementKey (er_key row)) (\<lambda>key.
      if er_valueKind row = ''TBD'' then Inr \<lparr>pe_key = key, pe_value = TBD\<rparr>
      else if Some (er_valueKind row) \<noteq> expectedKindForKey key
        then Inl (PlainError (''Entitlement '' @ key @ '' must be ''
          @ (case expectedKindForKey key of None \<Rightarrow> ''undefined'' | Some k \<Rightarrow> k)))
      else if er_valueKind row = ''BOOLEAN'' then (case er_boolValue row of
          None \<Rightarrow> Inl (PlainError (''Entitlement '' @ key @ '' is missing a boolean value''))
        | Some b \<Rightarrow> Inr \<lparr>pe_key = key, pe_value = BoolValue b\<rparr>)
      else if er_unlimited row
        then Inr \<lparr>pe_key = key, pe_value = Unlimited (as_limit_kind (er_valueKind row))\<rparr>
      else (case er_intValue row of
          None \<Rightarrow> Inl (PlainError (''Entitlement '' @ key @ '' is missing a limited value''))
        | Some v \<Rightarrow> Inr \<lparr>pe_key = key, pe_value = Limited (as_limit_kind (er_valueKind row)) v\<rparr>))"

section \<open>Limits\<close>

datatype plan_source = SUBSCRIPTION | FREE_FALLBACK

record count_limit =
  cl_unlimited :: bool
  cl_value :: int

record project_limits =
  ownedActiveMax :: count_limit
  externalActiveMax :: count_limit
  membersPerOwnedProjectMax :: count_limit

definition isTopupAllowed :: "plan_entitlement list \<Rightarrow> bool" where
  "isTopupAllowed entitlements =
    (case find (\<lambda>item. pe_key item = ''billing.topupAllowed'') entitlements of
       None \<Rightarrow> True
     | Some m \<Rightarrow> (case pe_value m of BoolValue b \<Rightarrow> b | _ \<Rightarrow> True))"

definition FREE_PROJECT_DEFAULTS :: project_limits where
  "FREE_PROJECT_DEFAULTS =
    \<lparr>ownedActiveMax = \<lparr>cl_unlimited = False, cl_value = 1\<rparr>,
     externalActiveMax = \<lparr>cl_unlimited = False, cl_value = 2\<rparr>,
     membersPerOwnedProjectMax = \<lparr>cl_unlimited = False, cl_value = 2\<rparr>\<rparr>"

definition unlimitedCount :: count_limit where
  "unlimitedCount = \<lparr>cl_unlimited = True, cl_value = 0\<rparr>"

definition readCountLimit ::
    "plan_entitlement list \<Rightarrow> string \<Rightarrow> count_limit \<Rightarrow> count_limit" where
  "readCountLimit entitlements key fallback =
    (case find (\<lambda>item. pe_key item = key) entitlements of
       None \<Rightarrow> fallback
     | Some m \<Rightarrow> (case pe_value m of
         TBD \<Rightarrow> fallback
       | BoolValue _ \<Rightarrow> fallback
       | Unlimited COUNT \<Rightarrow> unlimitedCount
       | Limited COUNT v \<Rightarrow> \<lparr>cl_unlimited = False, cl_value = v\<rparr>
       | _ \<Rightarrow> fallback))"

definition projectEntitlementLimits ::
    "plan_entitlement list \<Rightarrow> plan_source \<Rightarrow> project_limits" where
  "projectEntitlementLimits entitlements source =
    (let fallback = (if source = FREE_FALLBACK then Some FREE_PROJECT_DEFAULTS else None);
         or_unlimited = (\<lambda>f. case fallback of None \<Rightarrow> unlimitedCount | Some d \<Rightarrow> f d) in
     \<lparr>ownedActiveMax =
        readCountLimit entitlements ''projects.ownedActiveMax'' (or_unlimited ownedActiveMax),
      externalActiveMax =
        readCountLimit entitlements ''projects.externalActiveMax'' (or_unlimited externalActiveMax),
      membersPerOwnedProjectMax =
        readCountLimit entitlements ''projects.membersPerOwnedProjectMax''
          (or_unlimited membersPerOwnedProjectMax)\<rparr>)"

definition isWithinCountLimit :: "count_limit \<Rightarrow> int \<Rightarrow> bool" where
  "isWithinCountLimit limit used \<longleftrightarrow> (if cl_unlimited limit then True else used < cl_value limit)"

definition countLimitValue :: "count_limit \<Rightarrow> int option" where
  "countLimitValue limit = (if cl_unlimited limit then None else Some (cl_value limit))"

section \<open>policy.ts\<close>

record billing_policy =
  minTopupMicroRub :: microRub
  maxTopupMicroRub :: microRub
  topupProviderCostRatioBps :: int
  subscriptionPeriodDays :: int

definition DEFAULT_BILLING_POLICY :: billing_policy where
  "DEFAULT_BILLING_POLICY =
    \<lparr>minTopupMicroRub = 100 * MICRORUB_PER_RUB, maxTopupMicroRub = 100000 * MICRORUB_PER_RUB,
     topupProviderCostRatioBps = 3500, subscriptionPeriodDays = 30\<rparr>"

definition validateTopupAmount :: "microRub \<Rightarrow> billing_policy \<Rightarrow> js_error + unit" where
  "validateTopupAmount amount policy =
    (if amount \<le> 0 then Inl (BillingError INVALID_TOPUP_AMOUNT)
     else if amount < minTopupMicroRub policy then Inl (BillingError INVALID_TOPUP_AMOUNT)
     else if amount > maxTopupMicroRub policy then Inl (BillingError INVALID_TOPUP_AMOUNT)
     else Inr ())"

definition assertPolicy :: "billing_policy \<Rightarrow> js_error + unit" where
  "assertPolicy policy =
    (if minTopupMicroRub policy \<le> 0 \<or> maxTopupMicroRub policy < minTopupMicroRub policy
     then Inl (BillingError FINANCIAL_OPERATION_FAILED)
     else if topupProviderCostRatioBps policy < 0 \<or>
         topupProviderCostRatioBps policy > BASIS_POINTS_DENOMINATOR
     then Inl (BillingError FINANCIAL_OPERATION_FAILED)
     else if subscriptionPeriodDays policy \<le> 0 \<or> subscriptionPeriodDays policy > 366
     then Inl (BillingError FINANCIAL_OPERATION_FAILED)
     else Inr ())"

definition isDevBillingEnvironment :: "string \<Rightarrow> bool" where
  "isDevBillingEnvironment appEnv \<longleftrightarrow> appEnv = ''local'' \<or> appEnv = ''test''"

section \<open>Lemmas\<close>

lemma default_policy_valid: "assertPolicy DEFAULT_BILLING_POLICY = Inr ()"
  by (simp add: assertPolicy_def DEFAULT_BILLING_POLICY_def money_consts)

lemma validateTopupAmount_Inr:
  "validateTopupAmount a p = Inr () \<longleftrightarrow> 0 < a \<and> minTopupMicroRub p \<le> a \<and> a \<le> maxTopupMicroRub p"
  by (auto simp: validateTopupAmount_def)

definition value_kind :: "entitlement_value \<Rightarrow> string" where
  "value_kind v = (case v of Unlimited k \<Rightarrow> limit_kind_name k | Limited k _ \<Rightarrow> limit_kind_name k
     | BoolValue _ \<Rightarrow> ''BOOLEAN'' | TBD \<Rightarrow> ''TBD'')"

lemma limit_kind_name_simps [simp]:
  "as_limit_kind (limit_kind_name k) = k"
  "limit_kind_name k \<noteq> ''TBD''" "limit_kind_name k \<noteq> ''BOOLEAN''"
  by (cases k; simp add: as_limit_kind_def limit_kind_name_def)+

lemma known_key_has_kind: "isPlanEntitlementKey key \<Longrightarrow> expectedKindForKey key \<noteq> None"
  by (auto simp: isPlanEntitlementKey_def PLAN_ENTITLEMENT_KEYS_def expectedKindForKey_def
      KEY_KIND_def)

lemma decode_limited:
  assumes "decodeEntitlement row = Inr e"
  shows "isPlanEntitlementKey (pe_key e) \<and>
    (pe_value e = TBD \<or> expectedKindForKey (pe_key e) = Some (value_kind (pe_value e)))"
proof -
  have kinds: "expectedKindForKey k = Some x \<Longrightarrow>
      x = ''TBD'' \<or> x = ''BOOLEAN'' \<or> x = limit_kind_name (as_limit_kind x)" for k x
    by (auto simp: expectedKindForKey_def KEY_KIND_def as_limit_kind_def limit_kind_name_def
        split: if_splits)
  show ?thesis
    using assms kinds[of "er_key row" "er_valueKind row"]
    by (auto simp: decodeEntitlement_def assertKnownEntitlementKey_def value_kind_def res_simps
        split: if_splits option.splits)
qed

section \<open>Properties\<close>

text \<open>
  An entitlement value survives its database row exactly when the row is legal: decoding
  the encoding gives the value back precisely for the known keys and a value that is still to
  be decided or has the kind the key demands, and is an error otherwise.
\<close>

theorem entitlement_roundtrip:
  "decodeEntitlement (encodeEntitlement key v) = Inr \<lparr>pe_key = key, pe_value = v\<rparr> \<longleftrightarrow>
    isPlanEntitlementKey key \<and> (v = TBD \<or> expectedKindForKey key = Some (value_kind v))"
  by (cases v)
    (auto simp: decodeEntitlement_def encodeEntitlement_def assertKnownEntitlementKey_def
      value_kind_def split: if_splits)

text \<open>
  A plan with no entitlement rows never lifts the limits of a free user: under the free
  fallback a limit is unlimited only if the plan has an explicit unlimited count for that very
  key, and without a row it is the free default; a subscription without a row is unlimited.
\<close>

theorem free_plan_limits_closed:
  "(cl_unlimited (ownedActiveMax (projectEntitlementLimits es FREE_FALLBACK)) \<longrightarrow>
      \<lparr>pe_key = ''projects.ownedActiveMax'', pe_value = Unlimited COUNT\<rparr> \<in> set es) \<and>
   projectEntitlementLimits [] FREE_FALLBACK = FREE_PROJECT_DEFAULTS \<and>
   (\<forall>used. isWithinCountLimit (ownedActiveMax (projectEntitlementLimits [] SUBSCRIPTION)) used) \<and>
   (\<forall>used. isWithinCountLimit (ownedActiveMax (projectEntitlementLimits [] FREE_FALLBACK)) used
      \<longleftrightarrow> used < 1)"
proof -
  have "\<lparr>pe_key = ''projects.ownedActiveMax'', pe_value = Unlimited COUNT\<rparr> \<in> set es"
    if u: "cl_unlimited (ownedActiveMax (projectEntitlementLimits es FREE_FALLBACK))"
  proof -
    from u obtain m where m: "find (\<lambda>item. pe_key item = ''projects.ownedActiveMax'') es = Some m"
        "pe_value m = Unlimited COUNT"
      by (auto simp: projectEntitlementLimits_def readCountLimit_def FREE_PROJECT_DEFAULTS_def
          Let_def split: option.splits entitlement_value.splits limit_kind.splits)
    from m(1) have "m \<in> set es" "pe_key m = ''projects.ownedActiveMax''"
      by (auto simp: find_Some_iff)
    with m(2) show ?thesis by (cases m) auto
  qed
  then show ?thesis
    by (auto simp: projectEntitlementLimits_def readCountLimit_def FREE_PROJECT_DEFAULTS_def
        unlimitedCount_def isWithinCountLimit_def)
qed

lemma free_plan_limits_closed_witness:
  "\<lparr>pe_key = ''projects.ownedActiveMax'', pe_value = Unlimited COUNT\<rparr>
    \<in> set [\<lparr>pe_key = ''projects.ownedActiveMax'', pe_value = Unlimited COUNT\<rparr>]"
proof -
  let ?es = "[\<lparr>pe_key = ''projects.ownedActiveMax'', pe_value = Unlimited COUNT\<rparr>]"
  have "cl_unlimited (ownedActiveMax (projectEntitlementLimits ?es FREE_FALLBACK))"
    by (simp add: projectEntitlementLimits_def readCountLimit_def unlimitedCount_def)
  with free_plan_limits_closed[of ?es] show ?thesis by blast
qed

end
