(* ===== verification/Checkout.thy ===== *)
theory Checkout
  imports Money
begin

text \<open>
  \<open>packages/billing/src/billing-subject.ts\<close>: the checkout snapshot that is frozen into a
  payment as JSON when it is created and read back when it is granted or refunded. A JSON
  object is an association list; reading a property that is absent gives \<open>None\<close>
  (\<open>undefined\<close>).
\<close>

section \<open>JSON values\<close>

datatype json =
    JNull
  | JBool bool
  | JNum int
  | JStr string
  | JArr "json list"
  | JObj "(string \<times> json) list"

definition json_get :: "json \<Rightarrow> string \<Rightarrow> json option" where
  "json_get j k = (case j of JObj fields \<Rightarrow> map_of fields k | _ \<Rightarrow> None)"

text \<open>\<open>BigInt\<close> of a string: blank is 0, a sign is allowed before decimal digits only, and
  hexadecimal, octal and binary literals have a prefix; anything else is a \<open>SyntaxError\<close>.\<close>

fun digit_value :: "char \<Rightarrow> nat option" where
  "digit_value c = (let n = (of_char c :: nat) in
     if 48 \<le> n \<and> n \<le> 57 then Some (n - 48)
     else if 97 \<le> n \<and> n \<le> 102 then Some (n - 87)
     else if 65 \<le> n \<and> n \<le> 70 then Some (n - 55)
     else None)"

fun digits_in_base :: "nat \<Rightarrow> nat \<Rightarrow> string \<Rightarrow> nat option" where
  "digits_in_base base acc [] = Some acc"
| "digits_in_base base acc (c # cs) =
    (case digit_value c of
       None \<Rightarrow> None
     | Some d \<Rightarrow> if d < base then digits_in_base base (base * acc + d) cs else None)"

definition unsigned_literal :: "nat \<Rightarrow> string \<Rightarrow> js_error + int" where
  "unsigned_literal base s =
    (if s = [] then Inl (PlainError ''SyntaxError'')
     else case digits_in_base base 0 s of
         None \<Rightarrow> Inl (PlainError ''SyntaxError'')
       | Some n \<Rightarrow> Inr (int n))"

definition js_BigInt :: "string \<Rightarrow> js_error + int" where
  "js_BigInt value = (let s = js_trim value; p = take 2 s in
     if s = [] then Inr 0
     else if p = ''0x'' \<or> p = ''0X'' then unsigned_literal 16 (drop 2 s)
     else if p = ''0o'' \<or> p = ''0O'' then unsigned_literal 8 (drop 2 s)
     else if p = ''0b'' \<or> p = ''0B'' then unsigned_literal 2 (drop 2 s)
     else if hd s = CHR ''-'' then rbind (unsigned_literal 10 (tl s)) (\<lambda>n. Inr (- n))
     else if hd s = CHR ''+'' then unsigned_literal 10 (tl s)
     else unsigned_literal 10 s)"

section \<open>Snapshots\<close>

datatype payment_kind = Kind_SUBSCRIPTION | Kind_TOPUP

definition payment_kind_name :: "payment_kind \<Rightarrow> string" where
  "payment_kind_name k = (case k of Kind_SUBSCRIPTION \<Rightarrow> ''SUBSCRIPTION'' | Kind_TOPUP \<Rightarrow> ''TOPUP'')"

definition PLAN_IDENTITY_CODES :: "string list" where
  "PLAN_IDENTITY_CODES = [''LITE'', ''START'', ''PRO'', ''FREE'', ''T199'', ''T499'', ''T999'']"

record checkout_snapshot =
  cs_kind :: payment_kind
  cs_customerPaymentAmount :: microRub
  cs_providerBudgetGrant :: microRub
  cs_planVersionId :: "string option"
  cs_planCode :: "string option"
  cs_subscriptionPeriodDays :: "int option"
  cs_topupRatioBps :: "int option"
  cs_topupPolicyVersionId :: "string option"

text \<open>\<open>if (snapshot.x)\<close> for an optional string: present and not empty.\<close>

definition truthy_str :: "string option \<Rightarrow> bool" where
  "truthy_str s \<longleftrightarrow> (case s of None \<Rightarrow> False | Some t \<Rightarrow> t \<noteq> [])"

definition toCheckoutSnapshotJson :: "checkout_snapshot \<Rightarrow> json" where
  "toCheckoutSnapshotJson s = JObj
    ([(''billingSubjectType'', JStr ''USER''),
      (''kind'', JStr (payment_kind_name (cs_kind s))),
      (''customerPaymentAmountMicroRub'', JStr (decimal_of_int (cs_customerPaymentAmount s))),
      (''providerBudgetGrantMicroRub'', JStr (decimal_of_int (cs_providerBudgetGrant s)))]
     @ (if truthy_str (cs_planVersionId s)
        then [(''planVersionId'', JStr (the (cs_planVersionId s)))] else [])
     @ (if truthy_str (cs_planCode s) then [(''planCode'', JStr (the (cs_planCode s)))] else [])
     @ (case cs_subscriptionPeriodDays s of None \<Rightarrow> []
        | Some d \<Rightarrow> [(''subscriptionPeriodDays'', JNum d)])
     @ (case cs_topupRatioBps s of None \<Rightarrow> []
        | Some r \<Rightarrow> [(''topupRatioBps'', JStr (decimal_of_int r))])
     @ (if truthy_str (cs_topupPolicyVersionId s)
        then [(''topupPolicyVersionId'', JStr (the (cs_topupPolicyVersionId s)))] else []))"

abbreviation snapshot_error :: "js_error + 'a" where
  "snapshot_error \<equiv> Inl (BillingError FINANCIAL_OPERATION_FAILED)"

text \<open>The \<open>typeof\<close> tests on a property that may be missing.\<close>

definition as_string :: "json option \<Rightarrow> string option" where
  "as_string j = (case j of Some (JStr s) \<Rightarrow> Some s | _ \<Rightarrow> None)"

definition as_number :: "json option \<Rightarrow> int option" where
  "as_number j = (case j of Some (JNum n) \<Rightarrow> Some n | _ \<Rightarrow> None)"

definition is_json_object :: "json \<Rightarrow> bool" where
  "is_json_object j = (case j of JObj _ \<Rightarrow> True | JArr _ \<Rightarrow> True | _ \<Rightarrow> False)"

definition parseCheckoutSnapshot :: "json \<Rightarrow> js_error + checkout_snapshot" where
  "parseCheckoutSnapshot value =
    (if \<not> is_json_object value then snapshot_error
     else let kind = json_get value ''kind'';
              amount = as_string (json_get value ''customerPaymentAmountMicroRub'');
              grant = as_string (json_get value ''providerBudgetGrantMicroRub'');
              planCode = json_get value ''planCode'' in
       if kind \<noteq> Some (JStr ''SUBSCRIPTION'') \<and> kind \<noteq> Some (JStr ''TOPUP'') then snapshot_error
       else if amount = None then snapshot_error
       else if grant = None then snapshot_error
       else if planCode \<noteq> None \<and>
           (case as_string planCode of None \<Rightarrow> True | Some c \<Rightarrow> c \<notin> set PLAN_IDENTITY_CODES)
         then snapshot_error
       else rbind (microRubFromJson (the amount)) (\<lambda>a.
         rbind (microRubFromJson (the grant)) (\<lambda>g.
         rbind (case as_string (json_get value ''topupRatioBps'') of
             None \<Rightarrow> Inr None
           | Some r \<Rightarrow> rbind (js_BigInt r) (\<lambda>n. Inr (Some n))) (\<lambda>ratio.
         Inr \<lparr>cs_kind = (if kind = Some (JStr ''TOPUP'') then Kind_TOPUP else Kind_SUBSCRIPTION),
              cs_customerPaymentAmount = a,
              cs_providerBudgetGrant = g,
              cs_planVersionId = as_string (json_get value ''planVersionId''),
              cs_planCode = as_string planCode,
              cs_subscriptionPeriodDays = as_number (json_get value ''subscriptionPeriodDays''),
              cs_topupRatioBps = ratio,
              cs_topupPolicyVersionId = as_string (json_get value ''topupPolicyVersionId'')\<rparr>))))"

section \<open>Lemmas\<close>

lemma digits_in_base_decimal:
  assumes "list_all is_digit cs"
  shows "digits_in_base 10 acc cs = Some (nat_of_digits acc cs)"
  using assms by (induction cs arbitrary: acc) (auto simp: is_digit_def Let_def)

lemma unsigned_literal_decimal: "unsigned_literal 10 (decimal_of_nat n) = Inr (int n)"
  by (simp add: unsigned_literal_def decimal_of_nat_nonempty list_all_digit_decimal
      digits_in_base_decimal nat_of_digits_decimal)

lemma decimal_not_prefixed:
  assumes "list_all is_digit s" and "\<not> is_digit c"
  shows "take 2 s \<noteq> [a, c]"
proof
  assume "take 2 s = [a, c]"
  then have "c \<in> set (take 2 s)" by simp
  then have "c \<in> set s" by (rule in_set_takeD)
  with assms show False by (auto simp: list_all_iff)
qed

lemma js_BigInt_decimal: "js_BigInt (decimal_of_int i) = Inr i"
proof (cases "i < 0")
  case True
  then have d: "decimal_of_int i = CHR ''-'' # decimal_of_nat (nat (- i))"
    by (simp add: decimal_of_int_def)
  have "js_trim (decimal_of_int i) = decimal_of_int i"
    by (rule js_trim_id) (rule decimal_of_int_not_white)
  with True show ?thesis
    by (simp add: js_BigInt_def d unsigned_literal_decimal numeral_2_eq_2)
next
  case False
  then have d: "decimal_of_int i = decimal_of_nat (nat i)" by (simp add: decimal_of_int_def)
  obtain c cs where c: "decimal_of_nat (nat i) = c # cs" "is_digit c" "c \<noteq> CHR ''-''"
    by (rule decimal_of_nat_Cons[of "nat i"])
  have "c \<noteq> CHR ''+''" using c(2) by (auto simp: is_digit_def)
  moreover have "js_trim (decimal_of_int i) = decimal_of_int i"
    by (rule js_trim_id) (rule decimal_of_int_not_white)
  moreover have "take 2 (decimal_of_nat (nat i)) \<noteq> [a, b]" if "\<not> is_digit b" for a b
    by (rule decimal_not_prefixed[OF list_all_digit_decimal that])
  ultimately show ?thesis
    using False c unsigned_literal_decimal[of "nat i"]
    by (simp add: js_BigInt_def d Let_def is_digit_def)
qed

definition snapshot_well_formed :: "checkout_snapshot \<Rightarrow> bool" where
  "snapshot_well_formed s \<longleftrightarrow>
    cs_planVersionId s \<noteq> Some [] \<and> cs_topupPolicyVersionId s \<noteq> Some [] \<and>
    (case cs_planCode s of None \<Rightarrow> True | Some c \<Rightarrow> c \<in> set PLAN_IDENTITY_CODES)"

lemma truthy_str_iff [simp]:
  "truthy_str None = False" "truthy_str (Some s) = (s \<noteq> [])"
  by (simp_all add: truthy_str_def)

lemma map_of_append_optional:
  "map_of (xs @ (if b then [(k, v)] else [])) k' =
    (if b \<and> k' = k \<and> map_of xs k = None then Some v else map_of xs k')"
  by (cases "map_of xs k'") (auto simp: map_add_def)

lemma parse_to_snapshot:
  assumes "snapshot_well_formed s"
  shows "parseCheckoutSnapshot (toCheckoutSnapshotJson s) = Inr s"
proof -
  have code: "c \<noteq> []" if "c \<in> set PLAN_IDENTITY_CODES" for c
    using that by (auto simp: PLAN_IDENTITY_CODES_def)
  have roundtrip: "microRubFromJson (decimal_of_int i) = Inr i" for i
    using microRubFromJson_ToJson[of i] by (simp add: microRubToJson_def)
  show ?thesis
    using assms code
    by (cases s; cases "cs_planVersionId s"; cases "cs_planCode s";
        cases "cs_subscriptionPeriodDays s"; cases "cs_topupRatioBps s";
        cases "cs_topupPolicyVersionId s"; cases "cs_kind s")
      (auto simp: parseCheckoutSnapshot_def toCheckoutSnapshotJson_def snapshot_well_formed_def
        is_json_object_def json_get_def as_string_def as_number_def payment_kind_name_def
        roundtrip js_BigInt_decimal Let_def)
qed

section \<open>Properties\<close>

text \<open>
  C7: what is granted or refunded is what was checked out: for every snapshot whose optional
  ids are not empty strings and whose plan code is a known one, the JSON stored with the
  payment parses back to exactly that snapshot, with the price, the grant, the plan version,
  the period and the ratio unchanged.
\<close>

theorem checkout_snapshot_roundtrip:
  assumes "snapshot_well_formed s"
  shows "parseCheckoutSnapshot (toCheckoutSnapshotJson s) = Inr s"
  by (rule parse_to_snapshot[OF assms])

definition sample_snapshot :: checkout_snapshot where
  "sample_snapshot =
    \<lparr>cs_kind = Kind_TOPUP, cs_customerPaymentAmount = 500000000,
     cs_providerBudgetGrant = 175000000, cs_planVersionId = None, cs_planCode = Some ''T199'',
     cs_subscriptionPeriodDays = Some 30, cs_topupRatioBps = Some 3500,
     cs_topupPolicyVersionId = Some ''tp1''\<rparr>"

lemma checkout_snapshot_roundtrip_witness:
  "parseCheckoutSnapshot (toCheckoutSnapshotJson sample_snapshot) = Inr sample_snapshot"
  by (rule checkout_snapshot_roundtrip)
    (simp add: snapshot_well_formed_def sample_snapshot_def PLAN_IDENTITY_CODES_def)

end
