(* ===== verification/Orders.thy ===== *)
theory Orders
  imports Vimla_Prelude
begin

text \<open>
  Comparison callbacks: strings compared by their codes, as the operators of the source and the
  indexes of the database compare identifiers and ISO timestamps; a comparison by a key, in
  reverse, by a second key when the first does not decide. Each construction is a
  \<open>comparator\<close>, and a sorted table has one order only when the comparison separates its rows.
\<close>

section \<open>Strings\<close>

fun string_cmp :: "string \<Rightarrow> string \<Rightarrow> int" where
  "string_cmp [] [] = 0"
| "string_cmp [] (_ # _) = -1"
| "string_cmp (_ # _) [] = 1"
| "string_cmp (a # as) (b # bs) =
    (if a = b then string_cmp as bs else if (of_char a :: nat) < of_char b then -1 else 1)"

lemma string_cmp_refl [simp]: "string_cmp s s = 0"
  by (induction s) auto

lemma string_cmp_0 [simp]: "string_cmp s t = 0 \<longleftrightarrow> s = t"
  by (induction s t rule: string_cmp.induct) auto

lemma char_total: "a \<noteq> b \<Longrightarrow> \<not> (of_char a :: nat) < of_char b \<Longrightarrow> (of_char b :: nat) < of_char a"
  by (metis linorder_neqE of_char_eq_iff)

lemma string_cmp_antisym: "string_cmp s t < 0 \<longleftrightarrow> 0 < string_cmp t s"
  by (induction s t rule: string_cmp.induct) (auto dest: char_total)

lemma string_cmp_trans:
  "string_cmp s t \<le> 0 \<Longrightarrow> string_cmp t u \<le> 0 \<Longrightarrow> string_cmp s u \<le> 0"
proof (induction s t arbitrary: u rule: string_cmp.induct)
  case (4 a as b bs)
  then obtain c cs where u: "u = c # cs" by (cases u) auto
  from 4 show ?case unfolding u by (auto split: if_splits dest: char_total)
qed (auto, metis neq_Nil_conv order_refl string_cmp.simps(1,2) zero_le_numeral neg_le_0_iff_le zero_le_one)

section \<open>Comparators by construction\<close>

definition cmp_on :: "('k \<Rightarrow> 'k \<Rightarrow> int) \<Rightarrow> ('a \<Rightarrow> 'k) \<Rightarrow> 'a \<Rightarrow> 'a \<Rightarrow> int" where
  "cmp_on c f x y = c (f x) (f y)"

definition cmp_rev :: "('a \<Rightarrow> 'a \<Rightarrow> int) \<Rightarrow> 'a \<Rightarrow> 'a \<Rightarrow> int" where
  "cmp_rev c x y = c y x"

definition cmp_then :: "('a \<Rightarrow> 'a \<Rightarrow> int) \<Rightarrow> ('a \<Rightarrow> 'a \<Rightarrow> int) \<Rightarrow> 'a \<Rightarrow> 'a \<Rightarrow> int" where
  "cmp_then c d x y = (if c x y \<noteq> 0 then c x y else d x y)"

definition int_cmp :: "int \<Rightarrow> int \<Rightarrow> int" where
  "int_cmp x y = x - y"

named_theorems cmp_intros "comparators by construction"

lemma comparator_string [cmp_intros]: "comparator string_cmp"
  by unfold_locales (use string_cmp_antisym string_cmp_trans in blast)+

lemma comparator_int [cmp_intros]: "comparator int_cmp"
  by unfold_locales (auto simp: int_cmp_def)

lemma comparator_on [cmp_intros]: "comparator c \<Longrightarrow> comparator (cmp_on c f)"
  unfolding comparator_def cmp_on_def by meson

lemma comparator_rev [cmp_intros]: "comparator c \<Longrightarrow> comparator (cmp_rev c)"
  unfolding comparator_def cmp_rev_def by meson

lemma comparator_then [cmp_intros]:
  assumes c: "comparator c" and d: "comparator d"
  shows "comparator (cmp_then c d)"
proof
  fix x y z
  note c_rules = comparator.cmp_antisym[OF c] comparator.cmp_zero_sym[OF c]
  note d_rules = comparator.cmp_antisym[OF d]
  show "cmp_then c d x y < 0 \<longleftrightarrow> 0 < cmp_then c d y x"
    using c_rules[of x y] c_rules[of y x] d_rules[of x y] by (auto simp: cmp_then_def)
  assume *: "cmp_then c d x y \<le> 0" "cmp_then c d y z \<le> 0"
  then have le: "c x y \<le> 0" "c y z \<le> 0" by (auto simp: cmp_then_def split: if_splits)
  show "cmp_then c d x z \<le> 0"
  proof (cases "c x y = 0 \<and> c y z = 0")
    case True
    then have "c x z = 0"
      using comparator.cmp_trans[OF c, of x y z] comparator.cmp_trans[OF c, of z y x]
        comparator.cmp_zero_sym[OF c, of x y] comparator.cmp_zero_sym[OF c, of y z]
        comparator.cmp_antisym[OF c, of x z] by linarith
    with True * comparator.cmp_trans[OF d, of x y z] show ?thesis by (simp add: cmp_then_def)
  next
    case False
    have "c x z \<le> 0" using comparator.cmp_trans[OF c, of x y z] le by simp
    moreover have "c x z \<noteq> 0"
    proof
      assume "c x z = 0"
      then have zx: "c z x = 0" by (rule comparator.cmp_zero_sym[OF c])
      have "c z y \<le> 0" using comparator.cmp_trans[OF c, of z x y] zx le(1) by simp
      moreover have "c y x \<le> 0" using comparator.cmp_trans[OF c, of y z x] zx le(2) by simp
      ultimately show False
        using False le comparator.cmp_antisym[OF c, of x y] comparator.cmp_antisym[OF c, of y z] by linarith
    qed
    ultimately have "c x z < 0" by simp
    then show ?thesis by (simp add: cmp_then_def)
  qed
qed

end
