(* ===== verification/Billing_Catalog.thy ===== *)
theory Billing_Catalog
  imports Entitlements Checkout Allocation Fee_Economics Orders
begin

text \<open>
  What the billing engine reads but never writes: plans and their versions, the published
  top-up, acquiring and fiscalization policies, and the subscriptions of a user, with the
  lookups of \<open>effective-plan.ts\<close>, \<open>payment-economics.ts\<close> and
  \<open>billing-engine.ts\<close> on them. Ids and codes of these rows are strings. A relation of a
  row that foreign keys guarantee is looked up with \<open>the_row\<close>.
\<close>

section \<open>Rows\<close>

record plan_row =
  pl_code :: string
  pl_name :: string
  pl_active :: bool

record plan_version =
  plv_id :: string
  plv_planCode :: string
  plv_price :: microRub
  plv_providerBudget :: microRub
  plv_periodDays :: int
  plv_status :: string
  plv_validFrom :: int
  plv_validTo :: "int option"
  plv_entitlements :: "entitlement_row list"

record topup_policy =
  tp_id :: string
  tp_status :: string
  tp_minPurchase :: microRub
  tp_maxPurchase :: microRub
  tp_usageGrantRatioBps :: int
  tp_effectiveFrom :: int
  tp_effectiveTo :: "int option"

record fee_policy_row =
  fp_id :: string
  fp_provider :: string
  fp_paymentMethod :: string
  fp_feeBps :: int
  fp_feeVatBps :: int
  fp_minimumFee :: "microRub option"
  fp_fixedFee :: "microRub option"
  fp_status :: string
  fp_effectiveFrom :: int
  fp_effectiveTo :: "int option"
  fp_sourceQuality :: string

record fiscal_policy_row =
  ff_id :: string
  ff_provider :: string
  ff_percentageBps :: "int option"
  ff_fixedFee :: "microRub option"
  ff_status :: string
  ff_effectiveFrom :: int
  ff_effectiveTo :: "int option"

record catalog =
  cat_plans :: "plan_row list"
  cat_planVersions :: "plan_version list"
  cat_topupPolicies :: "topup_policy list"
  cat_feePolicies :: "fee_policy_row list"
  cat_fiscalPolicies :: "fiscal_policy_row list"

datatype subscription_status = Sub_ACTIVE | Sub_CANCELED | Sub_EXPIRED

record subscription_row =
  sb_id :: nat
  sb_userId :: string
  sb_planVersionId :: string
  sb_status :: subscription_status
  sb_periodStart :: int
  sb_periodEnd :: int

section \<open>Policies in effect\<close>

text \<open>\<open>findFirst\<close> with \<open>orderBy: { f: "desc" }\<close>.\<close>

definition latest :: "('a \<Rightarrow> int) \<Rightarrow> 'a list \<Rightarrow> 'a option" where
  "latest f rows = (case js_sort (\<lambda>a b. f b - f a) rows of [] \<Rightarrow> None | r # _ \<Rightarrow> Some r)"

definition in_effect :: "int \<Rightarrow> int \<Rightarrow> int option \<Rightarrow> bool" where
  "in_effect at start until \<longleftrightarrow> start \<le> at \<and> (case until of None \<Rightarrow> True | Some t \<Rightarrow> t > at)"

definition getPublishedTopupPolicy :: "catalog \<Rightarrow> int \<Rightarrow> topup_policy option" where
  "getPublishedTopupPolicy cat now = latest tp_effectiveFrom
    (filter (\<lambda>p. tp_status p = ''PUBLISHED'' \<and> in_effect now (tp_effectiveFrom p) (tp_effectiveTo p))
      (cat_topupPolicies cat))"

definition findPublishedFeePolicy :: "catalog \<Rightarrow> string \<Rightarrow> string \<Rightarrow> int \<Rightarrow> fee_policy_row option" where
  "findPublishedFeePolicy cat provider paymentMethod at = latest fp_effectiveFrom
    (filter (\<lambda>p. fp_provider p = provider \<and> fp_paymentMethod p = paymentMethod \<and>
        fp_status p = ''PUBLISHED'' \<and> in_effect at (fp_effectiveFrom p) (fp_effectiveTo p))
      (cat_feePolicies cat))"

definition findPublishedFiscalPolicy :: "catalog \<Rightarrow> string \<Rightarrow> int \<Rightarrow> fiscal_policy_row option" where
  "findPublishedFiscalPolicy cat provider at = latest ff_effectiveFrom
    (filter (\<lambda>p. ff_provider p = provider \<and> ff_status p = ''PUBLISHED'' \<and>
        in_effect at (ff_effectiveFrom p) (ff_effectiveTo p))
      (cat_fiscalPolicies cat))"

section \<open>Plans\<close>

definition FREE_PLAN_CODE :: string where "FREE_PLAN_CODE = ''FREE''"

definition plansCurrentVersion :: "plan_version list \<Rightarrow> int \<Rightarrow> plan_version option" where
  "plansCurrentVersion versions now =
    find (\<lambda>v. plv_status v = ''PUBLISHED'' \<and> in_effect now (plv_validFrom v) (plv_validTo v)) versions"

definition versions_of :: "catalog \<Rightarrow> string \<Rightarrow> plan_version list" where
  "versions_of cat code = js_sort (\<lambda>a b. plv_validFrom b - plv_validFrom a)
    (filter (\<lambda>v. plv_planCode v = code) (cat_planVersions cat))"

definition listRetailPlans :: "catalog \<Rightarrow> int \<Rightarrow> (string \<times> string \<times> microRub) list" where
  "listRetailPlans cat now = concat (map (\<lambda>plan.
     if pl_code plan = FREE_PLAN_CODE then []
     else case plansCurrentVersion (versions_of cat (pl_code plan)) now of
         None \<Rightarrow> []
       | Some current \<Rightarrow> if plv_price current \<le> 0 then []
           else [(pl_code plan, pl_name plan, plv_price current)])
     (js_sort (\<lambda>a b. string_cmp (pl_code a) (pl_code b)) (filter pl_active (cat_plans cat))))"

definition findCurrentPlanVersionByCode :: "catalog \<Rightarrow> string \<Rightarrow> int \<Rightarrow> js_error + plan_version" where
  "findCurrentPlanVersionByCode cat code now =
    (case find (\<lambda>p. pl_code p = code) (cat_plans cat) of
       None \<Rightarrow> Inl (BillingError PLAN_NOT_FOUND)
     | Some plan \<Rightarrow>
         if \<not> pl_active plan \<or> pl_code plan = FREE_PLAN_CODE then Inl (BillingError PLAN_NOT_FOUND)
         else the_row (BillingError PLAN_NOT_FOUND)
           (plansCurrentVersion (versions_of cat (pl_code plan)) now))"

record effective_plan =
  ep_planCode :: string
  ep_planVersionId :: string
  ep_price :: microRub
  ep_monthlyUsageGrant :: microRub
  ep_subscriptionPeriodDays :: int
  ep_source :: plan_source
  ep_subscriptionId :: "nat option"
  ep_periodEnd :: "int option"
  ep_entitlements :: "plan_entitlement list"
  ep_topupAllowed :: bool

definition live_subscriptions :: "subscription_row list \<Rightarrow> string \<Rightarrow> int \<Rightarrow> subscription_row list" where
  "live_subscriptions subs userId now =
    filter (\<lambda>s. sb_userId s = userId \<and> sb_status s = Sub_ACTIVE \<and> sb_periodEnd s > now) subs"

definition resolveEffectivePlan ::
    "catalog \<Rightarrow> subscription_row list \<Rightarrow> string \<Rightarrow> int \<Rightarrow> js_error + effective_plan" where
  "resolveEffectivePlan cat subs userId now =
    (case latest sb_periodEnd (live_subscriptions subs userId now) of
       Some subscription \<Rightarrow>
         rbind (the_row (DbError ''P2025'' '''')
             (find (\<lambda>v. plv_id v = sb_planVersionId subscription) (cat_planVersions cat))) (\<lambda>version.
         rbind (map_res decodeEntitlement (plv_entitlements version)) (\<lambda>entitlements.
         Inr \<lparr>ep_planCode = plv_planCode version, ep_planVersionId = plv_id version,
              ep_price = plv_price version, ep_monthlyUsageGrant = plv_providerBudget version,
              ep_subscriptionPeriodDays = plv_periodDays version, ep_source = SUBSCRIPTION,
              ep_subscriptionId = Some (sb_id subscription),
              ep_periodEnd = Some (sb_periodEnd subscription), ep_entitlements = entitlements,
              ep_topupAllowed = isTopupAllowed entitlements\<rparr>))
     | None \<Rightarrow>
         (case find (\<lambda>p. pl_code p = FREE_PLAN_CODE) (cat_plans cat) of
            None \<Rightarrow> Inl (BillingError PLAN_NOT_FOUND)
          | Some free \<Rightarrow>
              rbind (the_row (BillingError PLAN_NOT_FOUND)
                (find (\<lambda>v. in_effect now (plv_validFrom v) (plv_validTo v))
                  (filter (\<lambda>v. plv_status v = ''PUBLISHED'') (versions_of cat (pl_code free))))) (\<lambda>version.
              rbind (map_res decodeEntitlement (plv_entitlements version)) (\<lambda>entitlements.
              Inr \<lparr>ep_planCode = pl_code free, ep_planVersionId = plv_id version,
                   ep_price = plv_price version, ep_monthlyUsageGrant = plv_providerBudget version,
                   ep_subscriptionPeriodDays = plv_periodDays version, ep_source = FREE_FALLBACK,
                   ep_subscriptionId = None, ep_periodEnd = None, ep_entitlements = entitlements,
                   ep_topupAllowed = isTopupAllowed entitlements\<rparr>))))"

definition assertTopupPurchasable ::
    "catalog \<Rightarrow> subscription_row list \<Rightarrow> string \<Rightarrow> int \<Rightarrow> js_error + unit" where
  "assertTopupPurchasable cat subs userId now =
    rbind (resolveEffectivePlan cat subs userId now) (\<lambda>effective.
      if \<not> ep_topupAllowed effective then Inl (BillingError INVALID_TOPUP_AMOUNT) else Inr ())"

section \<open>The checkout snapshot\<close>

definition buildCheckoutSnapshot ::
    "catalog \<Rightarrow> billing_policy \<Rightarrow> int \<Rightarrow> payment_kind \<Rightarrow> microRub \<Rightarrow> string option \<Rightarrow> string option \<Rightarrow>
      js_error + checkout_snapshot" where
  "buildCheckoutSnapshot cat policy now kind amount planVersionId planCode =
    (if kind = Kind_TOPUP then
       (let topupPolicy = getPublishedTopupPolicy cat now;
            ratioBps = (case topupPolicy of None \<Rightarrow> topupProviderCostRatioBps policy
                        | Some p \<Rightarrow> tp_usageGrantRatioBps p);
            bounds = \<lparr>minTopupMicroRub = (case topupPolicy of None \<Rightarrow> minTopupMicroRub policy
                        | Some p \<Rightarrow> tp_minPurchase p),
                      maxTopupMicroRub = (case topupPolicy of None \<Rightarrow> maxTopupMicroRub policy
                        | Some p \<Rightarrow> tp_maxPurchase p),
                      topupProviderCostRatioBps = ratioBps,
                      subscriptionPeriodDays = subscriptionPeriodDays policy\<rparr> in
        rbind (validateTopupAmount amount bounds) (\<lambda>_.
        rbind (topupProviderBudgetMicroRub amount ratioBps) (\<lambda>grant.
        Inr \<lparr>cs_kind = Kind_TOPUP, cs_customerPaymentAmount = amount, cs_providerBudgetGrant = grant,
             cs_planVersionId = None, cs_planCode = None, cs_subscriptionPeriodDays = None,
             cs_topupRatioBps = Some ratioBps,
             cs_topupPolicyVersionId = map_option tp_id topupPolicy\<rparr>)))
     else if \<not> truthy_str planVersionId then Inl (BillingError PLAN_NOT_FOUND)
     else (case find (\<lambda>v. plv_id v = the planVersionId) (cat_planVersions cat) of
         None \<Rightarrow> Inl (BillingError PLAN_NOT_FOUND)
       | Some planVersion \<Rightarrow>
           if plv_price planVersion \<noteq> amount then Inl (BillingError FINANCIAL_OPERATION_FAILED)
           else Inr \<lparr>cs_kind = Kind_SUBSCRIPTION, cs_customerPaymentAmount = amount,
             cs_providerBudgetGrant = plv_providerBudget planVersion,
             cs_planVersionId = Some (plv_id planVersion), cs_planCode = planCode,
             cs_subscriptionPeriodDays = Some (plv_periodDays planVersion),
             cs_topupRatioBps = None, cs_topupPolicyVersionId = None\<rparr>))"

section \<open>Lemmas\<close>

interpretation descending: comparator "\<lambda>a b. f b - f a" for f :: "'a \<Rightarrow> int"
  by unfold_locales auto

lemma latest_Some:
  assumes "latest f rows = Some r"
  shows "r \<in> set rows \<and> (\<forall>x \<in> set rows. f x \<le> f r)"
proof -
  from assms obtain rest where s: "js_sort (\<lambda>a b. f b - f a) rows = r # rest"
    by (auto simp: latest_def split: list.splits)
  then have "set rows = insert r (set rest)" by (metis list.simps(15) set_js_sort)
  moreover have "\<forall>x \<in> set rest. f x \<le> f r"
    using descending.sorted_js_sort[of f rows] by (simp add: s)
  ultimately show ?thesis by auto
qed

lemma latest_None: "latest f rows = None \<longleftrightarrow> rows = []"
proof
  assume "latest f rows = None"
  then have "js_sort (\<lambda>a b. f b - f a) rows = []" by (auto simp: latest_def split: list.splits)
  then show "rows = []" by (metis length_0_conv length_js_sort)
qed (simp add: latest_def)

section \<open>Properties\<close>

text \<open>
  The effective plan: a user is on a subscription plan exactly when one of the user's
  subscriptions is active and not over, and it is then the one that ends last; everybody else
  is on the free plan, in a version that is published and in effect. No plan is returned
  otherwise.
\<close>

theorem effective_plan_source:
  assumes "resolveEffectivePlan cat subs u now = Inr p"
  shows "(ep_source p = SUBSCRIPTION \<longleftrightarrow> live_subscriptions subs u now \<noteq> []) \<and>
    (ep_source p = SUBSCRIPTION \<longrightarrow> (\<exists>s \<in> set (live_subscriptions subs u now).
      ep_subscriptionId p = Some (sb_id s) \<and> ep_planVersionId p = sb_planVersionId s \<and>
      ep_periodEnd p = Some (sb_periodEnd s) \<and> now < sb_periodEnd s \<and>
      (\<forall>t \<in> set (live_subscriptions subs u now). sb_periodEnd t \<le> sb_periodEnd s))) \<and>
    (ep_source p = FREE_FALLBACK \<longrightarrow> (\<exists>v \<in> set (cat_planVersions cat).
      ep_planVersionId p = plv_id v \<and> plv_planCode v = FREE_PLAN_CODE \<and>
      plv_status v = ''PUBLISHED'' \<and> in_effect now (plv_validFrom v) (plv_validTo v)))"
proof (cases "latest sb_periodEnd (live_subscriptions subs u now)")
  case None
  then have none: "live_subscriptions subs u now = []" by (simp add: latest_None)
  from assms None obtain free v where f: "find (\<lambda>p. pl_code p = FREE_PLAN_CODE) (cat_plans cat) = Some free"
      "find (\<lambda>v. in_effect now (plv_validFrom v) (plv_validTo v))
        (filter (\<lambda>v. plv_status v = ''PUBLISHED'') (versions_of cat (pl_code free))) = Some v"
      "ep_planVersionId p = plv_id v" "ep_source p = FREE_FALLBACK"
    by (auto simp: resolveEffectivePlan_def res_simps split: option.splits)
  from f(1) have "pl_code free = FREE_PLAN_CODE" by (auto simp: find_Some_iff)
  moreover from f(2) have "v \<in> set (filter (\<lambda>v. plv_status v = ''PUBLISHED'') (versions_of cat (pl_code free)))"
      "in_effect now (plv_validFrom v) (plv_validTo v)"
    by (auto simp: find_Some_iff simp del: set_filter)
  ultimately show ?thesis using f(3,4) none by (auto simp: versions_of_def)
next
  case (Some s)
  from assms Some have "ep_source p = SUBSCRIPTION" "ep_subscriptionId p = Some (sb_id s)"
      "ep_planVersionId p = sb_planVersionId s" "ep_periodEnd p = Some (sb_periodEnd s)"
    by (auto simp: resolveEffectivePlan_def res_simps find_Some_iff)
  moreover from latest_Some[OF Some] have "s \<in> set (live_subscriptions subs u now)"
      "\<forall>t \<in> set (live_subscriptions subs u now). sb_periodEnd t \<le> sb_periodEnd s"
    by auto
  moreover from this(1) have "live_subscriptions subs u now \<noteq> []" by (metis empty_iff empty_set)
  moreover have "now < sb_periodEnd s"
    using \<open>s \<in> set (live_subscriptions subs u now)\<close> by (simp add: live_subscriptions_def)
  ultimately show ?thesis by auto
qed

definition sample_catalog :: catalog where
  "sample_catalog =
    \<lparr>cat_plans = [\<lparr>pl_code = ''FREE'', pl_name = ''Free'', pl_active = True\<rparr>,
       \<lparr>pl_code = ''T199'', pl_name = ''Lite'', pl_active = True\<rparr>],
     cat_planVersions =
       [\<lparr>plv_id = ''free1'', plv_planCode = ''FREE'', plv_price = 0, plv_providerBudget = 0,
         plv_periodDays = 30, plv_status = ''PUBLISHED'', plv_validFrom = 0, plv_validTo = None,
         plv_entitlements = [encodeEntitlement ''billing.topupAllowed'' (BoolValue False)]\<rparr>,
        \<lparr>plv_id = ''t199v1'', plv_planCode = ''T199'', plv_price = 199000000,
         plv_providerBudget = 60000000, plv_periodDays = 30, plv_status = ''PUBLISHED'',
         plv_validFrom = 0, plv_validTo = None, plv_entitlements = []\<rparr>],
     cat_topupPolicies = [], cat_feePolicies = [], cat_fiscalPolicies = []\<rparr>"

lemma effective_plan_source_witness:
  "\<exists>p. resolveEffectivePlan sample_catalog [] ''ann'' 5 = Inr p \<and> ep_source p \<noteq> SUBSCRIPTION \<and>
    assertTopupPurchasable sample_catalog [] ''ann'' 5 = Inl (BillingError INVALID_TOPUP_AMOUNT)"
proof -
  let ?p = "\<lparr>ep_planCode = ''FREE'', ep_planVersionId = ''free1'', ep_price = 0,
    ep_monthlyUsageGrant = 0, ep_subscriptionPeriodDays = 30, ep_source = FREE_FALLBACK,
    ep_subscriptionId = None, ep_periodEnd = None,
    ep_entitlements = [\<lparr>pe_key = ''billing.topupAllowed'', pe_value = BoolValue False\<rparr>],
    ep_topupAllowed = False\<rparr>"
  have "resolveEffectivePlan sample_catalog [] ''ann'' 5 = Inr ?p" by code_simp
  moreover have "ep_source ?p \<noteq> SUBSCRIPTION"
    using effective_plan_source[OF calculation] by (simp add: live_subscriptions_def)
  moreover have "assertTopupPurchasable sample_catalog [] ''ann'' 5 = Inl (BillingError INVALID_TOPUP_AMOUNT)"
    by code_simp
  ultimately show ?thesis by blast
qed

text \<open>
  A checkout snapshot promises what the price list says: a top-up lies within the bounds in
  force and grants its ratio of the amount rounded down, never more than was paid; a
  subscription costs exactly the price of its plan version and grants that version's budget.
  Whatever is built is well formed, so it survives its JSON form.
\<close>

theorem checkout_snapshot_prices:
  assumes "buildCheckoutSnapshot cat policy now kind amount pv pc = Inr s"
    and "\<forall>p \<in> set (cat_topupPolicies cat). tp_id p \<noteq> []"
    and "case pc of None \<Rightarrow> True | Some c \<Rightarrow> c \<in> set PLAN_IDENTITY_CODES"
  shows "cs_kind s = kind \<and> cs_customerPaymentAmount s = amount \<and> snapshot_well_formed s \<and>
    (kind = Kind_TOPUP \<longrightarrow> 0 < amount \<and> 0 \<le> cs_providerBudgetGrant s \<and>
      cs_providerBudgetGrant s \<le> amount \<and>
      (\<exists>r. cs_topupRatioBps s = Some r \<and> cs_providerBudgetGrant s * 10000 \<le> amount * r \<and>
        amount * r < (cs_providerBudgetGrant s + 1) * 10000)) \<and>
    (kind = Kind_SUBSCRIPTION \<longrightarrow> (\<exists>v \<in> set (cat_planVersions cat). cs_planVersionId s = Some (plv_id v) \<and>
      plv_price v = amount \<and> cs_providerBudgetGrant s = plv_providerBudget v \<and>
      cs_subscriptionPeriodDays s = Some (plv_periodDays v)))"
proof (cases kind)
  case Kind_TOPUP
  let ?tp = "getPublishedTopupPolicy cat now"
  let ?r = "case ?tp of None \<Rightarrow> topupProviderCostRatioBps policy | Some p \<Rightarrow> tp_usageGrantRatioBps p"
  from assms(1) Kind_TOPUP obtain g where g: "topupProviderBudgetMicroRub amount ?r = Inr g"
      "cs_providerBudgetGrant s = g" "cs_topupRatioBps s = Some ?r" "cs_kind s = Kind_TOPUP"
      "cs_customerPaymentAmount s = amount" "cs_planVersionId s = None" "cs_planCode s = None"
      "cs_topupPolicyVersionId s = map_option tp_id ?tp" and pos: "0 < amount"
    by (auto simp: buildCheckoutSnapshot_def Let_def res_simps validateTopupAmount_Inr)
  have "map_option tp_id ?tp \<noteq> Some []"
    using assms(2) by (fastforce simp: getPublishedTopupPolicy_def dest: latest_Some)
  with g pos topup_budget_bounds[OF g(1)] Kind_TOPUP show ?thesis
    by (simp add: snapshot_well_formed_def)
next
  case Kind_SUBSCRIPTION
  from assms(1) Kind_SUBSCRIPTION obtain v where v: "truthy_str pv"
      "find (\<lambda>v. plv_id v = the pv) (cat_planVersions cat) = Some v" "plv_price v = amount"
      "s = \<lparr>cs_kind = Kind_SUBSCRIPTION, cs_customerPaymentAmount = amount,
             cs_providerBudgetGrant = plv_providerBudget v,
             cs_planVersionId = Some (plv_id v), cs_planCode = pc,
             cs_subscriptionPeriodDays = Some (plv_periodDays v),
             cs_topupRatioBps = None, cs_topupPolicyVersionId = None\<rparr>"
    by (auto simp: buildCheckoutSnapshot_def split: if_splits option.splits)
  from v(2) have "v \<in> set (cat_planVersions cat)" "plv_id v = the pv" by (auto simp: find_Some_iff)
  moreover have "plv_id v \<noteq> []" using v(1) calculation(2) by (cases pv) auto
  ultimately show ?thesis
    using v(3,4) Kind_SUBSCRIPTION assms(3)
    by (simp add: snapshot_well_formed_def) (metis (no_types))
qed

lemma checkout_snapshot_prices_witness:
  "\<exists>s. buildCheckoutSnapshot sample_catalog DEFAULT_BILLING_POLICY 5 Kind_TOPUP 500000001 None None = Inr s \<and>
    snapshot_well_formed s \<and> cs_providerBudgetGrant s = 175000000"
proof -
  let ?s = "\<lparr>cs_kind = Kind_TOPUP, cs_customerPaymentAmount = 500000001,
    cs_providerBudgetGrant = 175000000, cs_planVersionId = None, cs_planCode = None,
    cs_subscriptionPeriodDays = None, cs_topupRatioBps = Some 3500, cs_topupPolicyVersionId = None\<rparr>"
  have "buildCheckoutSnapshot sample_catalog DEFAULT_BILLING_POLICY 5 Kind_TOPUP 500000001 None None = Inr ?s"
    by code_simp
  with checkout_snapshot_prices[OF this] show ?thesis by (simp add: sample_catalog_def)
qed

end
