(* ===== verification/Payment_Engine.thy ===== *)
theory Payment_Engine
  imports Usage_Engine Billing_Catalog Payment_States
begin

text \<open>
  The payment half of \<open>packages/billing/src/billing-engine.ts\<close>, with
  \<open>payment-economics.ts\<close> and \<open>payment-events.ts\<close>: creating a payment, attaching the
  provider's checkout, and \<open>processPaymentEvent\<close>, which grants, refunds or closes it. The
  database of the usage half is extended by the payment tables. In an update a field that is
  \<open>undefined\<close> is left alone, so an optional field is written with \<open>or_else\<close>, which is
  also \<open>??\<close>. Unique constraints are checked where a row is created or a key is written;
  a violation is the driver error \<open>P2002\<close>.
\<close>

section \<open>Tables\<close>

record payment_row =
  pm_id :: nat
  pm_userId :: string
  pm_provider :: string
  pm_providerPaymentId :: "string option"
  pm_providerOrderId :: string
  pm_providerStatus :: "string option"
  pm_paymentUrl :: "string option"
  pm_kind :: payment_kind
  pm_amount :: microRub
  pm_status :: payment_status
  pm_planVersionId :: "string option"
  pm_topupPolicyVersionId :: "string option"
  pm_paymentMethod :: "string option"
  pm_rawProviderPaymentMethod :: "string option"
  pm_idempotencyKey :: string
  pm_checkoutSnapshot :: json
  pm_grantedBucketId :: "nat option"
  pm_grantedSubscriptionId :: "nat option"
  pm_fulfilledAt :: "int option"
  pm_createdAt :: int

datatype payment_event_type =
    Payment_succeeded | Payment_failed | Payment_refunded | Payment_canceled
  | Payment_partially_refunded | Payment_chargeback | Payment_status

record payment_event_row =
  pv_provider :: string
  pv_providerEventId :: string
  pv_paymentId :: nat
  pv_eventType :: payment_event_type
  pv_providerStatus :: "string option"
  pv_sanitizedPayload :: json

record economics_row =
  ec_paymentId :: nat
  ec_gross :: microRub
  ec_paymentMethod :: string
  ec_feePolicyId :: "string option"
  ec_estimatedFee :: "microRub option"
  ec_estimatedFeeVat :: "microRub option"
  ec_fiscalPolicyId :: "string option"
  ec_estimatedFiscalFee :: "microRub option"
  ec_refunded :: microRub
  ec_chargeback :: microRub
  ec_status :: string

record billing_db = usage_db +
  db_payments :: "payment_row list"
  db_events :: "payment_event_row list"
  db_subscriptions :: "subscription_row list"
  db_economics :: "economics_row list"
  db_catalog :: catalog

record payment_event =
  ev_provider :: string
  ev_providerEventId :: string
  ev_providerPaymentId :: "string option"
  ev_orderId :: "string option"
  ev_eventType :: payment_event_type
  ev_providerStatus :: "string option"
  ev_amount :: "microRub option"
  ev_refundAmount :: "microRub option"
  ev_paymentMethod :: "string option"
  ev_rawProviderPaymentMethod :: "string option"

record process_result =
  pr_duplicate :: bool
  pr_paymentId :: nat
  pr_status :: payment_status
  pr_bucketId :: "nat option"
  pr_subscriptionId :: "nat option"

section \<open>Accesses\<close>

definition or_else :: "'a option \<Rightarrow> 'a option \<Rightarrow> 'a option" where
  "or_else x y = (case x of None \<Rightarrow> y | Some _ \<Rightarrow> x)"

abbreviation unique_violation :: js_error where
  "unique_violation \<equiv> DbError ''P2002'' ''Unique constraint failed''"

definition updatePayment :: "nat \<Rightarrow> (payment_row \<Rightarrow> payment_row) \<Rightarrow> billing_db \<Rightarrow> billing_db" where
  "updatePayment pid f db = db\<lparr>db_payments := row_update pm_id pid f (db_payments db)\<rparr>"

text \<open>The unique key (provider, providerPaymentId).\<close>

definition provider_id_taken :: "billing_db \<Rightarrow> nat \<Rightarrow> string \<Rightarrow> string option \<Rightarrow> bool" where
  "provider_id_taken db pid provider ppid \<longleftrightarrow> ppid \<noteq> None \<and>
    list_ex (\<lambda>q. pm_id q \<noteq> pid \<and> pm_provider q = provider \<and> pm_providerPaymentId q = ppid)
      (db_payments db)"

definition lockPaymentId :: "billing_db \<Rightarrow> payment_event \<Rightarrow> nat option" where
  "lockPaymentId db ev =
    (let byProvider = (if truthy_str (ev_providerPaymentId ev)
           then find (\<lambda>p. pm_provider p = ev_provider ev \<and>
                  pm_providerPaymentId p = ev_providerPaymentId ev) (db_payments db)
           else None)
     in case byProvider of
          Some p \<Rightarrow> Some (pm_id p)
        | None \<Rightarrow> if truthy_str (ev_orderId ev)
            then map_option pm_id
              (find (\<lambda>p. Some (pm_providerOrderId p) = ev_orderId ev) (db_payments db))
            else None)"

definition event_type_name :: "payment_event_type \<Rightarrow> string" where
  "event_type_name t = (case t of
     Payment_succeeded \<Rightarrow> ''payment.succeeded'' | Payment_failed \<Rightarrow> ''payment.failed''
   | Payment_refunded \<Rightarrow> ''payment.refunded'' | Payment_canceled \<Rightarrow> ''payment.canceled''
   | Payment_partially_refunded \<Rightarrow> ''payment.partially_refunded''
   | Payment_chargeback \<Rightarrow> ''payment.chargeback'' | Payment_status \<Rightarrow> ''payment.status'')"

definition opt_json :: "string option \<Rightarrow> json" where
  "opt_json s = (case s of None \<Rightarrow> JNull | Some t \<Rightarrow> JStr t)"

definition sanitizedEventPayload :: "payment_event \<Rightarrow> json" where
  "sanitizedEventPayload ev = JObj
    [(''eventType'', JStr (event_type_name (ev_eventType ev))),
     (''providerStatus'', opt_json (ev_providerStatus ev)),
     (''orderId'', opt_json (ev_orderId ev)),
     (''amountMicroRub'', opt_json (map_option decimal_of_int (ev_amount ev)))]"

definition createPaymentEvent :: "payment_event \<Rightarrow> nat \<Rightarrow> billing_db \<Rightarrow> js_error + billing_db" where
  "createPaymentEvent ev pid db =
    (if list_ex (\<lambda>e. pv_provider e = ev_provider ev \<and> pv_providerEventId e = ev_providerEventId ev)
         (db_events db)
     then Inl unique_violation
     else Inr (db\<lparr>db_events := db_events db @
       [\<lparr>pv_provider = ev_provider ev, pv_providerEventId = ev_providerEventId ev,
         pv_paymentId = pid, pv_eventType = ev_eventType ev,
         pv_providerStatus = ev_providerStatus ev,
         pv_sanitizedPayload = sanitizedEventPayload ev\<rparr>]\<rparr>))"

text \<open>
  \<open>usageBucket.create\<close>: (sourceType, sourceId) is unique, and a \<open>CHECK\<close> keeps the total
  non-negative; its violation (\<open>23514\<close>) carries no code.
\<close>

definition createBucket ::
    "string \<Rightarrow> usage_bucket_type \<Rightarrow> microRub \<Rightarrow> int option \<Rightarrow> string \<Rightarrow> nat \<Rightarrow> int \<Rightarrow>
      'a usage_db_scheme \<Rightarrow> js_error + 'a usage_db_scheme \<times> nat" where
  "createBucket userId type tot expiresAt sourceType sourceId createdAt db =
    (if list_ex (\<lambda>b. b_sourceType b = sourceType \<and> b_sourceId b = sourceId) (db_buckets db)
     then Inl unique_violation
     else if tot < 0 then Inl (DbError [] ''23514'')
     else Inr (db\<lparr>db_buckets := db_buckets db @
         [\<lparr>b_id = db_next db, b_userId = userId, b_type = type, b_total = tot, b_spent = 0,
           b_reserved = 0, b_expiresAt = expiresAt, b_sourceType = sourceType,
           b_sourceId = sourceId, b_createdAt = createdAt\<rparr>],
       db_next := Suc (db_next db)\<rparr>, db_next db))"

text \<open>At most one active subscription per user (a partial unique index).\<close>

definition active_subscription :: "billing_db \<Rightarrow> string \<Rightarrow> subscription_row option" where
  "active_subscription db userId =
    find (\<lambda>s. sb_userId s = userId \<and> sb_status s = Sub_ACTIVE) (db_subscriptions db)"

definition createSubscription ::
    "string \<Rightarrow> string \<Rightarrow> int \<Rightarrow> int \<Rightarrow> billing_db \<Rightarrow> js_error + billing_db \<times> nat" where
  "createSubscription userId planVersionId periodStart periodEnd db =
    (if active_subscription db userId \<noteq> None then Inl unique_violation
     else Inr (db\<lparr>db_subscriptions := db_subscriptions db @
         [\<lparr>sb_id = db_next db, sb_userId = userId, sb_planVersionId = planVersionId,
           sb_status = Sub_ACTIVE, sb_periodStart = periodStart, sb_periodEnd = periodEnd\<rparr>],
       db_next := Suc (db_next db)\<rparr>, db_next db))"

definition payment_entry ::
    "payment_row \<Rightarrow> nat option \<Rightarrow> ledger_type \<Rightarrow> microRub \<Rightarrow> (string \<times> meta_value) list \<Rightarrow> ledger_entry"
  where
  "payment_entry payment bucketId type amount meta =
    \<lparr>le_userId = pm_userId payment, le_bucketId = bucketId, le_reservationId = None,
     le_paymentId = Some (pm_id payment), le_type = type, le_amount = amount, le_metadata = meta\<rparr>"

section \<open>payment-economics.ts\<close>

definition method_name :: "string option \<Rightarrow> string option" where
  "method_name m = (case m of None \<Rightarrow> None
     | Some s \<Rightarrow> if s \<in> {''CARD'', ''SBP'', ''T_PAY'', ''OTHER'', ''UNKNOWN''} then Some s else None)"

definition ensurePaymentEconomics ::
    "nat \<Rightarrow> microRub \<Rightarrow> string \<Rightarrow> int \<Rightarrow> string option \<Rightarrow> billing_db \<Rightarrow>
      js_error + billing_db \<times> string \<times> bool" where
  "ensurePaymentEconomics paymentId gross provider occurredAt paymentMethod db =
    (case row_find ec_paymentId paymentId (db_economics db) of
       Some existing \<Rightarrow> Inr (db, ec_status existing, False)
     | None \<Rightarrow>
        let method = (if paymentMethod = None \<or> paymentMethod = Some ''UNKNOWN'' then None
              else paymentMethod);
            feePolicy = (case method of None \<Rightarrow> None
              | Some m \<Rightarrow> findPublishedFeePolicy (db_catalog db) provider m occurredAt);
            fiscalPolicy = findPublishedFiscalPolicy (db_catalog db) provider occurredAt;
            status = (if method = None then ''RECONCILIATION_REQUIRED''
              else if feePolicy = None then ''RECONCILIATION_REQUIRED'' else ''ESTIMATED'')
        in rbind (case feePolicy of
               None \<Rightarrow> Inr None
             | Some p \<Rightarrow> rbind (estimateAcquiringFee gross
                 \<lparr>feeBps = fp_feeBps p, feeVatBps = fp_feeVatBps p,
                  minimumFeeMicroRub = fp_minimumFee p, fixedFeeMicroRub = fp_fixedFee p\<rparr>)
                 (\<lambda>acquiring. Inr (Some acquiring))) (\<lambda>acquiring.
           rbind (case fiscalPolicy of
               None \<Rightarrow> Inr None
             | Some p \<Rightarrow> rbind (estimateFiscalizationFee gross
                 \<lparr>percentageBps = ff_percentageBps p, fiscalFixedFeeMicroRub = ff_fixedFee p\<rparr>)
                 (\<lambda>fee. Inr (Some fee))) (\<lambda>fiscal.
           Inr (db\<lparr>db_economics := db_economics db @
                 [\<lparr>ec_paymentId = paymentId, ec_gross = gross,
                   ec_paymentMethod = (case method of None \<Rightarrow> ''UNKNOWN'' | Some m \<Rightarrow> m),
                   ec_feePolicyId = map_option fp_id feePolicy,
                   ec_estimatedFee = map_option feeMicroRub acquiring,
                   ec_estimatedFeeVat = map_option vatMicroRub acquiring,
                   ec_fiscalPolicyId = map_option ff_id fiscalPolicy,
                   ec_estimatedFiscalFee = fiscal, ec_refunded = 0, ec_chargeback = 0,
                   ec_status = status\<rparr>]\<rparr>, status, True))))"

definition addRefundToEconomics :: "nat \<Rightarrow> microRub \<Rightarrow> billing_db \<Rightarrow> billing_db" where
  "addRefundToEconomics paymentId refundedAmount db =
    (case row_find ec_paymentId paymentId (db_economics db) of
       None \<Rightarrow> db
     | Some existing \<Rightarrow>
        let next = ec_refunded existing + refundedAmount;
            status = (if next > ec_gross existing \<or> refundedAmount \<le> 0
              then ''RECONCILIATION_REQUIRED''
              else if ec_status existing = ''ACTUAL'' then ''PARTIAL'' else ec_status existing)
        in db\<lparr>db_economics := row_update ec_paymentId paymentId
             (\<lambda>e. e\<lparr>ec_refunded := next, ec_status := status\<rparr>) (db_economics db)\<rparr>)"

definition addChargebackToEconomics :: "nat \<Rightarrow> microRub \<Rightarrow> billing_db \<Rightarrow> billing_db" where
  "addChargebackToEconomics paymentId amount db =
    (case row_find ec_paymentId paymentId (db_economics db) of
       None \<Rightarrow> db
     | Some existing \<Rightarrow>
        db\<lparr>db_economics := row_update ec_paymentId paymentId
          (\<lambda>e. e\<lparr>ec_chargeback := ec_chargeback existing + amount,
             ec_status := ''RECONCILIATION_REQUIRED''\<rparr>) (db_economics db)\<rparr>)"

definition attachEconomicsSafely :: "payment_row \<Rightarrow> billing_db \<Rightarrow> js_error + billing_db" where
  "attachEconomicsSafely payment db =
    rbind (ensurePaymentEconomics (pm_id payment) (pm_amount payment) (pm_provider payment)
        (pm_createdAt payment) (method_name (pm_paymentMethod payment)) db) (\<lambda>(db1, _, _). Inr db1)"

section \<open>payment-events.ts\<close>

record tbank_notification =
  tn_orderId :: string
  tn_paymentId :: string
  tn_status :: string
  tn_amount :: microRub
  tn_success :: bool
  tn_paymentMethod :: "string option"
  tn_rawProviderSource :: "string option"

text \<open>The SHA-256 of \<open>node:crypto\<close>, in hex, is the parameter \<open>hash\<close>.\<close>

definition tbankNotificationFingerprint :: "(string \<Rightarrow> string) \<Rightarrow> tbank_notification \<Rightarrow> string" where
  "tbankNotificationFingerprint hash n =
    hash (concat [tn_orderId n, '':'', tn_paymentId n, '':'', tn_status n, '':'',
      decimal_of_int (tn_amount n), '':'', if tn_success n then ''true'' else ''false''])"

definition paymentEventFromNotification ::
    "(string \<Rightarrow> string) \<Rightarrow> string \<Rightarrow> tbank_notification \<Rightarrow> payment_event" where
  "paymentEventFromNotification hash provider n =
    (let eventType = (case classifyTBankStatus (tn_status n) of
           Ev_confirmed \<Rightarrow> Payment_succeeded
         | Ev_failed \<Rightarrow> Payment_failed
         | Ev_canceled \<Rightarrow> Payment_canceled
         | Ev_refunded \<Rightarrow> Payment_refunded
         | Ev_partially_refunded \<Rightarrow> Payment_partially_refunded
         | _ \<Rightarrow> Payment_status)
     in \<lparr>ev_provider = provider, ev_providerEventId = tbankNotificationFingerprint hash n,
         ev_providerPaymentId = Some (tn_paymentId n), ev_orderId = Some (tn_orderId n),
         ev_eventType = eventType, ev_providerStatus = Some (tn_status n),
         ev_amount = Some (tn_amount n), ev_refundAmount = None,
         ev_paymentMethod = tn_paymentMethod n,
         ev_rawProviderPaymentMethod = tn_rawProviderSource n\<rparr>)"

definition moneyEventFromInput :: "payment_event \<Rightarrow> provider_money_event" where
  "moneyEventFromInput event =
    (let classified = (if truthy_str (ev_providerStatus event)
           then classifyTBankStatus (the (ev_providerStatus event)) else Ev_ignore)
     in if classified \<noteq> Ev_ignore then classified
        else (case ev_eventType event of
          Payment_succeeded \<Rightarrow> Ev_confirmed
        | Payment_failed \<Rightarrow> Ev_failed
        | Payment_canceled \<Rightarrow> Ev_canceled
        | Payment_refunded \<Rightarrow> Ev_refunded
        | Payment_partially_refunded \<Rightarrow> Ev_partially_refunded
        | _ \<Rightarrow> Ev_ignore))"

section \<open>Granting\<close>

text \<open>
  The clock readings of one call: the transaction's timestamp, which the database writes into
  \<open>createdAt\<close>, the start of the paid period, and \<open>fulfilledAt\<close>.
\<close>

record clock =
  ck_tx :: int
  ck_period :: int
  ck_fulfilled :: int

definition DAY_MS :: int where "DAY_MS = 24 * 60 * 60 * 1000"

definition grant_subscription ::
    "billing_policy \<Rightarrow> clock \<Rightarrow> string option \<Rightarrow> payment_row \<Rightarrow> checkout_snapshot \<Rightarrow> billing_db \<Rightarrow>
      js_error + billing_db \<times> nat \<times> nat option" where
  "grant_subscription policy clk correlationId payment snapshot db =
    (let planVersionId = or_else (cs_planVersionId snapshot) (pm_planVersionId payment) in
     if \<not> truthy_str planVersionId then Inl (BillingError PLAN_NOT_FOUND)
     else if active_subscription db (pm_userId payment) \<noteq> None
     then Inl (BillingError SUBSCRIPTION_ALREADY_ACTIVE)
     else
      let periodDays = (case cs_subscriptionPeriodDays snapshot of
              None \<Rightarrow> subscriptionPeriodDays policy | Some d \<Rightarrow> d);
          periodStart = ck_period clk;
          periodEnd = periodStart + periodDays * DAY_MS in
      rbind (case createSubscription (pm_userId payment) (the planVersionId) periodStart periodEnd db of
          Inl error \<Rightarrow> if isUniqueConstraintError error
            then Inl (BillingError SUBSCRIPTION_ALREADY_ACTIVE) else Inl error
        | Inr created \<Rightarrow> Inr created) (\<lambda>(db1, subscription).
      rbind (createBucket (pm_userId payment) MONTHLY (cs_providerBudgetGrant snapshot)
          (Some periodEnd) ''SUBSCRIPTION'' subscription (ck_tx clk) db1) (\<lambda>(db2, bucket).
      Inr (appendLedger (payment_entry payment (Some bucket) BUCKET_GRANTED
            (cs_providerBudgetGrant snapshot)
            [(''correlationId'', meta_opt correlationId), (''subscriptionId'', MId subscription),
             (''planVersionId'', MString (the planVersionId))]) db2,
          bucket, Some subscription))))"

definition grant_topup ::
    "billing_policy \<Rightarrow> clock \<Rightarrow> string option \<Rightarrow> payment_row \<Rightarrow> checkout_snapshot \<Rightarrow> billing_db \<Rightarrow>
      js_error + billing_db \<times> nat \<times> nat option" where
  "grant_topup policy clk correlationId payment snapshot db =
    rbind (createBucket (pm_userId payment) TOPUP (cs_providerBudgetGrant snapshot) None
        ''PAYMENT'' (pm_id payment) (ck_tx clk) db) (\<lambda>(db1, bucket).
    Inr (appendLedger (payment_entry payment (Some bucket) TOPUP_GRANTED
          (cs_providerBudgetGrant snapshot)
          [(''correlationId'', meta_opt correlationId),
           (''paidMicroRub'', MString (microRubToJson (cs_customerPaymentAmount snapshot))),
           (''ratioBps'', MString (decimal_of_int (case cs_topupRatioBps snapshot of
               None \<Rightarrow> topupProviderCostRatioBps policy | Some r \<Rightarrow> r)))]) db1,
        bucket, None))"

definition grantFromSucceededPayment ::
    "billing_policy \<Rightarrow> clock \<Rightarrow> string option \<Rightarrow> payment_row \<Rightarrow> billing_db \<Rightarrow>
      js_error + billing_db \<times> nat \<times> nat option" where
  "grantFromSucceededPayment policy clk correlationId payment db =
    rbind (parseCheckoutSnapshot (pm_checkoutSnapshot payment)) (\<lambda>snapshot.
      if cs_customerPaymentAmount snapshot \<noteq> pm_amount payment
      then Inl (BillingError PAYMENT_RECONCILIATION_REQUIRED)
      else if pm_kind payment = Kind_SUBSCRIPTION
      then grant_subscription policy clk correlationId payment snapshot db
      else grant_topup policy clk correlationId payment snapshot db)"

section \<open>Refunding\<close>

definition revoke_grant ::
    "string option \<Rightarrow> payment_row \<Rightarrow> microRub \<Rightarrow> billing_db \<Rightarrow> billing_db" where
  "revoke_grant correlationId payment revokeGrant db =
    (case pm_grantedBucketId payment of
       None \<Rightarrow> db
     | Some bucketId \<Rightarrow>
        (case row_find b_id bucketId (db_buckets db) of
           None \<Rightarrow> db
         | Some bucket \<Rightarrow>
            let unused = b_total bucket - b_spent bucket - b_reserved bucket;
                revoke = (if unused < revokeGrant then unused else revokeGrant);
                db1 = (if revoke > 0 then
                    appendLedger (payment_entry payment (Some (b_id bucket)) BUCKET_REVOKED (- revoke)
                        [(''correlationId'', meta_opt correlationId), (''reason'', MString ''refund'')])
                      (db\<lparr>db_buckets := row_update b_id (b_id bucket)
                        (\<lambda>b. b\<lparr>b_total := b_total bucket - revoke\<rparr>) (db_buckets db)\<rparr>)
                  else db)
            in if revoke < revokeGrant then
                 appendLedger (payment_entry payment (Some (b_id bucket)) ADJUSTMENT 0
                   [(''correlationId'', meta_opt correlationId),
                    (''reason'', MString ''refund_shortfall''),
                    (''requestedMicroRub'', MString (decimal_of_int revokeGrant)),
                    (''revokedMicroRub'', MString (decimal_of_int revoke))]) db1
               else db1))"

definition cancel_subscription :: "payment_row \<Rightarrow> billing_db \<Rightarrow> billing_db" where
  "cancel_subscription payment db =
    (case pm_grantedSubscriptionId payment of
       None \<Rightarrow> db
     | Some i \<Rightarrow> db\<lparr>db_subscriptions := map (\<lambda>s.
          if sb_id s = i \<and> sb_userId s = pm_userId payment \<and> sb_status s = Sub_ACTIVE
          then s\<lparr>sb_status := Sub_CANCELED\<rparr> else s) (db_subscriptions db)\<rparr>)"

definition set_status :: "nat \<Rightarrow> payment_status \<Rightarrow> string option \<Rightarrow> billing_db \<Rightarrow> billing_db" where
  "set_status pid status providerStatus db =
    updatePayment pid (\<lambda>p. p\<lparr>pm_status := status,
      pm_providerStatus := or_else providerStatus (pm_providerStatus p)\<rparr>) db"

definition applyRefundAccounting ::
    "string option \<Rightarrow> payment_row \<Rightarrow> payment_event \<Rightarrow> billing_db \<Rightarrow>
      js_error + billing_db \<times> payment_status" where
  "applyRefundAccounting correlationId payment event db =
    rbind (parseCheckoutSnapshot (pm_checkoutSnapshot payment)) (\<lambda>snapshot.
      let fullRefund = (ev_eventType event \<noteq> Payment_partially_refunded) in
      if \<not> fullRefund \<and> pm_kind payment = Kind_SUBSCRIPTION then
        Inr (set_status (pm_id payment) RECONCILIATION_REQUIRED (ev_providerStatus event)
              (appendLedger (payment_entry payment (pm_grantedBucketId payment) ADJUSTMENT 0
                [(''correlationId'', meta_opt correlationId),
                 (''reason'', MString ''unsupported_partial_subscription_refund'')]) db),
             RECONCILIATION_REQUIRED)
      else
        rbind (if \<not> fullRefund \<and> ev_refundAmount event \<noteq> None \<and>
              cs_topupRatioBps snapshot \<noteq> None \<and> cs_topupRatioBps snapshot \<noteq> Some 0
            then topupProviderBudgetMicroRub (the (ev_refundAmount event)) (the (cs_topupRatioBps snapshot))
            else Inr (cs_providerBudgetGrant snapshot)) (\<lambda>revokeGrant.
        let db1 = revoke_grant correlationId payment revokeGrant db;
            db2 = (if fullRefund then cancel_subscription payment db1 else db1);
            nextStatus = (if fullRefund then REFUNDED else PARTIALLY_REFUNDED);
            db3 = set_status (pm_id payment) nextStatus (ev_providerStatus event) db2;
            refundedAmount = (if fullRefund then pm_amount payment
              else case ev_refundAmount event of None \<Rightarrow> 0 | Some a \<Rightarrow> a)
        in Inr (addRefundToEconomics (pm_id payment) refundedAmount db3, nextStatus)))"

section \<open>processPaymentEvent\<close>

definition result_of :: "payment_row \<Rightarrow> payment_status \<Rightarrow> process_result" where
  "result_of payment status =
    \<lparr>pr_duplicate = False, pr_paymentId = pm_id payment, pr_status = status,
     pr_bucketId = pm_grantedBucketId payment, pr_subscriptionId = pm_grantedSubscriptionId payment\<rparr>"

definition result_without_grant :: "payment_row \<Rightarrow> payment_status \<Rightarrow> process_result" where
  "result_without_grant payment status =
    (result_of payment status)\<lparr>pr_bucketId := None, pr_subscriptionId := None\<rparr>"

definition process_confirmed ::
    "billing_policy \<Rightarrow> clock \<Rightarrow> string option \<Rightarrow> payment_row \<Rightarrow> payment_event \<Rightarrow> billing_db \<Rightarrow>
      js_error + billing_db \<times> process_result" where
  "process_confirmed policy clk correlationId payment event db =
    (if pm_status payment = SUCCEEDED then Inr (db, result_of payment SUCCEEDED)
     else if pm_status payment = REFUNDED \<or> pm_status payment = PARTIALLY_REFUNDED
     then Inr (db, result_of payment (pm_status payment))
     else if pm_status payment \<noteq> PENDING \<and> pm_status payment \<noteq> CREATED
     then Inl (BillingError FINANCIAL_OPERATION_FAILED)
     else
      rbind (grantFromSucceededPayment policy clk correlationId payment db)
        (\<lambda>(db1, bucketId, subscriptionId).
      let ppid = or_else (ev_providerPaymentId event) (pm_providerPaymentId payment);
          method = or_else (pm_paymentMethod payment) (ev_paymentMethod event);
          rawMethod = or_else (pm_rawProviderPaymentMethod payment) (ev_rawProviderPaymentMethod event) in
      if provider_id_taken db1 (pm_id payment) (pm_provider payment) ppid then Inl unique_violation
      else
       let db2 = updatePayment (pm_id payment) (\<lambda>p. p\<lparr>pm_status := SUCCEEDED,
             pm_providerStatus := or_else (ev_providerStatus event) (Some ''CONFIRMED''),
             pm_providerPaymentId := ppid, pm_grantedBucketId := Some bucketId,
             pm_grantedSubscriptionId := subscriptionId, pm_fulfilledAt := Some (ck_fulfilled clk),
             pm_paymentMethod := method, pm_rawProviderPaymentMethod := rawMethod\<rparr>) db1 in
       rbind (attachEconomicsSafely (payment\<lparr>pm_paymentMethod := method,
             pm_rawProviderPaymentMethod := rawMethod\<rparr>) db2) (\<lambda>db3.
       Inr (db3, (result_of payment SUCCEEDED)\<lparr>pr_bucketId := Some bucketId,
         pr_subscriptionId := subscriptionId\<rparr>))))"

definition process_status ::
    "payment_row \<Rightarrow> payment_event \<Rightarrow> provider_money_event \<Rightarrow> billing_db \<Rightarrow> billing_db \<times> process_result"
  where
  "process_status payment event moneyEvent db =
    (let currentStatus = pm_status payment;
         next = nextDomainStatus currentStatus moneyEvent;
         db1 = (if next \<noteq> None \<and> next \<noteq> Some currentStatus
             then set_status (pm_id payment) (the next) (ev_providerStatus event) db
             else if truthy_str (ev_providerStatus event) \<and> \<not> isPaidDomainStatus currentStatus \<and>
                 currentStatus \<noteq> REFUNDED \<and> currentStatus \<noteq> PARTIALLY_REFUNDED \<and>
                 currentStatus \<noteq> RECONCILIATION_REQUIRED
             then updatePayment (pm_id payment)
               (\<lambda>p. p\<lparr>pm_providerStatus := ev_providerStatus event\<rparr>) db
             else db)
     in (db1, result_without_grant payment (case next of None \<Rightarrow> currentStatus | Some s \<Rightarrow> s)))"

definition process_chargeback ::
    "string option \<Rightarrow> payment_row \<Rightarrow> payment_event \<Rightarrow> billing_db \<Rightarrow> billing_db \<times> process_result" where
  "process_chargeback correlationId payment event db =
    (let db1 = appendLedger (payment_entry payment (pm_grantedBucketId payment) ADJUSTMENT 0
           [(''correlationId'', meta_opt correlationId), (''reason'', MString ''chargeback''),
            (''providerStatus'', meta_opt (ev_providerStatus event))]) db;
         db2 = updatePayment (pm_id payment) (\<lambda>p. p\<lparr>pm_status := RECONCILIATION_REQUIRED,
            pm_providerStatus := or_else (ev_providerStatus event) (Some ''CHARGEBACK'')\<rparr>) db1;
         db3 = addChargebackToEconomics (pm_id payment) (pm_amount payment) db2
     in (db3, result_of payment RECONCILIATION_REQUIRED))"

text \<open>
  The tests of the body on the identity of the payment: the provider's payment id, when both
  sides have one, and the amount, when the event carries one.
\<close>

definition provider_id_mismatch :: "payment_row \<Rightarrow> payment_event \<Rightarrow> bool" where
  "provider_id_mismatch payment event \<longleftrightarrow>
    truthy_str (ev_providerPaymentId event) \<and> truthy_str (pm_providerPaymentId payment) \<and>
    ev_providerPaymentId event \<noteq> pm_providerPaymentId payment"

definition amount_mismatch :: "payment_row \<Rightarrow> payment_event \<Rightarrow> bool" where
  "amount_mismatch payment event \<longleftrightarrow>
    ev_amount event \<noteq> None \<and> ev_amount event \<noteq> Some (pm_amount payment)"

text \<open>What happens once the event has been logged.\<close>

definition apply_payment_event ::
    "billing_policy \<Rightarrow> clock \<Rightarrow> string option \<Rightarrow> payment_row \<Rightarrow> payment_event \<Rightarrow> billing_db \<Rightarrow>
      js_error + billing_db \<times> process_result" where
  "apply_payment_event policy clk correlationId payment event db =
    (if provider_id_mismatch payment event \<or> amount_mismatch payment event
     then Inr (set_status (pm_id payment) RECONCILIATION_REQUIRED (ev_providerStatus event) db,
       result_without_grant payment RECONCILIATION_REQUIRED)
     else let moneyEvent = moneyEventFromInput event in
       if moneyEvent = Ev_confirmed
       then process_confirmed policy clk correlationId payment event db
       else if moneyEvent = Ev_refunded \<or> moneyEvent = Ev_partially_refunded
       then rbind (applyRefundAccounting correlationId payment event db) (\<lambda>(db1, refunded).
         Inr (db1, result_of payment refunded))
       else if moneyEvent = Ev_failed \<or> moneyEvent = Ev_canceled \<or> moneyEvent = Ev_pending
       then Inr (process_status payment event moneyEvent db)
       else if ev_eventType event = Payment_chargeback
       then Inr (process_chargeback correlationId payment event db)
       else Inr (db, result_of payment (pm_status payment)))"

definition processPaymentEvent ::
    "billing_policy \<Rightarrow> clock \<Rightarrow> string option \<Rightarrow> payment_event \<Rightarrow> billing_db \<Rightarrow>
      js_error + billing_db \<times> process_result" where
  "processPaymentEvent policy clk correlationId event db =
    (case lockPaymentId db event of
       None \<Rightarrow> Inl (BillingError PAYMENT_NOT_FOUND)
     | Some paymentId \<Rightarrow>
        rbind (the_row (DbError ''P2025'' []) (row_find pm_id paymentId (db_payments db)))
          (\<lambda>payment.
        (case createPaymentEvent event paymentId db of
           Inl error \<Rightarrow>
             if isUniqueConstraintError error
             then Inr (db, (result_of payment (pm_status payment))\<lparr>pr_duplicate := True\<rparr>)
             else Inl error
         | Inr db1 \<Rightarrow> apply_payment_event policy clk correlationId payment event db1)))"

section \<open>Creating payments\<close>

record pending_input =
  pi_userId :: string
  pi_provider :: string
  pi_providerPaymentId :: "string option"
  pi_providerOrderId :: "string option"
  pi_idempotencyKey :: "string option"
  pi_kind :: payment_kind
  pi_amount :: microRub
  pi_planVersionId :: "string option"
  pi_planCode :: "string option"
  pi_pending :: "bool option"
  pi_paymentUrl :: "string option"
  pi_providerStatus :: "string option"

text \<open>\<open>status?: "CREATED" | "PENDING"\<close> is \<open>pi_pending\<close>, true for the second.\<close>

definition find_by_idempotency :: "billing_db \<Rightarrow> string \<Rightarrow> payment_kind \<Rightarrow> string \<Rightarrow> payment_row option"
  where
  "find_by_idempotency db userId kind key =
    find (\<lambda>p. pm_userId p = userId \<and> pm_kind p = kind \<and> pm_idempotencyKey p = key) (db_payments db)"

definition insertPayment :: "payment_row \<Rightarrow> billing_db \<Rightarrow> js_error + billing_db" where
  "insertPayment payment db =
    (if list_ex (\<lambda>p. pm_providerOrderId p = pm_providerOrderId payment) (db_payments db) \<or>
        provider_id_taken db (pm_id payment) (pm_provider payment) (pm_providerPaymentId payment) \<or>
        find_by_idempotency db (pm_userId payment) (pm_kind payment) (pm_idempotencyKey payment) \<noteq> None
     then Inl unique_violation
     else if pm_amount payment < 0 then Inl (DbError [] ''23514'')
     else Inr (db\<lparr>db_payments := db_payments db @ [payment], db_next := Suc (db_next db)\<rparr>))"

definition pending_row ::
    "nat \<Rightarrow> int \<Rightarrow> string \<Rightarrow> string \<Rightarrow> pending_input \<Rightarrow> checkout_snapshot \<Rightarrow> payment_row" where
  "pending_row i now uuid1 uuid2 input snapshot =
    \<lparr>pm_id = i, pm_userId = pi_userId input,
     pm_provider = pi_provider input, pm_providerPaymentId = pi_providerPaymentId input,
     pm_providerOrderId = (case pi_providerOrderId input of None \<Rightarrow> uuid1 | Some s \<Rightarrow> s),
     pm_providerStatus = pi_providerStatus input, pm_paymentUrl = pi_paymentUrl input,
     pm_kind = pi_kind input, pm_amount = cs_customerPaymentAmount snapshot,
     pm_status = (if pi_pending input = Some False then CREATED else PENDING),
     pm_planVersionId = cs_planVersionId snapshot,
     pm_topupPolicyVersionId = cs_topupPolicyVersionId snapshot,
     pm_paymentMethod = None, pm_rawProviderPaymentMethod = None,
     pm_idempotencyKey = (case pi_idempotencyKey input of None \<Rightarrow> uuid2 | Some s \<Rightarrow> s),
     pm_checkoutSnapshot = toCheckoutSnapshotJson snapshot, pm_grantedBucketId = None,
     pm_grantedSubscriptionId = None, pm_fulfilledAt = None, pm_createdAt = now\<rparr>"

text \<open>
  \<open>uuid1\<close> and \<open>uuid2\<close> are what \<open>randomUUID\<close> gives for the order id and for the
  key; \<open>nowSnapshot\<close> and \<open>now\<close> are the clock readings of the snapshot and of the row.
  After a unique violation the key is looked up once more; with no other writer in between
  that lookup has the answer of the first one, so the error is thrown.
\<close>

definition createPendingPayment ::
    "billing_policy \<Rightarrow> int \<Rightarrow> int \<Rightarrow> string \<Rightarrow> string \<Rightarrow> pending_input \<Rightarrow> billing_db \<Rightarrow>
      js_error + billing_db \<times> nat \<times> string" where
  "createPendingPayment policy nowSnapshot now uuid1 uuid2 input db =
    rbind (buildCheckoutSnapshot (db_catalog db) policy nowSnapshot (pi_kind input) (pi_amount input)
        (pi_planVersionId input) (pi_planCode input)) (\<lambda>snapshot.
    let existing = (if truthy_str (pi_idempotencyKey input)
          then find_by_idempotency db (pi_userId input) (pi_kind input) (the (pi_idempotencyKey input))
          else None) in
    (case existing of
       Some p \<Rightarrow> Inr (db, pm_id p, pm_providerOrderId p)
     | None \<Rightarrow>
        let payment = pending_row (db_next db) now uuid1 uuid2 input snapshot in
        rbind (insertPayment payment db) (\<lambda>db1.
          Inr (db1, pm_id payment, pm_providerOrderId payment))))"

definition write_checkout ::
    "string \<Rightarrow> string \<Rightarrow> string option \<Rightarrow> payment_row \<Rightarrow> payment_row" where
  "write_checkout providerPaymentId paymentUrl providerStatus p = p\<lparr>
     pm_providerPaymentId := Some providerPaymentId, pm_paymentUrl := Some paymentUrl,
     pm_providerStatus := or_else providerStatus (pm_providerStatus p), pm_status := PENDING\<rparr>"

definition attachProviderCheckout ::
    "nat \<Rightarrow> string \<Rightarrow> string \<Rightarrow> string \<Rightarrow> string option \<Rightarrow> billing_db \<Rightarrow> js_error + billing_db" where
  "attachProviderCheckout paymentId userId providerPaymentId paymentUrl providerStatus db =
    (case find (\<lambda>p. pm_id p = paymentId \<and> pm_userId p = userId) (db_payments db) of
       None \<Rightarrow> Inl (BillingError PAYMENT_NOT_FOUND)
     | Some payment \<Rightarrow>
        if provider_id_taken db paymentId (pm_provider payment) (Some providerPaymentId)
        then Inl unique_violation
        else Inr (updatePayment paymentId
          (write_checkout providerPaymentId paymentUrl providerStatus) db))"

record hosted_checkout =
  hc_providerPaymentId :: string
  hc_paymentUrl :: string
  hc_providerStatus :: "string option"

record checkout_result =
  cr_paymentId :: nat
  cr_paymentUrl :: string
  cr_initialized :: bool

text \<open>The callback \<open>initialize\<close> calls the provider: it is a parameter, and may throw.\<close>

definition initializeHostedCheckout ::
    "(payment_row \<Rightarrow> js_error + hosted_checkout) \<Rightarrow> nat \<Rightarrow> billing_db \<Rightarrow>
      js_error + billing_db \<times> checkout_result" where
  "initializeHostedCheckout initialize paymentId db =
    rbind (the_row (BillingError PAYMENT_NOT_FOUND) (row_find pm_id paymentId (db_payments db)))
      (\<lambda>payment.
    if truthy_str (pm_paymentUrl payment)
    then Inr (db, \<lparr>cr_paymentId = pm_id payment, cr_paymentUrl = the (pm_paymentUrl payment),
      cr_initialized = False\<rparr>)
    else rbind (initialize payment) (\<lambda>checkout.
      if provider_id_taken db (pm_id payment) (pm_provider payment) (Some (hc_providerPaymentId checkout))
      then Inl unique_violation
      else Inr (updatePayment (pm_id payment) (write_checkout (hc_providerPaymentId checkout)
            (hc_paymentUrl checkout) (hc_providerStatus checkout)) db,
          \<lparr>cr_paymentId = pm_id payment, cr_paymentUrl = hc_paymentUrl checkout,
           cr_initialized = True\<rparr>)))"

section \<open>Reading payments\<close>

definition getPaymentForUser :: "string \<Rightarrow> nat \<Rightarrow> billing_db \<Rightarrow> js_error + payment_row" where
  "getPaymentForUser userId paymentId db =
    the_row (BillingError PAYMENT_NOT_FOUND)
      (find (\<lambda>p. pm_id p = paymentId \<and> pm_userId p = userId) (db_payments db))"

text \<open>A negative \<open>take\<close> reads from the end in Prisma; callers pass a positive limit.\<close>

definition listPaymentsForUser :: "string \<Rightarrow> nat \<Rightarrow> billing_db \<Rightarrow> payment_row list" where
  "listPaymentsForUser userId limit db = take (min limit 100)
    (js_sort (\<lambda>a b. pm_createdAt b - pm_createdAt a)
      (filter (\<lambda>p. pm_userId p = userId) (db_payments db)))"

definition findOpenSubscriptionCheckout :: "string \<Rightarrow> string \<Rightarrow> billing_db \<Rightarrow> payment_row option" where
  "findOpenSubscriptionCheckout userId idempotencyKey db =
    find (\<lambda>p. pm_userId p = userId \<and> pm_kind p = Kind_SUBSCRIPTION \<and>
        (pm_status p = CREATED \<or> pm_status p = PENDING) \<and> pm_idempotencyKey p \<noteq> idempotencyKey)
      (db_payments db)"

definition getActiveSubscription :: "string \<Rightarrow> int \<Rightarrow> billing_db \<Rightarrow> subscription_row option" where
  "getActiveSubscription userId now db =
    (case active_subscription db userId of
       None \<Rightarrow> None
     | Some s \<Rightarrow> if sb_periodEnd s \<le> now then None else Some s)"

end
