(* ===== verification/Payment_Invariant.thy ===== *)
theory Payment_Invariant
  imports Payment_Engine Usage_Properties
begin

text \<open>
  What the payment operations of \<open>packages/billing/src/billing-engine.ts\<close> keep: the usage
  accounts (\<open>usage_ok\<close>) and the link between payments, granted buckets and the ledger
  (\<open>payments_ok\<close>). The abstract steps are a new bucket with its ledger entry, a smaller
  total with its entry, and an entry of amount zero; each branch of \<open>processPaymentEvent\<close>
  is composed of them.
\<close>

section \<open>Abstract steps on the usage tables\<close>

definition grant_bucket ::
    "usage_bucket \<Rightarrow> ledger_entry \<Rightarrow> 'a usage_db_scheme \<Rightarrow> 'a usage_db_scheme" where
  "grant_bucket b entry db = db\<lparr>db_buckets := db_buckets db @ [b], db_next := Suc (db_next db),
     db_ledger := db_ledger db @ [entry]\<rparr>"

definition shrink_bucket ::
    "nat \<Rightarrow> int \<Rightarrow> ledger_entry \<Rightarrow> 'a usage_db_scheme \<Rightarrow> 'a usage_db_scheme" where
  "shrink_bucket i x entry db = db\<lparr>db_buckets := row_update b_id i
     (\<lambda>b. b\<lparr>b_total := b_total b - x\<rparr>) (db_buckets db), db_ledger := db_ledger db @ [entry]\<rparr>"

lemma sum_list_zero: "(\<And>x. x \<in> set xs \<Longrightarrow> f x = (0::int)) \<Longrightarrow> sum_list (map f xs) = 0"
  by (induction xs) auto

lemma pool_ids_fresh:
  assumes pool: "pool_ok P db" and "db_next db \<le> i"
  shows "held_in Q (db_allocations db) i = 0" and "settled_in (db_allocations db) i = 0"
    and "ledger_balance (db_ledger db) i = 0"
proof -
  have ne: "al_bucketId a \<noteq> i" if "a \<in> set (db_allocations db)" for a
  proof -
    from pool that obtain b where "b \<in> set (db_buckets db)" "b_id b = al_bucketId a"
      by (fastforce simp: pool_ok_def list_all_iff allocation_ok_def)
    with pool assms(2) show ?thesis by (fastforce simp: pool_ok_def keys_ok_def list_all_iff)
  qed
  show "held_in Q (db_allocations db) i = 0" and "settled_in (db_allocations db) i = 0"
    using ne by (auto simp: held_in_def settled_in_def intro!: sum_list_zero)
  have "le_bucketId l \<noteq> Some i" if "l \<in> set (db_ledger db)" for l
    using pool that assms(2) by (fastforce simp: pool_ok_def keys_ok_def)
  then show "ledger_balance (db_ledger db) i = 0"
    by (auto simp: ledger_balance_def intro!: sum_list_zero)
qed

lemma grant_bucket_ok:
  assumes ok: "usage_ok db" and b: "b_id b = db_next db" "0 \<le> b_total b" "b_spent b = 0" "b_reserved b = 0"
    and l: "le_bucketId entry = Some (db_next db)" "le_amount entry = b_total b"
  shows "usage_ok (grant_bucket b entry db)" (is "usage_ok ?db")
proof -
  let ?P = "active_in (db_reservations db)"
  from ok have pool: "pool_ok ?P db" and rs: "list_all (reservation_ok db) (db_reservations db)"
    by (simp_all add: usage_ok_def)
  then have keys: "keys_ok db" by (simp add: pool_ok_def)
  note fresh = pool_ids_fresh[OF pool order_refl]
  have "db_next db \<notin> b_id ` set (db_buckets db)" using keys by (auto simp: keys_ok_def list_all_iff)
  moreover have "\<forall>l \<in> set (db_ledger db). \<forall>i. le_bucketId l = Some i \<longrightarrow> i < db_next db \<or> i = db_next db"
    using keys unfolding keys_ok_def by blast
  ultimately have "keys_ok ?db"
    using keys b(1) l(1) by (simp add: keys_ok_def grant_bucket_def less_Suc_eq list_all_less_Suc)
  moreover have "bucket_ok ?P ?db c" if "c \<in> set (db_buckets db)" for c
  proof -
    have "b_id c \<noteq> db_next db" using keys that by (auto simp: keys_ok_def list_all_iff)
    with pool that l show ?thesis
      by (auto simp: pool_ok_def list_all_iff bucket_ok_def grant_bucket_def)
  qed
  moreover have "bucket_ok ?P ?db b"
    using b l fresh by (simp add: bucket_ok_def grant_bucket_def)
  moreover have "allocation_ok db a \<Longrightarrow> allocation_ok ?db a" for a
    by (auto simp: allocation_ok_def grant_bucket_def)
  moreover have "reservation_ok ?db r = reservation_ok db r" for r
    by (simp add: reservation_ok_def grant_bucket_def)
  ultimately show ?thesis
    using pool rs by (simp add: usage_ok_def pool_ok_def list_all_iff) (simp add: grant_bucket_def)
qed

lemma shrink_bucket_ok:
  assumes ok: "usage_ok db" and b: "b \<in> set (db_buckets db)"
    and x: "x \<le> b_total b - b_spent b - b_reserved b"
    and l: "le_bucketId entry = Some (b_id b)" "le_amount entry = - x"
  shows "usage_ok (shrink_bucket (b_id b) x entry db)" (is "usage_ok ?db")
proof -
  let ?P = "active_in (db_reservations db)"
  from ok have pool: "pool_ok ?P db" and rs: "list_all (reservation_ok db) (db_reservations db)"
    by (simp_all add: usage_ok_def)
  then have keys: "keys_ok db" by (simp add: pool_ok_def)
  have "b_id b < db_next db" using keys b by (auto simp: keys_ok_def list_all_iff)
  then have "keys_ok ?db" using keys l(1) by (simp add: keys_ok_def shrink_bucket_def)
  moreover have "bucket_ok ?P ?db c" if "c \<in> set (db_buckets ?db)" for c
  proof -
    from that obtain d where d: "d \<in> set (db_buckets db)"
        "c = (if b_id d = b_id b then d\<lparr>b_total := b_total d - x\<rparr> else d)"
      by (auto simp: shrink_bucket_def set_row_update)
    have "bucket_ok ?P db d" using pool d(1) by (simp add: pool_ok_def list_all_iff)
    moreover have "d = b" if "b_id d = b_id b" using bucket_unique[OF keys b d(1) that] .
    ultimately show ?thesis
      using d(2) l x by (auto simp: bucket_ok_def shrink_bucket_def)
  qed
  moreover have "allocation_ok ?db a" if "allocation_ok db a" for a
  proof -
    have *: "(\<exists>c \<in> set (db_buckets ?db). b_id c = i \<and> b_userId c = u)"
      if "\<exists>c \<in> set (db_buckets db). b_id c = i \<and> b_userId c = u" for i u
    proof -
      from that obtain c where c: "c \<in> set (db_buckets db)" "b_id c = i" "b_userId c = u" by blast
      then show ?thesis
        by (intro bexI[of _ "if b_id c = b_id b then c\<lparr>b_total := b_total c - x\<rparr> else c"])
          (auto simp: shrink_bucket_def set_row_update)
    qed
    have "db_reservations ?db = db_reservations db" by (simp add: shrink_bucket_def)
    with that show ?thesis unfolding allocation_ok_def using * by simp blast
  qed
  moreover have "reservation_ok ?db r = reservation_ok db r" for r
    by (simp add: reservation_ok_def shrink_bucket_def)
  ultimately show ?thesis
    using pool rs by (simp add: usage_ok_def pool_ok_def list_all_iff) (simp add: shrink_bucket_def)
qed

text \<open>An entry of amount zero, for a bucket that exists or for none.\<close>

lemma neutral_entry_ok:
  assumes "usage_ok db" and "le_amount entry = 0" and "\<forall>i. le_bucketId entry = Some i \<longrightarrow> i < db_next db"
  shows "usage_ok (appendLedger entry db)"
proof -
  have "bucket_ok P (appendLedger entry db) b = bucket_ok P db b" for P b
    using assms(2) by (simp add: bucket_ok_def appendLedger_def)
  moreover have "keys_ok (appendLedger entry db)"
    using assms by (auto simp: keys_ok_def appendLedger_def usage_ok_def pool_ok_def)
  moreover have "allocation_ok (appendLedger entry db) a = allocation_ok db a" for a
    by (simp add: allocation_ok_def appendLedger_def)
  moreover have "reservation_ok (appendLedger entry db) r = reservation_ok db r" for r
    by (simp add: reservation_ok_def appendLedger_def)
  ultimately show ?thesis
    using assms(1) by (simp add: usage_ok_def pool_ok_def list_all_iff) (simp add: appendLedger_def)
qed

text \<open>The usage accounts do not see the payment tables, and survive an unused id.\<close>

lemma usage_ok_cong:
  assumes "usage_ok db" and "db_buckets db' = db_buckets db"
    and "db_reservations db' = db_reservations db" and "db_allocations db' = db_allocations db"
    and "db_ledger db' = db_ledger db" and "db_next db \<le> db_next db'"
  shows "usage_ok db'"
proof -
  have "bucket_ok P db' b = bucket_ok P db b" "allocation_ok db' a = allocation_ok db a"
    "reservation_ok db' r = reservation_ok db r" for P b a r
    using assms by (simp_all add: bucket_ok_def allocation_ok_def reservation_ok_def)
  moreover have "keys_ok db'"
    using assms by (fastforce simp: usage_ok_def pool_ok_def keys_ok_def list_all_iff)
  ultimately show ?thesis using assms by (simp add: usage_ok_def pool_ok_def list_all_iff)
qed

section \<open>What usage requests leave alone\<close>

definition usage_extends :: "'a usage_db_scheme \<Rightarrow> 'a usage_db_scheme \<Rightarrow> bool" where
  "usage_extends db db' \<longleftrightarrow> usage_db.more db' = usage_db.more db \<and> db_next db \<le> db_next db' \<and>
    (\<exists>ls. db_ledger db' = db_ledger db @ ls \<and> list_all (\<lambda>l. le_paymentId l = None) ls)"

lemma usage_extends_refl [simp]: "usage_extends db db"
  by (simp add: usage_extends_def)

lemma usage_extends_trans: "usage_extends a b \<Longrightarrow> usage_extends b c \<Longrightarrow> usage_extends a c"
  unfolding usage_extends_def by fastforce

lemma usage_extends_step:
  assumes "usage_extends a b" and "usage_db.more c = usage_db.more b" and "db_next b \<le> db_next c"
    and "db_ledger c = db_ledger b @ ls" and "list_all (\<lambda>l. le_paymentId l = None) ls"
  shows "usage_extends a c"
  using assms by (intro usage_extends_trans[OF assms(1)]) (auto simp: usage_extends_def)

lemmas entry_payment = reserve_entry_def settle_entry_def release_entry_def

lemma reserve_step_extends:
  "usage_extends a (fst st) \<Longrightarrow> reserve_step u q c rid x st = Inr st' \<Longrightarrow> usage_extends a (fst st')"
  by (auto simp: reserve_step_def Let_def appendLedger_def entry_payment
      split: prod.splits option.splits elim!: usage_extends_step)

lemma release_step_extends:
  "usage_extends a (fst st) \<Longrightarrow> release_step u rid c x st = Inr st' \<Longrightarrow> usage_extends a (fst st')"
  by (auto simp: release_step_def Let_def appendLedger_def entry_payment
      split: prod.splits option.splits elim!: usage_extends_step)

lemma extra_step_extends:
  "usage_extends a (fst st) \<Longrightarrow> extra_step rid x st = Inr st' \<Longrightarrow> usage_extends a (fst st')"
  by (auto simp: extra_step_def Let_def split: prod.splits option.splits elim!: usage_extends_step)

lemma settle_step_extends:
  "usage_extends a (fst st) \<Longrightarrow> settle_step u rid c x st = Inr st' \<Longrightarrow> usage_extends a (fst st')"
  by (auto simp: settle_step_def Let_def appendLedger_def entry_payment
      split: prod.splits option.splits if_splits elim!: usage_extends_step)

lemma fold_extends:
  assumes "fold_res f xs st = Inr st'" and "usage_extends a (fst st)"
    and "\<And>x s s'. usage_extends a (fst s) \<Longrightarrow> f x s = Inr s' \<Longrightarrow> usage_extends a (fst s')"
  shows "usage_extends a (fst st')"
  using assms by (rule fold_res_invariant[where P = "\<lambda>s. usage_extends a (fst s)"])

lemma reserveUsage_extends:
  assumes "reserveUsage u q e c now db = Inr (db', v)"
  shows "usage_extends db db'"
proof (cases "find_request u q db")
  case (Some r)
  with assms show ?thesis by (auto simp: reserveUsage_def find_request_def split: if_splits)
next
  case None
  let ?db = "db\<lparr>db_reservations := db_reservations db @ [\<lparr>rs_id = db_next db, rs_userId = u,
    rs_requestId = q, rs_estimated = e, rs_settled = 0, rs_status = ACTIVE, rs_settledAt = None\<rparr>],
    db_next := Suc (db_next db)\<rparr>"
  from None assms obtain ps st where "fold_res (reserve_step u q c (db_next db)) ps
      (?db, lockUserBuckets db u [] now) = Inr st" "fst st = db'"
    by (auto simp: reserveUsage_def find_request_def Let_def res_simps split: if_splits option.splits)
  moreover have "usage_extends db ?db" by (auto simp: usage_extends_def)
  ultimately show ?thesis using fold_extends[OF _ _ reserve_step_extends] by fastforce
qed

lemma settle_extend_extends:
  assumes "settle_extend r x now st = Inr (st', y)" and "usage_extends a (fst st)"
  shows "usage_extends a (fst st')"
proof (cases "x > rs_estimated r \<and>
    planReservationAllocations (spendableBuckets now (fst (snd st))) (x - rs_estimated r) \<noteq> None")
  case True
  then obtain ps where "planReservationAllocations (spendableBuckets now (fst (snd st)))
      (x - rs_estimated r) = Some ps" by auto
  with True assms(1) obtain s where s: "fold_res (extra_step (rs_id r)) ps st = Inr s"
      "usage_db.more (fst st') = usage_db.more (fst s)" "db_next (fst st') = db_next (fst s)"
      "db_ledger (fst st') = db_ledger (fst s)"
    by (auto simp: settle_extend_def Let_def res_simps)
  have "usage_extends a (fst s)" by (rule fold_extends[OF s(1) assms(2) extra_step_extends])
  with s show ?thesis by (simp add: usage_extends_def)
next
  case False
  with assms show ?thesis by (auto simp: settle_extend_def Let_def split: if_splits)
qed

lemma settleUsage_extends:
  assumes "settleUsage u rid x c n1 n2 n3 db = Inr (db', v)"
  shows "usage_extends db db'"
proof -
  from assms obtain r where r: "lockReservationForUser db u rid = Inr r"
    by (auto simp: settleUsage_def res_simps split: if_splits)
  show ?thesis
  proof (cases "rs_status r = ACTIVE")
    case False
    then have "db' = db"
      using assms r by (auto simp: settleUsage_def res_simps split: if_splits reservation_status.splits)
    then show ?thesis by simp
  next
    case True
    with assms r obtain bs ord db1 bs1 ord1 y an s where
        e: "settle_extend r x n2 (db, bs, ord) = Inr ((db1, bs1, ord1), y, an)"
      and f: "fold_res (settle_step u (rs_id r) c) ord1 (db1, bs1, y) = Inr s"
      and m: "usage_db.more db' = usage_db.more (fst s)" "db_next db' = db_next (fst s)"
        "db_ledger db' = db_ledger (fst s)"
      by (auto simp: settleUsage_def Let_def res_simps split: if_splits)
    have "usage_extends db db1" using settle_extend_extends[OF e, of db] by simp
    then have "usage_extends db (fst s)" using fold_extends[OF f _ settle_step_extends, of db] by simp
    with m show ?thesis by (simp add: usage_extends_def)
  qed
qed

lemma releaseUsage_extends:
  assumes "releaseUsage u rid c n1 n2 db = Inr (db', v)"
  shows "usage_extends db db'"
proof -
  from assms obtain r where r: "lockReservationForUser db u rid = Inr r"
    by (auto simp: releaseUsage_def res_simps)
  show ?thesis
  proof (cases "rs_status r = ACTIVE")
    case False
    then have "db' = db"
      using assms r by (auto simp: releaseUsage_def res_simps split: reservation_status.splits)
    then show ?thesis by simp
  next
    case True
    with assms r obtain as bs s where
        f: "fold_res (release_step u (rs_id r) c) as (db, bs) = Inr s"
      and m: "usage_db.more db' = usage_db.more (fst s)" "db_next db' = db_next (fst s)"
        "db_ledger db' = db_ledger (fst s)"
      by (auto simp: releaseUsage_def Let_def res_simps)
    have "usage_extends db (fst s)" using fold_extends[OF f _ release_step_extends, of db] by simp
    with m show ?thesis by (simp add: usage_extends_def)
  qed
qed

lemma handle_usage_extends:
  "handle_usage req db = Inr (db', v) \<Longrightarrow> usage_extends db db'"
  by (cases req) (auto simp: handle_usage_def
      dest: reserveUsage_extends settleUsage_extends releaseUsage_extends)

lemma usage_extends_tables:
  fixes db db' :: billing_db
  assumes "usage_extends db db'"
  shows "db_payments db' = db_payments db" and "db_events db' = db_events db"
    and "db_subscriptions db' = db_subscriptions db" and "db_economics db' = db_economics db"
    and "db_catalog db' = db_catalog db"
  using assms by (cases db; cases db'; simp add: usage_extends_def)+

section \<open>Payments and what they have granted\<close>

definition is_grant :: "nat \<Rightarrow> ledger_entry \<Rightarrow> bool" where
  "is_grant pid l \<longleftrightarrow> le_paymentId l = Some pid \<and> le_type l \<in> {BUCKET_GRANTED, TOPUP_GRANTED}"

definition grants :: "'a usage_db_scheme \<Rightarrow> nat \<Rightarrow> nat" where
  "grants db pid = length (filter (is_grant pid) (db_ledger db))"

text \<open>
  A payment row agrees with the ledger: it names a granted bucket exactly when the ledger has
  one grant of it, it names none while it waits for money, and the bucket is its user's.
\<close>

definition payment_ok :: "billing_db \<Rightarrow> payment_row \<Rightarrow> bool" where
  "payment_ok db p \<longleftrightarrow>
    grants db (pm_id p) = (if pm_grantedBucketId p = None then 0 else 1) \<and>
    (pm_status p \<in> {CREATED, PENDING} \<longrightarrow> pm_grantedBucketId p = None) \<and>
    (\<forall>i. pm_grantedBucketId p = Some i \<longrightarrow>
      (\<exists>b \<in> set (db_buckets db). b_id b = i \<and> b_userId b = pm_userId p))"

definition payments_ok :: "billing_db \<Rightarrow> bool" where
  "payments_ok db \<longleftrightarrow> distinct (map pm_id (db_payments db)) \<and>
    list_all (\<lambda>p. pm_id p < db_next db) (db_payments db) \<and>
    list_all (\<lambda>l. \<forall>i. le_paymentId l = Some i \<longrightarrow> i < db_next db) (db_ledger db) \<and>
    list_all (payment_ok db) (db_payments db)"

definition billing_ok :: "billing_db \<Rightarrow> bool" where
  "billing_ok db \<longleftrightarrow> usage_ok db \<and> payments_ok db"

lemma payments_okD: "payments_ok db \<Longrightarrow> p \<in> set (db_payments db) \<Longrightarrow> payment_ok db p"
  by (simp add: payments_ok_def list_all_iff)

definition owners :: "'a usage_db_scheme \<Rightarrow> (nat \<times> string) list" where
  "owners db = map (\<lambda>b. (b_id b, b_userId b)) (db_buckets db)"

lemma owners_iff:
  "(\<exists>b \<in> set (db_buckets db). b_id b = i \<and> b_userId b = u) \<longleftrightarrow> (i, u) \<in> set (owners db)"
  by (auto simp: owners_def)

lemma owners_frames [simp]:
  "owners (shrink_bucket i x e db) = owners db"
  "owners (grant_bucket b e db) = owners db @ [(b_id b, b_userId b)]"
  "owners (appendLedger e db) = owners db"
  by (simp_all add: owners_def shrink_bucket_def grant_bucket_def appendLedger_def)

text \<open>
  One transaction on the payment \<open>p\<close>: its row is rewritten by \<open>f\<close>, the ledger grows by
  entries of that payment, buckets keep their owners.
\<close>

lemma payments_ok_update:
  assumes ok: "payments_ok db" and p: "p \<in> set (db_payments db)"
    and pay: "db_payments db' = row_update pm_id (pm_id p) f (db_payments db)"
    and f: "pm_id (f p) = pm_id p" "pm_userId (f p) = pm_userId p"
    and led: "db_ledger db' = db_ledger db @ ls" "list_all (\<lambda>l. le_paymentId l = Some (pm_id p)) ls"
    and nxt: "db_next db \<le> db_next db'" and own: "set (owners db) \<subseteq> set (owners db')"
    and cnt: "length (filter (is_grant (pm_id p)) ls) + (if pm_grantedBucketId p = None then 0 else 1) =
      (if pm_grantedBucketId (f p) = None then 0 else 1)"
    and st: "pm_status (f p) \<in> {CREATED, PENDING} \<Longrightarrow> pm_grantedBucketId (f p) = None"
    and gb: "\<And>i. pm_grantedBucketId (f p) = Some i \<Longrightarrow> (i, pm_userId p) \<in> set (owners db')"
  shows "payments_ok db'"
proof -
  have dist: "distinct (map pm_id (db_payments db))" and lt: "\<forall>q \<in> set (db_payments db). pm_id q < db_next db"
    and llt: "\<forall>l \<in> set (db_ledger db). \<forall>i. le_paymentId l = Some i \<longrightarrow> i < db_next db"
    and pok: "\<forall>q \<in> set (db_payments db). payment_ok db q"
    using ok by (simp_all add: payments_ok_def list_all_iff)
  have same: "q = p" if "q \<in> set (db_payments db)" "pm_id q = pm_id p" for q
    using that p dist by (simp add: distinct_map inj_on_def)
  have rows: "q' \<in> set (db_payments db') \<longleftrightarrow>
      (q' = f p \<or> q' \<in> set (db_payments db) \<and> pm_id q' \<noteq> pm_id p)" for q'
    using p same by (auto simp: pay set_row_update)
  have ids: "map pm_id (db_payments db') = map pm_id (db_payments db)"
    using same f(1) by (auto simp: pay row_update_def)
  have g: "grants db' i = grants db i + length (filter (is_grant i) ls)" for i
    by (simp add: grants_def led(1))
  have other: "filter (is_grant i) ls = []" if "i \<noteq> pm_id p" for i
    using led(2) that by (auto simp: filter_empty_conv list_all_iff is_grant_def)
  have "payment_ok db' (f p)"
    using pok p cnt st gb by (simp add: payment_ok_def g f owners_iff)
  moreover have "payment_ok db' q" if "q \<in> set (db_payments db)" "pm_id q \<noteq> pm_id p" for q
    using pok that own by (auto simp: payment_ok_def g other owners_iff)
  ultimately have "list_all (payment_ok db') (db_payments db')" by (auto simp: list_all_iff rows)
  moreover have "pm_id q < db_next db'" if "q \<in> set (db_payments db')" for q
    using that lt p nxt f(1) by (fastforce simp: rows)
  moreover have "\<forall>i. le_paymentId l = Some i \<longrightarrow> i < db_next db'" if "l \<in> set (db_ledger db')" for l
    using that llt led lt p nxt by (fastforce simp: list_all_iff)
  ultimately show ?thesis
    using dist by (simp add: payments_ok_def ids list_all_iff)
qed

text \<open>A usage request keeps it, and so does a new payment that has granted nothing.\<close>

lemma payments_ok_usage:
  fixes db db' :: billing_db
  assumes ok: "payments_ok db" and ext: "usage_extends db db'" and own: "set (owners db) \<subseteq> set (owners db')"
  shows "payments_ok db'"
proof -
  from ext obtain ls where ls: "db_ledger db' = db_ledger db @ ls"
      "list_all (\<lambda>l. le_paymentId l = None) ls" and nxt: "db_next db \<le> db_next db'"
    by (auto simp: usage_extends_def)
  have "filter (is_grant i) ls = []" for i
    using ls(2) by (auto simp: filter_empty_conv list_all_iff is_grant_def)
  then have "grants db' i = grants db i" for i by (simp add: grants_def ls(1))
  then have "payment_ok db q \<Longrightarrow> payment_ok db' q" for q
    using own by (auto simp: payment_ok_def owners_iff)
  with ok ls nxt show ?thesis
    by (fastforce simp: payments_ok_def usage_extends_tables[OF ext] list_all_iff)
qed

lemma payments_ok_new:
  assumes ok: "payments_ok db" and p: "pm_id p = db_next db" "pm_grantedBucketId p = None"
    and pay: "db_payments db' = db_payments db @ [p]" and led: "db_ledger db' = db_ledger db"
    and nxt: "db_next db' = Suc (db_next db)" and own: "owners db' = owners db"
  shows "payments_ok db'"
proof -
  have g: "grants db' i = grants db i" for i by (simp add: grants_def led)
  have "filter (is_grant (pm_id p)) (db_ledger db) = []"
    using ok p(1) by (fastforce simp: filter_empty_conv payments_ok_def list_all_iff is_grant_def)
  then have "payment_ok db' p" by (simp add: payment_ok_def g p(2)) (simp add: grants_def)
  moreover have "payment_ok db q \<Longrightarrow> payment_ok db' q" for q
    by (auto simp: payment_ok_def g owners_iff own)
  moreover have "db_next db \<notin> pm_id ` set (db_payments db)"
    using ok by (auto simp: payments_ok_def list_all_iff)
  ultimately show ?thesis
    using ok p(1) nxt by (fastforce simp: payments_ok_def pay led list_all_iff)
qed

section \<open>The branches of processPaymentEvent\<close>

text \<open>A grant: one new bucket of the snapshot's size for the payer, one ledger entry.\<close>

lemma createBucket_Inr:
  "createBucket u t x e st si now db = Inr (db', i) \<longleftrightarrow>
    0 \<le> x \<and> \<not> list_ex (\<lambda>b. b_sourceType b = st \<and> b_sourceId b = si) (db_buckets db) \<and>
    i = db_next db \<and>
    db' = db\<lparr>db_buckets := db_buckets db @ [\<lparr>b_id = db_next db, b_userId = u, b_type = t, b_total = x,
      b_spent = 0, b_reserved = 0, b_expiresAt = e, b_sourceType = st, b_sourceId = si,
      b_createdAt = now\<rparr>], db_next := Suc (db_next db)\<rparr>"
  by (auto simp: createBucket_def)

definition grant_shape ::
    "payment_row \<Rightarrow> checkout_snapshot \<Rightarrow> usage_bucket \<Rightarrow> ledger_entry \<Rightarrow> bool" where
  "grant_shape p s b l \<longleftrightarrow> b_userId b = pm_userId p \<and> b_total b = cs_providerBudgetGrant s \<and>
    0 \<le> b_total b \<and> b_spent b = 0 \<and> b_reserved b = 0 \<and>
    b_type b = (if pm_kind p = Kind_SUBSCRIPTION then MONTHLY else TOPUP) \<and>
    (pm_kind p = Kind_TOPUP \<longrightarrow> b_expiresAt b = None) \<and>
    le_bucketId l = Some (b_id b) \<and> le_amount l = b_total b \<and> le_paymentId l = Some (pm_id p) \<and>
    is_grant (pm_id p) l"

lemma grant_success:
  assumes "grantFromSucceededPayment policy clk c p db = Inr (db1, bid, sid)"
  obtains s b l n subs where "parseCheckoutSnapshot (pm_checkoutSnapshot p) = Inr s"
    "cs_customerPaymentAmount s = pm_amount p" "grant_shape p s b l" "b_id b = n" "bid = n"
    "db_next db \<le> n"
    "db1 = grant_bucket b l (db\<lparr>db_subscriptions := subs, db_next := n\<rparr>)"
    "pm_kind p = Kind_TOPUP \<longrightarrow> subs = db_subscriptions db"
proof -
  from assms obtain s where s: "parseCheckoutSnapshot (pm_checkoutSnapshot p) = Inr s"
      "cs_customerPaymentAmount s = pm_amount p"
    by (auto simp: grantFromSucceededPayment_def res_simps split: if_splits)
  show ?thesis
  proof (cases "pm_kind p")
    case Kind_SUBSCRIPTION
    with assms s have "grant_subscription policy clk c p s db = Inr (db1, bid, sid)"
      by (simp add: grantFromSucceededPayment_def)
    then show ?thesis
      using Kind_SUBSCRIPTION s
      by (intro that[of s "last (db_buckets db1)" "last (db_ledger db1)" "Suc (db_next db)"
            "db_subscriptions db1"])
        (auto simp: grant_subscription_def Let_def res_simps createBucket_Inr createSubscription_def
          appendLedger_def payment_entry_def grant_shape_def is_grant_def grant_bucket_def
          split: if_splits sum.splits)
  next
    case Kind_TOPUP
    with assms s have "grant_topup policy clk c p s db = Inr (db1, bid, sid)"
      by (simp add: grantFromSucceededPayment_def)
    then show ?thesis
      using Kind_TOPUP s
      by (intro that[of s "last (db_buckets db1)" "last (db_ledger db1)" "db_next db"
            "db_subscriptions db1"])
        (auto simp: grant_topup_def res_simps createBucket_Inr appendLedger_def payment_entry_def
          grant_shape_def is_grant_def grant_bucket_def)
  qed
qed

text \<open>A transaction on one payment whose ledger entries grant nothing.\<close>

definition quiet_change :: "nat \<Rightarrow> billing_db \<Rightarrow> billing_db \<Rightarrow> bool" where
  "quiet_change pid db db' \<longleftrightarrow> db_payments db' = db_payments db \<and> db_events db' = db_events db \<and>
    db_next db' = db_next db \<and> owners db' = owners db \<and>
    (\<exists>ls. db_ledger db' = db_ledger db @ ls \<and>
      list_all (\<lambda>l. le_paymentId l = Some pid \<and> \<not> is_grant pid l) ls)"

lemma quiet_change_refl: "quiet_change pid db db"
  by (simp add: quiet_change_def)

lemma quiet_change_trans: "quiet_change pid a b \<Longrightarrow> quiet_change pid b c \<Longrightarrow> quiet_change pid a c"
  unfolding quiet_change_def by fastforce

lemma quiet_entry:
  "le_paymentId l = Some pid \<Longrightarrow> \<not> is_grant pid l \<Longrightarrow> quiet_change pid db (appendLedger l db)"
  by (simp add: quiet_change_def appendLedger_def owners_def)

lemma quiet_payment_entry:
  "t \<notin> {BUCKET_GRANTED, TOPUP_GRANTED} \<Longrightarrow>
    quiet_change (pm_id p) db (appendLedger (payment_entry p b t x m) db)"
  by (rule quiet_entry) (auto simp: payment_entry_def is_grant_def)

lemma payments_ok_quiet:
  assumes "payments_ok db" and "p \<in> set (db_payments db)" and "quiet_change (pm_id p) db db1"
    and pay: "db_payments db' = row_update pm_id (pm_id p) f (db_payments db1)"
    and same: "db_ledger db' = db_ledger db1" "db_next db' = db_next db1" "owners db' = owners db1"
    and f: "pm_id (f p) = pm_id p" "pm_userId (f p) = pm_userId p"
      "pm_grantedBucketId (f p) = pm_grantedBucketId p"
    and st: "pm_status (f p) \<in> {CREATED, PENDING} \<Longrightarrow> pm_grantedBucketId p = None"
  shows "payments_ok db'"
proof -
  from assms(3) obtain ls where ls: "db_ledger db1 = db_ledger db @ ls"
      "list_all (\<lambda>l. le_paymentId l = Some (pm_id p) \<and> \<not> is_grant (pm_id p) l) ls"
    and q: "db_payments db1 = db_payments db" "db_next db1 = db_next db" "owners db1 = owners db"
    by (auto simp: quiet_change_def)
  have e: "filter (is_grant (pm_id p)) ls = []" using ls(2) by (auto simp: filter_empty_conv list_all_iff)
  have all: "list_all (\<lambda>l. le_paymentId l = Some (pm_id p)) ls" using ls(2) by (simp add: list_all_iff)
  have own: "(i, pm_userId p) \<in> set (owners db')" if "pm_grantedBucketId (f p) = Some i" for i
    using assms(1,2) that f(3)
    by (auto simp: owners_iff q same payment_ok_def dest: payments_okD)
  show ?thesis
    by (rule payments_ok_update[where f = f and ls = ls, OF assms(1,2)])
      (use pay ls q same f e st all own in auto)
qed

lemma quiet_payments_ok:
  assumes "payments_ok db" and "p \<in> set (db_payments db)" and "quiet_change (pm_id p) db db'"
  shows "payments_ok db'"
proof -
  have "row_update pm_id (pm_id p) (\<lambda>q. q) (db_payments db') = db_payments db'"
    by (simp add: row_update_def)
  moreover have "pm_status p \<in> {CREATED, PENDING} \<Longrightarrow> pm_grantedBucketId p = None"
    using payments_okD[OF assms(1,2)] by (simp add: payment_ok_def)
  ultimately show ?thesis
    using payments_ok_quiet[OF assms, of db' "\<lambda>q. q"] by simp
qed

text \<open>The ids a payment row names are ids that were given.\<close>

lemma granted_id_less:
  assumes "billing_ok db" and "p \<in> set (db_payments db)" and "pm_grantedBucketId p = Some i"
  shows "i < db_next db"
proof -
  from assms payments_okD[of db p] obtain b where "b \<in> set (db_buckets db)" "b_id b = i"
    by (auto simp: billing_ok_def payment_ok_def)
  with assms(1) show ?thesis by (auto simp: billing_ok_def usage_ok_def pool_ok_def keys_ok_def list_all_iff)
qed

lemma usage_ok_tables [simp]:
  fixes db :: billing_db
  shows "usage_ok (db\<lparr>db_payments := x\<rparr>) = usage_ok db"
    and "usage_ok (db\<lparr>db_economics := e\<rparr>) = usage_ok db"
    and "usage_ok (db\<lparr>db_events := v\<rparr>) = usage_ok db"
    and "usage_ok (db\<lparr>db_subscriptions := s\<rparr>) = usage_ok db"
  by (auto elim!: usage_ok_cong)

lemma updatePayment_frames [simp]:
  "db_buckets (updatePayment i f db) = db_buckets db"
  "db_ledger (updatePayment i f db) = db_ledger db"
  "db_next (updatePayment i f db) = db_next db"
  "owners (updatePayment i f db) = owners db"
  "db_events (updatePayment i f db) = db_events db"
  "db_economics (updatePayment i f db) = db_economics db"
  "db_payments (updatePayment i f db) = row_update pm_id i f (db_payments db)"
  "usage_ok (updatePayment i f db) = usage_ok db"
  by (simp_all add: updatePayment_def owners_def)

lemma economics_frames [simp]:
  "db_buckets (addRefundToEconomics i x db) = db_buckets db"
  "db_ledger (addRefundToEconomics i x db) = db_ledger db"
  "db_next (addRefundToEconomics i x db) = db_next db"
  "owners (addRefundToEconomics i x db) = owners db"
  "db_events (addRefundToEconomics i x db) = db_events db"
  "db_payments (addRefundToEconomics i x db) = db_payments db"
  "usage_ok (addRefundToEconomics i x db) = usage_ok db"
  "db_buckets (addChargebackToEconomics i x db) = db_buckets db"
  "db_ledger (addChargebackToEconomics i x db) = db_ledger db"
  "db_next (addChargebackToEconomics i x db) = db_next db"
  "owners (addChargebackToEconomics i x db) = owners db"
  "db_events (addChargebackToEconomics i x db) = db_events db"
  "db_payments (addChargebackToEconomics i x db) = db_payments db"
  "usage_ok (addChargebackToEconomics i x db) = usage_ok db"
  by (simp_all add: addRefundToEconomics_def addChargebackToEconomics_def Let_def owners_def
      split: option.splits)

lemma subscription_frames [simp]:
  "db_buckets (cancel_subscription p db) = db_buckets db"
  "db_ledger (cancel_subscription p db) = db_ledger db"
  "db_next (cancel_subscription p db) = db_next db"
  "owners (cancel_subscription p db) = owners db"
  "db_events (cancel_subscription p db) = db_events db"
  "db_payments (cancel_subscription p db) = db_payments db"
  "usage_ok (cancel_subscription p db) = usage_ok db"
  by (simp_all add: cancel_subscription_def owners_def split: option.splits)

lemma attach_success:
  assumes "attachEconomicsSafely p db = Inr db'"
  obtains e where "db' = db\<lparr>db_economics := e\<rparr>"
proof -
  from assms obtain st cr where
    "ensurePaymentEconomics (pm_id p) (pm_amount p) (pm_provider p) (pm_createdAt p)
      (method_name (pm_paymentMethod p)) db = Inr (db', st, cr)"
    by (auto simp: attachEconomicsSafely_def res_simps)
  then have "\<exists>e. db' = db\<lparr>db_economics := e\<rparr>"
    unfolding ensurePaymentEconomics_def
    by (cases "row_find ec_paymentId (pm_id p) (db_economics db)")
      (auto simp: Let_def res_simps intro: exI[of _ "db_economics db"])
  with that show ?thesis by blast
qed

lemma revoke_grant_quiet: "quiet_change (pm_id p) db (revoke_grant c p x db)"
proof -
  have sh: "quiet_change (pm_id p) db (appendLedger (payment_entry p b t y m)
      (db\<lparr>db_buckets := row_update b_id i (\<lambda>r. r\<lparr>b_total := z\<rparr>) (db_buckets db)\<rparr>))"
    if "t \<notin> {BUCKET_GRANTED, TOPUP_GRANTED}" for db b t y m i z
    using that by (auto simp: quiet_change_def appendLedger_def owners_def payment_entry_def is_grant_def)
  show ?thesis
    unfolding revoke_grant_def Let_def
    by (auto split: option.splits intro: quiet_change_refl sh quiet_payment_entry
        intro!: quiet_change_trans[OF sh quiet_payment_entry])
qed

text \<open>What is taken from the granted bucket: the wanted amount, or what is free if less.\<close>

definition revoked :: "usage_bucket \<Rightarrow> microRub \<Rightarrow> microRub" where
  "revoked b x = (let r = min (b_total b - b_spent b - b_reserved b) x in if 0 < r then r else 0)"

lemma revoke_grant_buckets:
  "db_buckets (revoke_grant c p x db) = (case pm_grantedBucketId p of
      None \<Rightarrow> db_buckets db
    | Some i \<Rightarrow> (case row_find b_id i (db_buckets db) of
        None \<Rightarrow> db_buckets db
      | Some b \<Rightarrow> row_update b_id i (\<lambda>r. r\<lparr>b_total := b_total b - revoked b x\<rparr>) (db_buckets db)))"
  if keys: "distinct (map b_id (db_buckets db))"
proof -
  have same: "row_update b_id i (\<lambda>r. r\<lparr>b_total := b_total b\<rparr>) (db_buckets db) = db_buckets db"
    if "row_find b_id i (db_buckets db) = Some b" for i b
  proof -
    from row_find_Some[OF that] have b: "b \<in> set (db_buckets db)" "b_id b = i" by auto
    have "r = b" if "r \<in> set (db_buckets db)" "b_id r = i" for r
      using that b keys by (simp add: distinct_map inj_on_def)
    then show ?thesis by (auto simp: row_update_def intro!: map_idI)
  qed
  show ?thesis
    by (auto simp: revoke_grant_def Let_def revoked_def appendLedger_def same min_def
        split: option.splits dest: row_find_Some)
qed

lemma revoke_grant_ok:
  assumes ok: "billing_ok db" and p: "p \<in> set (db_payments db)"
  shows "usage_ok (revoke_grant c p x db)"
proof (cases "pm_grantedBucketId p")
  case None
  with ok show ?thesis by (simp add: revoke_grant_def billing_ok_def)
next
  case (Some i)
  show ?thesis
  proof (cases "row_find b_id i (db_buckets db)")
    case None
    with Some ok show ?thesis by (simp add: revoke_grant_def billing_ok_def)
  next
    case bk: (Some b)
    from row_find_Some[OF bk] have b: "b \<in> set (db_buckets db)" "b_id b = i" by auto
    define r where "r = (if b_total b - b_spent b - b_reserved b < x
      then b_total b - b_spent b - b_reserved b else x)"
    let ?e = "payment_entry p (Some i) BUCKET_REVOKED (- r)
      [(''correlationId'', meta_opt c), (''reason'', MString ''refund'')]"
    let ?db = "appendLedger ?e (db\<lparr>db_buckets := row_update b_id i
      (\<lambda>d. d\<lparr>b_total := b_total b - r\<rparr>) (db_buckets db)\<rparr>)"
    from ok have uok: "usage_ok db" by (simp add: billing_ok_def)
    then have keys: "keys_ok db" by (simp add: usage_ok_def pool_ok_def)
    have i: "i < db_next db" by (rule granted_id_less[OF ok p Some])
    have "row_update b_id i (\<lambda>d. d\<lparr>b_total := b_total b - r\<rparr>) (db_buckets db) =
        row_update b_id i (\<lambda>d. d\<lparr>b_total := b_total d - r\<rparr>) (db_buckets db)"
      using bucket_unique[OF keys b(1)] b(2) by (intro row_update_cong) auto
    then have "?db = shrink_bucket (b_id b) r ?e db"
      by (simp add: shrink_bucket_def appendLedger_def b(2))
    moreover have "usage_ok (shrink_bucket (b_id b) r ?e db)"
      by (rule shrink_bucket_ok[OF uok b(1)]) (simp_all add: payment_entry_def b(2) r_def)
    ultimately have sh: "usage_ok ?db" by simp
    have neutral: "usage_ok (appendLedger (payment_entry p (Some i) ADJUSTMENT 0 m) d)"
      if "usage_ok d" "db_next d = db_next db" for d m
      by (rule neutral_entry_ok) (use that i in \<open>simp_all add: payment_entry_def\<close>)
    have "db_next ?db = db_next db" by (simp add: appendLedger_def)
    note more = neutral[OF sh this] neutral[OF uok refl]
    show ?thesis
      using sh uok more
      by (simp only: revoke_grant_def Some bk Let_def b(2) r_def[symmetric] option.case split: if_split)
        simp
  qed
qed

lemma set_status_frames [simp]:
  "db_buckets (set_status i s v db) = db_buckets db"
  "db_ledger (set_status i s v db) = db_ledger db"
  "db_next (set_status i s v db) = db_next db"
  "owners (set_status i s v db) = owners db"
  "db_events (set_status i s v db) = db_events db"
  "usage_ok (set_status i s v db) = usage_ok db"
  by (simp_all add: set_status_def)

lemma set_status_payments_ok:
  assumes "payments_ok db" and "p \<in> set (db_payments db)" and "quiet_change (pm_id p) db db1"
    and "s \<in> {CREATED, PENDING} \<Longrightarrow> pm_grantedBucketId p = None"
  shows "payments_ok (set_status (pm_id p) s v db1)"
  by (rule payments_ok_quiet[where f = "\<lambda>q. q\<lparr>pm_status := s,
        pm_providerStatus := or_else v (pm_providerStatus q)\<rparr>", OF assms(1-3)])
    (use assms(4) in \<open>auto simp: set_status_def\<close>)

lemma applyRefund_success:
  assumes "applyRefundAccounting c p ev db = Inr (db', st)"
  obtains (unsupported) e where "st = RECONCILIATION_REQUIRED"
      "ev_eventType ev = Payment_partially_refunded" "pm_kind p = Kind_SUBSCRIPTION"
      "e = payment_entry p (pm_grantedBucketId p) ADJUSTMENT 0
        [(''correlationId'', meta_opt c), (''reason'', MString ''unsupported_partial_subscription_refund'')]"
      "db' = set_status (pm_id p) st (ev_providerStatus ev) (appendLedger e db)"
  | (revoked) s x db1 y where "parseCheckoutSnapshot (pm_checkoutSnapshot p) = Inr s"
      "st = (if ev_eventType ev = Payment_partially_refunded then PARTIALLY_REFUNDED else REFUNDED)"
      "ev_eventType ev \<noteq> Payment_partially_refunded \<or> ev_refundAmount ev = None \<Longrightarrow>
        x = cs_providerBudgetGrant s"
      "db1 = revoke_grant c p x db"
      "db' = addRefundToEconomics (pm_id p) y (set_status (pm_id p) st (ev_providerStatus ev)
        (if ev_eventType ev = Payment_partially_refunded then db1 else cancel_subscription p db1))"
      "y = (if ev_eventType ev = Payment_partially_refunded
        then (case ev_refundAmount ev of None \<Rightarrow> 0 | Some a \<Rightarrow> a) else pm_amount p)"
  using assms
  by (auto simp: applyRefundAccounting_def Let_def res_simps split: if_splits)

lemma payment_status_waits:
  "payments_ok db \<Longrightarrow> p \<in> set (db_payments db) \<Longrightarrow> pm_status p \<in> {CREATED, PENDING} \<Longrightarrow>
    pm_grantedBucketId p = None"
  by (drule (1) payments_okD) (simp add: payment_ok_def)

lemma payments_ok_cong:
  "payments_ok db \<Longrightarrow> db_payments db' = db_payments db \<Longrightarrow> db_ledger db' = db_ledger db \<Longrightarrow>
    db_next db' = db_next db \<Longrightarrow> owners db' = owners db \<Longrightarrow> payments_ok db'"
  by (simp add: payments_ok_def payment_ok_def[abs_def] grants_def owners_iff)

lemma applyRefund_ok:
  assumes ok: "billing_ok db" and p: "p \<in> set (db_payments db)"
    and r: "applyRefundAccounting c p ev db = Inr (db', st)"
  shows "billing_ok db'"
  using r
proof (cases rule: applyRefund_success)
  case (unsupported e)
  have "usage_ok (appendLedger e db)"
    using ok granted_id_less[OF ok p]
    by (intro neutral_entry_ok) (auto simp: unsupported(4) payment_entry_def billing_ok_def)
  moreover have "payments_ok db'"
    using ok p unfolding unsupported(4,5)
    by (intro set_status_payments_ok) (auto simp: billing_ok_def unsupported(1) intro: quiet_payment_entry)
  ultimately show ?thesis by (simp add: billing_ok_def unsupported(5))
next
  case (revoked s x db1 y)
  let ?db2 = "if ev_eventType ev = Payment_partially_refunded then db1 else cancel_subscription p db1"
  have q: "quiet_change (pm_id p) db ?db2"
    using revoke_grant_quiet[of p db c x] by (auto simp: revoked(4) quiet_change_def)
  have "payments_ok (set_status (pm_id p) st (ev_providerStatus ev) ?db2)"
    using ok p q by (intro set_status_payments_ok) (auto simp: billing_ok_def revoked(2) split: if_splits)
  then have "payments_ok db'"
    by (rule payments_ok_cong) (simp_all add: revoked(5))
  moreover have "usage_ok db'"
    using revoke_grant_ok[OF ok p, of c x] by (simp add: revoked(4,5))
  ultimately show ?thesis by (simp add: billing_ok_def)
qed

lemma process_status_ok:
  assumes ok: "billing_ok db" and p: "p \<in> set (db_payments db)"
  shows "billing_ok (fst (process_status p ev m db))"
proof -
  let ?n = "nextDomainStatus (pm_status p) m"
  have st: "?n = Some s \<Longrightarrow> s \<in> {CREATED, PENDING} \<Longrightarrow> pm_grantedBucketId p = None" for s
    using payment_status_waits[OF _ p] ok
    by (auto simp: nextDomainStatus_def billing_ok_def split: provider_money_event.splits if_splits)
  have pok: "payments_ok db" using ok by (simp add: billing_ok_def)
  have "payments_ok (set_status (pm_id p) s v db)" if "?n = Some s" for s v
    by (rule set_status_payments_ok[OF pok p quiet_change_refl]) (rule st[OF that])
  moreover have "payments_ok (updatePayment (pm_id p) (\<lambda>q. q\<lparr>pm_providerStatus := v\<rparr>) db)" for v
    by (rule payments_ok_quiet[where f = "\<lambda>q. q\<lparr>pm_providerStatus := v\<rparr>", OF pok p quiet_change_refl])
      (use payment_status_waits[OF pok p] in auto)
  ultimately show ?thesis
    using ok by (auto simp: process_status_def Let_def billing_ok_def)
qed

lemma process_chargeback_ok:
  assumes ok: "billing_ok db" and p: "p \<in> set (db_payments db)"
  shows "billing_ok (fst (process_chargeback c p ev db))"
proof -
  let ?m = "[(''correlationId'', meta_opt c), (''reason'', MString ''chargeback''),
    (''providerStatus'', meta_opt (ev_providerStatus ev))]"
  let ?db1 = "appendLedger (payment_entry p (pm_grantedBucketId p) ADJUSTMENT 0 ?m) db"
  let ?f = "\<lambda>p. p\<lparr>pm_status := RECONCILIATION_REQUIRED,
    pm_providerStatus := or_else (ev_providerStatus ev) (Some ''CHARGEBACK'')\<rparr>"
  have "usage_ok ?db1"
    using ok granted_id_less[OF ok p]
    by (intro neutral_entry_ok) (auto simp: payment_entry_def billing_ok_def)
  moreover have "payments_ok (updatePayment (pm_id p) ?f ?db1)"
    by (rule payments_ok_quiet[where f = ?f, OF _ p quiet_payment_entry])
      (use ok in \<open>auto simp: billing_ok_def\<close>)
  then have "payments_ok (addChargebackToEconomics (pm_id p) (pm_amount p) (updatePayment (pm_id p) ?f ?db1))"
    by (rule payments_ok_cong) simp_all
  ultimately show ?thesis by (simp add: process_chargeback_def Let_def billing_ok_def)
qed

lemma attach_frames:
  assumes "attachEconomicsSafely p db = Inr db'"
  shows "db_buckets db' = db_buckets db" and "db_ledger db' = db_ledger db" and "db_next db' = db_next db"
    and "owners db' = owners db" and "db_events db' = db_events db" and "db_payments db' = db_payments db"
    and "usage_ok db' = usage_ok db" and "db_subscriptions db' = db_subscriptions db"
  using assms by (auto elim!: attach_success simp: owners_def)

lemma confirmed_success:
  assumes "process_confirmed policy clk c p ev db = Inr (db', r)"
  obtains (already) "pm_status p \<in> {SUCCEEDED, REFUNDED, PARTIALLY_REFUNDED}" "db' = db"
      "r = result_of p (pm_status p)"
  | (granted) db1 bid sid f q db2 where "pm_status p \<in> {CREATED, PENDING}"
      "grantFromSucceededPayment policy clk c p db = Inr (db1, bid, sid)"
      "db2 = updatePayment (pm_id p) f db1"
      "\<And>x. pm_id (f x) = pm_id x \<and> pm_userId (f x) = pm_userId x \<and> pm_status (f x) = SUCCEEDED \<and>
        pm_grantedBucketId (f x) = Some bid \<and> pm_grantedSubscriptionId (f x) = sid"
      "attachEconomicsSafely q db2 = Inr db'"
      "r = (result_of p SUCCEEDED)\<lparr>pr_bucketId := Some bid, pr_subscriptionId := sid\<rparr>"
proof (cases "pm_status p \<in> {CREATED, PENDING}")
  case False
  with assms show ?thesis
    by (intro already) (auto simp: process_confirmed_def split: if_splits)
next
  case True
  with assms obtain db1 bid sid where g: "grantFromSucceededPayment policy clk c p db = Inr (db1, bid, sid)"
    by (auto simp: process_confirmed_def res_simps split: if_splits)
  let ?f = "\<lambda>x. x\<lparr>pm_status := SUCCEEDED,
    pm_providerStatus := or_else (ev_providerStatus ev) (Some ''CONFIRMED''),
    pm_providerPaymentId := or_else (ev_providerPaymentId ev) (pm_providerPaymentId p),
    pm_grantedBucketId := Some bid, pm_grantedSubscriptionId := sid,
    pm_fulfilledAt := Some (ck_fulfilled clk),
    pm_paymentMethod := or_else (pm_paymentMethod p) (ev_paymentMethod ev),
    pm_rawProviderPaymentMethod := or_else (pm_rawProviderPaymentMethod p)
      (ev_rawProviderPaymentMethod ev)\<rparr>"
  let ?q = "p\<lparr>pm_paymentMethod := or_else (pm_paymentMethod p) (ev_paymentMethod ev),
    pm_rawProviderPaymentMethod := or_else (pm_rawProviderPaymentMethod p)
      (ev_rawProviderPaymentMethod ev)\<rparr>"
  have "attachEconomicsSafely ?q (updatePayment (pm_id p) ?f db1) = Inr db'"
    and "r = (result_of p SUCCEEDED)\<lparr>pr_bucketId := Some bid, pr_subscriptionId := sid\<rparr>"
    using assms True g by (auto simp: process_confirmed_def res_simps Let_def split: if_splits)
  then show ?thesis by (intro granted[where f = ?f and q = ?q, OF True g refl]) simp_all
qed

lemma process_confirmed_ok:
  assumes ok: "billing_ok db" and p: "p \<in> set (db_payments db)"
    and r: "process_confirmed policy clk c p ev db = Inr (db', r)"
  shows "billing_ok db'"
  using r
proof (cases rule: confirmed_success)
  case already
  with ok show ?thesis by simp
next
  case (granted db1 bid sid f q db2)
  obtain s b l n subs where g: "grant_shape p s b l" "b_id b = n" "bid = n" "db_next db \<le> n"
      "db1 = grant_bucket b l (db\<lparr>db_subscriptions := subs, db_next := n\<rparr>)"
    by (rule grant_success[OF granted(2)])
  let ?db0 = "db\<lparr>db_subscriptions := subs, db_next := n\<rparr>"
  have pok: "payments_ok db" and uok: "usage_ok db" using ok by (simp_all add: billing_ok_def)
  have "usage_ok ?db0" by (rule usage_ok_cong[OF uok]) (use g(4) in simp_all)
  then have u: "usage_ok db1"
    unfolding g(5) by (rule grant_bucket_ok) (use g(1,2) in \<open>simp_all add: grant_shape_def\<close>)
  note att = attach_frames[OF granted(5)]
  have none: "pm_grantedBucketId p = None" by (rule payment_status_waits[OF pok p granted(1)])
  have "payments_ok db2"
    by (rule payments_ok_update[where f = f and ls = "[l]", OF pok p])
      (use g granted none in \<open>auto simp: grant_shape_def grant_bucket_def owners_def\<close>)
  then have "payments_ok db'" by (rule payments_ok_cong) (simp_all add: att)
  with u show ?thesis by (simp add: billing_ok_def att granted(3))
qed

end
