(* ===== verification/Payment_Properties.thy ===== *)
theory Payment_Properties
  imports Payment_Invariant
begin

text \<open>
  The promises of the payment operations of \<open>packages/billing/src/billing-engine.ts\<close>: an
  event is applied once, money is granted at most once and only for a confirmed payment of the
  right amount, a refund takes back what is unused and no more. Provider events, usage requests
  and new payments form one \<open>transactional\<close> handler, interpreted for the invariant
  \<open>billing_ok\<close> and for "this event has been logged".
\<close>

section \<open>Requests\<close>

datatype billing_request =
    Provider_event billing_policy clock "string option" payment_event
  | Usage usage_request
  | New_payment billing_policy int int string string pending_input

definition forget :: "'e + 's \<times> 'r \<Rightarrow> 'e + 's \<times> unit" where
  "forget m = rbind m (\<lambda>(s, _). Inr (s, ()))"

lemma forget_Inr [simp]: "forget m = Inr (s, u) \<longleftrightarrow> (\<exists>v. m = Inr (s, v))"
  by (auto simp: forget_def rbind_eq_Inr)

definition handle_billing :: "billing_request \<Rightarrow> billing_db \<Rightarrow> js_error + billing_db \<times> unit" where
  "handle_billing req db = (case req of
     Provider_event policy clk c ev \<Rightarrow> forget (processPaymentEvent policy clk c ev db)
   | Usage u \<Rightarrow> forget (handle_usage u db)
   | New_payment policy n1 n2 u1 u2 input \<Rightarrow> forget (createPendingPayment policy n1 n2 u1 u2 input db))"

definition event_logged :: "string \<times> string \<Rightarrow> billing_db \<Rightarrow> bool" where
  "event_logged k db \<longleftrightarrow>
    list_ex (\<lambda>e. pv_provider e = fst k \<and> pv_providerEventId e = snd k) (db_events db)"

abbreviation event_key :: "payment_event \<Rightarrow> string \<times> string" where
  "event_key ev \<equiv> (ev_provider ev, ev_providerEventId ev)"

lemma createPaymentEvent_Inr:
  "createPaymentEvent ev pid db = Inr db' \<longleftrightarrow> \<not> event_logged (event_key ev) db \<and>
    db' = db\<lparr>db_events := db_events db @ [\<lparr>pv_provider = ev_provider ev,
      pv_providerEventId = ev_providerEventId ev, pv_paymentId = pid, pv_eventType = ev_eventType ev,
      pv_providerStatus = ev_providerStatus ev, pv_sanitizedPayload = sanitizedEventPayload ev\<rparr>]\<rparr>"
  by (auto simp: createPaymentEvent_def event_logged_def)

text \<open>The shapes of a successful call.\<close>

lemma process_success:
  assumes "processPaymentEvent policy clk c ev db = Inr (db', r)"
  obtains (duplicate) p where "p \<in> set (db_payments db)" "lockPaymentId db ev = Some (pm_id p)"
      "event_logged (event_key ev) db" "db' = db" "r = (result_of p (pm_status p))\<lparr>pr_duplicate := True\<rparr>"
  | (applied) p db1 where "p \<in> set (db_payments db)" "lockPaymentId db ev = Some (pm_id p)"
      "createPaymentEvent ev (pm_id p) db = Inr db1"
      "apply_payment_event policy clk c p ev db1 = Inr (db', r)"
proof -
  from assms obtain i p where l: "lockPaymentId db ev = Some i" "row_find pm_id i (db_payments db) = Some p"
    by (auto simp: processPaymentEvent_def res_simps split: option.splits)
  with row_find_Some[OF l(2)] have p: "lockPaymentId db ev = Some (pm_id p)" "p \<in> set (db_payments db)"
      "row_find pm_id (pm_id p) (db_payments db) = Some p"
    by auto
  show ?thesis
  proof (cases "createPaymentEvent ev (pm_id p) db")
    case (Inr db1)
    with assms p show ?thesis by (intro applied) (auto simp: processPaymentEvent_def)
  next
    case (Inl e)
    then have "event_logged (event_key ev) db"
      by (auto simp: createPaymentEvent_def event_logged_def split: if_splits)
    with Inl assms p show ?thesis
      by (intro duplicate) (auto simp: processPaymentEvent_def split: if_splits)
  qed
qed

lemma apply_success:
  assumes "apply_payment_event policy clk c p ev db = Inr (db', r)"
  obtains (mismatch) "provider_id_mismatch p ev \<or> amount_mismatch p ev"
      "db' = set_status (pm_id p) RECONCILIATION_REQUIRED (ev_providerStatus ev) db"
      "r = result_without_grant p RECONCILIATION_REQUIRED"
  | (confirmed) "\<not> provider_id_mismatch p ev" "\<not> amount_mismatch p ev"
      "moneyEventFromInput ev = Ev_confirmed" "process_confirmed policy clk c p ev db = Inr (db', r)"
  | (refunded) st where "moneyEventFromInput ev \<in> {Ev_refunded, Ev_partially_refunded}"
      "applyRefundAccounting c p ev db = Inr (db', st)" "r = result_of p st"
  | (status) "moneyEventFromInput ev \<in> {Ev_failed, Ev_canceled, Ev_pending}"
      "(db', r) = process_status p ev (moneyEventFromInput ev) db"
  | (chargeback) "moneyEventFromInput ev = Ev_ignore"
      "ev_eventType ev = Payment_chargeback" "(db', r) = process_chargeback c p ev db"
  | (ignored) "moneyEventFromInput ev = Ev_ignore" "db' = db" "r = result_of p (pm_status p)"
  using assms
  by (cases "moneyEventFromInput ev")
    (auto simp: apply_payment_event_def Let_def res_simps split: if_splits)

section \<open>The invariant\<close>

lemma apply_event_ok:
  assumes ok: "billing_ok db" and p: "p \<in> set (db_payments db)"
    and r: "apply_payment_event policy clk c p ev db = Inr (db', r)"
  shows "billing_ok db'"
  using r
proof (cases rule: apply_success)
  case mismatch
  have "payments_ok db'"
    unfolding mismatch(2)
    by (rule set_status_payments_ok[OF _ p quiet_change_refl]) (use ok in \<open>auto simp: billing_ok_def\<close>)
  with ok show ?thesis by (simp add: billing_ok_def mismatch(2))
next
  case confirmed
  then show ?thesis using process_confirmed_ok[OF ok p] by blast
next
  case (refunded st)
  then show ?thesis using applyRefund_ok[OF ok p] by blast
next
  case status
  then show ?thesis using process_status_ok[OF ok p] by (metis fst_conv)
next
  case chargeback
  then show ?thesis using process_chargeback_ok[OF ok p] by (metis fst_conv)
next
  case ignored
  with ok show ?thesis by simp
qed

lemma process_event_ok:
  assumes ok: "billing_ok db" and r: "processPaymentEvent policy clk c ev db = Inr (db', r)"
  shows "billing_ok db'"
  using r
proof (cases rule: process_success)
  case (duplicate p)
  with ok show ?thesis by simp
next
  case (applied p db1)
  have "payments_ok db1" "usage_ok db1" "p \<in> set (db_payments db1)"
    using ok applied(1,3) payments_ok_cong[of db db1]
    by (auto simp: createPaymentEvent_Inr billing_ok_def owners_def)
  then show ?thesis by (intro apply_event_ok[OF _ _ applied(4)]) (simp_all add: billing_ok_def)
qed

lemma create_payment_success:
  assumes "createPendingPayment policy n1 n2 u1 u2 input db = Inr (db', v)"
  obtains (existing) p where "p \<in> set (db_payments db)" "db' = db" "v = (pm_id p, pm_providerOrderId p)"
  | (created) s p where "buildCheckoutSnapshot (db_catalog db) policy n1 (pi_kind input) (pi_amount input)
        (pi_planVersionId input) (pi_planCode input) = Inr s"
      "p = pending_row (db_next db) n2 u1 u2 input s"
      "db' = db\<lparr>db_payments := db_payments db @ [p], db_next := Suc (db_next db)\<rparr>"
      "v = (pm_id p, pm_providerOrderId p)"
proof -
  let ?existing = "if truthy_str (pi_idempotencyKey input)
    then find_by_idempotency db (pi_userId input) (pi_kind input) (the (pi_idempotencyKey input)) else None"
  from assms obtain s where s: "buildCheckoutSnapshot (db_catalog db) policy n1 (pi_kind input)
      (pi_amount input) (pi_planVersionId input) (pi_planCode input) = Inr s"
    by (auto simp: createPendingPayment_def res_simps)
  show ?thesis
  proof (cases ?existing)
    case (Some p)
    then have "p \<in> set (db_payments db)"
      by (auto simp: find_by_idempotency_def simp: find_Some_iff split: if_splits)
    with Some assms s show ?thesis by (intro existing) (auto simp: createPendingPayment_def Let_def)
  next
    case None
    with assms s show ?thesis
      by (intro created[OF s refl])
        (auto simp: createPendingPayment_def Let_def res_simps insertPayment_def split: if_splits)
  qed
qed

lemma create_payment_ok:
  assumes ok: "billing_ok db" and r: "createPendingPayment policy n1 n2 u1 u2 input db = Inr (db', v)"
  shows "billing_ok db'"
  using r
proof (cases rule: create_payment_success)
  case (existing p)
  with ok show ?thesis by simp
next
  case (created s p)
  have "usage_ok db'"
    by (rule usage_ok_cong[of db]) (use ok in \<open>simp_all add: created(3) billing_ok_def\<close>)
  moreover have "payments_ok db'"
    by (rule payments_ok_new[of db p])
      (use ok in \<open>simp_all add: created(2,3) billing_ok_def pending_row_def owners_def\<close>)
  ultimately show ?thesis by (simp add: billing_ok_def)
qed

lemma usage_request_ok:
  assumes ok: "billing_ok db" and r: "handle_usage req db = Inr (db', v)"
  shows "billing_ok db'"
proof -
  have u: "usage_ok db" using ok by (simp add: billing_ok_def)
  have "map (\<lambda>t. (fst t, fst (snd t))) (bucket_frame db') = map (\<lambda>t. (fst t, fst (snd t))) (bucket_frame db)"
    using usage.handle_view[OF u r] by simp
  then have "owners db' = owners db" by (simp add: bucket_frame_def owners_def comp_def)
  then have "payments_ok db'"
    using payments_ok_usage[OF _ handle_usage_extends[OF r]] ok by (simp add: billing_ok_def)
  with usage.handle_inv[OF u r] show ?thesis by (simp add: billing_ok_def)
qed

interpretation billing: transactional handle_billing billing_ok
  by unfold_locales
    (auto simp: handle_billing_def split: billing_request.splits
      dest: process_event_ok create_payment_ok usage_request_ok)

text \<open>Events are only ever added.\<close>

lemma quiet_events: "quiet_change pid db db' \<Longrightarrow> db_events db' = db_events db"
  by (simp add: quiet_change_def)

lemma apply_event_events:
  assumes "apply_payment_event policy clk c p ev db = Inr (db', r)"
  shows "db_events db' = db_events db"
  using assms
proof (cases rule: apply_success)
  case confirmed
  from confirmed(4) show ?thesis
  proof (cases rule: confirmed_success)
    case (granted db1 bid sid f q db2)
    then show ?thesis
      by (elim grant_success) (simp add: attach_frames[OF granted(5)] grant_bucket_def)
  qed simp
next
  case (refunded st)
  from refunded(2) show ?thesis
    by (cases rule: applyRefund_success)
      (use quiet_events[OF revoke_grant_quiet] in \<open>auto simp: appendLedger_def\<close>)
next
  case status
  then show ?thesis by (auto simp: process_status_def Let_def)
next
  case chargeback
  then show ?thesis by (auto simp: process_chargeback_def Let_def appendLedger_def)
qed auto

interpretation logged: transactional handle_billing "event_logged k" for k
proof unfold_locales
  fix db db' req u
  assume e: "event_logged k db" and h: "handle_billing req db = Inr (db', u)"
  show "event_logged k db'"
  proof (cases req)
    case (Provider_event policy clk c ev)
    with h obtain r where "processPaymentEvent policy clk c ev db = Inr (db', r)"
      by (auto simp: handle_billing_def)
    then show ?thesis
      by (cases rule: process_success)
        (use e in \<open>auto simp: event_logged_def createPaymentEvent_Inr dest: apply_event_events\<close>)
  next
    case (Usage ureq)
    with h obtain v where "handle_usage ureq db = Inr (db', v)" by (auto simp: handle_billing_def)
    from usage_extends_tables(2)[OF handle_usage_extends[OF this]] e show ?thesis
      by (simp add: event_logged_def)
  next
    case (New_payment policy n1 n2 u1 u2 input)
    with h obtain v where "createPendingPayment policy n1 n2 u1 u2 input db = Inr (db', v)"
      by (auto simp: handle_billing_def)
    then show ?thesis
      by (cases rule: create_payment_success) (use e in \<open>auto simp: event_logged_def\<close>)
  qed
qed

section \<open>What an event grants\<close>

lemma grants_quiet:
  assumes "quiet_change pid db db'"
  shows "grants db' i = grants db i"
proof -
  from assms obtain ls where ls: "db_ledger db' = db_ledger db @ ls"
      "list_all (\<lambda>l. le_paymentId l = Some pid \<and> \<not> is_grant pid l) ls"
    by (auto simp: quiet_change_def)
  have "filter (is_grant i) ls = []"
    using ls(2) by (auto simp: filter_empty_conv list_all_iff is_grant_def)
  with ls(1) show ?thesis by (simp add: grants_def)
qed

lemma grants_cong: "db_ledger db' = db_ledger db \<Longrightarrow> grants db' i = grants db i"
  by (simp add: grants_def)

lemma revoke_grant_map:
  assumes b: "db_buckets db = rows" and keys: "distinct (map b_id rows)"
  shows "db_buckets (revoke_grant c p x db) = map (\<lambda>b. if pm_grantedBucketId p = Some (b_id b)
      then b\<lparr>b_total := b_total b - max 0 (min (b_total b - b_spent b - b_reserved b) x)\<rparr> else b) rows"
proof -
  have r: "revoked b x = max 0 (min (b_total b - b_spent b - b_reserved b) x)" for b
    by (auto simp: revoked_def Let_def)
  show ?thesis
  proof (cases "pm_grantedBucketId p")
    case None
    then show ?thesis by (simp add: revoke_grant_def b)
  next
    case (Some i)
    show ?thesis
    proof (cases "row_find b_id i rows")
      case None
      then have "\<forall>c \<in> set rows. b_id c \<noteq> i" by (auto simp: row_find_None)
      then have "map (\<lambda>b. if pm_grantedBucketId p = Some (b_id b) then f b else b) rows = rows" for f
        using Some by (auto intro!: map_idI)
      with None Some b show ?thesis by (simp add: revoke_grant_def)
    next
      case found: (Some a)
      then have a: "a \<in> set rows" "b_id a = i" using row_find_Some by fastforce+
      have "c = a" if "c \<in> set rows" "b_id c = i" for c
        using that a keys by (simp add: distinct_map inj_on_def)
      then show ?thesis
        using keys found Some b
        by (auto simp: revoke_grant_buckets row_update_def r)
    qed
  qed
qed

text \<open>Every branch but the confirmed one grants nothing.\<close>

lemma apply_event_grants:
  assumes "apply_payment_event policy clk c p ev db = Inr (db', r)"
  obtains (none) "\<And>i. grants db' i = grants db i"
  | (granted) s b l where "moneyEventFromInput ev = Ev_confirmed"
      "\<not> amount_mismatch p ev" "\<not> provider_id_mismatch p ev" "pm_status p \<in> {CREATED, PENDING}"
      "parseCheckoutSnapshot (pm_checkoutSnapshot p) = Inr s" "cs_customerPaymentAmount s = pm_amount p"
      "grant_shape p s b l" "db_buckets db' = db_buckets db @ [b]" "db_ledger db' = db_ledger db @ [l]"
      "pr_status r = SUCCEEDED" "pr_bucketId r = Some (b_id b)"
  using assms
proof (cases rule: apply_success)
  case mismatch
  then show ?thesis by (intro none grants_cong) simp
next
  case confirmed
  from confirmed(4) show ?thesis
  proof (cases rule: confirmed_success)
    case already
    then show ?thesis by (intro none) simp
  next
    case (granted db1 bid sid f q db2)
    note att = attach_frames[OF granted(5)]
    from grant_success[OF granted(2)] obtain s b l n subs where
        "parseCheckoutSnapshot (pm_checkoutSnapshot p) = Inr s" "cs_customerPaymentAmount s = pm_amount p"
        "grant_shape p s b l" "b_id b = n" "bid = n"
        "db1 = grant_bucket b l (db\<lparr>db_subscriptions := subs, db_next := n\<rparr>)"
      by metis
    with confirmed granted att show ?thesis
      by (intro that(2)[of s b l]) (auto simp: grant_bucket_def result_of_def)
  qed
next
  case (refunded st)
  from refunded(2) show ?thesis
  proof (cases rule: applyRefund_success)
    case (unsupported e)
    then have "quiet_change (pm_id p) db (appendLedger e db)" by (simp add: quiet_payment_entry)
    from grants_quiet[OF this] show ?thesis
      by (intro none) (simp add: unsupported(5) grants_cong[of "set_status _ _ _ _"])
  next
    case (revoked s x db1 y)
    have "db_ledger db' = db_ledger db1" by (simp add: revoked(5))
    with grants_quiet[OF revoke_grant_quiet[of p db c x]] show ?thesis
      by (intro none) (simp add: grants_def revoked(4))
  qed
next
  case status
  then show ?thesis by (intro none grants_cong) (auto simp: process_status_def Let_def)
next
  case chargeback
  have "quiet_change (pm_id p) db (appendLedger (payment_entry p (pm_grantedBucketId p) ADJUSTMENT 0
      [(''correlationId'', meta_opt c), (''reason'', MString ''chargeback''),
       (''providerStatus'', meta_opt (ev_providerStatus ev))]) db)" by (rule quiet_payment_entry) simp
  from grants_quiet[OF this] chargeback(3) show ?thesis
    by (intro none) (simp add: process_chargeback_def Let_def grants_def)
next
  case ignored
  then show ?thesis by (intro none) simp
qed

lemma process_event_grants:
  assumes "processPaymentEvent policy clk c ev db = Inr (db', r)" and "grants db' i \<noteq> grants db i"
  obtains p s b l where "p \<in> set (db_payments db)" "lockPaymentId db ev = Some (pm_id p)" "i = pm_id p"
      "moneyEventFromInput ev = Ev_confirmed" "\<not> amount_mismatch p ev" "\<not> provider_id_mismatch p ev"
      "pm_status p \<in> {CREATED, PENDING}" "parseCheckoutSnapshot (pm_checkoutSnapshot p) = Inr s"
      "cs_customerPaymentAmount s = pm_amount p" "grant_shape p s b l"
      "db_buckets db' = db_buckets db @ [b]" "db_ledger db' = db_ledger db @ [l]"
      "pr_status r = SUCCEEDED" "pr_bucketId r = Some (b_id b)" "\<not> event_logged (event_key ev) db"
  using assms(1)
proof (cases rule: process_success)
  case (duplicate p)
  with assms(2) show ?thesis by simp
next
  case (applied p db1)
  have db1: "db_buckets db1 = db_buckets db" "db_ledger db1 = db_ledger db"
      "\<not> event_logged (event_key ev) db"
    using applied(3) by (auto simp: createPaymentEvent_Inr)
  from applied(4) show ?thesis
  proof (cases rule: apply_event_grants)
    case none
    with assms(2) db1(2) show ?thesis by (simp add: grants_def)
  next
    case (granted s b l)
    have "i = pm_id p"
      using assms(2) granted(7,9) db1(2) by (auto simp: grants_def grant_shape_def is_grant_def split: if_splits)
    with applied(1,2) granted db1 show ?thesis by (intro that) auto
  qed
qed

section \<open>Sample states\<close>

definition empty_billing :: billing_db where
  "empty_billing = \<lparr>db_buckets = [], db_reservations = [], db_allocations = [], db_ledger = [],
     db_next = 0, db_payments = [], db_events = [], db_subscriptions = [], db_economics = [],
     db_catalog = sample_catalog\<rparr>"

lemma empty_billing_ok: "billing_ok empty_billing"
  by (simp add: billing_ok_def payments_ok_def usage_ok_def pool_ok_def keys_ok_def empty_billing_def)

definition sample_policy :: billing_policy where
  "sample_policy = \<lparr>minTopupMicroRub = 1, maxTopupMicroRub = 1000, topupProviderCostRatioBps = 500,
     subscriptionPeriodDays = 30\<rparr>"

definition sample_input :: pending_input where
  "sample_input = \<lparr>pi_userId = ''ann'', pi_provider = ''tbank'', pi_providerPaymentId = None,
     pi_providerOrderId = Some ''o1'', pi_idempotencyKey = Some ''k1'', pi_kind = Kind_TOPUP,
     pi_amount = 200, pi_planVersionId = None, pi_planCode = None, pi_pending = None,
     pi_paymentUrl = None, pi_providerStatus = None\<rparr>"

definition sample_event :: "string \<Rightarrow> string \<Rightarrow> payment_event_type \<Rightarrow> microRub \<Rightarrow> payment_event" where
  "sample_event key status type amount = \<lparr>ev_provider = ''tbank'', ev_providerEventId = key,
     ev_providerPaymentId = Some ''pp1'', ev_orderId = Some ''o1'', ev_eventType = type,
     ev_providerStatus = Some status, ev_amount = Some amount, ev_refundAmount = None,
     ev_paymentMethod = Some ''CARD'', ev_rawProviderPaymentMethod = None\<rparr>"

abbreviation sample_confirm :: payment_event where
  "sample_confirm \<equiv> sample_event ''e1'' ''CONFIRMED'' Payment_succeeded 200"

definition sample_clock :: clock where
  "sample_clock = \<lparr>ck_tx = 10, ck_period = 11, ck_fulfilled = 12\<rparr>"

abbreviation sample_new :: billing_request where
  "sample_new \<equiv> New_payment sample_policy 5 6 ''u1'' ''u2'' sample_input"

abbreviation sample_deliver :: "payment_event \<Rightarrow> billing_request" where
  "sample_deliver ev \<equiv> Provider_event sample_policy sample_clock None ev"

definition sample_pending :: billing_db where
  "sample_pending = run_requests handle_billing [sample_new] empty_billing"

definition sample_paid :: billing_db where
  "sample_paid = run_requests handle_billing [sample_deliver sample_confirm] sample_pending"

lemma sample_billing_ok: "billing_ok sample_pending" "billing_ok sample_paid"
  by (simp_all add: sample_pending_def sample_paid_def billing.run_inv empty_billing_ok
      del: run_requests_simps)

lemma sample_facts: "map pm_status (db_payments sample_paid) = [SUCCEEDED]"
  by code_simp

lemma sample_events:
  "\<exists>r. processPaymentEvent sample_policy sample_clock None sample_confirm sample_pending =
      Inr (sample_paid, r) \<and> pr_status r = SUCCEEDED \<and> pr_bucketId r = Some 1"
proof -
  have "(case processPaymentEvent sample_policy sample_clock None sample_confirm sample_pending of
      Inl _ \<Rightarrow> False | Inr (_, r) \<Rightarrow> pr_status r = SUCCEEDED \<and> pr_bucketId r = Some 1)"
    by code_simp
  then show ?thesis
    by (auto simp: sample_paid_def commit_def handle_billing_def forget_def split: sum.splits)
qed

section \<open>Properties\<close>









lemma subscription_tables [simp]:
  "db_subscriptions (set_status i st v db) = db_subscriptions db"
  "db_subscriptions (addRefundToEconomics i x db) = db_subscriptions db"
  by (simp_all add: set_status_def updatePayment_def addRefundToEconomics_def Let_def split: option.splits)

lemma cancelled_inactive:
  "list_all (\<lambda>x. \<not> (Some (sb_id x) = pm_grantedSubscriptionId p \<and> sb_userId x = pm_userId p \<and>
    sb_status x = Sub_ACTIVE)) (db_subscriptions (cancel_subscription p db))"
  by (cases "pm_grantedSubscriptionId p") (simp_all add: cancel_subscription_def list.pred_map list.pred_True comp_def)


definition sample_reserved_paid :: billing_db where
  "sample_reserved_paid = run_requests handle_billing
     [Usage (Reserve ''ann'' ''q1'' 4 None 100)] sample_paid"


section \<open>Checkouts\<close>

text \<open>
  C14: a checkout is initialised once. After a call that left a payment page, every further call
  for the payment returns that page, whatever the provider would answer, and changes nothing.
\<close>

theorem hosted_checkout_initialised_once:
  assumes "initializeHostedCheckout initialize pid db = Inr (db', v)" and "cr_paymentUrl v \<noteq> []"
  shows "initializeHostedCheckout initialize' pid db' = Inr (db', v\<lparr>cr_initialized := False\<rparr>)"
proof -
  from assms(1) obtain p where p: "row_find pm_id pid (db_payments db) = Some p"
    by (auto simp: initializeHostedCheckout_def res_simps)
  then have i: "pm_id p = pid" by (rule row_find_Some[THEN conjunct2])
  show ?thesis
  proof (cases "truthy_str (pm_paymentUrl p)")
    case True
    with assms p i show ?thesis by (auto simp: initializeHostedCheckout_def)
  next
    case False
    with assms p i show ?thesis
      by (auto simp: initializeHostedCheckout_def res_simps write_checkout_def row_find_row_update
          split: if_splits)
  qed
qed

lemma hosted_checkout_initialised_once_witness:
  "\<exists>db' v. initializeHostedCheckout (\<lambda>_. Inr \<lparr>hc_providerPaymentId = ''pp1'',
      hc_paymentUrl = ''url'', hc_providerStatus = None\<rparr>) 0 sample_pending = Inr (db', v) \<and>
    initializeHostedCheckout (\<lambda>_. Inl (PlainError ''down'')) 0 db' = Inr (db', v\<lparr>cr_initialized := False\<rparr>)"
proof -
  let ?init = "\<lambda>_. Inr \<lparr>hc_providerPaymentId = ''pp1'', hc_paymentUrl = ''url'', hc_providerStatus = None\<rparr>"
  have "case initializeHostedCheckout ?init 0 sample_pending of
      Inl _ \<Rightarrow> False | Inr (_, v) \<Rightarrow> cr_paymentUrl v \<noteq> []"
    by code_simp
  then obtain db' v where v: "initializeHostedCheckout ?init 0 sample_pending = Inr (db', v)"
      "cr_paymentUrl v \<noteq> []"
    by (auto split: sum.splits)
  from hosted_checkout_initialised_once[OF v, of "\<lambda>_. Inl (PlainError ''down'')"] v(1)
  show ?thesis by blast
qed

text \<open>
  Creating a payment is idempotent under an idempotency key: a repeated request with the
  same user, kind and key, whose snapshot can still be built, returns the first payment and
  order id and changes nothing, whatever its amount, plan, uuids and time.
\<close>

theorem create_payment_idempotent:
  assumes "createPendingPayment policy n1 n2 u1 u2 input db = Inr (db', v)"
    and "truthy_str (pi_idempotencyKey input)"
    and "pi_idempotencyKey again = pi_idempotencyKey input" and "pi_userId again = pi_userId input"
    and "pi_kind again = pi_kind input"
    and "buildCheckoutSnapshot (db_catalog db') policy' n1' (pi_kind again) (pi_amount again)
      (pi_planVersionId again) (pi_planCode again) = Inr s"
  shows "createPendingPayment policy' n1' n2' u1' u2' again db' = Inr (db', v)"
proof -
  let ?find = "\<lambda>db. find_by_idempotency db (pi_userId input) (pi_kind input) (the (pi_idempotencyKey input))"
  from assms(1,2) obtain p where p: "?find db' = Some p" "v = (pm_id p, pm_providerOrderId p)"
  proof (cases "?find db")
    case (Some q)
    with assms(1,2) have "db' = db" "v = (pm_id q, pm_providerOrderId q)"
      by (auto simp: createPendingPayment_def res_simps)
    with Some that show ?thesis by simp
  next
    case None
    then obtain s where "db' = db\<lparr>db_payments := db_payments db @ [pending_row (db_next db) n2 u1 u2 input s],
          db_next := Suc (db_next db)\<rparr>"
        "v = (pm_id (pending_row (db_next db) n2 u1 u2 input s),
          pm_providerOrderId (pending_row (db_next db) n2 u1 u2 input s))"
      using assms(1,2) by (auto simp: createPendingPayment_def res_simps insertPayment_def Let_def split: if_splits)
    moreover have "find_by_idempotency
        (db\<lparr>db_payments := db_payments db @ [pending_row (db_next db) n2 u1 u2 input s], db_next := k\<rparr>)
        (pi_userId input) (pi_kind input) (the (pi_idempotencyKey input)) =
        Some (pending_row (db_next db) n2 u1 u2 input s)" for k
      using None assms(2)
      by (auto simp: find_by_idempotency_def find_snoc pending_row_def truthy_str_def split: option.splits)
    ultimately show ?thesis using that by blast
  qed
  then show ?thesis using assms(2-6) by (simp add: createPendingPayment_def)
qed

lemma create_payment_idempotent_witness:
  "\<exists>v. createPendingPayment sample_policy 7 8 ''u3'' ''u4'' sample_input sample_pending =
    Inr (sample_pending, v)"
proof -
  have "case createPendingPayment sample_policy 5 6 ''u1'' ''u2'' sample_input empty_billing of
      Inl _ \<Rightarrow> False | Inr _ \<Rightarrow> True"
    by code_simp
  then obtain v where v: "createPendingPayment sample_policy 5 6 ''u1'' ''u2'' sample_input empty_billing =
      Inr (sample_pending, v)"
    by (auto simp: sample_pending_def commit_def handle_billing_def forget_def split: sum.splits)
  have "case buildCheckoutSnapshot (db_catalog sample_pending) sample_policy 7 (pi_kind sample_input)
      (pi_amount sample_input) (pi_planVersionId sample_input) (pi_planCode sample_input) of
      Inl _ \<Rightarrow> False | Inr _ \<Rightarrow> True"
    by code_simp
  then obtain s where "buildCheckoutSnapshot (db_catalog sample_pending) sample_policy 7 (pi_kind sample_input)
      (pi_amount sample_input) (pi_planVersionId sample_input) (pi_planCode sample_input) = Inr s"
    by (auto split: sum.splits)
  from create_payment_idempotent[OF v _ refl refl refl this, where n2' = 8 and u1' = "''u3''" and u2' = "''u4''"]
  show ?thesis by (auto simp: sample_input_def)
qed

section \<open>Observed behaviour\<close>

text \<open>Two refund events of one payment, under different event ids, both enter the economics.\<close>

lemma refund_counted_twice:
  "map (\<lambda>e. (ec_gross e, ec_refunded e)) (db_economics (run_requests handle_billing
     [sample_deliver (sample_event ''e2'' ''REFUNDED'' Payment_refunded 200),
      sample_deliver (sample_event ''e3'' ''REFUNDED'' Payment_refunded 200)] sample_paid)) = [(200, 400)]"
  by code_simp

text \<open>A partial refund notification carries no refunded amount, and takes the whole grant.\<close>

lemma partial_refund_takes_all:
  "map b_total (db_buckets (run_requests handle_billing
     [sample_deliver (sample_event ''e2'' ''PARTIAL_REFUNDED'' Payment_partially_refunded 200)] sample_paid)) = [0]"
  by code_simp

text \<open>Initialising a checkout sets PENDING whatever the status was.\<close>

lemma paid_checkout_reopened:
  "(case initializeHostedCheckout (\<lambda>_. Inr \<lparr>hc_providerPaymentId = ''pp1'', hc_paymentUrl = ''url'',
      hc_providerStatus = None\<rparr>) 0 sample_paid of
    Inl _ \<Rightarrow> False | Inr (db, _) \<Rightarrow> map pm_status (db_payments db) = [PENDING])"
  by code_simp

end
