(* ===== verification/Ai_Cost.thy ===== *)
theory Ai_Cost
  imports Money
begin

text \<open>
  \<open>packages/ai/src/cost.ts\<close>, \<open>usage.ts\<close> and \<open>errors.ts\<close>: what a provider call costs,
  what is reserved for it beforehand, and the checks on the usage a provider reports. The
  reservation is meant as an upper bound of the cost; the property of this theory says how far
  that holds when each part is rounded up on its own.
\<close>

section \<open>Errors\<close>

datatype ai_error_code =
    UNKNOWN_MODEL | INACTIVE_MODEL | MODEL_UNAVAILABLE | MESSAGE_TOO_LARGE | AI_DISABLED
  | AI_REQUEST_IN_PROGRESS | IDEMPOTENCY_CONFLICT | THREAD_TARGET_REQUIRED | THREAD_TARGET_INVALID
  | AI_REQUEST_COST_LIMIT | AI_PROVIDER_BALANCE_UNAVAILABLE | AI_RECONCILIATION_REQUIRED
  | PROVIDER_USAGE_INVALID | PROVIDER_REJECTED | PROVIDER_AMBIGUOUS_FAILURE

datatype ai_error = AiError ai_error_code int | JsError string

abbreviation usage_invalid :: ai_error where
  "usage_invalid \<equiv> AiError PROVIDER_USAGE_INVALID 500"

section \<open>cost.ts\<close>

record normalized_usage =
  nu_inputTokens :: int
  nu_outputTokens :: int
  nu_reasoningTokens :: int
  nu_cacheReadTokens :: int
  nu_cacheWriteTokens :: int

record price_quote =
  pq_input :: microRub
  pq_output :: microRub
  pq_cacheRead :: "microRub option"
  pq_cacheWrite :: "microRub option"

definition TOKENS_PER_MILLION :: int where "TOKENS_PER_MILLION = 1000000"

definition tokenCostMicroRub :: "int \<Rightarrow> microRub \<Rightarrow> ai_error + microRub" where
  "tokenCostMicroRub tokens price =
    (if tokens < 0 \<or> price < 0 then Inl usage_invalid
     else if tokens = 0 \<or> price = 0 then Inr 0
     else Inr ((tokens * price + TOKENS_PER_MILLION - 1) sdiv TOKENS_PER_MILLION))"

definition applySafetyMargin :: "microRub \<Rightarrow> int \<Rightarrow> ai_error + microRub" where
  "applySafetyMargin cost safetyBps =
    (if cost < 0 \<or> safetyBps < 0 then Inl usage_invalid
     else Inr ((cost * (10000 + safetyBps) + 9999) sdiv 10000))"

definition or_zero :: "int option \<Rightarrow> int" where
  "or_zero x = (case x of None \<Rightarrow> 0 | Some v \<Rightarrow> v)"

definition providerCostFromUsage :: "normalized_usage \<Rightarrow> price_quote \<Rightarrow> ai_error + microRub" where
  "providerCostFromUsage usage price =
    (let uncachedInput = nu_inputTokens usage - nu_cacheReadTokens usage in
     if uncachedInput < 0 then Inl usage_invalid
     else rbind (tokenCostMicroRub uncachedInput (pq_input price)) (\<lambda>input.
          rbind (tokenCostMicroRub (nu_outputTokens usage) (pq_output price)) (\<lambda>output.
          rbind (if nu_cacheReadTokens usage > 0
              then tokenCostMicroRub (nu_cacheReadTokens usage) (or_zero (pq_cacheRead price))
              else Inr 0) (\<lambda>cacheRead.
          rbind (if nu_cacheWriteTokens usage > 0
              then tokenCostMicroRub (nu_cacheWriteTokens usage) (or_zero (pq_cacheWrite price))
              else Inr 0) (\<lambda>cacheWrite.
          Inr (input + output + cacheRead + cacheWrite))))))"

definition estimateReservationMicroRub ::
    "int \<Rightarrow> int \<Rightarrow> price_quote \<Rightarrow> int \<Rightarrow> ai_error + microRub" where
  "estimateReservationMicroRub estimatedInputTokens maxOutputTokens price safetyBps =
    (let cacheReadPrice = or_zero (pq_cacheRead price);
         cacheWritePrice = or_zero (pq_cacheWrite price);
         baseInputPrice = (if pq_input price > cacheReadPrice then pq_input price else cacheReadPrice);
         worstCaseInputPrice = baseInputPrice + cacheWritePrice in
     rbind (tokenCostMicroRub estimatedInputTokens worstCaseInputPrice) (\<lambda>input.
     rbind (tokenCostMicroRub maxOutputTokens (pq_output price)) (\<lambda>output.
     rbind (applySafetyMargin (input + output) safetyBps) (\<lambda>reserved.
     Inr (if reserved < 1 then 1 else reserved)))))"

definition rubPerMillionToMicroRub :: "int \<Rightarrow> microRub" where
  "rubPerMillionToMicroRub rub = rub * MICRORUB_PER_RUB"

section \<open>usage.ts\<close>

definition normalizeProviderUsage ::
    "int \<Rightarrow> int \<Rightarrow> int option \<Rightarrow> int option \<Rightarrow> int option \<Rightarrow> ai_error + normalized_usage" where
  "normalizeProviderUsage input output reasoning cacheRead cacheWrite =
    (let usage = \<lparr>nu_inputTokens = input, nu_outputTokens = output,
           nu_reasoningTokens = or_zero reasoning, nu_cacheReadTokens = or_zero cacheRead,
           nu_cacheWriteTokens = or_zero cacheWrite\<rparr> in
     if nu_inputTokens usage < 0 \<or> nu_outputTokens usage < 0 \<or> nu_reasoningTokens usage < 0 \<or>
        nu_cacheReadTokens usage < 0 \<or> nu_cacheWriteTokens usage < 0 then Inl usage_invalid
     else if nu_cacheReadTokens usage > nu_inputTokens usage then Inl usage_invalid
     else if nu_cacheWriteTokens usage > nu_inputTokens usage then Inl usage_invalid
     else if nu_reasoningTokens usage > nu_outputTokens usage then Inl usage_invalid
     else Inr usage)"

section \<open>Lemmas\<close>

definition token_cost :: "int \<Rightarrow> int \<Rightarrow> int" where
  "token_cost tokens price = (tokens * price + 999999) div 1000000"

lemma tokenCost_eq:
  "tokenCostMicroRub t p = (if t < 0 \<or> p < 0 then Inl usage_invalid else Inr (token_cost t p))"
  by (auto simp: tokenCostMicroRub_def token_cost_def TOKENS_PER_MILLION_def sdiv_nonneg_div)

lemma token_cost_nonneg: "0 \<le> t \<Longrightarrow> 0 \<le> p \<Longrightarrow> 0 \<le> token_cost t p"
  by (simp add: token_cost_def pos_imp_zdiv_nonneg_iff)

lemma token_cost_mono: "0 \<le> s \<Longrightarrow> s \<le> t \<Longrightarrow> 0 \<le> p \<Longrightarrow> p \<le> q \<Longrightarrow> token_cost s p \<le> token_cost t q"
  unfolding token_cost_def by (intro zdiv_mono1 add_right_mono mult_mono) auto

text \<open>Rounding parts up on their own costs less than one unit per extra part.\<close>

lemma ceil_div_add: "((x::int) + 999999) div 1000000 + (y + 999999) div 1000000 \<le>
    (x + y + 999999) div 1000000 + 1"
  by linarith

lemma margin_bounds:
  assumes "applySafetyMargin c b = Inr r"
  shows "0 \<le> c" and "0 \<le> b" and "c \<le> r" and "r = (c * (10000 + b) + 9999) div 10000"
proof -
  from assms show c: "0 \<le> c" and b: "0 \<le> b" by (auto simp: applySafetyMargin_def split: if_splits)
  with assms show r: "r = (c * (10000 + b) + 9999) div 10000"
    by (auto simp: applySafetyMargin_def sdiv_nonneg_div)
  have "c * 10000 \<le> c * (10000 + b) + 9999" using c b by (simp add: algebra_simps)
  from zdiv_mono1[OF this, of 10000] show "c \<le> r" by (simp add: r)
qed

definition worst_input :: "price_quote \<Rightarrow> int" where
  "worst_input price = max (pq_input price) (or_zero (pq_cacheRead price)) + or_zero (pq_cacheWrite price)"

lemma reservation_Inr:
  "estimateReservationMicroRub e m price b = Inr r \<longleftrightarrow>
    0 \<le> e \<and> 0 \<le> m \<and> 0 \<le> worst_input price \<and> 0 \<le> pq_output price \<and> 0 \<le> b \<and>
    r = max 1 (((token_cost e (worst_input price) + token_cost m (pq_output price)) * (10000 + b) + 9999)
      div 10000)"
proof -
  have w: "(if pq_input price > or_zero (pq_cacheRead price) then pq_input price
      else or_zero (pq_cacheRead price)) + or_zero (pq_cacheWrite price) = worst_input price"
    by (auto simp: worst_input_def)
  have m: "(if x < 1 then 1 else x) = max 1 (x::int)" for x by auto
  have n: "0 \<le> (token_cost e (worst_input price) + token_cost m (pq_output price))"
    if "0 \<le> e" "0 \<le> m" "0 \<le> worst_input price" "0 \<le> pq_output price"
    using that by (simp add: token_cost_nonneg)
  show ?thesis
    using n unfolding estimateReservationMicroRub_def Let_def w m
    by (auto simp: tokenCost_eq res_simps applySafetyMargin_def sdiv_nonneg_div not_less split: if_splits)
qed

lemma normalized_Inr:
  "normalizeProviderUsage i out rs cr cw = Inr u \<longleftrightarrow>
    u = \<lparr>nu_inputTokens = i, nu_outputTokens = out, nu_reasoningTokens = or_zero rs,
      nu_cacheReadTokens = or_zero cr, nu_cacheWriteTokens = or_zero cw\<rparr> \<and>
    0 \<le> i \<and> 0 \<le> out \<and> 0 \<le> or_zero rs \<and> or_zero rs \<le> out \<and>
    0 \<le> or_zero cr \<and> or_zero cr \<le> i \<and> 0 \<le> or_zero cw \<and> or_zero cw \<le> i"
  by (auto simp: normalizeProviderUsage_def Let_def)

lemma provider_cost_Inr:
  "providerCostFromUsage u price = Inr c \<Longrightarrow> 0 \<le> nu_cacheReadTokens u \<Longrightarrow> 0 \<le> nu_cacheWriteTokens u \<Longrightarrow>
    0 \<le> pq_input price \<and> 0 \<le> pq_output price \<and>
    (nu_cacheReadTokens u = 0 \<or> 0 \<le> or_zero (pq_cacheRead price)) \<and>
    (nu_cacheWriteTokens u = 0 \<or> 0 \<le> or_zero (pq_cacheWrite price)) \<and>
    c = token_cost (nu_inputTokens u - nu_cacheReadTokens u) (pq_input price) +
      token_cost (nu_outputTokens u) (pq_output price) +
      token_cost (nu_cacheReadTokens u) (or_zero (pq_cacheRead price)) +
      token_cost (nu_cacheWriteTokens u) (or_zero (pq_cacheWrite price))"
  by (auto simp: providerCostFromUsage_def Let_def res_simps tokenCost_eq token_cost_def split: if_splits)

text \<open>The input part of the cost, against the input part of the reservation.\<close>

lemma input_cost_bound:
  assumes "0 \<le> cr" and "cr \<le> i" and "0 \<le> cw" and "cw \<le> i" and "i \<le> e"
    and "0 \<le> pi" and "cr = 0 \<or> 0 \<le> pr" and "0 \<le> pw"
  shows "token_cost (i - cr) pi + token_cost cr pr + token_cost cw pw \<le>
      token_cost e (max pi pr + pw) + 2"
    and "cr = 0 \<Longrightarrow> cw = 0 \<Longrightarrow> token_cost (i - cr) pi \<le> token_cost e (max pi pr + pw)"
proof -
  have "(i - cr) * pi + cr * pr \<le> (i - cr) * max pi pr + cr * max pi pr"
    using assms by (intro add_mono mult_left_mono) auto
  also have "\<dots> = i * max pi pr" by (simp add: algebra_simps)
  also have "\<dots> \<le> e * max pi pr" using assms by (intro mult_right_mono) auto
  finally have "(i - cr) * pi + cr * pr + cw * pw \<le> e * max pi pr + e * pw"
    using assms mult_right_mono[of cw e pw] by linarith
  then have "(i - cr) * pi + cr * pr + cw * pw + 999999 \<le> e * (max pi pr + pw) + 999999"
    by (simp add: algebra_simps)
  from zdiv_mono1[OF this, of 1000000]
  have "((i - cr) * pi + cr * pr + cw * pw + 999999) div 1000000 \<le> token_cost e (max pi pr + pw)"
    by (simp add: token_cost_def)
  then show "token_cost (i - cr) pi + token_cost cr pr + token_cost cw pw \<le>
      token_cost e (max pi pr + pw) + 2"
    using ceil_div_add[of "(i - cr) * pi" "cr * pr"] ceil_div_add[of "(i - cr) * pi + cr * pr" "cw * pw"]
    unfolding token_cost_def by linarith
  show "cr = 0 \<Longrightarrow> cw = 0 \<Longrightarrow> token_cost (i - cr) pi \<le> token_cost e (max pi pr + pw)"
    using assms by (intro token_cost_mono) auto
qed

section \<open>Property\<close>

text \<open>
  A reservation covers the call up to rounding. If the usage a provider reports is valid,
  its input and output tokens stay within the estimate, and no cache write price is negative,
  then the cost is at most two units above what was reserved; without cached tokens it is never
  above it.
\<close>

theorem provider_cost_within_reservation:
  assumes "normalizeProviderUsage i out rs cr cw = Inr usage"
    and "providerCostFromUsage usage price = Inr cost"
    and "estimateReservationMicroRub e m price safetyBps = Inr reserved"
    and "i \<le> e" and "out \<le> m" and "0 \<le> or_zero (pq_cacheWrite price)"
  shows "cost \<le> reserved + (if or_zero cr = 0 \<and> or_zero cw = 0 then 0 else 2)"
proof -
  from assms(1) have u: "nu_inputTokens usage = i" "nu_outputTokens usage = out"
      "nu_cacheReadTokens usage = or_zero cr" "nu_cacheWriteTokens usage = or_zero cw"
    and b: "0 \<le> i" "0 \<le> out" "0 \<le> or_zero cr" "or_zero cr \<le> i" "0 \<le> or_zero cw" "or_zero cw \<le> i"
    by (auto simp: normalized_Inr)
  let ?pr = "or_zero (pq_cacheRead price)" and ?pw = "or_zero (pq_cacheWrite price)"
  from provider_cost_Inr[OF assms(2)] u b have c: "0 \<le> pq_input price" "0 \<le> pq_output price"
      "or_zero cr = 0 \<or> 0 \<le> ?pr"
      "cost = token_cost (i - or_zero cr) (pq_input price) + token_cost out (pq_output price) +
        token_cost (or_zero cr) ?pr + token_cost (or_zero cw) ?pw"
    by auto
  let ?raw = "token_cost e (worst_input price) + token_cost m (pq_output price)"
  from assms(3) have r: "0 \<le> ?raw" "0 \<le> safetyBps"
      "reserved = max 1 ((?raw * (10000 + safetyBps) + 9999) div 10000)"
    by (auto simp: reservation_Inr token_cost_nonneg)
  have "?raw \<le> reserved"
    using margin_bounds(3)[of ?raw safetyBps] r
    by (simp add: applySafetyMargin_def sdiv_nonneg_div)
  moreover have "token_cost out (pq_output price) \<le> token_cost m (pq_output price)"
    using b c assms(5) by (intro token_cost_mono) auto
  moreover have "or_zero cr = 0 \<Longrightarrow> or_zero cw = 0 \<Longrightarrow>
      token_cost (or_zero cr) ?pr + token_cost (or_zero cw) ?pw = 0"
    by (simp add: token_cost_def)
  ultimately show ?thesis
    using input_cost_bound[OF b(3-6) assms(4) c(1,3) assms(6)] c(4)
    by (auto simp: worst_input_def)
qed

lemma provider_cost_within_reservation_witness:
  "\<exists>usage. normalizeProviderUsage 2 0 None (Some 1) (Some 1) = Inr usage \<and>
    providerCostFromUsage usage \<lparr>pq_input = 1, pq_output = 1, pq_cacheRead = Some 1, pq_cacheWrite = Some 1\<rparr> = Inr 3 \<and>
    estimateReservationMicroRub 2 0 \<lparr>pq_input = 1, pq_output = 1, pq_cacheRead = Some 1, pq_cacheWrite = Some 1\<rparr> 0 = Inr 1 \<and>
    (3::int) \<le> 1 + 2"
proof -
  let ?p = "\<lparr>pq_input = 1, pq_output = 1, pq_cacheRead = Some 1, pq_cacheWrite = Some 1\<rparr>"
  let ?u = "\<lparr>nu_inputTokens = 2, nu_outputTokens = 0, nu_reasoningTokens = 0, nu_cacheReadTokens = 1,
    nu_cacheWriteTokens = 1\<rparr>"
  have u: "normalizeProviderUsage 2 0 None (Some 1) (Some 1) = Inr ?u" by code_simp
  have c: "providerCostFromUsage ?u ?p = Inr 3" by code_simp
  have e: "estimateReservationMicroRub 2 0 ?p 0 = Inr 1" by code_simp
  have "(3::int) \<le> 1 + 2"
    using provider_cost_within_reservation[OF u c e] by (simp add: or_zero_def)
  with u c e show ?thesis by blast
qed

end
