(* ===== verification/Ai_Budget.thy ===== *)
theory Ai_Budget
  imports Ai_Cost
begin

text \<open>
  \<open>packages/ai/src/execution-budget.ts\<close>: how many output tokens a request may use, found
  by binary search under the spending ceiling. Token counts are JavaScript numbers that the code
  requires to be integers; they are \<open>int\<close> here, exact as long as they stay below 2^53.
  What the search needs of the cost function is the locale \<open>affordable\<close>, interpreted on
  \<open>reservationCost\<close>.
\<close>

section \<open>Profiles\<close>

datatype budget_profile_name = SHORT | STANDARD | LONG

record budget_profile =
  bp_preferred :: int
  bp_minimum :: int

type_synonym budget_profiles = "budget_profile_name \<Rightarrow> budget_profile"

definition DEFAULT_AI_EXECUTION_BUDGET_PROFILES :: budget_profiles where
  "DEFAULT_AI_EXECUTION_BUDGET_PROFILES name = (case name of
     SHORT \<Rightarrow> \<lparr>bp_preferred = 512, bp_minimum = 128\<rparr>
   | STANDARD \<Rightarrow> \<lparr>bp_preferred = 2048, bp_minimum = 768\<rparr>
   | LONG \<Rightarrow> \<lparr>bp_preferred = 4096, bp_minimum = 2048\<rparr>)"

record funded_budget =
  fb_profile :: budget_profile_name
  fb_preferred :: int
  fb_minimum :: int
  fb_selected :: int
  fb_estimatedCost :: microRub

datatype budget_result = FUNDED funded_budget | Budget_INSUFFICIENT_USAGE | REQUEST_COST_LIMIT

definition assertPositiveInteger :: "int \<Rightarrow> string \<Rightarrow> ai_error + unit" where
  "assertPositiveInteger value field =
    (if value \<le> 0 then Inl (JsError (field @ '' must be a positive integer'')) else Inr ())"

definition assertNonNegativeInteger :: "int \<Rightarrow> string \<Rightarrow> ai_error + unit" where
  "assertNonNegativeInteger value field =
    (if value < 0 then Inl (JsError (field @ '' must be a non-negative integer'')) else Inr ())"

definition profile_name :: "budget_profile_name \<Rightarrow> string" where
  "profile_name n = (case n of SHORT \<Rightarrow> ''SHORT'' | STANDARD \<Rightarrow> ''STANDARD'' | LONG \<Rightarrow> ''LONG'')"

definition validateProfile :: "budget_profile_name \<Rightarrow> budget_profile \<Rightarrow> ai_error + unit" where
  "validateProfile name profile =
    rbind (assertPositiveInteger (bp_minimum profile) (profile_name name @ ''.minimumOutputTokens'')) (\<lambda>_.
    rbind (assertPositiveInteger (bp_preferred profile) (profile_name name @ ''.preferredOutputTokens'')) (\<lambda>_.
    if bp_minimum profile > bp_preferred profile
    then Inl (JsError (profile_name name @ ''.minimumOutputTokens must not exceed preferredOutputTokens''))
    else Inr ()))"

definition validateAiExecutionBudgetProfiles :: "budget_profiles \<Rightarrow> ai_error + unit" where
  "validateAiExecutionBudgetProfiles profiles =
    fold_res (\<lambda>name _. validateProfile name (profiles name)) [SHORT, STANDARD, LONG] ()"

section \<open>The search\<close>

definition reservationCost :: "int \<Rightarrow> price_quote \<Rightarrow> int \<Rightarrow> int \<Rightarrow> ai_error + microRub" where
  "reservationCost estimatedInputTokens price safetyBps maxOutputTokens =
    estimateReservationMicroRub estimatedInputTokens maxOutputTokens price safetyBps"

text \<open>The loop; its state is \<open>low\<close>, \<open>high\<close> and the selected tokens and cost.\<close>

function budget_loop ::
    "(int \<Rightarrow> 'e + int) \<Rightarrow> int \<Rightarrow> int \<Rightarrow> int \<Rightarrow> int \<times> int \<Rightarrow> 'e + int \<times> int" where
  "budget_loop cost ceiling low high selected =
    (if low \<le> high then
       (let candidate = low + (high - low) div 2 in
        case cost candidate of
          Inl e \<Rightarrow> Inl e
        | Inr candidateCost \<Rightarrow>
            if candidateCost \<le> ceiling
            then budget_loop cost ceiling (candidate + 1) high (candidate, candidateCost)
            else budget_loop cost ceiling low (candidate - 1) selected)
     else Inr selected)"
  by pat_completeness auto
termination
  by (relation "measure (\<lambda>(_, _, low, high, _). nat (high + 1 - low))") auto

declare budget_loop.simps [simp del]

definition resolveAiExecutionBudget ::
    "budget_profile_name \<Rightarrow> budget_profiles \<Rightarrow> int \<Rightarrow> int \<Rightarrow> microRub \<Rightarrow> microRub \<Rightarrow> price_quote \<Rightarrow>
      int \<Rightarrow> ai_error + budget_result" where
  "resolveAiExecutionBudget profile profiles modelMaxOutputTokens estimatedInputTokens available
      maxReservation price safetyBps =
    rbind (assertPositiveInteger modelMaxOutputTokens ''modelMaxOutputTokens'') (\<lambda>_.
    rbind (assertNonNegativeInteger estimatedInputTokens ''estimatedInputTokens'') (\<lambda>_.
    if maxReservation \<le> 0 then Inr REQUEST_COST_LIMIT
    else if available \<le> 0 then Inr Budget_INSUFFICIENT_USAGE
    else
      let configured = profiles profile in
      rbind (validateProfile profile configured) (\<lambda>_.
      let preferred = min (bp_preferred configured) modelMaxOutputTokens;
          minimum = min (bp_minimum configured) preferred;
          cost = reservationCost estimatedInputTokens price safetyBps in
      rbind (cost minimum) (\<lambda>minimumCost.
      if minimumCost > maxReservation then Inr REQUEST_COST_LIMIT
      else if minimumCost > available then Inr Budget_INSUFFICIENT_USAGE
      else
        let spendCeiling = (if available < maxReservation then available else maxReservation) in
        rbind (cost preferred) (\<lambda>preferredCost.
        if preferredCost \<le> spendCeiling
        then Inr (FUNDED \<lparr>fb_profile = profile, fb_preferred = preferred, fb_minimum = minimum,
          fb_selected = preferred, fb_estimatedCost = preferredCost\<rparr>)
        else rbind (budget_loop cost spendCeiling minimum preferred (minimum, minimumCost))
          (\<lambda>(selected, selectedCost).
          Inr (FUNDED \<lparr>fb_profile = profile, fb_preferred = preferred, fb_minimum = minimum,
            fb_selected = selected, fb_estimatedCost = selectedCost\<rparr>)))))))"

section \<open>What the search needs of a cost function\<close>

text \<open>It fails for all counts or for none, and costs no less for more tokens.\<close>

locale affordable =
  fixes cost :: "int \<Rightarrow> 'e + int"
  assumes cost_fails: "0 \<le> s \<Longrightarrow> 0 \<le> t \<Longrightarrow> cost s = Inl e \<Longrightarrow> cost t = Inl e"
    and cost_mono: "0 \<le> s \<Longrightarrow> s \<le> t \<Longrightarrow> cost s = Inr a \<Longrightarrow> cost t = Inr b \<Longrightarrow> a \<le> b"
begin

lemma cost_defined:
  assumes "cost s = Inr a" and "0 \<le> s" and "0 \<le> t"
  shows "\<exists>b. cost t = Inr b"
  using cost_fails[OF assms(3,2)] assms(1) by (cases "cost t") auto

definition too_dear :: "int \<Rightarrow> int \<Rightarrow> bool" where
  "too_dear ceiling t \<longleftrightarrow> (\<exists>b. cost t = Inr b \<and> ceiling < b)"

lemma too_dear_mono:
  assumes "too_dear ceiling s" and "0 \<le> s" and "s \<le> t"
  shows "too_dear ceiling t"
proof -
  from assms(1) obtain a where a: "cost s = Inr a" "ceiling < a" by (auto simp: too_dear_def)
  obtain b where "cost t = Inr b" using cost_defined[OF a(1) assms(2), of t] assms by auto
  with cost_mono[OF assms(2,3) a(1)] a(2) show ?thesis by (auto simp: too_dear_def)
qed

text \<open>
  With the selected count no further than one below \<open>low\<close>, and everything above
  \<open>high\<close> too dear, the loop ends with the greatest affordable count.
\<close>

lemma loop_greatest:
  assumes "0 \<le> lo" and "lo \<le> low" and "lo \<le> sel" and "sel \<le> hi" and "high \<le> hi"
    and "cost sel = Inr v" and "v \<le> ceiling" and "low \<le> sel + 1"
    and "\<And>t. high < t \<Longrightarrow> t \<le> hi \<Longrightarrow> too_dear ceiling t"
  shows "\<exists>t w. budget_loop cost ceiling low high (sel, v) = Inr (t, w) \<and> lo \<le> t \<and> t \<le> hi \<and>
    cost t = Inr w \<and> w \<le> ceiling \<and> (\<forall>u. t < u \<longrightarrow> u \<le> hi \<longrightarrow> too_dear ceiling u)"
  using assms
proof (induction "nat (high + 1 - low)" arbitrary: low high sel v rule: less_induct)
  case less
  show ?case
  proof (cases "low \<le> high")
    case False
    with less.prems show ?thesis
      by (intro exI[of _ sel] exI[of _ v]) (auto simp: budget_loop.simps)
  next
    case True
    define c where "c = low + (high - low) div 2"
    have c: "low \<le> c" "c \<le> high" using True by (auto simp: c_def)
    obtain w where w: "cost c = Inr w"
      using cost_defined[OF less.prems(6), of c] c less.prems(1,2,3) by auto
    show ?thesis
    proof (cases "w \<le> ceiling")
      case le: True
      have "budget_loop cost ceiling low high (sel, v) = budget_loop cost ceiling (c + 1) high (c, w)"
        using True w le by (subst budget_loop.simps) (simp add: c_def[symmetric])
      moreover have "\<exists>t x. budget_loop cost ceiling (c + 1) high (c, w) = Inr (t, x) \<and> lo \<le> t \<and> t \<le> hi \<and>
          cost t = Inr x \<and> x \<le> ceiling \<and> (\<forall>u. t < u \<longrightarrow> u \<le> hi \<longrightarrow> too_dear ceiling u)"
        by (intro less.hyps) (use c le w less.prems in auto)
      ultimately show ?thesis by simp
    next
      case gt: False
      have "budget_loop cost ceiling low high (sel, v) = budget_loop cost ceiling low (c - 1) (sel, v)"
        using True w gt by (subst budget_loop.simps) (simp add: c_def[symmetric])
      moreover have "too_dear ceiling t" if "c - 1 < t" for t
        using too_dear_mono[of ceiling c t] that gt w c less.prems(1,2) by (auto simp: too_dear_def)
      then have "\<exists>t w. budget_loop cost ceiling low (c - 1) (sel, v) = Inr (t, w) \<and> lo \<le> t \<and> t \<le> hi \<and>
          cost t = Inr w \<and> w \<le> ceiling \<and> (\<forall>u. t < u \<longrightarrow> u \<le> hi \<longrightarrow> too_dear ceiling u)"
        by (intro less.hyps) (use c less.prems in auto)
      ultimately show ?thesis by simp
    qed
  qed
qed

end

section \<open>The code's cost function\<close>

lemma reservation_error: "estimateReservationMicroRub e m price b = Inl x \<Longrightarrow> x = usage_invalid"
  by (auto simp: estimateReservationMicroRub_def Let_def res_simps tokenCost_eq applySafetyMargin_def
      split: if_splits)

interpretation reservation: affordable "reservationCost e price b" for e price b
proof unfold_locales
  fix s t :: int and x
  assume st: "0 \<le> s" "0 \<le> t" and x: "reservationCost e price b s = Inl x"
  show "reservationCost e price b t = Inl x"
  proof (cases "estimateReservationMicroRub e t price b")
    case (Inl y)
    with x reservation_error show ?thesis by (metis reservationCost_def)
  next
    case (Inr y)
    then have "\<exists>z. estimateReservationMicroRub e s price b = Inr z" using st by (simp add: reservation_Inr)
    with x show ?thesis by (simp add: reservationCost_def)
  qed
next
  fix s t a c :: int
  assume st: "0 \<le> s" "s \<le> t" and a: "reservationCost e price b s = Inr a"
    and c: "reservationCost e price b t = Inr c"
  from a c have ok: "0 \<le> pq_output price" "0 \<le> b"
    by (simp_all add: reservationCost_def reservation_Inr)
  have "token_cost s (pq_output price) \<le> token_cost t (pq_output price)"
    using st ok by (intro token_cost_mono) auto
  then have "(token_cost e (worst_input price) + token_cost s (pq_output price)) * (10000 + b) + 9999 \<le>
      (token_cost e (worst_input price) + token_cost t (pq_output price)) * (10000 + b) + 9999"
    using ok by (intro add_right_mono mult_right_mono) auto
  from zdiv_mono1[OF this, of 10000] a c show "a \<le> c"
    by (auto simp: reservationCost_def reservation_Inr)
qed

section \<open>Property\<close>

text \<open>
  C15: the search gives the most output the money allows. A funded budget selects a count
  between the profile's minimum and its preferred count (both capped by the model), at the exact
  reservation cost of that count, which is within what is available and within the request limit;
  every greater count up to the preferred one costs more than that. A request is refused only if
  its minimum does not fit.
\<close>

theorem execution_budget_greatest:
  assumes "resolveAiExecutionBudget profile profiles modelMax e available maxReservation price b = Inr res"
  defines "preferred \<equiv> min (bp_preferred (profiles profile)) modelMax"
  defines "minimum \<equiv> min (bp_minimum (profiles profile)) preferred"
  shows "case res of
      FUNDED f \<Rightarrow> minimum \<le> fb_selected f \<and> fb_selected f \<le> preferred \<and> 0 < fb_selected f \<and>
        reservationCost e price b (fb_selected f) = Inr (fb_estimatedCost f) \<and>
        fb_estimatedCost f \<le> min available maxReservation \<and>
        (\<forall>t > fb_selected f. t \<le> preferred \<longrightarrow>
          (\<exists>c. reservationCost e price b t = Inr c \<and> min available maxReservation < c))
    | Budget_INSUFFICIENT_USAGE \<Rightarrow> available \<le> 0 \<or>
        (\<exists>c. reservationCost e price b minimum = Inr c \<and> available < c)
    | REQUEST_COST_LIMIT \<Rightarrow> maxReservation \<le> 0 \<or>
        (\<exists>c. reservationCost e price b minimum = Inr c \<and> maxReservation < c)"
proof (cases "maxReservation \<le> 0 \<or> available \<le> 0")
  case True
  with assms(1) show ?thesis
    by (auto simp: resolveAiExecutionBudget_def res_simps split: if_splits)
next
  case False
  let ?cost = "reservationCost e price b"
  let ?ceiling = "min available maxReservation"
  have ceil: "(if available < maxReservation then available else maxReservation) = ?ceiling" by auto
  from assms(1) False have pos: "0 < modelMax" "0 < bp_minimum (profiles profile)"
      "bp_minimum (profiles profile) \<le> bp_preferred (profiles profile)"
    by (auto simp: resolveAiExecutionBudget_def validateProfile_def assertPositiveInteger_def res_simps
        Let_def split: if_splits)
  then have range: "0 < minimum" "minimum \<le> preferred" by (auto simp: minimum_def preferred_def)
  from assms(1) False obtain mc where mc: "?cost minimum = Inr mc"
    by (auto simp: resolveAiExecutionBudget_def res_simps Let_def minimum_def preferred_def split: if_splits)
  show ?thesis
  proof (cases "mc > maxReservation \<or> mc > available")
    case True
    with False mc assms(1) show ?thesis
      by (auto simp: resolveAiExecutionBudget_def res_simps Let_def minimum_def preferred_def split: if_splits)
  next
    case fits: False
    from reservation.cost_defined[OF mc, of preferred] range obtain pc where pc: "?cost preferred = Inr pc"
      by auto
    from reservation.loop_greatest[where lo = minimum and low = minimum and sel = minimum and
        hi = preferred and high = preferred and ceiling = ?ceiling, OF _ _ _ _ _ mc] range fits
    obtain t w where loop: "budget_loop ?cost ?ceiling minimum preferred (minimum, mc) = Inr (t, w)"
        "minimum \<le> t" "t \<le> preferred" "?cost t = Inr w" "w \<le> ?ceiling"
        "\<forall>u. t < u \<longrightarrow> u \<le> preferred \<longrightarrow> reservation.too_dear e price b ?ceiling u"
      by (auto simp: not_less)
    have "res = FUNDED \<lparr>fb_profile = profile, fb_preferred = preferred, fb_minimum = minimum,
        fb_selected = (if pc \<le> ?ceiling then preferred else t),
        fb_estimatedCost = (if pc \<le> ?ceiling then pc else w)\<rparr>"
      using assms(1) False fits mc pc loop(1) unfolding resolveAiExecutionBudget_def Let_def
      by (auto simp: res_simps ceil minimum_def[symmetric] preferred_def[symmetric] split: if_splits)
    then show ?thesis
      using loop range pc by (auto simp: reservation.too_dear_def)
  qed
qed

lemma execution_budget_greatest_witness:
  "\<exists>f. resolveAiExecutionBudget SHORT DEFAULT_AI_EXECUTION_BUDGET_PROFILES 600 0 300 1000
      \<lparr>pq_input = 0, pq_output = 1000000, pq_cacheRead = None, pq_cacheWrite = None\<rparr> 0 = Inr (FUNDED f) \<and>
    fb_selected f = 300 \<and> 0 < fb_selected f"
proof -
  let ?p = "\<lparr>pq_input = 0, pq_output = 1000000, pq_cacheRead = None, pq_cacheWrite = None\<rparr>"
  have "case resolveAiExecutionBudget SHORT DEFAULT_AI_EXECUTION_BUDGET_PROFILES 600 0 300 1000 ?p 0 of
      Inr (FUNDED f) \<Rightarrow> fb_selected f = 300 | _ \<Rightarrow> False"
    by code_simp
  then obtain f where "resolveAiExecutionBudget SHORT DEFAULT_AI_EXECUTION_BUDGET_PROFILES 600 0 300 1000
      ?p 0 = Inr (FUNDED f)" "fb_selected f = 300"
    by (auto split: sum.splits budget_result.splits)
  with execution_budget_greatest[OF this(1)] show ?thesis by auto
qed

end
