(* ===== verification/Ai_Estimate.thy ===== *)
theory Ai_Estimate
  imports Ai_Cost "HOL-Library.Word" "HOL-Library.Sublist"
begin

text \<open>
  \<open>packages/ai/src/estimate.ts\<close>: the size of a message in UTF-8 bytes, the bound on input
  tokens derived from it, and the choice of the latest messages that fit a byte budget. A
  JavaScript string is a list of UTF-16 code units, here \<open>16 word list\<close>.
  \<open>estimateProviderRequestInputTokens\<close> serialises with \<open>JSON.stringify\<close> and is left out.
\<close>

type_synonym code_unit = "16 word"
type_synonym js_text = "code_unit list"

definition MESSAGE_OVERHEAD_BYTES :: nat where "MESSAGE_OVERHEAD_BYTES = 24"
definition SAFETY_BYTES :: nat where "SAFETY_BYTES = 32"

definition high_surrogate :: "code_unit \<Rightarrow> bool" where
  "high_surrogate u \<longleftrightarrow> 0xD800 \<le> u \<and> u \<le> 0xDBFF"

definition low_surrogate :: "code_unit \<Rightarrow> bool" where
  "low_surrogate u \<longleftrightarrow> 0xDC00 \<le> u \<and> u \<le> 0xDFFF"

text \<open>
  \<open>Buffer.byteLength(value, "utf8")\<close>: a surrogate pair takes four bytes, a lone surrogate is
  replaced by U+FFFD, which takes three.
\<close>

fun utf8ByteLength :: "js_text \<Rightarrow> nat" where
  "utf8ByteLength [] = 0"
| "utf8ByteLength [u] = (if u < 0x80 then 1 else if u < 0x800 then 2 else 3)"
| "utf8ByteLength (u # v # rest) =
    (if high_surrogate u \<and> low_surrogate v then 4 + utf8ByteLength rest
     else (if u < 0x80 then 1 else if u < 0x800 then 2 else 3) + utf8ByteLength (v # rest))"

definition estimateInputTokens :: "js_text list \<Rightarrow> nat" where
  "estimateInputTokens contents =
    (let bytes = fold (\<lambda>c n. n + (utf8ByteLength c + MESSAGE_OVERHEAD_BYTES)) contents SAFETY_BYTES
     in if bytes < 1 then 1 else bytes)"

definition assertMessageSize :: "js_text \<Rightarrow> nat \<Rightarrow> ai_error + unit" where
  "assertMessageSize content maxBytes =
    (if utf8ByteLength content > maxBytes then Inl (AiError MESSAGE_TOO_LARGE 400) else Inr ())"

text \<open>
  The loop runs from the last message to the first, so it is given the reversed list;
  \<open>selected\<close> is what has been pushed, in push order.
\<close>

fun select_loop :: "('m \<Rightarrow> js_text) \<Rightarrow> nat \<Rightarrow> 'm list \<Rightarrow> 'm list \<Rightarrow> nat \<Rightarrow> 'm list" where
  "select_loop content maxContextBytes [] selected used = selected"
| "select_loop content maxContextBytes (message # rest) selected used =
    (let size = utf8ByteLength (content message) + MESSAGE_OVERHEAD_BYTES in
     if length selected > 0 \<and> used + size > maxContextBytes then selected
     else select_loop content maxContextBytes rest (selected @ [message]) (used + size))"

definition selectContextMessages :: "('m \<Rightarrow> js_text) \<Rightarrow> 'm list \<Rightarrow> nat \<Rightarrow> 'm list" where
  "selectContextMessages content messages maxContextBytes =
    rev (select_loop content maxContextBytes (rev messages) [] 0)"

section \<open>Lemmas\<close>

definition context_size :: "('m \<Rightarrow> js_text) \<Rightarrow> 'm list \<Rightarrow> nat" where
  "context_size content ms = sum_list (map (\<lambda>m. utf8ByteLength (content m) + MESSAGE_OVERHEAD_BYTES) ms)"

lemma context_size_simps [simp]:
  "context_size c [] = 0"
  "context_size c (m # ms) = utf8ByteLength (c m) + MESSAGE_OVERHEAD_BYTES + context_size c ms"
  "context_size c (xs @ ys) = context_size c xs + context_size c ys"
  by (simp_all add: context_size_def)

lemma context_size_rev [simp]: "context_size c (rev ms) = context_size c ms"
  by (induction ms) simp_all

text \<open>The loop takes a prefix of what is left, as long as it fits.\<close>

lemma select_loop_prefix:
  assumes "used = context_size c sel"
  shows "\<exists>taken rest. ms = taken @ rest \<and> select_loop c mx ms sel used = sel @ taken \<and>
    (sel = [] \<longrightarrow> ms \<noteq> [] \<longrightarrow> taken \<noteq> []) \<and>
    (context_size c (sel @ taken) \<le> mx \<or> length (sel @ taken) \<le> 1 \<or> taken = []) \<and>
    (rest \<noteq> [] \<longrightarrow> mx < context_size c (sel @ taken) + context_size c [hd rest])"
  using assms
proof (induction ms arbitrary: sel used)
  case Nil
  then show ?case by simp
next
  case (Cons m ms)
  show ?case
  proof (cases "length sel > 0 \<and> used + (utf8ByteLength (c m) + MESSAGE_OVERHEAD_BYTES) > mx")
    case True
    with Cons.prems show ?thesis
      by (intro exI[of _ "[]"] exI[of _ "m # ms"]) (auto simp: Let_def)
  next
    case False
    have "used + (utf8ByteLength (c m) + MESSAGE_OVERHEAD_BYTES) = context_size c (sel @ [m])"
      using Cons.prems by simp
    from Cons.IH[OF this] obtain taken rest where ih: "ms = taken @ rest"
        "select_loop c mx ms (sel @ [m]) (used + (utf8ByteLength (c m) + MESSAGE_OVERHEAD_BYTES)) =
          (sel @ [m]) @ taken"
        "context_size c ((sel @ [m]) @ taken) \<le> mx \<or> length ((sel @ [m]) @ taken) \<le> 1 \<or> taken = []"
        "rest \<noteq> [] \<longrightarrow> mx < context_size c ((sel @ [m]) @ taken) + context_size c [hd rest]"
      by auto
    have "select_loop c mx (m # ms) sel used = sel @ (m # taken)"
      using False ih(2) by (auto simp: Let_def)
    moreover have "context_size c (sel @ m # taken) \<le> mx \<or> length (sel @ m # taken) \<le> 1"
      using ih(3) False Cons.prems by (cases "taken = []") auto
    ultimately show ?thesis
      using ih(1,4) by (intro exI[of _ "m # taken"] exI[of _ rest]) auto
  qed
qed

lemma utf8_bounds: "length s \<le> utf8ByteLength s \<and> utf8ByteLength s \<le> 3 * length s"
  by (induction s rule: utf8ByteLength.induct) auto

section \<open>Property\<close>

text \<open>
  The context is the longest run of latest messages that fits. The selection is a suffix of
  the messages, never empty unless there are none, it stays within the byte limit unless it is
  the last message alone, and the message before it would exceed the limit; the token estimate
  of what is selected is its size in bytes with the fixed overheads.
\<close>

theorem context_selection_maximal:
  "\<exists>dropped. messages = dropped @ selectContextMessages content messages limit \<and>
    (selectContextMessages content messages limit = [] \<longrightarrow> messages = []) \<and>
    (context_size content (selectContextMessages content messages limit) \<le> limit \<or>
      length (selectContextMessages content messages limit) \<le> 1) \<and>
    (dropped \<noteq> [] \<longrightarrow> limit < context_size content
      (last dropped # selectContextMessages content messages limit)) \<and>
    estimateInputTokens (map content (selectContextMessages content messages limit)) =
      SAFETY_BYTES + context_size content (selectContextMessages content messages limit)"
proof -
  have est: "estimateInputTokens (map content ms) = SAFETY_BYTES + context_size content ms" for ms
  proof -
    have "fold (\<lambda>c n. n + (utf8ByteLength c + MESSAGE_OVERHEAD_BYTES)) (map content ms) x =
        x + context_size content ms" for x
      by (induction ms arbitrary: x) simp_all
    then show ?thesis by (simp add: estimateInputTokens_def SAFETY_BYTES_def)
  qed
  have "(0::nat) = context_size content []" by simp
  from select_loop_prefix[OF this, of "rev messages" limit, unfolded append_Nil]
  obtain taken rest where t: "rev messages = taken @ rest"
      "select_loop content limit (rev messages) [] 0 = taken" "rev messages \<noteq> [] \<longrightarrow> taken \<noteq> []"
      "context_size content taken \<le> limit \<or> length taken \<le> 1 \<or> taken = []"
      "rest \<noteq> [] \<longrightarrow> limit < context_size content taken + context_size content [hd rest]"
    by blast
  have s: "selectContextMessages content messages limit = rev taken"
    by (simp add: selectContextMessages_def t(2))
  have m: "messages = rev rest @ rev taken" using arg_cong[OF t(1), of rev] by simp
  show ?thesis
    unfolding s using t(3-5) m est
    by (intro exI[of _ "rev rest"]) (auto simp: last_rev hd_rev)
qed

lemma context_selection_maximal_witness:
  "selectContextMessages id [[65], [66], [67]] 50 = [[66], [67]] \<and>
    50 < context_size id ([65] # selectContextMessages id [[65], [66], [67]] 50)"
proof -
  have s: "selectContextMessages id [[65], [66], [67]] 50 = [[66], [67]]" by code_simp
  obtain dropped where "[[65], [66], [67]] = dropped @ [[66], [67]]"
      "dropped \<noteq> [] \<Longrightarrow> 50 < context_size id (last dropped # [[66], [67::code_unit]])"
    using context_selection_maximal[of "[[65], [66], [67]]" id 50] unfolding s by blast
  moreover from this(1) have "dropped = [[65]]" by (cases dropped) auto
  ultimately show ?thesis by (simp add: s)
qed

end
