(* ===== verification/Effects.thy ===== *)
theory Effects
  imports Vimla_Prelude
begin

text \<open>
  Operations that change their state even when they throw: a result or an error together with
  the state left behind, sequenced by \<open>sbind\<close>. A database call may also be disturbed: the
  connection is lost before it or after its commit (\<open>fault\<close>).
\<close>

section \<open>State and exceptions\<close>

definition sbind :: "('e + 'a) \<times> 's \<Rightarrow> ('a \<Rightarrow> 's \<Rightarrow> ('e + 'b) \<times> 's) \<Rightarrow> ('e + 'b) \<times> 's" where
  "sbind m f = (case m of (Inl e, st) \<Rightarrow> (Inl e, st) | (Inr a, st) \<Rightarrow> f a st)"

lemma sbind_simps [simp]:
  "sbind (Inl e, st) f = (Inl e, st)" "sbind (Inr a, st) f = f a st"
  by (simp_all add: sbind_def)

text \<open>A property of the state that the first part and every continuation keep.\<close>

lemma sbind_state:
  assumes "P (snd m)" and "\<And>a st. m = (Inr a, st) \<Longrightarrow> P st \<Longrightarrow> P (snd (f a st))"
  shows "P (snd (sbind m f))"
  using assms by (cases m; cases "fst m") auto

lemma sbind_cong:
  assumes "m = m'" and "\<And>a st. m' = (Inr a, st) \<Longrightarrow> f a st = g a st"
  shows "sbind m f = sbind m' g"
  using assms by (cases m'; cases "fst m'") auto

section \<open>Disturbed transactions\<close>

lemma commit_simps [simp]:
  "commit s (Inl e) = s"
  "commit s (Inr (s', r)) = s'"
  by (simp_all add: commit_def)

datatype 'e fault = No_Fault | Fail_Before 'e | Fail_After 'e

text \<open>A transaction with its disturbance: \<open>Fail_After\<close> loses the answer of a commit.\<close>

definition faulty :: "'e fault \<Rightarrow> 's \<Rightarrow> 'e + 's \<times> 'r \<Rightarrow> ('e + 'r) \<times> 's" where
  "faulty f s res = (case f of
     No_Fault \<Rightarrow> (map_sum id snd res, commit s res)
   | Fail_Before e \<Rightarrow> (Inl e, s)
   | Fail_After e \<Rightarrow> (Inl e, commit s res))"

lemma faulty_simps [simp]:
  "faulty No_Fault s (Inl e) = (Inl e, s)"
  "faulty No_Fault s (Inr (s', r)) = (Inr r, s')"
  "faulty (Fail_Before d) s res = (Inl d, s)"
  "faulty (Fail_After d) s (Inl e) = (Inl d, s)"
  "faulty (Fail_After d) s (Inr (s', r)) = (Inl d, s')"
  by (simp_all add: faulty_def)

lemma snd_faulty: "snd (faulty f s res) = s \<or> snd (faulty f s res) = commit s res"
  by (cases f) (simp_all add: faulty_def)

lemma faulty_Inr:
  "faulty f s res = (Inr r, s') \<longleftrightarrow> f = No_Fault \<and> res = Inr (s', r)"
  by (cases f; cases res) auto

end
