(* ===== verification/Ai_Reconcile.thy ===== *)
theory Ai_Reconcile
  imports Payment_Invariant Effects Orders
begin

text \<open>
  \<open>packages/ai/src/reconciliation.ts\<close>: the background scan that closes AI requests whose
  process died. It works on the request and provider-turn tables and calls \<open>settleUsage\<close> and
  \<open>releaseUsage\<close> of the billing engine. The scan reads its items first and then treats one
  after the other; an item that throws is counted and left. Each item runs in an environment
  \<open>item_env\<close>: the clock readings, and what disturbs its database calls. Logging and the
  metrics at the end of a scan are left out.
\<close>

section \<open>Tables\<close>

record ai_request =
  rq_id :: string
  rq_userId :: string
  rq_reservationId :: "nat option"
  rq_status :: string
  rq_financialStatus :: string
  rq_providerActualCost :: "microRub option"
  rq_userSettled :: "microRub option"
  rq_outputText :: "string option"
  rq_createdAt :: int
  rq_startedAt :: "int option"
  rq_finishedAt :: "int option"

record provider_turn =
  tn_id :: string
  tn_aiRequestId :: string
  tn_status :: string
  tn_toolCallError :: bool
  tn_providerInterrupted :: bool
  tn_updatedAt :: int

record ai_db = usage_db +
  ad_requests :: "ai_request list"
  ad_turns :: "provider_turn list"

definition PRE_PROVIDER_TURN_STATUSES :: "string list" where
  "PRE_PROVIDER_TURN_STATUSES = [''CREATED'', ''RESERVED'']"

definition POST_PROVIDER_TURN_STATUSES :: "string list" where
  "POST_PROVIDER_TURN_STATUSES = [''PROVIDER_STARTING'', ''PROVIDER_IN_FLIGHT'', ''USAGE_DURABLE'',
    ''SETTLING'', ''RECONCILIATION_REQUIRED'']"

definition LEGACY_PRE_PROVIDER_STATUSES :: "string list" where
  "LEGACY_PRE_PROVIDER_STATUSES = [''CREATED'', ''RESERVED'']"

definition LEGACY_POST_PROVIDER_STATUSES :: "string list" where
  "LEGACY_POST_PROVIDER_STATUSES = [''PROVIDER_STARTED'', ''STREAMING'', ''RECONCILIATION_REQUIRED'']"

record counters =
  ct_scannedTurns :: nat
  ct_scannedLegacy :: nat
  ct_released :: nat
  ct_settled :: nat
  ct_held :: nat
  ct_failedBeforeProvider :: nat
  ct_finalized :: nat
  ct_errors :: nat

definition no_counts :: counters where
  "no_counts = \<lparr>ct_scannedTurns = 0, ct_scannedLegacy = 0, ct_released = 0, ct_settled = 0,
    ct_held = 0, ct_failedBeforeProvider = 0, ct_finalized = 0, ct_errors = 0\<rparr>"

record cutoffs =
  cu_preProvider :: int
  cu_provider :: int

record item_env =
  ie_read :: "js_error option"
  ie_billing :: "js_error fault"
  ie_update :: "js_error fault"
  ie_now1 :: int
  ie_now2 :: int
  ie_now3 :: int
  ie_now :: int

section \<open>Database calls\<close>

type_synonym 'a rec_state = "'a ai_db_scheme \<times> counters"

definition db_call ::
    "js_error fault \<Rightarrow> ('d \<Rightarrow> js_error + 'd \<times> 'r) \<Rightarrow> 'd \<times> 'c \<Rightarrow> (js_error + 'r) \<times> ('d \<times> 'c)" where
  "db_call f op st = (case faulty f (fst st) (op (fst st)) of (res, db) \<Rightarrow> (res, (db, snd st)))"

definition count_up :: "('c \<Rightarrow> 'c) \<Rightarrow> 'd \<times> 'c \<Rightarrow> 'd \<times> 'c" where
  "count_up f st = (fst st, f (snd st))"

text \<open>The transactions that end an item: the request row, and the turn row when there is one.\<close>

definition finish_work ::
    "string \<Rightarrow> (ai_request \<Rightarrow> ai_request) \<Rightarrow> string option \<Rightarrow> string \<Rightarrow> int \<Rightarrow> 'a ai_db_scheme \<Rightarrow>
      js_error + 'a ai_db_scheme \<times> unit" where
  "finish_work requestId f turnId turnStatus now db =
    (if row_find rq_id requestId (ad_requests db) = None then Inl (DbError ''P2025'' '''')
     else case turnId of
       None \<Rightarrow> Inr (db\<lparr>ad_requests := row_update rq_id requestId f (ad_requests db)\<rparr>, ())
     | Some t \<Rightarrow>
         if row_find tn_id t (ad_turns db) = None then Inl (DbError ''P2025'' '''')
         else Inr (db\<lparr>ad_requests := row_update rq_id requestId f (ad_requests db),
           ad_turns := row_update tn_id t (\<lambda>x. x\<lparr>tn_status := turnStatus, tn_updatedAt := now\<rparr>)
             (ad_turns db)\<rparr>, ()))"

definition findReservation :: "ai_request \<Rightarrow> 'a usage_db_scheme \<Rightarrow> usage_reservation option" where
  "findReservation request db =
    (let by_request = find (\<lambda>r. rs_userId r = rq_userId request \<and> rs_requestId r = rq_id request)
           (db_reservations db)
     in case rq_reservationId request of
       None \<Rightarrow> by_request
     | Some i \<Rightarrow> (case row_find rs_id i (db_reservations db) of Some r \<Rightarrow> Some r | None \<Rightarrow> by_request))"

section \<open>One item\<close>

definition or_now :: "int option \<Rightarrow> int \<Rightarrow> int option" where
  "or_now d now = (case d of None \<Rightarrow> Some now | Some t \<Rightarrow> Some t)"

definition holdAmbiguous ::
    "item_env \<Rightarrow> ai_request \<Rightarrow> string option \<Rightarrow> nat option \<Rightarrow> 'a rec_state \<Rightarrow>
      (js_error + unit) \<times> 'a rec_state" where
  "holdAmbiguous env request turnId reservationId st =
    sbind (db_call (ie_update env) (finish_work (rq_id request)
        (\<lambda>q. q\<lparr>rq_reservationId := reservationId, rq_status := ''RECONCILIATION_REQUIRED'',
          rq_financialStatus := ''RECONCILIATION_HOLD'',
          rq_finishedAt := or_now (rq_finishedAt request) (ie_now env)\<rparr>)
        turnId ''RECONCILIATION_REQUIRED'' (ie_now env)) st)
      (\<lambda>_ st. (Inr (), count_up (\<lambda>c. c\<lparr>ct_held := Suc (ct_held c)\<rparr>) st))"

definition reconcile_label :: "ai_request \<Rightarrow> string option" where
  "reconcile_label request = Some (''ai-reconcile:'' @ rq_id request)"

text \<open>The settlement of an active reservation, and the transaction that closes the item.\<close>

definition settle_durable ::
    "item_env \<Rightarrow> ai_request \<Rightarrow> usage_reservation \<Rightarrow> microRub \<Rightarrow> 'a rec_state \<Rightarrow>
      (js_error + microRub \<times> reservation_status) \<times> 'a rec_state" where
  "settle_durable env request r actual st =
    (if rs_status r = ACTIVE
     then sbind (db_call (ie_billing env) (settleUsage (rq_userId request) (rs_id r) actual
              (reconcile_label request) (ie_now1 env) (ie_now2 env) (ie_now3 env)) st)
       (\<lambda>settled st. (Inr (rv_settled settled, rv_status settled),
          count_up (\<lambda>c. c\<lparr>ct_settled := Suc (ct_settled c)\<rparr>) st))
     else (Inr (rs_settled r, rs_status r), st))"

definition finalize_durable ::
    "item_env \<Rightarrow> ai_request \<Rightarrow> string option \<Rightarrow> bool \<Rightarrow> bool \<Rightarrow> nat \<Rightarrow> microRub \<times> reservation_status \<Rightarrow>
      'a rec_state \<Rightarrow> (js_error + unit) \<times> 'a rec_state" where
  "finalize_durable env request turnId toolCallError providerInterrupted reservationId settled st =
    sbind (db_call (ie_update env) (finish_work (rq_id request)
        (\<lambda>q. q\<lparr>rq_reservationId := Some reservationId,
          rq_status := (if rq_outputText request = None \<or> toolCallError \<or> providerInterrupted
            then ''FAILED'' else ''SUCCEEDED''),
          rq_financialStatus := (if snd settled = ANOMALY then ''ANOMALY'' else ''SETTLED''),
          rq_userSettled := Some (fst settled),
          rq_finishedAt := or_now (rq_finishedAt request) (ie_now env)\<rparr>)
        turnId ''SUCCEEDED'' (ie_now env)) st)
      (\<lambda>_ st. (Inr (), count_up (\<lambda>c. c\<lparr>ct_finalized := Suc (ct_finalized c)\<rparr>) st))"

definition reconcileDurableUsage ::
    "item_env \<Rightarrow> ai_request \<Rightarrow> string option \<Rightarrow> bool \<Rightarrow> bool \<Rightarrow> usage_reservation option \<Rightarrow>
      'a rec_state \<Rightarrow> (js_error + unit) \<times> 'a rec_state" where
  "reconcileDurableUsage env request turnId toolCallError providerInterrupted reservation st =
    (case (rq_providerActualCost request, reservation) of
       (Some actual, Some r) \<Rightarrow>
         if actual > rs_estimated r then holdAmbiguous env request turnId (Some (rs_id r)) st
         else if rs_status r = RELEASED then holdAmbiguous env request turnId (Some (rs_id r)) st
         else if rs_status r \<notin> {ACTIVE, SETTLED, ANOMALY}
         then holdAmbiguous env request turnId (Some (rs_id r)) st
         else sbind (settle_durable env request r actual st)
           (finalize_durable env request turnId toolCallError providerInterrupted (rs_id r))
     | _ \<Rightarrow> holdAmbiguous env request turnId (map_option rs_id reservation) st)"

definition fail_update ::
    "item_env \<Rightarrow> ai_request \<Rightarrow> string option \<Rightarrow> nat option \<Rightarrow> string \<Rightarrow> 'a rec_state \<Rightarrow>
      (js_error + unit) \<times> 'a rec_state" where
  "fail_update env request turnId reservationId financialStatus st =
    db_call (ie_update env) (finish_work (rq_id request)
      (\<lambda>q. q\<lparr>rq_reservationId := reservationId, rq_status := ''FAILED'',
        rq_financialStatus := financialStatus,
        rq_finishedAt := or_now (rq_finishedAt request) (ie_now env)\<rparr>)
      turnId ''FAILED_PRE_PROVIDER'' (ie_now env)) st"

definition failBeforeProvider ::
    "item_env \<Rightarrow> ai_request \<Rightarrow> string option \<Rightarrow> usage_reservation option \<Rightarrow> 'a rec_state \<Rightarrow>
      (js_error + unit) \<times> 'a rec_state" where
  "failBeforeProvider env request turnId reservation st =
    (case reservation of
       Some r \<Rightarrow>
         (case rs_status r of
            ACTIVE \<Rightarrow>
              sbind (db_call (ie_billing env) (releaseUsage (rq_userId request) (rs_id r)
                  (reconcile_label request) (ie_now1 env) (ie_now2 env)) st)
                (\<lambda>_ st. fail_update env request turnId (Some (rs_id r)) ''RELEASED''
                   (count_up (\<lambda>c. c\<lparr>ct_released := Suc (ct_released c)\<rparr>) st))
          | RELEASED \<Rightarrow> fail_update env request turnId (Some (rs_id r)) ''RELEASED'' st
          | _ \<Rightarrow> holdAmbiguous env request turnId (Some (rs_id r)) st)
     | None \<Rightarrow> fail_update env request turnId None ''NONE''
         (count_up (\<lambda>c. c\<lparr>ct_failedBeforeProvider := Suc (ct_failedBeforeProvider c)\<rparr>) st))"

definition reconcileProviderTurn ::
    "item_env \<Rightarrow> provider_turn \<Rightarrow> ai_request \<Rightarrow> 'a rec_state \<Rightarrow> (js_error + unit) \<times> 'a rec_state" where
  "reconcileProviderTurn env turn request st =
    (case ie_read env of Some e \<Rightarrow> (Inl e, st) | None \<Rightarrow>
      (let reservation = findReservation request (fst st) in
       if rq_providerActualCost request \<noteq> None
       then reconcileDurableUsage env request (Some (tn_id turn)) (tn_toolCallError turn)
         (tn_providerInterrupted turn) reservation st
       else if tn_status turn \<in> set PRE_PROVIDER_TURN_STATUSES
       then failBeforeProvider env request (Some (tn_id turn)) reservation st
       else holdAmbiguous env request (Some (tn_id turn)) (map_option rs_id reservation) st))"

definition reconcileLegacyRequest ::
    "item_env \<Rightarrow> ai_request \<Rightarrow> 'a rec_state \<Rightarrow> (js_error + unit) \<times> 'a rec_state" where
  "reconcileLegacyRequest env request st =
    (case ie_read env of Some e \<Rightarrow> (Inl e, st) | None \<Rightarrow>
      (let reservation = findReservation request (fst st) in
       if rq_providerActualCost request \<noteq> None
       then reconcileDurableUsage env request None False False reservation st
       else if rq_status request \<in> set LEGACY_PRE_PROVIDER_STATUSES
       then failBeforeProvider env request None reservation st
       else holdAmbiguous env request None (map_option rs_id reservation) st))"

section \<open>The scan\<close>

definition stale_turn :: "cutoffs \<Rightarrow> provider_turn \<Rightarrow> bool" where
  "stale_turn c t \<longleftrightarrow>
    (tn_status t \<in> set PRE_PROVIDER_TURN_STATUSES \<and> tn_updatedAt t < cu_preProvider c) \<or>
    (tn_status t \<in> set POST_PROVIDER_TURN_STATUSES \<and> tn_updatedAt t < cu_provider c)"

definition stale_legacy :: "cutoffs \<Rightarrow> ai_request \<Rightarrow> bool" where
  "stale_legacy c q \<longleftrightarrow>
    (rq_status q \<in> set LEGACY_PRE_PROVIDER_STATUSES \<and> rq_createdAt q < cu_preProvider c) \<or>
    (rq_status q \<in> set LEGACY_POST_PROVIDER_STATUSES \<and>
      (case rq_startedAt q of Some s \<Rightarrow> s < cu_provider c | None \<Rightarrow> rq_createdAt q < cu_provider c))"

definition turn_order :: "provider_turn \<Rightarrow> provider_turn \<Rightarrow> int" where
  "turn_order = cmp_then (cmp_on int_cmp tn_updatedAt) (cmp_on string_cmp tn_id)"

definition request_order :: "ai_request \<Rightarrow> ai_request \<Rightarrow> int" where
  "request_order = cmp_then (cmp_on int_cmp rq_createdAt) (cmp_on string_cmp rq_id)"

definition scan_turns :: "cutoffs \<Rightarrow> nat \<Rightarrow> 'a ai_db_scheme \<Rightarrow> (provider_turn \<times> ai_request) list" where
  "scan_turns c n db = concat (map (\<lambda>t.
      case row_find rq_id (tn_aiRequestId t) (ad_requests db) of None \<Rightarrow> [] | Some q \<Rightarrow> [(t, q)])
    (take n (js_sort turn_order (filter (stale_turn c) (ad_turns db)))))"

definition scan_legacy :: "cutoffs \<Rightarrow> nat \<Rightarrow> 'a ai_db_scheme \<Rightarrow> ai_request list" where
  "scan_legacy c n db = take n (js_sort request_order
    (filter (\<lambda>q. rq_id q \<notin> tn_aiRequestId ` set (ad_turns db) \<and> stale_legacy c q) (ad_requests db)))"

definition caught :: "(js_error + unit) \<times> 'a rec_state \<Rightarrow> 'a rec_state" where
  "caught m = (case m of (Inr _, st) \<Rightarrow> st
     | (Inl _, st) \<Rightarrow> count_up (\<lambda>c. c\<lparr>ct_errors := Suc (ct_errors c)\<rparr>) st)"

definition reconcile ::
    "(string \<Rightarrow> item_env) \<Rightarrow> cutoffs \<Rightarrow> int \<Rightarrow> 'a ai_db_scheme \<Rightarrow> 'a rec_state" where
  "reconcile env lim batchSize db =
    (let taken = nat (max 1 (min batchSize 500));
         turns = scan_turns lim taken db;
         st = fold (\<lambda>(t, q) st. caught (reconcileProviderTurn (env (rq_id q)) t q st)) turns
           (db, no_counts\<lparr>ct_scannedTurns := length turns\<rparr>);
         remaining = taken - length turns
     in if remaining = 0 then st
        else let requests = scan_legacy lim remaining (fst st) in
          fold (\<lambda>q st. caught (reconcileLegacyRequest (env (rq_id q)) q st)) requests
            (count_up (\<lambda>c. c\<lparr>ct_scannedLegacy := length requests\<rparr>) st))"

end
