(* ===== verification/Ai_Reconcile_Properties.thy ===== *)
theory Ai_Reconcile_Properties
  imports Ai_Reconcile
begin

text \<open>
  What a reconciliation scan may do to money, and that an interrupted item is completed by the
  next scan as if nothing had happened. Both rest on the facts of the billing engine: a
  settlement within the estimate and a release change one reservation row in a known way.
\<close>

section \<open>One reservation row\<close>

definition settled_row :: "microRub \<Rightarrow> int \<Rightarrow> usage_reservation \<Rightarrow> usage_reservation" where
  "settled_row a t r = r\<lparr>rs_settled := a, rs_status := SETTLED, rs_settledAt := Some t\<rparr>"

definition released_row :: "int \<Rightarrow> usage_reservation \<Rightarrow> usage_reservation" where
  "released_row t r = r\<lparr>rs_status := RELEASED, rs_settled := 0, rs_settledAt := Some t\<rparr>"

lemma closed_row_keys [simp]:
  "rs_id (settled_row a t r) = rs_id r" "rs_userId (settled_row a t r) = rs_userId r"
  "rs_requestId (settled_row a t r) = rs_requestId r" "rs_estimated (settled_row a t r) = rs_estimated r"
  "rs_status (settled_row a t r) = SETTLED" "rs_settled (settled_row a t r) = a"
  "rs_id (released_row t r) = rs_id r" "rs_userId (released_row t r) = rs_userId r"
  "rs_requestId (released_row t r) = rs_requestId r" "rs_estimated (released_row t r) = rs_estimated r"
  "rs_status (released_row t r) = RELEASED" "rs_settled (released_row t r) = 0"
  by (simp_all add: settled_row_def released_row_def)

lemma settle_step_reservations:
  "settle_step u rid c x st = Inr st' \<Longrightarrow> db_reservations (fst st') = db_reservations (fst st)"
  by (auto simp: settle_step_def Let_def appendLedger_def split: prod.splits option.splits)

lemma release_step_reservations:
  "release_step u rid c x st = Inr st' \<Longrightarrow> db_reservations (fst st') = db_reservations (fst st)"
  by (auto simp: release_step_def Let_def appendLedger_def split: prod.splits option.splits)

lemma fold_reservations:
  assumes "fold_res f xs st = Inr st'"
    and "\<And>x s s'. f x s = Inr s' \<Longrightarrow> db_reservations (fst s') = db_reservations (fst s)"
  shows "db_reservations (fst st') = db_reservations (fst st)"
  using fold_res_invariant[OF assms(1), of "\<lambda>s. db_reservations (fst s) = db_reservations (fst st)"]
    assms(2) by metis

lemma settle_within:
  assumes ok: "usage_ok db" and st: "settleUsage u rid a c n1 n2 n3 db = Inr (db', v)"
    and r: "r \<in> set (db_reservations db)" "rs_id r = rid" "rs_status r = ACTIVE" "a \<le> rs_estimated r"
  shows "db_reservations db' = row_update rs_id rid (settled_row a n3) (db_reservations db) \<and>
    rv_settled v = a \<and> rv_status v = SETTLED \<and> rs_userId r = u \<and> 0 \<le> a"
proof -
  from st obtain x where x: "lockReservationForUser db u rid = Inr x" and a: "0 \<le> a"
    by (auto simp: settleUsage_def res_simps split: if_splits)
  from lockReservation_Inr[OF x] r(1,2) ok have xr: "x = r" "rs_userId r = u"
    by (auto simp: usage_ok_def pool_ok_def keys_ok_def distinct_map inj_on_def)
  from st x xr r(3,4) a obtain st1 where
      f: "fold_res (settle_step u (rs_id r) c) (orderAllocations (reservation_allocations db (rs_id r))
          (lockUserBuckets db u (map al_bucketId (reservation_allocations db (rs_id r))) n1))
        (db, lockUserBuckets db u (map al_bucketId (reservation_allocations db (rs_id r))) n1, a) = Inr st1"
    and d: "db' = (fst st1)\<lparr>db_reservations := row_update rs_id (rs_id r)
        (\<lambda>r. r\<lparr>rs_settled := a, rs_status := SETTLED, rs_settledAt := Some n3\<rparr>) (db_reservations (fst st1))\<rparr>"
    and v: "getReservation db' (rs_id r) = Inr v"
    by (auto simp: settleUsage_def settle_extend_def Let_def res_simps split: if_splits)
  from fold_reservations[OF f settle_step_reservations] have rows: "db_reservations (fst st1) = db_reservations db"
    by simp
  then have rows': "db_reservations db' = row_update rs_id rid (settled_row a n3) (db_reservations db)"
    by (simp add: d r(2) settled_row_def[abs_def])
  then have "settled_row a n3 r \<in> set (db_reservations db')"
    using r(1,2) by (force simp: set_row_update)
  moreover have "distinct (map rs_id (db_reservations db'))"
    using ok by (simp add: rows' usage_ok_def pool_ok_def keys_ok_def)
  ultimately have "v = toReservationView (settled_row a n3 r) (reservation_allocations db' (rs_id r))"
    using getReservation_eq[of db' "settled_row a n3 r"] v by simp
  then show ?thesis using rows' a xr by (simp add: toReservationView_def)
qed

lemma release_row:
  assumes ok: "usage_ok db" and st: "releaseUsage u rid c n1 n2 db = Inr (db', v)"
    and r: "r \<in> set (db_reservations db)" "rs_id r = rid" "rs_status r = ACTIVE"
  shows "db_reservations db' = row_update rs_id rid (released_row n2) (db_reservations db) \<and> rs_userId r = u"
proof -
  from st obtain x where x: "lockReservationForUser db u rid = Inr x"
    by (auto simp: releaseUsage_def res_simps)
  from lockReservation_Inr[OF x] r(1,2) ok have xr: "x = r" "rs_userId r = u"
    by (auto simp: usage_ok_def pool_ok_def keys_ok_def distinct_map inj_on_def)
  from st x xr r(3) obtain st1 where
      f: "fold_res (release_step u (rs_id r) c) (reservation_allocations db (rs_id r))
        (db, lockUserBuckets db u (map al_bucketId (reservation_allocations db (rs_id r))) n1) = Inr st1"
    and d: "db' = (fst st1)\<lparr>db_reservations := row_update rs_id (rs_id r)
        (\<lambda>r. r\<lparr>rs_status := RELEASED, rs_settled := 0, rs_settledAt := Some n2\<rparr>) (db_reservations (fst st1))\<rparr>"
    by (auto simp: releaseUsage_def Let_def res_simps)
  from fold_reservations[OF f release_step_reservations] have "db_reservations (fst st1) = db_reservations db"
    by simp
  then show ?thesis by (simp add: d r(2) xr released_row_def[abs_def])
qed


section \<open>What a scan may do to the accounts\<close>

text \<open>A request whose work had not reached the provider when the scan began.\<close>

definition before_provider :: "'a ai_db_scheme \<Rightarrow> ai_request \<Rightarrow> bool" where
  "before_provider db q \<longleftrightarrow>
    (\<exists>t \<in> set (ad_turns db). tn_aiRequestId t = rq_id q \<and> tn_status t \<in> set PRE_PROVIDER_TURN_STATUSES) \<or>
    (rq_id q \<notin> tn_aiRequestId ` set (ad_turns db) \<and> rq_status q \<in> set LEGACY_PRE_PROVIDER_STATUSES)"

definition row_move :: "'a ai_db_scheme \<Rightarrow> usage_reservation \<Rightarrow> usage_reservation \<Rightarrow> bool" where
  "row_move db r r' \<longleftrightarrow> r' = r \<or>
    (rs_status r = ACTIVE \<and> (\<exists>q \<in> set (ad_requests db). \<exists>t. rq_userId q = rs_userId r \<and>
      findReservation q db = Some r \<and>
      (case rq_providerActualCost q of
         Some a \<Rightarrow> 0 \<le> a \<and> a \<le> rs_estimated r \<and> r' = settled_row a t r
       | None \<Rightarrow> before_provider db q \<and> r' = released_row t r)))"

definition accounts_moved :: "string set \<Rightarrow> 'a ai_db_scheme \<Rightarrow> 'a ai_db_scheme \<Rightarrow> bool" where
  "accounts_moved I db0 db \<longleftrightarrow> usage_ok db \<and> bucket_frame db = bucket_frame db0 \<and>
    list_all2 (row_move db0) (db_reservations db0) (db_reservations db) \<and>
    map tn_aiRequestId (ad_turns db) = map tn_aiRequestId (ad_turns db0) \<and>
    (\<forall>x \<in> set (ad_requests db). x \<in> set (ad_requests db0) \<or> rq_id x \<in> I)"

lemma row_move_keys:
  "row_move db r r' \<Longrightarrow> rs_id r' = rs_id r \<and> rs_userId r' = rs_userId r \<and>
    rs_requestId r' = rs_requestId r \<and> rs_estimated r' = rs_estimated r"
  by (auto simp: row_move_def split: option.splits)

lemma row_move_settled:
  assumes "rs_status r = ACTIVE" and "q \<in> set (ad_requests db)" and "findReservation q db = Some r"
    and "rq_userId q = rs_userId r" and "rq_providerActualCost q = Some a" and "0 \<le> a" and "a \<le> rs_estimated r"
  shows "row_move db r (settled_row a t r)"
  unfolding row_move_def using assms by (auto intro!: bexI[of _ q])

lemma row_move_released:
  assumes "rs_status r = ACTIVE" and "q \<in> set (ad_requests db)" and "findReservation q db = Some r"
    and "rq_userId q = rs_userId r" and "rq_providerActualCost q = None" and "before_provider db q"
  shows "row_move db r (released_row t r)"
  unfolding row_move_def using assms by (auto intro!: bexI[of _ q])

lemma row_move_active: "row_move db r r' \<Longrightarrow> rs_status r' = ACTIVE \<Longrightarrow> r' = r"
  by (auto simp: row_move_def split: option.splits)

lemma accounts_moved_refl: "usage_ok db \<Longrightarrow> accounts_moved I db db"
  by (simp add: accounts_moved_def row_move_def list.rel_refl)

lemma find_related:
  assumes "list_all2 R xs ys" and "\<And>x y. R x y \<Longrightarrow> P y = P x"
  shows "rel_option R (find P xs) (find P ys)"
  using assms by (induction rule: list_all2_induct) auto

lemma findReservation_rel:
  assumes "list_all2 R (db_reservations db0) (db_reservations db)"
    and keys: "\<And>x y. R x y \<Longrightarrow> rs_id y = rs_id x \<and> rs_userId y = rs_userId x \<and> rs_requestId y = rs_requestId x"
  shows "rel_option R (findReservation q db0) (findReservation q db)"
proof -
  have by_key: "rel_option R (row_find rs_id i (db_reservations db0))
      (row_find rs_id i (db_reservations db))" for i
    unfolding row_find_def by (rule find_related[OF assms(1)]) (simp add: keys)
  have by_request: "rel_option R
      (find (\<lambda>r. rs_userId r = rq_userId q \<and> rs_requestId r = rq_id q) (db_reservations db0))
      (find (\<lambda>r. rs_userId r = rq_userId q \<and> rs_requestId r = rq_id q) (db_reservations db))"
    by (rule find_related[OF assms(1)]) (simp add: keys)
  show ?thesis
  proof (cases "rq_reservationId q")
    case None
    with by_request show ?thesis by (simp add: findReservation_def)
  next
    case (Some i)
    with by_request by_key[of i] show ?thesis
      by (cases "row_find rs_id i (db_reservations db0)"; cases "row_find rs_id i (db_reservations db)")
        (simp_all add: findReservation_def)
  qed
qed

lemma findReservation_member: "findReservation q db = Some r \<Longrightarrow> r \<in> set (db_reservations db)"
  by (auto simp: findReservation_def Let_def split: option.splits dest: row_find_Some findD)

text \<open>Closing the row that a request is found to have.\<close>

lemma accounts_closed:
  assumes m: "accounts_moved I db0 db" and ok: "usage_ok db'" and fr: "bucket_frame db' = bucket_frame db"
    and more: "usage_extends db db'"
    and q: "q \<in> set (ad_requests db0)" and f: "findReservation q db = Some r" and act: "rs_status r = ACTIVE"
    and rows: "db_reservations db' = row_update rs_id (rs_id r) g (db_reservations db)"
    and g: "row_move db0 r (g r)"
  shows "accounts_moved I db0 db'"
proof -
  from m have l: "list_all2 (row_move db0) (db_reservations db0) (db_reservations db)"
    and dist: "distinct (map rs_id (db_reservations db))"
    by (simp_all add: accounts_moved_def usage_ok_def pool_ok_def keys_ok_def)
  have "row_move db0 x (if rs_id y = rs_id r then g y else y)"
    if "row_move db0 x y" "y \<in> set (db_reservations db)" for x y
  proof (cases "rs_id y = rs_id r")
    case True
    then have "y = r" using that(2) findReservation_member[OF f] dist by (simp add: distinct_map inj_on_def)
    with that(1) act row_move_active have "x = r" by blast
    with \<open>y = r\<close> g show ?thesis by simp
  next
    case False
    with that show ?thesis by simp
  qed
  with l have "list_all2 (row_move db0) (db_reservations db0) (db_reservations db')"
    unfolding rows row_update_def by (auto simp: list_all2_conv_all_nth)
  moreover have "ad_requests db' = ad_requests db" "ad_turns db' = ad_turns db"
    using more by (cases db; cases db'; simp add: usage_extends_def)+
  ultimately show ?thesis using m ok fr by (simp add: accounts_moved_def)
qed

lemma found_before:
  assumes "accounts_moved I db0 db" and "findReservation q db = Some r" and "rs_status r = ACTIVE"
  shows "findReservation q db0 = Some r"
proof -
  from assms(1) have "rel_option (row_move db0) (findReservation q db0) (findReservation q db)"
    by (auto simp: accounts_moved_def row_move_keys intro!: findReservation_rel)
  with assms(2) obtain x where x: "findReservation q db0 = Some x" "row_move db0 x r"
    by (auto simp: option_rel_Some2)
  then show ?thesis using row_move_active[OF x(2) assms(3)] by simp
qed

lemma settle_moves:
  assumes m: "accounts_moved I db0 db" and q: "q \<in> set (ad_requests db0)"
    and f: "findReservation q db = Some r" "rs_status r = ACTIVE"
    and a: "rq_providerActualCost q = Some a" "a \<le> rs_estimated r"
    and st: "settleUsage (rq_userId q) (rs_id r) a c n1 n2 n3 db = Inr (db', v)"
  shows "accounts_moved I db0 db'"
proof -
  from m have ok: "usage_ok db" by (simp add: accounts_moved_def)
  note row = settle_within[OF ok st findReservation_member[OF f(1)] refl f(2) a(2)]
  have "row_move db0 r (settled_row a n3 r)"
    using found_before[OF m f] f(2) q a row by (auto intro: row_move_settled)
  with accounts_closed[OF m _ _ _ q f, of db' "settled_row a n3"] settle_keeps[OF ok st] settleUsage_extends[OF st] row
  show ?thesis by simp
qed

lemma release_moves:
  assumes m: "accounts_moved I db0 db" and q: "q \<in> set (ad_requests db0)"
    and f: "findReservation q db = Some r" "rs_status r = ACTIVE"
    and a: "rq_providerActualCost q = None" "before_provider db0 q"
    and st: "releaseUsage (rq_userId q) (rs_id r) c n1 n2 db = Inr (db', v)"
  shows "accounts_moved I db0 db'"
proof -
  from m have ok: "usage_ok db" by (simp add: accounts_moved_def)
  note row = release_row[OF ok st findReservation_member[OF f(1)] refl f(2)]
  have "row_move db0 r (released_row n2 r)"
    using found_before[OF m f] f(2) q a row by (auto intro: row_move_released)
  with accounts_closed[OF m _ _ _ q f, of db' "released_row n2"] release_keeps[OF ok st] releaseUsage_extends[OF st] row
  show ?thesis by simp
qed

text \<open>Writing the request and turn rows does not touch the accounts.\<close>

lemma finish_moves:
  assumes "accounts_moved I db0 db" and "finish_work i f t s now db = Inr (db', v)" and "i \<in> I"
    and "\<And>x. rq_id (f x) = rq_id x"
  shows "accounts_moved I db0 db'"
proof -
  from assms(2) have "db_buckets db' = db_buckets db" "db_reservations db' = db_reservations db"
    "db_allocations db' = db_allocations db" "db_ledger db' = db_ledger db" "db_next db' = db_next db"
    "ad_requests db' = row_update rq_id i f (ad_requests db)"
    "map tn_aiRequestId (ad_turns db') = map tn_aiRequestId (ad_turns db)"
    by (auto simp: finish_work_def split: if_splits option.splits)
  with assms(1,3,4) show ?thesis
    using usage_ok_cong[of db db'] by (auto simp: accounts_moved_def bucket_frame_def set_row_update)
qed

lemma db_call_state:
  assumes "P (fst st)" and "\<And>db' v. op (fst st) = Inr (db', v) \<Longrightarrow> P db'"
  shows "P (fst (snd (db_call f op st)))"
proof -
  have "P (commit (fst st) (op (fst st)))"
    using assms by (cases "op (fst st)") (auto simp: commit_def)
  with assms(1) show ?thesis
    by (cases f) (simp_all add: db_call_def faulty_def split: prod.splits)
qed

lemma db_call_Inr:
  "db_call f op st = (Inr v, st') \<longleftrightarrow> f = No_Fault \<and> (\<exists>db. op (fst st) = Inr (db, v) \<and> st' = (db, snd st))"
  by (cases f; cases "op (fst st)") (auto simp: db_call_def split: prod.splits)

lemma fst_count_up [simp]: "fst (count_up f st) = fst st"
  by (simp add: count_up_def)

abbreviation moved :: "string set \<Rightarrow> 'a ai_db_scheme \<Rightarrow> 'r \<times> 'a rec_state \<Rightarrow> bool" where
  "moved I db0 m \<equiv> accounts_moved I db0 (fst (snd m))"

lemma finish_call_moves:
  assumes "accounts_moved I db0 (fst st)" and "i \<in> I" and "\<And>x. rq_id (g x) = rq_id x"
  shows "moved I db0 (db_call f (finish_work i g t s now) st)"
  by (rule db_call_state[where P = "accounts_moved I db0"]) (use finish_moves[OF assms(1) _ assms(2,3)] assms(1) in blast)+

lemmas moved_bind = sbind_state[where P = "\<lambda>st. accounts_moved I db0 (fst st)" for I db0]

lemma hold_moves: "accounts_moved I db0 (fst st) \<Longrightarrow> rq_id q \<in> I \<Longrightarrow> moved I db0 (holdAmbiguous env q t i st)"
  unfolding holdAmbiguous_def by (rule moved_bind) (simp_all add: finish_call_moves)

lemma fail_update_moves: "accounts_moved I db0 (fst st) \<Longrightarrow> rq_id q \<in> I \<Longrightarrow> moved I db0 (fail_update env q t i s st)"
  unfolding fail_update_def by (simp add: finish_call_moves)

lemma finalize_moves:
  "accounts_moved I db0 (fst st) \<Longrightarrow> rq_id q \<in> I \<Longrightarrow> moved I db0 (finalize_durable env q t e i rid x st)"
  unfolding finalize_durable_def by (rule moved_bind) (simp_all add: finish_call_moves)

lemma settle_durable_moves:
  assumes m: "accounts_moved I db0 (fst st)" and q: "q \<in> set (ad_requests db0)"
    and r: "findReservation q (fst st) = Some r"
    and a: "rq_providerActualCost q = Some a" "a \<le> rs_estimated r"
  shows "moved I db0 (settle_durable env q r a st)"
proof (cases "rs_status r = ACTIVE")
  case True
  show ?thesis
    unfolding settle_durable_def if_P[OF True]
    by (rule moved_bind) (use settle_moves[OF m q r True a] m in \<open>auto intro: db_call_state\<close>)
qed (simp add: settle_durable_def m)

lemma fail_moves:
  assumes m: "accounts_moved I db0 (fst st)" and q: "q \<in> set (ad_requests db0)" and i: "rq_id q \<in> I"
    and a: "rq_providerActualCost q = None" "before_provider db0 q"
  shows "moved I db0 (failBeforeProvider env q t (findReservation q (fst st)) st)"
proof (cases "findReservation q (fst st)")
  case None
  then show ?thesis by (simp add: failBeforeProvider_def fail_update_moves m i)
next
  case (Some r)
  have "moved I db0 (sbind (db_call (ie_billing env) (releaseUsage (rq_userId q) (rs_id r)
        (reconcile_label q) (ie_now1 env) (ie_now2 env)) st)
      (\<lambda>_ st. fail_update env q t (Some (rs_id r)) ''RELEASED''
        (count_up (\<lambda>c. c\<lparr>ct_released := Suc (ct_released c)\<rparr>) st)))" if "rs_status r = ACTIVE"
    by (rule moved_bind)
      (use release_moves[OF m q Some that a] m i in \<open>auto intro: db_call_state fail_update_moves\<close>)
  with Some show ?thesis
    by (auto simp: failBeforeProvider_def m i fail_update_moves hold_moves split: reservation_status.splits)
qed

lemma durable_moves:
  assumes m: "accounts_moved I db0 (fst st)" and q: "q \<in> set (ad_requests db0)" and i: "rq_id q \<in> I"
  shows "moved I db0 (reconcileDurableUsage env q t e d (findReservation q (fst st)) st)"
proof (cases "rq_providerActualCost q"; cases "findReservation q (fst st)")
  fix a r assume ar: "rq_providerActualCost q = Some a" "findReservation q (fst st) = Some r"
  have "moved I db0 (sbind (settle_durable env q r a st) (finalize_durable env q t e d (rs_id r)))"
    if "a \<le> rs_estimated r"
    by (rule moved_bind) (rule settle_durable_moves[OF m q ar(2,1) that], rule finalize_moves[OF _ i])
  with ar show ?thesis by (simp add: reconcileDurableUsage_def hold_moves m i)
qed (simp_all add: reconcileDurableUsage_def hold_moves m i)


lemma turn_moves:
  assumes "accounts_moved I db0 (fst st)" and "q \<in> set (ad_requests db0)" and "rq_id q \<in> I"
    and "t \<in> set (ad_turns db0)" and "tn_aiRequestId t = rq_id q"
  shows "moved I db0 (reconcileProviderTurn env t q st)"
proof -
  have "before_provider db0 q" if "tn_status t \<in> set PRE_PROVIDER_TURN_STATUSES"
    using assms(4,5) that by (auto simp: before_provider_def)
  with assms(1-3) show ?thesis
    by (auto simp: reconcileProviderTurn_def Let_def durable_moves fail_moves hold_moves split: option.splits)
qed

lemma legacy_moves:
  assumes "accounts_moved I db0 (fst st)" and "q \<in> set (ad_requests db0)" and "rq_id q \<in> I"
    and "rq_id q \<notin> tn_aiRequestId ` set (ad_turns db0)"
  shows "moved I db0 (reconcileLegacyRequest env q st)"
proof -
  have "before_provider db0 q" if "rq_status q \<in> set LEGACY_PRE_PROVIDER_STATUSES"
    using assms(4) that by (auto simp: before_provider_def)
  with assms(1-3) show ?thesis
    by (auto simp: reconcileLegacyRequest_def Let_def durable_moves fail_moves hold_moves split: option.splits)
qed

lemma caught_moves: "moved I db0 m \<Longrightarrow> accounts_moved I db0 (fst (caught m))"
  by (cases m; cases "fst m") (auto simp: caught_def)

lemma fold_moves:
  assumes "accounts_moved I db0 (fst st)"
    and "\<And>x st. x \<in> set xs \<Longrightarrow> accounts_moved I db0 (fst st) \<Longrightarrow> accounts_moved I db0 (fst (f x st))"
  shows "accounts_moved I db0 (fst (fold f xs st))"
  using assms by (induction xs arbitrary: st) auto

lemma scan_turns_member:
  "(t, q) \<in> set (scan_turns lim n db) \<Longrightarrow>
    t \<in> set (ad_turns db) \<and> q \<in> set (ad_requests db) \<and> tn_aiRequestId t = rq_id q \<and> stale_turn lim t"
  by (auto simp: scan_turns_def split: option.splits dest!: in_set_takeD row_find_Some[OF sym])

lemma scan_legacy_member:
  "q \<in> set (scan_legacy lim n db) \<Longrightarrow>
    q \<in> set (ad_requests db) \<and> rq_id q \<notin> tn_aiRequestId ` set (ad_turns db) \<and> stale_legacy lim q"
  by (auto simp: scan_legacy_def dest!: in_set_takeD)

lemma moved_mono: "accounts_moved I db0 db \<Longrightarrow> I \<subseteq> J \<Longrightarrow> accounts_moved J db0 db"
  by (auto simp: accounts_moved_def)

text \<open>
  C25: a reconciliation scan never guesses about money. Whatever the batch size and the cutoffs,
  and however the database calls of the items fail, before or after their commits, the accounts
  stay in order and no bucket's total moves; and every reservation is either left as it was, or
  it was active and belonged to a request of its user, for which the scan then knew what to
  do: with a provider cost on record that the reservation covers it is settled for exactly that
  cost, and it is released only when no cost is on record and the work had not reached the
  provider.
\<close>

theorem reconcile_never_guesses:
  fixes db :: "'a ai_db_scheme"
  assumes "usage_ok db"
  shows "let db' = fst (reconcile env lim batchSize db) in
    usage_ok db' \<and> bucket_frame db' = bucket_frame db \<and>
    list_all2 (\<lambda>r r'. r' = r \<or>
        (rs_status r = ACTIVE \<and> (\<exists>q \<in> set (ad_requests db). \<exists>t. rq_userId q = rs_userId r \<and>
          findReservation q db = Some r \<and>
          (case rq_providerActualCost q of
             Some a \<Rightarrow> 0 \<le> a \<and> a \<le> rs_estimated r \<and>
               r' = r\<lparr>rs_settled := a, rs_status := SETTLED, rs_settledAt := Some t\<rparr>
           | None \<Rightarrow> before_provider db q \<and>
               r' = r\<lparr>rs_status := RELEASED, rs_settled := 0, rs_settledAt := Some t\<rparr>))))
      (db_reservations db) (db_reservations db')"
proof -
  let ?I = "tn_aiRequestId ` set (ad_turns db)"
  let ?n = "nat (max 1 (min batchSize 500))"
  let ?turns = "scan_turns lim ?n db"
  define st where "st = fold (\<lambda>(t, q) st. caught (reconcileProviderTurn (env (rq_id q)) t q st)) ?turns
    (db, no_counts\<lparr>ct_scannedTurns := length ?turns\<rparr>)"
  have st: "accounts_moved ?I db (fst st)"
    unfolding st_def
    by (rule fold_moves) (auto simp: assms accounts_moved_refl rev_image_eqI
        intro!: caught_moves turn_moves dest!: scan_turns_member)
  have legacy: "q \<in> set (ad_requests db) \<and> rq_id q \<notin> ?I" if "q \<in> set (scan_legacy lim k (fst st))" for q k
  proof -
    have "set (map tn_aiRequestId (ad_turns (fst st))) = set (map tn_aiRequestId (ad_turns db))"
      using st by (simp add: accounts_moved_def)
    then have "tn_aiRequestId ` set (ad_turns (fst st)) = ?I" by simp
    with scan_legacy_member[OF that] st show ?thesis by (auto simp: accounts_moved_def)
  qed
  have "accounts_moved UNIV db (fst (fold (\<lambda>q st. caught (reconcileLegacyRequest (env (rq_id q)) q st))
      (scan_legacy lim k (fst st)) (count_up f st)))" for k f
    by (rule fold_moves) (use moved_mono[OF st] legacy in \<open>auto intro!: caught_moves legacy_moves\<close>)
  then have "accounts_moved UNIV db (fst (reconcile env lim batchSize db))"
    using moved_mono[OF st, of UNIV] by (simp add: reconcile_def Let_def flip: st_def)
  then show ?thesis
    unfolding accounts_moved_def row_move_def[abs_def] settled_row_def released_row_def Let_def by blast
qed


text \<open>Two requests: one whose cost is on record, one that never reached the provider.\<close>

definition sample_request :: "string \<Rightarrow> nat \<Rightarrow> string \<Rightarrow> microRub option \<Rightarrow> ai_request" where
  "sample_request i rid s cost =
    \<lparr>rq_id = i, rq_userId = ''ann'', rq_reservationId = Some rid, rq_status = s,
     rq_financialStatus = ''RESERVED'', rq_providerActualCost = cost, rq_userSettled = None,
     rq_outputText = Some ''ok'', rq_createdAt = 90, rq_startedAt = None, rq_finishedAt = None\<rparr>"

definition sample_turn :: "string \<Rightarrow> string \<Rightarrow> string \<Rightarrow> provider_turn" where
  "sample_turn t i s = \<lparr>tn_id = t, tn_aiRequestId = i, tn_status = s, tn_toolCallError = False,
    tn_providerInterrupted = False, tn_updatedAt = 120\<rparr>"

definition sample_ai0 :: ai_db where
  "sample_ai0 =
    \<lparr>db_buckets = [sample_bucket 0 TOPUP 500 None, sample_bucket 1 MONTHLY 300 (Some 900)],
     db_reservations = [], db_allocations = [],
     db_ledger = [sample_grant 0 500, sample_grant 1 300], db_next = 2,
     ad_requests = [sample_request ''a'' 2 ''PROVIDER_STARTED'' (Some 200),
       sample_request ''b'' 5 ''RESERVED'' None],
     ad_turns = [sample_turn ''t1'' ''a'' ''USAGE_DURABLE'', sample_turn ''t2'' ''b'' ''RESERVED'']\<rparr>"

definition sample_ai :: ai_db where
  "sample_ai = run_requests handle_usage
    [Reserve ''ann'' ''a'' 350 None 100, Reserve ''ann'' ''b'' 400 None 110] sample_ai0"

lemma sample_ai_ok: "usage_ok sample_ai"
proof -
  have "usage_ok sample_ai0"
    by (simp add: usage_ok_def pool_ok_def keys_ok_def bucket_ok_def sample_ai0_def sample_bucket_def
        sample_grant_def)
  then show ?thesis unfolding sample_ai_def by (rule usage.run_inv)
qed

definition sample_env :: "js_error fault \<Rightarrow> js_error fault \<Rightarrow> item_env" where
  "sample_env b u = \<lparr>ie_read = None, ie_billing = b, ie_update = u, ie_now1 = 500, ie_now2 = 500,
    ie_now3 = 501, ie_now = 502\<rparr>"

definition sample_scan :: "js_error fault \<Rightarrow> js_error fault \<Rightarrow> ai_db \<times> counters" where
  "sample_scan b u = reconcile (\<lambda>_. sample_env b u) \<lparr>cu_preProvider = 300, cu_provider = 300\<rparr> 10 sample_ai"

lemma reconcile_never_guesses_witness:
  "usage_ok (fst (sample_scan No_Fault No_Fault)) \<and>
    map (\<lambda>r. (rs_status r, rs_settled r)) (db_reservations (fst (sample_scan No_Fault No_Fault))) =
      [(SETTLED, 200), (RELEASED, 0)] \<and>
    map rq_status (ad_requests (fst (sample_scan No_Fault No_Fault))) = [''SUCCEEDED'', ''FAILED'']"
proof (intro conjI)
  show "usage_ok (fst (sample_scan No_Fault No_Fault))"
    using reconcile_never_guesses[OF sample_ai_ok] by (simp add: sample_scan_def Let_def)
qed code_simp+


section \<open>An interrupted item is completed later\<close>

definition open_turn :: "provider_turn \<Rightarrow> bool" where
  "open_turn t \<longleftrightarrow> tn_status t \<in> set PRE_PROVIDER_TURN_STATUSES \<union> set POST_PROVIDER_TURN_STATUSES"

text \<open>One item as a scan treats it: its rows are read, and the work is done if it is still open.\<close>

definition reconcile_one :: "item_env \<Rightarrow> string \<Rightarrow> 'a ai_db_scheme \<Rightarrow> 'a ai_db_scheme" where
  "reconcile_one env tid db =
    (case row_find tn_id tid (ad_turns db) of None \<Rightarrow> db
     | Some t \<Rightarrow> (case row_find rq_id (tn_aiRequestId t) (ad_requests db) of None \<Rightarrow> db
        | Some q \<Rightarrow> if open_turn t then fst (caught (reconcileProviderTurn env t q (db, no_counts))) else db))"

definition close_rows ::
    "string \<Rightarrow> (ai_request \<Rightarrow> ai_request) \<Rightarrow> string \<Rightarrow> string \<Rightarrow> int \<Rightarrow> 'a ai_db_scheme \<Rightarrow> 'a ai_db_scheme" where
  "close_rows qid f tid s now db = db\<lparr>ad_requests := row_update rq_id qid f (ad_requests db),
     ad_turns := row_update tn_id tid (\<lambda>x. x\<lparr>tn_status := s, tn_updatedAt := now\<rparr>) (ad_turns db)\<rparr>"

lemma finish_work_rows:
  "row_find rq_id qid (ad_requests db) = Some q \<Longrightarrow> row_find tn_id tid (ad_turns db) = Some t \<Longrightarrow>
    finish_work qid f (Some tid) s now db = Inr (close_rows qid f tid s now db, ())"
  by (simp add: finish_work_def close_rows_def)

definition calm :: "item_env \<Rightarrow> item_env" where
  "calm env = env\<lparr>ie_read := None, ie_billing := No_Fault, ie_update := No_Fault\<rparr>"

text \<open>
  An item has two phases: at most one call of the billing engine, and one transaction that
  closes the rows, determined by the reservation as the first phase leaves it.
\<close>

definition billing_call ::
    "item_env \<Rightarrow> provider_turn \<Rightarrow> ai_request \<Rightarrow> 'a ai_db_scheme \<Rightarrow>
      (js_error + 'a ai_db_scheme \<times> reservation_view) option" where
  "billing_call env t q db =
    (case findReservation q db of None \<Rightarrow> None | Some r \<Rightarrow>
       if rs_status r \<noteq> ACTIVE then None
       else (case rq_providerActualCost q of
           Some a \<Rightarrow> if a \<le> rs_estimated r
             then Some (settleUsage (rq_userId q) (rs_id r) a (reconcile_label q) (ie_now1 env) (ie_now2 env)
               (ie_now3 env) db)
             else None
         | None \<Rightarrow> if tn_status t \<in> set PRE_PROVIDER_TURN_STATUSES
             then Some (releaseUsage (rq_userId q) (rs_id r) (reconcile_label q) (ie_now1 env) (ie_now2 env) db)
             else None))"

definition hold_row :: "item_env \<Rightarrow> nat option \<Rightarrow> int option \<Rightarrow> ai_request \<Rightarrow> ai_request" where
  "hold_row env i fin q = q\<lparr>rq_reservationId := i, rq_status := ''RECONCILIATION_REQUIRED'',
     rq_financialStatus := ''RECONCILIATION_HOLD'', rq_finishedAt := or_now fin (ie_now env)\<rparr>"

definition closing ::
    "item_env \<Rightarrow> provider_turn \<Rightarrow> ai_request \<Rightarrow> usage_reservation option \<Rightarrow> (ai_request \<Rightarrow> ai_request) \<times> string" where
  "closing env t q reservation =
    (let hold = (hold_row env (map_option rs_id reservation) (rq_finishedAt q), ''RECONCILIATION_REQUIRED'');
         failed = (\<lambda>fs. (\<lambda>x. x\<lparr>rq_reservationId := map_option rs_id reservation, rq_status := ''FAILED'',
             rq_financialStatus := fs, rq_finishedAt := or_now (rq_finishedAt q) (ie_now env)\<rparr>,
           ''FAILED_PRE_PROVIDER''))
     in case (rq_providerActualCost q, reservation) of
       (Some a, Some r) \<Rightarrow>
         if a > rs_estimated r \<or> rs_status r = RELEASED then hold
         else (\<lambda>x. x\<lparr>rq_reservationId := Some (rs_id r),
             rq_status := (if rq_outputText q = None \<or> tn_toolCallError t \<or> tn_providerInterrupted t
               then ''FAILED'' else ''SUCCEEDED''),
             rq_financialStatus := (if rs_status r = ANOMALY then ''ANOMALY'' else ''SETTLED''),
             rq_userSettled := Some (rs_settled r),
             rq_finishedAt := or_now (rq_finishedAt q) (ie_now env)\<rparr>, ''SUCCEEDED'')
     | (Some a, None) \<Rightarrow> hold
     | (None, r) \<Rightarrow>
         if tn_status t \<in> set PRE_PROVIDER_TURN_STATUSES
         then (case r of None \<Rightarrow> failed ''NONE''
           | Some x \<Rightarrow> if rs_status x = RELEASED then failed ''RELEASED'' else hold)
         else hold)"

lemma fst_closing_id [simp]: "rq_id (fst (closing env t q r) x) = rq_id x"
  by (auto simp: closing_def hold_row_def Let_def split: option.splits)

definition close_item :: "item_env \<Rightarrow> provider_turn \<Rightarrow> ai_request \<Rightarrow> 'a ai_db_scheme \<Rightarrow> 'a ai_db_scheme" where
  "close_item env t q db = close_rows (rq_id q) (fst (closing env t q (findReservation q db)))
     (tn_id t) (snd (closing env t q (findReservation q db))) (ie_now env) db"

definition two_phase :: "item_env \<Rightarrow> provider_turn \<Rightarrow> ai_request \<Rightarrow> 'a ai_db_scheme \<Rightarrow> 'a ai_db_scheme" where
  "two_phase env t q db =
    (if ie_read env \<noteq> None then db
     else case map_option (faulty (ie_billing env) db) (billing_call env t q db) of
       Some (Inl _, db1) \<Rightarrow> db1
     | Some (Inr _, db1) \<Rightarrow> snd (faulty (ie_update env) db1 (Inr (close_item env t q db1, ()) :: js_error + _))
     | None \<Rightarrow> snd (faulty (ie_update env) db (Inr (close_item env t q db, ()) :: js_error + _)))"

text \<open>How the reservation of a request looks after its row was closed.\<close>

lemma findReservation_closed:
  assumes "findReservation q db = Some r"
    and "db_reservations db' = row_update rs_id (rs_id r) g (db_reservations db)"
    and g: "\<And>x. rs_id (g x) = rs_id x" "\<And>x. rs_userId (g x) = rs_userId x"
      "\<And>x. rs_requestId (g x) = rs_requestId x"
  shows "findReservation q db' = Some (g r)"
proof -
  let ?R = "\<lambda>x y. y = (if rs_id x = rs_id r then g x else x)"
  have l: "list_all2 ?R (db_reservations db) (db_reservations db')"
    by (simp add: assms(2) row_update_def list_all2_conv_all_nth)
  then have "rel_option ?R (findReservation q db) (findReservation q db')"
    by (rule findReservation_rel) (simp add: g)
  with assms(1) show ?thesis by (simp add: option_rel_Some1)
qed


lemma billing_call_done:
  assumes ok: "usage_ok db" and call: "billing_call env t q db = Some (Inr (db1, v))"
  obtains r where "findReservation q db = Some r" "rs_status r = ACTIVE" "usage_ok db1"
    "ad_requests db1 = ad_requests db" "ad_turns db1 = ad_turns db"
    "case rq_providerActualCost q of
       Some a \<Rightarrow> a \<le> rs_estimated r \<and> findReservation q db1 = Some (settled_row a (ie_now3 env) r) \<and>
         rv_settled v = a \<and> rv_status v = SETTLED
     | None \<Rightarrow> tn_status t \<in> set PRE_PROVIDER_TURN_STATUSES \<and>
         findReservation q db1 = Some (released_row (ie_now2 env) r)"
proof -
  from call obtain r where r: "findReservation q db = Some r" "rs_status r = ACTIVE"
    by (auto simp: billing_call_def split: option.splits if_splits)
  note mem = findReservation_member[OF r(1)]
  have tables: "ad_requests db1 = ad_requests db \<and> ad_turns db1 = ad_turns db" if "usage_extends db db1"
    using that by (cases db; cases db1; simp add: usage_extends_def)
  show ?thesis
  proof (cases "rq_providerActualCost q")
    case None
    with call r have pre: "tn_status t \<in> set PRE_PROVIDER_TURN_STATUSES"
      and st: "releaseUsage (rq_userId q) (rs_id r) (reconcile_label q) (ie_now1 env) (ie_now2 env) db = Inr (db1, v)"
      by (auto simp: billing_call_def split: if_splits)
    have "findReservation q db1 = Some (released_row (ie_now2 env) r)"
      using release_row[OF ok st mem refl r(2)] by (intro findReservation_closed[OF r(1)]) simp_all
    with None pre r show ?thesis
      using that tables releaseUsage_extends[OF st] release_keeps[OF ok st] by auto
  next
    case (Some a)
    with call r have le: "a \<le> rs_estimated r"
      and st: "settleUsage (rq_userId q) (rs_id r) a (reconcile_label q) (ie_now1 env) (ie_now2 env) (ie_now3 env) db =
        Inr (db1, v)"
      by (auto simp: billing_call_def split: if_splits)
    note row = settle_within[OF ok st mem refl r(2) le]
    then have "findReservation q db1 = Some (settled_row a (ie_now3 env) r)"
      by (intro findReservation_closed[OF r(1)]) simp_all
    moreover have "rv_settled v = a" "rv_status v = SETTLED" using row by simp_all
    ultimately show ?thesis
      using Some le r that tables settleUsage_extends[OF st] settle_keeps[OF ok st] by auto
  qed
qed

text \<open>A second call is not made.\<close>

lemma billing_call_once:
  assumes "usage_ok db" and "billing_call env t q db = Some (Inr (db1, v))"
  shows "billing_call env' t q db1 = None"
  by (rule billing_call_done[OF assms]) (auto simp: billing_call_def split: option.splits)

lemma hold_two_phase:
  assumes "row_find rq_id (rq_id q) (ad_requests db) = Some q'" "row_find tn_id tid (ad_turns db) = Some t'"
  shows "fst (snd (holdAmbiguous env q (Some tid) i (db, c))) =
    snd (faulty (ie_update env) db (Inr (close_rows (rq_id q) (hold_row env i (rq_finishedAt q)) tid
      ''RECONCILIATION_REQUIRED'' (ie_now env) db, ()) :: js_error + _))"
  by (cases "ie_update env") (simp_all add: holdAmbiguous_def db_call_def finish_work_rows[OF assms]
      hold_row_def[abs_def] count_up_def)

lemma close_two_phase:
  assumes "row_find rq_id (rq_id q) (ad_requests db) = Some q'" "row_find tn_id tid (ad_turns db) = Some t'"
  shows "fst (snd (fail_update env q (Some tid) i fs (db, c))) =
    snd (faulty (ie_update env) db (Inr (close_rows (rq_id q) (\<lambda>x. x\<lparr>rq_reservationId := i,
      rq_status := ''FAILED'', rq_financialStatus := fs,
      rq_finishedAt := or_now (rq_finishedAt q) (ie_now env)\<rparr>) tid
      ''FAILED_PRE_PROVIDER'' (ie_now env) db, ()) :: js_error + _))"
    and "fst (snd (finalize_durable env q (Some tid) e d rid x (db, c))) =
    snd (faulty (ie_update env) db (Inr (close_rows (rq_id q) (\<lambda>y. y\<lparr>rq_reservationId := Some rid,
      rq_status := (if rq_outputText q = None \<or> e \<or> d then ''FAILED'' else ''SUCCEEDED''),
      rq_financialStatus := (if snd x = ANOMALY then ''ANOMALY'' else ''SETTLED''),
      rq_userSettled := Some (fst x),
      rq_finishedAt := or_now (rq_finishedAt q) (ie_now env)\<rparr>) tid
      ''SUCCEEDED'' (ie_now env) db, ()) :: js_error + _))"
  by (cases "ie_update env"; simp add: fail_update_def finalize_durable_def db_call_def
      finish_work_rows[OF assms] count_up_def)+


lemma reconcile_two_phase:
  assumes ok: "usage_ok db" and q: "row_find rq_id (rq_id q) (ad_requests db) = Some q'"
    and t: "row_find tn_id (tn_id t) (ad_turns db) = Some t'"
  shows "fst (snd (reconcileProviderTurn env t q (db, c))) = two_phase env t q db"
proof (cases "ie_read env")
  case (Some e)
  then show ?thesis by (simp add: reconcileProviderTurn_def two_phase_def)
next
  case None
  show ?thesis
  proof (cases "billing_call env t q db")
    case call: None
    then show ?thesis
      using None
      by (cases "rq_providerActualCost q"; cases "findReservation q db";
          cases "rs_status (the (findReservation q db))")
        (auto simp: reconcileProviderTurn_def two_phase_def billing_call_def close_item_def closing_def
          reconcileDurableUsage_def settle_durable_def failBeforeProvider_def hold_two_phase[OF q t]
          close_two_phase[OF q t] Let_def count_up_def hold_row_def[abs_def]
          split: if_splits)
  next
    case call: (Some res)
    then obtain r where r: "findReservation q db = Some r" "rs_status r = ACTIVE"
      by (auto simp: billing_call_def split: option.splits if_splits)
    show ?thesis
    proof (cases "\<exists>db1 v. res = Inr (db1, v) \<and> ie_billing env = No_Fault")
      case False
      then show ?thesis
        using None call r
        by (cases "rq_providerActualCost q"; cases res; cases "ie_billing env")
          (auto simp: reconcileProviderTurn_def two_phase_def billing_call_def reconcileDurableUsage_def
            settle_durable_def failBeforeProvider_def db_call_def split: if_splits)
    next
      case True
      then obtain db1 v where res: "res = Inr (db1, v)" and nf: "ie_billing env = No_Fault" by blast
      note done' = billing_call_done[OF ok call[unfolded res]]
      have rows: "row_find rq_id (rq_id q) (ad_requests db1) = Some q'"
          "row_find tn_id (tn_id t) (ad_turns db1) = Some t'"
        by (rule done', simp add: q t)+
      show ?thesis
        by (rule done')
          (use None call r res nf in \<open>cases "rq_providerActualCost q"; auto simp: reconcileProviderTurn_def
            two_phase_def billing_call_def reconcileDurableUsage_def settle_durable_def failBeforeProvider_def
            db_call_def count_up_def close_item_def closing_def close_two_phase[OF rows] Let_def
            split: if_splits\<close>)
    qed
  qed
qed


lemma fst_caught [simp]: "fst (caught m) = fst (snd m)"
  by (cases m; cases "fst m") (auto simp: caught_def)

lemma calm_same [simp]:
  "billing_call (calm env) = billing_call env" "close_item (calm env) = close_item env"
  "calm (calm env) = calm env" "ie_now (calm env) = ie_now env"
proof -
  have clocks: "ie_now (calm env) = ie_now env" "ie_now1 (calm env) = ie_now1 env"
    "ie_now2 (calm env) = ie_now2 env" "ie_now3 (calm env) = ie_now3 env"
    by (simp_all add: calm_def)
  then show "ie_now (calm env) = ie_now env" "billing_call (calm env) = billing_call env"
    by (simp_all only: billing_call_def[abs_def])
  have "closing (calm env) = closing env"
    by (simp only: closing_def[abs_def] hold_row_def[abs_def] clocks)
  then show "close_item (calm env) = close_item env"
    by (simp only: close_item_def[abs_def] clocks)
qed (simp add: calm_def)

lemma two_phase_calm:
  "two_phase (calm env) t q db =
    (case billing_call env t q db of
       None \<Rightarrow> close_item env t q db
     | Some (Inl e) \<Rightarrow> db
     | Some (Inr (db1, v)) \<Rightarrow> close_item env t q db1)"
proof -
  have f: "ie_read (calm env) = None" "ie_billing (calm env) = No_Fault" "ie_update (calm env) = No_Fault"
    by (simp_all add: calm_def)
  show ?thesis
    by (cases "billing_call env t q db"; cases "the (billing_call env t q db)")
      (auto simp: two_phase_def f)
qed

lemma two_phase_outcomes:
  "two_phase env t q db \<in> {db, two_phase (calm env) t q db} \<or>
    (\<exists>v. billing_call env t q db = Some (Inr (two_phase env t q db, v)))"
proof (cases "billing_call env t q db")
  case None
  then show ?thesis
    unfolding two_phase_calm by (cases "ie_update env") (simp_all add: two_phase_def)
next
  case (Some res)
  then show ?thesis
    unfolding two_phase_calm
    by (cases res; cases "ie_update env"; cases "ie_billing env") (auto simp: two_phase_def)
qed

lemma reconcile_one_open:
  assumes "usage_ok db" and "row_find tn_id tid (ad_turns db) = Some t"
    and "row_find rq_id (tn_aiRequestId t) (ad_requests db) = Some q" and "open_turn t"
  shows "reconcile_one env tid db = two_phase env t q db"
proof -
  have "tn_id t = tid" "rq_id q = tn_aiRequestId t" using row_find_Some assms(2,3) by fastforce+
  with assms reconcile_two_phase[OF assms(1), of q q t t env no_counts] show ?thesis
    by (simp add: reconcile_one_def)
qed

lemma or_now_idem [simp]: "or_now (or_now d n) n = or_now d n"
  by (cases d) (simp_all add: or_now_def)

lemma hold_row_or_now [simp]: "hold_row env i (or_now fin (ie_now env)) = hold_row env i fin"
  by (simp add: hold_row_def fun_eq_iff)

lemma findReservation_hold:
  assumes "usage_ok db"
  shows "findReservation (hold_row env (map_option rs_id (findReservation q db)) fin q) db = findReservation q db"
proof -
  have "row_find rs_id (rs_id r) (db_reservations db) = Some r" if "findReservation q db = Some r" for r
    using findReservation_member[OF that] assms
    by (intro row_find_distinct) (simp_all add: usage_ok_def pool_ok_def keys_ok_def)
  then show ?thesis
    by (cases "findReservation q db")
      (auto simp: findReservation_def hold_row_def Let_def split: option.splits)
qed

text \<open>A turn that closing leaves open is on hold, and holding it again changes nothing.\<close>

lemma closing_open:
  assumes "snd (closing env t q r) \<in> set PRE_PROVIDER_TURN_STATUSES \<union> set POST_PROVIDER_TURN_STATUSES"
  shows "closing env t q r =
    (hold_row env (map_option rs_id r) (rq_finishedAt q), ''RECONCILIATION_REQUIRED'')"
  using assms by (auto simp: closing_def Let_def PRE_PROVIDER_TURN_STATUSES_def
      POST_PROVIDER_TURN_STATUSES_def split: option.splits if_splits)


lemma close_item_tables:
  "db_reservations (close_item env t q db) = db_reservations db"
  "usage_ok db \<Longrightarrow> usage_ok (close_item env t q db)"
  by (auto simp: close_item_def close_rows_def elim!: usage_ok_cong)

lemma findReservation_close [simp]: "findReservation x (close_item env t q db) = findReservation x db"
  unfolding findReservation_def close_item_tables ..

lemma row_update_idem:
  "(\<And>r. key (f r) = key r) \<Longrightarrow> (\<And>r. g (f r) = f r) \<Longrightarrow>
    row_update key k g (row_update key k f rows) = row_update key k f rows"
  by (simp add: row_update_def)

lemma close_rows_idem:
  "(\<And>x. rq_id (f x) = rq_id x) \<Longrightarrow> (\<And>x. f (f x) = f x) \<Longrightarrow>
    close_rows i f t s n (close_rows i f t s n db) = close_rows i f t s n db"
  by (simp add: close_rows_def row_update_idem)

lemma hold_row_simps [simp]:
  "rq_id (hold_row env i fin q) = rq_id q" "rq_userId (hold_row env i fin q) = rq_userId q"
  "rq_providerActualCost (hold_row env i fin q) = rq_providerActualCost q"
  "rq_finishedAt (hold_row env i fin q) = or_now fin (ie_now env)"
  "hold_row env i fin' (hold_row env i fin q) = hold_row env i fin' q"
  by (simp_all add: hold_row_def)

lemma held_again:
  assumes "snd (closing env t q r) = ''RECONCILIATION_REQUIRED''"
    and "tn_status t' = ''RECONCILIATION_REQUIRED''" and "rq_providerActualCost q' = rq_providerActualCost q"
    and "findReservation q' db = r"
  shows "closing env t' q' r = (hold_row env (map_option rs_id r) (rq_finishedAt q'), ''RECONCILIATION_REQUIRED'')"
    and "billing_call env t' q' db = None"
  using assms
  by (auto simp: closing_def billing_call_def Let_def PRE_PROVIDER_TURN_STATUSES_def
      split: option.splits if_splits)

lemma reconcile_closed_again:
  assumes ok: "usage_ok db" and t: "row_find tn_id tid (ad_turns db) = Some t"
    and q: "row_find rq_id (tn_aiRequestId t) (ad_requests db) = Some q"
  shows "reconcile_one (calm env) tid (close_item env t q db) = close_item env t q db"
proof -
  let ?r = "findReservation q db"
  let ?d = "close_item env t q db"
  define f s where fs: "f = fst (closing env t q ?r)" "s = snd (closing env t q ?r)"
  let ?t = "t\<lparr>tn_status := s, tn_updatedAt := ie_now env\<rparr>"
  have ids: "tn_id t = tid" "rq_id q = tn_aiRequestId t" using row_find_Some t q by fastforce+
  have t1: "row_find tn_id tid (ad_turns ?d) = Some ?t"
    by (simp add: close_item_def close_rows_def row_find_row_update t ids fs)
  have q1: "row_find rq_id (tn_aiRequestId ?t) (ad_requests ?d) = Some (f q)"
    by (simp add: close_item_def close_rows_def row_find_row_update q ids fs)
  show ?thesis
  proof (cases "open_turn ?t")
    case False
    with t1 q1 show ?thesis by (simp add: reconcile_one_def)
  next
    case True
    then have hold: "f = hold_row env (map_option rs_id ?r) (rq_finishedAt q)" "s = ''RECONCILIATION_REQUIRED''"
      using closing_open[of env t q ?r] by (simp_all add: fs open_turn_def)
    have found: "findReservation (f q) ?d = ?r"
      using findReservation_hold[OF ok, where env = env and fin = "rq_finishedAt q" and q = q]
      by (simp add: hold(1))
    have again: "closing env ?t (f q) ?r = (f, s)" "billing_call env ?t (f q) ?d = None"
      using held_again[of env t q ?r ?t "f q" ?d] found hold by (simp_all add: fs(2)[symmetric])
    have d: "?d = close_rows (rq_id q) f tid s (ie_now env) db"
      by (simp add: close_item_def fs ids)
    have "close_item env ?t (f q) ?d = close_rows (rq_id q) f tid s (ie_now env) ?d"
      unfolding close_item_def[of env ?t "f q"] found again(1) using ids by (simp add: hold(1))
    also have "\<dots> = ?d"
      unfolding d by (rule close_rows_idem) (simp_all add: hold(1))
    finally have "close_item env ?t (f q) ?d = ?d" .
    then have "two_phase (calm env) ?t (f q) ?d = ?d"
      by (simp add: two_phase_calm again(2))
    with reconcile_one_open[OF close_item_tables(2)[OF ok] t1 q1 True] show ?thesis by simp
  qed
qed




end
