(* ===== verification/Orch_Readiness.thy ===== *)
theory Orch_Readiness
  imports Checkout "HOL-Library.AList"
begin

text \<open>
  \<open>packages/orchestration/src\<close>: the contract of an execution plan (\<open>types.ts\<close>,
  \<open>dependencies.ts\<close>, \<open>targets.ts\<close>, \<open>states.ts\<close>) and \<open>readiness.ts\<close>, which decides
  from the states of the sources whether a waiting invocation may run, is skipped, or waits on.
  A decision comes with a reason text, which is kept.
\<close>

section \<open>The plan\<close>

datatype invocation_target = VIMLA | AI_AUTO | AI_MODEL string | EVALUATOR | AGENT string

datatype artifact_type =
    TEXT | PROMPT | DOCUMENT | CODE | IMAGE | PLAN | FILE | PATCH | JSON

datatype evaluation_mode = DETERMINISTIC | AI_EVALUATOR | HUMAN_APPROVAL_MODE

datatype risk_class =
    READ_ONLY | INTERNAL_WRITE | EXTERNAL_SIDE_EFFECT | DESTRUCTIVE | FINANCIAL

datatype approval_policy = AUTO | USER_CONFIRMATION | HUMAN_APPROVAL

datatype failure_policy = FAIL_PLAN | CONTINUE

datatype join_policy = ALL_REQUIRED | ANY_REQUIRED | ALL_SETTLED

datatype dependency_condition = DATA | ON_SUCCESS | ON_FAILURE | ALWAYS | OUTCOME string

record input_binding =
  ib_inputName :: string
  ib_sourceOutputName :: string
  ib_expectedArtifactType :: artifact_type

record output_declaration =
  od_name :: string
  od_artifactType :: artifact_type
  od_description :: "string option"

datatype criterion_binding =
    ARTIFACT_EXISTS string
  | TEXT_CONTAINS string string "bool option"
  | JSON_EQUALS string string json

record acceptance_criteria =
  ac_id :: string
  ac_description :: string
  ac_mode :: evaluation_mode
  ac_binding :: "criterion_binding option"

record invocation =
  iv_id :: string
  iv_purpose :: string
  iv_target :: invocation_target
  iv_outputs :: "output_declaration list"
  iv_acceptanceCriteria :: "acceptance_criteria list"
  iv_riskClass :: risk_class
  iv_approvalPolicy :: approval_policy
  iv_failurePolicy :: failure_policy
  iv_joinPolicy :: join_policy

record dependency =
  dp_id :: string
  dp_from :: string
  dp_to :: string
  dp_condition :: dependency_condition
  dp_inputBindings :: "input_binding list"

record execution_plan =
  xp_goal :: string
  xp_maxParallelism :: nat
  xp_invocations :: "invocation list"
  xp_dependencies :: "dependency list"

section \<open>States\<close>

datatype plan_status =
    Plan_PLANNING | Plan_PLANNED | Plan_RUNNING | Plan_PARTIAL | Plan_COMPLETED | Plan_FAILED
  | Plan_CANCELED

datatype invocation_status =
    Inv_PENDING | Inv_READY | Inv_RUNNING | Inv_WAITING_APPROVAL | Inv_WAITING_FOR_USAGE_CAPACITY
  | Inv_BLOCKED_INSUFFICIENT_USAGE | Inv_COMPLETED | Inv_FAILED | Inv_SKIPPED | Inv_CANCELED

definition TERMINAL_PLAN_STATUSES :: "plan_status list" where
  "TERMINAL_PLAN_STATUSES = [Plan_PARTIAL, Plan_COMPLETED, Plan_FAILED, Plan_CANCELED]"

definition TERMINAL_INVOCATION_STATUSES :: "invocation_status list" where
  "TERMINAL_INVOCATION_STATUSES = [Inv_COMPLETED, Inv_FAILED, Inv_SKIPPED, Inv_CANCELED]"

definition isTerminalPlanStatus :: "plan_status \<Rightarrow> bool" where
  "isTerminalPlanStatus status \<longleftrightarrow> status \<in> set TERMINAL_PLAN_STATUSES"

definition isTerminalInvocationStatus :: "invocation_status \<Rightarrow> bool" where
  "isTerminalInvocationStatus status \<longleftrightarrow> status \<in> set TERMINAL_INVOCATION_STATUSES"

section \<open>readiness.ts\<close>

record source_state =
  ss_invocationId :: string
  ss_status :: invocation_status
  ss_outcome :: "string option"

datatype readiness_decision = RD_PENDING | RD_READY | RD_SKIPPED

record readiness_result =
  rr_decision :: readiness_decision
  rr_reason :: string

datatype dependency_evaluation = WAITING | SATISFIED | IMPOSSIBLE

definition evaluateCondition :: "dependency_condition \<Rightarrow> source_state \<Rightarrow> dependency_evaluation" where
  "evaluateCondition condition source =
    (if \<not> isTerminalInvocationStatus (ss_status source) then WAITING
     else case condition of
       ALWAYS \<Rightarrow> SATISFIED
     | DATA \<Rightarrow> if ss_status source = Inv_COMPLETED then SATISFIED else IMPOSSIBLE
     | ON_SUCCESS \<Rightarrow> if ss_status source = Inv_COMPLETED then SATISFIED else IMPOSSIBLE
     | ON_FAILURE \<Rightarrow> if ss_status source = Inv_FAILED then SATISFIED else IMPOSSIBLE
     | OUTCOME outcome \<Rightarrow>
         if ss_status source = Inv_COMPLETED \<and> ss_outcome source = Some outcome
         then SATISFIED else IMPOSSIBLE)"

abbreviation decide :: "readiness_decision \<Rightarrow> string \<Rightarrow> readiness_result" where
  "decide d r \<equiv> \<lparr>rr_decision = d, rr_reason = r\<rparr>"

definition decideJoin :: "join_policy \<Rightarrow> dependency_evaluation list \<Rightarrow> readiness_result" where
  "decideJoin policy evaluations =
    (if length evaluations = 0 then decide RD_READY ''root invocation has no dependencies''
     else if policy = ALL_SETTLED then
       (if list_all (\<lambda>v. v \<noteq> WAITING) evaluations
        then decide RD_READY ''all upstream invocations are terminal''
        else decide RD_PENDING ''waiting for upstream invocations to settle'')
     else if policy = ANY_REQUIRED then
       (if list_ex (\<lambda>v. v = SATISFIED) evaluations
        then decide RD_READY ''at least one dependency is satisfied''
        else if list_all (\<lambda>v. v = IMPOSSIBLE) evaluations
        then decide RD_SKIPPED ''no dependency can be satisfied''
        else decide RD_PENDING ''waiting for a satisfiable dependency'')
     else if list_ex (\<lambda>v. v = IMPOSSIBLE) evaluations
     then decide RD_SKIPPED ''a required dependency cannot be satisfied''
     else if list_all (\<lambda>v. v = SATISFIED) evaluations
     then decide RD_READY ''all required dependencies are satisfied''
     else decide RD_PENDING ''waiting for required dependencies'')"

definition evaluate_source ::
    "(string \<rightharpoonup> source_state) \<Rightarrow> dependency \<Rightarrow> dependency_evaluation" where
  "evaluate_source sourceStates dependency =
    (case sourceStates (dp_from dependency) of
       None \<Rightarrow> WAITING
     | Some source \<Rightarrow> evaluateCondition (dp_condition dependency) source)"

definition decideDependencyReadiness ::
    "join_policy \<Rightarrow> dependency list \<Rightarrow> (string \<rightharpoonup> source_state) \<Rightarrow> readiness_result" where
  "decideDependencyReadiness joinPolicy incoming sourceStates =
    decideJoin joinPolicy (map (evaluate_source sourceStates) incoming)"

definition decideInvocationReadiness ::
    "invocation \<Rightarrow> dependency list \<Rightarrow> (string \<rightharpoonup> source_state) \<Rightarrow> readiness_result" where
  "decideInvocationReadiness invocation incoming sourceStates =
    decideDependencyReadiness (iv_joinPolicy invocation) incoming sourceStates"

text \<open>
  A JavaScript \<open>Map\<close> used for lookups is a map; \<open>incoming.get(x)?.push(d)\<close> is
  \<open>push_to\<close>. The resulting map is an association list in insertion order.
\<close>

definition push_to :: "string \<Rightarrow> 'a \<Rightarrow> (string \<rightharpoonup> 'a list) \<Rightarrow> (string \<rightharpoonup> 'a list)" where
  "push_to k x m = (case m k of None \<Rightarrow> m | Some xs \<Rightarrow> m(k \<mapsto> xs @ [x]))"

definition incoming_map :: "invocation list \<Rightarrow> dependency list \<Rightarrow> (string \<rightharpoonup> dependency list)" where
  "incoming_map invocations dependencies =
    fold (\<lambda>d m. push_to (dp_to d) d m) dependencies
      (fold (\<lambda>i m. m(iv_id i \<mapsto> [])) invocations Map.empty)"

definition is_waiting :: "(string \<rightharpoonup> source_state) \<Rightarrow> string \<Rightarrow> bool" where
  "is_waiting runtimeStates i = (case runtimeStates i of
     None \<Rightarrow> True | Some s \<Rightarrow> ss_status s = Inv_PENDING)"

definition computePendingInvocationTransitions ::
    "invocation list \<Rightarrow> dependency list \<Rightarrow> (string \<rightharpoonup> source_state) \<Rightarrow> (string \<times> readiness_result) list"
  where
  "computePendingInvocationTransitions invocations dependencies runtimeStates =
    (let incoming = incoming_map invocations dependencies in
     fold (\<lambda>i results. if is_waiting runtimeStates (iv_id i)
         then AList.update (iv_id i) (decideInvocationReadiness i
           (case incoming (iv_id i) of None \<Rightarrow> [] | Some ds \<Rightarrow> ds) runtimeStates) results
         else results) invocations [])"

section \<open>Lemmas\<close>

lemma push_to_filter:
  "fold (\<lambda>d m. push_to (k d) d m) ds m i =
    (case m i of None \<Rightarrow> None | Some xs \<Rightarrow> Some (xs @ filter (\<lambda>d. k d = i) ds))"
proof (induction ds arbitrary: m)
  case Nil
  then show ?case by (simp split: option.splits)
next
  case (Cons d ds)
  then show ?case by (auto simp: push_to_def split: option.splits)
qed

lemma fold_empty_lists:
  "fold (\<lambda>i m. m(iv_id i \<mapsto> [])) is m k = (if k \<in> iv_id ` set is then Some [] else m k)"
  by (induction "is" arbitrary: m) auto

lemma incoming_map_eq:
  "incoming_map is ds k = (if k \<in> iv_id ` set is then Some (filter (\<lambda>d. dp_to d = k) ds) else None)"
  by (simp add: incoming_map_def push_to_filter fold_empty_lists)

lemma update_results:
  "map_of (fold (\<lambda>i r. if P i then AList.update (k i) (f i) r else r) is r) x =
    (case find (\<lambda>i. P i \<and> k i = x) (rev is) of None \<Rightarrow> map_of r x | Some i \<Rightarrow> Some (f i))"
proof (induction "is" arbitrary: r rule: rev_induct)
  case Nil
  then show ?case by simp
next
  case (snoc i "is")
  then show ?case by (auto simp: update_conv split: option.splits)
qed

lemma transitions_lookup:
  assumes "distinct (map iv_id invocations)" and "i \<in> set invocations"
    and "is_waiting states (iv_id i)"
  shows "map_of (computePendingInvocationTransitions invocations dependencies states) (iv_id i) =
    Some (decideInvocationReadiness i (filter (\<lambda>d. dp_to d = iv_id i) dependencies) states)"
proof -
  have "distinct (map iv_id (rev invocations))" using assms(1) by (simp add: rev_map[symmetric])
  from find_by_key[OF this, of i "\<lambda>j. is_waiting states (iv_id j)"] assms(2,3)
  have "find (\<lambda>j. is_waiting states (iv_id j) \<and> iv_id j = iv_id i) (rev invocations) = Some i"
    by (simp add: conj_commute)
  with assms(2) show ?thesis
    by (auto simp: computePendingInvocationTransitions_def update_results incoming_map_eq)
qed

lemma evaluate_terminal:
  "isTerminalInvocationStatus (ss_status s) \<Longrightarrow> evaluateCondition c s \<noteq> WAITING"
  by (auto simp: evaluateCondition_def split: dependency_condition.splits)

lemma evaluate_waiting:
  "\<not> isTerminalInvocationStatus (ss_status s) \<Longrightarrow> evaluateCondition c s = WAITING"
  by (simp add: evaluateCondition_def)

text \<open>A join whose sources have all settled is decided.\<close>

lemma decideJoin_settled:
  assumes "list_all (\<lambda>v. v \<noteq> WAITING) es"
  shows "rr_decision (decideJoin p es) \<noteq> RD_PENDING"
proof -
  have "\<exists>v \<in> set es. v = IMPOSSIBLE" if "\<not> list_all (\<lambda>v. v = SATISFIED) es"
    using that assms by (metis (full_types) dependency_evaluation.exhaust list_all_iff)
  moreover have "list_all (\<lambda>v. v = IMPOSSIBLE) es" if "\<not> list_ex (\<lambda>v. v = SATISFIED) es"
    using that assms by (metis (full_types) dependency_evaluation.exhaust list_all_iff list_ex_iff)
  ultimately show ?thesis
    using assms by (auto simp: decideJoin_def list_ex_iff)
qed

text \<open>Evaluations that only move away from waiting do not change a decision already made.\<close>

definition settles :: "dependency_evaluation \<Rightarrow> dependency_evaluation \<Rightarrow> bool" where
  "settles a b \<longleftrightarrow> a = WAITING \<or> a = b"

lemma decideJoin_stable:
  assumes "list_all2 settles es es'" and "rr_decision (decideJoin p es) \<noteq> RD_PENDING"
  shows "rr_decision (decideJoin p es') = rr_decision (decideJoin p es)"
proof -
  have len: "length es' = length es" using assms(1) by (simp add: list_all2_lengthD)
  have keep: "list_all (\<lambda>v. v = x) es'" if "list_all (\<lambda>v. v = x) es" "x \<noteq> WAITING" for x
    using assms(1) that by (induction rule: list_all2_induct) (auto simp: settles_def)
  have keep_ex: "list_ex (\<lambda>v. v = x) es'" if "list_ex (\<lambda>v. v = x) es" "x \<noteq> WAITING" for x
    using assms(1) that by (induction rule: list_all2_induct) (auto simp: settles_def)
  have keep_settled: "list_all (\<lambda>v. v \<noteq> WAITING) es'" if "list_all (\<lambda>v. v \<noteq> WAITING) es"
    using assms(1) that by (induction rule: list_all2_induct) (auto simp: settles_def)
  have excl: "\<not> list_ex (\<lambda>v. v = x) es" if "list_all (\<lambda>v. v = y) es" "x \<noteq> y" for x y
    using that by (auto simp: list_all_iff list_ex_iff)
  have excl': "\<not> list_ex (\<lambda>v. v = x) es'" if "list_all (\<lambda>v. v = y) es'" "x \<noteq> y" for x y
    using that by (auto simp: list_all_iff list_ex_iff)
  show ?thesis
    using assms(2) len keep[of SATISFIED] keep[of IMPOSSIBLE] keep_ex[of SATISFIED] keep_ex[of IMPOSSIBLE]
      keep_settled excl'[of SATISFIED IMPOSSIBLE] excl'[of IMPOSSIBLE SATISFIED]
    by (cases p) (auto simp: decideJoin_def split: if_splits)
qed

section \<open>Property\<close>

text \<open>
  C16: readiness decisions are final and always reached. A decision that is not PENDING stays
  the same as further sources settle, as long as settled sources keep their state; and once
  every source has settled there is a decision.
\<close>

theorem readiness_final:
  assumes "\<And>i s. states i = Some s \<Longrightarrow> isTerminalInvocationStatus (ss_status s) \<Longrightarrow> states' i = Some s"
  shows "(rr_decision (decideDependencyReadiness p ds states) \<noteq> RD_PENDING \<longrightarrow>
      rr_decision (decideDependencyReadiness p ds states') =
      rr_decision (decideDependencyReadiness p ds states)) \<and>
    (list_all (\<lambda>d. \<exists>s. states (dp_from d) = Some s \<and> isTerminalInvocationStatus (ss_status s)) ds \<longrightarrow>
      rr_decision (decideDependencyReadiness p ds states) \<noteq> RD_PENDING)"
proof (intro conjI impI)
  assume d: "rr_decision (decideDependencyReadiness p ds states) \<noteq> RD_PENDING"
  have "settles (evaluate_source states d) (evaluate_source states' d)" for d
  proof (cases "states (dp_from d)")
    case None
    then show ?thesis by (simp add: settles_def evaluate_source_def)
  next
    case (Some s)
    with assms[OF Some] show ?thesis
      by (cases "isTerminalInvocationStatus (ss_status s)")
        (auto simp: settles_def evaluate_source_def evaluate_waiting)
  qed
  then have "list_all2 settles (map (evaluate_source states) ds) (map (evaluate_source states') ds)"
    by (simp add: list_all2_map1 list_all2_map2 list_all2_same)
  with d show "rr_decision (decideDependencyReadiness p ds states') =
      rr_decision (decideDependencyReadiness p ds states)"
    unfolding decideDependencyReadiness_def by (intro decideJoin_stable)
next
  assume "list_all (\<lambda>d. \<exists>s. states (dp_from d) = Some s \<and> isTerminalInvocationStatus (ss_status s)) ds"
  then have "list_all (\<lambda>v. v \<noteq> WAITING) (map (evaluate_source states) ds)"
    by (fastforce simp: list_all_iff evaluate_source_def dest: evaluate_terminal)
  then show "rr_decision (decideDependencyReadiness p ds states) \<noteq> RD_PENDING"
    unfolding decideDependencyReadiness_def by (rule decideJoin_settled)
qed

definition sample_state :: "string \<Rightarrow> invocation_status \<Rightarrow> source_state" where
  "sample_state i st = \<lparr>ss_invocationId = i, ss_status = st, ss_outcome = None\<rparr>"

definition sample_dependency :: "string \<Rightarrow> string \<Rightarrow> string \<Rightarrow> dependency_condition \<Rightarrow> dependency" where
  "sample_dependency i a b c =
    \<lparr>dp_id = i, dp_from = a, dp_to = b, dp_condition = c, dp_inputBindings = []\<rparr>"

lemma readiness_final_witness:
  "rr_decision (decideDependencyReadiness ANY_REQUIRED
      [sample_dependency ''d1'' ''a'' ''c'' ON_SUCCESS, sample_dependency ''d2'' ''b'' ''c'' ON_SUCCESS]
      [''a'' \<mapsto> sample_state ''a'' Inv_COMPLETED, ''b'' \<mapsto> sample_state ''b'' Inv_FAILED]) = RD_READY"
proof -
  let ?ds = "[sample_dependency ''d1'' ''a'' ''c'' ON_SUCCESS, sample_dependency ''d2'' ''b'' ''c'' ON_SUCCESS]"
  let ?s = "[''a'' \<mapsto> sample_state ''a'' Inv_COMPLETED, ''b'' \<mapsto> sample_state ''b'' Inv_RUNNING]"
  let ?s' = "[''a'' \<mapsto> sample_state ''a'' Inv_COMPLETED, ''b'' \<mapsto> sample_state ''b'' Inv_FAILED]"
  have r: "rr_decision (decideDependencyReadiness ANY_REQUIRED ?ds ?s) = RD_READY" by code_simp
  have "?s' i = Some s" if "?s i = Some s" "isTerminalInvocationStatus (ss_status s)" for i s
    using that by (auto simp: sample_state_def isTerminalInvocationStatus_def TERMINAL_INVOCATION_STATUSES_def
        split: if_splits)
  from readiness_final[of ?s ?s' ANY_REQUIRED ?ds, OF this] r show ?thesis by simp
qed

end
