(* ===== verification/Orch_Graph.thy ===== *)
theory Orch_Graph
  imports Orch_Readiness
begin

text \<open>
  \<open>packages/orchestration/src/graph.ts\<close>: \<open>validateExecutionPlanGraph\<close>, which checks a plan
  before it is persisted and computes a topological order and the depth of every invocation.
  Error messages are left out. The two loops over dependencies and invocations are
  \<open>register_dependency\<close> and \<open>check_invocation\<close>; the last loop is the function
  \<open>order_loop\<close>, whose queue is the part of the code's queue from \<open>cursor\<close> on.
\<close>

section \<open>Limits and errors\<close>

record graph_limits =
  gl_maxInvocations :: nat
  gl_maxDependencies :: nat
  gl_maxDepth :: nat
  gl_maxFanOut :: nat

definition DEFAULT_GRAPH_LIMITS :: graph_limits where
  "DEFAULT_GRAPH_LIMITS =
    \<lparr>gl_maxInvocations = 64, gl_maxDependencies = 256, gl_maxDepth = 16, gl_maxFanOut = 16\<rparr>"

datatype graph_error =
    DUPLICATE_INVOCATION | DUPLICATE_DEPENDENCY | UNKNOWN_SOURCE | UNKNOWN_TARGET | SELF_DEPENDENCY
  | CYCLE | DUPLICATE_OUTPUT | DUPLICATE_INPUT | MISSING_SOURCE_OUTPUT | ARTIFACT_TYPE_MISMATCH
  | INVALID_DATA_DEPENDENCY | INVALID_CONDITIONAL_BINDING | INVALID_JOIN | INVALID_OUTCOME
  | INVALID_EVALUATOR | INVALID_EVALUATOR_BINDING | UNREACHABLE_INVOCATION | GRAPH_LIMIT_EXCEEDED

record normalized_graph =
  ng_plan :: execution_plan
  ng_invocationsById :: "string \<rightharpoonup> invocation"
  ng_incoming :: "string \<rightharpoonup> dependency list"
  ng_outgoing :: "string \<rightharpoonup> dependency list"
  ng_topologicalOrder :: "string list"
  ng_depth :: "string \<rightharpoonup> nat"

section \<open>Invocations\<close>

definition uniqueOutputs :: "invocation \<Rightarrow> graph_error + (string \<rightharpoonup> output_declaration)" where
  "uniqueOutputs invocation =
    fold_res (\<lambda>output result. if result (od_name output) \<noteq> None then Inl DUPLICATE_OUTPUT
        else Inr (result(od_name output \<mapsto> output)))
      (iv_outputs invocation) Map.empty"

definition register_invocation ::
    "invocation \<Rightarrow> (string \<rightharpoonup> invocation) \<times> (string \<rightharpoonup> (string \<rightharpoonup> output_declaration)) \<Rightarrow>
      graph_error + (string \<rightharpoonup> invocation) \<times> (string \<rightharpoonup> (string \<rightharpoonup> output_declaration))" where
  "register_invocation invocation st = (case st of (byId, outputs) \<Rightarrow>
    if byId (iv_id invocation) \<noteq> None then Inl DUPLICATE_INVOCATION
    else rbind (uniqueOutputs invocation) (\<lambda>os.
      Inr (byId(iv_id invocation \<mapsto> invocation), outputs(iv_id invocation \<mapsto> os))))"

text \<open>Splitting at a character, and a tilde that is not followed by 0 or 1.\<close>

fun split_at :: "char \<Rightarrow> string \<Rightarrow> string list" where
  "split_at c [] = [[]]"
| "split_at c (x # xs) =
    (if x = c then [] # split_at c xs
     else (case split_at c xs of [] \<Rightarrow> [[x]] | t # ts \<Rightarrow> (x # t) # ts))"

fun bad_tilde :: "string \<Rightarrow> bool" where
  "bad_tilde [] = False"
| "bad_tilde [c] = (c = CHR ''~'')"
| "bad_tilde (c # d # cs) =
    ((c = CHR ''~'' \<and> d \<noteq> CHR ''0'' \<and> d \<noteq> CHR ''1'') \<or> bad_tilde (d # cs))"

definition isValidJsonPointer :: "string \<Rightarrow> bool" where
  "isValidJsonPointer pointer =
    (if pointer = [] then True
     else if hd pointer \<noteq> CHR ''/'' then False
     else list_all (\<lambda>token. \<not> bad_tilde token) (split_at (CHR ''/'') (tl pointer)))"

section \<open>Dependencies\<close>

definition condition_kind :: "dependency_condition \<Rightarrow> string" where
  "condition_kind c = (case c of DATA \<Rightarrow> ''DATA'' | ON_SUCCESS \<Rightarrow> ''ON_SUCCESS''
     | ON_FAILURE \<Rightarrow> ''ON_FAILURE'' | ALWAYS \<Rightarrow> ''ALWAYS'' | OUTCOME _ \<Rightarrow> ''OUTCOME'')"

definition condition_outcome :: "dependency_condition \<Rightarrow> string" where
  "condition_outcome c = (case c of OUTCOME outcome \<Rightarrow> outcome | _ \<Rightarrow> [])"

definition edge_key :: "dependency \<Rightarrow> string" where
  "edge_key d = dp_from d @ ''->'' @ dp_to d @ '':'' @ condition_kind (dp_condition d) @ '':'' @
    condition_outcome (dp_condition d)"

record edge_state =
  es_dependencyIds :: "string list"
  es_edgeKeys :: "string list"
  es_boundInputs :: "string \<rightharpoonup> string list"
  es_incoming :: "string \<rightharpoonup> dependency list"
  es_outgoing :: "string \<rightharpoonup> dependency list"

definition bind_input ::
    "(string \<rightharpoonup> output_declaration) \<Rightarrow> input_binding \<Rightarrow> string list \<Rightarrow> graph_error + string list" where
  "bind_input sourceOutputs binding targetInputs =
    (if ib_inputName binding \<in> set targetInputs then Inl DUPLICATE_INPUT
     else case sourceOutputs (ib_sourceOutputName binding) of
         None \<Rightarrow> Inl MISSING_SOURCE_OUTPUT
       | Some output \<Rightarrow>
           if od_artifactType output \<noteq> ib_expectedArtifactType binding then Inl ARTIFACT_TYPE_MISMATCH
           else Inr (targetInputs @ [ib_inputName binding]))"

definition is_evaluator :: "invocation \<Rightarrow> bool" where
  "is_evaluator invocation \<longleftrightarrow> iv_target invocation = EVALUATOR"

text \<open>The checks of one dependency before its bindings are read.\<close>

definition check_dependency ::
    "(string \<rightharpoonup> invocation) \<Rightarrow> edge_state \<Rightarrow> dependency \<Rightarrow> graph_error + unit" where
  "check_dependency byId st d =
    (if dp_id d \<in> set (es_dependencyIds st) then Inl DUPLICATE_DEPENDENCY
     else if byId (dp_from d) = None then Inl UNKNOWN_SOURCE
     else if byId (dp_to d) = None then Inl UNKNOWN_TARGET
     else if dp_from d = dp_to d then Inl SELF_DEPENDENCY
     else if edge_key d \<in> set (es_edgeKeys st) then Inl DUPLICATE_DEPENDENCY
     else if condition_kind (dp_condition d) = ''OUTCOME'' \<and>
         length (js_trim (condition_outcome (dp_condition d))) = 0 then Inl INVALID_OUTCOME
     else if condition_kind (dp_condition d) = ''OUTCOME'' \<and>
         (case byId (dp_from d) of None \<Rightarrow> False | Some source \<Rightarrow> is_evaluator source) \<and>
         condition_outcome (dp_condition d) \<noteq> ''PASS'' \<and> condition_outcome (dp_condition d) \<noteq> ''FAIL''
       then Inl INVALID_OUTCOME
     else if dp_condition d = DATA \<and> length (dp_inputBindings d) = 0 then Inl INVALID_DATA_DEPENDENCY
     else if dp_condition d \<noteq> DATA \<and> length (dp_inputBindings d) > 0 then Inl INVALID_CONDITIONAL_BINDING
     else Inr ())"

definition register_dependency ::
    "(string \<rightharpoonup> invocation) \<Rightarrow> (string \<rightharpoonup> (string \<rightharpoonup> output_declaration)) \<Rightarrow> dependency \<Rightarrow> edge_state \<Rightarrow>
      graph_error + edge_state" where
  "register_dependency byId outputs d st =
    rbind (check_dependency byId st d) (\<lambda>_.
    case (outputs (dp_from d), es_incoming st (dp_to d), es_outgoing st (dp_from d)) of
      (Some sourceOutputs, Some _, Some _) \<Rightarrow>
        rbind (fold_res (bind_input sourceOutputs) (dp_inputBindings d)
            (case es_boundInputs st (dp_to d) of None \<Rightarrow> [] | Some xs \<Rightarrow> xs)) (\<lambda>targetInputs.
        Inr (st\<lparr>es_dependencyIds := dp_id d # es_dependencyIds st,
          es_edgeKeys := edge_key d # es_edgeKeys st,
          es_boundInputs := (es_boundInputs st)(dp_to d \<mapsto> targetInputs),
          es_incoming := push_to (dp_to d) d (es_incoming st),
          es_outgoing := push_to (dp_from d) d (es_outgoing st)\<rparr>))
    | _ \<Rightarrow> Inl UNKNOWN_SOURCE)"

section \<open>Evaluators\<close>

definition binding_input :: "criterion_binding \<Rightarrow> string" where
  "binding_input b = (case b of ARTIFACT_EXISTS i \<Rightarrow> i | TEXT_CONTAINS i _ _ \<Rightarrow> i | JSON_EQUALS i _ _ \<Rightarrow> i)"

definition check_criterion :: "string list \<Rightarrow> acceptance_criteria \<Rightarrow> graph_error + unit" where
  "check_criterion availableInputs criterion =
    (case ac_binding criterion of
       None \<Rightarrow> Inr ()
     | Some binding \<Rightarrow>
         if (case binding of JSON_EQUALS _ path _ \<Rightarrow> \<not> isValidJsonPointer path | _ \<Rightarrow> False)
         then Inl INVALID_EVALUATOR_BINDING
         else if binding_input binding \<notin> set availableInputs then Inl INVALID_EVALUATOR_BINDING
         else Inr ())"

definition check_evaluator :: "string list \<Rightarrow> invocation \<Rightarrow> graph_error + unit" where
  "check_evaluator availableInputs invocation =
    (let criteria = iv_acceptanceCriteria invocation in
     if length (iv_outputs invocation) \<noteq> 1 \<or>
        od_artifactType (hd (iv_outputs invocation)) \<noteq> JSON \<or> length criteria = 0
     then Inl INVALID_EVALUATOR
     else if \<not> distinct (map ac_id criteria) then Inl INVALID_EVALUATOR
     else if length (remdups (map ac_mode criteria)) \<noteq> 1 then Inl INVALID_EVALUATOR
     else let mode = ac_mode (hd criteria) in
       if mode = HUMAN_APPROVAL_MODE \<and> length criteria \<noteq> 1 then Inl INVALID_EVALUATOR
       else if iv_riskClass invocation \<noteq> READ_ONLY then Inl INVALID_EVALUATOR
       else if mode = HUMAN_APPROVAL_MODE \<and> iv_approvalPolicy invocation \<noteq> HUMAN_APPROVAL \<or>
           mode \<noteq> HUMAN_APPROVAL_MODE \<and> iv_approvalPolicy invocation \<noteq> AUTO
         then Inl INVALID_EVALUATOR
       else if mode = DETERMINISTIC \<and> list_ex (\<lambda>c. ac_binding c = None) criteria
         then Inl INVALID_EVALUATOR
       else if mode \<noteq> DETERMINISTIC \<and> list_ex (\<lambda>c. ac_binding c \<noteq> None) criteria
         then Inl INVALID_EVALUATOR
       else if mode = AI_EVALUATOR \<and> length availableInputs = 0 then Inl INVALID_EVALUATOR_BINDING
       else fold_res (\<lambda>c _. check_criterion availableInputs c) criteria ())"

definition check_invocation :: "edge_state \<Rightarrow> invocation \<Rightarrow> graph_error + unit" where
  "check_invocation st invocation =
    (case es_incoming st (iv_id invocation) of
       None \<Rightarrow> Inl UNREACHABLE_INVOCATION
     | Some incoming \<Rightarrow>
         if length incoming < 2 \<and> iv_joinPolicy invocation \<noteq> ALL_REQUIRED then Inl INVALID_JOIN
         else if is_evaluator invocation
         then check_evaluator (case es_boundInputs st (iv_id invocation) of None \<Rightarrow> [] | Some xs \<Rightarrow> xs)
           invocation
         else Inr ())"

section \<open>The topological order\<close>

record order_state =
  os_queue :: "string list"
  os_indegree :: "(string \<times> int) list"
  os_depth :: "string \<rightharpoonup> nat"

definition nat_or_zero :: "nat option \<Rightarrow> nat" where
  "nat_or_zero x = (case x of None \<Rightarrow> 0 | Some n \<Rightarrow> n)"

definition degree_of :: "(string \<times> int) list \<Rightarrow> string \<Rightarrow> int" where
  "degree_of m k = (case map_of m k of None \<Rightarrow> 0 | Some n \<Rightarrow> n)"

definition visit_dependency :: "nat \<Rightarrow> dependency \<Rightarrow> order_state \<Rightarrow> order_state" where
  "visit_dependency currentDepth d st =
    (let next = dp_to d;
         nextDegree = degree_of (os_indegree st) next - 1
     in st\<lparr>os_depth := (os_depth st)(next \<mapsto> max (nat_or_zero (os_depth st next)) (currentDepth + 1)),
        os_indegree := AList.update next nextDegree (os_indegree st),
        os_queue := (if nextDegree = 0 then os_queue st @ [next] else os_queue st)\<rparr>)"

text \<open>
  Each push uses up an entry of \<open>indegree\<close> that was 1, so the number of positive entries
  and the length of the queue bound the loop.
\<close>

definition positive_degrees :: "(string \<times> int) list \<Rightarrow> nat" where
  "positive_degrees m = length (filter (\<lambda>e. 0 < snd e) m)"

lemma positive_update:
  "positive_degrees (AList.update k (degree_of m k - 1) m) + (if degree_of m k = 1 then 1 else 0)
    \<le> positive_degrees m"
proof (induction m)
  case Nil
  then show ?case by (simp add: positive_degrees_def degree_of_def)
next
  case (Cons e m)
  obtain k' v where e: "e = (k', v)" by (cases e)
  show ?case
  proof (cases "k' = k")
    case True
    then show ?thesis by (simp add: e positive_degrees_def degree_of_def)
  next
    case False
    then have "degree_of (e # m) k = degree_of m k" by (simp add: e degree_of_def)
    with Cons False show ?thesis by (simp add: e positive_degrees_def split: if_splits)
  qed
qed

lemma visit_measure:
  "length (os_queue (visit_dependency c d st)) + positive_degrees (os_indegree (visit_dependency c d st))
    \<le> length (os_queue st) + positive_degrees (os_indegree st)"
  using positive_update[of "dp_to d" "os_indegree st"]
  by (auto simp: visit_dependency_def Let_def split: if_splits)

lemma visits_measure:
  "length (os_queue (fold (visit_dependency c) ds st)) +
      positive_degrees (os_indegree (fold (visit_dependency c) ds st))
    \<le> length (os_queue st) + positive_degrees (os_indegree st)"
proof (induction ds arbitrary: st)
  case Nil
  then show ?case by simp
next
  case (Cons d ds)
  from Cons[of "visit_dependency c d st"] visit_measure[of c d st] show ?case by simp
qed

function order_loop ::
    "(string \<rightharpoonup> dependency list) \<Rightarrow> string list \<Rightarrow> order_state \<Rightarrow> string list \<times> (string \<rightharpoonup> nat)" where
  "order_loop outgoing order st =
    (case os_queue st of
       [] \<Rightarrow> (order, os_depth st)
     | i # rest \<Rightarrow>
         order_loop outgoing (order @ [i])
           (fold (visit_dependency (nat_or_zero (os_depth st i)))
             (case outgoing i of None \<Rightarrow> [] | Some ds \<Rightarrow> ds) (st\<lparr>os_queue := rest\<rparr>)))"
  by pat_completeness auto
termination
proof (relation "measure (\<lambda>(_, _, st). length (os_queue st) + positive_degrees (os_indegree st))")
  fix outgoing :: "string \<rightharpoonup> dependency list" and order i rest and st :: order_state
  assume q: "os_queue st = i # rest"
  show "((outgoing, order @ [i], fold (visit_dependency (nat_or_zero (os_depth st i)))
      (case outgoing i of None \<Rightarrow> [] | Some ds \<Rightarrow> ds) (st\<lparr>os_queue := rest\<rparr>)), (outgoing, order, st))
    \<in> measure (\<lambda>(_, _, st). length (os_queue st) + positive_degrees (os_indegree st))"
    using visits_measure[of "nat_or_zero (os_depth st i)" "case outgoing i of None \<Rightarrow> [] | Some ds \<Rightarrow> ds"
        "st\<lparr>os_queue := rest\<rparr>"] q by simp
qed simp

declare order_loop.simps [simp del]

section \<open>validateExecutionPlanGraph\<close>

definition initial_order :: "string list \<Rightarrow> (string \<rightharpoonup> dependency list) \<Rightarrow> order_state" where
  "initial_order ids incoming =
    (let indegree = map (\<lambda>i. (i, int (length (case incoming i of None \<Rightarrow> [] | Some ds \<Rightarrow> ds)))) ids;
         queue = map fst (filter (\<lambda>e. snd e = 0) indegree)
     in \<lparr>os_queue = queue, os_indegree = indegree, os_depth = map_of (map (\<lambda>i. (i, 0)) queue)\<rparr>)"

definition check_depth :: "nat \<Rightarrow> (string \<rightharpoonup> nat) \<Rightarrow> invocation \<Rightarrow> graph_error + unit" where
  "check_depth maxDepth depth invocation =
    (case depth (iv_id invocation) of
       None \<Rightarrow> Inl UNREACHABLE_INVOCATION
     | Some nodeDepth \<Rightarrow> if nodeDepth > maxDepth then Inl GRAPH_LIMIT_EXCEEDED else Inr ())"

definition validateExecutionPlanGraph ::
    "execution_plan \<Rightarrow> graph_limits \<Rightarrow> graph_error + normalized_graph" where
  "validateExecutionPlanGraph plan limits =
    (let invocations = xp_invocations plan; dependencies = xp_dependencies plan in
     if length invocations > gl_maxInvocations limits \<or> length dependencies > gl_maxDependencies limits
     then Inl GRAPH_LIMIT_EXCEEDED
     else
      rbind (fold_res register_invocation invocations (Map.empty, Map.empty)) (\<lambda>(byId, outputs).
      let ids = map iv_id invocations;
          empty = fold (\<lambda>i m. m(i \<mapsto> [])) ids Map.empty in
      rbind (fold_res (register_dependency byId outputs) dependencies
          \<lparr>es_dependencyIds = [], es_edgeKeys = [], es_boundInputs = Map.empty,
           es_incoming = empty, es_outgoing = empty\<rparr>) (\<lambda>st.
      rbind (fold_res (\<lambda>i _. guard_res (length (case es_outgoing st i of None \<Rightarrow> [] | Some ds \<Rightarrow> ds)
            > gl_maxFanOut limits) GRAPH_LIMIT_EXCEEDED) ids ()) (\<lambda>_.
      rbind (fold_res (\<lambda>i _. check_invocation st i) invocations ()) (\<lambda>_.
      let (order, depth) = order_loop (es_outgoing st) [] (initial_order ids (es_incoming st)) in
      if length order \<noteq> length invocations then Inl CYCLE
      else rbind (fold_res (\<lambda>i _. check_depth (gl_maxDepth limits) depth i) invocations ()) (\<lambda>_.
        Inr \<lparr>ng_plan = plan, ng_invocationsById = byId, ng_incoming = es_incoming st,
          ng_outgoing = es_outgoing st, ng_topologicalOrder = order, ng_depth = depth\<rparr>))))))"

end
