(* ===== verification/Orch_Order.thy ===== *)
theory Orch_Order
  imports Orch_Graph
begin

text \<open>
  What \<open>validateExecutionPlanGraph\<close> of \<open>packages/orchestration/src/graph.ts\<close> guarantees: the
  invariant of its ordering loop, that the order it returns respects every dependency, that it
  reports a cycle exactly when there is one, and, together with \<open>readiness.ts\<close>, that a
  validated plan always has an invocation to decide while some are pending.
\<close>

section \<open>The loops before the order\<close>

lemma register_invocation_step:
  "register_invocation i (byId, outs) = Inr r \<Longrightarrow> byId (iv_id i) = None \<and>
    (\<exists>os. r = (byId(iv_id i \<mapsto> i), outs(iv_id i \<mapsto> os)))"
  by (auto simp: register_invocation_def res_simps simp del: not_None_eq split: if_splits)

lemma register_invocations:
  assumes "fold_res register_invocation is (byId, outs) = Inr (byId', outs')"
  shows "distinct (map iv_id is) \<and> dom byId \<inter> iv_id ` set is = {} \<and> dom byId' = dom byId \<union> iv_id ` set is"
  using assms
proof (induction "is" arbitrary: byId outs)
  case Nil
  then show ?case by simp
next
  case (Cons i "is")
  from Cons.prems obtain os where os: "byId (iv_id i) = None"
      "fold_res register_invocation is (byId(iv_id i \<mapsto> i), outs(iv_id i \<mapsto> os)) = Inr (byId', outs')"
    by (auto simp: res_simps dest!: register_invocation_step)
  have "dom (byId(iv_id i \<mapsto> i)) = insert (iv_id i) (dom byId)" by simp
  with Cons.IH[OF os(2)] os(1) show ?case by (auto simp del: fun_upd_apply simp: domIff)
qed

definition edges_ok :: "(string \<rightharpoonup> invocation) \<Rightarrow> dependency list \<Rightarrow> bool" where
  "edges_ok byId ds \<longleftrightarrow> list_all (\<lambda>d. dp_from d \<in> dom byId \<and> dp_to d \<in> dom byId \<and> dp_from d \<noteq> dp_to d) ds"

lemma register_dependency_step:
  assumes "register_dependency byId outputs d st = Inr st'"
  shows "dp_from d \<in> dom byId" and "dp_to d \<in> dom byId" and "dp_from d \<noteq> dp_to d"
    and "dp_id d \<notin> set (es_dependencyIds st)" and "es_dependencyIds st' = dp_id d # es_dependencyIds st"
    and "es_incoming st' = push_to (dp_to d) d (es_incoming st)"
    and "es_outgoing st' = push_to (dp_from d) d (es_outgoing st)"
  using assms
  by (auto simp: register_dependency_def res_simps check_dependency_def split: if_splits option.splits)

lemma register_dependencies:
  assumes "fold_res (register_dependency byId outputs) ds st = Inr st'"
  shows "edges_ok byId ds \<and> distinct (map dp_id ds) \<and>
    (\<forall>d \<in> set ds. dp_id d \<notin> set (es_dependencyIds st)) \<and>
    es_incoming st' = fold (\<lambda>d m. push_to (dp_to d) d m) ds (es_incoming st) \<and>
    es_outgoing st' = fold (\<lambda>d m. push_to (dp_from d) d m) ds (es_outgoing st)"
  using assms
proof (induction ds arbitrary: st)
  case Nil
  then show ?case by (simp add: edges_ok_def)
next
  case (Cons d ds)
  from Cons.prems obtain st1 where r: "register_dependency byId outputs d st = Inr st1"
      "fold_res (register_dependency byId outputs) ds st1 = Inr st'"
    by (auto simp: res_simps)
  from Cons.IH[OF r(2)] register_dependency_step[OF r(1)] show ?case
    by (auto simp: edges_ok_def)
qed

lemma fold_empty_ids:
  "fold (\<lambda>i m. m(i \<mapsto> [])) ids m k = (if k \<in> set ids then Some [] else m k)"
  by (induction ids arbitrary: m) auto

lemma check_depth_Inr:
  "check_depth m depth i = Inr () \<Longrightarrow> \<exists>n. depth (iv_id i) = Some n \<and> n \<le> m"
  by (auto simp: check_depth_def split: option.splits if_splits)

text \<open>A successful validation, taken apart.\<close>

lemma validate_success:
  assumes "validateExecutionPlanGraph plan limits = Inr g"
  obtains ids deps order depth where "ids = map iv_id (xp_invocations plan)" "deps = xp_dependencies plan"
    "distinct ids" "\<forall>d \<in> set deps. dp_from d \<in> set ids \<and> dp_to d \<in> set ids \<and> dp_from d \<noteq> dp_to d"
    "ng_incoming g = (\<lambda>i. if i \<in> set ids then Some (filter (\<lambda>d. dp_to d = i) deps) else None)"
    "ng_outgoing g = (\<lambda>i. if i \<in> set ids then Some (filter (\<lambda>d. dp_from d = i) deps) else None)"
    "order_loop (ng_outgoing g) [] (initial_order ids (ng_incoming g)) = (order, depth)"
    "length order = length ids" "ng_topologicalOrder g = order" "ng_depth g = depth"
    "\<forall>i \<in> set ids. \<exists>n. depth i = Some n \<and> n \<le> gl_maxDepth limits"
    "\<forall>i \<in> set ids. length (filter (\<lambda>d. dp_from d = i) deps) \<le> gl_maxFanOut limits"
proof -
  let ?is = "xp_invocations plan" and ?deps = "xp_dependencies plan"
  let ?ids = "map iv_id ?is"
  let ?empty = "fold (\<lambda>i m. m(i \<mapsto> [])) ?ids Map.empty"
  from assms obtain byId outputs st where
      inv: "fold_res register_invocation ?is (Map.empty, Map.empty) = Inr (byId, outputs)"
    and dep: "fold_res (register_dependency byId outputs) ?deps \<lparr>es_dependencyIds = [], es_edgeKeys = [],
        es_boundInputs = Map.empty, es_incoming = ?empty, es_outgoing = ?empty\<rparr> = Inr st"
    and fan: "fold_res (\<lambda>i _. guard_res (length (case es_outgoing st i of None \<Rightarrow> [] | Some ds \<Rightarrow> ds)
        > gl_maxFanOut limits) GRAPH_LIMIT_EXCEEDED) ?ids () = Inr ()"
    and rest: "(let (order, depth) = order_loop (es_outgoing st) [] (initial_order ?ids (es_incoming st)) in
      if length order \<noteq> length ?is then Inl CYCLE
      else rbind (fold_res (\<lambda>i _. check_depth (gl_maxDepth limits) depth i) ?is ()) (\<lambda>_.
        Inr \<lparr>ng_plan = plan, ng_invocationsById = byId, ng_incoming = es_incoming st,
          ng_outgoing = es_outgoing st, ng_topologicalOrder = order, ng_depth = depth\<rparr>)) = Inr g"
    unfolding validateExecutionPlanGraph_def by (auto simp: res_simps Let_def split: if_splits)
  obtain order depth where
      ord: "order_loop (es_outgoing st) [] (initial_order ?ids (es_incoming st)) = (order, depth)"
    by (cases "order_loop (es_outgoing st) [] (initial_order ?ids (es_incoming st))")
  from rest have len: "length order = length ?is"
    and dpt: "fold_res (\<lambda>i _. check_depth (gl_maxDepth limits) depth i) ?is () = Inr ()"
    and g: "g = \<lparr>ng_plan = plan, ng_invocationsById = byId, ng_incoming = es_incoming st,
        ng_outgoing = es_outgoing st, ng_topologicalOrder = order, ng_depth = depth\<rparr>"
    by (auto simp: ord res_simps split: if_splits)
  have i: "distinct ?ids" "dom byId = set ?ids" using register_invocations[OF inv] by auto
  note d = register_dependencies[OF dep]
  have all: "list_all P xs" if "fold_res (\<lambda>x _. f x) xs () = Inr ()" "\<And>x. f x = Inr () \<Longrightarrow> P x"
    for P and f :: "'b \<Rightarrow> graph_error + unit" and xs
    using that by (induction xs) (auto simp: res_simps)
  have m: "es_incoming st = (\<lambda>i. if i \<in> set ?ids then Some (filter (\<lambda>d. dp_to d = i) ?deps) else None)"
      "es_outgoing st = (\<lambda>i. if i \<in> set ?ids then Some (filter (\<lambda>d. dp_from d = i) ?deps) else None)"
    using d by (auto simp: push_to_filter fold_empty_ids)
  show ?thesis
  proof (rule that[of ?ids ?deps order depth])
    show "\<forall>d \<in> set ?deps. dp_from d \<in> set ?ids \<and> dp_to d \<in> set ?ids \<and> dp_from d \<noteq> dp_to d"
      using d i(2) by (simp add: edges_ok_def list_all_iff)
    show "\<forall>i \<in> set ?ids. \<exists>n. depth i = Some n \<and> n \<le> gl_maxDepth limits"
      using all[OF dpt, of "\<lambda>i. \<exists>n. depth (iv_id i) = Some n \<and> n \<le> gl_maxDepth limits"] check_depth_Inr
      by (auto simp: list_all_iff)
    show "\<forall>i \<in> set ?ids. length (filter (\<lambda>d. dp_from d = i) ?deps) \<le> gl_maxFanOut limits"
      using all[OF fan, of "\<lambda>i. length (case es_outgoing st i of None \<Rightarrow> [] | Some ds \<Rightarrow> ds) \<le> gl_maxFanOut limits"]
      by (auto simp: res_simps list_all_iff m(2))
  qed (use i m ord len g in simp_all)
qed

section \<open>The ordering loop\<close>

abbreviation depth_at :: "order_state \<Rightarrow> string \<Rightarrow> nat" where
  "depth_at st v \<equiv> nat_or_zero (os_depth st v)"

definition count_if :: "('a \<Rightarrow> bool) \<Rightarrow> 'a list \<Rightarrow> int" where
  "count_if P xs = int (length (filter P xs))"

lemma count_if_simps [simp]: "count_if P [] = 0" "count_if P (x # xs) = (if P x then 1 else 0) + count_if P xs"
  by (simp_all add: count_if_def)

lemma count_if_nonneg: "0 \<le> count_if P xs"
  by (simp add: count_if_def)

lemma count_if_zero_iff: "count_if P xs = 0 \<longleftrightarrow> (\<forall>x \<in> set xs. \<not> P x)"
  by (auto simp: count_if_def filter_empty_conv)

text \<open>
  \<open>order\<close> holds the invocations that are done, the last of them with the dependencies
  \<open>R\<close> still to visit. The degree of an invocation counts its dependencies on what is not
  done, plus those in \<open>R\<close>; it is zero exactly for what is done or queued.
\<close>

definition order_inv ::
    "dependency list \<Rightarrow> string list \<Rightarrow> string list \<Rightarrow> dependency list \<Rightarrow> order_state \<Rightarrow> bool" where
  "order_inv deps ids order R st \<longleftrightarrow>
    distinct (order @ os_queue st) \<and> set (order @ os_queue st) \<subseteq> set ids \<and>
    (\<forall>v \<in> set ids. degree_of (os_indegree st) v =
      count_if (\<lambda>d. dp_to d = v \<and> dp_from d \<notin> set order) deps + count_if (\<lambda>d. dp_to d = v) R) \<and>
    (\<forall>v \<in> set ids. v \<in> set (order @ os_queue st) \<longleftrightarrow> degree_of (os_indegree st) v = 0) \<and>
    (\<forall>xs v ys. order = xs @ v # ys \<longrightarrow> (\<forall>d \<in> set deps. dp_to d = v \<longrightarrow> dp_from d \<in> set xs)) \<and>
    (\<forall>d \<in> set deps. dp_from d \<in> set order \<longrightarrow> d \<notin> set R \<longrightarrow>
      depth_at st (dp_from d) < depth_at st (dp_to d)) \<and>
    (\<forall>v \<in> set ids. depth_at st v = 0 \<or>
      (\<exists>d \<in> set deps. dp_to d = v \<and> dp_from d \<in> set order \<and> depth_at st v = Suc (depth_at st (dp_from d))))"

lemma order_invD:
  assumes "order_inv deps ids order R st"
  shows "distinct (order @ os_queue st)" and "set (order @ os_queue st) \<subseteq> set ids"
    and "v \<in> set ids \<Longrightarrow> degree_of (os_indegree st) v =
      count_if (\<lambda>d. dp_to d = v \<and> dp_from d \<notin> set order) deps + count_if (\<lambda>d. dp_to d = v) R"
    and "v \<in> set ids \<Longrightarrow> v \<in> set (order @ os_queue st) \<longleftrightarrow> degree_of (os_indegree st) v = 0"
    and "order = xs @ v # ys \<Longrightarrow> d \<in> set deps \<Longrightarrow> dp_to d = v \<Longrightarrow> dp_from d \<in> set xs"
    and "d \<in> set deps \<Longrightarrow> dp_from d \<in> set order \<Longrightarrow> d \<notin> set R \<Longrightarrow>
      depth_at st (dp_from d) < depth_at st (dp_to d)"
    and "v \<in> set ids \<Longrightarrow> depth_at st v = 0 \<or>
      (\<exists>d \<in> set deps. dp_to d = v \<and> dp_from d \<in> set order \<and> depth_at st v = Suc (depth_at st (dp_from d)))"
  using assms unfolding order_inv_def by blast+

text \<open>Taking the head of the queue.\<close>

lemma order_inv_pop:
  assumes inv: "order_inv deps ids order [] st" and q: "os_queue st = i # rest"
  shows "order_inv deps ids (order @ [i]) (filter (\<lambda>d. dp_from d = i) deps) (st\<lparr>os_queue := rest\<rparr>)"
proof -
  note I = order_invD[OF inv]
  have i: "i \<in> set ids" "i \<notin> set order" using I(1,2) q by auto
  have deg: "degree_of (os_indegree st) i = 0" using I(4)[OF i(1)] q by simp
  have none: "dp_from d \<in> set order" if "d \<in> set deps" "dp_to d = i" for d
    using I(3)[OF i(1)] deg that by (auto simp: count_if_zero_iff)
  have split: "count_if (\<lambda>d. dp_to d = v \<and> dp_from d \<notin> set order) ds =
      count_if (\<lambda>d. dp_to d = v \<and> dp_from d \<notin> set (order @ [i])) ds +
      count_if (\<lambda>d. dp_to d = v) (filter (\<lambda>d. dp_from d = i) ds)" for v ds
    using i(2) by (induction ds) auto
  have prec: "dp_from d \<in> set xs" if o: "order @ [i] = xs @ v # ys" and d: "d \<in> set deps" "dp_to d = v"
    for xs v ys d
  proof (cases ys rule: rev_cases)
    case Nil
    with o d none show ?thesis by auto
  next
    case (snoc zs z)
    with o have "order = xs @ v # zs" by simp
    from I(5)[OF this d] show ?thesis .
  qed
  have dep: "depth_at st (dp_from d) < depth_at st (dp_to d)"
    if "d \<in> set deps" "dp_from d \<in> set (order @ [i])" "d \<notin> set (filter (\<lambda>d. dp_from d = i) deps)" for d
    using that I(6)[of d] by auto
  have wit: "depth_at st v = 0 \<or> (\<exists>d \<in> set deps. dp_to d = v \<and> dp_from d \<in> set (order @ [i]) \<and>
      depth_at st v = Suc (depth_at st (dp_from d)))" if "v \<in> set ids" for v
    using I(7)[OF that] by auto
  have deg': "degree_of (os_indegree st) v =
      count_if (\<lambda>d. dp_to d = v \<and> dp_from d \<notin> set (order @ [i])) deps +
      count_if (\<lambda>d. dp_to d = v) (filter (\<lambda>d. dp_from d = i) deps)" if "v \<in> set ids" for v
    using I(3)[OF that] split[of v deps] by simp
  have mem: "v \<in> set ((order @ [i]) @ rest) \<longleftrightarrow> degree_of (os_indegree st) v = 0" if "v \<in> set ids" for v
    using I(4)[OF that] q by auto
  show ?thesis
    unfolding order_inv_def
    using I(1,2) q deg' mem prec dep wit by simp
qed

text \<open>Visiting one dependency of the invocation that was done last.\<close>

lemma degree_update: "degree_of (AList.update k n m) v = (if v = k then n else degree_of m v)"
  by (simp add: degree_of_def update_conv')

lemma order_inv_positive:
  assumes "order_inv deps ids order (d # R) st" and "dp_to d \<in> set ids"
  shows "0 < degree_of (os_indegree st) (dp_to d)" and "dp_to d \<notin> set (order @ os_queue st)"
proof -
  have "0 \<le> count_if (\<lambda>e. dp_to e = dp_to d \<and> dp_from e \<notin> set order) deps"
    and "0 \<le> count_if (\<lambda>e. dp_to e = dp_to d) R"
    by (rule count_if_nonneg)+
  then show "0 < degree_of (os_indegree st) (dp_to d)"
    using order_invD(3)[OF assms] by simp
  then show "dp_to d \<notin> set (order @ os_queue st)" using order_invD(4)[OF assms] by simp
qed

lemma order_inv_visit:
  assumes inv: "order_inv deps ids order (d # R) st" and d: "d \<in> set deps" "dp_from d \<in> set order"
    and ids: "dp_to d \<in> set ids" "dp_from d \<in> set ids"
  shows "order_inv deps ids order R (visit_dependency (depth_at st (dp_from d)) d st)"
    (is "order_inv _ _ _ _ ?st")
proof -
  note I = order_invD[OF inv]
  let ?v = "dp_to d" and ?n = "degree_of (os_indegree st) (dp_to d) - 1"
  have new: "?v \<notin> set (order @ os_queue st)" by (rule order_inv_positive(2)[OF inv ids(1)])
  have deg: "degree_of (os_indegree ?st) v = (if v = ?v then ?n else degree_of (os_indegree st) v)" for v
    by (simp add: visit_dependency_def Let_def degree_update)
  have que: "os_queue ?st = (if ?n = 0 then os_queue st @ [?v] else os_queue st)"
    by (simp add: visit_dependency_def Let_def)
  have dpt: "depth_at ?st v = (if v = ?v then max (depth_at st ?v) (Suc (depth_at st (dp_from d)))
      else depth_at st v)" for v
    by (simp add: visit_dependency_def Let_def nat_or_zero_def)
  have old: "depth_at ?st v = depth_at st v" if "v \<in> set order" for v using that new dpt by auto
  have "distinct (order @ os_queue ?st)" using I(1) new by (auto simp: que)
  moreover have "set (order @ os_queue ?st) \<subseteq> set ids" using I(2) ids(1) by (auto simp: que)
  moreover have "degree_of (os_indegree ?st) v =
      count_if (\<lambda>d. dp_to d = v \<and> dp_from d \<notin> set order) deps + count_if (\<lambda>d. dp_to d = v) R"
    if "v \<in> set ids" for v
    using I(3)[OF that] by (auto simp: deg)
  moreover have "v \<in> set (order @ os_queue ?st) \<longleftrightarrow> degree_of (os_indegree ?st) v = 0"
    if "v \<in> set ids" for v
    using I(4)[OF that] new by (auto simp: deg que)
  moreover have "depth_at ?st (dp_from e) < depth_at ?st (dp_to e)"
    if e: "e \<in> set deps" "dp_from e \<in> set order" "e \<notin> set R" for e
  proof (cases "e = d")
    case True
    then show ?thesis using old[OF e(2)] by (simp add: dpt)
  next
    case False
    with I(6)[OF e(1,2)] e(3) have "depth_at st (dp_from e) < depth_at st (dp_to e)" by simp
    with old[OF e(2)] show ?thesis by (auto simp: dpt)
  qed
  moreover have "depth_at ?st v = 0 \<or> (\<exists>e \<in> set deps. dp_to e = v \<and> dp_from e \<in> set order \<and>
      depth_at ?st v = Suc (depth_at ?st (dp_from e)))" if v: "v \<in> set ids" for v
  proof (cases "v = ?v \<and> depth_at st ?v \<le> Suc (depth_at st (dp_from d))")
    case True
    then have "depth_at ?st v = Suc (depth_at ?st (dp_from d))" using old[OF d(2)] by (auto simp: dpt)
    with True d show ?thesis by blast
  next
    case False
    then have same: "depth_at ?st v = depth_at st v" by (auto simp: dpt)
    from I(7)[OF v] show ?thesis unfolding same using old by auto
  qed
  ultimately show ?thesis unfolding order_inv_def using I(5) by blast
qed

lemma order_inv_visits:
  assumes "order_inv deps ids order R st" and "\<And>d. d \<in> set R \<Longrightarrow> d \<in> set deps \<and> dp_from d = i"
    and "i \<in> set order" and "\<And>d. d \<in> set deps \<Longrightarrow> dp_to d \<in> set ids \<and> dp_from d \<in> set ids"
    and "c = depth_at st i"
  shows "order_inv deps ids order [] (fold (visit_dependency c) R st)"
  using assms
proof (induction R arbitrary: st)
  case Nil
  then show ?case by simp
next
  case (Cons d R)
  have d: "d \<in> set deps" "dp_from d = i" using Cons.prems(2) by auto
  have ids: "dp_to d \<in> set ids" "dp_from d \<in> set ids" using Cons.prems(4)[OF d(1)] by auto
  have inv: "order_inv deps ids order R (visit_dependency c d st)"
    using order_inv_visit[OF Cons.prems(1) d(1) _ ids] d(2) Cons.prems(3,5) by simp
  have "dp_to d \<notin> set order" using order_inv_positive(2)[OF Cons.prems(1) ids(1)] by simp
  then have "c = depth_at (visit_dependency c d st) i"
    using Cons.prems(3,5) by (auto simp: visit_dependency_def Let_def)
  from Cons.IH[OF inv _ Cons.prems(3,4) this] Cons.prems(2) show ?case by simp
qed

lemma order_loop_inv:
  assumes "order_loop outgoing order st = (order', depth)" and "order_inv deps ids order [] st"
    and "\<And>d. d \<in> set deps \<Longrightarrow> dp_to d \<in> set ids \<and> dp_from d \<in> set ids"
    and "\<And>i. i \<in> set ids \<Longrightarrow> outgoing i = Some (filter (\<lambda>d. dp_from d = i) deps)"
  shows "\<exists>st'. os_queue st' = [] \<and> os_depth st' = depth \<and> order_inv deps ids order' [] st'"
  using assms
proof (induction outgoing order st rule: order_loop.induct)
  case (1 outgoing order st)
  show ?case
  proof (cases "os_queue st")
    case Nil
    with "1.prems" show ?thesis by (auto simp: order_loop.simps)
  next
    case (Cons i rest)
    have i: "i \<in> set ids" using order_invD(2)[OF "1.prems"(2)] Cons by simp
    let ?R = "filter (\<lambda>d. dp_from d = i) deps"
    let ?st = "fold (visit_dependency (depth_at st i)) ?R (st\<lparr>os_queue := rest\<rparr>)"
    have "order_inv deps ids (order @ [i]) [] ?st"
      by (rule order_inv_visits[OF order_inv_pop[OF "1.prems"(2) Cons]]) (use "1.prems"(3) in auto)
    moreover have "order_loop outgoing (order @ [i]) ?st = (order', depth)"
      using "1.prems"(1) Cons "1.prems"(4)[OF i] by (subst (asm) order_loop.simps) simp
    ultimately show ?thesis
      using "1.IH"[OF Cons] "1.prems"(3,4) "1.prems"(4)[OF i] by simp
  qed
qed

lemma initial_order_inv:
  assumes "distinct ids" and "\<And>i. i \<in> set ids \<Longrightarrow> incoming i = Some (filter (\<lambda>d. dp_to d = i) deps)"
  shows "order_inv deps ids [] [] (initial_order ids incoming)"
proof -
  let ?n = "\<lambda>i. int (length (case incoming i of None \<Rightarrow> [] | Some ds \<Rightarrow> ds))"
  let ?m = "map (\<lambda>i. (i, ?n i)) ids"
  have deg: "degree_of ?m v = count_if (\<lambda>d. dp_to d = v) deps" if "v \<in> set ids" for v
    using that assms by (simp add: degree_of_def map_of_map_restrict count_if_def)
  have q: "map fst (filter (\<lambda>e. snd e = 0) ?m) = filter (\<lambda>i. ?n i = 0) ids"
    by (simp add: filter_map comp_def)
  have z: "((case incoming v of None \<Rightarrow> [] | Some ds \<Rightarrow> ds) = []) = (count_if (\<lambda>d. dp_to d = v) deps = 0)"
    if "v \<in> set ids" for v
    using assms(2)[OF that] by (simp add: count_if_def)
  have dep: "nat_or_zero (map_of (map (\<lambda>i. (i, 0)) xs) v) = 0" for xs :: "string list" and v
    by (induction xs) (auto simp: nat_or_zero_def)
  show ?thesis
    unfolding order_inv_def initial_order_def Let_def q
    using assms(1) deg z dep by (simp add: distinct_filter)
qed

text \<open>Where an error of a loop comes from.\<close>

lemma fold_res_error:
  "fold_res f xs s = Inl e \<Longrightarrow> \<exists>x \<in> set xs. \<exists>t. f x t = Inl e"
  by (induction xs arbitrary: s) (auto simp: rbind_eq_Inl)

lemma no_cycle_error:
  "uniqueOutputs i \<noteq> Inl CYCLE" "register_invocation i st \<noteq> Inl CYCLE"
  "bind_input os b xs \<noteq> Inl CYCLE" "check_dependency byId es d \<noteq> Inl CYCLE"
  "register_dependency byId outs d es \<noteq> Inl CYCLE" "check_criterion xs c \<noteq> Inl CYCLE"
  "check_evaluator xs i \<noteq> Inl CYCLE" "check_invocation es i \<noteq> Inl CYCLE"
  "check_depth m dm i \<noteq> Inl CYCLE"
proof -
  show u: "uniqueOutputs i \<noteq> Inl CYCLE" for i
    by (auto simp: uniqueOutputs_def split: if_splits dest!: fold_res_error)
  show "register_invocation i st \<noteq> Inl CYCLE"
    using u by (auto simp: register_invocation_def rbind_eq_Inl split: prod.splits if_splits)
  show b: "bind_input os b xs \<noteq> Inl CYCLE" for os b xs
    by (auto simp: bind_input_def split: if_splits option.splits)
  show c: "check_dependency byId es d \<noteq> Inl CYCLE"
    by (auto simp: check_dependency_def split: if_splits)
  show "register_dependency byId outs d es \<noteq> Inl CYCLE"
    using b c by (auto simp: register_dependency_def rbind_eq_Inl split: option.splits dest!: fold_res_error)
  show d: "check_criterion xs c \<noteq> Inl CYCLE" for xs c
    by (auto simp: check_criterion_def split: if_splits option.splits)
  show e: "check_evaluator xs i \<noteq> Inl CYCLE" for xs i
    using d by (auto simp: check_evaluator_def Let_def split: if_splits dest!: fold_res_error)
  show "check_invocation es i \<noteq> Inl CYCLE"
    using e by (auto simp: check_invocation_def split: if_splits option.splits)
  show "check_depth m dm i \<noteq> Inl CYCLE"
    by (auto simp: check_depth_def split: if_splits option.splits)
qed

text \<open>A plan rejected as cyclic, taken apart.\<close>

lemma validate_cycle:
  assumes "validateExecutionPlanGraph plan limits = Inl CYCLE"
  obtains ids deps order st where "ids = map iv_id (xp_invocations plan)" "deps = xp_dependencies plan"
    "\<forall>d \<in> set deps. dp_from d \<in> set ids \<and> dp_to d \<in> set ids" "distinct ids"
    "order_inv deps ids order [] st" "os_queue st = []" "length order \<noteq> length ids"
proof -
  let ?is = "xp_invocations plan" and ?deps = "xp_dependencies plan"
  let ?ids = "map iv_id ?is"
  let ?empty = "fold (\<lambda>i m. m(i \<mapsto> [])) ?ids Map.empty"
  from assms obtain byId outputs es where
      inv: "fold_res register_invocation ?is (Map.empty, Map.empty) = Inr (byId, outputs)"
    and dep: "fold_res (register_dependency byId outputs) ?deps \<lparr>es_dependencyIds = [], es_edgeKeys = [],
        es_boundInputs = Map.empty, es_incoming = ?empty, es_outgoing = ?empty\<rparr> = Inr es"
    and rest: "(let (order, depth) = order_loop (es_outgoing es) [] (initial_order ?ids (es_incoming es)) in
      if length order \<noteq> length ?is then Inl CYCLE
      else rbind (fold_res (\<lambda>i _. check_depth (gl_maxDepth limits) depth i) ?is ()) (\<lambda>_.
        Inr \<lparr>ng_plan = plan, ng_invocationsById = byId, ng_incoming = es_incoming es,
          ng_outgoing = es_outgoing es, ng_topologicalOrder = order, ng_depth = depth\<rparr>)) = Inl CYCLE"
    unfolding validateExecutionPlanGraph_def
    by (auto simp: rbind_eq_Inl no_cycle_error guard_res_eq Let_def split: if_splits dest!: fold_res_error)
  obtain order depth where
      ord: "order_loop (es_outgoing es) [] (initial_order ?ids (es_incoming es)) = (order, depth)"
    by (cases "order_loop (es_outgoing es) [] (initial_order ?ids (es_incoming es))")
  from rest have len: "length order \<noteq> length ?is"
    by (auto simp: ord rbind_eq_Inl no_cycle_error split: if_splits dest!: fold_res_error)
  have i: "distinct ?ids" "dom byId = set ?ids" using register_invocations[OF inv] by auto
  note d = register_dependencies[OF dep]
  have E: "\<forall>d \<in> set ?deps. dp_from d \<in> set ?ids \<and> dp_to d \<in> set ?ids"
    using d i(2) by (simp add: edges_ok_def list_all_iff)
  have "order_inv ?deps ?ids [] [] (initial_order ?ids (es_incoming es))"
    by (rule initial_order_inv[OF i(1)]) (use d in \<open>simp add: push_to_filter fold_empty_ids\<close>)
  from order_loop_inv[OF ord this] E d obtain st where "os_queue st = []" "order_inv ?deps ?ids order [] st"
    by (auto simp: push_to_filter fold_empty_ids)
  with that i(1) E len show ?thesis by auto
qed

section \<open>The dependency relation of a plan\<close>

definition plan_edges :: "execution_plan \<Rightarrow> (string \<times> string) set" where
  "plan_edges plan = (\<lambda>d. (dp_from d, dp_to d)) ` set (xp_dependencies plan)"

lemma finite_plan_edges [simp]: "finite (plan_edges plan)"
  by (simp add: plan_edges_def)

lemma plan_edges_wf: "acyclic (plan_edges plan) \<Longrightarrow> wf (plan_edges plan)"
  by (simp add: finite_acyclic_wf)

text \<open>The result of a successful validation.\<close>

lemma validated_order:
  assumes "validateExecutionPlanGraph plan limits = Inr g"
  shows "distinct (ng_topologicalOrder g)" and "set (ng_topologicalOrder g) = iv_id ` set (xp_invocations plan)"
    and "distinct (map iv_id (xp_invocations plan))"
    and "d \<in> set (xp_dependencies plan) \<Longrightarrow>
      dp_from d \<in> iv_id ` set (xp_invocations plan) \<and> dp_to d \<in> iv_id ` set (xp_invocations plan)"
    and "ng_topologicalOrder g = xs @ v # ys \<Longrightarrow> d \<in> set (xp_dependencies plan) \<Longrightarrow> dp_to d = v \<Longrightarrow>
      dp_from d \<in> set xs"
    and "d \<in> set (xp_dependencies plan) \<Longrightarrow>
      nat_or_zero (ng_depth g (dp_from d)) < nat_or_zero (ng_depth g (dp_to d))"
    and "v \<in> iv_id ` set (xp_invocations plan) \<Longrightarrow> nat_or_zero (ng_depth g v) = 0 \<or>
      (\<exists>d \<in> set (xp_dependencies plan). dp_to d = v \<and>
        nat_or_zero (ng_depth g v) = Suc (nat_or_zero (ng_depth g (dp_from d))))"
    and "v \<in> iv_id ` set (xp_invocations plan) \<Longrightarrow> \<exists>n \<le> gl_maxDepth limits. ng_depth g v = Some n"
proof -
  from assms obtain ids deps order depth where
      ids: "ids = map iv_id (xp_invocations plan)" and deps: "deps = xp_dependencies plan"
    and dis: "distinct ids" and E: "\<forall>d \<in> set deps. dp_from d \<in> set ids \<and> dp_to d \<in> set ids \<and> dp_from d \<noteq> dp_to d"
    and inc: "ng_incoming g = (\<lambda>i. if i \<in> set ids then Some (filter (\<lambda>d. dp_to d = i) deps) else None)"
    and out: "ng_outgoing g = (\<lambda>i. if i \<in> set ids then Some (filter (\<lambda>d. dp_from d = i) deps) else None)"
    and ord: "order_loop (ng_outgoing g) [] (initial_order ids (ng_incoming g)) = (order, depth)"
    and len: "length order = length ids" and g: "ng_topologicalOrder g = order" "ng_depth g = depth"
    and dm: "\<forall>i \<in> set ids. \<exists>n. depth i = Some n \<and> n \<le> gl_maxDepth limits"
    by (rule validate_success)
  have "order_inv deps ids [] [] (initial_order ids (ng_incoming g))"
    by (rule initial_order_inv[OF dis]) (simp add: inc)
  from order_loop_inv[OF ord this] E obtain st where st: "os_queue st = []" "os_depth st = depth"
      "order_inv deps ids order [] st"
    by (auto simp: out)
  note I = order_invD[OF st(3)]
  have full: "set order = set ids"
    using I(1,2) st(1) len dis by (intro card_subset_eq) (auto simp: distinct_card)
  have im: "set ids = iv_id ` set (xp_invocations plan)" by (simp add: ids)
  show "distinct (ng_topologicalOrder g)" "set (ng_topologicalOrder g) = iv_id ` set (xp_invocations plan)"
    "distinct (map iv_id (xp_invocations plan))"
    using I(1) st(1) full dis ids g by auto
  show "dp_from d \<in> iv_id ` set (xp_invocations plan) \<and> dp_to d \<in> iv_id ` set (xp_invocations plan)"
    if "d \<in> set (xp_dependencies plan)" using E that unfolding im deps by blast
  show "dp_from d \<in> set xs" if "ng_topologicalOrder g = xs @ v # ys" "d \<in> set (xp_dependencies plan)"
    "dp_to d = v" using I(5)[of xs v ys d] that g deps by simp
  show "nat_or_zero (ng_depth g (dp_from d)) < nat_or_zero (ng_depth g (dp_to d))"
    if "d \<in> set (xp_dependencies plan)"
    using I(6)[of d] that E full g st(2) unfolding deps by auto
  show "nat_or_zero (ng_depth g v) = 0 \<or> (\<exists>d \<in> set (xp_dependencies plan). dp_to d = v \<and>
      nat_or_zero (ng_depth g v) = Suc (nat_or_zero (ng_depth g (dp_from d))))"
    if "v \<in> iv_id ` set (xp_invocations plan)"
    using I(7)[of v] that g st(2) unfolding im deps by auto
  show "\<exists>n \<le> gl_maxDepth limits. ng_depth g v = Some n" if "v \<in> iv_id ` set (xp_invocations plan)"
    using dm that g unfolding im by auto
qed

lemma validated_acyclic:
  assumes "validateExecutionPlanGraph plan limits = Inr g"
  shows "acyclic (plan_edges plan)"
proof -
  have "plan_edges plan \<subseteq> measure (\<lambda>v. nat_or_zero (ng_depth g v))"
    using validated_order(6)[OF assms] by (auto simp: plan_edges_def)
  then show ?thesis using wf_acyclic[OF wf_measure] acyclic_subset by blast
qed

lemma rejected_cyclic:
  assumes "validateExecutionPlanGraph plan limits = Inl CYCLE"
  shows "\<not> acyclic (plan_edges plan)"
proof
  assume "acyclic (plan_edges plan)"
  then have wf: "wf (plan_edges plan)" by (rule plan_edges_wf)
  from assms obtain ids deps order st where ids: "ids = map iv_id (xp_invocations plan)"
    and deps: "deps = xp_dependencies plan"
    and E: "\<forall>d \<in> set deps. dp_from d \<in> set ids \<and> dp_to d \<in> set ids" and dis: "distinct ids"
    and inv: "order_inv deps ids order [] st" and q: "os_queue st = []" and len: "length order \<noteq> length ids"
    by (rule validate_cycle)
  note I = order_invD[OF inv]
  from len dis I(1,2) q obtain u where "u \<in> set ids - set order"
    by (metis (no_types, lifting) DiffI append.right_neutral distinct_card subsetI subset_antisym)
  then obtain v where v: "v \<in> set ids - set order"
      "\<And>u. (u, v) \<in> plan_edges plan \<Longrightarrow> u \<notin> set ids - set order"
    by (rule wfE_min[OF wf]) blast
  have "count_if (\<lambda>d. dp_to d = v \<and> dp_from d \<notin> set order) deps = 0"
    using v(2) E deps by (force simp: count_if_zero_iff plan_edges_def)
  with I(3)[of v] v(1) have "degree_of (os_indegree st) v = 0" by simp
  with I(4)[of v] v(1) q show False by simp
qed

section \<open>Properties\<close>

text \<open>
  C17: the order of a validated plan. It lists every invocation once, the source of every
  dependency before its target; the depth grows along every dependency, is at most the limit,
  and is one more than the depth of some source wherever it is not zero.
\<close>

theorem graph_order_correct:
  assumes "validateExecutionPlanGraph plan limits = Inr g"
  shows "distinct (ng_topologicalOrder g) \<and>
    set (ng_topologicalOrder g) = iv_id ` set (xp_invocations plan) \<and>
    list_all (\<lambda>d. \<exists>xs ys zs. ng_topologicalOrder g = xs @ dp_from d # ys @ dp_to d # zs) (xp_dependencies plan) \<and>
    list_all (\<lambda>d. \<exists>m n. ng_depth g (dp_from d) = Some m \<and> ng_depth g (dp_to d) = Some n \<and> m < n)
      (xp_dependencies plan) \<and>
    list_all (\<lambda>i. \<exists>n \<le> gl_maxDepth limits. ng_depth g (iv_id i) = Some n \<and>
      (n = 0 \<or> (\<exists>d \<in> set (xp_dependencies plan). dp_to d = iv_id i \<and> ng_depth g (dp_from d) = Some (n - 1))))
      (xp_invocations plan)"
proof (intro conjI)
  note V = validated_order[OF assms]
  show "distinct (ng_topologicalOrder g)" by (rule V(1))
  show "set (ng_topologicalOrder g) = iv_id ` set (xp_invocations plan)" by (rule V(2))
  have "\<exists>xs ys zs. ng_topologicalOrder g = xs @ dp_from d # ys @ dp_to d # zs"
    if d: "d \<in> set (xp_dependencies plan)" for d
  proof -
    from V(4)[OF d] V(2) obtain xs zs where "ng_topologicalOrder g = xs @ dp_to d # zs"
      by (metis split_list)
    moreover from V(5)[OF this d] obtain ws ys where "xs = ws @ dp_from d # ys" by (metis split_list)
    ultimately show ?thesis by auto
  qed
  then show "list_all (\<lambda>d. \<exists>xs ys zs. ng_topologicalOrder g = xs @ dp_from d # ys @ dp_to d # zs)
      (xp_dependencies plan)" by (simp add: list_all_iff)
  have some: "ng_depth g v = Some (nat_or_zero (ng_depth g v))" if "v \<in> iv_id ` set (xp_invocations plan)" for v
    using V(8)[OF that] by (auto simp: nat_or_zero_def)
  have "\<exists>m n. ng_depth g (dp_from d) = Some m \<and> ng_depth g (dp_to d) = Some n \<and> m < n"
    if d: "d \<in> set (xp_dependencies plan)" for d
    using some[of "dp_from d"] some[of "dp_to d"] V(4)[OF d] V(6)[OF d] by blast
  then show "list_all (\<lambda>d. \<exists>m n. ng_depth g (dp_from d) = Some m \<and> ng_depth g (dp_to d) = Some n \<and> m < n)
      (xp_dependencies plan)" by (simp add: list_all_iff)
  have "\<exists>n \<le> gl_maxDepth limits. ng_depth g v = Some n \<and> (n = 0 \<or> (\<exists>d \<in> set (xp_dependencies plan).
      dp_to d = v \<and> ng_depth g (dp_from d) = Some (n - 1)))" if v: "v \<in> iv_id ` set (xp_invocations plan)" for v
  proof -
    obtain n where n: "n \<le> gl_maxDepth limits" "ng_depth g v = Some n" using V(8)[OF v] by blast
    have "n = 0 \<or> (\<exists>d \<in> set (xp_dependencies plan). dp_to d = v \<and> ng_depth g (dp_from d) = Some (n - 1))"
    proof (cases "n = 0")
      case False
      with V(7)[OF v] n(2) obtain d where d: "d \<in> set (xp_dependencies plan)" "dp_to d = v"
          "n = Suc (nat_or_zero (ng_depth g (dp_from d)))" by (auto simp: nat_or_zero_def)
      from some[of "dp_from d"] V(4)[OF d(1)] d(3) have "ng_depth g (dp_from d) = Some (n - 1)" by simp
      with d(1,2) show ?thesis by blast
    qed simp
    with n show ?thesis by blast
  qed
  then show "list_all (\<lambda>i. \<exists>n \<le> gl_maxDepth limits. ng_depth g (iv_id i) = Some n \<and>
      (n = 0 \<or> (\<exists>d \<in> set (xp_dependencies plan). dp_to d = iv_id i \<and> ng_depth g (dp_from d) = Some (n - 1))))
      (xp_invocations plan)" by (simp add: list_all_iff)
qed

text \<open>
  C18: a plan is rejected as cyclic only when its dependencies have a cycle, and a plan that
  has one is never accepted.
\<close>

theorem graph_cycle_exact:
  "(validateExecutionPlanGraph plan limits = Inl CYCLE \<longrightarrow> \<not> acyclic (plan_edges plan)) \<and>
   (\<not> acyclic (plan_edges plan) \<longrightarrow> (\<exists>e. validateExecutionPlanGraph plan limits = Inl e))"
proof (intro conjI impI)
  show "\<not> acyclic (plan_edges plan)" if "validateExecutionPlanGraph plan limits = Inl CYCLE"
    using that by (rule rejected_cyclic)
  assume "\<not> acyclic (plan_edges plan)"
  then show "\<exists>e. validateExecutionPlanGraph plan limits = Inl e"
    using validated_acyclic by (cases "validateExecutionPlanGraph plan limits") auto
qed

text \<open>
  C19: a validated plan never gets stuck on its own dependencies. While some invocation waits
  and everything that does not wait has settled, the transitions that
  \<open>computePendingInvocationTransitions\<close> returns decide at least one waiting invocation.
\<close>

theorem orchestration_never_stuck:
  assumes "validateExecutionPlanGraph plan limits = Inr g"
    and "list_ex (\<lambda>i. is_waiting states (iv_id i)) (xp_invocations plan)"
    and "list_all (\<lambda>i. is_waiting states (iv_id i) \<or>
      (\<exists>s. states (iv_id i) = Some s \<and> isTerminalInvocationStatus (ss_status s))) (xp_invocations plan)"
  shows "\<exists>i \<in> set (xp_invocations plan). is_waiting states (iv_id i) \<and>
    (\<exists>r. map_of (computePendingInvocationTransitions (xp_invocations plan) (xp_dependencies plan) states)
      (iv_id i) = Some r \<and> rr_decision r \<noteq> RD_PENDING)"
proof -
  let ?W = "{iv_id i | i. i \<in> set (xp_invocations plan) \<and> is_waiting states (iv_id i)}"
  note V = validated_order[OF assms(1)]
  from assms(2) obtain u where "u \<in> ?W" by (auto simp: list_ex_iff)
  then obtain v where v: "v \<in> ?W" "\<And>u. (u, v) \<in> plan_edges plan \<Longrightarrow> u \<notin> ?W"
    by (rule wfE_min[OF plan_edges_wf[OF validated_acyclic[OF assms(1)]]]) blast
  then obtain i where i: "i \<in> set (xp_invocations plan)" "is_waiting states (iv_id i)" "v = iv_id i" by auto
  let ?ds = "filter (\<lambda>d. dp_to d = iv_id i) (xp_dependencies plan)"
  have "evaluate_source states d \<noteq> WAITING" if d: "d \<in> set ?ds" for d
  proof -
    from d have e: "(dp_from d, v) \<in> plan_edges plan" using i(3) by (auto simp: plan_edges_def)
    from d V(4)[of d] obtain j where j: "j \<in> set (xp_invocations plan)" "dp_from d = iv_id j" by auto
    with v(2)[OF e] assms(3) obtain s where "states (dp_from d) = Some s" "isTerminalInvocationStatus (ss_status s)"
      by (auto simp: list_all_iff)
    then show ?thesis by (simp add: evaluate_source_def evaluate_terminal)
  qed
  then have "rr_decision (decideInvocationReadiness i ?ds states) \<noteq> RD_PENDING"
    unfolding decideInvocationReadiness_def decideDependencyReadiness_def
    by (intro decideJoin_settled) (simp add: list_all_iff)
  with transitions_lookup[OF V(3) i(1,2)] i(1,2) show ?thesis by auto
qed

definition sample_invocation :: "string \<Rightarrow> invocation" where
  "sample_invocation i = \<lparr>iv_id = i, iv_purpose = [], iv_target = VIMLA, iv_outputs = [],
    iv_acceptanceCriteria = [], iv_riskClass = READ_ONLY, iv_approvalPolicy = AUTO,
    iv_failurePolicy = FAIL_PLAN, iv_joinPolicy = ALL_REQUIRED\<rparr>"

definition diamond_plan :: execution_plan where
  "diamond_plan = \<lparr>xp_goal = [], xp_maxParallelism = 1,
    xp_invocations = map sample_invocation [''d'', ''b'', ''c'', ''a''],
    xp_dependencies = [sample_dependency ''1'' ''a'' ''b'' ON_SUCCESS, sample_dependency ''2'' ''a'' ''c'' ALWAYS,
      sample_dependency ''3'' ''b'' ''d'' ON_SUCCESS, sample_dependency ''4'' ''c'' ''d'' ON_FAILURE]\<rparr>"

lemma diamond_valid:
  obtains g where "validateExecutionPlanGraph diamond_plan DEFAULT_GRAPH_LIMITS = Inr g"
    "ng_topologicalOrder g = [''a'', ''b'', ''c'', ''d'']" "ng_depth g ''d'' = Some 2"
proof -
  have "case validateExecutionPlanGraph diamond_plan DEFAULT_GRAPH_LIMITS of Inl _ \<Rightarrow> False
    | Inr g \<Rightarrow> ng_topologicalOrder g = [''a'', ''b'', ''c'', ''d''] \<and> ng_depth g ''d'' = Some 2"
    by code_simp
  then show ?thesis using that by (auto split: sum.splits)
qed

lemma graph_order_correct_witness:
  "\<exists>g. validateExecutionPlanGraph diamond_plan DEFAULT_GRAPH_LIMITS = Inr g \<and>
    ng_topologicalOrder g = [''a'', ''b'', ''c'', ''d''] \<and>
    list_all (\<lambda>d. \<exists>m n. ng_depth g (dp_from d) = Some m \<and> ng_depth g (dp_to d) = Some n \<and> m < n)
      (xp_dependencies diamond_plan)"
proof (rule diamond_valid)
  fix g assume g: "validateExecutionPlanGraph diamond_plan DEFAULT_GRAPH_LIMITS = Inr g"
    "ng_topologicalOrder g = [''a'', ''b'', ''c'', ''d'']"
  with graph_order_correct[OF g(1)] show ?thesis by blast
qed

definition loop_plan :: execution_plan where
  "loop_plan = diamond_plan\<lparr>xp_dependencies :=
    xp_dependencies diamond_plan @ [sample_dependency ''5'' ''d'' ''b'' ALWAYS]\<rparr>"

lemma graph_cycle_exact_witness:
  "validateExecutionPlanGraph loop_plan DEFAULT_GRAPH_LIMITS = Inl CYCLE \<and> \<not> acyclic (plan_edges loop_plan)"
proof -
  have "case validateExecutionPlanGraph loop_plan DEFAULT_GRAPH_LIMITS of Inl e \<Rightarrow> e = CYCLE | Inr _ \<Rightarrow> False"
    by code_simp
  then have "validateExecutionPlanGraph loop_plan DEFAULT_GRAPH_LIMITS = Inl CYCLE"
    by (auto split: sum.splits)
  with graph_cycle_exact show ?thesis by blast
qed

lemma orchestration_never_stuck_witness:
  "\<exists>i \<in> set (xp_invocations diamond_plan).
    is_waiting [''a'' \<mapsto> sample_state ''a'' Inv_COMPLETED] (iv_id i) \<and>
    (\<exists>r. map_of (computePendingInvocationTransitions (xp_invocations diamond_plan)
      (xp_dependencies diamond_plan) [''a'' \<mapsto> sample_state ''a'' Inv_COMPLETED]) (iv_id i) = Some r \<and>
      rr_decision r \<noteq> RD_PENDING)"
proof (rule diamond_valid)
  fix g assume g: "validateExecutionPlanGraph diamond_plan DEFAULT_GRAPH_LIMITS = Inr g"
  show ?thesis
    by (rule orchestration_never_stuck[OF g])
      (simp_all add: diamond_plan_def sample_invocation_def is_waiting_def sample_state_def
        isTerminalInvocationStatus_def TERMINAL_INVOCATION_STATUSES_def)
qed

end
