(* ===== verification/E2ee_Bytes.thy ===== *)
theory E2ee_Bytes
  imports Checkout "HOL-Library.Word"
begin

text \<open>
  \<open>packages/e2ee/src/bytes.ts\<close>: byte strings, their base64 form (\<open>btoa\<close> and \<open>atob\<close> as the
  HTML standard defines them) and big-endian 32-bit numbers; and the JSON text of the values
  the package signs. A character stands for a code unit below 256, so \<open>utf8\<close> of a
  string has one or two bytes per character.
\<close>

type_synonym bytes = "8 word list"

section \<open>UTF-8 and JSON text\<close>

definition utf8_char :: "char \<Rightarrow> bytes" where
  "utf8_char c = (let n = (of_char c :: nat) in
     if n < 128 then [of_nat n] else [of_nat (192 + n div 64), of_nat (128 + n mod 64)])"

definition utf8 :: "string \<Rightarrow> bytes" where
  "utf8 value = concat (map utf8_char value)"

definition hex_digit :: "nat \<Rightarrow> char" where
  "hex_digit n = (if n < 10 then char_of (48 + n) else char_of (87 + n))"

definition json_char :: "char \<Rightarrow> string" where
  "json_char c = (let n = (of_char c :: nat) in
     if n = 34 then [char_of (92::nat), c]
     else if n = 92 then [c, c]
     else if n = 8 then [char_of (92::nat), CHR ''b'']
     else if n = 12 then [char_of (92::nat), CHR ''f'']
     else if n = 10 then [char_of (92::nat), CHR ''n'']
     else if n = 13 then [char_of (92::nat), CHR ''r'']
     else if n = 9 then [char_of (92::nat), CHR ''t'']
     else if n < 32 then char_of (92::nat) # ''u00'' @ [hex_digit (n div 16), hex_digit (n mod 16)]
     else [c])"

definition json_string :: "string \<Rightarrow> string" where
  "json_string s = char_of (34::nat) # concat (map json_char s) @ [char_of (34::nat)]"

fun join_with :: "string \<Rightarrow> string list \<Rightarrow> string" where
  "join_with sep [] = []"
| "join_with sep [x] = x"
| "join_with sep (x # xs) = x @ sep @ join_with sep xs"

fun js_stringify :: "json \<Rightarrow> string" where
  "js_stringify JNull = ''null''"
| "js_stringify (JBool b) = (if b then ''true'' else ''false'')"
| "js_stringify (JNum n) = decimal_of_int n"
| "js_stringify (JStr s) = json_string s"
| "js_stringify (JArr js) = ''['' @ join_with '','' (map js_stringify js) @ '']''"
| "js_stringify (JObj fs) =
    ''{'' @ join_with '','' (map (\<lambda>(k, j). json_string k @ '':'' @ js_stringify j) fs) @ ''}''"

section \<open>Byte strings\<close>

definition concatBytes :: "bytes list \<Rightarrow> bytes" where
  "concatBytes parts = concat parts"

text \<open>The loop ORs the differences of all positions together.\<close>

definition constantTimeEqual :: "bytes \<Rightarrow> bytes \<Rightarrow> bool" where
  "constantTimeEqual a b =
    (if length a \<noteq> length b then False
     else fold (\<lambda>(left, right) diff. or diff (xor left right)) (zip a b) 0 = 0)"

definition u32be :: "nat \<Rightarrow> bytes" where
  "u32be value = (let v = value mod 4294967296 in
     [of_nat (v div 16777216), of_nat (v div 65536), of_nat (v div 256), of_nat v])"

definition readU32be :: "bytes \<Rightarrow> nat \<Rightarrow> nat" where
  "readU32be bytes offset = fold (\<lambda>b n. n * 256 + unat b) (take 4 (drop offset bytes)) 0"

section \<open>Base64\<close>

definition b64_char :: "nat \<Rightarrow> char" where
  "b64_char n =
    (if n < 26 then char_of (65 + n) else if n < 52 then char_of (71 + n)
     else if n < 62 then char_of (n - 4) else if n = 62 then CHR ''+'' else CHR ''/'')"

definition b64_value :: "char \<Rightarrow> nat option" where
  "b64_value c = (let n = (of_char c :: nat) in
     if 65 \<le> n \<and> n \<le> 90 then Some (n - 65)
     else if 97 \<le> n \<and> n \<le> 122 then Some (n - 71)
     else if 48 \<le> n \<and> n \<le> 57 then Some (n + 4)
     else if c = CHR ''+'' then Some 62
     else if c = CHR ''/'' then Some 63
     else None)"

fun btoa :: "nat list \<Rightarrow> string" where
  "btoa [] = []"
| "btoa [a] = [b64_char (a div 4), b64_char (a mod 4 * 16), CHR ''='', CHR ''='']"
| "btoa [a, b] = [b64_char (a div 4), b64_char (a mod 4 * 16 + b div 16), b64_char (b mod 16 * 4), CHR ''='']"
| "btoa (a # b # c # rest) =
    b64_char (a div 4) # b64_char (a mod 4 * 16 + b div 16) # b64_char (b mod 16 * 4 + c div 64) #
    b64_char (c mod 64) # btoa rest"

fun b64_groups :: "nat list \<Rightarrow> nat list" where
  "b64_groups (a # b # c # d # rest) =
    (a * 4 + b div 16) # (b mod 16 * 16 + c div 4) # (c mod 4 * 64 + d) # b64_groups rest"
| "b64_groups [a, b, c] = [a * 4 + b div 16, b mod 16 * 16 + c div 4]"
| "b64_groups [a, b] = [a * 4 + b div 16]"
| "b64_groups _ = []"

definition ascii_white :: "char \<Rightarrow> bool" where
  "ascii_white c \<longleftrightarrow> (of_char c :: nat) \<in> {9, 10, 12, 13, 32}"

definition strip_padding :: "string \<Rightarrow> string" where
  "strip_padding s =
    (if length s mod 4 = 0 then
       (if 2 \<le> length s \<and> drop (length s - 2) s = ''=='' then take (length s - 2) s
        else if 1 \<le> length s \<and> drop (length s - 1) s = ''='' then take (length s - 1) s
        else s)
     else s)"

definition atob :: "string \<Rightarrow> nat list option" where
  "atob s = (let d = strip_padding (filter (\<lambda>c. \<not> ascii_white c) s) in
     if length d mod 4 = 1 then None
     else map_option b64_groups (those (map b64_value d)))"

definition bytesToB64 :: "bytes \<Rightarrow> string" where
  "bytesToB64 bytes = btoa (map unat bytes)"

definition b64ToBytes :: "string \<Rightarrow> bytes option" where
  "b64ToBytes value = map_option (map of_nat) (atob value)"

section \<open>Lemmas\<close>

lemma constantTimeEqual_iff [simp]: "constantTimeEqual a b \<longleftrightarrow> a = b"
proof (cases "length a = length b")
  case True
  have or_zero: "fold (\<lambda>(l, r) d. or d (xor l r)) ps z = 0 \<longleftrightarrow> z = 0 \<and> list_all (\<lambda>(l, r). l = r) ps"
    for ps :: "(8 word \<times> 8 word) list" and z
  proof (induction ps arbitrary: z)
    case (Cons p ps)
    obtain l r where p: "p = (l, r)" by (cases p)
    have "(or z (xor l r) = 0) = (z = 0 \<and> l = r)"
    proof
      assume h: "or z (xor l r) = 0"
      then have bits: "\<not> bit z n \<and> bit l n = bit r n" if "n < 8" for n
        using that by (metis (full_types) bit_0_eq bit_or_iff bit_xor_iff bot_apply bot_bool_def)
      show "z = 0 \<and> l = r" by (auto intro!: bit_word_eqI simp: bits)
    qed simp
    with Cons p show ?case by auto
  qed simp
  from True have "list_all (\<lambda>(l, r). l = r) (zip a b) \<longleftrightarrow> a = b"
    by (induction a b rule: list_induct2) auto
  with True show ?thesis by (simp add: constantTimeEqual_def or_zero)
qed (auto simp: constantTimeEqual_def)

lemma char_of_less: "n < 256 \<Longrightarrow> (of_char (char_of n) :: nat) = n"
  by simp

lemma b64_value_char: "n < 64 \<Longrightarrow> b64_value (b64_char n) = Some n"
  by (auto simp: b64_value_def b64_char_def Let_def)

lemma b64_char_plain: "n < 64 \<Longrightarrow> b64_char n \<noteq> CHR ''='' \<and> \<not> ascii_white (b64_char n) \<and> b64_char n \<noteq> CHR '':''"
  by (auto simp: b64_char_def ascii_white_def dest: arg_cong[where f = "of_char :: char \<Rightarrow> nat"])

text \<open>Encoding and decoding three bytes at a time.\<close>

lemma btoa_length: "length (btoa ns) mod 4 = 0"
  by (induction ns rule: btoa.induct) simp_all

lemma btoa_Nil_iff [simp]: "btoa ns = [] \<longleftrightarrow> ns = []"
  by (cases ns rule: btoa.cases) simp_all

lemma strip_padding_Nil [simp]: "strip_padding [] = []"
  by (simp add: strip_padding_def)

lemma strip_padding_Cons4:
  assumes "length r mod 4 = 0" and "r \<noteq> [] \<or> w \<noteq> CHR ''=''"
  shows "strip_padding (x # y # z # w # r) = x # y # z # w # strip_padding r"
proof (cases "r = []")
  case True
  with assms(2) show ?thesis by (simp add: strip_padding_def)
next
  case False
  with assms(1) obtain k where "length r = Suc (Suc k)"
    by (metis One_nat_def Suc_eq_plus1 length_0_conv mod_less not0_implies_Suc numeral_1_eq_Suc_0
        numeral_eq_one_iff one_less_numeral_iff semiring_norm(76) zero_neq_one)
  moreover from this assms(1) have "(6 + k) mod 4 = 0" by presburger
  ultimately show ?thesis using assms(1) by (simp add: strip_padding_def)
qed

lemma six_bits: "a < 256 \<Longrightarrow> a div 4 < 64" "a mod 4 * 16 < 64" "b < 256 \<Longrightarrow> a mod 4 * 16 + b div 16 < 64"
  "b mod 16 * 4 < 64" "c < 256 \<Longrightarrow> b mod 16 * 4 + c div 64 < 64" "c mod 64 < (64::nat)"
  by linarith+

lemma regroup:
  assumes "b < (256::nat)"
  shows "b div 16 div 16 = 0" "b div 16 mod 16 * 16 + b mod 16 = b" "b div 64 div 4 = 0"
    "b div 64 mod 4 * 64 + b mod 64 = b"
proof -
  have "b div 16 < 16" "b div 64 < 4" using assms by auto
  then show "b div 16 div 16 = 0" "b div 16 mod 16 * 16 + b mod 16 = b" "b div 64 div 4 = 0"
    "b div 64 mod 4 * 64 + b mod 64 = b" by simp_all
qed

lemma btoa_decodes:
  assumes "list_all (\<lambda>n. n < 256) ns"
  shows "\<exists>vs. length vs mod 4 \<noteq> 1 \<and> length vs = length (strip_padding (btoa ns)) \<and>
    those (map b64_value (strip_padding (btoa ns))) = Some vs \<and> b64_groups vs = ns"
  using assms
proof (induction ns rule: btoa.induct)
  case (2 a)
  then show ?case by (simp add: strip_padding_def b64_value_char six_bits regroup)
next
  case (3 a b)
  then show ?case
    by (simp add: strip_padding_def b64_value_char six_bits regroup b64_char_plain)
next
  case (4 a b c rest)
  from 4 obtain vs where vs: "length vs mod 4 \<noteq> 1" "length vs = length (strip_padding (btoa rest))"
    "those (map b64_value (strip_padding (btoa rest))) = Some vs" "b64_groups vs = rest" by auto
  have "strip_padding (btoa (a # b # c # rest)) = b64_char (a div 4) #
      b64_char (a mod 4 * 16 + b div 16) # b64_char (b mod 16 * 4 + c div 64) # b64_char (c mod 64) #
      strip_padding (btoa rest)"
    using btoa_length[of rest] b64_char_plain[of "c mod 64"] by (simp add: strip_padding_Cons4)
  moreover have "length (a div 4 # (a mod 4 * 16 + b div 16) # (b mod 16 * 4 + c div 64) # c mod 64 # vs) mod 4 \<noteq> 1"
    using vs(1) by simp
  ultimately show ?case
    using 4(2) vs by (simp add: b64_value_char six_bits regroup)
qed simp

lemma padding_plain: "\<not> ascii_white CHR ''=''"
  by (simp add: ascii_white_def)

lemma btoa_chars:
  "list_all (\<lambda>n. n < 256) ns \<Longrightarrow> list_all (\<lambda>c. \<not> ascii_white c \<and> c \<noteq> CHR '':'') (btoa ns)"
proof (induction ns rule: btoa.induct)
  case (4 a b c rest)
  then show ?case by (simp add: b64_char_plain six_bits)
qed (auto simp: b64_char_plain six_bits padding_plain)

lemma atob_btoa: "list_all (\<lambda>n. n < 256) ns \<Longrightarrow> atob (btoa ns) = Some ns"
proof -
  assume ns: "list_all (\<lambda>n. n < 256) ns"
  have "filter (\<lambda>c. \<not> ascii_white c) (btoa ns) = btoa ns"
    using btoa_chars[OF ns] by (simp add: filter_id_conv list_all_iff)
  with btoa_decodes[OF ns] show ?thesis by (auto simp: atob_def Let_def)
qed

lemma unat_byte: "list_all (\<lambda>n. n < 256) (map unat (bs :: bytes))"
  using unsigned_less[where 'b = 8 and 'a = nat] by (auto simp: list_all_iff)

lemma b64_roundtrip [simp]: "b64ToBytes (bytesToB64 bs) = Some bs"
  by (simp add: b64ToBytes_def bytesToB64_def atob_btoa[OF unat_byte] comp_def)

lemma bytesToB64_inject [simp]: "bytesToB64 a = bytesToB64 b \<longleftrightarrow> a = b"
  by (metis b64_roundtrip option.inject)

lemma bytesToB64_no_colon: "CHR '':'' \<notin> set (bytesToB64 bs)"
  using btoa_chars[OF unat_byte, of bs] by (auto simp: bytesToB64_def list_all_iff)

lemma bytesToB64_Nil_iff [simp]: "bytesToB64 bs = [] \<longleftrightarrow> bs = []"
  by (simp add: bytesToB64_def)

text \<open>Big-endian numbers.\<close>

lemma length_u32be [simp]: "length (u32be n) = 4"
  by (simp add: u32be_def Let_def)

lemma unat_byte_of_nat: "unat (of_nat n :: 8 word) = n mod 256"
  by (simp add: unat_of_nat)

lemma readU32be_u32be:
  assumes "n < 4294967296" and "take 4 (drop k bs) = u32be n"
  shows "readU32be bs k = n"
proof -
  have d: "n div 65536 = n div 256 div 256" "n div 16777216 = n div 256 div 256 div 256"
    by (simp_all add: div_mult2_eq[symmetric])
  have "n div 16777216 < 256" using assms(1) by linarith
  then have "n div 16777216 mod 256 = n div 256 div 256 div 256" by (simp add: d)
  then have "((n div 16777216 mod 256 * 256 + n div 65536 mod 256) * 256 + n div 256 mod 256) * 256 + n mod 256 = n"
    by (simp only: d div_mult_mod_eq)
  with assms show ?thesis
    by (simp add: readU32be_def u32be_def Let_def unat_byte_of_nat)
qed

end
