(* ===== verification/E2ee_Ratchet.thy ===== *)
theory E2ee_Ratchet
  imports E2ee_Bytes Effects "HOL-Library.AList"
begin

text \<open>
  \<open>packages/e2ee/src/kdf.ts\<close> and \<open>ratchet.ts\<close>: the double ratchet. The primitives of the
  noble libraries and of WebCrypto are the fields of \<open>crypto\<close>; a key pair that
  \<open>keygen\<close> draws is a secret given as an argument. The code changes the state in place, also
  before it throws, so an operation returns its result or error together with the state it
  leaves behind.
\<close>

section \<open>The primitives\<close>

record crypto =
  cr_public :: "bytes \<Rightarrow> bytes"
  cr_shared :: "bytes \<Rightarrow> bytes \<Rightarrow> bytes option"
  cr_hkdf :: "bytes \<Rightarrow> bytes \<Rightarrow> bytes \<Rightarrow> nat \<Rightarrow> bytes"
  cr_hmac :: "bytes \<Rightarrow> bytes \<Rightarrow> bytes"
  cr_seal :: "bytes \<Rightarrow> bytes \<Rightarrow> bytes \<Rightarrow> bytes \<Rightarrow> bytes"
  cr_open :: "bytes \<Rightarrow> bytes \<Rightarrow> bytes \<Rightarrow> bytes \<Rightarrow> bytes option"
  cr_sign :: "bytes \<Rightarrow> bytes \<Rightarrow> bytes"
  cr_identity :: "bytes \<Rightarrow> bytes"
  cr_verify :: "bytes \<Rightarrow> bytes \<Rightarrow> bytes \<Rightarrow> bool"

text \<open>
  What the libraries document: X25519 agrees in both directions and never fails between keys
  made by \<open>keygen\<close>; ChaCha20-Poly1305 opens what it sealed under the same key, nonce and
  associated data; an Ed25519 signature has 64 bytes and verifies under the public key of its
  secret.
\<close>

definition crypto_ok :: "crypto \<Rightarrow> bool" where
  "crypto_ok C \<longleftrightarrow>
    (\<forall>a b. cr_shared C a (cr_public C b) = cr_shared C b (cr_public C a) \<and>
      cr_shared C a (cr_public C b) \<noteq> None) \<and>
    (\<forall>k n ad p. cr_open C k n ad (cr_seal C k n ad p) = Some p) \<and>
    (\<forall>a p. cr_verify C (cr_identity C a) p (cr_sign C a p)) \<and>
    (\<forall>a. length (cr_public C a) = 32 \<and> length (cr_identity C a) = 32) \<and>
    (\<forall>a p. length (cr_sign C a p) = 64)"

section \<open>kdf.ts\<close>

definition ZERO_SALT :: bytes where
  "ZERO_SALT = replicate 32 0"

definition hkdfSha256 :: "crypto \<Rightarrow> bytes \<Rightarrow> string \<Rightarrow> nat \<Rightarrow> bytes \<Rightarrow> bytes" where
  "hkdfSha256 C ikm info len salt = cr_hkdf C ikm salt (utf8 info) len"

definition hmacSha256 :: "crypto \<Rightarrow> bytes \<Rightarrow> bytes \<Rightarrow> bytes" where
  "hmacSha256 C key data = cr_hmac C key data"

definition kdfRoot :: "crypto \<Rightarrow> bytes \<Rightarrow> bytes \<Rightarrow> bytes \<times> bytes" where
  "kdfRoot C rootKey dhOut =
    (let material = hkdfSha256 C dhOut ''VimlaDoubleRatchetRK'' 64 rootKey
     in (take 32 material, take 32 (drop 32 material)))"

definition kdfChain :: "crypto \<Rightarrow> bytes \<Rightarrow> bytes \<times> bytes" where
  "kdfChain C chainKey = (hmacSha256 C chainKey [2], hmacSha256 C chainKey [1])"

definition messageNonce :: "crypto \<Rightarrow> bytes \<Rightarrow> bytes" where
  "messageNonce C messageKey = hkdfSha256 C messageKey ''VimlaMsgNonce'' 12 ZERO_SALT"

section \<open>State, headers and errors\<close>

datatype e2ee_error =
    SENDING_CHAIN_MISSING | RECEIVING_CHAIN_MISSING | TOO_MANY_SKIPPED | REMOTE_KEY_MISSING
  | AUTHENTICATION_FAILED | INVALID_HEADER | KEY_AGREEMENT_FAILED | INVALID_BASE64
  | INVALID_KEY_LENGTH | PREKEY_NOT_VERIFIED | INVALID_SIGNATURE

definition MAX_SKIP :: nat where "MAX_SKIP = 200"

record ratchet_header =
  rh_dhPublic :: bytes
  rh_n :: nat
  rh_pn :: nat

record ratchet_state =
  rt_dhsSecret :: bytes
  rt_dhsPublic :: bytes
  rt_dhrPublic :: "bytes option"
  rt_rootKey :: bytes
  rt_sendingChainKey :: "bytes option"
  rt_receivingChainKey :: "bytes option"
  rt_ns :: nat
  rt_nr :: nat
  rt_pn :: nat
  rt_skipped :: "(string \<times> bytes) list"

definition initRatchetInitiator :: "crypto \<Rightarrow> bytes \<Rightarrow> bytes \<Rightarrow> bytes \<Rightarrow> e2ee_error + ratchet_state" where
  "initRatchetInitiator C localSecret sharedKey remoteRatchetPublic =
    (case cr_shared C localSecret remoteRatchetPublic of
       None \<Rightarrow> Inl KEY_AGREEMENT_FAILED
     | Some dhOut \<Rightarrow> let (rootKey, chainKey) = kdfRoot C sharedKey dhOut in
         Inr \<lparr>rt_dhsSecret = localSecret, rt_dhsPublic = cr_public C localSecret,
           rt_dhrPublic = Some remoteRatchetPublic, rt_rootKey = rootKey,
           rt_sendingChainKey = Some chainKey, rt_receivingChainKey = None,
           rt_ns = 0, rt_nr = 0, rt_pn = 0, rt_skipped = []\<rparr>)"

definition initRatchetResponder :: "bytes \<Rightarrow> bytes \<Rightarrow> bytes \<Rightarrow> ratchet_state" where
  "initRatchetResponder sharedKey secret publicKey =
    \<lparr>rt_dhsSecret = secret, rt_dhsPublic = publicKey, rt_dhrPublic = None,
     rt_rootKey = sharedKey, rt_sendingChainKey = None, rt_receivingChainKey = None,
     rt_ns = 0, rt_nr = 0, rt_pn = 0, rt_skipped = []\<rparr>"

definition encodeHeader :: "ratchet_header \<Rightarrow> bytes" where
  "encodeHeader header = concatBytes [rh_dhPublic header, u32be (rh_pn header), u32be (rh_n header)]"

definition decodeHeader :: "bytes \<Rightarrow> e2ee_error + ratchet_header" where
  "decodeHeader bytes =
    (if length bytes \<noteq> 40 then Inl INVALID_HEADER
     else Inr \<lparr>rh_dhPublic = take 32 bytes, rh_n = readU32be bytes 36, rh_pn = readU32be bytes 32\<rparr>)"

definition aeadEncrypt :: "crypto \<Rightarrow> bytes \<Rightarrow> bytes \<Rightarrow> bytes \<Rightarrow> bytes" where
  "aeadEncrypt C messageKey plaintext associatedData =
    cr_seal C messageKey (messageNonce C messageKey) associatedData plaintext"

definition aeadDecrypt :: "crypto \<Rightarrow> bytes \<Rightarrow> bytes \<Rightarrow> bytes \<Rightarrow> e2ee_error + bytes" where
  "aeadDecrypt C messageKey ciphertext associatedData =
    (case cr_open C messageKey (messageNonce C messageKey) associatedData ciphertext of
       None \<Rightarrow> Inl AUTHENTICATION_FAILED
     | Some plaintext \<Rightarrow> Inr plaintext)"

definition skippedKey :: "bytes \<Rightarrow> nat \<Rightarrow> string" where
  "skippedKey dhPublic n = bytesToB64 dhPublic @ '':'' @ decimal_of_nat n"

section \<open>Encrypting and decrypting\<close>

definition ratchetEncrypt ::
    "crypto \<Rightarrow> ratchet_state \<Rightarrow> bytes \<Rightarrow> bytes \<Rightarrow>
      (e2ee_error + ratchet_header \<times> bytes) \<times> ratchet_state" where
  "ratchetEncrypt C st plaintext associatedData =
    (case rt_sendingChainKey st of
       None \<Rightarrow> (Inl SENDING_CHAIN_MISSING, st)
     | Some ck \<Rightarrow>
         let (chainKey, messageKey) = kdfChain C ck;
             header = \<lparr>rh_dhPublic = rt_dhsPublic st, rh_n = rt_ns st, rh_pn = rt_pn st\<rparr>
         in (Inr (header, aeadEncrypt C messageKey plaintext
               (concatBytes [associatedData, encodeHeader header])),
             st\<lparr>rt_sendingChainKey := Some chainKey, rt_ns := rt_ns st + 1\<rparr>))"

text \<open>
  The loop of \<open>skipMessageKeys\<close>; the receiving chain exists there, so the branch
  \<open>None\<close> is not reached.
\<close>

function skip_loop :: "crypto \<Rightarrow> nat \<Rightarrow> ratchet_state \<Rightarrow> (e2ee_error + unit) \<times> ratchet_state" where
  "skip_loop C until st =
    (if rt_nr st < until then
       (case rt_receivingChainKey st of
          None \<Rightarrow> (Inr (), st)
        | Some ck \<Rightarrow>
            let (chainKey, messageKey) = kdfChain C ck; st1 = st\<lparr>rt_receivingChainKey := Some chainKey\<rparr> in
            (case rt_dhrPublic st of
               None \<Rightarrow> (Inl REMOTE_KEY_MISSING, st1)
             | Some pk \<Rightarrow> skip_loop C until
                 (st1\<lparr>rt_skipped := AList.update (skippedKey pk (rt_nr st)) messageKey (rt_skipped st),
                   rt_nr := rt_nr st + 1\<rparr>)))
     else (Inr (), st))"
  by pat_completeness auto
termination
  by (relation "measure (\<lambda>(_, until, st). until - rt_nr st)") auto

declare skip_loop.simps [simp del]

definition skipMessageKeys :: "crypto \<Rightarrow> nat \<Rightarrow> ratchet_state \<Rightarrow> (e2ee_error + unit) \<times> ratchet_state" where
  "skipMessageKeys C until st =
    (if rt_receivingChainKey st = None then (Inr (), st)
     else if int until - int (rt_nr st) > int MAX_SKIP then (Inl TOO_MANY_SKIPPED, st)
     else skip_loop C until st)"

definition trySkipped ::
    "crypto \<Rightarrow> ratchet_state \<Rightarrow> ratchet_header \<Rightarrow> bytes \<Rightarrow> bytes \<Rightarrow>
      (e2ee_error + bytes option) \<times> ratchet_state" where
  "trySkipped C st header ciphertext associatedData =
    (let key = skippedKey (rh_dhPublic header) (rh_n header) in
     case map_of (rt_skipped st) key of
       None \<Rightarrow> (Inr None, st)
     | Some messageKey \<Rightarrow>
         (map_sum id Some (aeadDecrypt C messageKey ciphertext
            (concatBytes [associatedData, encodeHeader header])),
          st\<lparr>rt_skipped := AList.delete key (rt_skipped st)\<rparr>))"

definition dhRatchet ::
    "crypto \<Rightarrow> bytes \<Rightarrow> ratchet_header \<Rightarrow> ratchet_state \<Rightarrow> (e2ee_error + unit) \<times> ratchet_state" where
  "dhRatchet C next header st =
    (let st1 = st\<lparr>rt_pn := rt_ns st, rt_ns := 0, rt_nr := 0, rt_dhrPublic := Some (rh_dhPublic header)\<rparr> in
     case cr_shared C (rt_dhsSecret st) (rh_dhPublic header) of
       None \<Rightarrow> (Inl KEY_AGREEMENT_FAILED, st1)
     | Some dhOut \<Rightarrow>
         let (rootKey, chainKey) = kdfRoot C (rt_rootKey st) dhOut;
             st2 = st1\<lparr>rt_rootKey := rootKey, rt_receivingChainKey := Some chainKey,
               rt_dhsSecret := next, rt_dhsPublic := cr_public C next\<rparr> in
         (case cr_shared C next (rh_dhPublic header) of
            None \<Rightarrow> (Inl KEY_AGREEMENT_FAILED, st2)
          | Some dhOut2 \<Rightarrow>
              let (rootKey2, chainKey2) = kdfRoot C rootKey dhOut2
              in (Inr (), st2\<lparr>rt_rootKey := rootKey2, rt_sendingChainKey := Some chainKey2\<rparr>)))"

definition ratchetDecrypt ::
    "crypto \<Rightarrow> bytes \<Rightarrow> ratchet_state \<Rightarrow> ratchet_header \<Rightarrow> bytes \<Rightarrow> bytes \<Rightarrow>
      (e2ee_error + bytes) \<times> ratchet_state" where
  "ratchetDecrypt C next st header ciphertext associatedData =
    sbind (trySkipped C st header ciphertext associatedData) (\<lambda>skipped st.
    case skipped of
      Some plaintext \<Rightarrow> (Inr plaintext, st)
    | None \<Rightarrow>
        sbind (if (case rt_dhrPublic st of None \<Rightarrow> True
                   | Some pk \<Rightarrow> \<not> constantTimeEqual (rh_dhPublic header) pk)
               then sbind (skipMessageKeys C (rh_pn header) st) (\<lambda>_. dhRatchet C next header)
               else (Inr (), st)) (\<lambda>_ st.
        sbind (skipMessageKeys C (rh_n header) st) (\<lambda>_ st.
        case rt_receivingChainKey st of
          None \<Rightarrow> (Inl RECEIVING_CHAIN_MISSING, st)
        | Some ck \<Rightarrow>
            let (chainKey, messageKey) = kdfChain C ck
            in (aeadDecrypt C messageKey ciphertext (concatBytes [associatedData, encodeHeader header]),
                st\<lparr>rt_receivingChainKey := Some chainKey, rt_nr := rt_nr st + 1\<rparr>))))"

section \<open>The stored form\<close>

record serialized_ratchet =
  sr_dhsSecret :: string
  sr_dhsPublic :: string
  sr_dhrPublic :: "string option"
  sr_rootKey :: string
  sr_sendingChainKey :: "string option"
  sr_receivingChainKey :: "string option"
  sr_ns :: nat
  sr_nr :: nat
  sr_pn :: nat
  sr_skipped :: "(string \<times> string) list"

definition serializeRatchet :: "ratchet_state \<Rightarrow> serialized_ratchet" where
  "serializeRatchet st =
    \<lparr>sr_dhsSecret = bytesToB64 (rt_dhsSecret st), sr_dhsPublic = bytesToB64 (rt_dhsPublic st),
     sr_dhrPublic = map_option bytesToB64 (rt_dhrPublic st), sr_rootKey = bytesToB64 (rt_rootKey st),
     sr_sendingChainKey = map_option bytesToB64 (rt_sendingChainKey st),
     sr_receivingChainKey = map_option bytesToB64 (rt_receivingChainKey st),
     sr_ns = rt_ns st, sr_nr = rt_nr st, sr_pn = rt_pn st,
     sr_skipped = fold (\<lambda>(key, value) m. AList.update key (bytesToB64 value) m) (rt_skipped st) []\<rparr>"

definition read_bytes :: "string \<Rightarrow> e2ee_error + bytes" where
  "read_bytes value = the_row INVALID_BASE64 (b64ToBytes value)"

definition read_optional :: "string option \<Rightarrow> e2ee_error + bytes option" where
  "read_optional value =
    (if truthy_str value then rbind (read_bytes (the value)) (\<lambda>b. Inr (Some b)) else Inr None)"

definition deserializeRatchet :: "serialized_ratchet \<Rightarrow> e2ee_error + ratchet_state" where
  "deserializeRatchet s =
    rbind (fold_res (\<lambda>(key, value) m. rbind (read_bytes value) (\<lambda>b. Inr (AList.update key b m)))
      (sr_skipped s) []) (\<lambda>skipped.
    rbind (read_bytes (sr_dhsSecret s)) (\<lambda>dhsSecret.
    rbind (read_bytes (sr_dhsPublic s)) (\<lambda>dhsPublic.
    rbind (read_optional (sr_dhrPublic s)) (\<lambda>dhrPublic.
    rbind (read_bytes (sr_rootKey s)) (\<lambda>rootKey.
    rbind (read_optional (sr_sendingChainKey s)) (\<lambda>sendingChainKey.
    rbind (read_optional (sr_receivingChainKey s)) (\<lambda>receivingChainKey.
    Inr \<lparr>rt_dhsSecret = dhsSecret, rt_dhsPublic = dhsPublic, rt_dhrPublic = dhrPublic,
      rt_rootKey = rootKey, rt_sendingChainKey = sendingChainKey,
      rt_receivingChainKey = receivingChainKey, rt_ns = sr_ns s, rt_nr = sr_nr s,
      rt_pn = sr_pn s, rt_skipped = skipped\<rparr>)))))))"

end
