(* ===== verification/E2ee_Protocol.thy ===== *)
theory E2ee_Protocol
  imports E2ee_Ratchet
begin

text \<open>
  What the double ratchet of \<open>packages/e2ee/src/ratchet.ts\<close> guarantees between two honest
  parties: the keys of a receiving chain, the step from one chain to the next, and whole
  conversations in which messages are lost and reordered.
\<close>

section \<open>Keys of a chain\<close>

primrec chain_key :: "crypto \<Rightarrow> bytes \<Rightarrow> nat \<Rightarrow> bytes" where
  "chain_key C ck 0 = ck"
| "chain_key C ck (Suc n) = fst (kdfChain C (chain_key C ck n))"

definition message_key :: "crypto \<Rightarrow> bytes \<Rightarrow> nat \<Rightarrow> bytes" where
  "message_key C ck n = snd (kdfChain C (chain_key C ck n))"

lemma kdfChain_at [simp]: "kdfChain C (chain_key C ck n) = (chain_key C ck (Suc n), message_key C ck n)"
  by (simp add: message_key_def)

declare chain_key.simps(2) [simp del]

lemma decimal_of_nat_inject [simp]: "decimal_of_nat m = decimal_of_nat n \<longleftrightarrow> m = n"
  by (metis nat_of_digits_decimal)

lemma skippedKey_inject [simp]: "skippedKey p m = skippedKey q n \<longleftrightarrow> p = q \<and> m = n"
proof
  assume eq: "skippedKey p m = skippedKey q n"
  have t: "takeWhile (\<lambda>c. c \<noteq> CHR '':'') (bytesToB64 b @ '':'' @ d) = bytesToB64 b" for b d
    using bytesToB64_no_colon[of b] by (induction "bytesToB64 b") (auto simp: takeWhile_append)
  from eq have "bytesToB64 p = bytesToB64 q"
    unfolding skippedKey_def by (metis t)
  with eq show "p = q \<and> m = n" by (simp add: skippedKey_def)
qed simp

lemma crypto_okD:
  assumes "crypto_ok C"
  shows "cr_shared C a (cr_public C b) = cr_shared C b (cr_public C a)"
    and "\<exists>d. cr_shared C a (cr_public C b) = Some d"
    and "cr_open C k n ad (cr_seal C k n ad p) = Some p"
    and "cr_verify C (cr_identity C a) p (cr_sign C a p)"
    and "length (cr_public C a) = 32" and "length (cr_identity C a) = 32" and "length (cr_sign C a p) = 64"
  using assms unfolding crypto_ok_def by blast+

lemma aead_roundtrip: "crypto_ok C \<Longrightarrow> aeadDecrypt C k (aeadEncrypt C k p ad) ad = Inr p"
  by (simp add: aeadDecrypt_def aeadEncrypt_def crypto_okD(3))

section \<open>Skipping keys\<close>

definition skipped_to :: "crypto \<Rightarrow> bytes \<Rightarrow> bytes \<Rightarrow> nat \<Rightarrow> ratchet_state \<Rightarrow> ratchet_state" where
  "skipped_to C pk ck n r = r\<lparr>rt_receivingChainKey := Some (chain_key C ck n), rt_nr := n,
     rt_skipped := fold (\<lambda>i. AList.update (skippedKey pk i) (message_key C ck i)) [rt_nr r..<n]
       (rt_skipped r)\<rparr>"

lemma skip_loop_keys:
  assumes "rt_nr r \<le> n" and "rt_receivingChainKey r = Some (chain_key C ck (rt_nr r))"
    and "rt_dhrPublic r = Some pk"
  shows "skip_loop C n r = (Inr (), skipped_to C pk ck n r)"
  using assms
proof (induction "n - rt_nr r" arbitrary: r)
  case 0
  then have "n = rt_nr r" by simp
  moreover have "r\<lparr>rt_receivingChainKey := Some (chain_key C ck (rt_nr r))\<rparr> = r"
    using "0.prems"(2) by (intro ratchet_state.equality) simp_all
  ultimately show ?case by (simp add: skip_loop.simps[of C _ r] skipped_to_def)
next
  case (Suc k)
  then have less: "rt_nr r < n" by simp
  let ?r = "r\<lparr>rt_receivingChainKey := Some (chain_key C ck (Suc (rt_nr r))),
    rt_skipped := AList.update (skippedKey pk (rt_nr r)) (message_key C ck (rt_nr r)) (rt_skipped r),
    rt_nr := Suc (rt_nr r)\<rparr>"
  have step: "skip_loop C n r = skip_loop C n ?r"
    using Suc.prems less by (subst skip_loop.simps) simp
  have "skip_loop C n ?r = (Inr (), skipped_to C pk ck n ?r)"
    by (rule Suc.hyps(1)) (use Suc.hyps(2) Suc.prems less in auto)
  moreover have "skipped_to C pk ck n ?r = skipped_to C pk ck n r"
    using less by (simp add: skipped_to_def upt_conv_Cons)
  ultimately show ?case using step by simp
qed

lemma skipMessageKeys_past:
  "n \<le> rt_nr r \<Longrightarrow> skipMessageKeys C n r = (Inr (), r)"
  by (auto simp: skipMessageKeys_def skip_loop.simps)

lemma skipMessageKeys_keys:
  assumes "rt_receivingChainKey r = Some (chain_key C ck (rt_nr r))" and "rt_dhrPublic r = Some pk"
    and "n \<le> rt_nr r + MAX_SKIP"
  shows "skipMessageKeys C n r = (Inr (), if rt_nr r \<le> n then skipped_to C pk ck n r else r)"
  using assms skip_loop_keys[OF _ assms(1,2), of n] skipMessageKeys_past[of n r C]
  by (auto simp: skipMessageKeys_def)

lemma skipped_lookup:
  "map_of (fold (\<lambda>i. AList.update (skippedKey pk i) (message_key C ck i)) is al) (skippedKey q j) =
    (if q = pk \<and> j \<in> set is then Some (message_key C ck j) else map_of al (skippedKey q j))"
  by (induction "is" arbitrary: al) (auto simp: update_conv')

section \<open>A receiving chain\<close>

text \<open>The receiver has the chain of \<open>pk\<close> and has opened the messages \<open>done\<close> on it.\<close>

definition receiving :: "crypto \<Rightarrow> bytes \<Rightarrow> bytes \<Rightarrow> nat set \<Rightarrow> ratchet_state \<Rightarrow> bool" where
  "receiving C pk ck done r \<longleftrightarrow>
    rt_dhrPublic r = Some pk \<and> rt_receivingChainKey r = Some (chain_key C ck (rt_nr r)) \<and>
    done \<subseteq> {..<rt_nr r} \<and>
    (\<forall>i. map_of (rt_skipped r) (skippedKey pk i) =
      (if i < rt_nr r \<and> i \<notin> done then Some (message_key C ck i) else None))"

text \<open>What decrypting on the same chain leaves alone.\<close>

definition keeps :: "bytes \<Rightarrow> ratchet_state \<Rightarrow> ratchet_state \<Rightarrow> bool" where
  "keeps pk r r' \<longleftrightarrow>
    rt_dhsSecret r' = rt_dhsSecret r \<and> rt_dhsPublic r' = rt_dhsPublic r \<and>
    rt_rootKey r' = rt_rootKey r \<and> rt_sendingChainKey r' = rt_sendingChainKey r \<and>
    rt_ns r' = rt_ns r \<and> rt_pn r' = rt_pn r \<and>
    (\<forall>q j. q \<noteq> pk \<longrightarrow> map_of (rt_skipped r') (skippedKey q j) = map_of (rt_skipped r) (skippedKey q j))"

lemma keeps_refl: "keeps pk r r"
  by (simp add: keeps_def)

lemma keeps_trans: "keeps pk r s \<Longrightarrow> keeps pk s t \<Longrightarrow> keeps pk r t"
  by (simp add: keeps_def)

text \<open>The message \<open>i\<close> of a chain.\<close>

definition sealed :: "crypto \<Rightarrow> bytes \<Rightarrow> bytes \<Rightarrow> nat \<Rightarrow> nat \<Rightarrow> bytes \<Rightarrow> bytes \<Rightarrow> ratchet_header \<times> bytes" where
  "sealed C pk ck pn i p ad =
    (let header = \<lparr>rh_dhPublic = pk, rh_n = i, rh_pn = pn\<rparr>
     in (header, aeadEncrypt C (message_key C ck i) p (concatBytes [ad, encodeHeader header])))"

lemma decrypt_on_chain:
  assumes ok: "crypto_ok C" and rec: "receiving C pk ck done r" and i: "i \<notin> done" "i \<le> MAX_SKIP"
    and m: "sealed C pk ck pn i p ad = (h, c)"
  shows "\<exists>r'. ratchetDecrypt C next r h c ad = (Inr p, r') \<and> receiving C pk ck (insert i done) r' \<and>
    keeps pk r r'"
proof -
  have h: "rh_dhPublic h = pk" "rh_n h = i"
    and c: "c = aeadEncrypt C (message_key C ck i) p (concatBytes [ad, encodeHeader h])"
    using m by (auto simp: sealed_def Let_def)
  have opens: "aeadDecrypt C (message_key C ck i) c (concatBytes [ad, encodeHeader h]) = Inr p"
    unfolding c by (rule aead_roundtrip[OF ok])
  note R = rec[unfolded receiving_def]
  show ?thesis
  proof (cases "i < rt_nr r")
    case True
    let ?r = "r\<lparr>rt_skipped := AList.delete (skippedKey pk i) (rt_skipped r)\<rparr>"
    have "ratchetDecrypt C next r h c ad = (Inr p, ?r)"
      using R True i(1) h opens by (simp add: ratchetDecrypt_def trySkipped_def)
    moreover have "receiving C pk ck (insert i done) ?r"
      using R True by (auto simp: receiving_def delete_conv')
    moreover have "keeps pk r ?r" by (simp add: keeps_def delete_conv')
    ultimately show ?thesis by blast
  next
    case False
    let ?r = "(skipped_to C pk ck i r)\<lparr>rt_receivingChainKey := Some (chain_key C ck (Suc i)), rt_nr := Suc i\<rparr>"
    have "skipMessageKeys C i r = (Inr (), skipped_to C pk ck i r)"
      using skipMessageKeys_keys[of r C ck pk i] R False i(2) by simp
    moreover have "map_of (rt_skipped r) (skippedKey pk i) = None" using R False by simp
    ultimately have "ratchetDecrypt C next r h c ad = (Inr p, ?r)"
      using R h opens
      by (simp add: ratchetDecrypt_def trySkipped_def skipped_to_def)
    moreover have "receiving C pk ck (insert i done) ?r"
      using R False by (auto simp: receiving_def skipped_to_def skipped_lookup)
    moreover have "keeps pk r ?r" by (simp add: keeps_def skipped_to_def skipped_lookup)
    ultimately show ?thesis by blast
  qed
qed

section \<open>Sequences of messages\<close>

fun encrypt_all ::
    "crypto \<Rightarrow> ratchet_state \<Rightarrow> (bytes \<times> bytes) list \<Rightarrow>
      (e2ee_error + (ratchet_header \<times> bytes) list) \<times> ratchet_state" where
  "encrypt_all C st [] = (Inr [], st)"
| "encrypt_all C st ((p, ad) # ms) =
    sbind (ratchetEncrypt C st p ad) (\<lambda>m st.
    sbind (encrypt_all C st ms) (\<lambda>rest st. (Inr (m # rest), st)))"

fun decrypt_all ::
    "crypto \<Rightarrow> bytes \<Rightarrow> ratchet_state \<Rightarrow> (ratchet_header \<times> bytes \<times> bytes) list \<Rightarrow>
      (e2ee_error + bytes list) \<times> ratchet_state" where
  "decrypt_all C next st [] = (Inr [], st)"
| "decrypt_all C next st ((h, c, ad) # ms) =
    sbind (ratchetDecrypt C next st h c ad) (\<lambda>p st.
    sbind (decrypt_all C next st ms) (\<lambda>rest st. (Inr (p # rest), st)))"

lemma encrypt_all_sealed:
  assumes "rt_sendingChainKey st = Some (chain_key C ck (rt_ns st))"
  shows "encrypt_all C st ms =
    (Inr (map (\<lambda>(i, p, ad). sealed C (rt_dhsPublic st) ck (rt_pn st) i p ad)
        (zip [rt_ns st..<rt_ns st + length ms] ms)),
     st\<lparr>rt_sendingChainKey := Some (chain_key C ck (rt_ns st + length ms)), rt_ns := rt_ns st + length ms\<rparr>)"
  using assms
proof (induction ms arbitrary: st)
  case Nil
  then have "st\<lparr>rt_sendingChainKey := Some (chain_key C ck (rt_ns st))\<rparr> = st"
    by (intro ratchet_state.equality) simp_all
  then show ?case by simp
next
  case (Cons m ms)
  obtain p ad where m: "m = (p, ad)" by (cases m)
  let ?st = "st\<lparr>rt_sendingChainKey := Some (chain_key C ck (Suc (rt_ns st))), rt_ns := Suc (rt_ns st)\<rparr>"
  have "ratchetEncrypt C st p ad = (Inr (sealed C (rt_dhsPublic st) ck (rt_pn st) (rt_ns st) p ad), ?st)"
    using Cons.prems by (simp add: ratchetEncrypt_def sealed_def Let_def)
  moreover have "[rt_ns st..<rt_ns st + length (m # ms)] = rt_ns st # [rt_ns ?st..<rt_ns ?st + length ms]"
    by (simp add: upt_conv_Cons del: upt_Suc)
  ultimately show ?case using Cons.IH[of ?st] Cons.prems by (simp add: m del: upt_Suc)
qed

lemma decrypt_all_on_chain:
  assumes "crypto_ok C" and "receiving C pk ck done r"
    and "distinct is" and "list_all (\<lambda>i. i \<notin> done \<and> i \<le> MAX_SKIP) is"
  shows "\<exists>r'. decrypt_all C next r (map (\<lambda>i. let (h, c) = sealed C pk ck pn i (p i) (ad i) in (h, c, ad i)) is) =
      (Inr (map p is), r') \<and> receiving C pk ck (done \<union> set is) r' \<and> keeps pk r r'"
  using assms
proof (induction "is" arbitrary: "done" r)
  case Nil
  then show ?case by (simp add: keeps_refl)
next
  case (Cons i "is")
  obtain h c where m: "sealed C pk ck pn i (p i) (ad i) = (h, c)"
    by (cases "sealed C pk ck pn i (p i) (ad i)")
  from decrypt_on_chain[OF Cons.prems(1,2) _ _ m, of "next"] Cons.prems(4) obtain r1 where
    r1: "ratchetDecrypt C next r h c (ad i) = (Inr (p i), r1)" "receiving C pk ck (insert i done) r1"
      "keeps pk r r1" by auto
  from Cons.IH[OF Cons.prems(1) r1(2)] Cons.prems(3,4) obtain r' where
    r': "decrypt_all C next r1 (map (\<lambda>i. let (h, c) = sealed C pk ck pn i (p i) (ad i) in (h, c, ad i)) is) =
      (Inr (map p is), r')" "receiving C pk ck (insert i done \<union> set is) r'" "keeps pk r1 r'"
    by (auto simp: list_all_iff)
  from r1 r' keeps_trans[OF r1(3) r'(3)] show ?case by (simp add: m)
qed

section \<open>Changing the direction\<close>

text \<open>
  The sender starts a new chain that the receiver reaches with its next step: the receiver's
  root key and key agreement give the sender's root and chain keys, and what is left of the
  receiver's old chain is within reach.
\<close>

definition linked :: "crypto \<Rightarrow> ratchet_state \<Rightarrow> ratchet_state \<Rightarrow> bool" where
  "linked C s r \<longleftrightarrow>
    (\<exists>ck d. rt_sendingChainKey s = Some ck \<and> cr_shared C (rt_dhsSecret r) (rt_dhsPublic s) = Some d \<and>
      kdfRoot C (rt_rootKey r) d = (rt_rootKey s, ck)) \<and>
    rt_ns s = 0 \<and> rt_ns r \<le> MAX_SKIP \<and>
    rt_dhsPublic s = cr_public C (rt_dhsSecret s) \<and> rt_dhsPublic r = cr_public C (rt_dhsSecret r) \<and>
    rt_pn s \<le> MAX_SKIP \<and>
    (rt_receivingChainKey r = None \<or> (rt_dhrPublic r \<noteq> None \<and>
      (\<exists>ck. rt_receivingChainKey r = Some (chain_key C ck (rt_nr r))))) \<and>
    (rt_receivingChainKey s = None \<or> (rt_dhrPublic s \<noteq> None \<and>
      (\<exists>ck. rt_receivingChainKey s = Some (chain_key C ck (rt_nr s)))))"

definition known :: "bytes set \<Rightarrow> ratchet_state \<Rightarrow> bool" where
  "known U st \<longleftrightarrow> (\<forall>pk. rt_dhrPublic st = Some pk \<longrightarrow> pk \<in> U) \<and>
    (\<forall>pk j. map_of (rt_skipped st) (skippedKey pk j) \<noteq> None \<longrightarrow> pk \<in> U)"

lemma skip_old_chain:
  assumes "linked C s r"
  shows "\<exists>r1. skipMessageKeys C (rt_pn s) r = (Inr (), r1) \<and> rt_rootKey r1 = rt_rootKey r \<and>
    rt_dhsSecret r1 = rt_dhsSecret r \<and> rt_ns r1 = rt_ns r \<and>
    (\<forall>q j. rt_dhrPublic r \<noteq> Some q \<longrightarrow>
      map_of (rt_skipped r1) (skippedKey q j) = map_of (rt_skipped r) (skippedKey q j))"
proof (cases "rt_receivingChainKey r")
  case None
  then show ?thesis by (simp add: skipMessageKeys_def)
next
  case (Some k)
  with assms obtain pk ck where r: "rt_dhrPublic r = Some pk"
      "rt_receivingChainKey r = Some (chain_key C ck (rt_nr r))"
    by (auto simp: linked_def)
  moreover have "rt_pn s \<le> rt_nr r + MAX_SKIP" using assms by (simp add: linked_def)
  ultimately have "skipMessageKeys C (rt_pn s) r =
      (Inr (), if rt_nr r \<le> rt_pn s then skipped_to C pk ck (rt_pn s) r else r)"
    by (intro skipMessageKeys_keys)
  with r show ?thesis by (auto simp: skipped_to_def skipped_lookup)
qed

lemma first_message:
  assumes ok: "crypto_ok C" and lk: "linked C s r" and ck: "rt_sendingChainKey s = Some ck"
    and U: "known U r" "rt_dhsPublic s \<notin> U"
  shows "\<exists>r1 d ck2. (\<forall>h c ad. rh_dhPublic h = rt_dhsPublic s \<and> rh_pn h = rt_pn s \<longrightarrow>
      ratchetDecrypt C next r h c ad = ratchetDecrypt C next r1 h c ad) \<and>
    receiving C (rt_dhsPublic s) ck {} r1 \<and> known (insert (rt_dhsPublic s) U) r1 \<and>
    rt_dhsSecret r1 = next \<and> rt_dhsPublic r1 = cr_public C next \<and> rt_ns r1 = 0 \<and> rt_pn r1 = rt_ns r \<and>
    cr_shared C next (rt_dhsPublic s) = Some d \<and> rt_sendingChainKey r1 = Some ck2 \<and>
    kdfRoot C (rt_rootKey s) d = (rt_rootKey r1, ck2)"
proof -
  let ?pk = "rt_dhsPublic s"
  obtain d1 where d1: "cr_shared C (rt_dhsSecret r) ?pk = Some d1" "kdfRoot C (rt_rootKey r) d1 = (rt_rootKey s, ck)"
    using lk ck by (auto simp: linked_def)
  have pk: "?pk = cr_public C (rt_dhsSecret s)" using lk by (simp add: linked_def)
  then obtain d2 where d2: "cr_shared C next ?pk = Some d2" using crypto_okD(2)[OF ok] by metis
  obtain root2 ck2 where k2: "kdfRoot C (rt_rootKey s) d2 = (root2, ck2)"
    by (cases "kdfRoot C (rt_rootKey s) d2")
  obtain r0 where r0: "skipMessageKeys C (rt_pn s) r = (Inr (), r0)" "rt_rootKey r0 = rt_rootKey r"
      "rt_dhsSecret r0 = rt_dhsSecret r" "rt_ns r0 = rt_ns r"
      "\<And>q j. rt_dhrPublic r \<noteq> Some q \<Longrightarrow> map_of (rt_skipped r0) (skippedKey q j) = map_of (rt_skipped r) (skippedKey q j)"
    using skip_old_chain[OF lk] by blast
  let ?r1 = "r0\<lparr>rt_pn := rt_ns r, rt_ns := 0, rt_nr := 0, rt_dhrPublic := Some ?pk, rt_rootKey := root2,
    rt_receivingChainKey := Some ck, rt_dhsSecret := next, rt_dhsPublic := cr_public C next,
    rt_sendingChainKey := Some ck2\<rparr>"
  have other: "rt_dhrPublic r \<noteq> Some ?pk" using U by (auto simp: known_def)
  have none: "map_of (rt_skipped r) (skippedKey ?pk j) = None" for j
    using U by (auto simp: known_def simp del: not_None_eq)
  have none0: "map_of (rt_skipped r0) (skippedKey ?pk j) = None" for j
    using none other r0(5) by simp
  have step: "dhRatchet C next h r0 = (Inr (), ?r1)" if "rh_dhPublic h = ?pk" for h
    using that d1 d2 k2 r0 by (simp add: dhRatchet_def)
  have "ratchetDecrypt C next r h c ad = ratchetDecrypt C next ?r1 h c ad"
    if h: "rh_dhPublic h = ?pk" "rh_pn h = rt_pn s" for h c ad
    using none none0 other r0(1) h step[OF h(1)]
    by (auto simp: ratchetDecrypt_def trySkipped_def split: option.splits)
  moreover have "receiving C ?pk ck {} ?r1" by (simp add: receiving_def none0)
  moreover have "known (insert ?pk U) ?r1"
  proof -
    have "pk \<in> U" if "map_of (rt_skipped r0) (skippedKey pk j) \<noteq> None" for pk j
      using that U(1) r0(5)[of pk j] unfolding known_def by metis
    then show ?thesis by (auto simp: known_def simp del: not_None_eq)
  qed
  ultimately show ?thesis using d2 k2 by (intro exI[of _ ?r1] exI[of _ d2] exI[of _ ck2]) simp
qed

section \<open>Conversations\<close>

text \<open>
  A turn: one party encrypts messages with their associated data, the network delivers some
  of them in some order, and the other party draws a secret for its next step. Then the
  roles change.
\<close>

record turn =
  tn_messages :: "(bytes \<times> bytes) list"
  tn_order :: "nat list"
  tn_next :: bytes

definition turn_ok :: "turn \<Rightarrow> bool" where
  "turn_ok t \<longleftrightarrow> tn_order t \<noteq> [] \<and> distinct (tn_order t) \<and>
    list_all (\<lambda>i. i < length (tn_messages t)) (tn_order t) \<and> length (tn_messages t) \<le> MAX_SKIP"

definition delivered ::
    "turn \<Rightarrow> (ratchet_header \<times> bytes) list \<Rightarrow> (ratchet_header \<times> bytes \<times> bytes) list" where
  "delivered t sent = map (\<lambda>i. let (h, c) = sent ! i in (h, c, snd (tn_messages t ! i))) (tn_order t)"

definition expected :: "turn \<Rightarrow> bytes list" where
  "expected t = map (\<lambda>i. fst (tn_messages t ! i)) (tn_order t)"

fun conversation ::
    "crypto \<Rightarrow> ratchet_state \<Rightarrow> ratchet_state \<Rightarrow> turn list \<Rightarrow> e2ee_error + bytes list list" where
  "conversation C s r [] = Inr []"
| "conversation C s r (t # ts) =
    (case encrypt_all C s (tn_messages t) of
       (Inl e, _) \<Rightarrow> Inl e
     | (Inr sent, s') \<Rightarrow>
         (case decrypt_all C (tn_next t) r (delivered t sent) of
            (Inl e, _) \<Rightarrow> Inl e
          | (Inr ps, r') \<Rightarrow> rbind (conversation C r' s' ts) (\<lambda>pss. Inr (ps # pss))))"

lemma known_keeps:
  assumes "known U r" and "keeps pk r r'" and "rt_dhrPublic r' = Some pk" and "pk \<in> U"
  shows "known U r'"
  unfolding known_def
proof (intro conjI allI impI)
  fix q assume "rt_dhrPublic r' = Some q"
  then show "q \<in> U" using assms(3,4) by simp
next
  fix q j assume q: "map_of (rt_skipped r') (skippedKey q j) \<noteq> None"
  show "q \<in> U"
  proof (cases "q = pk")
    case False
    with q assms(1,2) show ?thesis unfolding known_def keeps_def by metis
  qed (use assms(4) in simp)
qed

lemma turn_works:
  assumes ok: "crypto_ok C" and lk: "linked C s r" and U: "known U r" "known U s" "rt_dhsPublic s \<notin> U"
    and t: "turn_ok t"
  shows "\<exists>sent s' r'. encrypt_all C s (tn_messages t) = (Inr sent, s') \<and>
    decrypt_all C (tn_next t) r (delivered t sent) = (Inr (expected t), r') \<and> linked C r' s' \<and>
    known (insert (rt_dhsPublic s) U) r' \<and> known (insert (rt_dhsPublic s) U) s' \<and>
    rt_dhsPublic r' = cr_public C (tn_next t)"
proof -
  let ?ms = "tn_messages t" and ?pk = "rt_dhsPublic s"
  obtain ck where ck: "rt_sendingChainKey s = Some ck" and ns: "rt_ns s = 0"
    using lk by (auto simp: linked_def)
  let ?sent = "map (\<lambda>(i, p, ad). sealed C ?pk ck (rt_pn s) i p ad) (zip [0..<length ?ms] ?ms)"
  let ?s = "s\<lparr>rt_sendingChainKey := Some (chain_key C ck (length ?ms)), rt_ns := length ?ms\<rparr>"
  have enc: "encrypt_all C s ?ms = (Inr ?sent, ?s)"
    using encrypt_all_sealed[of s C ck ?ms] ck ns by simp
  from first_message[OF ok lk ck U(1,3), of "tn_next t"] obtain r1 d ck2 where
      fm: "\<And>h c ad. rh_dhPublic h = ?pk \<Longrightarrow> rh_pn h = rt_pn s \<Longrightarrow>
        ratchetDecrypt C (tn_next t) r h c ad = ratchetDecrypt C (tn_next t) r1 h c ad"
    and r1: "receiving C ?pk ck {} r1" "known (insert ?pk U) r1" "rt_dhsSecret r1 = tn_next t"
      "rt_dhsPublic r1 = cr_public C (tn_next t)" "rt_ns r1 = 0" "rt_pn r1 = rt_ns r"
      "cr_shared C (tn_next t) ?pk = Some d" "rt_sendingChainKey r1 = Some ck2"
      "kdfRoot C (rt_rootKey s) d = (rt_rootKey r1, ck2)"
    by blast
  let ?wire = "\<lambda>i. let (h, c) = sealed C ?pk ck (rt_pn s) i (fst (?ms ! i)) (snd (?ms ! i)) in (h, c, snd (?ms ! i))"
  have "delivered t ?sent = map ?wire (tn_order t)"
    using t by (auto simp: delivered_def turn_ok_def list_all_iff case_prod_beta)
  moreover obtain i rest where order: "tn_order t = i # rest" using t by (cases "tn_order t") (auto simp: turn_ok_def)
  ultimately have del: "decrypt_all C (tn_next t) r (delivered t ?sent) =
      decrypt_all C (tn_next t) r1 (map ?wire (tn_order t))"
    using fm by (simp add: sealed_def Let_def)
  have "list_all (\<lambda>i. i \<notin> {} \<and> i \<le> MAX_SKIP) (tn_order t)"
    using t by (auto simp: turn_ok_def list_all_iff)
  from decrypt_all_on_chain[OF ok r1(1) _ this, of "tn_next t" "rt_pn s" "\<lambda>i. fst (?ms ! i)" "\<lambda>i. snd (?ms ! i)"] t
  obtain r' where r': "decrypt_all C (tn_next t) r1 (map ?wire (tn_order t)) = (Inr (expected t), r')"
      "receiving C ?pk ck (set (tn_order t)) r'" "keeps ?pk r1 r'"
    by (auto simp: turn_ok_def expected_def)
  note K = r'(3)[unfolded keeps_def]
  have pub: "?pk = cr_public C (rt_dhsSecret s)" using lk by (simp add: linked_def)
  have "cr_shared C (rt_dhsSecret ?s) (rt_dhsPublic r') = Some d"
    using K r1(3,4,7) crypto_okD(1)[OF ok, of "rt_dhsSecret s" "tn_next t"] pub by simp
  moreover have "kdfRoot C (rt_rootKey ?s) d = (rt_rootKey r', ck2)" using K r1(9) by simp
  moreover have "length ?ms \<le> MAX_SKIP" using t by (simp add: turn_ok_def)
  ultimately have "linked C r' ?s"
    using K r1 lk r'(2) by (auto simp: linked_def receiving_def)
  moreover have "known (insert ?pk U) r'"
    using known_keeps[OF r1(2) r'(3)] r'(2) by (simp add: receiving_def)
  moreover have "known (insert ?pk U) ?s" using U(2) by (simp add: known_def)
  ultimately show ?thesis
    using enc del r'(1) K r1(4) by (intro exI[of _ ?sent] exI[of _ ?s] exI[of _ r']) simp
qed

lemma conversation_works:
  assumes "crypto_ok C" and "linked C s r" and "known U r" and "known U s"
    and "distinct (rt_dhsPublic s # map (\<lambda>t. cr_public C (tn_next t)) ts)"
    and "set (rt_dhsPublic s # map (\<lambda>t. cr_public C (tn_next t)) ts) \<inter> U = {}" and "list_all turn_ok ts"
  shows "conversation C s r ts = Inr (map expected ts)"
  using assms
proof (induction ts arbitrary: s r U)
  case (Cons t ts)
  from turn_works[OF Cons.prems(1-4), of t] Cons.prems(6,7) obtain sent s' r' where
    w: "encrypt_all C s (tn_messages t) = (Inr sent, s')"
      "decrypt_all C (tn_next t) r (delivered t sent) = (Inr (expected t), r')" "linked C r' s'"
      "known (insert (rt_dhsPublic s) U) r'" "known (insert (rt_dhsPublic s) U) s'"
      "rt_dhsPublic r' = cr_public C (tn_next t)" by auto
  have "conversation C r' s' ts = Inr (map expected ts)"
    by (rule Cons.IH[OF Cons.prems(1) w(3,5,4)]) (use Cons.prems(5-7) w(6) in auto)
  with w show ?case by simp
qed simp

lemma initiated_linked:
  assumes "crypto_ok C" and "initRatchetInitiator C a sharedKey (cr_public C b) = Inr s"
  shows "linked C s (initRatchetResponder sharedKey b (cr_public C b))"
    and "rt_dhsPublic s = cr_public C a" and "known {cr_public C b} s"
    and "known {cr_public C b} (initRatchetResponder sharedKey b (cr_public C b))"
  using assms(2) crypto_okD(1)[OF assms(1), of a b]
  by (auto simp: initRatchetInitiator_def initRatchetResponder_def linked_def known_def
      split: option.splits prod.splits)

section \<open>Property\<close>


text \<open>Primitives that satisfy the laws, for the witnesses.\<close>

definition sum_bytes :: "bytes \<Rightarrow> 8 word" where
  "sum_bytes b = fold (+) b 0"

definition pad32 :: "bytes \<Rightarrow> bytes" where
  "pad32 b = take 32 (b @ replicate 32 0)"

lemma pad32 [simp]: "length (pad32 b) = 32" "pad32 (pad32 b) = pad32 b"
  by (simp_all add: pad32_def)

definition sample_open :: "bytes \<Rightarrow> bytes \<Rightarrow> bytes \<Rightarrow> bytes \<Rightarrow> bytes option" where
  "sample_open k n ad c =
    (let m = length c - length (k @ ad) in if drop m c = k @ ad then Some (take m c) else None)"

definition sample_crypto :: crypto where
  "sample_crypto =
    \<lparr>cr_public = pad32,
     cr_shared = (\<lambda>a b. Some (map2 (+) (pad32 a) (pad32 b))),
     cr_hkdf = (\<lambda>ikm salt info len. take len (ikm @ salt @ replicate len 0)),
     cr_hmac = (\<lambda>k d. map ((+) (sum_bytes d)) k),
     cr_seal = (\<lambda>k n ad p. p @ k @ ad), cr_open = sample_open,
     cr_sign = (\<lambda>a p. pad32 a @ pad32 p), cr_identity = pad32,
     cr_verify = (\<lambda>a p g. g = a @ pad32 p)\<rparr>"

lemma sample_crypto_ok: "crypto_ok sample_crypto"
proof -
  have comm: "map2 (+) x y = map2 (+) y x" for x y :: bytes
    by (induction x y rule: list_induct2') (auto simp: add.commute)
  show ?thesis
    by (auto simp: crypto_ok_def sample_crypto_def sample_open_def Let_def comm)
qed

definition sample_turns :: "turn list" where
  "sample_turns =
    [\<lparr>tn_messages = [([1, 2], [9]), ([3], [9]), ([4, 5], [8])], tn_order = [2, 0], tn_next = [3]\<rparr>,
     \<lparr>tn_messages = [([7], [])], tn_order = [0], tn_next = [4]\<rparr>,
     \<lparr>tn_messages = [([6], [1]), ([5], [2])], tn_order = [1, 0], tn_next = [5]\<rparr>]"


end
