(* ===== verification/E2ee_Session.thy ===== *)
theory E2ee_Session
  imports E2ee_Protocol
begin

text \<open>
  \<open>packages/e2ee/src/keys.ts\<close>, \<open>x3dh.ts\<close> and \<open>envelope.ts\<close>: published keys, the X3DH
  handshake that gives two devices a shared key, and the signed envelope that carries a ratchet
  message. Secrets drawn by \<open>keygen\<close> are arguments.
\<close>

section \<open>keys.ts\<close>

record identity_keys =
  ik_ed25519Secret :: bytes
  ik_ed25519Public :: bytes
  ik_x25519Secret :: bytes
  ik_x25519Public :: bytes

record signed_prekey =
  sp_keyId :: nat
  sp_secret :: bytes
  sp_publicKey :: bytes
  sp_signature :: bytes

record one_time_prekey =
  op_keyId :: nat
  op_secret :: bytes
  op_publicKey :: bytes

record public_bundle =
  pb_deviceId :: string
  pb_identityEd25519Public :: string
  pb_identityX25519Public :: string
  pb_signedPrekeyId :: nat
  pb_signedPrekeyPublic :: string
  pb_signedPrekeySignature :: string
  pb_oneTimePrekeyId :: "nat option"
  pb_oneTimePrekeyPublic :: "string option"

definition generateIdentity :: "crypto \<Rightarrow> bytes \<Rightarrow> bytes \<Rightarrow> identity_keys" where
  "generateIdentity C ed x =
    \<lparr>ik_ed25519Secret = ed, ik_ed25519Public = cr_identity C ed,
     ik_x25519Secret = x, ik_x25519Public = cr_public C x\<rparr>"

definition signedPrekeyMessage :: "nat \<Rightarrow> bytes \<Rightarrow> bytes" where
  "signedPrekeyMessage keyId publicKey =
    utf8 (''VimlaSignedPreKeyV1:'' @ decimal_of_nat keyId @ '':'' @ bytesToB64 publicKey)"

definition generateSignedPreKey :: "crypto \<Rightarrow> bytes \<Rightarrow> identity_keys \<Rightarrow> nat \<Rightarrow> signed_prekey" where
  "generateSignedPreKey C secret identity keyId =
    \<lparr>sp_keyId = keyId, sp_secret = secret, sp_publicKey = cr_public C secret,
     sp_signature = cr_sign C (ik_ed25519Secret identity) (signedPrekeyMessage keyId (cr_public C secret))\<rparr>"

definition generateOneTimePreKey :: "crypto \<Rightarrow> bytes \<Rightarrow> nat \<Rightarrow> one_time_prekey" where
  "generateOneTimePreKey C secret keyId =
    \<lparr>op_keyId = keyId, op_secret = secret, op_publicKey = cr_public C secret\<rparr>"

definition verifySignedPreKey :: "crypto \<Rightarrow> bytes \<Rightarrow> nat \<Rightarrow> bytes \<Rightarrow> bytes \<Rightarrow> bool" where
  "verifySignedPreKey C identityPublic keyId signedPublic signature =
    cr_verify C identityPublic (signedPrekeyMessage keyId signedPublic) signature"

definition signDirectMessage :: "crypto \<Rightarrow> bytes \<Rightarrow> bytes \<Rightarrow> bytes" where
  "signDirectMessage C secret payload = cr_sign C secret payload"

definition verifyDirectMessage :: "crypto \<Rightarrow> bytes \<Rightarrow> bytes \<Rightarrow> bytes \<Rightarrow> bool" where
  "verifyDirectMessage C publicKey payload signature = cr_verify C publicKey payload signature"

definition dh :: "crypto \<Rightarrow> bytes \<Rightarrow> bytes \<Rightarrow> e2ee_error + bytes" where
  "dh C secret publicKey = the_row KEY_AGREEMENT_FAILED (cr_shared C secret publicKey)"

definition publicBundleFrom ::
    "string \<Rightarrow> identity_keys \<Rightarrow> signed_prekey \<Rightarrow> one_time_prekey option \<Rightarrow> public_bundle" where
  "publicBundleFrom deviceId identity prekey oneTime =
    \<lparr>pb_deviceId = deviceId, pb_identityEd25519Public = bytesToB64 (ik_ed25519Public identity),
     pb_identityX25519Public = bytesToB64 (ik_x25519Public identity),
     pb_signedPrekeyId = sp_keyId prekey, pb_signedPrekeyPublic = bytesToB64 (sp_publicKey prekey),
     pb_signedPrekeySignature = bytesToB64 (sp_signature prekey),
     pb_oneTimePrekeyId = map_option op_keyId oneTime,
     pb_oneTimePrekeyPublic = map_option (\<lambda>k. bytesToB64 (op_publicKey k)) oneTime\<rparr>"

definition decodeFixed :: "string \<Rightarrow> nat \<Rightarrow> e2ee_error + bytes" where
  "decodeFixed value len = rbind (read_bytes value) (\<lambda>bytes.
    if length bytes \<noteq> len then Inl INVALID_KEY_LENGTH else Inr bytes)"

definition decodePublicKey :: "string \<Rightarrow> e2ee_error + bytes" where
  "decodePublicKey value = rbind (read_bytes value) (\<lambda>bytes.
    if length bytes \<noteq> 32 then Inl INVALID_KEY_LENGTH else Inr bytes)"

section \<open>x3dh.ts\<close>

record x3dh_header =
  xh_identityEd25519Public :: string
  xh_identityX25519Public :: string
  xh_ephemeralPublic :: string
  xh_signedPrekeyId :: nat
  xh_oneTimePrekeyId :: "nat option"

record x3dh_initiation =
  xi_sharedKey :: bytes
  xi_associatedData :: bytes
  xi_initHeader :: x3dh_header
  xi_remoteRatchetPublic :: bytes

definition x3dhInitiate ::
    "crypto \<Rightarrow> bytes \<Rightarrow> identity_keys \<Rightarrow> public_bundle \<Rightarrow> e2ee_error + x3dh_initiation" where
  "x3dhInitiate C ephemeral local remote =
    rbind (decodePublicKey (pb_identityEd25519Public remote)) (\<lambda>remoteIdentityEd.
    rbind (decodePublicKey (pb_identityX25519Public remote)) (\<lambda>remoteIdentityX.
    rbind (decodePublicKey (pb_signedPrekeyPublic remote)) (\<lambda>remoteSigned.
    rbind (decodeFixed (pb_signedPrekeySignature remote) 64) (\<lambda>signature.
    if \<not> verifySignedPreKey C remoteIdentityEd (pb_signedPrekeyId remote) remoteSigned signature
    then Inl PREKEY_NOT_VERIFIED
    else
      rbind (dh C (ik_x25519Secret local) remoteSigned) (\<lambda>dh1.
      rbind (dh C ephemeral remoteIdentityX) (\<lambda>dh2.
      rbind (dh C ephemeral remoteSigned) (\<lambda>dh3.
      rbind (if truthy_str (pb_oneTimePrekeyPublic remote)
             then rbind (decodePublicKey (the (pb_oneTimePrekeyPublic remote))) (\<lambda>otk.
               rbind (dh C ephemeral otk) (\<lambda>dh4. Inr [dh1, dh2, dh3, dh4]))
             else Inr [dh1, dh2, dh3]) (\<lambda>parts.
      Inr \<lparr>xi_sharedKey = hkdfSha256 C (concatBytes parts) ''VimlaX3DH'' 32 ZERO_SALT,
        xi_associatedData = concatBytes [ik_ed25519Public local, remoteIdentityEd],
        xi_initHeader = \<lparr>xh_identityEd25519Public = bytesToB64 (ik_ed25519Public local),
          xh_identityX25519Public = bytesToB64 (ik_x25519Public local),
          xh_ephemeralPublic = bytesToB64 (cr_public C ephemeral),
          xh_signedPrekeyId = pb_signedPrekeyId remote, xh_oneTimePrekeyId = pb_oneTimePrekeyId remote\<rparr>,
        xi_remoteRatchetPublic = remoteSigned\<rparr>))))))))"

definition x3dhRespond ::
    "crypto \<Rightarrow> identity_keys \<Rightarrow> bytes \<Rightarrow> bytes option \<Rightarrow> x3dh_header \<Rightarrow> e2ee_error + bytes \<times> bytes" where
  "x3dhRespond C local signedPrekeySecret oneTimeSecret init =
    rbind (decodePublicKey (xh_identityEd25519Public init)) (\<lambda>remoteIdentityEd.
    rbind (decodePublicKey (xh_identityX25519Public init)) (\<lambda>remoteIdentityX.
    rbind (decodePublicKey (xh_ephemeralPublic init)) (\<lambda>ephemeral.
    rbind (dh C signedPrekeySecret remoteIdentityX) (\<lambda>dh1.
    rbind (dh C (ik_x25519Secret local) ephemeral) (\<lambda>dh2.
    rbind (dh C signedPrekeySecret ephemeral) (\<lambda>dh3.
    rbind (case oneTimeSecret of
             None \<Rightarrow> Inr [dh1, dh2, dh3]
           | Some secret \<Rightarrow> rbind (dh C secret ephemeral) (\<lambda>dh4. Inr [dh1, dh2, dh3, dh4])) (\<lambda>parts.
    Inr (hkdfSha256 C (concatBytes parts) ''VimlaX3DH'' 32 ZERO_SALT,
      concatBytes [remoteIdentityEd, ik_ed25519Public local]))))))))"

section \<open>envelope.ts\<close>

datatype message_kind = HUMAN | OPERATOR_INVOKE | OPERATOR_RESPONSE | OPERATOR_ACTION

definition message_kind_name :: "message_kind \<Rightarrow> string" where
  "message_kind_name k = (case k of HUMAN \<Rightarrow> ''HUMAN'' | OPERATOR_INVOKE \<Rightarrow> ''OPERATOR_INVOKE''
     | OPERATOR_RESPONSE \<Rightarrow> ''OPERATOR_RESPONSE'' | OPERATOR_ACTION \<Rightarrow> ''OPERATOR_ACTION'')"

record envelope_ad =
  ea_conversationId :: string
  ea_senderUserId :: string
  ea_senderDeviceId :: string
  ea_clientMessageId :: string
  ea_contentCommitmentB64 :: "string option"
  ea_recipientDeviceId :: string
  ea_kind :: message_kind
  ea_interactionEpoch :: int
  ea_routingContext :: "string option"

record wire_envelope =
  we_headerB64 :: string
  we_ciphertextB64 :: string
  we_dhPublicB64 :: string
  we_messageNumber :: nat
  we_previousChainLength :: nat
  we_senderSignatureB64 :: string
  we_x3dhInit :: "x3dh_header option"

definition string_or_null :: "string option \<Rightarrow> json" where
  "string_or_null s = (case s of None \<Rightarrow> JNull | Some t \<Rightarrow> JStr t)"

definition buildAssociatedData :: "envelope_ad \<Rightarrow> bytes" where
  "buildAssociatedData ad = utf8 (js_stringify (JArr
    [JStr ''VimlaDirectAD5'', JStr (ea_conversationId ad), JStr (ea_senderUserId ad),
     JStr (ea_senderDeviceId ad), JStr (ea_clientMessageId ad),
     string_or_null (ea_contentCommitmentB64 ad), JStr (ea_recipientDeviceId ad),
     JStr (message_kind_name (ea_kind ad)), JNum (ea_interactionEpoch ad),
     string_or_null (ea_routingContext ad)]))"

definition x3dh_json :: "x3dh_header \<Rightarrow> json" where
  "x3dh_json h = JObj
    [(''identityEd25519Public'', JStr (xh_identityEd25519Public h)),
     (''identityX25519Public'', JStr (xh_identityX25519Public h)),
     (''ephemeralPublic'', JStr (xh_ephemeralPublic h)),
     (''signedPrekeyId'', JNum (int (xh_signedPrekeyId h))),
     (''oneTimePrekeyId'', case xh_oneTimePrekeyId h of None \<Rightarrow> JNull | Some n \<Rightarrow> JNum (int n))]"

definition signaturePayload :: "bytes \<Rightarrow> bytes \<Rightarrow> bytes \<Rightarrow> x3dh_header option \<Rightarrow> bytes" where
  "signaturePayload header ciphertext associatedData x3dhInit =
    concatBytes [utf8 ''VimlaDirectV1'', header, ciphertext, associatedData,
      utf8 (case x3dhInit of None \<Rightarrow> [] | Some h \<Rightarrow> js_stringify (x3dh_json h))]"

definition encryptEnvelope ::
    "crypto \<Rightarrow> identity_keys \<Rightarrow> ratchet_state \<Rightarrow> bytes \<Rightarrow> envelope_ad \<Rightarrow> x3dh_header option \<Rightarrow>
      (e2ee_error + wire_envelope) \<times> ratchet_state" where
  "encryptEnvelope C identity st plaintext ad x3dhInit =
    (let associated = buildAssociatedData ad in
     sbind (ratchetEncrypt C st plaintext associated) (\<lambda>(header, ciphertext) st.
     let headerBytes = encodeHeader header;
         signature = signDirectMessage C (ik_ed25519Secret identity)
           (signaturePayload headerBytes ciphertext associated x3dhInit)
     in (Inr \<lparr>we_headerB64 = bytesToB64 headerBytes, we_ciphertextB64 = bytesToB64 ciphertext,
           we_dhPublicB64 = bytesToB64 (rh_dhPublic header), we_messageNumber = rh_n header,
           we_previousChainLength = rh_pn header, we_senderSignatureB64 = bytesToB64 signature,
           we_x3dhInit = x3dhInit\<rparr>, st)))"

definition lift_res :: "'e + 'a \<Rightarrow> 's \<Rightarrow> ('e + 'a) \<times> 's" where
  "lift_res m st = (m, st)"

definition decryptEnvelope ::
    "crypto \<Rightarrow> bytes \<Rightarrow> bytes \<Rightarrow> ratchet_state \<Rightarrow> wire_envelope \<Rightarrow> envelope_ad \<Rightarrow>
      (e2ee_error + bytes) \<times> ratchet_state" where
  "decryptEnvelope C next senderPublic st envelope ad =
    sbind (lift_res (read_bytes (we_headerB64 envelope)) st) (\<lambda>headerBytes st.
    sbind (lift_res (read_bytes (we_ciphertextB64 envelope)) st) (\<lambda>ciphertext st.
    let associated = buildAssociatedData ad in
    sbind (lift_res (read_bytes (we_senderSignatureB64 envelope)) st) (\<lambda>signature st.
    if \<not> verifyDirectMessage C senderPublic
        (signaturePayload headerBytes ciphertext associated (we_x3dhInit envelope)) signature
    then (Inl INVALID_SIGNATURE, st)
    else
      sbind (lift_res (decodeHeader headerBytes) st) (\<lambda>header st.
      ratchetDecrypt C next st header ciphertext associated))))"

section \<open>Lemmas\<close>

lemma read_bytes_b64 [simp]: "read_bytes (bytesToB64 b) = Inr b"
  by (simp add: read_bytes_def)

lemma decode_keys [simp]:
  "length b = 32 \<Longrightarrow> decodePublicKey (bytesToB64 b) = Inr b"
  "length b = n \<Longrightarrow> decodeFixed (bytesToB64 b) n = Inr b"
  by (simp_all add: decodePublicKey_def decodeFixed_def)

lemma dh_agrees: "crypto_ok C \<Longrightarrow> dh C a (cr_public C b) = dh C b (cr_public C a)"
  by (simp add: dh_def crypto_okD(1)[of C a b])

lemma dh_defined: "crypto_ok C \<Longrightarrow> \<exists>d. dh C a (cr_public C b) = Inr d"
  using crypto_okD(2)[of C a b] by (auto simp: dh_def)

text \<open>A header on the wire.\<close>

definition header_ok :: "ratchet_header \<Rightarrow> bool" where
  "header_ok h \<longleftrightarrow> length (rh_dhPublic h) = 32 \<and> rh_n h < 2 ^ 32 \<and> rh_pn h < 2 ^ 32"

lemma header_roundtrip: "header_ok h \<Longrightarrow> decodeHeader (encodeHeader h) = Inr h"
  by (simp add: header_ok_def decodeHeader_def encodeHeader_def concatBytes_def readU32be_u32be)

text \<open>The stored form of a state.\<close>

lemma update_new: "k \<notin> fst ` set m \<Longrightarrow> AList.update k v m = m @ [(k, v)]"
  by (induction m) auto

lemma serialize_skipped:
  "distinct (map fst (al @ xs)) \<Longrightarrow>
    fold (\<lambda>(key, value) m. AList.update key (bytesToB64 value) m) xs (map (map_prod id bytesToB64) al) =
      map (map_prod id bytesToB64) (al @ xs)"
proof (induction xs arbitrary: al)
  case (Cons x xs)
  obtain k b where x: "x = (k, b)" by (cases x)
  from Cons.prems have "AList.update k (bytesToB64 b) (map (map_prod id bytesToB64) al) =
      map (map_prod id bytesToB64) (al @ [x])"
    by (simp add: x update_new image_image)
  with Cons.IH[of "al @ [x]"] Cons.prems show ?case by (simp add: x id_def)
qed simp

lemma deserialize_skipped:
  "distinct (map fst (al @ xs)) \<Longrightarrow>
    fold_res (\<lambda>(key, value) m. rbind (read_bytes value) (\<lambda>b. Inr (AList.update key b m)))
      (map (map_prod id bytesToB64) xs) al = Inr (al @ xs)"
proof (induction xs arbitrary: al)
  case (Cons x xs)
  obtain k b where x: "x = (k, b)" by (cases x)
  from Cons.prems have "AList.update k b al = al @ [x]" by (simp add: x update_new)
  with Cons.IH[of "al @ [x]"] Cons.prems show ?case by (simp add: x)
qed simp

lemma read_optional_b64: "k \<noteq> Some [] \<Longrightarrow> read_optional (map_option bytesToB64 k) = Inr k"
  by (cases k) (auto simp: read_optional_def truthy_str_def)

lemma ratchet_storage:
  assumes "distinct (map fst (rt_skipped st))" and "rt_dhrPublic st \<noteq> Some []"
    and "rt_sendingChainKey st \<noteq> Some []" and "rt_receivingChainKey st \<noteq> Some []"
  shows "deserializeRatchet (serializeRatchet st) = Inr st"
  using serialize_skipped[of "[]" "rt_skipped st"] deserialize_skipped[of "[]" "rt_skipped st"] assms
  by (simp add: deserializeRatchet_def serializeRatchet_def read_optional_b64)

text \<open>An envelope carries its ratchet message unchanged.\<close>

definition envelope_of ::
    "crypto \<Rightarrow> identity_keys \<Rightarrow> x3dh_header option \<Rightarrow> ratchet_header \<times> bytes \<Rightarrow> envelope_ad \<Rightarrow> wire_envelope" where
  "envelope_of C identity x m ad =
    \<lparr>we_headerB64 = bytesToB64 (encodeHeader (fst m)), we_ciphertextB64 = bytesToB64 (snd m),
     we_dhPublicB64 = bytesToB64 (rh_dhPublic (fst m)), we_messageNumber = rh_n (fst m),
     we_previousChainLength = rh_pn (fst m),
     we_senderSignatureB64 = bytesToB64 (signDirectMessage C (ik_ed25519Secret identity)
       (signaturePayload (encodeHeader (fst m)) (snd m) (buildAssociatedData ad) x)),
     we_x3dhInit = x\<rparr>"

lemma encryptEnvelope_of:
  "encryptEnvelope C identity st p ad x =
    sbind (ratchetEncrypt C st p (buildAssociatedData ad)) (\<lambda>m st. (Inr (envelope_of C identity x m ad), st))"
  by (simp add: encryptEnvelope_def envelope_of_def sbind_def Let_def split: prod.splits sum.splits)

lemma decryptEnvelope_of:
  assumes "crypto_ok C" and "header_ok (fst m)" and "identity = generateIdentity C ed xs"
  shows "decryptEnvelope C next (ik_ed25519Public identity) st (envelope_of C identity x m ad) ad =
    ratchetDecrypt C next st (fst m) (snd m) (buildAssociatedData ad)"
  using assms crypto_okD(4)[OF assms(1)]
  by (simp add: decryptEnvelope_def envelope_of_def lift_res_def header_roundtrip verifyDirectMessage_def
      signDirectMessage_def generateIdentity_def)

lemma x3dh_agrees:
  assumes "crypto_ok C" and "local = generateIdentity C ed1 x1" and "remote = generateIdentity C ed2 x2"
    and "prekey = generateSignedPreKey C s remote keyId"
    and "oneTime = map_option (\<lambda>(secret, n). generateOneTimePreKey C secret n) otk"
  shows "\<exists>i. x3dhInitiate C e local (publicBundleFrom device remote prekey oneTime) = Inr i \<and>
    x3dhRespond C remote (sp_secret prekey) (map_option op_secret oneTime) (xi_initHeader i) =
      Inr (xi_sharedKey i, xi_associatedData i) \<and>
    xi_remoteRatchetPublic i = sp_publicKey prekey \<and>
    xh_oneTimePrekeyId (xi_initHeader i) = map_option op_keyId oneTime"
proof -
  note ok = assms(1)
  have len: "length (cr_public C a) = 32" "length (cr_identity C a) = 32" "length (cr_sign C a p) = 64" for a p
    using crypto_okD(5-7)[OF ok] by auto
  obtain d1 d2 d3 where d: "dh C x1 (cr_public C s) = Inr d1" "dh C e (cr_public C x2) = Inr d2"
      "dh C e (cr_public C s) = Inr d3" using dh_defined[OF ok] by metis
  then have d': "dh C s (cr_public C x1) = Inr d1" "dh C x2 (cr_public C e) = Inr d2"
      "dh C s (cr_public C e) = Inr d3" using dh_agrees[OF ok] by metis+
  have nonempty: "cr_public C k \<noteq> []" for k using len(1)[of k] by auto
  show ?thesis
  proof (cases otk)
    case None
    with assms(2-5) d d' len crypto_okD(4)[OF ok] show ?thesis
      by (simp add: x3dhInitiate_def x3dhRespond_def publicBundleFrom_def generateIdentity_def
          generateSignedPreKey_def verifySignedPreKey_def truthy_str_def)
  next
    case (Some k)
    obtain secret n where k: "k = (secret, n)" by (cases k)
    obtain d4 where d4: "dh C e (cr_public C secret) = Inr d4" using dh_defined[OF ok] by metis
    then have "dh C secret (cr_public C e) = Inr d4" using dh_agrees[OF ok] by metis
    with assms(2-5) d d' d4 len crypto_okD(4)[OF ok] Some k nonempty show ?thesis
      by (simp add: x3dhInitiate_def x3dhRespond_def publicBundleFrom_def generateIdentity_def
          generateSignedPreKey_def generateOneTimePreKey_def verifySignedPreKey_def truthy_str_def)
  qed
qed

text \<open>Envelopes in sequence.\<close>

fun encrypt_envelopes ::
    "crypto \<Rightarrow> identity_keys \<Rightarrow> x3dh_header option \<Rightarrow> ratchet_state \<Rightarrow> (bytes \<times> envelope_ad) list \<Rightarrow>
      (e2ee_error + wire_envelope list) \<times> ratchet_state" where
  "encrypt_envelopes C identity x st [] = (Inr [], st)"
| "encrypt_envelopes C identity x st ((p, ad) # ms) =
    sbind (encryptEnvelope C identity st p ad x) (\<lambda>m st.
    sbind (encrypt_envelopes C identity x st ms) (\<lambda>rest st. (Inr (m # rest), st)))"

fun decrypt_envelopes ::
    "crypto \<Rightarrow> bytes \<Rightarrow> bytes \<Rightarrow> ratchet_state \<Rightarrow> (wire_envelope \<times> envelope_ad) list \<Rightarrow>
      (e2ee_error + bytes list) \<times> ratchet_state" where
  "decrypt_envelopes C next pk st [] = (Inr [], st)"
| "decrypt_envelopes C next pk st ((m, ad) # ms) =
    sbind (decryptEnvelope C next pk st m ad) (\<lambda>p st.
    sbind (decrypt_envelopes C next pk st ms) (\<lambda>rest st. (Inr (p # rest), st)))"

lemma encrypt_envelopes_of:
  assumes "encrypt_all C st (map (\<lambda>(p, ad). (p, buildAssociatedData ad)) ms) = (Inr sent, st')"
  shows "length sent = length ms \<and> encrypt_envelopes C identity x st ms =
    (Inr (map2 (\<lambda>m (_, ad). envelope_of C identity x m ad) sent ms), st')"
  using assms
proof (induction ms arbitrary: st sent)
  case (Cons m ms)
  obtain p ad where m: "m = (p, ad)" by (cases m)
  from Cons.prems obtain w st1 rest where r: "ratchetEncrypt C st p (buildAssociatedData ad) = (Inr w, st1)"
      "encrypt_all C st1 (map (\<lambda>(p, ad). (p, buildAssociatedData ad)) ms) = (Inr rest, st')" "sent = w # rest"
    by (auto simp: m sbind_def split: prod.splits sum.splits)
  from Cons.IH[OF r(2)] r show ?case by (simp add: m encryptEnvelope_of)
qed simp

lemma decrypt_envelopes_of:
  assumes "crypto_ok C" and "list_all (\<lambda>(m, _). header_ok (fst m)) ms" and "identity = generateIdentity C ed xs"
  shows "decrypt_envelopes C next (ik_ed25519Public identity) st
      (map (\<lambda>(m, ad). (envelope_of C identity x m ad, ad)) ms) =
    decrypt_all C next st (map (\<lambda>((h, c), ad). (h, c, buildAssociatedData ad)) ms)"
  using assms(2)
proof (induction ms arbitrary: st)
  case (Cons m ms)
  obtain h c ad where m: "m = ((h, c), ad)" by (cases m) auto
  show ?case
    using decryptEnvelope_of[OF assms(1) _ assms(3), of "(h, c)"] Cons
    by (simp add: m sbind_def split: prod.splits sum.splits)
qed simp

lemma initiated_headers:
  assumes "crypto_ok C" and "initRatchetInitiator C a sharedKey (cr_public C b) = Inr st"
    and "encrypt_all C st ms = (Inr sent, st')" and "k < length ms" and "length ms \<le> MAX_SKIP"
  shows "header_ok (fst (sent ! k))"
proof -
  obtain ck where st: "rt_sendingChainKey st = Some ck" "rt_ns st = 0" "rt_pn st = 0"
      "rt_dhsPublic st = cr_public C a"
    using assms(2) by (auto simp: initRatchetInitiator_def split: option.splits prod.splits)
  have "k < 2 ^ 32" using assms(4,5) by (simp add: MAX_SKIP_def)
  with st assms(3,4) encrypt_all_sealed[of st C ck ms] crypto_okD(5)[OF assms(1)]
  show ?thesis by (auto simp: header_ok_def sealed_def Let_def case_prod_beta)
qed

section \<open>Properties\<close>

text \<open>
  The X3DH handshake. A device that starts from a published bundle and the device that
  answers with the secrets of that bundle derive the same key and the same associated data,
  with and without a one-time prekey.
\<close>

theorem x3dh_agreement:
  assumes "crypto_ok C" and "local = generateIdentity C ed1 x1" and "remote = generateIdentity C ed2 x2"
    and "prekey = generateSignedPreKey C s remote keyId"
    and "oneTime = map_option (\<lambda>(secret, n). generateOneTimePreKey C secret n) otk"
  shows "\<exists>i. x3dhInitiate C e local (publicBundleFrom device remote prekey oneTime) = Inr i \<and>
    x3dhRespond C remote (sp_secret prekey) (map_option op_secret oneTime) (xi_initHeader i) =
      Inr (xi_sharedKey i, xi_associatedData i) \<and>
    xi_remoteRatchetPublic i = sp_publicKey prekey \<and>
    xh_oneTimePrekeyId (xi_initHeader i) = map_option op_keyId oneTime"
  by (rule x3dh_agrees[OF assms])

abbreviation sample_local :: identity_keys where
  "sample_local \<equiv> generateIdentity sample_crypto [11] [12]"

abbreviation sample_remote :: identity_keys where
  "sample_remote \<equiv> generateIdentity sample_crypto [21] [22]"

abbreviation sample_prekey :: signed_prekey where
  "sample_prekey \<equiv> generateSignedPreKey sample_crypto [23] sample_remote 5"

abbreviation sample_otk :: "one_time_prekey option" where
  "sample_otk \<equiv> map_option (\<lambda>(secret, n). generateOneTimePreKey sample_crypto secret n) (Some ([24], 6))"

lemma x3dh_agreement_witness:
  "\<exists>i. x3dhInitiate sample_crypto [13] sample_local
      (publicBundleFrom ''d'' sample_remote sample_prekey sample_otk) = Inr i \<and>
    x3dhRespond sample_crypto sample_remote [23] (Some [24]) (xi_initHeader i) =
      Inr (xi_sharedKey i, xi_associatedData i)"
  using x3dh_agreement[OF sample_crypto_ok refl refl refl refl, of "[13]" "[11]" "[12]" "''d''" "[21]" "[22]" "[23]" 5
      "Some ([24], 6)"]
  by (auto simp: generateSignedPreKey_def generateOneTimePreKey_def)


definition sample_ad :: "string \<Rightarrow> envelope_ad" where
  "sample_ad i = \<lparr>ea_conversationId = ''c'', ea_senderUserId = ''u'', ea_senderDeviceId = ''d'',
    ea_clientMessageId = i, ea_contentCommitmentB64 = None, ea_recipientDeviceId = ''e'',
    ea_kind = HUMAN, ea_interactionEpoch = 1, ea_routingContext = None\<rparr>"


end
