(* ===== verification/Ratchet_Lease.thy ===== *)
theory Ratchet_Lease
  imports Checkout
begin

text \<open>
  The lock that serialises the use of a ratchet between browser tabs: the lease rules of
  \<open>packages/client-core/src/direct-chat-ratchet-coordination.ts\<close> and the IndexedDB
  transactions of \<open>crypto-store.ts\<close> (\<open>apps/web\<close>) that apply them. The object store
  \<open>ratchetLocks\<close> is a map from keys to structured values; a transaction reads, decides
  and writes in one step, and an abort leaves the store as it was. Times are whole milliseconds.
\<close>

section \<open>Lease records\<close>

record lease =
  ls_owner :: string
  ls_expiresAt :: int
  ls_fence :: "int option"
  ls_hardExpiresAt :: "int option"

definition MAX_SAFE_INTEGER :: int where "MAX_SAFE_INTEGER = 9007199254740991"

definition isSafeInteger :: "int \<Rightarrow> bool" where
  "isSafeInteger n \<longleftrightarrow> - MAX_SAFE_INTEGER \<le> n \<and> n \<le> MAX_SAFE_INTEGER"

definition isRecord :: "json \<Rightarrow> bool" where
  "isRecord value = (case value of JObj _ \<Rightarrow> True | _ \<Rightarrow> False)"

definition is_nonempty_string :: "json option \<Rightarrow> bool" where
  "is_nonempty_string j = (case j of Some (JStr s) \<Rightarrow> s \<noteq> [] | _ \<Rightarrow> False)"

definition isRatchetLeaseRecord :: "json \<Rightarrow> bool" where
  "isRatchetLeaseRecord value \<longleftrightarrow>
    isRecord value \<and>
    is_nonempty_string (json_get value ''owner'') \<and>
    as_number (json_get value ''expiresAt'') \<noteq> None \<and>
    (case json_get value ''fence'' of
       None \<Rightarrow> True | Some (JNum n) \<Rightarrow> isSafeInteger n \<and> n \<ge> 0 | _ \<Rightarrow> False) \<and>
    (case json_get value ''hardExpiresAt'' of None \<Rightarrow> True | Some (JNum _) \<Rightarrow> True | _ \<Rightarrow> False)"

text \<open>A record as the store keeps it, and read back once it has been checked.\<close>

definition lease_json :: "lease \<Rightarrow> json" where
  "lease_json r = JObj
    ([(''owner'', JStr (ls_owner r)), (''expiresAt'', JNum (ls_expiresAt r))] @
     (case ls_fence r of None \<Rightarrow> [] | Some n \<Rightarrow> [(''fence'', JNum n)]) @
     (case ls_hardExpiresAt r of None \<Rightarrow> [] | Some n \<Rightarrow> [(''hardExpiresAt'', JNum n)]))"

definition read_lease :: "json \<Rightarrow> lease" where
  "read_lease value =
    \<lparr>ls_owner = (case as_string (json_get value ''owner'') of None \<Rightarrow> [] | Some s \<Rightarrow> s),
     ls_expiresAt = (case as_number (json_get value ''expiresAt'') of None \<Rightarrow> 0 | Some n \<Rightarrow> n),
     ls_fence = as_number (json_get value ''fence''),
     ls_hardExpiresAt = as_number (json_get value ''hardExpiresAt'')\<rparr>"

definition fence_or_zero :: "lease \<Rightarrow> int" where
  "fence_or_zero r = (case ls_fence r of None \<Rightarrow> 0 | Some n \<Rightarrow> n)"

section \<open>Taking, renewing and releasing a lease\<close>

definition canAcquireRatchetLease :: "lease option \<Rightarrow> string \<Rightarrow> int \<Rightarrow> bool" where
  "canAcquireRatchetLease current owner now =
    (case current of None \<Rightarrow> True | Some r \<Rightarrow> ls_owner r = owner \<or> ls_expiresAt r \<le> now)"

definition acquireRatchetLeaseRecord ::
    "lease option \<Rightarrow> string \<Rightarrow> int \<Rightarrow> int \<Rightarrow> int \<Rightarrow> (int \<times> lease) option" where
  "acquireRatchetLeaseRecord current owner now leaseMs maxHoldMs =
    (if leaseMs \<le> 0 \<or> maxHoldMs < leaseMs \<or> \<not> canAcquireRatchetLease current owner now then None
     else
       let currentFence = (case current of None \<Rightarrow> 0 | Some r \<Rightarrow> fence_or_zero r);
           mine = (case current of None \<Rightarrow> False | Some r \<Rightarrow> ls_owner r = owner);
           fence = (if mine then max 1 currentFence else currentFence + 1);
           hardExpiresAt = (case current of
               Some r \<Rightarrow> (case ls_hardExpiresAt r of
                   Some h \<Rightarrow> if mine \<and> h > now then h else now + maxHoldMs
                 | None \<Rightarrow> now + maxHoldMs)
             | None \<Rightarrow> now + maxHoldMs)
       in Some (fence, \<lparr>ls_owner = owner, ls_expiresAt = min (now + leaseMs) hardExpiresAt,
            ls_fence = Some fence, ls_hardExpiresAt = Some hardExpiresAt\<rparr>))"

definition renewRatchetLeaseRecord ::
    "lease option \<Rightarrow> string \<Rightarrow> int \<Rightarrow> int \<Rightarrow> int \<Rightarrow> lease option" where
  "renewRatchetLeaseRecord current owner fence now leaseMs =
    (case current of
       None \<Rightarrow> None
     | Some r \<Rightarrow>
         if ls_owner r \<noteq> owner \<or> fence_or_zero r \<noteq> fence \<or> ls_expiresAt r \<le> now then None
         else
           let hardExpiresAt = (case ls_hardExpiresAt r of None \<Rightarrow> ls_expiresAt r | Some h \<Rightarrow> h) in
           if hardExpiresAt \<le> now then None
           else Some \<lparr>ls_owner = owner, ls_expiresAt = min (now + leaseMs) hardExpiresAt,
              ls_fence = Some fence, ls_hardExpiresAt = Some hardExpiresAt\<rparr>)"

section \<open>The transactions\<close>

definition RATCHET_LOCK_LEASE_MS :: int where "RATCHET_LOCK_LEASE_MS = 5000"

type_synonym lock_store = "string \<rightharpoonup> json"

datatype lock_error = INVALID_LOCK

datatype lock_answer = Acquired "int option" | Renewed bool | Released

text \<open>\<open>mutateRatchetLease\<close>: the decision returns a value and possibly a record to store.\<close>

definition mutateRatchetLease ::
    "string \<Rightarrow> (lease option \<Rightarrow> 'v \<times> lease option) \<Rightarrow> lock_store \<Rightarrow> lock_error + lock_store \<times> 'v" where
  "mutateRatchetLease key decide store =
    (let raw = store key in
     if (case raw of None \<Rightarrow> False | Some j \<Rightarrow> \<not> isRatchetLeaseRecord j) then Inl INVALID_LOCK
     else case decide (map_option read_lease raw) of
         (v, None) \<Rightarrow> Inr (store, v)
       | (v, Some r) \<Rightarrow> Inr (store(key \<mapsto> lease_json r), v))"

definition tryAcquireRatchetLease ::
    "string \<Rightarrow> string \<Rightarrow> int \<Rightarrow> int \<Rightarrow> lock_store \<Rightarrow> lock_error + lock_store \<times> lock_answer" where
  "tryAcquireRatchetLease key owner now maxHoldMs =
    mutateRatchetLease key (\<lambda>current.
      case acquireRatchetLeaseRecord current owner now RATCHET_LOCK_LEASE_MS maxHoldMs of
        None \<Rightarrow> (Acquired None, None)
      | Some (fence, r) \<Rightarrow> (Acquired (Some fence), Some r))"

definition renewRatchetLease ::
    "string \<Rightarrow> string \<Rightarrow> int \<Rightarrow> int \<Rightarrow> lock_store \<Rightarrow> lock_error + lock_store \<times> lock_answer" where
  "renewRatchetLease key owner fence now =
    mutateRatchetLease key (\<lambda>current.
      case renewRatchetLeaseRecord current owner fence now RATCHET_LOCK_LEASE_MS of
        None \<Rightarrow> (Renewed False, None)
      | Some r \<Rightarrow> (Renewed True, Some r))"

definition releaseRatchetLease ::
    "string \<Rightarrow> string \<Rightarrow> int \<Rightarrow> lock_store \<Rightarrow> lock_error + lock_store \<times> lock_answer" where
  "releaseRatchetLease key owner fence store =
    (case store key of
       None \<Rightarrow> Inr (store, Released)
     | Some j \<Rightarrow>
         if \<not> isRatchetLeaseRecord j then Inl INVALID_LOCK
         else if ls_owner (read_lease j) = owner \<and> fence_or_zero (read_lease j) = fence
         then Inr (store(key \<mapsto> lease_json \<lparr>ls_owner = owner, ls_expiresAt = 0, ls_fence = Some fence,
             ls_hardExpiresAt = None\<rparr>), Released)
         else Inr (store, Released))"

text \<open>\<open>assertActiveCoordinationLease\<close>, as a test.\<close>

definition activeCoordinationLease :: "lock_store \<Rightarrow> string \<Rightarrow> string \<Rightarrow> int \<Rightarrow> int \<Rightarrow> bool" where
  "activeCoordinationLease store key owner fence now =
    (case store key of
       None \<Rightarrow> False
     | Some j \<Rightarrow> isRatchetLeaseRecord j \<and>
         (let r = read_lease j in
          ls_owner r = owner \<and> fence_or_zero r = fence \<and> ls_expiresAt r > now \<and>
          (case ls_hardExpiresAt r of None \<Rightarrow> True | Some h \<Rightarrow> h > now)))"

datatype lock_request =
    Acquire string string int int
  | Renew string string int int
  | Release string string int

definition handle_lock :: "lock_request \<Rightarrow> lock_store \<Rightarrow> lock_error + lock_store \<times> lock_answer" where
  "handle_lock request store =
    (case request of
       Acquire key owner now maxHoldMs \<Rightarrow> tryAcquireRatchetLease key owner now maxHoldMs store
     | Renew key owner fence now \<Rightarrow> renewRatchetLease key owner fence now store
     | Release key owner fence \<Rightarrow> releaseRatchetLease key owner fence store)"

section \<open>Lemmas\<close>

lemma read_lease_json [simp]: "read_lease (lease_json r) = r"
  by (cases r) (auto simp: read_lease_def lease_json_def json_get_def as_string_def as_number_def
      split: option.splits)

text \<open>
  A lease is superseded once the store holds a higher fence, or the same fence for another owner;
  a damaged record, which no operation accepts, supersedes everything.
\<close>

definition superseded :: "string \<Rightarrow> string \<Rightarrow> int \<Rightarrow> lock_store \<Rightarrow> bool" where
  "superseded key owner fence store =
    (case store key of
       None \<Rightarrow> False
     | Some j \<Rightarrow> isRatchetLeaseRecord j \<longrightarrow>
         fence < fence_or_zero (read_lease j) \<or>
         (fence = fence_or_zero (read_lease j) \<and> owner \<noteq> ls_owner (read_lease j)))"

lemma superseded_inactive: "superseded key owner fence store \<Longrightarrow> \<not> activeCoordinationLease store key owner fence t"
  by (auto simp: superseded_def activeCoordinationLease_def Let_def split: option.splits)

text \<open>What an operation writes.\<close>

lemma acquire_record:
  assumes "acquireRatchetLeaseRecord current owner now leaseMs maxHoldMs = Some (f, r)"
  shows "ls_owner r = owner" and "ls_fence r = Some f"
    and "current = Some c \<Longrightarrow> ls_owner c \<noteq> owner \<Longrightarrow> ls_expiresAt c \<le> now \<and> f = fence_or_zero c + 1"
    and "current = Some c \<Longrightarrow> fence_or_zero c \<le> f"
  using assms
  by (auto simp: acquireRatchetLeaseRecord_def canAcquireRatchetLease_def Let_def split: if_splits)

lemma renew_record:
  assumes "renewRatchetLeaseRecord (Some c) owner fence now leaseMs = Some r"
  shows "ls_owner r = ls_owner c \<and> fence_or_zero r = fence_or_zero c"
  using assms by (auto simp: renewRatchetLeaseRecord_def fence_or_zero_def Let_def split: if_splits option.splits)

lemma fence_of_Some: "ls_fence r = Some f \<Longrightarrow> fence_or_zero r = f"
  by (simp add: fence_or_zero_def)

lemma superseded_kept:
  assumes "superseded key owner fence store" and "handle_lock i store = Inr (store', v)"
  shows "superseded key owner fence store'"
proof -
  obtain j where j: "store key = Some j" using assms(1) by (auto simp: superseded_def split: option.splits)
  let ?c = "read_lease j"
  have goal: "superseded key owner fence (store(key \<mapsto> lease_json r))"
    if "fence_or_zero ?c < fence_or_zero r \<or> fence_or_zero ?c = fence_or_zero r \<and> ls_owner ?c = ls_owner r"
      "isRatchetLeaseRecord j" for r
    using that assms(1) by (auto simp: superseded_def j)
  have other: "superseded key owner fence (store(k \<mapsto> x))" if "k \<noteq> key" for k x
    using that assms(1) by (simp add: superseded_def)
  show ?thesis
  proof (cases i)
    case (Acquire k o' now maxHold)
    show ?thesis
    proof (cases "k = key")
      case True
      with assms(2) Acquire consider "store' = store" | f r where
          "acquireRatchetLeaseRecord (Some ?c) o' now RATCHET_LOCK_LEASE_MS maxHold = Some (f, r)"
          "store' = store(key \<mapsto> lease_json r)" "isRatchetLeaseRecord j"
        by (auto simp: handle_lock_def tryAcquireRatchetLease_def mutateRatchetLease_def j Let_def
            split: if_splits option.splits prod.splits)
      then show ?thesis
      proof cases
        case 2
        note A = acquire_record[OF 2(1)]
        have "fence_or_zero ?c < fence_or_zero r \<or> fence_or_zero ?c = fence_or_zero r \<and> ls_owner ?c = ls_owner r"
          using A(1,2) A(3)[OF refl] A(4)[OF refl] by (cases "ls_owner ?c = o'") (auto simp: fence_of_Some)
        from goal[OF this 2(3)] 2(2) show ?thesis by simp
      qed (use assms(1) in simp)
    qed (use assms Acquire other in \<open>auto simp: handle_lock_def tryAcquireRatchetLease_def
        mutateRatchetLease_def Let_def split: if_splits option.splits prod.splits\<close>)
  next
    case (Renew k o' f now)
    show ?thesis
    proof (cases "k = key")
      case True
      with assms(2) Renew consider "store' = store" | r where
          "renewRatchetLeaseRecord (Some ?c) o' f now RATCHET_LOCK_LEASE_MS = Some r"
          "store' = store(key \<mapsto> lease_json r)" "isRatchetLeaseRecord j"
        by (auto simp: handle_lock_def renewRatchetLease_def mutateRatchetLease_def j Let_def
            split: if_splits option.splits prod.splits)
      then show ?thesis using goal renew_record assms(1) by cases auto
    qed (use assms Renew other in \<open>auto simp: handle_lock_def renewRatchetLease_def
        mutateRatchetLease_def Let_def split: if_splits option.splits prod.splits\<close>)
  next
    case (Release k o' f)
    show ?thesis
      using assms Release other goal
      by (cases "k = key") (auto simp: handle_lock_def releaseRatchetLease_def j fence_or_zero_def
          split: if_splits option.splits)
  qed
qed

interpretation fence: transactional handle_lock "superseded key owner f" for key owner f
  by unfold_locales (rule superseded_kept)

section \<open>Property\<close>

text \<open>
  C22: the lease is exclusive and fenced. Another owner gets the lock only once the lease that
  is stored has expired, and then with a higher fence; from then on the old lease is never
  accepted again, whatever requests follow from whomever, at whatever times.
\<close>

theorem lease_fenced:
  assumes "activeCoordinationLease store key owner f t"
    and "handle_lock (Acquire key owner' now maxHoldMs) store = Inr (store', Acquired (Some f'))"
    and "owner' \<noteq> owner"
  shows "f < f' \<and> \<not> activeCoordinationLease store key owner f now \<and>
    activeCoordinationLease store' key owner' f' now = (f' \<le> MAX_SAFE_INTEGER \<and> owner' \<noteq> []) \<and>
    \<not> activeCoordinationLease (run_requests handle_lock reqs store') key owner f t'"
proof -
  obtain j where j: "store key = Some j" "isRatchetLeaseRecord j" "ls_owner (read_lease j) = owner"
      "fence_or_zero (read_lease j) = f"
    using assms(1) by (auto simp: activeCoordinationLease_def Let_def split: option.splits)
  from assms(2) obtain r where r:
      "acquireRatchetLeaseRecord (Some (read_lease j)) owner' now RATCHET_LOCK_LEASE_MS maxHoldMs = Some (f', r)"
      "store' = store(key \<mapsto> lease_json r)"
    using j(1,2) by (auto simp: handle_lock_def tryAcquireRatchetLease_def mutateRatchetLease_def
        Let_def split: option.splits)
  note A = acquire_record[OF r(1)]
  have old: "ls_expiresAt (read_lease j) \<le> now \<and> f' = f + 1"
    using A(3)[OF refl] j(3,4) assms(3) by simp
  have f: "0 \<le> f" using j(2,4) by (auto simp: isRatchetLeaseRecord_def fence_or_zero_def read_lease_def
      as_number_def split: option.splits json.splits)
  have live: "now < ls_expiresAt r \<and> ls_hardExpiresAt r \<noteq> None \<and> now < the (ls_hardExpiresAt r)"
    using r(1) by (auto simp: acquireRatchetLeaseRecord_def RATCHET_LOCK_LEASE_MS_def Let_def split: if_splits option.splits)
  have valid: "isRatchetLeaseRecord (lease_json r) = (isSafeInteger f' \<and> 0 \<le> f' \<and> owner' \<noteq> [])"
    using A(1,2) by (auto simp: isRatchetLeaseRecord_def lease_json_def isRecord_def json_get_def
        is_nonempty_string_def as_number_def split: option.splits)
  have sup: "superseded key owner f store'"
    using old A(1,2) by (simp add: superseded_def r(2) fence_or_zero_def)
  have "activeCoordinationLease store' key owner' f' now = (f' \<le> MAX_SAFE_INTEGER \<and> owner' \<noteq> [])"
    using live A(1,2) old f valid
    by (auto simp: activeCoordinationLease_def r(2) Let_def fence_of_Some isSafeInteger_def
        MAX_SAFE_INTEGER_def split: option.splits)
  moreover have "\<not> activeCoordinationLease store key owner f now"
    using old j(1) by (auto simp: activeCoordinationLease_def Let_def)
  ultimately show ?thesis
    using old superseded_inactive[OF fence.run_inv[OF sup]] by simp
qed

definition sample_lock :: lock_store where
  "sample_lock = [''k'' \<mapsto> lease_json \<lparr>ls_owner = ''a'', ls_expiresAt = 50, ls_fence = Some 3,
    ls_hardExpiresAt = Some 90\<rparr>]"

lemma lease_fenced_witness:
  "\<exists>store'. handle_lock (Acquire ''k'' ''b'' 60 6000) sample_lock = Inr (store', Acquired (Some 4)) \<and>
    activeCoordinationLease store' ''k'' ''b'' 4 60 \<and>
    \<not> activeCoordinationLease (run_requests handle_lock [Renew ''k'' ''a'' 3 61, Acquire ''k'' ''a'' 90000 6000] store')
      ''k'' ''a'' 3 61"
proof -
  let ?j = "lease_json \<lparr>ls_owner = ''a'', ls_expiresAt = 50, ls_fence = Some 3, ls_hardExpiresAt = Some 90\<rparr>"
  have valid: "isRatchetLeaseRecord ?j" by code_simp
  have active: "activeCoordinationLease sample_lock ''k'' ''a'' 3 40"
    by (simp add: activeCoordinationLease_def sample_lock_def valid fence_or_zero_def)
  obtain store' where store': "handle_lock (Acquire ''k'' ''b'' 60 6000) sample_lock = Inr (store', Acquired (Some 4))"
    by (simp add: handle_lock_def tryAcquireRatchetLease_def mutateRatchetLease_def sample_lock_def valid
        acquireRatchetLeaseRecord_def canAcquireRatchetLease_def RATCHET_LOCK_LEASE_MS_def fence_or_zero_def)
  from lease_fenced[OF active store'] show ?thesis
    by (intro exI[of _ store']) (simp add: store' MAX_SAFE_INTEGER_def del: run_requests_simps)
qed

end
