(* ===== verification/Ratchet_Store.thy ===== *)
theory Ratchet_Store
  imports E2ee_Session Ratchet_Lease
begin

text \<open>
  Ratchet states in the browser: how \<open>direct-chat-ratchet-coordination.ts\<close>
  (\<open>packages/client-core\<close>) reads a stored record, and the transactions of
  \<open>crypto-store.ts\<close> (\<open>apps/web\<close>) that load and commit states. The encryption of local
  values (\<open>local-protection.ts\<close>, over WebCrypto) is a parameter. A transaction that throws
  aborts and leaves the store as it was.
\<close>

section \<open>Stored values\<close>

datatype store_error =
    STATE_CONFLICT | STATE_CORRUPT | PROTECTION_FAILED | EMPTY_UPDATE_SET | DUPLICATE_UPDATES
  | PENDING_SEND_CONFLICT | OPERATOR_INVOCATION_GONE

record snapshot =
  sn_stateVersion :: int
  sn_state :: serialized_ratchet
  sn_pendingX3dhInit :: "x3dh_header option"

definition is_string :: "json option \<Rightarrow> bool" where
  "is_string j = (case j of Some (JStr _) \<Rightarrow> True | _ \<Rightarrow> False)"

definition is_string_or_null :: "json option \<Rightarrow> bool" where
  "is_string_or_null j = (case j of Some (JStr _) \<Rightarrow> True | Some JNull \<Rightarrow> True | _ \<Rightarrow> False)"

definition isCounter :: "json option \<Rightarrow> bool" where
  "isCounter value = (case value of Some (JNum n) \<Rightarrow> isSafeInteger n \<and> n \<ge> 0 | _ \<Rightarrow> False)"

definition string_entries :: "json option \<Rightarrow> bool" where
  "string_entries value = (case value of
     Some (JObj fs) \<Rightarrow> list_all (\<lambda>e. case snd e of JStr _ \<Rightarrow> True | _ \<Rightarrow> False) fs | _ \<Rightarrow> False)"

definition isSerializedRatchetState :: "json \<Rightarrow> bool" where
  "isSerializedRatchetState value \<longleftrightarrow>
    isRecord value \<and>
    is_string (json_get value ''dhsSecret'') \<and> is_string (json_get value ''dhsPublic'') \<and>
    is_string_or_null (json_get value ''dhrPublic'') \<and> is_string (json_get value ''rootKey'') \<and>
    is_string_or_null (json_get value ''sendingChainKey'') \<and>
    is_string_or_null (json_get value ''receivingChainKey'') \<and>
    isCounter (json_get value ''ns'') \<and> isCounter (json_get value ''nr'') \<and>
    isCounter (json_get value ''pn'') \<and> string_entries (json_get value ''skipped'')"

definition isX3dhInitHeader :: "json \<Rightarrow> bool" where
  "isX3dhInitHeader value \<longleftrightarrow>
    isRecord value \<and>
    is_string (json_get value ''identityEd25519Public'') \<and>
    is_string (json_get value ''identityX25519Public'') \<and>
    is_string (json_get value ''ephemeralPublic'') \<and>
    isCounter (json_get value ''signedPrekeyId'') \<and>
    (json_get value ''oneTimePrekeyId'' = Some JNull \<or> isCounter (json_get value ''oneTimePrekeyId''))"

definition isStoredRatchetRecord :: "json \<Rightarrow> bool" where
  "isStoredRatchetRecord value \<longleftrightarrow>
    isRecord value \<and> json_get value ''schemaVersion'' = Some (JNum 1) \<and>
    is_nonempty_string (json_get value ''localDeviceId'') \<and>
    (case json_get value ''stateVersion'' of Some (JNum n) \<Rightarrow> isSafeInteger n \<and> n \<ge> 1 | _ \<Rightarrow> False) \<and>
    (case json_get value ''state'' of None \<Rightarrow> False | Some j \<Rightarrow> isSerializedRatchetState j) \<and>
    (case json_get value ''pendingX3dhInit'' of
       None \<Rightarrow> False | Some j \<Rightarrow> j = JNull \<or> isX3dhInitHeader j)"

definition isStoredLegacyRatchetRecord :: "json \<Rightarrow> bool" where
  "isStoredLegacyRatchetRecord value \<longleftrightarrow>
    isRecord value \<and> json_get value ''schemaVersion'' = Some (JNum 0) \<and>
    is_nonempty_string (json_get value ''localDeviceId'') \<and>
    (case json_get value ''state'' of None \<Rightarrow> False | Some j \<Rightarrow> isSerializedRatchetState j)"

section \<open>Writing and reading the values\<close>

definition serialized_json :: "serialized_ratchet \<Rightarrow> json" where
  "serialized_json s = JObj
    [(''dhsSecret'', JStr (sr_dhsSecret s)), (''dhsPublic'', JStr (sr_dhsPublic s)),
     (''dhrPublic'', string_or_null (sr_dhrPublic s)), (''rootKey'', JStr (sr_rootKey s)),
     (''sendingChainKey'', string_or_null (sr_sendingChainKey s)),
     (''receivingChainKey'', string_or_null (sr_receivingChainKey s)),
     (''ns'', JNum (int (sr_ns s))), (''nr'', JNum (int (sr_nr s))), (''pn'', JNum (int (sr_pn s))),
     (''skipped'', JObj (map (\<lambda>(k, v). (k, JStr v)) (sr_skipped s)))]"

definition str_of :: "json option \<Rightarrow> string" where
  "str_of j = (case j of Some (JStr s) \<Rightarrow> s | _ \<Rightarrow> [])"

definition num_of :: "json option \<Rightarrow> int" where
  "num_of j = (case j of Some (JNum n) \<Rightarrow> n | _ \<Rightarrow> 0)"

definition read_serialized :: "json \<Rightarrow> serialized_ratchet" where
  "read_serialized j =
    \<lparr>sr_dhsSecret = str_of (json_get j ''dhsSecret''), sr_dhsPublic = str_of (json_get j ''dhsPublic''),
     sr_dhrPublic = as_string (json_get j ''dhrPublic''), sr_rootKey = str_of (json_get j ''rootKey''),
     sr_sendingChainKey = as_string (json_get j ''sendingChainKey''),
     sr_receivingChainKey = as_string (json_get j ''receivingChainKey''),
     sr_ns = nat (num_of (json_get j ''ns'')), sr_nr = nat (num_of (json_get j ''nr'')),
     sr_pn = nat (num_of (json_get j ''pn'')),
     sr_skipped = (case json_get j ''skipped'' of
       Some (JObj fs) \<Rightarrow> map (\<lambda>(k, v). (k, str_of (Some v))) fs | _ \<Rightarrow> [])\<rparr>"

definition read_x3dh :: "json \<Rightarrow> x3dh_header" where
  "read_x3dh j =
    \<lparr>xh_identityEd25519Public = str_of (json_get j ''identityEd25519Public''),
     xh_identityX25519Public = str_of (json_get j ''identityX25519Public''),
     xh_ephemeralPublic = str_of (json_get j ''ephemeralPublic''),
     xh_signedPrekeyId = nat (num_of (json_get j ''signedPrekeyId'')),
     xh_oneTimePrekeyId = map_option nat (as_number (json_get j ''oneTimePrekeyId''))\<rparr>"

definition x3dh_or_null :: "x3dh_header option \<Rightarrow> json" where
  "x3dh_or_null h = (case h of None \<Rightarrow> JNull | Some x \<Rightarrow> x3dh_json x)"

definition read_pending :: "json option \<Rightarrow> x3dh_header option" where
  "read_pending j = (case j of None \<Rightarrow> None | Some JNull \<Rightarrow> None | Some x \<Rightarrow> Some (read_x3dh x))"

section \<open>decodeStoredRatchet and the version check\<close>

definition decodeStoredRatchet :: "json option \<Rightarrow> string \<Rightarrow> store_error + snapshot option" where
  "decodeStoredRatchet value localDeviceId =
    (case value of
       None \<Rightarrow> Inr None
     | Some JNull \<Rightarrow> Inr None
     | Some j \<Rightarrow>
         if isStoredRatchetRecord j then
           (if str_of (json_get j ''localDeviceId'') \<noteq> localDeviceId then Inl STATE_CORRUPT
            else Inr (Some \<lparr>sn_stateVersion = num_of (json_get j ''stateVersion''),
              sn_state = read_serialized (the (json_get j ''state'')),
              sn_pendingX3dhInit = read_pending (json_get j ''pendingX3dhInit'')\<rparr>))
         else if isStoredLegacyRatchetRecord j then
           (if str_of (json_get j ''localDeviceId'') \<noteq> localDeviceId then Inl STATE_CORRUPT
            else Inr (Some \<lparr>sn_stateVersion = 0, sn_state = read_serialized (the (json_get j ''state'')),
              sn_pendingX3dhInit = None\<rparr>))
         else Inl STATE_CORRUPT)"

definition stored_json :: "string \<Rightarrow> int \<Rightarrow> json \<Rightarrow> json option \<Rightarrow> json" where
  "stored_json localDeviceId stateVersion state pending = JObj
    ([(''schemaVersion'', JNum 1), (''localDeviceId'', JStr localDeviceId),
      (''stateVersion'', JNum stateVersion), (''state'', state)] @
     (case pending of None \<Rightarrow> [] | Some p \<Rightarrow> [(''pendingX3dhInit'', p)]))"

definition storedRatchetRecord ::
    "string \<Rightarrow> int \<Rightarrow> serialized_ratchet \<Rightarrow> x3dh_header option \<Rightarrow> store_error + json" where
  "storedRatchetRecord localDeviceId stateVersion state pending =
    (if \<not> isSafeInteger stateVersion \<or> stateVersion < 1 then Inl STATE_CORRUPT
     else Inr (stored_json localDeviceId stateVersion (serialized_json state) (Some (x3dh_or_null pending))))"

definition markLegacyRatchetOwner :: "json \<Rightarrow> string \<Rightarrow> json" where
  "markLegacyRatchetOwner value localDeviceId =
    (if \<not> isSerializedRatchetState value then value
     else JObj [(''schemaVersion'', JNum 0), (''localDeviceId'', JStr localDeviceId), (''state'', value)])"

definition assertRatchetVersion :: "snapshot option \<Rightarrow> int \<Rightarrow> store_error + unit" where
  "assertRatchetVersion current expectedVersion =
    guard_res (\<not> isSafeInteger expectedVersion \<or> expectedVersion < 0 \<or>
      (case current of None \<Rightarrow> 0 | Some c \<Rightarrow> sn_stateVersion c) \<noteq> expectedVersion) STATE_CONFLICT"

section \<open>Protected records\<close>

record protector =
  lp_protect :: "json \<Rightarrow> string \<Rightarrow> string"
  lp_unprotect :: "string \<Rightarrow> string \<Rightarrow> json option"
  lp_isProtected :: "string \<Rightarrow> bool"

text \<open>What authenticated encryption gives: the value comes back under the same associated data.\<close>

definition protector_ok :: "protector \<Rightarrow> bool" where
  "protector_ok P \<longleftrightarrow> (\<forall>j aad. lp_isProtected P (lp_protect P j aad) \<and>
    lp_unprotect P (lp_protect P j aad) aad = Some j)"

record scope =
  sc_conversationId :: string
  sc_localDeviceId :: string
  sc_peerDeviceId :: string
  sc_interactionEpoch :: int

definition epoch_name :: "scope \<Rightarrow> string" where
  "epoch_name sc = ''epoch-'' @ decimal_of_int (sc_interactionEpoch sc)"

definition ratchetStorageKey :: "scope \<Rightarrow> string" where
  "ratchetStorageKey sc = join_with '':'' [sc_conversationId sc, sc_localDeviceId sc, sc_peerDeviceId sc,
    epoch_name sc]"

definition ratchetStateAad :: "scope \<Rightarrow> int \<Rightarrow> string" where
  "ratchetStateAad sc stateVersion = join_with '':'' [''vimla:e2ee:ratchet'', sc_conversationId sc,
    sc_localDeviceId sc, sc_peerDeviceId sc, epoch_name sc, decimal_of_int stateVersion]"

definition isProtectedRatchetRecord :: "protector \<Rightarrow> json \<Rightarrow> bool" where
  "isProtectedRatchetRecord P value \<longleftrightarrow>
    isRecord value \<and> json_get value ''schemaVersion'' = Some (JNum 2) \<and>
    is_nonempty_string (json_get value ''localDeviceId'') \<and>
    isCounter (json_get value ''stateVersion'') \<and>
    (case json_get value ''protectedState'' of Some (JStr s) \<Rightarrow> lp_isProtected P s | _ \<Rightarrow> False)"

definition protectRatchetRecord ::
    "protector \<Rightarrow> scope \<Rightarrow> int \<Rightarrow> serialized_ratchet \<Rightarrow> x3dh_header option \<Rightarrow> json" where
  "protectRatchetRecord P sc stateVersion state pending = JObj
    [(''schemaVersion'', JNum 2), (''localDeviceId'', JStr (sc_localDeviceId sc)),
     (''stateVersion'', JNum stateVersion),
     (''protectedState'', JStr (lp_protect P (serialized_json state) (ratchetStateAad sc stateVersion))),
     (''pendingX3dhInit'', x3dh_or_null pending)]"

definition decodePersistedRatchet ::
    "protector \<Rightarrow> json option \<Rightarrow> scope \<Rightarrow> store_error + snapshot option" where
  "decodePersistedRatchet P value sc =
    (case value of
       None \<Rightarrow> decodeStoredRatchet value (sc_localDeviceId sc)
     | Some j \<Rightarrow>
         if \<not> isProtectedRatchetRecord P j then decodeStoredRatchet value (sc_localDeviceId sc)
         else if str_of (json_get j ''localDeviceId'') \<noteq> sc_localDeviceId sc then Inl STATE_CORRUPT
         else
           let version = num_of (json_get j ''stateVersion'') in
           (case lp_unprotect P (str_of (json_get j ''protectedState'')) (ratchetStateAad sc version) of
             None \<Rightarrow> Inl PROTECTION_FAILED
           | Some state \<Rightarrow>
               decodeStoredRatchet (Some
                 (if version = 0
                  then JObj [(''schemaVersion'', JNum 0), (''localDeviceId'', JStr (sc_localDeviceId sc)),
                    (''state'', state)]
                  else stored_json (sc_localDeviceId sc) version state (json_get j ''pendingX3dhInit'')))
                 (sc_localDeviceId sc)))"

definition assertPersistedRatchetVersion ::
    "protector \<Rightarrow> json option \<Rightarrow> string \<Rightarrow> int \<Rightarrow> store_error + unit" where
  "assertPersistedRatchetVersion P value localDeviceId expectedVersion =
    (case value of
       Some j \<Rightarrow>
         (if isProtectedRatchetRecord P j then
           (if str_of (json_get j ''localDeviceId'') \<noteq> localDeviceId then Inl STATE_CORRUPT
            else guard_res (num_of (json_get j ''stateVersion'') \<noteq> expectedVersion) STATE_CONFLICT)
         else rbind (decodeStoredRatchet value localDeviceId) (\<lambda>c. assertRatchetVersion c expectedVersion))
     | None \<Rightarrow> rbind (decodeStoredRatchet value localDeviceId) (\<lambda>c. assertRatchetVersion c expectedVersion))"

section \<open>The transactions\<close>

text \<open>
  A pending send: the fields the transaction reads, and the rest of the (protected) row. The
  outputs are those of \<open>operatorIntent.delivery\<close>.
\<close>

record operator_output =
  oo_id :: string
  oo_clientMessageId :: string
  oo_delivered :: bool

record pending_send =
  ps_clientMessageId :: string
  ps_revision :: "int option"
  ps_operatorOutput :: "(string \<times> string) option"
  ps_outputs :: "operator_output list"
  ps_content :: json

record crypto_store =
  st_ratchets :: "string \<rightharpoonup> json"
  st_plaintexts :: "string \<rightharpoonup> json"
  st_pendingSends :: "string \<rightharpoonup> pending_send"

definition pendingSendRevision :: "pending_send \<Rightarrow> int" where
  "pendingSendRevision p = (case ps_revision p of
     None \<Rightarrow> 0 | Some n \<Rightarrow> if isSafeInteger n \<and> n \<ge> 0 then n else 0)"

definition commitRatchet ::
    "protector \<Rightarrow> scope \<Rightarrow> int \<Rightarrow> serialized_ratchet \<Rightarrow> x3dh_header option \<Rightarrow> (string \<times> json) option \<Rightarrow>
      crypto_store \<Rightarrow> store_error + crypto_store \<times> snapshot" where
  "commitRatchet P sc expectedVersion state pending plaintext db =
    (let nextVersion = expectedVersion + 1; key = ratchetStorageKey sc in
     rbind (assertPersistedRatchetVersion P (st_ratchets db key) (sc_localDeviceId sc) expectedVersion) (\<lambda>_.
     let db1 = db\<lparr>st_ratchets := (st_ratchets db)(key \<mapsto> protectRatchetRecord P sc nextVersion state pending)\<rparr>;
         db2 = (case plaintext of None \<Rightarrow> db1
           | Some (messageId, text) \<Rightarrow> db1\<lparr>st_plaintexts := (st_plaintexts db1)(messageId \<mapsto> text)\<rparr>)
     in Inr (db2, \<lparr>sn_stateVersion = nextVersion, sn_state = state, sn_pendingX3dhInit = pending\<rparr>)))"

record outbound_update =
  ou_peerDeviceId :: string
  ou_expectedVersion :: int
  ou_state :: serialized_ratchet
  ou_pendingX3dhInit :: "x3dh_header option"

text \<open>All reads are issued before the first write, so every check sees the state before.\<close>

definition put_update ::
    "protector \<Rightarrow> scope \<Rightarrow> (string \<rightharpoonup> json) \<Rightarrow> outbound_update \<Rightarrow> (string \<rightharpoonup> json) \<Rightarrow>
      store_error + (string \<rightharpoonup> json)" where
  "put_update P base before update ratchets =
    (let sc = base\<lparr>sc_peerDeviceId := ou_peerDeviceId update\<rparr>; key = ratchetStorageKey sc in
     rbind (assertPersistedRatchetVersion P (before key) (sc_localDeviceId sc) (ou_expectedVersion update)) (\<lambda>_.
     Inr (ratchets(key \<mapsto> protectRatchetRecord P sc (ou_expectedVersion update + 1) (ou_state update)
       (ou_pendingX3dhInit update)))))"

definition check_pending ::
    "pending_send \<Rightarrow> int option \<Rightarrow> (string \<rightharpoonup> pending_send) \<Rightarrow> store_error + unit" where
  "check_pending pendingSend expectedRevision sends =
    (let current = sends (ps_clientMessageId pendingSend) in
     rbind (guard_res (case expectedRevision of
         None \<Rightarrow> current \<noteq> None
       | Some n \<Rightarrow> (case current of None \<Rightarrow> True | Some p \<Rightarrow> pendingSendRevision p \<noteq> n)) PENDING_SEND_CONFLICT) (\<lambda>_.
     case ps_operatorOutput pendingSend of
       None \<Rightarrow> Inr ()
     | Some (parentId, outputId) \<Rightarrow>
         guard_res (case sends parentId of
             None \<Rightarrow> True
           | Some parent \<Rightarrow>
               (case find (\<lambda>c. oo_id c = outputId \<and> oo_clientMessageId c = ps_clientMessageId pendingSend)
                   (ps_outputs parent) of
                  None \<Rightarrow> True | Some output \<Rightarrow> oo_delivered output)) OPERATOR_INVOCATION_GONE))"

definition commitOutboundRatchets ::
    "protector \<Rightarrow> scope \<Rightarrow> outbound_update list \<Rightarrow> pending_send \<Rightarrow> int option \<Rightarrow> crypto_store \<Rightarrow>
      store_error + crypto_store" where
  "commitOutboundRatchets P base updates pendingSend expectedRevision db =
    (if length updates = 0 then Inl EMPTY_UPDATE_SET
     else if \<not> distinct (map ou_peerDeviceId updates) then Inl DUPLICATE_UPDATES
     else
       rbind (check_pending pendingSend expectedRevision (st_pendingSends db)) (\<lambda>_.
       rbind (fold_res (put_update P base (st_ratchets db)) updates (st_ratchets db)) (\<lambda>ratchets.
       Inr (db\<lparr>st_ratchets := ratchets,
         st_pendingSends := (st_pendingSends db)(ps_clientMessageId pendingSend \<mapsto> pendingSend)\<rparr>))))"

text \<open>
  \<open>loadRatchet\<close> moves a record that is not protected yet to its protected form, unless it
  has changed in between; here both transactions run one after the other.
\<close>

definition migrateLegacyRatchet :: "protector \<Rightarrow> scope \<Rightarrow> snapshot \<Rightarrow> crypto_store \<Rightarrow> store_error + crypto_store" where
  "migrateLegacyRatchet P sc snapshot db =
    (let key = ratchetStorageKey sc in
     case st_ratchets db key of
       None \<Rightarrow> Inr db
     | Some current \<Rightarrow>
         if isProtectedRatchetRecord P current then Inr db
         else rbind (decodeStoredRatchet (Some current) (sc_localDeviceId sc)) (\<lambda>c.
           if (case c of None \<Rightarrow> True | Some s \<Rightarrow> sn_stateVersion s \<noteq> sn_stateVersion snapshot) then Inr db
           else Inr (db\<lparr>st_ratchets := (st_ratchets db)(key \<mapsto> protectRatchetRecord P sc
             (sn_stateVersion snapshot) (sn_state snapshot) (sn_pendingX3dhInit snapshot))\<rparr>)))"

definition loadRatchet :: "protector \<Rightarrow> scope \<Rightarrow> crypto_store \<Rightarrow> store_error + crypto_store \<times> snapshot option" where
  "loadRatchet P sc db =
    (case st_ratchets db (ratchetStorageKey sc) of
       None \<Rightarrow> Inr (db, None)
     | Some scoped \<Rightarrow>
         rbind (decodePersistedRatchet P (Some scoped) sc) (\<lambda>snapshot.
         case snapshot of
           None \<Rightarrow> Inr (db, None)
         | Some s \<Rightarrow>
             if isProtectedRatchetRecord P scoped then Inr (db, Some s)
             else rbind (migrateLegacyRatchet P sc s db) (\<lambda>db'. Inr (db', Some s))))"

end
