(* ===== verification/Ratchet_Log.thy ===== *)
theory Ratchet_Log
  imports Ratchet_Store "HOL-Library.Countable"
begin

text \<open>
  What the ratchet store promises. The contract is a log: the states committed for a peer, in
  order, to which a commit appends when it names the length of the log it has seen. The
  transactions of \<open>crypto-store.ts\<close> implement it, whatever tabs run them in whatever order.
\<close>

section \<open>Round trips of the stored values\<close>

definition state_ok :: "serialized_ratchet \<Rightarrow> bool" where
  "state_ok s \<longleftrightarrow> isSafeInteger (int (sr_ns s)) \<and> isSafeInteger (int (sr_nr s)) \<and>
    isSafeInteger (int (sr_pn s))"

definition pending_ok :: "x3dh_header option \<Rightarrow> bool" where
  "pending_ok h \<longleftrightarrow> (case h of None \<Rightarrow> True
     | Some x \<Rightarrow> isSafeInteger (int (xh_signedPrekeyId x)) \<and>
         (case xh_oneTimePrekeyId x of None \<Rightarrow> True | Some n \<Rightarrow> isSafeInteger (int n)))"

lemma json_get_JObj [simp]: "json_get (JObj fs) k = map_of fs k"
  by (simp add: json_get_def)

lemmas reader_defs = is_string_def is_string_or_null_def isCounter_def string_entries_def str_of_def
  num_of_def as_string_def as_number_def string_or_null_def isRecord_def is_nonempty_string_def

lemma serialized_valid: "isSerializedRatchetState (serialized_json s) = state_ok s"
  by (auto simp: isSerializedRatchetState_def serialized_json_def state_ok_def reader_defs list_all_iff
      split: option.splits)

lemma read_serialized_json [simp]: "read_serialized (serialized_json s) = s"
  by (cases s) (auto simp: read_serialized_def serialized_json_def reader_defs comp_def case_prod_beta
      split: option.splits)

lemma x3dh_valid: "isX3dhInitHeader (x3dh_json h) = pending_ok (Some h)"
  by (auto simp: isX3dhInitHeader_def x3dh_json_def pending_ok_def reader_defs split: option.splits)

lemma read_x3dh_json [simp]: "read_x3dh (x3dh_json h) = h"
  by (cases h) (auto simp: read_x3dh_def x3dh_json_def reader_defs split: option.splits)

lemma read_pending_or_null [simp]: "read_pending (Some (x3dh_or_null h)) = h"
proof (cases h)
  case (Some x)
  obtain fs where "x3dh_json x = JObj fs" by (simp add: x3dh_json_def)
  then have "read_pending (Some (x3dh_json x)) = Some (read_x3dh (x3dh_json x))" by (simp add: read_pending_def)
  with Some show ?thesis by (simp add: x3dh_or_null_def)
qed (simp add: x3dh_or_null_def read_pending_def)

lemma x3dh_or_null_valid:
  "pending_ok h \<Longrightarrow> x3dh_or_null h = JNull \<or> isX3dhInitHeader (x3dh_or_null h)"
  by (cases h) (simp_all add: x3dh_or_null_def x3dh_valid)

lemma decode_stored:
  assumes "state_ok st" and "pending_ok p" and "dev \<noteq> []" and "1 \<le> n" and "n \<le> MAX_SAFE_INTEGER"
  shows "decodeStoredRatchet (Some (stored_json dev n (serialized_json st) (Some (x3dh_or_null p)))) dev =
    Inr (Some \<lparr>sn_stateVersion = n, sn_state = st, sn_pendingX3dhInit = p\<rparr>)"
proof -
  let ?j = "stored_json dev n (serialized_json st) (Some (x3dh_or_null p))"
  have "isStoredRatchetRecord ?j"
    using assms x3dh_or_null_valid[OF assms(2)]
    by (auto simp: isStoredRatchetRecord_def stored_json_def isRecord_def is_nonempty_string_def
        isSafeInteger_def serialized_valid MAX_SAFE_INTEGER_def)
  then show ?thesis
    by (simp add: decodeStoredRatchet_def stored_json_def str_of_def num_of_def)
qed

lemma protected_record:
  assumes "protector_ok P" and "sc_localDeviceId sc \<noteq> []" and "0 \<le> n" and "n \<le> MAX_SAFE_INTEGER"
  shows "isProtectedRatchetRecord P (protectRatchetRecord P sc n st p)"
  using assms
  by (auto simp: isProtectedRatchetRecord_def protectRatchetRecord_def isRecord_def is_nonempty_string_def
      isCounter_def isSafeInteger_def MAX_SAFE_INTEGER_def protector_ok_def)

lemma decode_protected:
  assumes "protector_ok P" and "state_ok st" and "pending_ok p" and "sc_localDeviceId sc \<noteq> []"
    and "1 \<le> n" and "n \<le> MAX_SAFE_INTEGER"
  shows "decodePersistedRatchet P (Some (protectRatchetRecord P sc n st p)) sc =
    Inr (Some \<lparr>sn_stateVersion = n, sn_state = st, sn_pendingX3dhInit = p\<rparr>)"
proof -
  let ?j = "protectRatchetRecord P sc n st p"
  have get: "json_get ?j ''localDeviceId'' = Some (JStr (sc_localDeviceId sc))"
    "json_get ?j ''stateVersion'' = Some (JNum n)"
    "json_get ?j ''protectedState'' = Some (JStr (lp_protect P (serialized_json st) (ratchetStateAad sc n)))"
    "json_get ?j ''pendingX3dhInit'' = Some (x3dh_or_null p)"
    by (simp_all add: protectRatchetRecord_def)
  have "lp_unprotect P (lp_protect P (serialized_json st) (ratchetStateAad sc n)) (ratchetStateAad sc n) =
      Some (serialized_json st)" using assms(1) by (simp add: protector_ok_def)
  then show ?thesis
    using assms(5,6) protected_record[OF assms(1,4), of n st p] decode_stored[OF assms(2-6)]
    by (simp add: decodePersistedRatchet_def get str_of_def num_of_def Let_def)
qed

lemma assert_protected:
  assumes "protector_ok P" and "sc_localDeviceId sc \<noteq> []" and "0 \<le> n" and "n \<le> MAX_SAFE_INTEGER"
  shows "assertPersistedRatchetVersion P (Some (protectRatchetRecord P sc n st p)) (sc_localDeviceId sc) e =
    guard_res (n \<noteq> e) STATE_CONFLICT"
  using protected_record[OF assms, of st p]
  by (simp add: assertPersistedRatchetVersion_def protectRatchetRecord_def str_of_def num_of_def)

lemma assert_absent:
  "assertPersistedRatchetVersion P None dev e = guard_res (0 \<noteq> e) STATE_CONFLICT"
  by (auto simp: assertPersistedRatchetVersion_def decodeStoredRatchet_def assertRatchetVersion_def
      guard_res_def isSafeInteger_def MAX_SAFE_INTEGER_def)

lemma storage_key_inject:
  "ratchetStorageKey (base\<lparr>sc_peerDeviceId := p\<rparr>) = ratchetStorageKey (base\<lparr>sc_peerDeviceId := q\<rparr>) \<longleftrightarrow> p = q"
  by (simp add: ratchetStorageKey_def epoch_name_def)

section \<open>The log\<close>

record log_state =
  lg_logs :: "string \<Rightarrow> (serialized_ratchet \<times> x3dh_header option) list"
  lg_pendingSends :: "string \<rightharpoonup> pending_send"

datatype store_request =
    Commit string int serialized_ratchet "x3dh_header option"
  | Outbound "outbound_update list" pending_send "int option"
  | Load string

definition append_log ::
    "string \<Rightarrow> int \<Rightarrow> serialized_ratchet \<Rightarrow> x3dh_header option \<Rightarrow>
      (string \<Rightarrow> (serialized_ratchet \<times> x3dh_header option) list) \<Rightarrow>
      store_error + (string \<Rightarrow> (serialized_ratchet \<times> x3dh_header option) list)" where
  "append_log peer seen st p logs =
    (if int (length (logs peer)) = seen then Inr (logs(peer := logs peer @ [(st, p)])) else Inl STATE_CONFLICT)"

definition latest_of :: "(serialized_ratchet \<times> x3dh_header option) list \<Rightarrow> snapshot option" where
  "latest_of log = (if log = [] then None
    else Some \<lparr>sn_stateVersion = int (length log), sn_state = fst (last log), sn_pendingX3dhInit = snd (last log)\<rparr>)"

definition log_request :: "store_request \<Rightarrow> log_state \<Rightarrow> store_error + log_state \<times> snapshot option" where
  "log_request request s =
    (case request of
       Commit peer seen st p \<Rightarrow> rbind (append_log peer seen st p (lg_logs s)) (\<lambda>logs.
         Inr (s\<lparr>lg_logs := logs\<rparr>, latest_of (logs peer)))
     | Outbound updates send revision \<Rightarrow>
         if updates = [] then Inl EMPTY_UPDATE_SET
         else if \<not> distinct (map ou_peerDeviceId updates) then Inl DUPLICATE_UPDATES
         else rbind (check_pending send revision (lg_pendingSends s)) (\<lambda>_.
           rbind (fold_res (\<lambda>u. append_log (ou_peerDeviceId u) (ou_expectedVersion u) (ou_state u)
             (ou_pendingX3dhInit u)) updates (lg_logs s)) (\<lambda>logs.
           Inr (s\<lparr>lg_logs := logs,
             lg_pendingSends := (lg_pendingSends s)(ps_clientMessageId send \<mapsto> send)\<rparr>, None)))
     | Load peer \<Rightarrow> Inr (s, latest_of (lg_logs s peer)))"

definition store_request ::
    "protector \<Rightarrow> scope \<Rightarrow> store_request \<Rightarrow> crypto_store \<Rightarrow> store_error + crypto_store \<times> snapshot option" where
  "store_request P base request db =
    (case request of
       Commit peer seen st p \<Rightarrow>
         rbind (commitRatchet P (base\<lparr>sc_peerDeviceId := peer\<rparr>) seen st p None db) (\<lambda>(db', s). Inr (db', Some s))
     | Outbound updates send revision \<Rightarrow>
         rbind (commitOutboundRatchets P base updates send revision db) (\<lambda>db'. Inr (db', None))
     | Load peer \<Rightarrow> loadRatchet P (base\<lparr>sc_peerDeviceId := peer\<rparr>) db)"

definition request_ok :: "store_request \<Rightarrow> bool" where
  "request_ok request = (case request of
     Commit _ _ st p \<Rightarrow> state_ok st \<and> pending_ok p
   | Outbound updates _ _ \<Rightarrow> list_all (\<lambda>u. state_ok (ou_state u) \<and> pending_ok (ou_pendingX3dhInit u)) updates
   | Load _ \<Rightarrow> True)"

text \<open>The record a log leaves in the store.\<close>

definition row_of ::
    "protector \<Rightarrow> scope \<Rightarrow> string \<Rightarrow> (serialized_ratchet \<times> x3dh_header option) list \<Rightarrow> json option" where
  "row_of P base peer log = (if log = [] then None
    else Some (protectRatchetRecord P (base\<lparr>sc_peerDeviceId := peer\<rparr>) (int (length log))
      (fst (last log)) (snd (last log))))"

definition rows_match ::
    "protector \<Rightarrow> scope \<Rightarrow> nat \<Rightarrow> (string \<Rightarrow> (serialized_ratchet \<times> x3dh_header option) list) \<Rightarrow>
      (string \<rightharpoonup> json) \<Rightarrow> bool" where
  "rows_match P base n logs rows \<longleftrightarrow>
    (\<forall>peer. rows (ratchetStorageKey (base\<lparr>sc_peerDeviceId := peer\<rparr>)) = row_of P base peer (logs peer) \<and>
      list_all (\<lambda>e. state_ok (fst e) \<and> pending_ok (snd e)) (logs peer) \<and>
      int (length (logs peer) + n) \<le> MAX_SAFE_INTEGER)"

definition implements :: "protector \<Rightarrow> scope \<Rightarrow> nat \<Rightarrow> log_state \<Rightarrow> crypto_store \<Rightarrow> bool" where
  "implements P base n s db \<longleftrightarrow>
    rows_match P base n (lg_logs s) (st_ratchets db) \<and> st_pendingSends db = lg_pendingSends s"

lemma version_check:
  assumes "protector_ok P" and "sc_localDeviceId base \<noteq> []" and "rows_match P base n logs rows"
  shows "assertPersistedRatchetVersion P (rows (ratchetStorageKey (base\<lparr>sc_peerDeviceId := peer\<rparr>)))
      (sc_localDeviceId base) seen = guard_res (int (length (logs peer)) \<noteq> seen) STATE_CONFLICT"
proof -
  let ?sc = "base\<lparr>sc_peerDeviceId := peer\<rparr>"
  have row: "rows (ratchetStorageKey ?sc) = row_of P base peer (logs peer)"
    and "int (length (logs peer) + n) \<le> MAX_SAFE_INTEGER"
    using assms(3) unfolding rows_match_def by blast+
  then have len: "int (length (logs peer)) \<le> MAX_SAFE_INTEGER" by simp
  show ?thesis
    using assert_protected[OF assms(1), of ?sc "int (length (logs peer))"] assms(2) len
    by (cases "logs peer = []") (simp_all add: row row_of_def assert_absent)
qed

lemma rows_match_append:
  assumes "rows_match P base (Suc n) logs rows" and "state_ok st" and "pending_ok p"
  shows "rows_match P base n (logs(peer := logs peer @ [(st, p)]))
    (rows(ratchetStorageKey (base\<lparr>sc_peerDeviceId := peer\<rparr>) \<mapsto>
      protectRatchetRecord P (base\<lparr>sc_peerDeviceId := peer\<rparr>) (int (length (logs peer)) + 1) st p))"
    (is "rows_match P base n ?logs ?rows")
  unfolding rows_match_def
proof (intro allI conjI)
  fix q
  have q: "rows (ratchetStorageKey (base\<lparr>sc_peerDeviceId := q\<rparr>)) = row_of P base q (logs q)"
    "list_all (\<lambda>e. state_ok (fst e) \<and> pending_ok (snd e)) (logs q)"
    "int (length (logs q) + Suc n) \<le> MAX_SAFE_INTEGER"
    using assms(1) unfolding rows_match_def by blast+
  show "?rows (ratchetStorageKey (base\<lparr>sc_peerDeviceId := q\<rparr>)) = row_of P base q (?logs q)"
    using q(1) by (auto simp: storage_key_inject row_of_def add.commute)
  show "list_all (\<lambda>e. state_ok (fst e) \<and> pending_ok (snd e)) (?logs q)"
    using q(2) assms(2,3) by (cases "q = peer") simp_all
  show "int (length (?logs q) + n) \<le> MAX_SAFE_INTEGER"
    using q(3) by (cases "q = peer") simp_all
qed

lemma rows_match_weaken: "rows_match P base (n + k) logs rows \<Longrightarrow> rows_match P base n logs rows"
  unfolding rows_match_def by (metis add.assoc add_leE of_nat_add of_nat_mono order_trans le_add1)

abbreviation append_update where
  "append_update u \<equiv> append_log (ou_peerDeviceId u) (ou_expectedVersion u) (ou_state u) (ou_pendingX3dhInit u)"

lemma put_updates:
  assumes "protector_ok P" and "sc_localDeviceId base \<noteq> []" and "rows_match P base m logs0 before"
    and "rows_match P base (n + length us) logs rows" and "distinct (map ou_peerDeviceId us)"
    and "list_all (\<lambda>u. logs0 (ou_peerDeviceId u) = logs (ou_peerDeviceId u)) us"
    and "list_all (\<lambda>u. state_ok (ou_state u) \<and> pending_ok (ou_pendingX3dhInit u)) us"
  shows "case fold_res append_update us logs of
      Inl e \<Rightarrow> fold_res (put_update P base before) us rows = Inl e
    | Inr logs' \<Rightarrow> \<exists>rows'. fold_res (put_update P base before) us rows = Inr rows' \<and>
        rows_match P base n logs' rows'"
  using assms(4-7)
proof (induction us arbitrary: logs rows)
  case (Cons u us)
  let ?p = "ou_peerDeviceId u"
  let ?logs = "logs(?p := logs ?p @ [(ou_state u, ou_pendingX3dhInit u)])"
  let ?rows = "rows(ratchetStorageKey (base\<lparr>sc_peerDeviceId := ?p\<rparr>) \<mapsto> protectRatchetRecord P
    (base\<lparr>sc_peerDeviceId := ?p\<rparr>) (ou_expectedVersion u + 1) (ou_state u) (ou_pendingX3dhInit u))"
  have chk: "assertPersistedRatchetVersion P (before (ratchetStorageKey (base\<lparr>sc_peerDeviceId := ?p\<rparr>)))
      (sc_localDeviceId base) (ou_expectedVersion u) =
      guard_res (int (length (logs ?p)) \<noteq> ou_expectedVersion u) STATE_CONFLICT"
    using version_check[OF assms(1-3), of ?p "ou_expectedVersion u"] Cons.prems(3) by simp
  show ?case
  proof (cases "int (length (logs ?p)) = ou_expectedVersion u")
    case True
    have put: "put_update P base before u rows = Inr ?rows"
      using True chk by (simp add: put_update_def Let_def guard_res_def)
    have app: "append_update u logs = Inr ?logs" using True by (simp add: append_log_def)
    have match: "rows_match P base (n + length us) ?logs ?rows"
      using rows_match_append[of P base "n + length us" logs rows "ou_state u" "ou_pendingX3dhInit u" ?p]
        Cons.prems(1,4) True by simp
    have "list_all (\<lambda>u. logs0 (ou_peerDeviceId u) = ?logs (ou_peerDeviceId u)) us"
      using Cons.prems(2,3) by (auto simp: list_all_iff) (metis imageI)
    note IH = Cons.IH[OF match _ this]
    have unfold: "fold_res append_update (u # us) logs = fold_res append_update us ?logs"
      "fold_res (put_update P base before) (u # us) rows = fold_res (put_update P base before) us ?rows"
      by (simp_all only: fold_res.simps put app rbind_simps)
    show ?thesis unfolding unfold by (rule IH) (use Cons.prems(2,4) in simp_all)
  next
    case False
    then show ?thesis using chk by (simp add: append_log_def put_update_def Let_def guard_res_def)
  qed
qed simp

fun cost :: "store_request \<Rightarrow> nat" where
  "cost (Commit _ _ _ _) = 1"
| "cost (Outbound updates _ _) = length updates"
| "cost (Load _) = 0"

lemma request_implements:
  assumes P: "protector_ok P" and dev: "sc_localDeviceId base \<noteq> []"
    and R: "implements P base (n + cost i) s db" and ok: "request_ok i"
  shows "case log_request i s of
      Inl e \<Rightarrow> store_request P base i db = Inl e
    | Inr (s', v) \<Rightarrow> \<exists>db'. store_request P base i db = Inr (db', v) \<and> implements P base n s' db'"
proof (cases i)
  case (Commit peer seen st p)
  let ?sc = "base\<lparr>sc_peerDeviceId := peer\<rparr>"
  have match: "rows_match P base (Suc n) (lg_logs s) (st_ratchets db)" using R Commit by (simp add: implements_def)
  have chk: "assertPersistedRatchetVersion P (st_ratchets db (ratchetStorageKey ?sc)) (sc_localDeviceId base) seen =
      guard_res (int (length (lg_logs s peer)) \<noteq> seen) STATE_CONFLICT"
    by (rule version_check[OF P dev match])
  show ?thesis
  proof (cases "int (length (lg_logs s peer)) = seen")
    case True
    with chk have "commitRatchet P ?sc seen st p None db = Inr (db\<lparr>st_ratchets := (st_ratchets db)
        (ratchetStorageKey ?sc \<mapsto> protectRatchetRecord P ?sc (seen + 1) st p)\<rparr>,
        \<lparr>sn_stateVersion = seen + 1, sn_state = st, sn_pendingX3dhInit = p\<rparr>)"
      by (simp add: commitRatchet_def Let_def guard_res_def)
    with True rows_match_append[OF match, of st p peer] R ok Commit show ?thesis
      by (simp add: log_request_def store_request_def append_log_def latest_of_def implements_def
          request_ok_def add.commute)
  next
    case False
    with chk Commit show ?thesis
      by (simp add: log_request_def store_request_def append_log_def commitRatchet_def Let_def guard_res_def)
  qed
next
  case (Outbound us send revision)
  have match: "rows_match P base (n + length us) (lg_logs s) (st_ratchets db)"
    and pend: "st_pendingSends db = lg_pendingSends s" using R Outbound by (simp_all add: implements_def)
  have "case fold_res append_update us (lg_logs s) of
      Inl e \<Rightarrow> fold_res (put_update P base (st_ratchets db)) us (st_ratchets db) = Inl e
    | Inr logs' \<Rightarrow> \<exists>rows'. fold_res (put_update P base (st_ratchets db)) us (st_ratchets db) = Inr rows' \<and>
        rows_match P base n logs' rows'" if "distinct (map ou_peerDeviceId us)"
    by (rule put_updates[OF P dev match match that]) (use ok Outbound in \<open>simp_all add: request_ok_def list_all_iff\<close>)
  with pend show ?thesis
    by (cases "check_pending send revision (lg_pendingSends s)")
      (auto simp: Outbound log_request_def store_request_def commitOutboundRatchets_def implements_def
        split: sum.splits)
next
  case (Load peer)
  let ?sc = "base\<lparr>sc_peerDeviceId := peer\<rparr>" and ?log = "lg_logs s peer"
  have row: "st_ratchets db (ratchetStorageKey ?sc) = row_of P base peer ?log"
    and valid: "list_all (\<lambda>e. state_ok (fst e) \<and> pending_ok (snd e)) ?log"
    and len: "int (length ?log + n) \<le> MAX_SAFE_INTEGER"
    using R Load unfolding implements_def rows_match_def by auto
  have "loadRatchet P ?sc db = Inr (db, latest_of ?log)"
  proof (cases "?log = []")
    case False
    then have "state_ok (fst (last ?log)) \<and> pending_ok (snd (last ?log))"
      using valid last_in_set[OF False] by (auto simp: list_all_iff)
    moreover have "1 \<le> length ?log" using False by (cases ?log) simp_all
    ultimately show ?thesis
      using decode_protected[OF P, of "fst (last ?log)" "snd (last ?log)" ?sc "int (length ?log)"]
        protected_record[OF P, of ?sc "int (length ?log)"] dev len False
      by (simp add: loadRatchet_def row row_of_def latest_of_def)
  qed (simp add: loadRatchet_def row row_of_def latest_of_def)
  with R Load show ?thesis by (simp add: log_request_def store_request_def)
qed

section \<open>Property\<close>

fun replies :: "('i \<Rightarrow> 's \<Rightarrow> 'e + 's \<times> 'r) \<Rightarrow> 'i list \<Rightarrow> 's \<Rightarrow> ('e + 'r) list" where
  "replies handle [] s = []"
| "replies handle (i # is) s = map_sum id snd (handle i s) # replies handle is (commit s (handle i s))"

lemma implements_weaken: "implements P base (n + k) s db \<Longrightarrow> implements P base n s db"
  unfolding implements_def using rows_match_weaken by blast

lemma run_implements:
  assumes "protector_ok P" and "sc_localDeviceId base \<noteq> []"
    and "implements P base (n + sum_list (map cost is)) s db" and "list_all request_ok is"
  shows "replies (store_request P base) is db = replies log_request is s \<and>
    implements P base n (run_requests log_request is s) (run_requests (store_request P base) is db)"
  using assms(3,4)
proof (induction "is" arbitrary: s db)
  case (Cons i "is")
  let ?k = "n + sum_list (map cost is)"
  have R: "implements P base (?k + cost i) s db" using Cons.prems(1) by (simp add: ac_simps)
  from request_implements[OF assms(1,2) R] Cons.prems(2)
  have step: "case log_request i s of
      Inl e \<Rightarrow> store_request P base i db = Inl e
    | Inr (s', v) \<Rightarrow> \<exists>db'. store_request P base i db = Inr (db', v) \<and> implements P base ?k s' db'" by simp
  show ?case
  proof (cases "log_request i s")
    case (Inl e)
    with step Cons.IH[OF implements_weaken[OF R]] Cons.prems(2) show ?thesis by (simp add: commit_def)
  next
    case (Inr r)
    obtain s' v where r: "r = (s', v)" by (cases r)
    with step Inr obtain db' where "store_request P base i db = Inr (db', v)" "implements P base ?k s' db'" by auto
    with Cons.IH[of s' db'] Cons.prems(2) Inr r show ?thesis by (simp add: commit_def)
  qed
qed simp

lemma appends_extend:
  "fold_res append_update us logs = Inr logs' \<Longrightarrow> \<exists>ys. logs' peer = logs peer @ ys"
proof (induction us arbitrary: logs)
  case (Cons u us)
  then obtain logs1 where l: "append_update u logs = Inr logs1" "fold_res append_update us logs1 = Inr logs'"
    by (auto simp: rbind_eq_Inr)
  have "\<exists>ys. logs1 peer = logs peer @ ys" using l(1) by (auto simp: append_log_def split: if_splits)
  with Cons.IH[OF l(2)] show ?case by auto
qed simp

lemma log_grows: "\<exists>ys. lg_logs (run_requests log_request is s) peer = lg_logs s peer @ ys"
proof (induction "is" arbitrary: s)
  case (Cons i "is")
  have "\<exists>ys. lg_logs (commit s (log_request i s)) peer = lg_logs s peer @ ys"
  proof (cases "log_request i s")
    case (Inr r)
    then show ?thesis
      by (cases i) (auto simp: log_request_def commit_def rbind_eq_Inr append_log_def
          split: if_splits dest!: appends_extend[where peer = peer])
  qed (simp add: commit_def)
  with Cons.IH[of "commit s (log_request i s)"] show ?case by auto
qed simp

lemma counter_num: "isCounter j \<Longrightarrow> 0 \<le> num_of j \<and> isSafeInteger (num_of j)"
  by (auto simp: isCounter_def num_of_def split: option.splits json.splits)

lemma counter_safe: "isCounter j \<Longrightarrow> isSafeInteger (int (nat (num_of j)))"
  by (simp add: counter_num)

lemma serialized_state_ok:
  assumes "isSerializedRatchetState j"
  shows "state_ok (read_serialized j)"
  using assms counter_safe[of "json_get j ''ns''"] counter_safe[of "json_get j ''nr''"]
    counter_safe[of "json_get j ''pn''"]
  unfolding isSerializedRatchetState_def state_ok_def read_serialized_def by simp

lemma x3dh_pending_ok: "isX3dhInitHeader j \<Longrightarrow> pending_ok (Some (read_x3dh j))"
  by (auto simp: isX3dhInitHeader_def pending_ok_def read_x3dh_def num_of_def isCounter_def as_number_def
      split: option.splits json.splits)

lemma read_pending_ok: "j = JNull \<or> isX3dhInitHeader j \<Longrightarrow> pending_ok (read_pending (Some j))"
  using x3dh_pending_ok by (auto simp: read_pending_def pending_ok_def split: json.splits)



instance json :: countable
  by countable_datatype

definition sample_protector :: protector where
  "sample_protector = \<lparr>lp_protect = (\<lambda>j aad. replicate (to_nat j) CHR ''x''),
    lp_unprotect = (\<lambda>s aad. Some (from_nat (length s))), lp_isProtected = (\<lambda>s. True)\<rparr>"

definition sample_scope :: scope where
  "sample_scope = \<lparr>sc_conversationId = ''c'', sc_localDeviceId = ''d'', sc_peerDeviceId = [], sc_interactionEpoch = 1\<rparr>"

definition sample_serialized :: "nat \<Rightarrow> serialized_ratchet" where
  "sample_serialized n = \<lparr>sr_dhsSecret = ''AQ=='', sr_dhsPublic = ''Ag=='', sr_dhrPublic = None,
    sr_rootKey = ''Aw=='', sr_sendingChainKey = None, sr_receivingChainKey = None, sr_ns = n, sr_nr = 0,
    sr_pn = 0, sr_skipped = []\<rparr>"

definition empty_log :: log_state where
  "empty_log = \<lparr>lg_logs = (\<lambda>_. []), lg_pendingSends = Map.empty\<rparr>"

definition empty_store :: crypto_store where
  "empty_store = \<lparr>st_ratchets = Map.empty, st_plaintexts = Map.empty, st_pendingSends = Map.empty\<rparr>"

definition sample_store_requests :: "store_request list" where
  "sample_store_requests = [Commit ''p'' 0 (sample_serialized 0) None, Commit ''p'' 0 (sample_serialized 1) None,
    Commit ''p'' 1 (sample_serialized 2) None, Load ''p'']"



end
