(* ===== verification/Keyset.thy ===== *)
theory Keyset
  imports Orders
begin

text \<open>
  Keyset pagination, as the list endpoints do it: the rows after a cursor, in the order of the
  query, at most one more than the page; when there is one more, the next cursor is taken from
  the last row of the page. The locale \<open>keyset\<close> states what the order, the condition "after
  the cursor" and the cursor of a row have to promise each other; under it, following the
  cursors lists the table exactly once and in order.
\<close>

section \<open>Pages\<close>

definition key_query ::
    "('a \<Rightarrow> 'a \<Rightarrow> int) \<Rightarrow> ('c \<Rightarrow> 'a \<Rightarrow> bool) \<Rightarrow> 'c option \<Rightarrow> nat \<Rightarrow> 'a list \<Rightarrow> 'a list" where
  "key_query cmp after c n table =
    take n (js_sort cmp (filter (\<lambda>y. case c of None \<Rightarrow> True | Some k \<Rightarrow> after k y) table))"

definition key_page ::
    "('a \<Rightarrow> 'a \<Rightarrow> int) \<Rightarrow> ('c \<Rightarrow> 'a \<Rightarrow> bool) \<Rightarrow> ('a \<Rightarrow> 'c) \<Rightarrow> nat \<Rightarrow> 'a list \<Rightarrow> 'c option \<Rightarrow>
      'a list \<times> 'c option" where
  "key_page cmp after mark limit table c =
    (let rows = key_query cmp after c (limit + 1) table; page = take limit rows
     in (page, if length rows > limit \<and> page \<noteq> [] then Some (mark (last page)) else None))"

text \<open>A client that follows the cursors, for at most so many requests.\<close>

fun follow :: "nat \<Rightarrow> ('c option \<Rightarrow> 'a list \<times> 'c option) \<Rightarrow> 'c option \<Rightarrow> 'a list list" where
  "follow 0 f c = []"
| "follow (Suc n) f c = (case f c of (page, None) \<Rightarrow> [page] | (page, Some k) \<Rightarrow> page # follow n f (Some k))"

text \<open>
  The list is complete when every cursor stands for a position, a rest of the listing, of which
  the next page is the front. \<open>listed\<close> says what following the cursors then gives: the whole
  rest, in pages of which all but the last are full.
\<close>

definition listed :: "nat \<Rightarrow> 'a list list \<Rightarrow> 'a list \<Rightarrow> bool" where
  "listed limit pages ys \<longleftrightarrow> concat pages = ys \<and> list_all (\<lambda>p. length p \<le> limit) pages \<and>
    list_all (\<lambda>p. length p = limit) (butlast pages)"

lemma follow_positions:
  assumes step: "\<And>c ys. pos c ys \<Longrightarrow> fst (f c) = take limit ys \<and>
      (if limit < length ys then \<exists>k. snd (f c) = Some k \<and> pos (Some k) (drop limit ys) else snd (f c) = None)"
    and l: "0 < limit" and p: "pos c ys" and n: "length ys < n"
  shows "listed limit (follow n f c) ys"
  using p n
proof (induction n arbitrary: c ys)
  case 0
  then show ?case by simp
next
  case (Suc n)
  obtain page next' where f: "f c = (page, next')" by (cases "f c")
  show ?case
  proof (cases "limit < length ys")
    case True
    with step[OF Suc.prems(1)] f obtain k where k: "next' = Some k" "pos (Some k) (drop limit ys)"
      "page = take limit ys" by auto
    have "length (drop limit ys) < n" using Suc.prems(2) l True by simp
    from Suc.IH[OF k(2) this] show ?thesis
      using True f k by (cases "follow n f (Some k)") (simp_all add: listed_def)
  next
    case False
    with step[OF Suc.prems(1)] f show ?thesis by (simp add: listed_def)
  qed
qed

section \<open>The contract\<close>

definition separates :: "('a \<Rightarrow> 'a \<Rightarrow> int) \<Rightarrow> 'a list \<Rightarrow> bool" where
  "separates cmp table \<longleftrightarrow> distinct table \<and> (\<forall>x \<in> set table. \<forall>y \<in> set table. cmp x y = 0 \<longrightarrow> x = y)"

lemma separates_filter: "separates cmp table \<Longrightarrow> separates cmp (filter P table)"
  by (auto simp: separates_def)

lemma separates_by_key:
  assumes "distinct (map key table)" and "\<And>x y. cmp x y = 0 \<Longrightarrow> key x = key y"
  shows "separates cmp table"
  using assms by (auto simp: separates_def distinct_map inj_on_def)

lemma distinct_js_sort [simp]: "distinct (js_sort cmp xs) = distinct xs"
  using distinct_map_js_sort[of "\<lambda>x. x" cmp xs] by simp

lemma last_take_nth: "0 < n \<Longrightarrow> n \<le> length ys \<Longrightarrow> last (take n ys) = ys ! (n - 1)"
  by (subst last_conv_nth) auto

context comparator
begin

lemma sorted_perm_unique:
  assumes "sorted_wrt (\<lambda>a b. cmp a b \<le> 0) xs" and "sorted_wrt (\<lambda>a b. cmp a b \<le> 0) ys"
    and "mset xs = mset ys" and "separates cmp xs"
  shows "xs = ys"
  using assms
proof (induction xs arbitrary: ys)
  case Nil
  then show ?case by simp
next
  case (Cons x xs)
  then obtain y zs where ys: "ys = y # zs" by (cases ys) auto
  have "x \<in> set ys" "y \<in> set (x # xs)" using Cons.prems(3) ys by (metis list.set_intros(1) set_mset_mset)+
  then have "cmp x y \<le> 0" "cmp y x \<le> 0"
    using Cons.prems(1,2) ys cmp_refl by (auto simp: cmp_refl)
  then have "cmp x y = 0" using cmp_antisym[of x y] cmp_antisym[of y x] by linarith
  then have "x = y" using Cons.prems(4) \<open>y \<in> set (x # xs)\<close> unfolding separates_def by (meson list.set_intros(1))
  with Cons.prems ys show ?case by (auto intro!: Cons.IH simp: separates_def)
qed

lemma filter_js_sort: "separates cmp xs \<Longrightarrow> js_sort cmp (filter P xs) = filter P (js_sort cmp xs)"
proof (rule sorted_perm_unique)
  show "sorted_wrt (\<lambda>a b. cmp a b \<le> 0) (filter P (js_sort cmp xs))"
    by (rule sorted_wrt_filter[OF sorted_js_sort])
  assume "separates cmp xs"
  then show "separates cmp (js_sort cmp (filter P xs))"
    by (auto simp: separates_def)
qed (simp_all add: sorted_js_sort mset_filter)

lemma separates_sort: "separates cmp (js_sort cmp xs) = separates cmp xs"
  by (simp add: separates_def)

end

locale keyset = comparator cmp
  for cmp :: "'a \<Rightarrow> 'a \<Rightarrow> int" +
  fixes after :: "'c \<Rightarrow> 'a \<Rightarrow> bool" and mark :: "'a \<Rightarrow> 'c"
  assumes after_mark: "after (mark x) y \<longleftrightarrow> cmp x y < 0"
begin

lemma after_suffix:
  assumes sep: "separates cmp table" and s: "js_sort cmp table = xs @ x # ys"
  shows "js_sort cmp (filter (after (mark x)) table) = ys"
proof -
  have sorted: "sorted_wrt (\<lambda>a b. cmp a b \<le> 0) (xs @ x # ys)"
    using sorted_js_sort[of table] by (simp add: s)
  have sepx: "separates cmp (xs @ x # ys)" using sep by (simp flip: s add: separates_sort)
  have "filter (after (mark x)) xs = []"
    using sorted cmp_antisym[of x] by (auto simp: filter_empty_conv after_mark sorted_wrt_append not_less)
  moreover have "\<not> after (mark x) x" by (simp add: after_mark cmp_refl)
  moreover have "cmp x y < 0" if "y \<in> set ys" for y
  proof -
    from sorted that have "cmp x y \<le> 0" by (simp add: sorted_wrt_append)
    moreover from sepx that have "cmp x y \<noteq> 0" by (auto simp: separates_def)
    ultimately show ?thesis by simp
  qed
  then have "filter (after (mark x)) ys = ys" by (simp add: after_mark filter_id_conv)
  ultimately show ?thesis by (simp add: filter_js_sort[OF sep] s)
qed

lemma query_suffix:
  assumes "separates cmp table" and "js_sort cmp table = xs @ x # ys"
  shows "key_query cmp after (Some (mark x)) n table = take n ys"
  using after_suffix[OF assms] by (simp add: key_query_def)

text \<open>What the rows after the start, or after a row, look like: a suffix of the sorted table.\<close>

definition rest :: "'a list \<Rightarrow> 'c option \<Rightarrow> 'a list \<Rightarrow> bool" where
  "rest table c ys \<longleftrightarrow> (c = None \<and> ys = js_sort cmp table) \<or>
    (\<exists>xs x. c = Some (mark x) \<and> js_sort cmp table = xs @ x # ys)"

lemma query_rest: "separates cmp table \<Longrightarrow> rest table c ys \<Longrightarrow> key_query cmp after c n table = take n ys"
  unfolding rest_def by (auto simp: query_suffix) (simp add: key_query_def)

lemma rest_step:
  assumes "rest table c (us @ x # vs)"
  shows "rest table (Some (mark x)) vs"
  using assms unfolding rest_def by (metis append.assoc append_Cons)

lemma page_rest:
  assumes sep: "separates cmp table" and r: "rest table c ys" and l: "0 < limit"
  shows "key_page cmp after mark limit table c =
    (take limit ys, if length ys > limit then Some (mark (ys ! (limit - 1))) else None)"
proof -
  have "last (take limit (take (limit + 1) ys)) = ys ! (limit - 1)" if "length ys > limit"
    using that l by (simp add: min_def last_take_nth)
  moreover have "take limit (take (limit + 1) ys) = take limit ys" by (simp add: min_def)
  ultimately show ?thesis
    using l by (auto simp: key_page_def Let_def query_rest[OF sep r])
qed

lemma next_rest:
  assumes "rest table c ys" and "0 < limit" and "limit < length ys"
  shows "rest table (Some (mark (ys ! (limit - 1)))) (drop limit ys)"
proof -
  have "ys = take (limit - 1) ys @ ys ! (limit - 1) # drop (Suc (limit - 1)) ys"
    using assms by (intro id_take_nth_drop) simp
  with assms(1,2) show ?thesis by (intro rest_step[where us = "take (limit - 1) ys"]) simp
qed

lemma follow_rest:
  assumes sep: "separates cmp table" and l: "0 < limit" and r: "rest table c ys" and n: "length ys < n"
  shows "listed limit (follow n (key_page cmp after mark limit table) c) ys"
  by (rule follow_positions[where pos = "rest table", OF _ l r n])
    (use next_rest l in \<open>auto simp: page_rest[OF sep _ l]\<close>)

lemma follow_all:
  assumes "separates cmp table" and "0 < limit" and "length table < n"
  shows "listed limit (follow n (key_page cmp after mark limit table) None) (js_sort cmp table)"
  by (rule follow_rest[OF assms(1,2)]) (use assms(3) in \<open>simp_all add: rest_def\<close>)

end

end
