(* ===== verification/Workspace_Db.thy ===== *)
theory Workspace_Db
  imports Keyset
begin

text \<open>
  The tables of the personal workspace (\<open>packages/workspace/src\<close>, \<open>schema.prisma\<close>): one row
  per object with its task, reminder, list or note part, and the items of lists. Instants are
  milliseconds; where the code passes them as ISO text, in views and cursors, the instant stands
  for its text. Ids the database draws are arguments, and creating a row with an id that is taken
  is the unique violation of the database. Every operation of a service finds its object by id,
  owner, kind and \<open>deletedAt: null\<close>.
\<close>

section \<open>Errors and rows\<close>

datatype workspace_error_code =
    NOT_FOUND | VALIDATION_ERROR | INVALID_TIMEZONE | TIMEZONE_REQUIRED | PAYLOAD_TOO_LARGE
  | REORDER_INVALID | LIST_FULL | STATUS_INVALID | CONFLICT

datatype workspace_error = WorkspaceError workspace_error_code | WorkspaceDbError string

definition workspace_http_status :: "workspace_error_code \<Rightarrow> nat" where
  "workspace_http_status code = (if code = NOT_FOUND then 404 else if code = CONFLICT then 409 else 400)"

record task_part =
  tk_title :: string
  tk_description :: "string option"
  tk_status :: string
  tk_priority :: "string option"
  tk_dueAt :: "int option"
  tk_completedAt :: "int option"
  tk_assignedByUserId :: "string option"
  tk_assignmentSourceType :: "string option"
  tk_assignmentSourceId :: "string option"

record reminder_part =
  rm_title :: string
  rm_description :: "string option"
  rm_scheduledAt :: int
  rm_timezone :: string
  rm_status :: string
  rm_linkedTaskId :: "string option"
  rm_canceledAt :: "int option"
  rm_deliveredAt :: "int option"

record list_part =
  ls_type :: string
  ls_title :: string
  ls_description :: "string option"

record note_part =
  nt_title :: string
  nt_contentMarkdown :: string
  nt_pinnedAt :: "int option"

record workspace_object =
  wo_id :: string
  wo_kind :: string
  wo_ownerUserId :: string
  wo_createdByUserId :: string
  wo_sourceConversationId :: "string option"
  wo_sourceMessageId :: "string option"
  wo_archivedAt :: "int option"
  wo_deletedAt :: "int option"
  wo_createdAt :: int
  wo_updatedAt :: int
  wo_task :: "task_part option"
  wo_reminder :: "reminder_part option"
  wo_list :: "list_part option"
  wo_note :: "note_part option"

record list_item =
  li_id :: string
  li_listId :: string
  li_text :: string
  li_position :: int
  li_completedAt :: "int option"
  li_createdAt :: int
  li_updatedAt :: int

record workspace_db =
  wd_objects :: "workspace_object list"
  wd_items :: "list_item list"

section \<open>What the services share\<close>

record trusted_source =
  src_conversationId :: "string option"
  src_messageId :: "string option"

definition new_object ::
    "string \<Rightarrow> string \<Rightarrow> string \<Rightarrow> string \<Rightarrow> trusted_source option \<Rightarrow> int \<Rightarrow> workspace_object" where
  "new_object i kind owner creator source stamp =
    \<lparr>wo_id = i, wo_kind = kind, wo_ownerUserId = owner, wo_createdByUserId = creator,
     wo_sourceConversationId = Option.bind source src_conversationId,
     wo_sourceMessageId = Option.bind source src_messageId,
     wo_archivedAt = None, wo_deletedAt = None, wo_createdAt = stamp, wo_updatedAt = stamp,
     wo_task = None, wo_reminder = None, wo_list = None, wo_note = None\<rparr>"

definition create_object :: "workspace_object \<Rightarrow> workspace_db \<Rightarrow> workspace_error + workspace_db" where
  "create_object row db =
    (if wo_id row \<in> wo_id ` set (wd_objects db) then Inl (WorkspaceDbError ''P2002'')
     else Inr (db\<lparr>wd_objects := wd_objects db @ [row]\<rparr>))"

definition is_visible :: "string \<Rightarrow> string \<Rightarrow> workspace_object \<Rightarrow> bool" where
  "is_visible kind actor row \<longleftrightarrow> wo_ownerUserId row = actor \<and> wo_kind row = kind \<and> wo_deletedAt row = None"

definition load_object :: "string \<Rightarrow> string \<Rightarrow> string \<Rightarrow> workspace_db \<Rightarrow> workspace_error + workspace_object" where
  "load_object kind actor i db =
    the_row (WorkspaceError NOT_FOUND) (find (\<lambda>row. wo_id row = i \<and> is_visible kind actor row) (wd_objects db))"

definition update_object ::
    "string \<Rightarrow> (workspace_object \<Rightarrow> workspace_object) \<Rightarrow> int \<Rightarrow> workspace_db \<Rightarrow> workspace_db" where
  "update_object i f stamp db = db\<lparr>wd_objects :=
    row_update wo_id i (\<lambda>row. (f row)\<lparr>wo_updatedAt := stamp\<rparr>) (wd_objects db)\<rparr>"

definition delete_object ::
    "string \<Rightarrow> string \<Rightarrow> string \<Rightarrow> int \<Rightarrow> int \<Rightarrow> workspace_db \<Rightarrow> workspace_error + workspace_db \<times> unit" where
  "delete_object kind actor i now stamp db =
    rbind (load_object kind actor i db) (\<lambda>_.
      Inr (update_object i (\<lambda>row. row\<lparr>wo_deletedAt := Some now\<rparr>) stamp db, ()))"

text \<open>
  A field of an update that may be missing (\<open>undefined\<close>) or \<open>null\<close>; the archive switch keeps
  the first time.
\<close>

definition given :: "'a option \<Rightarrow> 'a \<Rightarrow> 'a" where
  "given x old = (case x of None \<Rightarrow> old | Some v \<Rightarrow> v)"

definition stamped :: "bool option \<Rightarrow> int option \<Rightarrow> int \<Rightarrow> int option" where
  "stamped x old now = (case x of None \<Rightarrow> old
     | Some b \<Rightarrow> if b then Some (case old of None \<Rightarrow> now | Some t \<Rightarrow> t) else None)"

definition archived_as :: "bool \<Rightarrow> workspace_object \<Rightarrow> bool" where
  "archived_as archived row \<longleftrightarrow> (wo_archivedAt row \<noteq> None) = archived"

lemma case_missing_Inr:
  "(case x of None \<Rightarrow> Inl e | Some t \<Rightarrow> f t) = Inr y \<longleftrightarrow> (\<exists>t. x = Some t \<and> f t = Inr y)"
  by (cases x) simp_all

lemma load_object_Inr:
  "load_object kind actor i db = Inr row \<Longrightarrow>
    row \<in> set (wd_objects db) \<and> wo_id row = i \<and> is_visible kind actor row"
  by (auto simp: load_object_def res_simps dest: findD)

lemma wo_id_update [simp]:
  "map wo_id (wd_objects (update_object i f s db)) = map wo_id (wd_objects db)"
  if "\<And>row. wo_id (f row) = wo_id row"
  using that by (simp add: update_object_def)

section \<open>What a request may touch\<close>

text \<open>
  A request of one user leaves every row of the others as it is, creates no second row with an
  id, and never changes whose a row is or what kind it has.
\<close>

definition same_identity :: "workspace_object \<Rightarrow> workspace_object \<Rightarrow> bool" where
  "same_identity a b \<longleftrightarrow> wo_id b = wo_id a \<and> wo_kind b = wo_kind a \<and>
    wo_ownerUserId b = wo_ownerUserId a \<and> wo_createdByUserId b = wo_createdByUserId a \<and>
    wo_createdAt b = wo_createdAt a"

definition row_kept :: "string \<Rightarrow> workspace_object \<Rightarrow> workspace_object \<Rightarrow> bool" where
  "row_kept actor a b \<longleftrightarrow> same_identity a b \<and>
    (wo_ownerUserId a \<noteq> actor \<or> wo_deletedAt a \<noteq> None \<longrightarrow> b = a)"

definition objects_kept :: "string \<Rightarrow> workspace_object list \<Rightarrow> workspace_object list \<Rightarrow> bool" where
  "objects_kept actor xs ys \<longleftrightarrow> (\<exists>zs. list_all2 (row_kept actor) xs (take (length xs) ys) \<and>
    ys = take (length xs) ys @ zs \<and> list_all (\<lambda>z. wo_createdByUserId z = actor) zs)"

lemma objects_kept_refl: "objects_kept actor xs xs"
  by (auto simp: objects_kept_def row_kept_def same_identity_def list.rel_refl)

lemma objects_kept_create:
  assumes "create_object row db = Inr db'" and "wo_createdByUserId row = actor"
  shows "objects_kept actor (wd_objects db) (wd_objects db')"
  using assms by (auto simp: create_object_def objects_kept_def row_kept_def same_identity_def list.rel_refl
      split: if_splits)

lemma objects_kept_update:
  assumes "distinct (map wo_id (wd_objects db))" and "load_object kind actor i db = Inr row"
    and "\<And>x. same_identity x (f x)"
  shows "objects_kept actor (wd_objects db) (wd_objects (update_object i f s db))"
proof -
  from load_object_Inr[OF assms(2)] have row: "row \<in> set (wd_objects db)" "wo_id row = i"
    "wo_ownerUserId row = actor" "wo_deletedAt row = None"
    by (auto simp: is_visible_def)
  have "row_kept actor x (if wo_id x = i then (f x)\<lparr>wo_updatedAt := s\<rparr> else x)" if "x \<in> set (wd_objects db)" for x
  proof (cases "wo_id x = i")
    case True
    with that row assms(1) have "x = row" by (simp add: distinct_map inj_on_def)
    with True row assms(3)[of x] show ?thesis by (simp add: row_kept_def same_identity_def)
  next
    case False
    then show ?thesis by (simp add: row_kept_def same_identity_def)
  qed
  then have "list_all2 (row_kept actor) (wd_objects db) (wd_objects (update_object i f s db))"
    by (simp add: update_object_def row_update_def list_all2_conv_all_nth)
  moreover have "length (wd_objects (update_object i f s db)) = length (wd_objects db)"
    by (simp add: update_object_def)
  ultimately show ?thesis by (simp add: objects_kept_def)
qed

end
