(* ===== verification/Workspace_Tasks.thy ===== *)
theory Workspace_Tasks
  imports Workspace_Db
begin

text \<open>
  \<open>task-service.ts\<close> and \<open>task-order.ts\<close>: tasks of the workspace, listed active ones first by
  due date, then finished ones by last change, in pages whose cursors name the last row and the
  group it belongs to. The base64 JSON text of a cursor is left out; dates given as ISO text are
  instants. The name of the user who assigned a task comes from the user table, a parameter.
\<close>

section \<open>Orders\<close>

definition isActiveTaskStatus :: "string \<Rightarrow> bool" where
  "isActiveTaskStatus status \<longleftrightarrow> status = ''TODO'' \<or> status = ''IN_PROGRESS''"

datatype task_group = Group_a | Group_f

text \<open>A cursor: the start of a group, or a row of it (due date, update, creation, id).\<close>

datatype task_cursor = Group_Start task_group | After_Row task_group "int option" int int string

fun cursor_group :: "task_cursor \<Rightarrow> task_group" where
  "cursor_group (Group_Start g) = g"
| "cursor_group (After_Row g d u c i) = g"

definition due_of :: "workspace_object \<Rightarrow> int option" where
  "due_of row = (case wo_task row of None \<Rightarrow> None | Some t \<Rightarrow> tk_dueAt t)"

definition status_of :: "workspace_object \<Rightarrow> string" where
  "status_of row = (case wo_task row of None \<Rightarrow> [] | Some t \<Rightarrow> tk_status t)"

text \<open>\<open>activeOrderBy\<close> and \<open>finishedOrderBy\<close>; null due dates come last.\<close>

fun nulls_last :: "int option \<Rightarrow> int option \<Rightarrow> int" where
  "nulls_last None None = 0"
| "nulls_last None (Some _) = 1"
| "nulls_last (Some _) None = - 1"
| "nulls_last (Some a) (Some b) = int_cmp a b"

definition activeOrderBy :: "workspace_object \<Rightarrow> workspace_object \<Rightarrow> int" where
  "activeOrderBy = cmp_then (cmp_on nulls_last due_of) (cmp_then (cmp_rev (cmp_on int_cmp wo_updatedAt))
    (cmp_then (cmp_on int_cmp wo_createdAt) (cmp_on string_cmp wo_id)))"

definition finishedOrderBy :: "workspace_object \<Rightarrow> workspace_object \<Rightarrow> int" where
  "finishedOrderBy = cmp_then (cmp_rev (cmp_on int_cmp wo_updatedAt))
    (cmp_then (cmp_rev (cmp_on int_cmp wo_createdAt)) (cmp_rev (cmp_on string_cmp wo_id)))"

definition group_order :: "task_group \<Rightarrow> workspace_object \<Rightarrow> workspace_object \<Rightarrow> int" where
  "group_order g = (case g of Group_a \<Rightarrow> activeOrderBy | Group_f \<Rightarrow> finishedOrderBy)"

definition remainingAfterCursor :: "int \<Rightarrow> int \<Rightarrow> string \<Rightarrow> task_group \<Rightarrow> workspace_object \<Rightarrow> bool" where
  "remainingAfterCursor u c i direction row =
    (case direction of
       Group_f \<Rightarrow> wo_updatedAt row < u \<or> (wo_updatedAt row = u \<and> wo_createdAt row < c) \<or>
         (wo_updatedAt row = u \<and> wo_createdAt row = c \<and> string_cmp (wo_id row) i < 0)
     | Group_a \<Rightarrow> wo_updatedAt row < u \<or> (wo_updatedAt row = u \<and> wo_createdAt row > c) \<or>
         (wo_updatedAt row = u \<and> wo_createdAt row = c \<and> string_cmp (wo_id row) i > 0))"

text \<open>The condition on rows after a cursor; the start of a group adds none.\<close>

fun groupAfterCursor :: "task_group \<Rightarrow> task_cursor \<Rightarrow> workspace_object \<Rightarrow> bool" where
  "groupAfterCursor grp (Group_Start _) row = True"
| "groupAfterCursor grp (After_Row _ due u c i) row =
    (case grp of
       Group_f \<Rightarrow> remainingAfterCursor u c i Group_f row
     | Group_a \<Rightarrow> (case due of
         None \<Rightarrow> due_of row = None \<and> remainingAfterCursor u c i Group_a row
       | Some d \<Rightarrow> (case due_of row of
           Some e \<Rightarrow> e > d \<or> (e = d \<and> remainingAfterCursor u c i Group_a row)
         | None \<Rightarrow> True)))"

definition cursorFromRow :: "task_group \<Rightarrow> workspace_object \<Rightarrow> task_cursor" where
  "cursorFromRow grp row =
    After_Row grp (due_of row) (wo_updatedAt row) (wo_createdAt row) (wo_id row)"

section \<open>Views and listing\<close>

record task_view =
  tv_id :: string
  tv_title :: string
  tv_description :: "string option"
  tv_status :: string
  tv_priority :: "string option"
  tv_dueAt :: "int option"
  tv_completedAt :: "int option"
  tv_archivedAt :: "int option"
  tv_createdAt :: int
  tv_updatedAt :: int
  tv_assignedByUserId :: "string option"
  tv_assignedByName :: "string option"

type_synonym user_names = "string \<Rightarrow> string option"

definition toTaskView :: "user_names \<Rightarrow> workspace_object \<Rightarrow> workspace_error + task_view" where
  "toTaskView names row = (case wo_task row of
     None \<Rightarrow> Inl (WorkspaceError NOT_FOUND)
   | Some t \<Rightarrow> Inr \<lparr>tv_id = wo_id row, tv_title = tk_title t, tv_description = tk_description t,
       tv_status = tk_status t, tv_priority = tk_priority t, tv_dueAt = tk_dueAt t,
       tv_completedAt = tk_completedAt t, tv_archivedAt = wo_archivedAt row,
       tv_createdAt = wo_createdAt row, tv_updatedAt = wo_updatedAt row,
       tv_assignedByUserId = tk_assignedByUserId t,
       tv_assignedByName = Option.bind (tk_assignedByUserId t) names\<rparr>)"

record task_query =
  tq_limit :: nat
  tq_cursor :: "task_cursor option"
  tq_archived :: bool
  tq_status :: "string option"
  tq_dueFrom :: "int option"
  tq_dueTo :: "int option"

text \<open>A due-date bound of the query excludes tasks without a due date.\<close>

definition baseWhere :: "string \<Rightarrow> task_query \<Rightarrow> workspace_object \<Rightarrow> bool" where
  "baseWhere actor query row \<longleftrightarrow> is_visible ''TASK'' actor row \<and> archived_as (tq_archived query) row \<and>
    wo_task row \<noteq> None \<and>
    (case tq_dueFrom query of None \<Rightarrow> True | Some a \<Rightarrow> (case due_of row of None \<Rightarrow> False | Some d \<Rightarrow> a \<le> d)) \<and>
    (case tq_dueTo query of None \<Rightarrow> True | Some b \<Rightarrow> (case due_of row of None \<Rightarrow> False | Some d \<Rightarrow> d \<le> b))"

definition group_statuses :: "task_group \<Rightarrow> string option \<Rightarrow> string list" where
  "group_statuses g status = (case status of Some s \<Rightarrow> [s]
     | None \<Rightarrow> (case g of Group_a \<Rightarrow> [''TODO'', ''IN_PROGRESS''] | Group_f \<Rightarrow> [''DONE'', ''CANCELED'']))"

definition fetchGroup ::
    "workspace_object list \<Rightarrow> task_group \<Rightarrow> string option \<Rightarrow> task_cursor option \<Rightarrow> nat \<Rightarrow>
      workspace_object list" where
  "fetchGroup base grp status cursor n =
    key_query (group_order grp) (groupAfterCursor grp) cursor n
      (filter (\<lambda>row. status_of row \<in> set (group_statuses grp status)) base)"

definition pageGroup ::
    "workspace_object list \<Rightarrow> task_group \<Rightarrow> string option \<Rightarrow> task_cursor option \<Rightarrow> nat \<Rightarrow>
      workspace_object list \<times> task_cursor option" where
  "pageGroup base grp status cursor limit =
    (let rows = fetchGroup base grp status cursor (limit + 1); page = take limit rows
     in (page, if length rows > limit \<and> page \<noteq> [] then Some (cursorFromRow grp (last page)) else None))"

definition list_rows ::
    "workspace_object list \<Rightarrow> string option \<Rightarrow> nat \<Rightarrow> task_cursor option \<Rightarrow>
      workspace_object list \<times> task_cursor option" where
  "list_rows base status limit cursor =
    (let in_group = (\<lambda>g. case cursor of Some c \<Rightarrow> if cursor_group c = g then Some c else None | None \<Rightarrow> None)
     in case status of
       Some s \<Rightarrow> if isActiveTaskStatus s then pageGroup base Group_a status (in_group Group_a) limit
         else pageGroup base Group_f status (in_group Group_f) limit
     | None \<Rightarrow>
         if cursor = None \<or> in_group Group_a \<noteq> None then
           (let active = fetchGroup base Group_a None cursor (limit + 1) in
            if length active > limit then
              (let page = take limit active in
                (page, if page \<noteq> [] then Some (cursorFromRow Group_a (last page)) else None))
            else let remaining = limit - length active in
              if remaining = 0 then
                (active, if fetchGroup base Group_f None None 1 \<noteq> [] then Some (Group_Start Group_f) else None)
              else let finished = fetchGroup base Group_f None None (remaining + 1);
                  page = active @ take remaining finished
                in (page, if length finished > remaining \<and> page \<noteq> []
                    then Some (cursorFromRow Group_f (last page)) else None))
         else pageGroup base Group_f None cursor limit)"

definition listTasks ::
    "user_names \<Rightarrow> string \<Rightarrow> task_query \<Rightarrow> workspace_db \<Rightarrow>
      workspace_error + task_view list \<times> task_cursor option" where
  "listTasks names actor query db =
    (case list_rows (filter (baseWhere actor query) (wd_objects db)) (tq_status query) (tq_limit query)
        (tq_cursor query) of
       (rows, cursor) \<Rightarrow> rbind (map_res (toTaskView names) rows) (\<lambda>items. Inr (items, cursor)))"

section \<open>Changing tasks\<close>

definition completedAtForStatus :: "string \<Rightarrow> int \<Rightarrow> int option" where
  "completedAtForStatus status at = (if status = ''DONE'' then Some at else None)"

record create_task =
  cr_title :: string
  cr_description :: "string option"
  cr_status :: "string option"
  cr_priority :: "string option"
  cr_dueAt :: "int option"

record task_assignment =
  as_ownerUserId :: string
  as_assignedByUserId :: "string option"
  as_sourceType :: "string option"
  as_sourceId :: "string option"

definition getTask :: "user_names \<Rightarrow> string \<Rightarrow> string \<Rightarrow> workspace_db \<Rightarrow> workspace_error + task_view" where
  "getTask names actor i db = rbind (load_object ''TASK'' actor i db) (toTaskView names)"

definition createTask ::
    "user_names \<Rightarrow> string \<Rightarrow> create_task \<Rightarrow> trusted_source option \<Rightarrow> task_assignment option \<Rightarrow> string \<Rightarrow>
      int \<Rightarrow> int \<Rightarrow> workspace_db \<Rightarrow> workspace_error + workspace_db \<times> task_view" where
  "createTask names actor input source assignment i now stamp db =
    (let status = given (cr_status input) ''TODO'' in
     if status = ''DONE'' then Inl (WorkspaceError STATUS_INVALID)
     else let owner = (case assignment of None \<Rightarrow> actor | Some a \<Rightarrow> as_ownerUserId a);
         assignedBy = (case Option.bind assignment as_assignedByUserId of None \<Rightarrow> None
           | Some u \<Rightarrow> if u \<noteq> [] \<and> u \<noteq> owner then Some u else None);
         row = (new_object i ''TASK'' owner actor source stamp)\<lparr>wo_task := Some
           \<lparr>tk_title = cr_title input, tk_description = cr_description input, tk_status = status,
            tk_priority = cr_priority input, tk_dueAt = cr_dueAt input,
            tk_completedAt = completedAtForStatus status now, tk_assignedByUserId = assignedBy,
            tk_assignmentSourceType = (if assignedBy \<noteq> None then Option.bind assignment as_sourceType else None),
            tk_assignmentSourceId = (if assignedBy \<noteq> None then Option.bind assignment as_sourceId else None)\<rparr>\<rparr>
       in rbind (create_object row db) (\<lambda>db'. rbind (toTaskView names row) (\<lambda>view. Inr (db', view))))"

text \<open>Missing fields are \<open>None\<close>; of those that may be \<open>null\<close>, \<open>Some None\<close> is \<open>null\<close>.\<close>

record update_task =
  up_title :: "string option"
  up_description :: "string option option"
  up_status :: "string option"
  up_priority :: "string option option"
  up_dueAt :: "int option option"
  up_archived :: "bool option"

definition updateTask ::
    "user_names \<Rightarrow> string \<Rightarrow> string \<Rightarrow> update_task \<Rightarrow> int \<Rightarrow> int \<Rightarrow> workspace_db \<Rightarrow>
      workspace_error + workspace_db \<times> task_view" where
  "updateTask names actor i input now stamp db =
    rbind (load_object ''TASK'' actor i db) (\<lambda>existing.
      case wo_task existing of
        None \<Rightarrow> Inl (WorkspaceError NOT_FOUND)
      | Some t \<Rightarrow>
          let nextStatus = given (up_status input) (tk_status t);
              completedAt = completedAtForStatus nextStatus
                (case tk_completedAt t of None \<Rightarrow> now | Some c \<Rightarrow> c);
              db' = update_object i (\<lambda>row. row\<lparr>
                wo_archivedAt := stamped (up_archived input) (wo_archivedAt existing) now,
                wo_task := Some (t\<lparr>tk_title := given (up_title input) (tk_title t),
                  tk_description := given (up_description input) (tk_description t),
                  tk_status := nextStatus,
                  tk_priority := given (up_priority input) (tk_priority t),
                  tk_dueAt := given (up_dueAt input) (tk_dueAt t),
                  tk_completedAt := completedAt\<rparr>)\<rparr>) stamp db
          in rbind (getTask names actor i db') (\<lambda>view. Inr (db', view)))"

definition deleteTask ::
    "string \<Rightarrow> string \<Rightarrow> int \<Rightarrow> int \<Rightarrow> workspace_db \<Rightarrow> workspace_error + workspace_db \<times> unit" where
  "deleteTask actor i now stamp db = delete_object ''TASK'' actor i now stamp db"


section \<open>The orders are keysets\<close>

lemma comparator_nulls_last [cmp_intros]: "comparator nulls_last"
proof
  fix x y z
  show "nulls_last x y < 0 \<longleftrightarrow> 0 < nulls_last y x" by (cases x; cases y) (auto simp: int_cmp_def)
  show "nulls_last x y \<le> 0 \<Longrightarrow> nulls_last y z \<le> 0 \<Longrightarrow> nulls_last x z \<le> 0"
    by (cases x; cases y; cases z) (auto simp: int_cmp_def)
qed

lemma nulls_last_simps [simp]:
  "nulls_last x None < 0 \<longleftrightarrow> x \<noteq> None" "nulls_last x None = 0 \<longleftrightarrow> x = None" "nulls_last None x < 0 \<longleftrightarrow> False"
  "nulls_last (Some a) x < 0 \<longleftrightarrow> (case x of None \<Rightarrow> True | Some b \<Rightarrow> a < b)"
  "nulls_last (Some a) x = 0 \<longleftrightarrow> x = Some a" "nulls_last None x = 0 \<longleftrightarrow> x = None"
  by (cases x; auto simp: int_cmp_def)+

lemmas order_unfold = cmp_then_def cmp_on_def cmp_rev_def int_cmp_def

interpretation active_tasks: keyset activeOrderBy "groupAfterCursor Group_a" "cursorFromRow Group_a"
proof (intro keyset.intro keyset_axioms.intro)
  show "comparator activeOrderBy" unfolding activeOrderBy_def by (intro cmp_intros)
  fix x y
  show "groupAfterCursor Group_a (cursorFromRow Group_a x) y \<longleftrightarrow> activeOrderBy x y < 0"
    by (cases "due_of x"; cases "due_of y") (auto simp: activeOrderBy_def order_unfold cursorFromRow_def
        remainingAfterCursor_def string_cmp_antisym)
qed

interpretation finished_tasks: keyset finishedOrderBy "groupAfterCursor Group_f" "cursorFromRow Group_f"
proof (intro keyset.intro keyset_axioms.intro)
  show "comparator finishedOrderBy" unfolding finishedOrderBy_def by (intro cmp_intros)
  fix x y
  show "groupAfterCursor Group_f (cursorFromRow Group_f x) y \<longleftrightarrow> finishedOrderBy x y < 0"
    by (auto simp: finishedOrderBy_def order_unfold cursorFromRow_def remainingAfterCursor_def string_cmp_antisym)
qed

lemma task_orders_separate:
  assumes "distinct (map wo_id rows)"
  shows "separates activeOrderBy rows" and "separates finishedOrderBy rows"
  by (rule separates_by_key[OF assms]; auto simp: activeOrderBy_def finishedOrderBy_def order_unfold split: if_splits)+

section \<open>Paging through the tasks\<close>

definition group_rows :: "task_group \<Rightarrow> workspace_object list \<Rightarrow> workspace_object list" where
  "group_rows g base = js_sort (group_order g) (filter (\<lambda>row. status_of row \<in> set (group_statuses g None)) base)"

text \<open>The rest of the default listing that a cursor stands for.\<close>

definition task_position ::
    "workspace_object list \<Rightarrow> task_cursor option \<Rightarrow> workspace_object list \<Rightarrow> bool" where
  "task_position base c ys \<longleftrightarrow>
    (case c of
       Some (Group_Start g) \<Rightarrow> g = Group_f \<and> ys = group_rows Group_f base
     | Some (After_Row Group_f d u t i) \<Rightarrow>
         finished_tasks.rest (filter (\<lambda>row. status_of row \<in> set (group_statuses Group_f None)) base) c ys
     | _ \<Rightarrow> (\<exists>as. ys = as @ group_rows Group_f base \<and>
         active_tasks.rest (filter (\<lambda>row. status_of row \<in> set (group_statuses Group_a None)) base) c as))"

lemma group_order_simps [simp]:
  "group_order Group_a = activeOrderBy" "group_order Group_f = finishedOrderBy"
  by (simp_all add: group_order_def)

lemma cursor_mark: "\<exists>d u t i. cursorFromRow g x = After_Row g d u t i"
  by (simp add: cursorFromRow_def)

lemma fetch_finished_start:
  "fetchGroup base Group_f None None n = take n (group_rows Group_f base)"
  "fetchGroup base Group_f None (Some (Group_Start g)) n = take n (group_rows Group_f base)"
  by (simp_all add: fetchGroup_def key_query_def group_rows_def)

lemma finished_rest_start:
  "finished_tasks.rest (filter (\<lambda>row. status_of row \<in> set (group_statuses Group_f None)) base) None ys \<longleftrightarrow>
    ys = group_rows Group_f base"
  by (simp add: finished_tasks.rest_def group_rows_def)

lemma finished_page:
  assumes d: "distinct (map wo_id base)" and l: "0 < limit"
    and r: "finished_tasks.rest (filter (\<lambda>row. status_of row \<in> set (group_statuses Group_f None)) base) c ys"
      (is "finished_tasks.rest ?table c ys")
    and c: "fetchGroup base Group_f None c' = fetchGroup base Group_f None c"
  shows "fst (pageGroup base Group_f None c' limit) = take limit ys \<and>
    (if limit < length ys
     then \<exists>k. snd (pageGroup base Group_f None c' limit) = Some k \<and> task_position base (Some k) (drop limit ys)
     else snd (pageGroup base Group_f None c' limit) = None)"
proof -
  have sep: "separates finishedOrderBy ?table"
    by (rule separates_filter[OF task_orders_separate(2)[OF d]])
  have "pageGroup base Group_f None c' limit =
      key_page finishedOrderBy (groupAfterCursor Group_f) (cursorFromRow Group_f) limit ?table c"
    by (simp add: pageGroup_def c) (simp add: fetchGroup_def key_page_def)
  with finished_tasks.page_rest[OF sep r l] finished_tasks.next_rest[OF r l] show ?thesis
    by (auto simp: task_position_def cursorFromRow_def)
qed

lemma active_page:
  assumes d: "distinct (map wo_id base)" and l: "0 < limit"
    and r: "active_tasks.rest (filter (\<lambda>row. status_of row \<in> set (group_statuses Group_a None)) base) c as"
      (is "active_tasks.rest ?table c as")
    and c: "c = None \<or> (\<exists>k. c = Some k \<and> cursor_group k = Group_a)"
  shows "fst (list_rows base None limit c) = take limit (as @ group_rows Group_f base) \<and>
    (if limit < length (as @ group_rows Group_f base)
     then \<exists>k. snd (list_rows base None limit c) = Some k \<and>
       task_position base (Some k) (drop limit (as @ group_rows Group_f base))
     else snd (list_rows base None limit c) = None)"
proof -
  let ?F = "group_rows Group_f base"
  have sep: "separates activeOrderBy ?table"
    by (rule separates_filter[OF task_orders_separate(1)[OF d]])
  have fetch: "fetchGroup base Group_a None c n = take n as" for n
    by (simp add: fetchGroup_def active_tasks.query_rest[OF sep r])
  consider "length as > limit" | "length as = limit" | "length as < limit" by linarith
  then show ?thesis
  proof cases
    case 1
    have "task_position base (Some (cursorFromRow Group_a (as ! (limit - 1)))) (drop limit as @ ?F)"
      using active_tasks.next_rest[OF r l 1] by (auto simp: task_position_def cursorFromRow_def)
    moreover have "last (take limit as) = as ! (limit - 1)" using 1 l by (simp add: last_take_nth)
    ultimately show ?thesis
      using 1 l c by (auto simp: list_rows_def Let_def fetch min_def)
  next
    case 2
    then show ?thesis
      using c l by (auto simp: list_rows_def Let_def fetch fetch_finished_start task_position_def)
  next
    case 3
    then obtain k where k: "limit = length as + k" "0 < k" using less_imp_add_positive by blast
    have rF: "finished_tasks.rest (filter (\<lambda>row. status_of row \<in> set (group_statuses Group_f None)) base) None ?F"
      by (simp add: finished_rest_start)
    have "task_position base (Some (cursorFromRow Group_f (?F ! (k - 1)))) (drop k ?F)" if "k < length ?F"
      using finished_tasks.next_rest[OF rF k(2) that] by (auto simp: task_position_def cursorFromRow_def)
    moreover have "last (as @ take k ?F) = ?F ! (k - 1)" if "k < length ?F"
      using that k by (cases ?F) (auto simp: last_take_nth)
    ultimately show ?thesis
      using c k by (auto simp: list_rows_def Let_def fetch fetch_finished_start min_def)
  qed
qed

lemma task_position_active:
  "c = None \<or> (\<exists>k. c = Some k \<and> cursor_group k = Group_a) \<Longrightarrow> task_position base c ys \<Longrightarrow>
    \<exists>as. ys = as @ group_rows Group_f base \<and>
      active_tasks.rest (filter (\<lambda>row. status_of row \<in> set (group_statuses Group_a None)) base) c as"
  by (auto simp: task_position_def split: option.splits task_cursor.splits task_group.splits)

lemma list_rows_position:
  assumes d: "distinct (map wo_id base)" and l: "0 < limit" and p: "task_position base c ys"
  shows "fst (list_rows base None limit c) = take limit ys \<and>
    (if limit < length ys
     then \<exists>k. snd (list_rows base None limit c) = Some k \<and> task_position base (Some k) (drop limit ys)
     else snd (list_rows base None limit c) = None)"
proof (cases "c = None \<or> (\<exists>k. c = Some k \<and> cursor_group k = Group_a)")
  case True
  from task_position_active[OF this p] active_page[OF d l _ True] show ?thesis by metis
next
  case False
  then obtain k where Some: "c = Some k" and f: "cursor_group k = Group_f"
    by (metis (full_types) not_None_eq task_group.exhaust)
  show ?thesis
  proof (cases k)
    case (Group_Start g)
    with Some p have ys: "ys = group_rows Group_f base" "g = Group_f" by (simp_all add: task_position_def)
    with finished_page[OF d l, where c = None and ys = "group_rows Group_f base" and c' = "Some (Group_Start Group_f)"] Some Group_Start
    show ?thesis
      unfolding Some Group_Start ys
      by (simp add: finished_rest_start fetch_finished_start fun_eq_iff list_rows_def Let_def)
  next
    case (After_Row g due u t i)
    with Some f p have r: "finished_tasks.rest
        (filter (\<lambda>row. status_of row \<in> set (group_statuses Group_f None)) base) c ys"
      and rows: "list_rows base None limit c = pageGroup base Group_f None c limit"
      by (simp_all add: task_position_def list_rows_def Let_def)
    show ?thesis unfolding rows by (rule finished_page[OF d l r refl])
  qed
qed


text \<open>
  C27: paging through the default task list is complete. Starting without a cursor and following
  the cursors it is given, a client sees exactly the matching tasks of the actor with a known
  status, each once: first the open ones, in the order due date (none last), last change first,
  creation, id; then the finished ones, last change first. No page is longer than asked for,
  all but the last are full, and the cursors end.
\<close>

theorem task_paging_complete:
  assumes "distinct (map wo_id (wd_objects db))" and "0 < limit"
    and "length (wd_objects db) < n" and "base = filter (baseWhere actor query) (wd_objects db)"
  shows "listed limit (follow n (list_rows base None limit) None)
    (js_sort activeOrderBy (filter (\<lambda>row. isActiveTaskStatus (status_of row)) base) @
     js_sort finishedOrderBy (filter (\<lambda>row. status_of row \<in> {''DONE'', ''CANCELED''}) base))"
proof -
  have rows: "group_rows Group_a base = js_sort activeOrderBy (filter (\<lambda>row. isActiveTaskStatus (status_of row)) base)"
      "group_rows Group_f base = js_sort finishedOrderBy (filter (\<lambda>row. status_of row \<in> {''DONE'', ''CANCELED''}) base)"
    by (simp_all add: group_rows_def group_statuses_def isActiveTaskStatus_def cong: filter_cong)
  have d: "distinct (map wo_id base)" using assms(1,4) by (simp add: distinct_map_filter)
  have start: "task_position base None (group_rows Group_a base @ group_rows Group_f base)"
    by (simp add: task_position_def active_tasks.rest_def group_rows_def)
  have "length (group_rows Group_a base @ group_rows Group_f base) \<le> length base"
    by (induction base) (auto simp: group_rows_def group_statuses_def)
  also have "length base \<le> length (wd_objects db)" by (simp add: assms(4))
  finally have len: "length (group_rows Group_a base @ group_rows Group_f base) < n" using assms(3) by simp
  show ?thesis
    using follow_positions[where pos = "task_position base", OF list_rows_position[OF d assms(2)] assms(2) start len]
    by (simp only: rows)
qed

definition sample_task :: "string \<Rightarrow> string \<Rightarrow> string \<Rightarrow> int option \<Rightarrow> int \<Rightarrow> workspace_object" where
  "sample_task i owner status due changed = (new_object i ''TASK'' owner owner None 5)\<lparr>
    wo_updatedAt := changed, wo_task := Some \<lparr>tk_title = ''t'', tk_description = None, tk_status = status,
      tk_priority = None, tk_dueAt = due, tk_completedAt = completedAtForStatus status changed,
      tk_assignedByUserId = None, tk_assignmentSourceType = None, tk_assignmentSourceId = None\<rparr>\<rparr>"

definition sample_tasks :: workspace_db where
  "sample_tasks = \<lparr>wd_objects = [sample_task ''1'' ''ann'' ''DONE'' None 10, sample_task ''2'' ''ann'' ''TODO'' None 11,
    sample_task ''3'' ''ann'' ''TODO'' (Some 99) 12, sample_task ''4'' ''bob'' ''TODO'' (Some 1) 13,
    sample_task ''5'' ''ann'' ''CANCELED'' None 14, sample_task ''6'' ''ann'' ''IN_PROGRESS'' (Some 50) 15],
    wd_items = []\<rparr>"

definition all_tasks :: task_query where
  "all_tasks = \<lparr>tq_limit = 2, tq_cursor = None, tq_archived = False, tq_status = None, tq_dueFrom = None,
    tq_dueTo = None\<rparr>"

lemma task_paging_complete_witness:
  "map (map wo_id) (follow 7 (list_rows (filter (baseWhere ''ann'' all_tasks) (wd_objects sample_tasks)) None 2) None) =
    [[''6'', ''3''], [''2'', ''5''], [''1'']] \<and>
   listed 2 (follow 7 (list_rows (filter (baseWhere ''ann'' all_tasks) (wd_objects sample_tasks)) None 2) None)
    (js_sort activeOrderBy (filter (\<lambda>row. isActiveTaskStatus (status_of row))
        (filter (baseWhere ''ann'' all_tasks) (wd_objects sample_tasks))) @
     js_sort finishedOrderBy (filter (\<lambda>row. status_of row \<in> {''DONE'', ''CANCELED''})
        (filter (baseWhere ''ann'' all_tasks) (wd_objects sample_tasks))))"
proof
  have "distinct (map wo_id (wd_objects sample_tasks))" "length (wd_objects sample_tasks) < 7"
    by (simp_all add: sample_tasks_def sample_task_def new_object_def)
  then show "listed 2 (follow 7 (list_rows (filter (baseWhere ''ann'' all_tasks) (wd_objects sample_tasks)) None 2) None)
    (js_sort activeOrderBy (filter (\<lambda>row. isActiveTaskStatus (status_of row))
        (filter (baseWhere ''ann'' all_tasks) (wd_objects sample_tasks))) @
     js_sort finishedOrderBy (filter (\<lambda>row. status_of row \<in> {''DONE'', ''CANCELED''})
        (filter (baseWhere ''ann'' all_tasks) (wd_objects sample_tasks))))"
    by (intro task_paging_complete[OF _ _ _ refl]) simp_all
qed code_simp

end
