(* ===== verification/Workspace_Lists.thy ===== *)
theory Workspace_Lists
  imports Workspace_Db
begin

text \<open>
  \<open>list-service.ts\<close>: lists of the workspace and their items. Items are shown by position; a
  new item goes last, reordering renumbers all of them from 0.
\<close>

section \<open>Views\<close>

record item_view =
  iv_id :: string
  iv_text :: string
  iv_position :: int
  iv_completedAt :: "int option"
  iv_createdAt :: int
  iv_updatedAt :: int

record list_view =
  lv_id :: string
  lv_type :: string
  lv_title :: string
  lv_description :: "string option"
  lv_items :: "item_view list"
  lv_archivedAt :: "int option"
  lv_createdAt :: int
  lv_updatedAt :: int

definition items_of :: "string \<Rightarrow> workspace_db \<Rightarrow> list_item list" where
  "items_of i db = filter (\<lambda>item. li_listId item = i) (wd_items db)"

definition toListView :: "workspace_db \<Rightarrow> workspace_object \<Rightarrow> workspace_error + list_view" where
  "toListView db row = (case wo_list row of
     None \<Rightarrow> Inl (WorkspaceError NOT_FOUND)
   | Some l \<Rightarrow> Inr \<lparr>lv_id = wo_id row, lv_type = ls_type l, lv_title = ls_title l,
       lv_description = ls_description l,
       lv_items = map (\<lambda>item. \<lparr>iv_id = li_id item, iv_text = li_text item, iv_position = li_position item,
           iv_completedAt = li_completedAt item, iv_createdAt = li_createdAt item,
           iv_updatedAt = li_updatedAt item\<rparr>)
         (js_sort (cmp_on int_cmp li_position) (items_of (wo_id row) db)),
       lv_archivedAt = wo_archivedAt row, lv_createdAt = wo_createdAt row, lv_updatedAt = wo_updatedAt row\<rparr>)"

definition LIST_ITEMS_MAX :: nat where "LIST_ITEMS_MAX = 200"

section \<open>Operations\<close>

definition getList :: "string \<Rightarrow> string \<Rightarrow> workspace_db \<Rightarrow> workspace_error + list_view" where
  "getList actor i db = rbind (load_object ''LIST'' actor i db) (toListView db)"

definition createList ::
    "string \<Rightarrow> string \<Rightarrow> string \<Rightarrow> string option \<Rightarrow> trusted_source option \<Rightarrow> string \<Rightarrow> int \<Rightarrow> workspace_db \<Rightarrow>
      workspace_error + workspace_db \<times> list_view" where
  "createList actor type title description source i stamp db =
    (let row = (new_object i ''LIST'' actor actor source stamp)\<lparr>wo_list := Some
           \<lparr>ls_type = type, ls_title = title, ls_description = description\<rparr>\<rparr>
     in rbind (create_object row db) (\<lambda>db'. rbind (toListView db' row) (\<lambda>view. Inr (db', view))))"

text \<open>Lists are paged by last change, newest first; a cursor is the last row's change and id.\<close>

definition changedOrderBy :: "workspace_object \<Rightarrow> workspace_object \<Rightarrow> int" where
  "changedOrderBy = cmp_then (cmp_rev (cmp_on int_cmp wo_updatedAt)) (cmp_rev (cmp_on string_cmp wo_id))"

definition after_changed :: "int \<times> string \<Rightarrow> workspace_object \<Rightarrow> bool" where
  "after_changed c row \<longleftrightarrow> wo_updatedAt row < fst c \<or>
    (wo_updatedAt row = fst c \<and> string_cmp (wo_id row) (snd c) < 0)"

definition changed_cursor :: "workspace_object \<Rightarrow> int \<times> string" where
  "changed_cursor row = (wo_updatedAt row, wo_id row)"

definition listWhere :: "string \<Rightarrow> bool \<Rightarrow> string option \<Rightarrow> workspace_object \<Rightarrow> bool" where
  "listWhere actor archived type row \<longleftrightarrow> is_visible ''LIST'' actor row \<and> archived_as archived row \<and>
    (case type of None \<Rightarrow> True | Some t \<Rightarrow> (case wo_list row of None \<Rightarrow> False | Some l \<Rightarrow> ls_type l = t))"

definition page_lists ::
    "string \<Rightarrow> bool \<Rightarrow> string option \<Rightarrow> nat \<Rightarrow> workspace_db \<Rightarrow> (int \<times> string) option \<Rightarrow>
      workspace_object list \<times> (int \<times> string) option" where
  "page_lists actor archived type limit db =
    key_page changedOrderBy after_changed changed_cursor limit
      (filter (listWhere actor archived type) (wd_objects db))"

definition listLists ::
    "string \<Rightarrow> bool \<Rightarrow> string option \<Rightarrow> nat \<Rightarrow> (int \<times> string) option \<Rightarrow> workspace_db \<Rightarrow>
      workspace_error + list_view list \<times> (int \<times> string) option" where
  "listLists actor archived type limit cursor db =
    (case page_lists actor archived type limit db cursor of (rows, c) \<Rightarrow>
      rbind (map_res (toListView db) rows) (\<lambda>items. Inr (items, c)))"

definition updateList ::
    "string \<Rightarrow> string \<Rightarrow> string option \<Rightarrow> string option option \<Rightarrow> bool option \<Rightarrow> int \<Rightarrow> int \<Rightarrow> workspace_db \<Rightarrow>
      workspace_error + workspace_db \<times> list_view" where
  "updateList actor i title description archived now stamp db =
    rbind (load_object ''LIST'' actor i db) (\<lambda>existing.
      case wo_list existing of
        None \<Rightarrow> Inl (WorkspaceError NOT_FOUND)
      | Some l \<Rightarrow>
          let db' = update_object i (\<lambda>row. row\<lparr>
                wo_archivedAt := stamped archived (wo_archivedAt existing) now,
                wo_list := Some (l\<lparr>ls_title := given title (ls_title l),
                  ls_description := given description (ls_description l)\<rparr>)\<rparr>) stamp db
          in rbind (getList actor i db') (\<lambda>view. Inr (db', view)))"

definition deleteList ::
    "string \<Rightarrow> string \<Rightarrow> int \<Rightarrow> int \<Rightarrow> workspace_db \<Rightarrow> workspace_error + workspace_db \<times> unit" where
  "deleteList actor i now stamp db = delete_object ''LIST'' actor i now stamp db"

text \<open>\<open>touch\<close>: the list counts as changed when an item does.\<close>

definition touch :: "string \<Rightarrow> int \<Rightarrow> workspace_db \<Rightarrow> workspace_db" where
  "touch i now db = update_object i (\<lambda>row. row) now db"

definition touch_and_get ::
    "string \<Rightarrow> string \<Rightarrow> int \<Rightarrow> workspace_db \<Rightarrow> workspace_error + workspace_db \<times> list_view" where
  "touch_and_get actor i now db =
    (let db' = touch i now db in rbind (getList actor i db') (\<lambda>view. Inr (db', view)))"

definition next_position :: "list_item list \<Rightarrow> int" where
  "next_position items = fold (\<lambda>item m. max m (li_position item)) items (- 1) + 1"

definition addItem ::
    "string \<Rightarrow> string \<Rightarrow> string \<Rightarrow> string \<Rightarrow> int \<Rightarrow> int \<Rightarrow> workspace_db \<Rightarrow>
      workspace_error + workspace_db \<times> list_view" where
  "addItem actor listId text itemId now stamp db =
    rbind (load_object ''LIST'' actor listId db) (\<lambda>row.
      if wo_list row = None then Inl (WorkspaceError NOT_FOUND)
      else if length (items_of listId db) \<ge> LIST_ITEMS_MAX then Inl (WorkspaceError LIST_FULL)
      else if itemId \<in> li_id ` set (wd_items db) then Inl (WorkspaceDbError ''P2002'')
      else touch_and_get actor listId now (db\<lparr>wd_items := wd_items db @
        [\<lparr>li_id = itemId, li_listId = listId, li_text = text,
          li_position = next_position (items_of listId db), li_completedAt = None,
          li_createdAt = stamp, li_updatedAt = stamp\<rparr>]\<rparr>))"

definition find_item ::
    "string \<Rightarrow> string \<Rightarrow> workspace_object \<Rightarrow> workspace_db \<Rightarrow> workspace_error + list_item" where
  "find_item listId itemId row db =
    (if wo_list row = None then Inl (WorkspaceError NOT_FOUND)
     else the_row (WorkspaceError NOT_FOUND) (find (\<lambda>item. li_id item = itemId) (items_of listId db)))"

definition updateItem ::
    "string \<Rightarrow> string \<Rightarrow> string \<Rightarrow> string option \<Rightarrow> bool option \<Rightarrow> int \<Rightarrow> int \<Rightarrow> workspace_db \<Rightarrow>
      workspace_error + workspace_db \<times> list_view" where
  "updateItem actor listId itemId text completed now stamp db =
    rbind (load_object ''LIST'' actor listId db) (\<lambda>row.
    rbind (find_item listId itemId row db) (\<lambda>item.
      let completedAt = stamped completed (li_completedAt item) now;
          checklist = (case wo_list row of None \<Rightarrow> False | Some l \<Rightarrow> ls_type l = ''CHECKLIST'')
      in touch_and_get actor listId now (db\<lparr>wd_items := row_update li_id itemId
        (\<lambda>x. x\<lparr>li_text := given text (li_text item),
          li_completedAt := (if checklist then completedAt else None), li_updatedAt := stamp\<rparr>) (wd_items db)\<rparr>)))"

definition deleteItem ::
    "string \<Rightarrow> string \<Rightarrow> string \<Rightarrow> int \<Rightarrow> workspace_db \<Rightarrow> workspace_error + workspace_db \<times> list_view" where
  "deleteItem actor listId itemId now db =
    rbind (load_object ''LIST'' actor listId db) (\<lambda>row.
    rbind (find_item listId itemId row db) (\<lambda>_.
      touch_and_get actor listId now (db\<lparr>wd_items := filter (\<lambda>x. li_id x \<noteq> itemId) (wd_items db)\<rparr>)))"

definition assertReorderIds :: "string list \<Rightarrow> string list \<Rightarrow> workspace_error + unit" where
  "assertReorderIds currentIds itemIds =
    (if card (set currentIds) \<noteq> length itemIds \<or> (\<exists>i \<in> set itemIds. i \<notin> set currentIds)
     then Inl (WorkspaceError REORDER_INVALID)
     else if card (set itemIds) \<noteq> length itemIds then Inl (WorkspaceError REORDER_INVALID)
     else Inr ())"

definition place_item :: "int \<Rightarrow> string \<times> nat \<Rightarrow> list_item list \<Rightarrow> list_item list" where
  "place_item stamp p items =
    row_update li_id (fst p) (\<lambda>x. x\<lparr>li_position := int (snd p), li_updatedAt := stamp\<rparr>) items"

definition reorder ::
    "string \<Rightarrow> string \<Rightarrow> string list \<Rightarrow> int \<Rightarrow> int \<Rightarrow> workspace_db \<Rightarrow>
      workspace_error + workspace_db \<times> list_view" where
  "reorder actor listId itemIds now stamp db =
    rbind (load_object ''LIST'' actor listId db) (\<lambda>row.
    rbind (assertReorderIds (if wo_list row = None then [] else map li_id (items_of listId db)) itemIds) (\<lambda>_.
      touch_and_get actor listId now (db\<lparr>wd_items :=
        fold (place_item stamp) (zip itemIds [0..<length itemIds]) (wd_items db)\<rparr>)))"


section \<open>Paging\<close>

interpretation changed: keyset changedOrderBy after_changed changed_cursor
proof (intro keyset.intro keyset_axioms.intro)
  show "comparator changedOrderBy" unfolding changedOrderBy_def by (intro cmp_intros)
  fix x y
  show "after_changed (changed_cursor x) y \<longleftrightarrow> changedOrderBy x y < 0"
    by (auto simp: changedOrderBy_def cmp_then_def cmp_on_def cmp_rev_def int_cmp_def after_changed_def
        changed_cursor_def)
qed

lemma changed_separates: "distinct (map wo_id rows) \<Longrightarrow> separates changedOrderBy rows"
  by (erule separates_by_key) (auto simp: changedOrderBy_def cmp_then_def cmp_on_def cmp_rev_def split: if_splits)

lemma list_paging_complete:
  assumes "distinct (map wo_id (wd_objects db))" and "0 < limit" and "length (wd_objects db) < n"
  shows "listed limit (follow n (page_lists actor archived type limit db) None)
    (js_sort changedOrderBy (filter (listWhere actor archived type) (wd_objects db)))"
proof -
  have "length (filter (listWhere actor archived type) (wd_objects db)) < n"
    using assms(3) by (meson le_less_trans length_filter_le)
  then show ?thesis
    using changed.follow_all[OF separates_filter[OF changed_separates[OF assms(1)]] assms(2)]
    unfolding page_lists_def by blast
qed

section \<open>Reordering\<close>

definition placed :: "int \<Rightarrow> (string \<times> nat) list \<Rightarrow> list_item \<Rightarrow> list_item" where
  "placed s ps x = (case map_of ps (li_id x) of None \<Rightarrow> x
     | Some n \<Rightarrow> x\<lparr>li_position := int n, li_updatedAt := s\<rparr>)"

lemma placed_keeps [simp]:
  "li_id (placed s ps x) = li_id x" "li_listId (placed s ps x) = li_listId x"
  "li_text (placed s ps x) = li_text x" "li_completedAt (placed s ps x) = li_completedAt x"
  "li_createdAt (placed s ps x) = li_createdAt x"
  by (simp_all add: placed_def split: option.split)

lemma place_items:
  assumes "distinct (map fst ps)"
  shows "fold (place_item s) ps items = map (placed s ps) items"
  using assms
proof (induction ps arbitrary: items)
  case Nil
  then show ?case by (simp add: placed_def map_idI)
next
  case (Cons p ps)
  then have "map_of ps (fst p) = None" by (simp add: map_of_eq_None_iff)
  then show ?case
    using Cons by (auto simp: place_item_def row_update_def placed_def split: option.splits)
qed

lemma map_of_numbered: "distinct is \<Longrightarrow> k < length is \<Longrightarrow> map_of (zip is [0..<length is]) (is ! k) = Some k"
  using map_of_eq_Some_iff[of "zip is [0..<length is]" "is ! k" k]
  by (simp add: map_fst_zip) (auto simp: set_zip)

lemma assertReorderIds_iff:
  assumes "distinct cur"
  shows "assertReorderIds cur is = (if distinct is \<and> set is = set cur then Inr () else Inl (WorkspaceError REORDER_INVALID))"
proof -
  have cur: "card (set cur) = length cur" using assms by (rule distinct_card)
  show ?thesis
  proof (cases "distinct is \<and> set is = set cur")
    case True
    then have "card (set cur) = length is" by (metis distinct_card)
    with True show ?thesis by (simp add: assertReorderIds_def)
  next
    case False
    have "card (set cur) = length is \<Longrightarrow> set is \<subseteq> set cur \<Longrightarrow> card (set is) \<noteq> length is"
      using False card_distinct[of "is"] card_subset_eq[of "set cur" "set is"] by fastforce
    with False show ?thesis by (auto simp: assertReorderIds_def)
  qed
qed

interpretation by_position: comparator "cmp_on int_cmp li_position"
  by (intro cmp_intros)

text \<open>Sorting the renumbered items by position gives the order of the request.\<close>

lemma renumbered_order:
  assumes d: "distinct is" and items: "distinct (map li_id items)" "set (map li_id items) = set is"
    and pos: "\<And>x k. x \<in> set items \<Longrightarrow> k < length is \<Longrightarrow> li_id x = is ! k \<Longrightarrow> li_position x = int k"
  shows "map li_id (js_sort (cmp_on int_cmp li_position) items) = is \<and>
    map li_position (js_sort (cmp_on int_cmp li_position) items) = map int [0..<length is]"
proof -
  define item where "item i = the (row_find li_id i items)" for i
  have item: "item i \<in> set items \<and> li_id (item i) = i" if "i \<in> set is" for i
  proof -
    from that items(2) obtain x where "x \<in> set items" "li_id x = i" by (metis imageE list.set_map)
    then show ?thesis using row_find_distinct[OF items(1)] by (auto simp: item_def)
  qed
  let ?ys = "map item is"
  have ids: "map li_id ?ys = is" using item by (simp add: map_idI)
  have nth: "li_position (item (is ! k)) = int k" if "k < length is" for k
    using item[of "is ! k"] pos[of "item (is ! k)" k] that by simp
  have "js_sort (cmp_on int_cmp li_position) items = ?ys"
  proof (rule by_position.sorted_perm_unique)
    have dy: "distinct ?ys" using ids d by (metis distinct_map)
    have "set ?ys = set items"
    proof
      show "set items \<subseteq> set ?ys"
      proof
        fix x assume x: "x \<in> set items"
        then have "li_id x \<in> set is" using items(2) by auto
        with item[OF this] x items(1) have "item (li_id x) = x" by (simp add: distinct_map inj_on_def)
        with \<open>li_id x \<in> set is\<close> show "x \<in> set ?ys" by force
      qed
    qed (use item in auto)
    then show "mset (js_sort (cmp_on int_cmp li_position) items) = mset ?ys"
      using dy items(1) by (metis distinct_map mset_js_sort set_eq_iff_mset_eq_distinct)
    show "sorted_wrt (\<lambda>a b. cmp_on int_cmp li_position a b \<le> 0) ?ys"
      by (simp add: sorted_wrt_iff_nth_less cmp_on_def int_cmp_def nth)
    have "x = y" if "x \<in> set items" "y \<in> set items" "li_position x = li_position y" for x y
    proof -
      from that items(2) obtain j k where "j < length is" "k < length is" "li_id x = is ! j" "li_id y = is ! k"
        by (metis image_eqI in_set_conv_nth list.set_map)
      with pos that have "li_id x = li_id y" by (metis of_nat_eq_iff)
      with that items(1) show ?thesis by (simp add: distinct_map inj_on_def)
    qed
    then show "separates (cmp_on int_cmp li_position) (js_sort (cmp_on int_cmp li_position) items)"
      using items(1) by (auto simp: separates_def cmp_on_def int_cmp_def distinct_map)
  qed (rule by_position.sorted_js_sort)
  moreover have "map li_position ?ys = map int [0..<length is]"
    by (rule nth_equalityI) (simp_all add: nth)
  ultimately show ?thesis using ids by simp
qed


lemma find_in_objects:
  assumes "distinct (map wo_id (wd_objects db))" and "load_object kind actor i db = Inr row"
    and "\<And>x. same_identity x (f x) \<and> wo_deletedAt (f x) = wo_deletedAt x"
  shows "load_object kind actor i (update_object i f s db) = Inr ((f row)\<lparr>wo_updatedAt := s\<rparr>)"
proof -
  from load_object_Inr[OF assms(2)] have row: "row \<in> set (wd_objects db)" "wo_id row = i" "is_visible kind actor row"
    by auto
  let ?g = "\<lambda>x. (f x)\<lparr>wo_updatedAt := s\<rparr>"
  have "?g row \<in> set (wd_objects (update_object i f s db))"
    using row(1,2) by (force simp: update_object_def set_row_update)
  moreover have "distinct (map wo_id (wd_objects (update_object i f s db)))"
    using assms(1,3) by (simp add: same_identity_def)
  moreover have "is_visible kind actor (?g row)" "wo_id (?g row) = i"
    using row(2,3) assms(3)[of row] by (simp_all add: is_visible_def same_identity_def)
  ultimately have "find (\<lambda>x. wo_id x = i \<and> is_visible kind actor x) (wd_objects (update_object i f s db)) = Some (?g row)"
    using find_by_key[of wo_id "wd_objects (update_object i f s db)" "?g row" "is_visible kind actor"] by simp
  then show ?thesis by (simp add: load_object_def)
qed

text \<open>
  Reordering a list is exact. It succeeds precisely when the request names every item of the
  list once, and is refused with REORDER_INVALID otherwise; then the list shows its items in the
  order of the request, at positions 0, 1, 2 and so on, with their texts and marks as before,
  and no item of another list and no other object changes.
\<close>

theorem reorder_exact:
  assumes objects: "distinct (map wo_id (wd_objects db))" and items: "distinct (map li_id (wd_items db))"
    and row: "load_object ''LIST'' actor i db = Inr row" "wo_list row = Some l"
  shows "if distinct is \<and> set is = set (map li_id (items_of i db))
    then \<exists>db' view. reorder actor i is now stamp db = Inr (db', view) \<and>
      map iv_id (lv_items view) = is \<and> map iv_position (lv_items view) = map int [0..<length is] \<and>
      map (\<lambda>x. (li_id x, li_listId x, li_text x, li_completedAt x, li_createdAt x)) (wd_items db') =
        map (\<lambda>x. (li_id x, li_listId x, li_text x, li_completedAt x, li_createdAt x)) (wd_items db) \<and>
      filter (\<lambda>x. li_listId x \<noteq> i) (wd_items db') = filter (\<lambda>x. li_listId x \<noteq> i) (wd_items db) \<and>
      filter (\<lambda>x. wo_id x \<noteq> i) (wd_objects db') = filter (\<lambda>x. wo_id x \<noteq> i) (wd_objects db)
    else reorder actor i is now stamp db = Inl (WorkspaceError REORDER_INVALID)"
proof (cases "distinct is \<and> set is = set (map li_id (items_of i db))")
  case False
  have "distinct (map li_id (items_of i db))" using items by (simp add: items_of_def distinct_map_filter)
  with False row show ?thesis by (auto simp: reorder_def assertReorderIds_iff)
next
  case True
  let ?place = "placed stamp (zip is [0..<length is])"
  let ?db = "db\<lparr>wd_items := map ?place (wd_items db)\<rparr>"
  have d: "distinct (map li_id (items_of i db))" using items by (simp add: items_of_def distinct_map_filter)
  have fold: "fold (place_item stamp) (zip is [0..<length is]) (wd_items db) = map ?place (wd_items db)"
    using True by (intro place_items) (simp add: map_fst_zip)
  have rows: "items_of i ?db = map ?place (items_of i db)"
    by (simp add: items_of_def filter_map comp_def)
  have order: "map li_id (js_sort (cmp_on int_cmp li_position) (items_of i ?db)) = is \<and>
      map li_position (js_sort (cmp_on int_cmp li_position) (items_of i ?db)) = map int [0..<length is]"
  proof (rule renumbered_order)
    show "distinct is" using True by simp
    show "distinct (map li_id (items_of i ?db))" "set (map li_id (items_of i ?db)) = set is"
      using d True by (simp_all add: rows comp_def image_image)
    fix x k assume x: "x \<in> set (items_of i ?db)" and k: "k < length is" "li_id x = is ! k"
    then obtain y where y: "x = ?place y" by (auto simp: rows)
    have "li_id y = is ! k" using y k(2) by simp
    then show "li_position x = int k" using y map_of_numbered[of "is" k] True k(1) by (simp add: placed_def)
  qed
  let ?d = "touch i now ?db"
  have "load_object ''LIST'' actor i ?db = Inr row" using row(1) by (simp add: load_object_def)
  then have load: "load_object ''LIST'' actor i ?d = Inr (row\<lparr>wo_updatedAt := now\<rparr>)"
    unfolding touch_def using find_in_objects[of ?db "''LIST''" actor i row "\<lambda>r. r" now] objects
    by (simp add: same_identity_def)
  obtain view where view: "toListView ?d (row\<lparr>wo_updatedAt := now\<rparr>) = Inr view"
      "map iv_id (lv_items view) = is" "map iv_position (lv_items view) = map int [0..<length is]"
    using order row load_object_Inr[OF row(1)]
    by (simp add: toListView_def comp_def touch_def update_object_def items_of_def)
  have "reorder actor i is now stamp db = Inr (?d, view)"
    using row True view(1) load
    by (simp add: reorder_def assertReorderIds_iff[OF d] fold touch_and_get_def getList_def Let_def)
  moreover have "map (\<lambda>x. (li_id x, li_listId x, li_text x, li_completedAt x, li_createdAt x)) (wd_items ?d) =
      map (\<lambda>x. (li_id x, li_listId x, li_text x, li_completedAt x, li_createdAt x)) (wd_items db)"
    by (simp add: touch_def update_object_def comp_def)
  moreover have "?place x = x" if "x \<in> set (wd_items db)" "li_listId x \<noteq> i" for x
  proof -
    have "li_id x \<notin> set is"
      using True that items by (auto simp: items_of_def distinct_map inj_on_def)
    then have "map_of (zip is [0..<length is]) (li_id x) = None"
      by (cases "map_of (zip is [0..<length is]) (li_id x)") (auto dest!: map_of_SomeD set_zip_leftD)
    then show ?thesis by (simp only: placed_def option.case)
  qed
  then have "filter (\<lambda>x. li_listId x \<noteq> i) (wd_items ?d) = filter (\<lambda>x. li_listId x \<noteq> i) (wd_items db)"
    unfolding touch_def update_object_def by (simp add: filter_map comp_def) (rule map_idI, simp)
  moreover have "filter (\<lambda>x. wo_id x \<noteq> i) (wd_objects ?d) = filter (\<lambda>x. wo_id x \<noteq> i) (wd_objects db)"
    by (induction "wd_objects db") (auto simp: touch_def update_object_def row_update_def filter_map comp_def intro!: map_idI)
  ultimately show ?thesis using True view(2,3) by auto
qed


definition sample_lists :: workspace_db where
  "sample_lists = \<lparr>wd_objects =
      [(new_object ''l'' ''LIST'' ''ann'' ''ann'' None 5)\<lparr>wo_list := Some
        \<lparr>ls_type = ''PLAIN'', ls_title = ''shop'', ls_description = None\<rparr>\<rparr>],
    wd_items = map (\<lambda>(i, n). \<lparr>li_id = i, li_listId = ''l'', li_text = i, li_position = n, li_completedAt = None,
      li_createdAt = 6, li_updatedAt = 6\<rparr>) [(''a'', 0), (''b'', 1), (''c'', 5)]\<rparr>"

lemma reorder_exact_witness:
  "(\<exists>db' view. reorder ''ann'' ''l'' [''c'', ''a'', ''b''] 9 9 sample_lists = Inr (db', view) \<and>
      map iv_id (lv_items view) = [''c'', ''a'', ''b'']) \<and>
    reorder ''ann'' ''l'' [''c'', ''a'', ''a''] 9 9 sample_lists = Inl (WorkspaceError REORDER_INVALID)"
proof -
  have s: "distinct (map wo_id (wd_objects sample_lists))" "distinct (map li_id (wd_items sample_lists))"
    by (simp_all add: sample_lists_def new_object_def)
  have r: "load_object ''LIST'' ''ann'' ''l'' sample_lists = Inr (hd (wd_objects sample_lists))"
      "wo_list (hd (wd_objects sample_lists)) = Some \<lparr>ls_type = ''PLAIN'', ls_title = ''shop'', ls_description = None\<rparr>"
    by (simp_all add: sample_lists_def new_object_def load_object_def is_visible_def)
  have i: "set (map li_id (items_of ''l'' sample_lists)) = {''a'', ''b'', ''c''}"
    by (simp add: items_of_def sample_lists_def)
  from reorder_exact[OF s r, of "[''c'', ''a'', ''b'']" 9 9] reorder_exact[OF s r, of "[''c'', ''a'', ''a'']" 9 9] i
  show ?thesis by (auto simp: insert_commute)
qed

end
