(* ===== verification/Workspace_Notes.thy ===== *)
theory Workspace_Notes
  imports Workspace_Lists
begin

text \<open>
  \<open>note-service.ts\<close> and \<open>reminder-service.ts\<close>. Whether a name is an IANA time zone is asked of
  the runtime's \<open>Intl\<close>, a parameter. Notes are ordered with pinned ones first, but their cursor
  does not say whether its row was pinned; the lemma \<open>note_paging_loses\<close> shows what that does.
  Reminders page by their time.
\<close>

section \<open>Notes\<close>

definition NOTE_CONTENT_MAX :: nat where "NOTE_CONTENT_MAX = 50000"

definition assertNoteContentSize :: "string \<Rightarrow> workspace_error + unit" where
  "assertNoteContentSize content =
    guard_res (length content > NOTE_CONTENT_MAX) (WorkspaceError PAYLOAD_TOO_LARGE)"

record note_view =
  nv_id :: string
  nv_title :: string
  nv_contentMarkdown :: string
  nv_pinnedAt :: "int option"
  nv_archivedAt :: "int option"
  nv_createdAt :: int
  nv_updatedAt :: int

definition toNoteView :: "workspace_object \<Rightarrow> workspace_error + note_view" where
  "toNoteView row = (case wo_note row of
     None \<Rightarrow> Inl (WorkspaceError NOT_FOUND)
   | Some n \<Rightarrow> Inr \<lparr>nv_id = wo_id row, nv_title = nt_title n, nv_contentMarkdown = nt_contentMarkdown n,
       nv_pinnedAt = nt_pinnedAt n, nv_archivedAt = wo_archivedAt row, nv_createdAt = wo_createdAt row,
       nv_updatedAt = wo_updatedAt row\<rparr>)"

definition getNote :: "string \<Rightarrow> string \<Rightarrow> workspace_db \<Rightarrow> workspace_error + note_view" where
  "getNote actor i db = rbind (load_object ''NOTE'' actor i db) toNoteView"

definition createNote ::
    "string \<Rightarrow> string \<Rightarrow> string \<Rightarrow> trusted_source option \<Rightarrow> string \<Rightarrow> int \<Rightarrow> workspace_db \<Rightarrow>
      workspace_error + workspace_db \<times> note_view" where
  "createNote actor title content source i stamp db =
    rbind (assertNoteContentSize content) (\<lambda>_.
      let row = (new_object i ''NOTE'' actor actor source stamp)\<lparr>wo_note := Some
            \<lparr>nt_title = title, nt_contentMarkdown = content, nt_pinnedAt = None\<rparr>\<rparr>
      in rbind (create_object row db) (\<lambda>db'. rbind (toNoteView row) (\<lambda>view. Inr (db', view))))"

text \<open>
  The case-insensitive search of the database is a parameter \<open>contains\<close>; a blank search is
  none.
\<close>

definition noteWhere ::
    "(string \<Rightarrow> string \<Rightarrow> bool) \<Rightarrow> string \<Rightarrow> bool \<Rightarrow> bool \<Rightarrow> string option \<Rightarrow> workspace_object \<Rightarrow> bool" where
  "noteWhere contains actor archived pinned search row \<longleftrightarrow>
    is_visible ''NOTE'' actor row \<and> archived_as archived row \<and>
    (case wo_note row of None \<Rightarrow> False | Some n \<Rightarrow> (pinned \<longrightarrow> nt_pinnedAt n \<noteq> None) \<and>
      (case search of None \<Rightarrow> True | Some q \<Rightarrow> contains (nt_title n) q \<or> contains (nt_contentMarkdown n) q))"

definition pinned_of :: "workspace_object \<Rightarrow> int option" where
  "pinned_of row = (case wo_note row of None \<Rightarrow> None | Some n \<Rightarrow> nt_pinnedAt n)"

text \<open>\<open>pinnedAt\<close> descending with nulls last, then last change, then id.\<close>

fun newest_nulls_last :: "int option \<Rightarrow> int option \<Rightarrow> int" where
  "newest_nulls_last None None = 0"
| "newest_nulls_last None (Some _) = 1"
| "newest_nulls_last (Some _) None = - 1"
| "newest_nulls_last (Some a) (Some b) = int_cmp b a"

definition noteOrderBy :: "workspace_object \<Rightarrow> workspace_object \<Rightarrow> int" where
  "noteOrderBy = cmp_then (cmp_on newest_nulls_last pinned_of) changedOrderBy"

definition page_notes ::
    "(string \<Rightarrow> string \<Rightarrow> bool) \<Rightarrow> string \<Rightarrow> bool \<Rightarrow> bool \<Rightarrow> string option \<Rightarrow> nat \<Rightarrow> workspace_db \<Rightarrow>
      (int \<times> string) option \<Rightarrow> workspace_object list \<times> (int \<times> string) option" where
  "page_notes contains actor archived pinned search limit db =
    key_page noteOrderBy after_changed changed_cursor limit
      (filter (noteWhere contains actor archived pinned search) (wd_objects db))"

definition listNotes ::
    "(string \<Rightarrow> string \<Rightarrow> bool) \<Rightarrow> string \<Rightarrow> bool \<Rightarrow> bool \<Rightarrow> string option \<Rightarrow> nat \<Rightarrow> (int \<times> string) option \<Rightarrow>
      workspace_db \<Rightarrow> workspace_error + note_view list \<times> (int \<times> string) option" where
  "listNotes contains actor archived pinned search limit cursor db =
    (case page_notes contains actor archived pinned search limit db cursor of (rows, c) \<Rightarrow>
      rbind (map_res toNoteView rows) (\<lambda>items. Inr (items, c)))"

definition updateNote ::
    "string \<Rightarrow> string \<Rightarrow> string option \<Rightarrow> string option \<Rightarrow> bool option \<Rightarrow> bool option \<Rightarrow> int \<Rightarrow> int \<Rightarrow>
      workspace_db \<Rightarrow> workspace_error + workspace_db \<times> note_view" where
  "updateNote actor i title content pinned archived now stamp db =
    rbind (load_object ''NOTE'' actor i db) (\<lambda>existing.
      case wo_note existing of
        None \<Rightarrow> Inl (WorkspaceError NOT_FOUND)
      | Some n \<Rightarrow>
          rbind (case content of None \<Rightarrow> Inr () | Some c \<Rightarrow> assertNoteContentSize c) (\<lambda>_.
          let db' = update_object i (\<lambda>row. row\<lparr>
                wo_archivedAt := stamped archived (wo_archivedAt existing) now,
                wo_note := Some \<lparr>nt_title = given title (nt_title n),
                  nt_contentMarkdown = given content (nt_contentMarkdown n),
                  nt_pinnedAt = stamped pinned (nt_pinnedAt n) now\<rparr>\<rparr>) stamp db
          in rbind (getNote actor i db') (\<lambda>view. Inr (db', view))))"

definition deleteNote ::
    "string \<Rightarrow> string \<Rightarrow> int \<Rightarrow> int \<Rightarrow> workspace_db \<Rightarrow> workspace_error + workspace_db \<times> unit" where
  "deleteNote actor i now stamp db = delete_object ''NOTE'' actor i now stamp db"

section \<open>Reminders\<close>

record reminder_view =
  mv_id :: string
  mv_title :: string
  mv_description :: "string option"
  mv_scheduledAt :: int
  mv_timezone :: string
  mv_status :: string
  mv_linkedTaskId :: "string option"
  mv_archivedAt :: "int option"
  mv_createdAt :: int
  mv_updatedAt :: int

definition toReminderView :: "workspace_object \<Rightarrow> workspace_error + reminder_view" where
  "toReminderView row = (case wo_reminder row of
     None \<Rightarrow> Inl (WorkspaceError NOT_FOUND)
   | Some r \<Rightarrow> Inr \<lparr>mv_id = wo_id row, mv_title = rm_title r, mv_description = rm_description r,
       mv_scheduledAt = rm_scheduledAt r, mv_timezone = rm_timezone r, mv_status = rm_status r,
       mv_linkedTaskId = rm_linkedTaskId r, mv_archivedAt = wo_archivedAt row,
       mv_createdAt = wo_createdAt row, mv_updatedAt = wo_updatedAt row\<rparr>)"

definition assertIanaTimeZone :: "(string \<Rightarrow> bool) \<Rightarrow> string \<Rightarrow> workspace_error + string" where
  "assertIanaTimeZone isIana value' = (if isIana value' then Inr value' else Inl (WorkspaceError INVALID_TIMEZONE))"

definition assertLinkedTask :: "string \<Rightarrow> string option \<Rightarrow> workspace_db \<Rightarrow> workspace_error + unit" where
  "assertLinkedTask actor taskId db = (case taskId of
     None \<Rightarrow> Inr ()
   | Some i \<Rightarrow> if i = [] then Inr () else rbind (load_object ''TASK'' actor i db) (\<lambda>_. Inr ()))"

definition getReminder :: "string \<Rightarrow> string \<Rightarrow> workspace_db \<Rightarrow> workspace_error + reminder_view" where
  "getReminder actor i db = rbind (load_object ''REMINDER'' actor i db) toReminderView"

record create_reminder =
  cm_title :: string
  cm_description :: "string option"
  cm_scheduledAt :: int
  cm_timezone :: "string option"
  cm_linkedTaskId :: "string option"

definition createReminder ::
    "(string \<Rightarrow> bool) \<Rightarrow> string \<Rightarrow> create_reminder \<Rightarrow> string \<Rightarrow> trusted_source option \<Rightarrow> string \<Rightarrow> int \<Rightarrow>
      workspace_db \<Rightarrow> workspace_error + workspace_db \<times> reminder_view" where
  "createReminder isIana actor input defaultZone source i stamp db =
    rbind (assertIanaTimeZone isIana (given (cm_timezone input) defaultZone)) (\<lambda>timezone.
    rbind (assertLinkedTask actor (cm_linkedTaskId input) db) (\<lambda>_.
      let row = (new_object i ''REMINDER'' actor actor source stamp)\<lparr>wo_reminder := Some
            \<lparr>rm_title = cm_title input, rm_description = cm_description input,
             rm_scheduledAt = cm_scheduledAt input, rm_timezone = timezone, rm_status = ''PENDING'',
             rm_linkedTaskId = cm_linkedTaskId input, rm_canceledAt = None, rm_deliveredAt = None\<rparr>\<rparr>
      in rbind (create_object row db) (\<lambda>db'. rbind (toReminderView row) (\<lambda>view. Inr (db', view)))))"

definition scheduled_of :: "workspace_object \<Rightarrow> int" where
  "scheduled_of row = (case wo_reminder row of None \<Rightarrow> 0 | Some r \<Rightarrow> rm_scheduledAt r)"

definition scheduledOrderBy :: "workspace_object \<Rightarrow> workspace_object \<Rightarrow> int" where
  "scheduledOrderBy = cmp_then (cmp_on int_cmp scheduled_of) (cmp_on string_cmp wo_id)"

definition after_scheduled :: "int \<times> string \<Rightarrow> workspace_object \<Rightarrow> bool" where
  "after_scheduled c row \<longleftrightarrow> scheduled_of row > fst c \<or>
    (scheduled_of row = fst c \<and> string_cmp (wo_id row) (snd c) > 0)"

definition reminderWhere :: "string \<Rightarrow> bool \<Rightarrow> string option \<Rightarrow> workspace_object \<Rightarrow> bool" where
  "reminderWhere actor archived status row \<longleftrightarrow> is_visible ''REMINDER'' actor row \<and> archived_as archived row \<and>
    (case wo_reminder row of None \<Rightarrow> False | Some r \<Rightarrow> rm_status r = given status ''PENDING'')"

definition page_reminders ::
    "string \<Rightarrow> bool \<Rightarrow> string option \<Rightarrow> nat \<Rightarrow> workspace_db \<Rightarrow> (int \<times> string) option \<Rightarrow>
      workspace_object list \<times> (int \<times> string) option" where
  "page_reminders actor archived status limit db =
    key_page scheduledOrderBy after_scheduled (\<lambda>row. (scheduled_of row, wo_id row)) limit
      (filter (reminderWhere actor archived status) (wd_objects db))"

definition listReminders ::
    "string \<Rightarrow> bool \<Rightarrow> string option \<Rightarrow> nat \<Rightarrow> (int \<times> string) option \<Rightarrow> workspace_db \<Rightarrow>
      workspace_error + reminder_view list \<times> (int \<times> string) option" where
  "listReminders actor archived status limit cursor db =
    (case page_reminders actor archived status limit db cursor of (rows, c) \<Rightarrow>
      rbind (map_res toReminderView rows) (\<lambda>items. Inr (items, c)))"

record update_reminder =
  um_title :: "string option"
  um_description :: "string option option"
  um_scheduledAt :: "int option"
  um_timezone :: "string option"
  um_linkedTaskId :: "string option option"
  um_status :: "string option"
  um_archived :: "bool option"

text \<open>The status and cancellation time after an update, or the refusal to reopen.\<close>

definition reminder_status ::
    "string option \<Rightarrow> reminder_part \<Rightarrow> int \<Rightarrow> workspace_error + string \<times> int option" where
  "reminder_status status r now =
    (if status = Some ''CANCELED''
     then Inr (''CANCELED'', Some (case rm_canceledAt r of None \<Rightarrow> now | Some t \<Rightarrow> t))
     else if status = Some ''PENDING''
     then if rm_status r = ''DELIVERED'' \<or> rm_status r = ''FAILED'' then Inl (WorkspaceError STATUS_INVALID)
       else Inr (''PENDING'', None)
     else Inr (rm_status r, rm_canceledAt r))"

definition updateReminder ::
    "(string \<Rightarrow> bool) \<Rightarrow> string \<Rightarrow> string \<Rightarrow> update_reminder \<Rightarrow> int \<Rightarrow> int \<Rightarrow> int \<Rightarrow> workspace_db \<Rightarrow>
      workspace_error + workspace_db \<times> reminder_view" where
  "updateReminder isIana actor i input now1 now stamp db =
    rbind (load_object ''REMINDER'' actor i db) (\<lambda>existing.
      case wo_reminder existing of
        None \<Rightarrow> Inl (WorkspaceError NOT_FOUND)
      | Some r \<Rightarrow>
          rbind (case um_linkedTaskId input of None \<Rightarrow> Inr () | Some t \<Rightarrow> assertLinkedTask actor t db) (\<lambda>_.
          rbind (reminder_status (um_status input) r now1) (\<lambda>(status, canceledAt).
          rbind (case um_timezone input of
              None \<Rightarrow> Inr (rm_timezone r)
            | Some z \<Rightarrow> if z = [] then Inr (rm_timezone r) else assertIanaTimeZone isIana z) (\<lambda>timezone.
          let db' = update_object i (\<lambda>row. row\<lparr>
                wo_archivedAt := stamped (um_archived input) (wo_archivedAt existing) now,
                wo_reminder := Some (r\<lparr>rm_title := given (um_title input) (rm_title r),
                  rm_description := given (um_description input) (rm_description r),
                  rm_scheduledAt := given (um_scheduledAt input) (rm_scheduledAt r),
                  rm_timezone := timezone, rm_status := status, rm_canceledAt := canceledAt,
                  rm_linkedTaskId := given (um_linkedTaskId input) (rm_linkedTaskId r)\<rparr>)\<rparr>) stamp db
          in rbind (getReminder actor i db') (\<lambda>view. Inr (db', view))))))"

definition deleteReminder ::
    "string \<Rightarrow> string \<Rightarrow> int \<Rightarrow> int \<Rightarrow> workspace_db \<Rightarrow> workspace_error + workspace_db \<times> unit" where
  "deleteReminder actor i now stamp db = delete_object ''REMINDER'' actor i now stamp db"

interpretation scheduled: keyset scheduledOrderBy after_scheduled "\<lambda>row. (scheduled_of row, wo_id row)"
proof (intro keyset.intro keyset_axioms.intro)
  show "comparator scheduledOrderBy" unfolding scheduledOrderBy_def by (intro cmp_intros)
  fix x y
  show "after_scheduled (scheduled_of x, wo_id x) y \<longleftrightarrow> scheduledOrderBy x y < 0"
    by (auto simp: scheduledOrderBy_def cmp_then_def cmp_on_def int_cmp_def after_scheduled_def string_cmp_antisym)
qed

lemma reminder_paging_complete:
  assumes "distinct (map wo_id (wd_objects db))" and "0 < limit" and "length (wd_objects db) < n"
  shows "listed limit (follow n (page_reminders actor archived status limit db) None)
    (js_sort scheduledOrderBy (filter (reminderWhere actor archived status) (wd_objects db)))"
proof -
  have "separates scheduledOrderBy (wd_objects db)"
    by (rule separates_by_key[OF assms(1)])
      (auto simp: scheduledOrderBy_def cmp_then_def cmp_on_def int_cmp_def split: if_splits)
  moreover have "length (filter (reminderWhere actor archived status) (wd_objects db)) < n"
    using assms(3) by (meson le_less_trans length_filter_le)
  ultimately show ?thesis
    using scheduled.follow_all[OF separates_filter assms(2)] unfolding page_reminders_def by blast
qed

section \<open>Two defects\<close>

definition sample_note :: "string \<Rightarrow> int option \<Rightarrow> int \<Rightarrow> workspace_object" where
  "sample_note i pinned changed = (new_object i ''NOTE'' ''ann'' ''ann'' None 5)\<lparr>wo_updatedAt := changed,
    wo_note := Some \<lparr>nt_title = i, nt_contentMarkdown = [], nt_pinnedAt = pinned\<rparr>\<rparr>"

text \<open>
  A pinned note that was changed long ago comes first; its cursor then cuts off every note that
  was changed after it. Three notes, pages of one: the client sees only the pinned one.
\<close>

lemma note_paging_loses:
  "map (map wo_id) (follow 9 (page_notes (\<lambda>_ _. True) ''ann'' False False None 1
      \<lparr>wd_objects = [sample_note ''old'' (Some 7) 7, sample_note ''new1'' None 20, sample_note ''new2'' None 30],
       wd_items = []\<rparr>) None) =
    [[''old''], []]"
  by code_simp

text \<open>
  A delivered reminder may not be reopened, but it may be canceled, and a canceled one may be
  reopened.
\<close>

lemma delivered_reminder_reopened:
  assumes "rm_status r = ''DELIVERED''"
  shows "reminder_status (Some ''PENDING'') r now = Inl (WorkspaceError STATUS_INVALID)"
    and "\<exists>c. reminder_status (Some ''CANCELED'') r now = Inr (''CANCELED'', c) \<and>
      reminder_status (Some ''PENDING'') (r\<lparr>rm_status := ''CANCELED'', rm_canceledAt := c\<rparr>) now =
        Inr (''PENDING'', None)"
  using assms by (simp_all add: reminder_status_def)

end
