(* ===== verification/Workspace_Requests.thy ===== *)
theory Workspace_Requests
  imports Workspace_Tasks Workspace_Notes
begin

text \<open>
  The services of the workspace together: all changing requests as one transaction handler, the
  invariant of the tables that every request keeps, and what a request may touch at all. The
  bounds of a day in a time zone come from the runtime's calendar, a parameter.
\<close>

section \<open>Today\<close>

record today =
  td_overdueTasks :: "task_view list"
  td_todayTasks :: "task_view list"
  td_todayReminders :: "reminder_view list"

definition due_today :: "(int \<Rightarrow> bool) \<Rightarrow> string \<Rightarrow> workspace_object \<Rightarrow> bool" where
  "due_today between actor row \<longleftrightarrow> is_visible ''TASK'' actor row \<and> wo_archivedAt row = None \<and>
    isActiveTaskStatus (status_of row) \<and> (case due_of row of None \<Rightarrow> False | Some d \<Rightarrow> between d)"

definition oks :: "('e + 'a) list \<Rightarrow> 'a list" where
  "oks rs = concat (map (\<lambda>r. case r of Inl _ \<Rightarrow> [] | Inr a \<Rightarrow> [a]) rs)"

text \<open>The views of today carry no assigner name; \<open>getToday\<close> is given the bounds of the day.\<close>

definition getToday :: "string \<Rightarrow> (int \<times> int) option \<Rightarrow> workspace_db \<Rightarrow> today" where
  "getToday actor bounds db = (case bounds of
     None \<Rightarrow> \<lparr>td_overdueTasks = [], td_todayTasks = [], td_todayReminders = []\<rparr>
   | Some (start, finish) \<Rightarrow>
       (let tasks = (\<lambda>between. oks (map (toTaskView (\<lambda>_. None)) (take 50 (js_sort (cmp_on nulls_last due_of)
              (filter (due_today between actor) (wd_objects db))))));
            reminders = take 50 (js_sort (cmp_on int_cmp scheduled_of) (filter (\<lambda>row.
              is_visible ''REMINDER'' actor row \<and> wo_archivedAt row = None \<and>
              (case wo_reminder row of None \<Rightarrow> False | Some r \<Rightarrow> rm_status r = ''PENDING'' \<and>
                start \<le> rm_scheduledAt r \<and> rm_scheduledAt r < finish)) (wd_objects db)))
        in \<lparr>td_overdueTasks = tasks (\<lambda>d. d < start), td_todayTasks = tasks (\<lambda>d. start \<le> d \<and> d < finish),
            td_todayReminders = oks (map toReminderView reminders)\<rparr>))"

section \<open>Requests\<close>

text \<open>The clock of the process and of the database, and the id drawn for a new row.\<close>

record ws_env =
  we_now :: int
  we_stamp :: int
  we_id :: string

datatype ws_action =
    Create_Task create_task "trusted_source option" "task_assignment option"
  | Update_Task string update_task
  | Delete_Task string
  | Create_List string string "string option" "trusted_source option"
  | Update_List string "string option" "string option option" "bool option"
  | Delete_List string
  | Add_Item string string
  | Update_Item string string "string option" "bool option"
  | Delete_Item string string
  | Reorder string "string list"
  | Create_Note string string "trusted_source option"
  | Update_Note string "string option" "string option" "bool option" "bool option"
  | Delete_Note string
  | Create_Reminder create_reminder string "trusted_source option"
  | Update_Reminder string update_reminder
  | Delete_Reminder string

record ws_request =
  wr_actor :: string
  wr_env :: ws_env
  wr_action :: ws_action

datatype ws_answer = A_Task task_view | A_List list_view | A_Note note_view | A_Reminder reminder_view | A_None

definition answer :: "('v \<Rightarrow> ws_answer) \<Rightarrow> workspace_error + workspace_db \<times> 'v \<Rightarrow>
    workspace_error + workspace_db \<times> ws_answer" where
  "answer f res = rbind res (\<lambda>(db, v). Inr (db, f v))"

definition handle_workspace ::
    "user_names \<Rightarrow> (string \<Rightarrow> bool) \<Rightarrow> ws_request \<Rightarrow> workspace_db \<Rightarrow>
      workspace_error + workspace_db \<times> ws_answer" where
  "handle_workspace names isIana req db =
    (let a = wr_actor req; now = we_now (wr_env req); stamp = we_stamp (wr_env req); i = we_id (wr_env req) in
     case wr_action req of
       Create_Task input source assignment \<Rightarrow> answer A_Task (createTask names a input source assignment i now stamp db)
     | Update_Task t input \<Rightarrow> answer A_Task (updateTask names a t input now stamp db)
     | Delete_Task t \<Rightarrow> answer (\<lambda>_. A_None) (deleteTask a t now stamp db)
     | Create_List type title description source \<Rightarrow>
         answer A_List (createList a type title description source i stamp db)
     | Update_List l title description archived \<Rightarrow>
         answer A_List (updateList a l title description archived now stamp db)
     | Delete_List l \<Rightarrow> answer (\<lambda>_. A_None) (deleteList a l now stamp db)
     | Add_Item l txt \<Rightarrow> answer A_List (addItem a l txt i now stamp db)
     | Update_Item l item txt completed \<Rightarrow> answer A_List (updateItem a l item txt completed now stamp db)
     | Delete_Item l item \<Rightarrow> answer A_List (deleteItem a l item now db)
     | Reorder l is \<Rightarrow> answer A_List (reorder a l is now stamp db)
     | Create_Note title content source \<Rightarrow> answer A_Note (createNote a title content source i stamp db)
     | Update_Note n title content pinned archived \<Rightarrow>
         answer A_Note (updateNote a n title content pinned archived now stamp db)
     | Delete_Note n \<Rightarrow> answer (\<lambda>_. A_None) (deleteNote a n now stamp db)
     | Create_Reminder input zone source \<Rightarrow>
         answer A_Reminder (createReminder isIana a input zone source i stamp db)
     | Update_Reminder r input \<Rightarrow> answer A_Reminder (updateReminder isIana a r input now now stamp db)
     | Delete_Reminder r \<Rightarrow> answer (\<lambda>_. A_None) (deleteReminder a r now stamp db))"

section \<open>The invariant\<close>

definition parts_ok :: "workspace_object \<Rightarrow> bool" where
  "parts_ok row \<longleftrightarrow>
    (case wo_task row of None \<Rightarrow> True | Some t \<Rightarrow> (tk_completedAt t \<noteq> None) = (tk_status t = ''DONE'')) \<and>
    (case wo_reminder row of None \<Rightarrow> True | Some r \<Rightarrow>
      (rm_status r = ''PENDING'' \<longrightarrow> rm_canceledAt r = None) \<and>
      (rm_status r = ''CANCELED'' \<longrightarrow> rm_canceledAt r \<noteq> None))"

definition workspace_ok :: "workspace_db \<Rightarrow> bool" where
  "workspace_ok db \<longleftrightarrow> distinct (map wo_id (wd_objects db)) \<and> distinct (map li_id (wd_items db)) \<and>
    distinct (map (\<lambda>x. (li_listId x, li_position x)) (wd_items db)) \<and> list_all parts_ok (wd_objects db)"

text \<open>
  What a request of an actor may do: \<open>objects_kept\<close>, and the items it touches are in a list
  of the actor.
\<close>

definition items_kept :: "string \<Rightarrow> workspace_db \<Rightarrow> workspace_db \<Rightarrow> bool" where
  "items_kept actor db db' \<longleftrightarrow> (\<forall>l. (\<forall>row \<in> set (wd_objects db). wo_id row = l \<longrightarrow> wo_ownerUserId row \<noteq> actor) \<longrightarrow>
    items_of l db' = items_of l db)"

definition kept :: "string \<Rightarrow> workspace_db \<Rightarrow> workspace_db \<Rightarrow> bool" where
  "kept actor db db' \<longleftrightarrow> workspace_ok db' \<and> objects_kept actor (wd_objects db) (wd_objects db') \<and>
    items_kept actor db db'"

named_theorems kept_intros "requests stay within their bounds"

lemma create_kept:
  assumes ok: "workspace_ok db" and c: "create_object row db = Inr db'"
    and row: "wo_createdByUserId row = actor" "parts_ok row"
  shows "kept actor db db'"
proof -
  from c have "wd_items db' = wd_items db" "wd_objects db' = wd_objects db @ [row]"
    "wo_id row \<notin> wo_id ` set (wd_objects db)"
    by (auto simp: create_object_def split: if_splits)
  with ok row objects_kept_create[OF c] show ?thesis
    by (auto simp: kept_def workspace_ok_def items_kept_def items_of_def)
qed

lemma update_kept:
  assumes ok: "workspace_ok db" and l: "load_object kind actor i db = Inr row"
    and f: "\<And>x. same_identity x (f x)" "\<And>x. parts_ok x \<Longrightarrow> wo_id x = i \<Longrightarrow> parts_ok (f x)"
  shows "kept actor db (update_object i f s db)"
proof -
  have "parts_ok x \<Longrightarrow> wo_id x = i \<Longrightarrow> parts_ok ((f x)\<lparr>wo_updatedAt := s\<rparr>)" for x
    using f(2)[of x] by (simp add: parts_ok_def)
  with ok f objects_kept_update[OF _ l f(1), of s] show ?thesis
    by (auto simp: kept_def workspace_ok_def items_kept_def items_of_def update_object_def set_row_update
        list_all_iff same_identity_def)
qed

text \<open>Changing the items of one loaded list and touching it.\<close>

lemma items_changed_kept:
  assumes ok: "workspace_ok db" and l: "load_object ''LIST'' actor i db = Inr row"
    and items: "distinct (map li_id xs)" "distinct (map (\<lambda>x. (li_listId x, li_position x)) xs)"
      "filter (\<lambda>x. li_listId x \<noteq> i) xs = filter (\<lambda>x. li_listId x \<noteq> i) (wd_items db)"
  shows "kept actor db (touch i now (db\<lparr>wd_items := xs\<rparr>))"
proof -
  from l have l': "load_object ''LIST'' actor i (db\<lparr>wd_items := xs\<rparr>) = Inr row" by (simp add: load_object_def)
  have ok': "workspace_ok (db\<lparr>wd_items := xs\<rparr>)" using ok items by (simp add: workspace_ok_def)
  have k: "kept actor (db\<lparr>wd_items := xs\<rparr>) (touch i now (db\<lparr>wd_items := xs\<rparr>))"
    unfolding touch_def by (rule update_kept[OF ok' l']) (simp_all add: same_identity_def)
  from load_object_Inr[OF l] have row: "row \<in> set (wd_objects db)" "wo_id row = i" "wo_ownerUserId row = actor"
    by (auto simp: is_visible_def)
  have "items_of j (db\<lparr>wd_items := xs\<rparr>) = items_of j db" if "j \<noteq> i" for j
  proof -
    have "items_of j (db\<lparr>wd_items := xs\<rparr>) = filter (\<lambda>x. li_listId x = j) (filter (\<lambda>x. li_listId x \<noteq> i) xs)"
      using that by (auto simp: items_of_def intro!: filter_cong)
    also have "\<dots> = items_of j db"
      using that unfolding items(3) by (auto simp: items_of_def intro!: filter_cong)
    finally show ?thesis .
  qed
  with k row show ?thesis
    by (force simp: kept_def items_kept_def)
qed


lemma delete_kept [kept_intros]:
  assumes ok: "workspace_ok db" and d: "delete_object kind actor i now stamp db = Inr (db', v)"
  shows "kept actor db db'"
  using d by (auto simp: delete_object_def res_simps same_identity_def parts_ok_def intro!: update_kept[OF ok])

lemma task_requests_kept [kept_intros]:
  assumes ok: "workspace_ok db"
  shows "createTask names actor input source assignment i now stamp db = Inr (db', v) \<Longrightarrow> kept actor db db'"
    and "updateTask names actor j uinput now stamp db = Inr (db', v) \<Longrightarrow> kept actor db db'"
    and "deleteTask actor j now stamp db = Inr (db', u) \<Longrightarrow> kept actor db db'"
proof -
  assume "createTask names actor input source assignment i now stamp db = Inr (db', v)"
  then show "kept actor db db'"
    by (auto simp: createTask_def Let_def res_simps completedAtForStatus_def parts_ok_def new_object_def
        split: if_splits intro!: create_kept[OF ok])
next
  assume "updateTask names actor j uinput now stamp db = Inr (db', v)"
  then show "kept actor db db'"
    by (auto simp: updateTask_def Let_def res_simps case_missing_Inr completedAtForStatus_def parts_ok_def
        same_identity_def intro!: update_kept[OF ok])
next
  show "deleteTask actor j now stamp db = Inr (db', u) \<Longrightarrow> kept actor db db'"
    unfolding deleteTask_def by (rule delete_kept[OF ok])
qed

lemma note_requests_kept [kept_intros]:
  assumes ok: "workspace_ok db"
  shows "createNote actor title content source i stamp db = Inr (db', v) \<Longrightarrow> kept actor db db'"
    and "updateNote actor j utitle ucontent pinned archived now stamp db = Inr (db', v) \<Longrightarrow> kept actor db db'"
    and "deleteNote actor j now stamp db = Inr (db', u) \<Longrightarrow> kept actor db db'"
proof -
  assume "createNote actor title content source i stamp db = Inr (db', v)"
  then show "kept actor db db'"
    by (auto simp: createNote_def Let_def res_simps parts_ok_def new_object_def intro!: create_kept[OF ok])
next
  assume "updateNote actor j utitle ucontent pinned archived now stamp db = Inr (db', v)"
  then show "kept actor db db'"
    by (auto simp: updateNote_def Let_def res_simps case_missing_Inr parts_ok_def same_identity_def
        intro!: update_kept[OF ok])
next
  show "deleteNote actor j now stamp db = Inr (db', u) \<Longrightarrow> kept actor db db'"
    unfolding deleteNote_def by (rule delete_kept[OF ok])
qed

lemma reminder_status_ok:
  assumes "workspace_ok db" and "load_object ''REMINDER'' actor j db = Inr row" and "wo_reminder row = Some r"
    and "reminder_status status r now = Inr (s, c)"
  shows "(s = ''PENDING'' \<longrightarrow> c = None) \<and> (s = ''CANCELED'' \<longrightarrow> c \<noteq> None)"
proof -
  have "parts_ok row" using assms(1) load_object_Inr[OF assms(2)] by (auto simp: workspace_ok_def list_all_iff)
  with assms(3,4) show ?thesis by (auto simp: reminder_status_def parts_ok_def split: if_splits)
qed

lemma reminder_requests_kept [kept_intros]:
  assumes ok: "workspace_ok db"
  shows "createReminder isIana actor input zone source i stamp db = Inr (db', v) \<Longrightarrow> kept actor db db'"
    and "updateReminder isIana actor j uinput now1 now stamp db = Inr (db', v) \<Longrightarrow> kept actor db db'"
    and "deleteReminder actor j now stamp db = Inr (db', u) \<Longrightarrow> kept actor db db'"
proof -
  assume "createReminder isIana actor input zone source i stamp db = Inr (db', v)"
  then show "kept actor db db'"
    by (auto simp: createReminder_def Let_def res_simps parts_ok_def new_object_def intro!: create_kept[OF ok])
next
  assume "updateReminder isIana actor j uinput now1 now stamp db = Inr (db', v)"
  then show "kept actor db db'"
    by (auto simp: updateReminder_def Let_def res_simps case_missing_Inr parts_ok_def same_identity_def
        dest: reminder_status_ok[OF ok] intro!: update_kept[OF ok])
next
  show "deleteReminder actor j now stamp db = Inr (db', u) \<Longrightarrow> kept actor db db'"
    unfolding deleteReminder_def by (rule delete_kept[OF ok])
qed

text \<open>Lists: the items change within the loaded list.\<close>

lemma next_position_above: "x \<in> set items \<Longrightarrow> li_position x < next_position items"
proof -
  have "(m \<le> n \<longrightarrow> m \<le> fold (\<lambda>x m. max m (li_position x)) items n) \<and>
    (x \<in> set items \<longrightarrow> li_position x \<le> fold (\<lambda>x m. max m (li_position x)) items n)" for m n
    by (induction items arbitrary: m n) (auto simp: le_max_iff_disj dest: order_trans)
  then show "x \<in> set items \<Longrightarrow> ?thesis" unfolding next_position_def by force
qed

lemma touch_and_get_Inr: "touch_and_get actor i now db = Inr (db', v) \<Longrightarrow> db' = touch i now db"
  by (auto simp: touch_and_get_def Let_def res_simps)

lemma item_update_kept:
  assumes ok: "workspace_ok db" and l: "load_object ''LIST'' actor i db = Inr row"
    and item: "find_item i j row db = Inr item"
    and f: "\<And>x. li_id (f x) = li_id x \<and> li_listId (f x) = li_listId x \<and> li_position (f x) = li_position x"
  shows "kept actor db (touch i now (db\<lparr>wd_items := row_update li_id j f (wd_items db)\<rparr>))"
proof (rule items_changed_kept[OF ok l])
  let ?xs = "row_update li_id j f (wd_items db)"
  from item have found: "item \<in> set (wd_items db)" "li_listId item = i" "li_id item = j"
    by (auto simp: find_item_def items_of_def res_simps split: if_splits dest: findD)
  have d: "distinct (map li_id (wd_items db))" using ok by (simp add: workspace_ok_def)
  have "map (\<lambda>x. (li_listId x, li_position x)) ?xs = map (\<lambda>x. (li_listId x, li_position x)) (wd_items db)"
    "map li_id ?xs = map li_id (wd_items db)"
    using f by (auto simp: row_update_def)
  then show "distinct (map li_id ?xs)" "distinct (map (\<lambda>x. (li_listId x, li_position x)) ?xs)"
    using ok by (simp_all add: workspace_ok_def)
  have "li_id x \<noteq> j" if "x \<in> set (wd_items db)" "li_listId x \<noteq> i" for x
    using that found d by (auto simp: distinct_map inj_on_def)
  then show "filter (\<lambda>x. li_listId x \<noteq> i) ?xs = filter (\<lambda>x. li_listId x \<noteq> i) (wd_items db)"
    using f by (auto simp: row_update_def filter_map comp_def intro!: map_idI filter_cong)
qed

lemma place_others:
  assumes d: "distinct (map li_id (wd_items db))" and "is": "set is \<subseteq> li_id ` set (items_of i db)"
    and x: "x \<in> set (wd_items db)" "li_listId x \<noteq> i"
  shows "placed s (zip is [0..<length is]) x = x"
proof -
  have "li_id x \<notin> set is" using assms by (auto simp: items_of_def distinct_map inj_on_def)
  then have "map_of (zip is [0..<length is]) (li_id x) = None"
    by (cases "map_of (zip is [0..<length is]) (li_id x)") (auto dest!: map_of_SomeD set_zip_leftD)
  then show ?thesis by (simp only: placed_def option.case)
qed

lemma list_requests_kept [kept_intros]:
  assumes ok: "workspace_ok db"
  shows "createList actor type title description source i stamp db = Inr (db', v) \<Longrightarrow> kept actor db db'"
    and "updateList actor l utitle udescription archived now stamp db = Inr (db', v) \<Longrightarrow> kept actor db db'"
    and "deleteList actor l now stamp db = Inr (db', u) \<Longrightarrow> kept actor db db'"
proof -
  assume "createList actor type title description source i stamp db = Inr (db', v)"
  then show "kept actor db db'"
    by (auto simp: createList_def Let_def res_simps parts_ok_def new_object_def intro!: create_kept[OF ok])
next
  assume "updateList actor l utitle udescription archived now stamp db = Inr (db', v)"
  then show "kept actor db db'"
    by (auto simp: updateList_def Let_def res_simps case_missing_Inr parts_ok_def same_identity_def
        intro!: update_kept[OF ok])
next
  show "deleteList actor l now stamp db = Inr (db', u) \<Longrightarrow> kept actor db db'"
    unfolding deleteList_def by (rule delete_kept[OF ok])
qed

lemma addItem_kept [kept_intros]:
  assumes ok: "workspace_ok db" and a: "addItem actor l txt i now stamp db = Inr (db', v)"
  shows "kept actor db db'"
proof -
  define item where "item = \<lparr>li_id = i, li_listId = l, li_text = txt, li_position = next_position (items_of l db),
    li_completedAt = None, li_createdAt = stamp, li_updatedAt = stamp\<rparr>"
  from a obtain row where l: "load_object ''LIST'' actor l db = Inr row" and i: "i \<notin> li_id ` set (wd_items db)"
    and t: "touch_and_get actor l now (db\<lparr>wd_items := wd_items db @ [item]\<rparr>) = Inr (db', v)"
    unfolding item_def by (auto simp: addItem_def res_simps split: if_splits)
  note db' = touch_and_get_Inr[OF t]
  from i have new: "li_id item \<notin> li_id ` set (wd_items db)" "li_listId item = l"
    "li_position item = next_position (items_of l db)"
    by (simp_all add: item_def)
  have "(l, next_position (items_of l db)) \<notin> (\<lambda>x. (li_listId x, li_position x)) ` set (wd_items db)"
    using next_position_above[of _ "items_of l db"] by (fastforce simp: items_of_def)
  then show ?thesis
    unfolding db' using ok new by (intro items_changed_kept[OF ok l]) (auto simp: workspace_ok_def)
qed

lemma updateItem_kept [kept_intros]:
  assumes ok: "workspace_ok db" and u: "updateItem actor l j txt completed now stamp db = Inr (db', v)"
  shows "kept actor db db'"
  using u by (auto simp: updateItem_def Let_def res_simps dest!: touch_and_get_Inr intro!: item_update_kept[OF ok])

lemma deleteItem_kept [kept_intros]:
  assumes ok: "workspace_ok db" and d: "deleteItem actor l j now db = Inr (db', v)"
  shows "kept actor db db'"
proof -
  from d obtain row item where l: "load_object ''LIST'' actor l db = Inr row" "find_item l j row db = Inr item"
    and db': "db' = touch l now (db\<lparr>wd_items := filter (\<lambda>x. li_id x \<noteq> j) (wd_items db)\<rparr>)"
    by (auto simp: deleteItem_def res_simps dest!: touch_and_get_Inr)
  from l(2) have found: "item \<in> set (wd_items db)" "li_listId item = l" "li_id item = j"
    by (auto simp: find_item_def items_of_def res_simps split: if_splits dest: findD)
  have "li_id x \<noteq> j" if "x \<in> set (wd_items db)" "li_listId x \<noteq> l" for x
    using that found ok by (auto simp: workspace_ok_def distinct_map inj_on_def)
  then show ?thesis
    unfolding db' using ok
    by (intro items_changed_kept[OF ok l(1)]) (auto simp: workspace_ok_def distinct_map_filter intro!: filter_cong)
qed

lemma reorder_kept [kept_intros]:
  assumes ok: "workspace_ok db" and r: "reorder actor l is now stamp db = Inr (db', v)"
  shows "kept actor db db'"
proof -
  have d: "distinct (map li_id (wd_items db))" "distinct (map (\<lambda>x. (li_listId x, li_position x)) (wd_items db))"
    using ok by (simp_all add: workspace_ok_def)
  then have di: "distinct (map li_id (items_of l db))" by (simp add: items_of_def distinct_map_filter)
  let ?place = "placed stamp (zip is [0..<length is])"
  from r obtain row where l: "load_object ''LIST'' actor l db = Inr row"
    and ids: "assertReorderIds (if wo_list row = None then [] else map li_id (items_of l db)) is = Inr ()"
    and db': "db' = touch l now (db\<lparr>wd_items := fold (place_item stamp) (zip is [0..<length is]) (wd_items db)\<rparr>)"
    by (auto simp: reorder_def res_simps dest!: touch_and_get_Inr)
  show ?thesis
  proof (cases "wo_list row = None")
    case True
    with ids have "is = []" by (simp add: assertReorderIds_def split: if_splits)
    then show ?thesis unfolding db' using d by (intro items_changed_kept[OF ok l]) simp_all
  next
    case False
    with ids have "is": "distinct is" "set is = li_id ` set (items_of l db)"
      by (simp_all add: assertReorderIds_iff[OF di] split: if_splits)
    have fold: "fold (place_item stamp) (zip is [0..<length is]) (wd_items db) = map ?place (wd_items db)"
      using "is"(1) by (intro place_items) (simp add: map_fst_zip)
    have others: "?place x = x" if "x \<in> set (wd_items db)" "li_listId x \<noteq> l" for x
      using place_others[OF d(1) _ that] "is"(2) by simp
    have own: "\<exists>k<length is. li_id x = is ! k \<and> li_position (?place x) = int k"
      if x: "x \<in> set (wd_items db)" "li_listId x = l" for x
    proof -
      have "li_id x \<in> set is" using x "is"(2) by (simp add: items_of_def)
      then obtain k where "k < length is" "is ! k = li_id x" by (auto simp: in_set_conv_nth)
      with map_of_numbered[OF "is"(1), of k] show ?thesis by (auto simp: placed_def)
    qed
    have "x = y" if xy: "x \<in> set (wd_items db)" "y \<in> set (wd_items db)" "li_listId x = li_listId y"
      "li_position (?place x) = li_position (?place y)" for x y
    proof (cases "li_listId x = l")
      case True
      with own[of x] own[of y] xy have "li_id x = li_id y" by fastforce
      with xy d(1) show ?thesis by (simp add: distinct_map inj_on_def)
    next
      case False
      with others[of x] others[of y] xy d(2) show ?thesis by (simp add: distinct_map inj_on_def)
    qed
    then have "inj_on (\<lambda>x. (li_listId (?place x), li_position (?place x))) (set (wd_items db))"
      by (auto simp: inj_on_def)
    then have dp: "distinct (map (\<lambda>x. (li_listId x, li_position x)) (map ?place (wd_items db)))"
      using d(1) by (simp add: distinct_map comp_def)
    show ?thesis
      unfolding db' fold using d others dp
      by (intro items_changed_kept[OF ok l]) (auto simp: filter_map comp_def intro!: map_idI)
  qed
qed

lemma handle_workspace_kept:
  assumes "workspace_ok db" and "handle_workspace names isIana req db = Inr (db', v)"
  shows "kept (wr_actor req) db db'"
  using assms(2) by (auto simp: handle_workspace_def Let_def answer_def res_simps split: ws_action.splits
      intro: kept_intros[OF assms(1)])

interpretation workspace: transactional "handle_workspace names isIana" workspace_ok
  by unfold_locales (auto dest: handle_workspace_kept simp: kept_def)

section \<open>What others see\<close>

text \<open>
  \<open>untouched u db db'\<close>: what user \<open>u\<close> has in \<open>db\<close> is the same in \<open>db'\<close>, and what came is
  not from \<open>u\<close>.
\<close>

definition untouched :: "string \<Rightarrow> workspace_db \<Rightarrow> workspace_db \<Rightarrow> bool" where
  "untouched u db db' \<longleftrightarrow> length (wd_objects db) \<le> length (wd_objects db') \<and>
    (\<forall>k < length (wd_objects db). same_identity (wd_objects db ! k) (wd_objects db' ! k) \<and>
      (wo_ownerUserId (wd_objects db ! k) = u \<or> wo_deletedAt (wd_objects db ! k) \<noteq> None \<longrightarrow>
        wd_objects db' ! k = wd_objects db ! k)) \<and>
    (\<forall>k < length (wd_objects db'). length (wd_objects db) \<le> k \<longrightarrow> wo_createdByUserId (wd_objects db' ! k) \<noteq> u) \<and>
    (\<forall>row \<in> set (wd_objects db). wo_ownerUserId row = u \<longrightarrow> items_of (wo_id row) db' = items_of (wo_id row) db)"

lemma untouched_refl: "untouched u db db"
  by (simp add: untouched_def same_identity_def)

lemma untouched_trans:
  assumes "untouched u db db'" and "untouched u db' db''"
  shows "untouched u db db''"
proof -
  have in': "row \<in> set (wd_objects db')" if "row \<in> set (wd_objects db)" "wo_ownerUserId row = u" for row
    using that assms(1) unfolding untouched_def in_set_conv_nth by (metis order_less_le_trans)
  have same: "same_identity a b \<Longrightarrow> same_identity b c \<Longrightarrow> same_identity a c"
    "same_identity a b \<Longrightarrow> wo_createdByUserId b = wo_createdByUserId a" for a b c
    by (simp_all add: same_identity_def)
  show ?thesis
    unfolding untouched_def
  proof (intro conjI allI impI ballI)
    show "length (wd_objects db) \<le> length (wd_objects db'')" using assms by (simp add: untouched_def)
    fix k assume k: "k < length (wd_objects db)"
    with assms(1) have k': "k < length (wd_objects db')" by (simp add: untouched_def)
    from k k' assms show "same_identity (wd_objects db ! k) (wd_objects db'' ! k)"
      unfolding untouched_def using same(1) by blast
    assume "wo_ownerUserId (wd_objects db ! k) = u \<or> wo_deletedAt (wd_objects db ! k) \<noteq> None"
    with k k' assms show "wd_objects db'' ! k = wd_objects db ! k" unfolding untouched_def by metis
  next
    fix k assume k: "k < length (wd_objects db'')" "length (wd_objects db) \<le> k"
    show "wo_createdByUserId (wd_objects db'' ! k) \<noteq> u"
    proof (cases "k < length (wd_objects db')")
      case True
      then have "wo_createdByUserId (wd_objects db' ! k) \<noteq> u" "same_identity (wd_objects db' ! k) (wd_objects db'' ! k)"
        using k assms by (simp_all add: untouched_def)
      then show ?thesis by (simp add: same(2))
    qed (use k assms in \<open>simp add: untouched_def\<close>)
  next
    fix row assume "row \<in> set (wd_objects db)" "wo_ownerUserId row = u"
    with assms in' show "items_of (wo_id row) db'' = items_of (wo_id row) db" by (simp add: untouched_def)
  qed
qed

lemma kept_untouched:
  assumes "kept actor db db'" and "actor \<noteq> u" and "distinct (map wo_id (wd_objects db))"
  shows "untouched u db db'"
proof -
  have "wo_ownerUserId row' \<noteq> actor"
    if "row \<in> set (wd_objects db)" "wo_ownerUserId row = u" "row' \<in> set (wd_objects db)" "wo_id row' = wo_id row" for row row'
    using that assms(2,3) by (auto simp: distinct_map inj_on_def)
  moreover from assms(1) obtain zs where rows: "list_all2 (row_kept actor) (wd_objects db)
      (take (length (wd_objects db)) (wd_objects db'))"
    and new: "wd_objects db' = take (length (wd_objects db)) (wd_objects db') @ zs"
      "\<And>z. z \<in> set zs \<Longrightarrow> wo_createdByUserId z = actor"
    by (auto simp: kept_def objects_kept_def list_all_iff)
  moreover have len: "length (wd_objects db) \<le> length (wd_objects db')"
    using list_all2_lengthD[OF rows] by simp
  moreover have "wd_objects db' ! k \<in> set zs" if "k < length (wd_objects db')" "length (wd_objects db) \<le> k" for k
  proof -
    have "zs = drop (length (wd_objects db)) (wd_objects db')"
      using new(1) by (metis append_take_drop_id same_append_eq)
    then show ?thesis
      using that len by (metis add.commute diff_less_mono in_set_conv_nth length_drop le_add_diff_inverse nth_drop)
  qed
  ultimately show ?thesis
    using assms(1,2) unfolding untouched_def kept_def items_kept_def
    by (auto simp: row_kept_def list_all2_conv_all_nth)
qed


text \<open>
  C29: users are isolated. Requests of other users, in any number and order, leave every row a
  user owns and all items of the user's lists exactly as they were; the only rows that can come
  to the user are new ones of their creators (assigned tasks). No request at all changes a
  deleted row, or the id, kind, owner, creator or creation time of any row.
\<close>

theorem workspace_isolates_users:
  assumes "workspace_ok db" and "\<forall>request \<in> set requests. wr_actor request \<noteq> u"
  shows "untouched u db (run_requests (handle_workspace names isIana) requests db)"
  using assms
proof (induction requests arbitrary: db)
  case Nil
  then show ?case by (simp add: untouched_refl)
next
  case (Cons request requests)
  let ?db = "commit db (handle_workspace names isIana request db)"
  have "untouched u db ?db"
    using Cons.prems handle_workspace_kept[OF Cons.prems(1)]
    by (auto simp: commit_def workspace_ok_def untouched_refl split: sum.split intro!: kept_untouched)
  moreover have "untouched u ?db (run_requests (handle_workspace names isIana) requests ?db)"
    using Cons workspace.commit_inv by simp
  ultimately show ?case using untouched_trans by simp
qed

definition sample_ws_request :: "string \<Rightarrow> string \<Rightarrow> ws_action \<Rightarrow> ws_request" where
  "sample_ws_request actor i action = \<lparr>wr_actor = actor, wr_env = \<lparr>we_now = 20, we_stamp = 20, we_id = i\<rparr>, wr_action = action\<rparr>"

definition sample_run :: "ws_request list" where
  "sample_run = [sample_ws_request ''ann'' ''d'' (Add_Item ''l'' ''milk''),
    sample_ws_request ''bob'' ''n'' (Create_Note ''hi'' ''there'' None),
    sample_ws_request ''bob'' ''x'' (Delete_Item ''l'' ''a''),
    sample_ws_request ''ann'' ''x'' (Delete_List ''l'')]"


lemma workspace_isolates_users_witness:
  "untouched ''cat'' sample_lists (run_requests (handle_workspace (\<lambda>_. None) (\<lambda>_. True)) sample_run sample_lists) \<and>
   untouched ''ann'' sample_lists (run_requests (handle_workspace (\<lambda>_. None) (\<lambda>_. True)) (take 2 (drop 1 sample_run)) sample_lists)"
proof -
  have "workspace_ok sample_lists"
    by (simp add: workspace_ok_def sample_lists_def new_object_def parts_ok_def)
  then show ?thesis
    using workspace_isolates_users[of sample_lists sample_run "''cat''"]
      workspace_isolates_users[of sample_lists "take 2 (drop 1 sample_run)" "''ann''"]
    by (simp add: sample_run_def sample_ws_request_def)
qed

end
