(* ===== verification/Chat_Db.thy ===== *)
theory Chat_Db
  imports E2ee_Session Keyset
begin

text \<open>
  The tables behind direct chats (\<open>schema.prisma\<close>): users with their handles and public profiles,
  blocks, the published keys of devices, conversations with their members and messages, and the
  durable events that clients synchronise from. A message row holds its envelopes and mentions,
  which are only written with it. Instants are milliseconds, identifiers the database draws are
  arguments; the X3DH header of an envelope stands for its JSON text. Also what \<open>packages/trust/src/policy.ts\<close> and \<open>pair-key.ts\<close> decide from them.
\<close>

section \<open>Errors\<close>

datatype trust_error_code = NOT_FOUND | VALIDATION_ERROR | FORBIDDEN | CONFLICT | EVIDENCE_INVALID

datatype direct_chat_error_code =
    NOT_FOUND | DISABLED | VALIDATION_ERROR | FORBIDDEN | CONFLICT | DEVICE_REVOKED
  | RECIPIENT_DEVICE_MISSING | TAMPERED

datatype chat_error =
    DirectError direct_chat_error_code
  | TrustErr trust_error_code
  | ChatDbError string
  | ChatJsError string
  | ChatZodError

definition direct_http_status :: "direct_chat_error_code \<Rightarrow> nat" where
  "direct_http_status code = (case code of NOT_FOUND \<Rightarrow> 404 | DISABLED \<Rightarrow> 503 | VALIDATION_ERROR \<Rightarrow> 400
     | FORBIDDEN \<Rightarrow> 403 | CONFLICT \<Rightarrow> 409 | DEVICE_REVOKED \<Rightarrow> 403 | RECIPIENT_DEVICE_MISSING \<Rightarrow> 409
     | TAMPERED \<Rightarrow> 400)"

definition isUnique :: "chat_error \<Rightarrow> bool" where
  "isUnique e \<longleftrightarrow> e = ChatDbError ''P2002''"

section \<open>Tables\<close>

record handle_row =
  hd_id :: string
  hd_handle :: string
  hd_normalized :: string
  hd_kind :: string
  hd_status :: string
  hd_userId :: "string option"

record profile_row =
  pf_userId :: string
  pf_handleId :: string
  pf_displayName :: string
  pf_avatarUrl :: "string option"

record block_row =
  ub_id :: string
  ub_blockerUserId :: string
  ub_blockedUserId :: string
  ub_createdAt :: int

record crypto_device =
  cd_id :: string
  cd_userId :: string
  cd_identityEd25519Public :: string
  cd_identityX25519Public :: string
  cd_signedPrekeyId :: nat
  cd_signedPrekeyPublic :: string
  cd_signedPrekeySignature :: string
  cd_label :: "string option"
  cd_revokedAt :: "int option"
  cd_createdAt :: int

record otk_row =
  ok_deviceId :: string
  ok_keyId :: nat
  ok_publicKey :: string
  ok_consumedAt :: "int option"

record conversation_row =
  cv_id :: string
  cv_pairKey :: string
  cv_surface :: "(string \<times> string) option"
  cv_createdAt :: int
  cv_lastMessageAt :: int
  cv_lastMessageSequence :: int
  cv_interactionEpoch :: int

record chat_member =
  mb_conversationId :: string
  mb_userId :: string
  mb_lastReadAt :: "int option"
  mb_lastReadMessageSequence :: "int option"
  mb_shareOwnHistoryWithVimla :: bool
  mb_includePeerHistoryWhenInvoking :: bool

record envelope_row =
  ev_recipientDeviceId :: string
  ev_senderDeviceId :: string
  ev_headerB64 :: string
  ev_ciphertextB64 :: string
  ev_dhPublicB64 :: string
  ev_messageNumber :: nat
  ev_previousChainLength :: nat
  ev_senderSignatureB64 :: string
  ev_x3dhInit :: "x3dh_header option"

record mention_view =
  mv_id :: string
  mv_handleId :: string
  mv_kind :: string
  mv_targetId :: "string option"
  mv_canonicalHandle :: string
  mv_startOffset :: nat
  mv_endOffset :: nat

record message_row =
  ms_id :: string
  ms_conversationId :: string
  ms_senderUserId :: string
  ms_senderDeviceId :: string
  ms_clientMessageId :: string
  ms_contentCommitmentB64 :: "string option"
  ms_kind :: message_kind
  ms_interactionEpoch :: int
  ms_sequence :: int
  ms_createdAt :: int
  ms_envelopes :: "envelope_row list"
  ms_mentions :: "mention_view list"

record sync_state =
  sy_userId :: string
  sy_lastPosition :: int
  sy_minRetainedPosition :: int

record durable_event =
  de_id :: string
  de_eventType :: string
  de_scopeId :: string
  de_occurredAt :: int
  de_messageId :: "string option"
  de_recipients :: "(string \<times> int) list"

record chat_db =
  ch_users :: "string list"
  ch_handles :: "handle_row list"
  ch_profiles :: "profile_row list"
  ch_blocks :: "block_row list"
  ch_devices :: "crypto_device list"
  ch_otks :: "otk_row list"
  ch_conversations :: "conversation_row list"
  ch_members :: "chat_member list"
  ch_messages :: "message_row list"
  ch_sync :: "sync_state list"
  ch_events :: "durable_event list"

section \<open>pair-key.ts and policy.ts\<close>

definition directPairKey :: "string \<Rightarrow> string \<Rightarrow> chat_error + string" where
  "directPairKey a b = (if a = b then Inl (DirectError VALIDATION_ERROR)
     else Inr (join_with '':'' (js_sort string_cmp [a, b])))"

text \<open>The users of a pair are locked together; the lock succeeds when both exist.\<close>

definition lockTrustUserPair :: "string \<Rightarrow> string \<Rightarrow> chat_db \<Rightarrow> bool" where
  "lockTrustUserPair l r db \<longleftrightarrow> l = r \<or> (l \<in> set (ch_users db) \<and> r \<in> set (ch_users db))"

definition blocks :: "string \<Rightarrow> string \<Rightarrow> block_row \<Rightarrow> bool" where
  "blocks blocker blocked row \<longleftrightarrow> ub_blockerUserId row = blocker \<and> ub_blockedUserId row = blocked"

definition hasBlocked :: "string \<Rightarrow> string \<Rightarrow> chat_db \<Rightarrow> bool" where
  "hasBlocked blocker blocked db \<longleftrightarrow> blocker \<noteq> blocked \<and> list_ex (blocks blocker blocked) (ch_blocks db)"

definition canInteract :: "string \<Rightarrow> string \<Rightarrow> chat_db \<Rightarrow> bool" where
  "canInteract l r db \<longleftrightarrow> l = r \<or> \<not> list_ex (\<lambda>row. blocks l r row \<or> blocks r l row) (ch_blocks db)"

definition filterDiscoverableUserIds :: "string \<Rightarrow> string list \<Rightarrow> chat_db \<Rightarrow> string list" where
  "filterDiscoverableUserIds actor candidates db =
    (let unique = rev (remdups (rev candidates)); peers = filter (\<lambda>u. u \<noteq> actor) unique in
     if peers = [] then unique
     else let rows = filter (\<lambda>row. (ub_blockerUserId row = actor \<and> ub_blockedUserId row \<in> set peers) \<or>
              (ub_blockedUserId row = actor \<and> ub_blockerUserId row \<in> set peers)) (ch_blocks db);
            excluded = map (\<lambda>row. if ub_blockerUserId row = actor then ub_blockedUserId row
              else ub_blockerUserId row) rows
       in filter (\<lambda>u. u = actor \<or> u \<notin> set excluded) unique)"

text \<open>The policy decides symmetrically, and a list is filtered as its members are decided.\<close>

lemma canInteract_sym: "canInteract l r db = canInteract r l db"
  by (auto simp: canInteract_def list_ex_iff)

lemma filterDiscoverable_iff:
  "u \<in> set (filterDiscoverableUserIds actor candidates db) \<longleftrightarrow>
    u \<in> set candidates \<and> canInteract actor u db"
  by (auto simp: filterDiscoverableUserIds_def Let_def canInteract_def list_ex_iff blocks_def filter_empty_conv)

lemma canInteract_iff: "l \<noteq> r \<Longrightarrow> canInteract l r db \<longleftrightarrow> \<not> hasBlocked l r db \<and> \<not> hasBlocked r l db"
  by (auto simp: canInteract_def hasBlocked_def list_ex_iff)

section \<open>Public identities\<close>

record participant =
  pt_userId :: string
  pt_handle :: string
  pt_name :: string
  pt_avatarUrl :: "string option"

definition public_handle :: "profile_row \<Rightarrow> chat_db \<Rightarrow> handle_row option" where
  "public_handle p db = find (\<lambda>h. hd_id h = pf_handleId p \<and> hd_kind h = ''USER'' \<and> hd_status h = ''ACTIVE'')
    (ch_handles db)"

definition readParticipantProfiles :: "string list \<Rightarrow> chat_db \<Rightarrow> string \<Rightarrow> participant option" where
  "readParticipantProfiles ids db u = (if u \<notin> set ids then None else
    (case find (\<lambda>p. pf_userId p = u \<and> public_handle p db \<noteq> None) (ch_profiles db) of
       None \<Rightarrow> None
     | Some p \<Rightarrow> map_option (\<lambda>h. \<lparr>pt_userId = u, pt_handle = hd_handle h, pt_name = pf_displayName p,
         pt_avatarUrl = pf_avatarUrl p\<rparr>) (public_handle p db)))"

definition requireParticipant :: "(string \<Rightarrow> participant option) \<Rightarrow> string \<Rightarrow> chat_error + participant" where
  "requireParticipant profiles u =
    the_row (ChatJsError ''Direct Chat participant public identity is invalid'') (profiles u)"

section \<open>Transactions\<close>

text \<open>
  A transaction commits or leaves the database; what the code does after a commit may still throw.
\<close>

definition chat_tx :: "'e fault \<Rightarrow> ('d \<Rightarrow> 'e + 'd \<times> 'a) \<Rightarrow> 'd \<Rightarrow> ('e + 'a) \<times> 'd" where
  "chat_tx f op db = faulty f db (op db)"

definition chat_read :: "('d \<Rightarrow> 'e + 'a) \<Rightarrow> 'd \<Rightarrow> ('e + 'a) \<times> 'd" where
  "chat_read op db = (op db, db)"

end
