(* ===== verification/Direct_Devices.thy ===== *)
theory Direct_Devices
  imports Chat_Db
begin

text \<open>
  \<open>packages/direct-chats/src/device-service.ts\<close>: the published keys of devices. A device registers
  its identity, its signed prekey and one-time prekeys; whoever starts a session with a user
  receives a bundle per active device and consumes one one-time prekey of each.
\<close>

section \<open>Requests and views\<close>

record register_device =
  rd_deviceId :: string
  rd_identityEd25519Public :: string
  rd_identityX25519Public :: string
  rd_signedPrekeyId :: nat
  rd_signedPrekeyPublic :: string
  rd_signedPrekeySignature :: string
  rd_oneTimePrekeys :: "(nat \<times> string) list"
  rd_label :: "string option"

record rotate_prekeys =
  ro_signedPrekeyId :: nat
  ro_signedPrekeyPublic :: string
  ro_signedPrekeySignature :: string
  ro_oneTimePrekeys :: "(nat \<times> string) list"

record device_view =
  dv_id :: string
  dv_userId :: string
  dv_identityEd25519Public :: string
  dv_identityX25519Public :: string
  dv_signedPrekeyId :: nat
  dv_signedPrekeyPublic :: string
  dv_signedPrekeySignature :: string
  dv_revoked :: bool
  dv_createdAt :: int

definition toDeviceView :: "crypto_device \<Rightarrow> device_view" where
  "toDeviceView d = \<lparr>dv_id = cd_id d, dv_userId = cd_userId d,
    dv_identityEd25519Public = cd_identityEd25519Public d, dv_identityX25519Public = cd_identityX25519Public d,
    dv_signedPrekeyId = cd_signedPrekeyId d, dv_signedPrekeyPublic = cd_signedPrekeyPublic d,
    dv_signedPrekeySignature = cd_signedPrekeySignature d, dv_revoked = (cd_revokedAt d \<noteq> None),
    dv_createdAt = cd_createdAt d\<rparr>"

definition assertSignedPrekey :: "crypto \<Rightarrow> string \<Rightarrow> nat \<Rightarrow> string \<Rightarrow> string \<Rightarrow> chat_error + unit" where
  "assertSignedPrekey C identity keyId prekey signature =
    (case (b64ToBytes identity, b64ToBytes prekey, b64ToBytes signature) of
       (Some i, Some p, Some s) \<Rightarrow>
         guard_res (\<not> verifySignedPreKey C i keyId p s) (DirectError VALIDATION_ERROR)
     | _ \<Rightarrow> Inl (DirectError VALIDATION_ERROR))"

section \<open>One-time prekeys\<close>

text \<open>\<open>createMany\<close> with \<open>skipDuplicates\<close>, and the removal of unused keys before it.\<close>

definition otk_key :: "otk_row \<Rightarrow> string \<times> nat" where
  "otk_key k = (ok_deviceId k, ok_keyId k)"

definition add_otk :: "string \<Rightarrow> nat \<times> string \<Rightarrow> otk_row list \<Rightarrow> otk_row list" where
  "add_otk deviceId key rows = (if (deviceId, fst key) \<in> otk_key ` set rows then rows
    else rows @ [\<lparr>ok_deviceId = deviceId, ok_keyId = fst key, ok_publicKey = snd key, ok_consumedAt = None\<rparr>])"

definition createMany_otks :: "string \<Rightarrow> (nat \<times> string) list \<Rightarrow> otk_row list \<Rightarrow> otk_row list" where
  "createMany_otks deviceId keys rows = fold (add_otk deviceId) keys rows"

definition delete_unused :: "string \<Rightarrow> otk_row list \<Rightarrow> otk_row list" where
  "delete_unused deviceId rows = filter (\<lambda>k. \<not> (ok_deviceId k = deviceId \<and> ok_consumedAt k = None)) rows"

section \<open>Devices\<close>

definition register ::
    "crypto \<Rightarrow> string \<Rightarrow> register_device \<Rightarrow> int \<Rightarrow> chat_db \<Rightarrow> chat_error + chat_db \<times> device_view" where
  "register C actor input now db =
    rbind (assertSignedPrekey C (rd_identityEd25519Public input) (rd_signedPrekeyId input)
      (rd_signedPrekeyPublic input) (rd_signedPrekeySignature input)) (\<lambda>_.
    case row_find cd_id (rd_deviceId input) (ch_devices db) of
      None \<Rightarrow>
        if \<not> distinct (map fst (rd_oneTimePrekeys input)) then Inl (ChatDbError ''P2002'')
        else (let d = \<lparr>cd_id = rd_deviceId input, cd_userId = actor,
                cd_identityEd25519Public = rd_identityEd25519Public input,
                cd_identityX25519Public = rd_identityX25519Public input,
                cd_signedPrekeyId = rd_signedPrekeyId input, cd_signedPrekeyPublic = rd_signedPrekeyPublic input,
                cd_signedPrekeySignature = rd_signedPrekeySignature input, cd_label = rd_label input,
                cd_revokedAt = None, cd_createdAt = now\<rparr>
              in Inr (db\<lparr>ch_devices := ch_devices db @ [d],
                ch_otks := createMany_otks (rd_deviceId input) (rd_oneTimePrekeys input) (ch_otks db)\<rparr>,
                toDeviceView d))
    | Some existing \<Rightarrow>
        if cd_userId existing \<noteq> actor then Inl (DirectError FORBIDDEN)
        else if cd_revokedAt existing \<noteq> None then Inl (DirectError DEVICE_REVOKED)
        else if cd_identityEd25519Public existing \<noteq> rd_identityEd25519Public input \<or>
            cd_identityX25519Public existing \<noteq> rd_identityX25519Public input
        then Inl (DirectError TAMPERED)
        else (let f = (\<lambda>d. d\<lparr>cd_signedPrekeyId := rd_signedPrekeyId input,
                cd_signedPrekeyPublic := rd_signedPrekeyPublic input,
                cd_signedPrekeySignature := rd_signedPrekeySignature input,
                cd_label := (case rd_label input of None \<Rightarrow> cd_label d | Some l \<Rightarrow> Some l)\<rparr>)
              in Inr (db\<lparr>ch_devices := row_update cd_id (cd_id existing) f (ch_devices db),
                ch_otks := createMany_otks (cd_id existing) (rd_oneTimePrekeys input)
                  (delete_unused (cd_id existing) (ch_otks db))\<rparr>, toDeviceView (f existing))))"

definition requireOwnDevice :: "string \<Rightarrow> string \<Rightarrow> chat_db \<Rightarrow> chat_error + crypto_device" where
  "requireOwnDevice userId deviceId db =
    the_row (DirectError NOT_FOUND) (find (\<lambda>d. cd_id d = deviceId \<and> cd_userId d = userId) (ch_devices db))"

definition requireOwnActiveDevice :: "string \<Rightarrow> string \<Rightarrow> chat_db \<Rightarrow> chat_error + crypto_device" where
  "requireOwnActiveDevice userId deviceId db = rbind (requireOwnDevice userId deviceId db) (\<lambda>d.
    if cd_revokedAt d \<noteq> None then Inl (DirectError DEVICE_REVOKED) else Inr d)"

text \<open>Rotating is three statements of their own, any of which may fail (\<open>fs\<close>).\<close>

definition update_prekey :: "crypto_device \<Rightarrow> rotate_prekeys \<Rightarrow> crypto_device \<Rightarrow> crypto_device" where
  "update_prekey device input d = d\<lparr>cd_signedPrekeyId := ro_signedPrekeyId input,
    cd_signedPrekeyPublic := ro_signedPrekeyPublic input,
    cd_signedPrekeySignature := ro_signedPrekeySignature input\<rparr>"

definition replaceUnusedPrekeys ::
    "chat_error fault \<Rightarrow> chat_error fault \<Rightarrow> string \<Rightarrow> (nat \<times> string) list \<Rightarrow> chat_db \<Rightarrow> (chat_error + unit) \<times> chat_db" where
  "replaceUnusedPrekeys f2 f3 deviceId keys db =
    sbind (chat_tx f2 (\<lambda>db. Inr (db\<lparr>ch_otks := delete_unused deviceId (ch_otks db)\<rparr>, ())) db) (\<lambda>_ db.
    if keys = [] then (Inr (), db)
    else chat_tx f3 (\<lambda>db. Inr (db\<lparr>ch_otks := createMany_otks deviceId keys (ch_otks db)\<rparr>, ())) db)"

definition rotate ::
    "crypto \<Rightarrow> chat_error fault \<times> chat_error fault \<times> chat_error fault \<Rightarrow> string \<Rightarrow> string \<Rightarrow> rotate_prekeys \<Rightarrow>
      chat_db \<Rightarrow> (chat_error + device_view) \<times> chat_db" where
  "rotate C fs actor deviceId input db =
    sbind (chat_read (requireOwnActiveDevice actor deviceId) db) (\<lambda>device db.
    sbind (chat_read (\<lambda>_. assertSignedPrekey C (cd_identityEd25519Public device) (ro_signedPrekeyId input)
      (ro_signedPrekeyPublic input) (ro_signedPrekeySignature input)) db) (\<lambda>_ db.
    sbind (chat_tx (fst fs) (\<lambda>db. Inr (db\<lparr>ch_devices :=
        row_update cd_id (cd_id device) (update_prekey device input) (ch_devices db)\<rparr>,
        toDeviceView (update_prekey device input device))) db) (\<lambda>view db.
    sbind (replaceUnusedPrekeys (fst (snd fs)) (snd (snd fs)) (cd_id device) (ro_oneTimePrekeys input) db) (\<lambda>_ db.
    (Inr view, db)))))"

definition listMine :: "string \<Rightarrow> chat_db \<Rightarrow> device_view list" where
  "listMine actor db = map toDeviceView
    (js_sort (cmp_on int_cmp cd_createdAt) (filter (\<lambda>d. cd_userId d = actor) (ch_devices db)))"

definition revoke :: "string \<Rightarrow> string \<Rightarrow> int \<Rightarrow> chat_db \<Rightarrow> chat_error + chat_db \<times> device_view" where
  "revoke actor deviceId now db = rbind (requireOwnDevice actor deviceId db) (\<lambda>device.
    if cd_revokedAt device \<noteq> None then Inr (db, toDeviceView device)
    else Inr (db\<lparr>ch_devices := row_update cd_id (cd_id device) (\<lambda>d. d\<lparr>cd_revokedAt := Some now\<rparr>) (ch_devices db)\<rparr>,
      toDeviceView (device\<lparr>cd_revokedAt := Some now\<rparr>)))"

section \<open>Bundles\<close>

definition next_otk :: "string \<Rightarrow> otk_row list \<Rightarrow> otk_row option" where
  "next_otk deviceId rows =
    (case js_sort (cmp_on int_cmp (\<lambda>k. int (ok_keyId k)))
        (filter (\<lambda>k. ok_deviceId k = deviceId \<and> ok_consumedAt k = None) rows) of
       [] \<Rightarrow> None | k # _ \<Rightarrow> Some k)"

definition consume_device :: "int \<Rightarrow> crypto_device \<Rightarrow> public_bundle list \<times> otk_row list \<Rightarrow> public_bundle list \<times> otk_row list" where
  "consume_device now d acc =
    (let otk = next_otk (cd_id d) (snd acc) in
     (fst acc @ [\<lparr>pb_deviceId = cd_id d, pb_identityEd25519Public = cd_identityEd25519Public d,
        pb_identityX25519Public = cd_identityX25519Public d, pb_signedPrekeyId = cd_signedPrekeyId d,
        pb_signedPrekeyPublic = cd_signedPrekeyPublic d, pb_signedPrekeySignature = cd_signedPrekeySignature d,
        pb_oneTimePrekeyId = map_option ok_keyId otk, pb_oneTimePrekeyPublic = map_option ok_publicKey otk\<rparr>],
      case otk of None \<Rightarrow> snd acc
      | Some k \<Rightarrow> row_update otk_key (otk_key k) (\<lambda>k. k\<lparr>ok_consumedAt := Some now\<rparr>) (snd acc)))"

definition consumePrekeyBundlesForUser :: "string \<Rightarrow> int \<Rightarrow> chat_db \<Rightarrow> chat_db \<times> public_bundle list" where
  "consumePrekeyBundlesForUser userId now db =
    (case fold (consume_device now) (js_sort (cmp_on string_cmp cd_id)
        (filter (\<lambda>d. cd_userId d = userId \<and> cd_revokedAt d = None) (ch_devices db))) ([], ch_otks db) of
       (bundles, otks) \<Rightarrow> (db\<lparr>ch_otks := otks\<rparr>, bundles))"

end
