(* ===== verification/Direct_Chats.thy ===== *)
theory Direct_Chats
  imports Direct_Devices
begin

text \<open>
  \<open>packages/direct-chats/src/direct-chat-service.ts\<close> and \<open>durable-events.ts\<close>: conversations,
  read positions, and messages that are accepted once, only between users who may interact, only
  in the interaction epoch they were signed for, and only with an envelope per active device.
  What an operation reads before its transaction it may read from an older state (\<open>snap\<close>).
\<close>

unbundle bit_operations_syntax

section \<open>Durable events\<close>

text \<open>Every recipient has a counter of positions, which each event moves by one.\<close>

definition bump_position :: "string \<Rightarrow> sync_state list \<Rightarrow> sync_state list" where
  "bump_position u states =
    (if u \<in> sy_userId ` set states
     then row_update sy_userId u (\<lambda>s. s\<lparr>sy_lastPosition := sy_lastPosition s + 1\<rparr>) states
     else states @ [\<lparr>sy_userId = u, sy_lastPosition = 1, sy_minRetainedPosition = 0\<rparr>])"

definition last_position :: "string \<Rightarrow> sync_state list \<Rightarrow> int" where
  "last_position u states = (case row_find sy_userId u states of None \<Rightarrow> 0 | Some s \<Rightarrow> sy_lastPosition s)"

definition write_event ::
    "string \<Rightarrow> string \<Rightarrow> string \<Rightarrow> int \<Rightarrow> string option \<Rightarrow> string list \<Rightarrow> chat_db \<Rightarrow> chat_error + chat_db" where
  "write_event eventId eventType scopeId occurredAt messageId recipients db =
    (let states = fold bump_position recipients (ch_sync db) in
     if eventId \<in> de_id ` set (ch_events db) then Inl (ChatDbError ''P2002'')
     else Inr (db\<lparr>ch_sync := states, ch_events := ch_events db @
       [\<lparr>de_id = eventId, de_eventType = eventType, de_scopeId = scopeId, de_occurredAt = occurredAt,
         de_messageId = messageId, de_recipients = map (\<lambda>u. (u, last_position u states)) recipients\<rparr>]\<rparr>))"

definition directMessageCreated :: "string \<Rightarrow> string \<Rightarrow> int \<Rightarrow> string list \<Rightarrow> chat_db \<Rightarrow> chat_error + chat_db" where
  "directMessageCreated conversationId messageId occurredAt recipientUserIds db =
    (let recipients = js_sort string_cmp (remdups recipientUserIds) in
     if recipients = [] then Inl (ChatJsError ''Durable Direct Chat event requires recipients'')
     else write_event messageId ''DIRECT_MESSAGE_CREATED'' conversationId occurredAt (Some messageId) recipients db)"

definition directReadUpdated :: "string \<Rightarrow> string \<Rightarrow> int \<Rightarrow> string \<Rightarrow> chat_db \<Rightarrow> chat_error + chat_db" where
  "directReadUpdated eventId conversationId occurredAt recipient db =
    write_event eventId ''DIRECT_READ_UPDATED'' conversationId occurredAt None [recipient] db"

section \<open>Conversations\<close>

record privacy =
  pv_shareOwnHistoryWithVimla :: bool
  pv_includePeerHistoryWhenInvoking :: bool
  pv_peerShareOwnHistoryWithVimla :: bool

record conversation_view =
  vw_id :: string
  vw_surfaceId :: string
  vw_peer :: participant
  vw_lastMessageAt :: int
  vw_unreadCount :: nat
  vw_lastKind :: "message_kind option"
  vw_lastSenderUserId :: "string option"
  vw_createdAt :: int
  vw_interactionEpoch :: int
  vw_blockedByMe :: bool
  vw_privacy :: privacy
  vw_members :: "participant list"
  vw_devices :: "device_view list"

definition members_of :: "string \<Rightarrow> chat_db \<Rightarrow> chat_member list" where
  "members_of c db = filter (\<lambda>b. mb_conversationId b = c) (ch_members db)"

definition member_row :: "string \<Rightarrow> string \<Rightarrow> chat_db \<Rightarrow> chat_member option" where
  "member_row c u db = find (\<lambda>b. mb_conversationId b = c \<and> mb_userId b = u) (ch_members db)"

definition requireMemberConversation :: "string \<Rightarrow> string \<Rightarrow> chat_db \<Rightarrow> chat_error + conversation_row" where
  "requireMemberConversation userId c db = the_row (DirectError NOT_FOUND)
    (find (\<lambda>r. cv_id r = c \<and> member_row c userId db \<noteq> None) (ch_conversations db))"

definition readUnreadCount :: "string \<Rightarrow> string \<Rightarrow> chat_db \<Rightarrow> nat" where
  "readUnreadCount actor c db = (case member_row c actor db of None \<Rightarrow> 0
     | Some b \<Rightarrow> length (filter (\<lambda>m. ms_conversationId m = c \<and> ms_senderUserId m \<noteq> actor \<and>
         (case mb_lastReadMessageSequence b of None \<Rightarrow> True | Some s \<Rightarrow> ms_sequence m > s)) (ch_messages db)))"

definition messageOrderBy :: "message_row \<Rightarrow> message_row \<Rightarrow> int" where
  "messageOrderBy = cmp_then (cmp_rev (cmp_on int_cmp ms_createdAt)) (cmp_rev (cmp_on string_cmp ms_id))"

definition latest_message :: "string \<Rightarrow> chat_db \<Rightarrow> message_row option" where
  "latest_message c db = (case js_sort messageOrderBy (filter (\<lambda>m. ms_conversationId m = c) (ch_messages db)) of
     [] \<Rightarrow> None | m # _ \<Rightarrow> Some m)"

definition toPrivacy :: "chat_member \<Rightarrow> chat_member \<Rightarrow> privacy" where
  "toPrivacy mine peer = \<lparr>pv_shareOwnHistoryWithVimla = mb_shareOwnHistoryWithVimla mine,
    pv_includePeerHistoryWhenInvoking = mb_includePeerHistoryWhenInvoking mine,
    pv_peerShareOwnHistoryWithVimla = mb_shareOwnHistoryWithVimla peer\<rparr>"

text \<open>\<open>toView\<close> with \<open>toSummary\<close>; every part that is missing is an error of its own.\<close>

definition toView :: "conversation_row \<Rightarrow> string \<Rightarrow> chat_db \<Rightarrow> chat_error + conversation_view" where
  "toView r actor db =
    (let ms = members_of (cv_id r) db; profiles = readParticipantProfiles (map mb_userId ms) db in
     rbind (the_row (DirectError NOT_FOUND) (find (\<lambda>b. mb_userId b \<noteq> actor) ms)) (\<lambda>peer.
     rbind (the_row (DirectError NOT_FOUND) (find (\<lambda>b. mb_userId b = actor) ms)) (\<lambda>mine.
     rbind (case cv_surface r of Some (i, kind) \<Rightarrow>
           if kind = ''DIRECT'' then Inr i
           else Inl (ChatJsError ''Direct Chat communication surface binding is invalid'')
         | None \<Rightarrow> Inl (ChatJsError ''Direct Chat communication surface binding is invalid'')) (\<lambda>surface.
     rbind (requireParticipant profiles (mb_userId peer)) (\<lambda>p.
     rbind (map_res (\<lambda>b. requireParticipant profiles (mb_userId b)) ms) (\<lambda>participants.
     Inr \<lparr>vw_id = cv_id r, vw_surfaceId = surface, vw_peer = p, vw_lastMessageAt = cv_lastMessageAt r,
       vw_unreadCount = readUnreadCount actor (cv_id r) db,
       vw_lastKind = map_option ms_kind (latest_message (cv_id r) db),
       vw_lastSenderUserId = map_option ms_senderUserId (latest_message (cv_id r) db),
       vw_createdAt = cv_createdAt r, vw_interactionEpoch = cv_interactionEpoch r,
       vw_blockedByMe = hasBlocked actor (mb_userId peer) db, vw_privacy = toPrivacy mine peer,
       vw_members = participants,
       vw_devices = concat (map (\<lambda>b. map toDeviceView (filter (\<lambda>d. cd_userId d = mb_userId b \<and>
         cd_revokedAt d = None) (ch_devices db))) ms)\<rparr>))))))"

definition get_chat :: "string \<Rightarrow> string \<Rightarrow> chat_db \<Rightarrow> chat_error + conversation_view" where
  "get_chat actor c db = rbind (requireMemberConversation actor c db) (\<lambda>r. toView r actor db)"

definition create_conversation ::
    "string \<Rightarrow> string \<Rightarrow> string \<Rightarrow> string \<Rightarrow> string \<Rightarrow> int \<Rightarrow> chat_db \<Rightarrow> chat_error + chat_db \<times> conversation_row" where
  "create_conversation actor peer pairKey i surfaceId now db =
    (if \<not> (lockTrustUserPair actor peer db \<and> canInteract actor peer db) then Inl (DirectError NOT_FOUND)
     else case find (\<lambda>r. cv_pairKey r = pairKey) (ch_conversations db) of
       Some r \<Rightarrow> Inr (db, r)
     | None \<Rightarrow>
         if i \<in> cv_id ` set (ch_conversations db) then Inl (ChatDbError ''P2002'')
         else (let r = \<lparr>cv_id = i, cv_pairKey = pairKey, cv_surface = Some (surfaceId, ''DIRECT''),
                 cv_createdAt = now, cv_lastMessageAt = now, cv_lastMessageSequence = 0,
                 cv_interactionEpoch = 0\<rparr>;
               m = (\<lambda>u. \<lparr>mb_conversationId = i, mb_userId = u, mb_lastReadAt = None,
                 mb_lastReadMessageSequence = None, mb_shareOwnHistoryWithVimla = False,
                 mb_includePeerHistoryWhenInvoking = False\<rparr>)
           in Inr (db\<lparr>ch_conversations := ch_conversations db @ [r],
             ch_members := ch_members db @ [m actor, m peer]\<rparr>, r)))"

definition create_chat ::
    "string \<Rightarrow> string \<Rightarrow> string \<Rightarrow> string \<Rightarrow> int \<Rightarrow> chat_db \<Rightarrow> chat_db \<Rightarrow> (chat_error + conversation_view) \<times> chat_db" where
  "create_chat actor peer i surfaceId now snap db =
    (if peer = actor \<or> \<not> canInteract actor peer snap \<or> readParticipantProfiles [peer] snap peer = None
     then (Inl (DirectError NOT_FOUND), db)
     else sbind (chat_read (\<lambda>_. directPairKey actor peer) db) (\<lambda>pairKey db.
       sbind (chat_tx No_Fault (create_conversation actor peer pairKey i surfaceId now) db) (\<lambda>r db.
       chat_read (toView r actor) db)))"

definition set_member :: "string \<Rightarrow> string \<Rightarrow> (chat_member \<Rightarrow> chat_member) \<Rightarrow> chat_db \<Rightarrow> chat_db" where
  "set_member c u f db = db\<lparr>ch_members :=
    row_update (\<lambda>b. (mb_conversationId b, mb_userId b)) (c, u) f (ch_members db)\<rparr>"

definition updatePrivacy ::
    "string \<Rightarrow> string \<Rightarrow> bool option \<Rightarrow> bool option \<Rightarrow> chat_db \<Rightarrow> (chat_error + conversation_view) \<times> chat_db" where
  "updatePrivacy actor c share include db =
    sbind (chat_read (requireMemberConversation actor c) db) (\<lambda>_ db.
    sbind (chat_tx No_Fault (\<lambda>db. Inr (set_member c actor (\<lambda>b. b\<lparr>
        mb_shareOwnHistoryWithVimla := (case share of None \<Rightarrow> mb_shareOwnHistoryWithVimla b | Some x \<Rightarrow> x),
        mb_includePeerHistoryWhenInvoking :=
          (case include of None \<Rightarrow> mb_includePeerHistoryWhenInvoking b | Some x \<Rightarrow> x)\<rparr>) db, ())) db) (\<lambda>_ db.
    chat_read (get_chat actor c) db))"

section \<open>Read positions\<close>

definition observed_peer_sequence :: "string \<Rightarrow> message_row list \<Rightarrow> int" where
  "observed_peer_sequence actor messages =
    fold (\<lambda>m mx. if ms_senderUserId m \<noteq> actor \<and> ms_sequence m > mx then ms_sequence m else mx) messages 0"

definition mark_read_tx ::
    "string \<Rightarrow> string \<Rightarrow> string list \<Rightarrow> string \<Rightarrow> int \<Rightarrow> chat_db \<Rightarrow> chat_error + chat_db \<times> unit" where
  "mark_read_tx actor c seen eventId now db =
    rbind (the_row (DirectError NOT_FOUND) (member_row c actor db)) (\<lambda>member.
    let current = (case mb_lastReadMessageSequence member of None \<Rightarrow> 0 | Some s \<Rightarrow> s);
        messages = filter (\<lambda>m. ms_conversationId m = c \<and> ms_id m \<in> set seen) (ch_messages db)
    in if seen \<noteq> [] \<and> length messages \<noteq> length seen then Inl (DirectError VALIDATION_ERROR)
       else let next = (if seen \<noteq> [] \<and> observed_peer_sequence actor messages > current
                then observed_peer_sequence actor messages else current);
              db' = set_member c actor (\<lambda>b. b\<lparr>mb_lastReadAt := Some now,
                mb_lastReadMessageSequence :=
                  (if seen \<noteq> [] \<and> Some next \<noteq> mb_lastReadMessageSequence member then Some next
                   else mb_lastReadMessageSequence b)\<rparr>) db
          in if next > current then rbind (directReadUpdated eventId c now actor db') (\<lambda>db''. Inr (db'', ()))
             else Inr (db', ()))"

definition markRead ::
    "string \<Rightarrow> string \<Rightarrow> string list \<Rightarrow> string \<Rightarrow> int \<Rightarrow> chat_db \<Rightarrow> (chat_error + conversation_view) \<times> chat_db" where
  "markRead actor c seen eventId now db =
    sbind (chat_tx No_Fault (mark_read_tx actor c seen eventId now) db) (\<lambda>_ db.
    chat_read (get_chat actor c) db)"

end
