(* ===== verification/Direct_Messages.thy ===== *)
theory Direct_Messages
  imports Direct_Chats
begin

text \<open>
  The messages of \<open>direct-chat-service.ts\<close>: what a device is shown, the checks of a send, its
  transaction and its replays, and the prekey bundles for a peer. \<open>serializeDirectRoutingMentions\<close>
  compares handle ids by locale, which is a parameter.
\<close>

section \<open>Views\<close>

record envelope_view = wire_envelope +
  wv_recipientDeviceId :: string

record message_view =
  mw_id :: string
  mw_conversationId :: string
  mw_senderUserId :: string
  mw_senderDeviceId :: string
  mw_clientMessageId :: string
  mw_contentCommitmentB64 :: "string option"
  mw_kind :: message_kind
  mw_interactionEpoch :: int
  mw_createdAt :: int
  mw_envelope :: "envelope_view option"
  mw_mentions :: "mention_view list"

definition toEnvelopeView :: "envelope_row \<Rightarrow> envelope_view" where
  "toEnvelopeView e = \<lparr>we_headerB64 = ev_headerB64 e, we_ciphertextB64 = ev_ciphertextB64 e,
    we_dhPublicB64 = ev_dhPublicB64 e, we_messageNumber = ev_messageNumber e,
    we_previousChainLength = ev_previousChainLength e, we_senderSignatureB64 = ev_senderSignatureB64 e,
    we_x3dhInit = ev_x3dhInit e, wv_recipientDeviceId = ev_recipientDeviceId e\<rparr>"

definition toMessageView :: "message_row \<Rightarrow> string \<Rightarrow> mention_view list \<Rightarrow> message_view" where
  "toMessageView m deviceId mentions = \<lparr>mw_id = ms_id m, mw_conversationId = ms_conversationId m,
    mw_senderUserId = ms_senderUserId m, mw_senderDeviceId = ms_senderDeviceId m,
    mw_clientMessageId = ms_clientMessageId m, mw_contentCommitmentB64 = ms_contentCommitmentB64 m,
    mw_kind = ms_kind m, mw_interactionEpoch = ms_interactionEpoch m, mw_createdAt = ms_createdAt m,
    mw_envelope = map_option toEnvelopeView (find (\<lambda>e. ev_recipientDeviceId e = deviceId) (ms_envelopes m)),
    mw_mentions = mentions\<rparr>"

definition isMentionKind :: "string \<Rightarrow> bool" where
  "isMentionKind k \<longleftrightarrow> k \<in> {''USER'', ''SYSTEM_AGENT'', ''AI_AUTO'', ''AI_MODEL''}"

definition readMentions :: "message_row \<Rightarrow> mention_view list" where
  "readMentions m = filter (\<lambda>v. isMentionKind (mv_kind v))
    (js_sort (cmp_on int_cmp (\<lambda>v. int (mv_startOffset v))) (ms_mentions m))"

text \<open>A page of messages; a cursor is the time and id of the last one shown.\<close>

definition after_message :: "int \<times> string \<Rightarrow> message_row \<Rightarrow> bool" where
  "after_message c m \<longleftrightarrow> ms_createdAt m < fst c \<or> (ms_createdAt m = fst c \<and> string_cmp (ms_id m) (snd c) < 0)"

definition message_cursor :: "message_row \<Rightarrow> int \<times> string" where
  "message_cursor m = (ms_createdAt m, ms_id m)"

definition page_messages ::
    "string \<Rightarrow> nat \<Rightarrow> chat_db \<Rightarrow> (int \<times> string) option \<Rightarrow> message_row list \<times> (int \<times> string) option" where
  "page_messages c limit db = key_page messageOrderBy after_message message_cursor limit
    (filter (\<lambda>m. ms_conversationId m = c) (ch_messages db))"

definition listMessages ::
    "string \<Rightarrow> string \<Rightarrow> string \<Rightarrow> nat \<Rightarrow> (int \<times> string) option \<Rightarrow> chat_db \<Rightarrow>
      chat_error + message_view list \<times> (int \<times> string) option" where
  "listMessages actor c deviceId limit cursor db =
    rbind (requireMemberConversation actor c db) (\<lambda>_.
    rbind (requireOwnActiveDevice actor deviceId db) (\<lambda>_.
    Inr (case page_messages c limit db cursor of (rows, next) \<Rightarrow>
      (map (\<lambda>m. toMessageView m deviceId (readMentions m)) rows, next))))"

definition find_message :: "string \<Rightarrow> string \<Rightarrow> string \<Rightarrow> chat_db \<Rightarrow> message_row option" where
  "find_message c sender clientMessageId db = find (\<lambda>m. ms_conversationId m = c \<and>
    ms_senderUserId m = sender \<and> ms_clientMessageId m = clientMessageId) (ch_messages db)"

definition lookupOwnMessage ::
    "string \<Rightarrow> string \<Rightarrow> string \<Rightarrow> string \<Rightarrow> chat_db \<Rightarrow> chat_error + message_view option" where
  "lookupOwnMessage actor c senderDeviceId clientMessageId db =
    rbind (requireMemberConversation actor c db) (\<lambda>_.
    rbind (requireOwnActiveDevice actor senderDeviceId db) (\<lambda>_.
    case find_message c actor clientMessageId db of
      None \<Rightarrow> Inr None
    | Some m \<Rightarrow> if ms_senderDeviceId m \<noteq> senderDeviceId then Inl (DirectError CONFLICT)
        else Inr (Some (toMessageView m senderDeviceId (readMentions m)))))"

section \<open>Sends and their replays\<close>

record wire_dto = wire_envelope +
  wd_recipientDeviceId :: string

record mention_input =
  mi_handleId :: string
  mi_kind :: string
  mi_canonicalHandle :: string
  mi_startOffset :: nat
  mi_endOffset :: nat

record send_message =
  sm_clientMessageId :: string
  sm_contentCommitmentB64 :: "string option"
  sm_senderDeviceId :: string
  sm_interactionEpoch :: int
  sm_kind :: message_kind
  sm_envelopes :: "wire_dto list"
  sm_mentions :: "mention_input list"

definition sameReplayEnvelopes :: "envelope_row list \<Rightarrow> wire_dto list \<Rightarrow> bool" where
  "sameReplayEnvelopes stored incoming \<longleftrightarrow> length stored = length incoming \<and>
    distinct (map wd_recipientDeviceId incoming) \<and>
    list_all (\<lambda>e. case map_of (map (\<lambda>d. (wd_recipientDeviceId d, d)) incoming) (ev_recipientDeviceId e) of
        None \<Rightarrow> False
      | Some d \<Rightarrow> we_headerB64 d = ev_headerB64 e \<and> we_ciphertextB64 d = ev_ciphertextB64 e \<and>
          we_dhPublicB64 d = ev_dhPublicB64 e \<and> we_messageNumber d = ev_messageNumber e \<and>
          we_previousChainLength d = ev_previousChainLength e \<and>
          we_senderSignatureB64 d = ev_senderSignatureB64 e \<and> we_x3dhInit d = ev_x3dhInit e) stored"

definition canonical_mention :: "string \<Rightarrow> string \<Rightarrow> string \<Rightarrow> nat \<Rightarrow> nat \<Rightarrow> string" where
  "canonical_mention handleId kind handle start finish = join_with [char_of (0::nat)]
    [handleId, kind, handle, decimal_of_nat start, decimal_of_nat finish]"

definition stored_canonical :: "mention_view \<Rightarrow> string" where
  "stored_canonical v = canonical_mention (mv_handleId v) (mv_kind v) (mv_canonicalHandle v)
    (mv_startOffset v) (mv_endOffset v)"

definition input_canonical :: "mention_input \<Rightarrow> string" where
  "input_canonical v = canonical_mention (mi_handleId v) (mi_kind v) (mi_canonicalHandle v)
    (mi_startOffset v) (mi_endOffset v)"

definition sameReplayMentions :: "mention_view list \<Rightarrow> mention_input list \<Rightarrow> bool" where
  "sameReplayMentions stored incoming \<longleftrightarrow> length stored = length incoming \<and>
    js_sort string_cmp (map stored_canonical stored) = js_sort string_cmp (map input_canonical incoming)"

definition findExactReplay ::
    "string \<Rightarrow> string \<Rightarrow> send_message \<Rightarrow> chat_db \<Rightarrow> chat_error + message_view option" where
  "findExactReplay userId c input db =
    (case (if member_row c userId db = None then None else find_message c userId (sm_clientMessageId input) db) of
       None \<Rightarrow> Inr None
     | Some m \<Rightarrow>
         if ms_senderDeviceId m \<noteq> sm_senderDeviceId input then Inl (DirectError TAMPERED)
         else if ms_kind m \<noteq> sm_kind input \<or>
             ms_contentCommitmentB64 m \<noteq> sm_contentCommitmentB64 input \<or>
             ms_interactionEpoch m \<noteq> sm_interactionEpoch input \<or>
             \<not> sameReplayEnvelopes (ms_envelopes m) (sm_envelopes input) \<or>
             \<not> sameReplayMentions (readMentions m) (sm_mentions input)
         then Inl (DirectError TAMPERED)
         else Inr (Some (toMessageView m (sm_senderDeviceId input) (readMentions m))))"

definition preflightSend ::
    "string \<Rightarrow> string \<Rightarrow> send_message \<Rightarrow> chat_db \<Rightarrow> chat_error + message_view option" where
  "preflightSend actor c input db =
    rbind (requireMemberConversation actor c db) (\<lambda>_. findExactReplay actor c input db)"

text \<open>The epoch a device signs its next message for.\<close>

definition prepareSend :: "string \<Rightarrow> string \<Rightarrow> string \<Rightarrow> chat_db \<Rightarrow> chat_error + int" where
  "prepareSend actor c senderDeviceId db =
    rbind (requireMemberConversation actor c db) (\<lambda>r.
    rbind (the_row (DirectError FORBIDDEN)
      (find (\<lambda>u. u \<noteq> actor) (map mb_userId (members_of c db)))) (\<lambda>peer.
    rbind (requireOwnActiveDevice actor senderDeviceId db) (\<lambda>_.
    if \<not> (lockTrustUserPair actor peer db \<and> canInteract actor peer db) then Inl (DirectError FORBIDDEN)
    else rbind (the_row (DirectError NOT_FOUND) (row_find cv_id c (ch_conversations db)))
      (\<lambda>r. Inr (cv_interactionEpoch r)))))"

section \<open>Checks of a send\<close>

text \<open>\<open>human-content-identity.ts\<close>: the client id is a version 4 UUID made of the commitment.\<close>

definition hex_byte :: "8 word \<Rightarrow> string" where
  "hex_byte b = [hex_digit (unat b div 16), hex_digit (unat b mod 16)]"

definition humanClientIdFromCommitment :: "string \<Rightarrow> string option" where
  "humanClientIdFromCommitment commitment = (case b64ToBytes commitment of
     None \<Rightarrow> None
   | Some hash \<Rightarrow> if length hash \<noteq> 32 \<or> bytesToB64 hash \<noteq> commitment then None
       else (let b = take 16 hash;
               v = b[6 := ((b ! 6) AND 0x0f) OR 0x40];
               w = v[8 := ((v ! 8) AND 0x3f) OR 0x80];
               h = concat (map hex_byte w)
             in Some (take 8 h @ ''-'' @ take 4 (drop 8 h) @ ''-'' @ take 4 (drop 12 h) @ ''-'' @
               take 4 (drop 16 h) @ ''-'' @ drop 20 h)))"

definition serializeDirectRoutingMentions :: "(string \<Rightarrow> string \<Rightarrow> int) \<Rightarrow> mention_input list \<Rightarrow> string" where
  "serializeDirectRoutingMentions localeCompare mentions = js_stringify (JArr (map (\<lambda>v. JObj
      [(''handleId'', JStr (mi_handleId v)), (''kind'', JStr (mi_kind v)),
       (''canonicalHandle'', JStr (mi_canonicalHandle v)), (''startOffset'', JNum (int (mi_startOffset v))),
       (''endOffset'', JNum (int (mi_endOffset v)))])
    (js_sort (cmp_then (cmp_on int_cmp (\<lambda>v. int (mi_startOffset v)))
      (cmp_then (cmp_on int_cmp (\<lambda>v. int (mi_endOffset v))) (cmp_on localeCompare mi_handleId))) mentions)))"

record chat_options =
  co_maxCiphertextBytes :: nat
  co_maxEnvelopes :: nat

definition DEFAULTS :: chat_options where
  "DEFAULTS = \<lparr>co_maxCiphertextBytes = 65536, co_maxEnvelopes = 32\<rparr>"

definition assertEnvelope ::
    "crypto \<Rightarrow> chat_options \<Rightarrow> wire_dto \<Rightarrow> crypto_device \<Rightarrow> crypto_device list \<Rightarrow> (string \<Rightarrow> envelope_ad) \<Rightarrow>
      chat_error + unit" where
  "assertEnvelope C opts e senderDevice devices ad =
    (if length (we_ciphertextB64 e) > co_maxCiphertextBytes opts then Inl (DirectError VALIDATION_ERROR)
     else if row_find cd_id (wd_recipientDeviceId e) devices = None then Inl (DirectError TAMPERED)
     else case (b64ToBytes (we_headerB64 e), b64ToBytes (we_ciphertextB64 e),
         b64ToBytes (cd_identityEd25519Public senderDevice), b64ToBytes (we_senderSignatureB64 e)) of
       (Some header, Some ciphertext, Some identity, Some signature) \<Rightarrow>
         guard_res (\<not> verifyDirectMessage C identity (signaturePayload header ciphertext
           (buildAssociatedData (ad (wd_recipientDeviceId e))) (we_x3dhInit e)) signature) (DirectError TAMPERED)
     | _ \<Rightarrow> Inl (ChatJsError ''Invalid base64''))"

definition send_ad ::
    "(string \<Rightarrow> string \<Rightarrow> int) \<Rightarrow> string \<Rightarrow> string \<Rightarrow> string \<Rightarrow> send_message \<Rightarrow> string \<Rightarrow> envelope_ad" where
  "send_ad localeCompare actor c senderDeviceId input recipient =
    \<lparr>ea_conversationId = c, ea_senderUserId = actor, ea_senderDeviceId = senderDeviceId,
     ea_clientMessageId = sm_clientMessageId input, ea_contentCommitmentB64 = sm_contentCommitmentB64 input,
     ea_recipientDeviceId = recipient, ea_kind = sm_kind input, ea_interactionEpoch = sm_interactionEpoch input,
     ea_routingContext = (if sm_mentions input = [] then None
       else Some (serializeDirectRoutingMentions localeCompare (sm_mentions input)))\<rparr>"

text \<open>
  The checks before the transaction: the replay they found, or the sending device with the
  members of the conversation.
\<close>

definition send_checks ::
    "crypto \<Rightarrow> chat_options \<Rightarrow> (string \<Rightarrow> string \<Rightarrow> int) \<Rightarrow> string \<Rightarrow> string \<Rightarrow> send_message \<Rightarrow> chat_db \<Rightarrow>
      chat_error + message_view + crypto_device \<times> string list" where
  "send_checks C opts localeCompare actor c input snap =
    rbind (requireMemberConversation actor c snap) (\<lambda>_.
    let memberIds = map mb_userId (members_of c snap) in
    rbind (findExactReplay actor c input snap) (\<lambda>replay.
    case replay of Some v \<Rightarrow> Inr (Inl v) | None \<Rightarrow>
    rbind (requireOwnActiveDevice actor (sm_senderDeviceId input) snap) (\<lambda>device.
    rbind (guard_res (length (sm_envelopes input) > co_maxEnvelopes opts) (DirectError VALIDATION_ERROR)) (\<lambda>_.
    let devices = filter (\<lambda>d. cd_userId d \<in> set memberIds \<and> cd_revokedAt d = None) (ch_devices snap) in
    rbind (guard_res (\<not> list_ex (\<lambda>d. cd_userId d \<noteq> actor) devices) (DirectError RECIPIENT_DEVICE_MISSING)) (\<lambda>_.
    rbind (guard_res (set (map cd_id devices) \<noteq> set (map wd_recipientDeviceId (sm_envelopes input)))
      (DirectError VALIDATION_ERROR)) (\<lambda>_.
    rbind (guard_res (if sm_kind input = HUMAN
        then (case sm_contentCommitmentB64 input of None \<Rightarrow> True
          | Some k \<Rightarrow> k = [] \<or> humanClientIdFromCommitment k \<noteq> Some (sm_clientMessageId input))
        else sm_contentCommitmentB64 input \<noteq> None) (DirectError TAMPERED)) (\<lambda>_.
    rbind (map_res (\<lambda>e. assertEnvelope C opts e device devices
        (send_ad localeCompare actor c (cd_id device) input)) (sm_envelopes input)) (\<lambda>_.
    Inr (Inr (device, memberIds))))))))))"

section \<open>The transaction of a send\<close>

definition envelope_row_of :: "string \<Rightarrow> wire_dto \<Rightarrow> envelope_row" where
  "envelope_row_of senderDeviceId e = \<lparr>ev_recipientDeviceId = wd_recipientDeviceId e,
    ev_senderDeviceId = senderDeviceId, ev_headerB64 = we_headerB64 e, ev_ciphertextB64 = we_ciphertextB64 e,
    ev_dhPublicB64 = we_dhPublicB64 e, ev_messageNumber = we_messageNumber e,
    ev_previousChainLength = we_previousChainLength e, ev_senderSignatureB64 = we_senderSignatureB64 e,
    ev_x3dhInit = we_x3dhInit e\<rparr>"

text \<open>A ratchet key and number of a sending device is used once for a recipient device.\<close>

definition ratchet_use :: "envelope_row \<Rightarrow> string \<times> string \<times> string \<times> nat" where
  "ratchet_use e = (ev_senderDeviceId e, ev_recipientDeviceId e, ev_dhPublicB64 e, ev_messageNumber e)"

definition message_unique :: "message_row \<Rightarrow> message_row list \<Rightarrow> bool" where
  "message_unique m rows \<longleftrightarrow> ms_id m \<notin> ms_id ` set rows \<and>
    (ms_conversationId m, ms_senderUserId m, ms_clientMessageId m) \<notin>
      (\<lambda>r. (ms_conversationId r, ms_senderUserId r, ms_clientMessageId r)) ` set rows \<and>
    (ms_conversationId m, ms_sequence m) \<notin> (\<lambda>r. (ms_conversationId r, ms_sequence r)) ` set rows \<and>
    distinct (map ev_recipientDeviceId (ms_envelopes m)) \<and>
    distinct (map ratchet_use (ms_envelopes m)) \<and>
    (\<forall>e \<in> set (ms_envelopes m). \<forall>r \<in> set rows. ratchet_use e \<notin> ratchet_use ` set (ms_envelopes r))"

text \<open>The trigger gives a message the next number of its conversation.\<close>

definition insert_message :: "message_row \<Rightarrow> chat_db \<Rightarrow> chat_error + chat_db \<times> message_row" where
  "insert_message m db =
    rbind (the_row (ChatDbError ''23503'') (row_find cv_id (ms_conversationId m) (ch_conversations db))) (\<lambda>r.
    let m' = m\<lparr>ms_sequence := cv_lastMessageSequence r + 1\<rparr> in
    if \<not> message_unique m' (ch_messages db) then Inl (ChatDbError ''P2002'')
    else Inr (db\<lparr>ch_messages := ch_messages db @ [m'],
      ch_conversations := row_update cv_id (cv_id r) (\<lambda>r. r\<lparr>
        cv_lastMessageSequence := cv_lastMessageSequence r + 1,
        cv_lastMessageAt := max (cv_lastMessageAt r) (ms_createdAt m)\<rparr>) (ch_conversations db)\<rparr>, m'))"

definition mention_valid :: "mention_view \<Rightarrow> bool" where
  "mention_valid v \<longleftrightarrow> isMentionKind (mv_kind v) \<and> mv_startOffset v < mv_endOffset v"

definition insert_mentions :: "string \<Rightarrow> mention_view list \<Rightarrow> chat_db \<Rightarrow> chat_error + chat_db" where
  "insert_mentions messageId mentions db =
    (if mentions = [] then Inr db
     else if \<not> list_all mention_valid mentions then Inl (ChatDbError ''23514'')
     else if \<not> distinct (map mv_id mentions) \<or>
         \<not> distinct (map (\<lambda>v. (mv_startOffset v, mv_endOffset v)) mentions) \<or>
         (\<exists>m \<in> set (ch_messages db). \<exists>v \<in> set (ms_mentions m). mv_id v \<in> mv_id ` set mentions)
     then Inl (ChatDbError ''P2002'')
     else Inr (db\<lparr>ch_messages := row_update ms_id messageId (\<lambda>m. m\<lparr>ms_mentions := mentions\<rparr>) (ch_messages db)\<rparr>))"

definition new_message :: "string \<Rightarrow> string \<Rightarrow> string \<Rightarrow> send_message \<Rightarrow> string \<Rightarrow> int \<Rightarrow> message_row" where
  "new_message actor c deviceId input i now = \<lparr>ms_id = i, ms_conversationId = c, ms_senderUserId = actor,
    ms_senderDeviceId = deviceId, ms_clientMessageId = sm_clientMessageId input,
    ms_contentCommitmentB64 = sm_contentCommitmentB64 input, ms_kind = sm_kind input,
    ms_interactionEpoch = sm_interactionEpoch input, ms_sequence = 0, ms_createdAt = now,
    ms_envelopes = map (envelope_row_of deviceId) (sm_envelopes input), ms_mentions = []\<rparr>"

definition send_tx ::
    "string \<Rightarrow> string \<Rightarrow> send_message \<Rightarrow> mention_view list \<Rightarrow> crypto_device \<Rightarrow> string list \<Rightarrow> string \<Rightarrow> int \<Rightarrow>
      chat_db \<Rightarrow> chat_error + chat_db \<times> message_view \<times> bool" where
  "send_tx actor c input mentions device memberIds i now db =
    rbind (the_row (DirectError FORBIDDEN) (find (\<lambda>u. u \<noteq> actor) memberIds)) (\<lambda>peer.
    rbind (findExactReplay actor c input db) (\<lambda>replay.
    case replay of Some v \<Rightarrow> Inr (db, v, True) | None \<Rightarrow>
    rbind (guard_res (\<not> (lockTrustUserPair actor peer db \<and> canInteract actor peer db))
      (DirectError FORBIDDEN)) (\<lambda>_.
    rbind (guard_res (map_option cv_interactionEpoch (row_find cv_id c (ch_conversations db)) \<noteq>
      Some (sm_interactionEpoch input)) (DirectError CONFLICT)) (\<lambda>_.
    rbind (insert_message (new_message actor c (cd_id device) input i now) db) (\<lambda>(db, m).
    rbind (insert_mentions (ms_id m) mentions db) (\<lambda>db.
    rbind (directMessageCreated c (ms_id m) (ms_createdAt m) memberIds db) (\<lambda>db.
    Inr (db, toMessageView m (cd_id device) mentions, False))))))))"

text \<open>
  \<open>sendWithStatus\<close>: the checks against \<open>snap\<close>, the transaction, and the replay that a unique
  violation may turn out to be. The connection may be lost before or after the commit (\<open>f\<close>).
\<close>

definition send_commit ::
    "chat_error fault \<Rightarrow> string \<Rightarrow> string \<Rightarrow> send_message \<Rightarrow> mention_view list \<Rightarrow> crypto_device \<Rightarrow> string list \<Rightarrow>
      string \<Rightarrow> int \<Rightarrow> chat_db \<Rightarrow> (chat_error + message_view \<times> bool) \<times> chat_db" where
  "send_commit f actor c input mentions device memberIds i now db =
    (case chat_tx f (send_tx actor c input mentions device memberIds i now) db of
       (Inr v, db) \<Rightarrow> (Inr v, db)
     | (Inl e, db) \<Rightarrow>
         if isUnique e then
           (case findExactReplay actor c input db of
              Inl e \<Rightarrow> (Inl e, db)
            | Inr (Some v) \<Rightarrow> (Inr (v, True), db)
            | Inr None \<Rightarrow> (Inl (DirectError TAMPERED), db))
         else (Inl e, db))"

definition sendWithStatus ::
    "crypto \<Rightarrow> chat_options \<Rightarrow> (string \<Rightarrow> string \<Rightarrow> int) \<Rightarrow> chat_error fault \<Rightarrow> string \<Rightarrow> string \<Rightarrow> send_message \<Rightarrow>
      mention_view list \<Rightarrow> string \<Rightarrow> int \<Rightarrow> chat_db \<Rightarrow> chat_db \<Rightarrow> (chat_error + message_view \<times> bool) \<times> chat_db" where
  "sendWithStatus C opts localeCompare f actor c input mentions i now snap db =
    (case send_checks C opts localeCompare actor c input snap of
       Inl e \<Rightarrow> (Inl e, db)
     | Inr (Inl v) \<Rightarrow> (Inr (v, True), db)
     | Inr (Inr (device, memberIds)) \<Rightarrow> send_commit f actor c input mentions device memberIds i now db)"

section \<open>Prekey bundles\<close>

definition prekeyBundles :: "string \<Rightarrow> string \<Rightarrow> int \<Rightarrow> chat_db \<Rightarrow> chat_error + chat_db \<times> public_bundle list" where
  "prekeyBundles actor target now db =
    (if actor = target then Inr (consumePrekeyBundlesForUser target now db)
     else rbind (directPairKey actor target) (\<lambda>pairKey.
       if lockTrustUserPair actor target db \<and>
           find (\<lambda>r. cv_pairKey r = pairKey) (ch_conversations db) \<noteq> None \<and> canInteract actor target db
       then Inr (consumePrekeyBundlesForUser target now db)
       else Inl (DirectError NOT_FOUND)))"

definition participants :: "string \<Rightarrow> string \<Rightarrow> chat_db \<Rightarrow> chat_error + (string \<times> string \<times> string) list" where
  "participants actor c db =
    rbind (requireMemberConversation actor c db) (\<lambda>_.
    let ids = map mb_userId (members_of c db) in
    map_res (\<lambda>u. rbind (requireParticipant (readParticipantProfiles ids db) u)
      (\<lambda>p. Inr (pt_userId p, pt_handle p, pt_name p))) ids)"

end
