(* ===== verification/Direct_Context.thy ===== *)
theory Direct_Context
  imports Direct_Messages
begin

text \<open>
  What an operator may be shown of a direct chat: \<open>consent.ts\<close> and
  \<open>validateOperatorContextDisclosure\<close> of \<open>direct-chat-service.ts\<close>. The texts of messages come from
  the device that asks, since the server cannot read them; their provenance is checked against
  the stored rows.
\<close>

record direct_consent =
  cs_actorShareOwnHistoryWithVimla :: bool
  cs_actorIncludePeerHistoryWhenInvoking :: bool
  cs_peerShareOwnHistoryWithVimla :: bool

record chat_consent = direct_consent +
  cs_interactionEpoch :: int
  cs_memberIds :: "string list"

record context_claim =
  cc_messageId :: string
  cc_senderUserId :: string
  cc_sentAt :: int
  cc_text :: string

record context_bundle =
  cb_messages :: "context_claim list"
  cb_ownIncluded :: bool
  cb_peerIncluded :: bool
  cb_peerDenied :: bool

section \<open>consent.ts\<close>

definition bundle_step :: "string \<Rightarrow> string list \<Rightarrow> 'a direct_consent_scheme \<Rightarrow> context_claim \<Rightarrow> context_bundle \<Rightarrow> context_bundle" where
  "bundle_step actor memberIds k m b =
    (if cc_senderUserId m \<notin> set memberIds then b
     else if cc_senderUserId m = actor then
       (if \<not> cs_actorShareOwnHistoryWithVimla k then b
        else b\<lparr>cb_ownIncluded := True, cb_messages := cb_messages b @ [m]\<rparr>)
     else if \<not> cs_actorIncludePeerHistoryWhenInvoking k \<or> \<not> cs_peerShareOwnHistoryWithVimla k
     then b\<lparr>cb_peerDenied := True\<rparr>
     else b\<lparr>cb_peerIncluded := True, cb_messages := cb_messages b @ [m]\<rparr>)"

definition filterOperatorContextBundle ::
    "string \<Rightarrow> string list \<Rightarrow> 'a direct_consent_scheme \<Rightarrow> context_claim list \<Rightarrow> context_bundle" where
  "filterOperatorContextBundle actor memberIds k messages =
    fold (bundle_step actor memberIds k) messages
      \<lparr>cb_messages = [], cb_ownIncluded = False, cb_peerIncluded = False, cb_peerDenied = False\<rparr>"

section \<open>Disclosure\<close>

definition consent :: "string \<Rightarrow> string \<Rightarrow> chat_db \<Rightarrow> chat_error + chat_consent" where
  "consent actor c db =
    rbind (requireMemberConversation actor c db) (\<lambda>r.
    rbind (the_row (DirectError NOT_FOUND) (find (\<lambda>b. mb_userId b = actor) (members_of c db))) (\<lambda>mine.
    rbind (the_row (DirectError NOT_FOUND) (find (\<lambda>b. mb_userId b \<noteq> actor) (members_of c db))) (\<lambda>peer.
    Inr \<lparr>cs_actorShareOwnHistoryWithVimla = mb_shareOwnHistoryWithVimla mine,
      cs_actorIncludePeerHistoryWhenInvoking = mb_includePeerHistoryWhenInvoking mine,
      cs_peerShareOwnHistoryWithVimla = mb_shareOwnHistoryWithVimla peer,
      cs_interactionEpoch = cv_interactionEpoch r, cs_memberIds = map mb_userId (members_of c db)\<rparr>)))"

definition validate_claim :: "string \<Rightarrow> message_row \<Rightarrow> chat_db \<Rightarrow> context_claim \<Rightarrow> chat_error + context_claim" where
  "validate_claim c source db m =
    (case find (\<lambda>r. ms_id r = cc_messageId m \<and> ms_conversationId r = c) (ch_messages db) of
       None \<Rightarrow> Inl (DirectError VALIDATION_ERROR)
     | Some r \<Rightarrow>
         if ms_kind r \<noteq> HUMAN \<or> ms_senderUserId r \<noteq> cc_senderUserId m \<or> ms_createdAt r \<noteq> cc_sentAt m \<or>
            ms_createdAt r \<ge> ms_createdAt source
         then Inl (DirectError VALIDATION_ERROR)
         else Inr (m\<lparr>cc_senderUserId := ms_senderUserId r, cc_sentAt := ms_createdAt r\<rparr>))"

record disclosure =
  ds_sourceMessageId :: string
  ds_sourceMessageCreatedAt :: int
  ds_sourceInteractionEpoch :: int
  ds_memberIds :: "string list"
  ds_bundle :: context_bundle

definition validateOperatorContextDisclosure ::
    "(string \<Rightarrow> string \<Rightarrow> int) \<Rightarrow> string \<Rightarrow> string \<Rightarrow> string \<Rightarrow> context_claim list \<Rightarrow> chat_db \<Rightarrow>
      chat_error + disclosure" where
  "validateOperatorContextDisclosure localeCompare actor c sourceMessageId messages db =
    rbind (consent actor c db) (\<lambda>k.
    rbind (the_row (DirectError VALIDATION_ERROR) (find (\<lambda>m. ms_id m = sourceMessageId \<and>
      ms_conversationId m = c \<and> ms_senderUserId m = actor \<and> ms_kind m = OPERATOR_INVOKE) (ch_messages db))) (\<lambda>source.
    if ms_interactionEpoch source \<noteq> cs_interactionEpoch k then Inl (DirectError CONFLICT)
    else if \<not> distinct (map cc_messageId messages) then Inl (DirectError VALIDATION_ERROR)
    else rbind (map_res (validate_claim c source db) messages) (\<lambda>validated.
      let sorted = js_sort (cmp_then (cmp_on int_cmp cc_sentAt) (cmp_on localeCompare cc_messageId)) validated
      in Inr \<lparr>ds_sourceMessageId = ms_id source, ds_sourceMessageCreatedAt = ms_createdAt source,
        ds_sourceInteractionEpoch = ms_interactionEpoch source, ds_memberIds = cs_memberIds k,
        ds_bundle = filterOperatorContextBundle actor (cs_memberIds k) k sorted\<rparr>)))"

section \<open>What is disclosed\<close>

definition disclosable :: "string \<Rightarrow> string list \<Rightarrow> 'a direct_consent_scheme \<Rightarrow> context_claim \<Rightarrow> bool" where
  "disclosable actor memberIds k m \<longleftrightarrow> cc_senderUserId m \<in> set memberIds \<and>
    (if cc_senderUserId m = actor then cs_actorShareOwnHistoryWithVimla k
     else cs_actorIncludePeerHistoryWhenInvoking k \<and> cs_peerShareOwnHistoryWithVimla k)"

lemma bundle_messages:
  "cb_messages (fold (bundle_step actor memberIds k) ms b) =
    cb_messages b @ filter (disclosable actor memberIds k) ms"
  by (induction ms arbitrary: b) (auto simp: bundle_step_def disclosable_def)

lemma bundle_flags:
  "cb_ownIncluded (fold (bundle_step actor memberIds k) ms b) \<longleftrightarrow> cb_ownIncluded b \<or>
    (\<exists>m \<in> set ms. disclosable actor memberIds k m \<and> cc_senderUserId m = actor)"
  "cb_peerIncluded (fold (bundle_step actor memberIds k) ms b) \<longleftrightarrow> cb_peerIncluded b \<or>
    (\<exists>m \<in> set ms. disclosable actor memberIds k m \<and> cc_senderUserId m \<noteq> actor)"
  by (induction ms arbitrary: b) (auto simp: bundle_step_def disclosable_def)


section \<open>A sample\<close>

text \<open>The user shares the own history, the peer does not: of the two messages claimed one is shown.\<close>

definition sample_human :: "string \<Rightarrow> string \<Rightarrow> message_kind \<Rightarrow> int \<Rightarrow> message_row" where
  "sample_human i u k n = \<lparr>ms_id = i, ms_conversationId = ''c'', ms_senderUserId = u, ms_senderDeviceId = ''d'',
    ms_clientMessageId = i, ms_contentCommitmentB64 = None, ms_kind = k, ms_interactionEpoch = 0, ms_sequence = n,
    ms_createdAt = n, ms_envelopes = [], ms_mentions = []\<rparr>"

definition sample_context :: chat_db where
  "sample_context = \<lparr>ch_users = [''a'', ''b''], ch_handles = [], ch_profiles = [], ch_blocks = [], ch_devices = [],
    ch_otks = [], ch_conversations = [\<lparr>cv_id = ''c'', cv_pairKey = ''a:b'', cv_surface = None, cv_createdAt = 0,
      cv_lastMessageAt = 3, cv_lastMessageSequence = 3, cv_interactionEpoch = 0\<rparr>],
    ch_members = [\<lparr>mb_conversationId = ''c'', mb_userId = ''a'', mb_lastReadAt = None, mb_lastReadMessageSequence = None,
        mb_shareOwnHistoryWithVimla = True, mb_includePeerHistoryWhenInvoking = True\<rparr>,
      \<lparr>mb_conversationId = ''c'', mb_userId = ''b'', mb_lastReadAt = None, mb_lastReadMessageSequence = None,
        mb_shareOwnHistoryWithVimla = False, mb_includePeerHistoryWhenInvoking = True\<rparr>],
    ch_messages = [sample_human ''m1'' ''a'' HUMAN 1, sample_human ''m2'' ''b'' HUMAN 2,
      sample_human ''op'' ''a'' OPERATOR_INVOKE 3], ch_sync = [], ch_events = []\<rparr>"

definition sample_claims :: "context_claim list" where
  "sample_claims = [\<lparr>cc_messageId = ''m2'', cc_senderUserId = ''b'', cc_sentAt = 2, cc_text = ''yes''\<rparr>,
    \<lparr>cc_messageId = ''m1'', cc_senderUserId = ''a'', cc_sentAt = 1, cc_text = ''lunch?''\<rparr>]"

lemma sample_disclosed:
  "\<exists>d. validateOperatorContextDisclosure string_cmp ''a'' ''c'' ''op'' sample_claims sample_context = Inr d \<and>
    map cc_messageId (cb_messages (ds_bundle d)) = [''m1'']"
proof -
  let ?k = "\<lparr>cs_actorShareOwnHistoryWithVimla = True, cs_actorIncludePeerHistoryWhenInvoking = True,
    cs_peerShareOwnHistoryWithVimla = False, cs_interactionEpoch = 0, cs_memberIds = [''a'', ''b'']\<rparr>"
  let ?op = "sample_human ''op'' ''a'' OPERATOR_INVOKE 3"
  let ?cmp = "cmp_then (cmp_on int_cmp cc_sentAt) (cmp_on string_cmp cc_messageId)"
  have k: "consent ''a'' ''c'' sample_context = Inr ?k"
    by (simp add: consent_def requireMemberConversation_def member_row_def members_of_def sample_context_def)
  have op: "find (\<lambda>m. ms_id m = ''op'' \<and> ms_conversationId m = ''c'' \<and> ms_senderUserId m = ''a'' \<and>
      ms_kind m = OPERATOR_INVOKE) (ch_messages sample_context) = Some ?op"
    by (simp add: sample_context_def sample_human_def)
  have v: "map_res (validate_claim ''c'' ?op sample_context) sample_claims = Inr sample_claims"
    by (simp add: sample_context_def sample_human_def sample_claims_def validate_claim_def)
  have s: "map cc_messageId (filter (disclosable ''a'' [''a'', ''b''] ?k) (js_sort ?cmp sample_claims)) = [''m1'']"
    by (simp add: sample_claims_def cmp_then_def cmp_on_def int_cmp_def disclosable_def)
  have "ms_interactionEpoch ?op = 0" "distinct (map cc_messageId sample_claims)"
    by (simp_all add: sample_human_def sample_claims_def)
  with s show ?thesis
    by (simp add: validateOperatorContextDisclosure_def k op v Let_def filterOperatorContextBundle_def bundle_messages)
qed


end
