(* ===== verification/Trust.thy ===== *)
theory Trust
  imports Chat_Db
begin

text \<open>
  \<open>packages/trust/src/service.ts\<close> and the handle rules of \<open>packages/contracts/src/handles.ts\<close>:
  blocking and unblocking a user, the list of blocked users, abuse reports with their replays,
  and the muting of communication surfaces. A block or unblock moves the interaction epoch of
  the pair's direct chat. The digest of a report and the policy of surfaces are parameters.
\<close>

section \<open>Handles\<close>

definition handle_lower :: "char \<Rightarrow> char" where
  "handle_lower c = (let n = (of_char c :: nat) in if 65 \<le> n \<and> n \<le> 90 then char_of (n + 32) else c)"

text \<open>
  A character is a byte here; a letter beyond ASCII stays one in lower case, so a handle with one is
  refused either way.
\<close>

definition normalizeHandleInput :: "string \<Rightarrow> string" where
  "normalizeHandleInput v = map handle_lower (if v \<noteq> [] \<and> hd v = CHR ''@'' then tl v else v)"

definition handle_plain :: "char \<Rightarrow> bool" where
  "handle_plain c \<longleftrightarrow> (let n = (of_char c :: nat) in (97 \<le> n \<and> n \<le> 122) \<or> (48 \<le> n \<and> n \<le> 57))"

definition handle_separator :: "char \<Rightarrow> bool" where
  "handle_separator c \<longleftrightarrow> c = CHR ''.'' \<or> c = CHR ''_''"

fun separated :: "string \<Rightarrow> bool" where
  "separated (a # b # cs) \<longleftrightarrow> \<not> (handle_separator a \<and> handle_separator b) \<and> separated (b # cs)"
| "separated _ \<longleftrightarrow> True"

definition handleSchema :: "string \<Rightarrow> bool" where
  "handleSchema v \<longleftrightarrow> 3 \<le> length v \<and> length v \<le> 32 \<and>
    list_all (\<lambda>c. handle_plain c \<or> handle_separator c) v \<and>
    handle_plain (hd v) \<and> handle_plain (last v) \<and> separated v"

definition handleInputSchema :: "string \<Rightarrow> chat_error + string" where
  "handleInputSchema v =
    (if v = [] \<or> length v > 33 then Inl ChatZodError
     else let h = normalizeHandleInput v in if handleSchema h then Inr h else Inl ChatZodError)"

section \<open>Blocks\<close>

definition resolveUser :: "string \<Rightarrow> chat_db \<Rightarrow> chat_error + (string \<times> string) option" where
  "resolveUser input db = rbind (handleInputSchema input) (\<lambda>normalized.
    Inr (case find (\<lambda>h. hd_normalized h = normalized \<and> hd_kind h = ''USER'' \<and> hd_status h = ''ACTIVE'' \<and>
          hd_userId h \<noteq> None) (ch_handles db) of
       None \<Rightarrow> None
     | Some h \<Rightarrow> map_option (\<lambda>u. (u, hd_handle h)) (hd_userId h)))"

definition resolveBlockedUser :: "string \<Rightarrow> string \<Rightarrow> chat_db \<Rightarrow> chat_error + (string \<times> string) option" where
  "resolveBlockedUser actor input db = rbind (handleInputSchema input) (\<lambda>normalized.
    Inr (case find (\<lambda>h. hd_normalized h = normalized \<and> hd_kind h = ''USER'' \<and> hd_status h = ''ACTIVE'' \<and>
          (case hd_userId h of None \<Rightarrow> False | Some u \<Rightarrow> list_ex (blocks actor u) (ch_blocks db))) (ch_handles db) of
       None \<Rightarrow> None
     | Some h \<Rightarrow> map_option (\<lambda>u. (u, hd_handle h)) (hd_userId h)))"

definition bumpDirectInteractionEpoch :: "string \<Rightarrow> string \<Rightarrow> chat_db \<Rightarrow> chat_db" where
  "bumpDirectInteractionEpoch l r db = db\<lparr>ch_conversations := map (\<lambda>c.
      if cv_pairKey c = join_with '':'' (js_sort string_cmp [l, r])
      then c\<lparr>cv_interactionEpoch := cv_interactionEpoch c + 1\<rparr> else c) (ch_conversations db)\<rparr>"

text \<open>An epoch may not pass the bound that the database checks.\<close>

definition EPOCH_MAX :: int where "EPOCH_MAX = 2000000000"

definition check_epochs :: "chat_db \<Rightarrow> chat_error + chat_db" where
  "check_epochs db = (if list_all (\<lambda>c. cv_interactionEpoch c \<le> EPOCH_MAX) (ch_conversations db)
    then Inr db else Inl (ChatDbError ''23514''))"

definition blockUser ::
    "string \<Rightarrow> string \<Rightarrow> string \<Rightarrow> int \<Rightarrow> chat_db \<Rightarrow> chat_error + chat_db \<times> (string \<times> bool)" where
  "blockUser actor input blockId now db =
    rbind (resolveUser input db) (\<lambda>found.
    case found of
      None \<Rightarrow> Inl (TrustErr trust_error_code.NOT_FOUND)
    | Some (target, handle) \<Rightarrow>
        if target = actor then Inl (TrustErr trust_error_code.VALIDATION_ERROR)
        else if \<not> lockTrustUserPair actor target db then Inl (TrustErr trust_error_code.NOT_FOUND)
        else if list_ex (blocks actor target) (ch_blocks db) then Inr (db, (handle, True))
        else if blockId \<in> ub_id ` set (ch_blocks db) then Inl (ChatDbError ''P2002'')
        else rbind (check_epochs (bumpDirectInteractionEpoch actor target (db\<lparr>ch_blocks := ch_blocks db @
            [\<lparr>ub_id = blockId, ub_blockerUserId = actor, ub_blockedUserId = target, ub_createdAt = now\<rparr>]\<rparr>)))
          (\<lambda>db'. Inr (db', (handle, True))))"

definition unblockUser ::
    "string \<Rightarrow> string \<Rightarrow> chat_db \<Rightarrow> chat_error + chat_db \<times> (string \<times> bool)" where
  "unblockUser actor input db =
    rbind (resolveBlockedUser actor input db) (\<lambda>found.
    case found of
      None \<Rightarrow> Inl (TrustErr trust_error_code.NOT_FOUND)
    | Some (target, handle) \<Rightarrow>
        if \<not> lockTrustUserPair actor target db then Inl (TrustErr trust_error_code.NOT_FOUND)
        else if length (filter (blocks actor target) (ch_blocks db)) \<noteq> 1
        then Inl (TrustErr trust_error_code.NOT_FOUND)
        else rbind (check_epochs (bumpDirectInteractionEpoch actor target (db\<lparr>ch_blocks :=
            filter (\<lambda>b. \<not> blocks actor target b) (ch_blocks db)\<rparr>)))
          (\<lambda>db'. Inr (db', (handle, False))))"

text \<open>The page of blocked users; a cursor is the time and id of the last block shown.\<close>

record blocked_user =
  bu_userId :: string
  bu_handle :: string
  bu_displayName :: string
  bu_avatarUrl :: "string option"
  bu_createdAt :: int

definition blockedOrderBy :: "block_row \<Rightarrow> block_row \<Rightarrow> int" where
  "blockedOrderBy = cmp_then (cmp_rev (cmp_on int_cmp ub_createdAt)) (cmp_rev (cmp_on string_cmp ub_id))"

definition after_blocked :: "int \<times> string \<Rightarrow> block_row \<Rightarrow> bool" where
  "after_blocked c b \<longleftrightarrow> ub_createdAt b < fst c \<or> (ub_createdAt b = fst c \<and> string_cmp (ub_id b) (snd c) < 0)"

definition blocked_cursor :: "block_row \<Rightarrow> int \<times> string" where
  "blocked_cursor b = (ub_createdAt b, ub_id b)"

definition blocked_profile :: "chat_db \<Rightarrow> block_row \<Rightarrow> blocked_user option" where
  "blocked_profile db b =
    (case readParticipantProfiles [ub_blockedUserId b] db (ub_blockedUserId b) of
       None \<Rightarrow> None
     | Some p \<Rightarrow> Some \<lparr>bu_userId = pt_userId p, bu_handle = pt_handle p, bu_displayName = pt_name p,
         bu_avatarUrl = pt_avatarUrl p, bu_createdAt = ub_createdAt b\<rparr>)"

definition page_blocked ::
    "string \<Rightarrow> nat \<Rightarrow> chat_db \<Rightarrow> (int \<times> string) option \<Rightarrow> block_row list \<times> (int \<times> string) option" where
  "page_blocked actor limit db =
    key_page blockedOrderBy after_blocked blocked_cursor limit
      (filter (\<lambda>b. ub_blockerUserId b = actor \<and> blocked_profile db b \<noteq> None) (ch_blocks db))"

definition listBlockedUsers ::
    "string \<Rightarrow> nat \<Rightarrow> (int \<times> string) option \<Rightarrow> chat_db \<Rightarrow> blocked_user list \<times> (int \<times> string) option" where
  "listBlockedUsers actor limit cursor db =
    (case page_blocked actor limit db cursor of (rows, c) \<Rightarrow> (map (\<lambda>b. the (blocked_profile db b)) rows, c))"

section \<open>Abuse reports\<close>

record report_evidence =
  re_conversationId :: string
  re_messageId :: string
  re_disclosedText :: string

record create_report =
  cr_requestId :: string
  cr_targetHandle :: string
  cr_reason :: string
  cr_details :: "string option"
  cr_evidence :: "report_evidence option"

record stored_evidence =
  se_conversationId :: string
  se_messageId :: string
  se_senderUserId :: string
  se_senderDeviceId :: string
  se_messageKind :: message_kind
  se_messageCreatedAt :: int
  se_text :: string

record report_row =
  rp_id :: string
  rp_requestId :: string
  rp_requestFingerprint :: string
  rp_reporterUserId :: string
  rp_targetUserId :: string
  rp_reason :: string
  rp_details :: "string option"
  rp_status :: string
  rp_evidence :: "stored_evidence option"
  rp_createdAt :: int

definition abuseReportRequestFingerprint :: "(bytes \<Rightarrow> string) \<Rightarrow> create_report \<Rightarrow> string" where
  "abuseReportRequestFingerprint sha256 input = sha256 (utf8 (js_stringify (JObj
    [(''targetHandle'', JStr (cr_targetHandle input)), (''reason'', JStr (cr_reason input)),
     (''details'', string_or_null (cr_details input)),
     (''evidence'', case cr_evidence input of None \<Rightarrow> JNull | Some e \<Rightarrow> JObj
       [(''kind'', JStr ''DIRECT_MESSAGE''), (''conversationId'', JStr (re_conversationId e)),
        (''messageId'', JStr (re_messageId e)), (''disclosedText'', JStr (re_disclosedText e))])])))"

record report_receipt =
  rr_id :: string
  rr_status :: string
  rr_createdAt :: int

definition reportReceipt :: "report_row \<Rightarrow> report_receipt" where
  "reportReceipt r = \<lparr>rr_id = rp_id r, rr_status = rp_status r, rr_createdAt = rp_createdAt r\<rparr>"

definition stored_report :: "string \<Rightarrow> string \<Rightarrow> report_row list \<Rightarrow> report_row option" where
  "stored_report actor requestId reports =
    find (\<lambda>r. rp_reporterUserId r = actor \<and> rp_requestId r = requestId) reports"

definition resolveReportReplay :: "report_row \<Rightarrow> string \<Rightarrow> chat_error + report_receipt" where
  "resolveReportReplay r fingerprint = (if rp_requestFingerprint r \<noteq> fingerprint
    then Inl (TrustErr trust_error_code.CONFLICT) else Inr (reportReceipt r))"

definition report_evidence_of ::
    "string \<Rightarrow> string \<Rightarrow> report_evidence \<Rightarrow> chat_db \<Rightarrow> chat_error + stored_evidence" where
  "report_evidence_of actor target e db =
    rbind (the_row (TrustErr EVIDENCE_INVALID) (find (\<lambda>m. ms_id m = re_messageId e \<and>
        ms_conversationId m = re_conversationId e \<and> ms_senderUserId m = target \<and>
        ms_kind m \<in> {HUMAN, OPERATOR_INVOKE} \<and>
        list_ex (\<lambda>b. mb_conversationId b = ms_conversationId m \<and> mb_userId b = actor) (ch_members db))
        (ch_messages db))) (\<lambda>m.
    Inr \<lparr>se_conversationId = ms_conversationId m, se_messageId = ms_id m, se_senderUserId = ms_senderUserId m,
      se_senderDeviceId = ms_senderDeviceId m, se_messageKind = ms_kind m, se_messageCreatedAt = ms_createdAt m,
      se_text = re_disclosedText e\<rparr>)"

text \<open>
  The reports are read at first (\<open>seen\<close>) and written later (\<open>reports\<close>), when another request
  with the same id may have been recorded.
\<close>

definition createReport ::
    "(bytes \<Rightarrow> string) \<Rightarrow> string \<Rightarrow> create_report \<Rightarrow> string \<Rightarrow> int \<Rightarrow> chat_db \<Rightarrow> report_row list \<Rightarrow> report_row list \<Rightarrow>
      (chat_error + report_receipt) \<times> report_row list" where
  "createReport sha256 actor input reportId now db seen reports =
    (let fingerprint = abuseReportRequestFingerprint sha256 input in
     case stored_report actor (cr_requestId input) seen of
       Some r \<Rightarrow> (resolveReportReplay r fingerprint, reports)
     | None \<Rightarrow>
         (case rbind (resolveUser (cr_targetHandle input) db) (\<lambda>found.
             rbind (the_row (TrustErr trust_error_code.NOT_FOUND) found) (\<lambda>(target, _).
             rbind (guard_res (target = actor) (TrustErr trust_error_code.VALIDATION_ERROR)) (\<lambda>_.
             rbind (case cr_evidence input of None \<Rightarrow> Inr None
                 | Some e \<Rightarrow> rbind (report_evidence_of actor target e db) (\<lambda>x. Inr (Some x))) (\<lambda>evidence.
             Inr \<lparr>rp_id = reportId, rp_requestId = cr_requestId input, rp_requestFingerprint = fingerprint,
               rp_reporterUserId = actor, rp_targetUserId = target, rp_reason = cr_reason input,
               rp_details = cr_details input, rp_status = ''SUBMITTED'', rp_evidence = evidence,
               rp_createdAt = now\<rparr>)))) of
            Inl e \<Rightarrow> (Inl e, reports)
          | Inr row \<Rightarrow>
              if reportId \<in> rp_id ` set reports \<or> stored_report actor (cr_requestId input) reports \<noteq> None
              then (case stored_report actor (cr_requestId input) reports of
                      None \<Rightarrow> (Inl (ChatDbError ''P2002''), reports)
                    | Some r \<Rightarrow> (resolveReportReplay r fingerprint, reports))
              else (Inr (reportReceipt row), reports @ [row])))"

definition findExactReportReplay ::
    "(bytes \<Rightarrow> string) \<Rightarrow> string \<Rightarrow> create_report \<Rightarrow> report_row list \<Rightarrow> report_receipt option" where
  "findExactReportReplay sha256 actor input reports =
    (case stored_report actor (cr_requestId input) reports of
       None \<Rightarrow> None
     | Some r \<Rightarrow> if rp_requestFingerprint r \<noteq> abuseReportRequestFingerprint sha256 input then None
         else Some (reportReceipt r))"

section \<open>Muted surfaces\<close>

record surface_preference =
  su_surfaceId :: string
  su_userId :: string
  su_muted :: bool
  su_updatedAt :: int

definition assertSurfaceAccess :: "(string \<Rightarrow> string \<Rightarrow> bool) option \<Rightarrow> string \<Rightarrow> string \<Rightarrow> chat_error + unit" where
  "assertSurfaceAccess surfaceAccess actor i = (case surfaceAccess of
     None \<Rightarrow> Inl (TrustErr trust_error_code.NOT_FOUND)
   | Some canRead \<Rightarrow> guard_res (\<not> canRead actor i) (TrustErr trust_error_code.NOT_FOUND))"

definition preference_of :: "string \<Rightarrow> string \<Rightarrow> surface_preference list \<Rightarrow> surface_preference option" where
  "preference_of actor i prefs = find (\<lambda>p. su_surfaceId p = i \<and> su_userId p = actor) prefs"

definition getSurfacePreference ::
    "(string \<Rightarrow> string \<Rightarrow> bool) option \<Rightarrow> string \<Rightarrow> string \<Rightarrow> surface_preference list \<Rightarrow>
      chat_error + bool \<times> int option" where
  "getSurfacePreference surfaceAccess actor i prefs =
    rbind (assertSurfaceAccess surfaceAccess actor i) (\<lambda>_.
    Inr (case preference_of actor i prefs of None \<Rightarrow> (False, None)
       | Some p \<Rightarrow> (su_muted p, Some (su_updatedAt p))))"

definition updateSurfacePreference ::
    "(string \<Rightarrow> string \<Rightarrow> bool) option \<Rightarrow> string \<Rightarrow> string \<Rightarrow> bool \<Rightarrow> int \<Rightarrow> surface_preference list \<Rightarrow>
      chat_error + surface_preference list \<times> (bool \<times> int)" where
  "updateSurfacePreference surfaceAccess actor i muted now prefs =
    rbind (assertSurfaceAccess surfaceAccess actor i) (\<lambda>_.
    let p = \<lparr>su_surfaceId = i, su_userId = actor, su_muted = muted, su_updatedAt = now\<rparr>
    in Inr (if preference_of actor i prefs = None then prefs @ [p]
        else row_update (\<lambda>p. (su_surfaceId p, su_userId p)) (i, actor) (\<lambda>_. p) prefs, (muted, now)))"

section \<open>Lemmas\<close>

interpretation blocked: keyset blockedOrderBy after_blocked blocked_cursor
proof (intro keyset.intro keyset_axioms.intro)
  show "comparator blockedOrderBy" unfolding blockedOrderBy_def by (intro cmp_intros)
  fix x y
  show "after_blocked (blocked_cursor x) y \<longleftrightarrow> blockedOrderBy x y < 0"
    by (auto simp: blockedOrderBy_def cmp_then_def cmp_on_def cmp_rev_def int_cmp_def after_blocked_def
        blocked_cursor_def)
qed

lemma blocked_paging_complete:
  assumes "distinct (map ub_id (ch_blocks db))" and "0 < limit" and "length (ch_blocks db) < n"
  shows "listed limit (follow n (page_blocked actor limit db) None) (js_sort blockedOrderBy
    (filter (\<lambda>b. ub_blockerUserId b = actor \<and> blocked_profile db b \<noteq> None) (ch_blocks db)))"
proof -
  let ?P = "\<lambda>b. ub_blockerUserId b = actor \<and> blocked_profile db b \<noteq> None"
  have "separates blockedOrderBy (ch_blocks db)"
    using assms(1) by (rule separates_by_key)
      (auto simp: blockedOrderBy_def cmp_then_def cmp_on_def cmp_rev_def split: if_splits)
  moreover have "length (filter ?P (ch_blocks db)) < n" using assms(3) by (meson le_less_trans length_filter_le)
  ultimately show ?thesis
    using blocked.follow_all[OF separates_filter[of _ _ ?P] assms(2)] unfolding page_blocked_def by blast
qed

text \<open>A handle that is accepted is normal: entering it again, with or without the sign, gives it back.\<close>

lemma handle_lower_plain: "handle_plain c \<or> handle_separator c \<Longrightarrow> handle_lower c = c"
  by (auto simp: handle_lower_def handle_plain_def handle_separator_def Let_def)

lemma handle_input_idem:
  assumes "handleInputSchema v = Inr h"
  shows "handleInputSchema h = Inr h" and "handleInputSchema (CHR ''@'' # h) = Inr h"
proof -
  from assms have h: "handleSchema h" by (auto simp: handleInputSchema_def Let_def split: if_splits)
  have lower: "map handle_lower h = h"
    using h by (auto simp: handleSchema_def list_all_iff intro!: map_idI handle_lower_plain)
  obtain c cs where hc: "h = c # cs" using h by (cases h) (auto simp: handleSchema_def)
  have "c \<noteq> CHR ''@''" using h hc by (auto simp: handleSchema_def handle_plain_def Let_def)
  then have "normalizeHandleInput h = h"
    using lower hc by (simp add: normalizeHandleInput_def)
  moreover have "normalizeHandleInput (CHR ''@'' # h) = h" using lower by (simp add: normalizeHandleInput_def)
  ultimately show "handleInputSchema h = Inr h" "handleInputSchema (CHR ''@'' # h) = Inr h"
    using h by (auto simp: handleInputSchema_def handleSchema_def)
qed

end
