(* ===== verification/Direct_Moves.thy ===== *)
theory Direct_Moves
  imports Direct_Messages Trust
begin

text \<open>
  What can happen to the tables of direct chats at all, as a step relation: a chat is opened, a
  member's settings or read position change, a block comes or goes, keys are published or
  consumed, a message is accepted. The invariants of the tables are shown for these steps, and
  \<open>Direct_Requests\<close> shows that every request is a sequence of them.
\<close>

section \<open>Steps\<close>

definition pair_key :: "string \<Rightarrow> string \<Rightarrow> string" where
  "pair_key a b = join_with '':'' (js_sort string_cmp [a, b])"

definition new_member :: "string \<Rightarrow> string \<Rightarrow> chat_member" where
  "new_member c u = \<lparr>mb_conversationId = c, mb_userId = u, mb_lastReadAt = None,
    mb_lastReadMessageSequence = None, mb_shareOwnHistoryWithVimla = False,
    mb_includePeerHistoryWhenInvoking = False\<rparr>"

definition same_member :: "chat_member \<Rightarrow> chat_member \<Rightarrow> bool" where
  "same_member a b \<longleftrightarrow> mb_conversationId b = mb_conversationId a \<and> mb_userId b = mb_userId a"

definition same_device :: "crypto_device \<Rightarrow> crypto_device \<Rightarrow> bool" where
  "same_device a b \<longleftrightarrow> cd_id b = cd_id a \<and> cd_userId b = cd_userId a \<and>
    cd_identityEd25519Public b = cd_identityEd25519Public a \<and>
    cd_identityX25519Public b = cd_identityX25519Public a \<and> (cd_revokedAt a \<noteq> None \<longrightarrow> cd_revokedAt b = cd_revokedAt a)"

text \<open>A message as the transaction leaves it, with the event that announces it.\<close>

definition sent_to :: "string \<Rightarrow> chat_db \<Rightarrow> string list" where
  "sent_to c db = js_sort string_cmp (map mb_userId (members_of c db))"

definition accept_message :: "conversation_row \<Rightarrow> message_row \<Rightarrow> chat_db \<Rightarrow> chat_db" where
  "accept_message r m db = db\<lparr>ch_messages := ch_messages db @ [m],
    ch_conversations := row_update cv_id (cv_id r) (\<lambda>r. r\<lparr>
      cv_lastMessageSequence := cv_lastMessageSequence r + 1,
      cv_lastMessageAt := max (cv_lastMessageAt r) (ms_createdAt m)\<rparr>) (ch_conversations db)\<rparr>"

inductive chat_move :: "chat_db \<Rightarrow> chat_db \<Rightarrow> bool" where
  Open_Chat: "chat_move db (db\<lparr>ch_conversations := ch_conversations db @ [r],
      ch_members := ch_members db @ [new_member (cv_id r) a, new_member (cv_id r) b]\<rparr>)"
  if "a \<noteq> b" "cv_pairKey r = pair_key a b" "cv_pairKey r \<notin> cv_pairKey ` set (ch_conversations db)"
    "cv_id r \<notin> cv_id ` set (ch_conversations db)" "canInteract a b db"
    "cv_lastMessageSequence r = 0" "cv_interactionEpoch r = 0"
| Settings: "chat_move db (set_member c u f db)"
  if "\<And>b. same_member b (f b) \<and> mb_lastReadMessageSequence (f b) = mb_lastReadMessageSequence b"
| Read: "chat_move db (set_member c u f db)"
  if "\<And>b. same_member b (f b)" "member_row c u db = Some b"
    "mb_lastReadMessageSequence (f b) = Some s" "0 \<le> s" "\<And>t. mb_lastReadMessageSequence b = Some t \<Longrightarrow> t \<le> s"
    "s = 0 \<or> mb_lastReadMessageSequence b = Some s \<or>
      (\<exists>m \<in> set (ch_messages db). ms_conversationId m = c \<and> ms_sequence m = s)"
| Announce: "chat_move db db'"
  if "write_event e ''DIRECT_READ_UPDATED'' c now None [u] db = Inr db'"
    "(c, u) \<in> (\<lambda>b. (mb_conversationId b, mb_userId b)) ` set (ch_members db)"
| Block: "chat_move db (bumpDirectInteractionEpoch a b (db\<lparr>ch_blocks := ch_blocks db @ [x]\<rparr>))"
  if "a \<noteq> b" "blocks a b x" "\<not> hasBlocked a b db" "ub_id x \<notin> ub_id ` set (ch_blocks db)"
| Unblock: "chat_move db (bumpDirectInteractionEpoch a b (db\<lparr>ch_blocks :=
      filter (\<lambda>x. \<not> blocks a b x) (ch_blocks db)\<rparr>))"
  if "list_ex (blocks a b) (ch_blocks db)"
| New_Device: "chat_move db (db\<lparr>ch_devices := ch_devices db @ [d]\<rparr>)"
  if "cd_id d \<notin> cd_id ` set (ch_devices db)"
| Device: "chat_move db (db\<lparr>ch_devices := row_update cd_id i f (ch_devices db)\<rparr>)"
  if "\<And>d. d \<in> set (ch_devices db) \<Longrightarrow> cd_id d = i \<Longrightarrow> same_device d (f d)"
| Drop_Keys: "chat_move db (db\<lparr>ch_otks := delete_unused i (ch_otks db)\<rparr>)"
| Add_Keys: "chat_move db (db\<lparr>ch_otks := createMany_otks i keys (ch_otks db)\<rparr>)"
| Consume: "chat_move db (db\<lparr>ch_otks := row_update otk_key (otk_key k) (\<lambda>k. k\<lparr>ok_consumedAt := Some t\<rparr>) (ch_otks db)\<rparr>)"
  if "k \<in> set (ch_otks db)" "ok_consumedAt k = None"
| Accept: "chat_move db db'"
  if "r \<in> set (ch_conversations db)" "ms_conversationId m = cv_id r"
    "ms_sequence m = cv_lastMessageSequence r + 1" "ms_interactionEpoch m = cv_interactionEpoch r"
    "a \<noteq> b" "map mb_userId (members_of (cv_id r) db) \<in> {[a, b], [b, a]}" "canInteract a b db"
    "ms_senderUserId m = a" "message_unique m (ch_messages db)" "list_all mention_valid (ms_mentions m)"
    "write_event (ms_id m) ''DIRECT_MESSAGE_CREATED'' (cv_id r) (ms_createdAt m) (Some (ms_id m))
      (sent_to (cv_id r) db) (accept_message r m db) = Inr db'"

inductive_cases chat_moveE: "chat_move db db'"

section \<open>Invariants\<close>

definition conversations_ok :: "chat_db \<Rightarrow> bool" where
  "conversations_ok db \<longleftrightarrow> distinct (map cv_id (ch_conversations db)) \<and>
    distinct (map cv_pairKey (ch_conversations db)) \<and>
    distinct (map (\<lambda>b. (mb_conversationId b, mb_userId b)) (ch_members db)) \<and>
    (\<forall>r \<in> set (ch_conversations db). \<exists>a b. a \<noteq> b \<and> map mb_userId (members_of (cv_id r) db) = [a, b] \<and>
      cv_pairKey r = pair_key a b) \<and>
    (\<forall>b \<in> set (ch_members db). mb_conversationId b \<in> cv_id ` set (ch_conversations db))"

text \<open>The messages of a conversation are numbered from 1, in the epochs up to the current one.\<close>

definition numbered :: "conversation_row \<Rightarrow> message_row list \<Rightarrow> bool" where
  "numbered r ms \<longleftrightarrow> 0 \<le> cv_lastMessageSequence r \<and>
    map ms_sequence (filter (\<lambda>m. ms_conversationId m = cv_id r) ms) = [1..cv_lastMessageSequence r] \<and>
    (\<forall>m \<in> set ms. ms_conversationId m = cv_id r \<longrightarrow> ms_interactionEpoch m \<le> cv_interactionEpoch r)"

definition message_rows_ok :: "message_row list \<Rightarrow> bool" where
  "message_rows_ok ms \<longleftrightarrow> distinct (map ms_id ms) \<and>
    distinct (map (\<lambda>m. (ms_conversationId m, ms_senderUserId m, ms_clientMessageId m)) ms) \<and>
    list_all (\<lambda>m. distinct (map ev_recipientDeviceId (ms_envelopes m)) \<and> list_all mention_valid (ms_mentions m)) ms"

definition messages_ok :: "chat_db \<Rightarrow> bool" where
  "messages_ok db \<longleftrightarrow> message_rows_ok (ch_messages db) \<and>
    list_all (\<lambda>m. ms_conversationId m \<in> cv_id ` set (ch_conversations db)) (ch_messages db) \<and>
    (\<forall>r \<in> set (ch_conversations db). numbered r (ch_messages db))"

definition reads_ok :: "chat_db \<Rightarrow> bool" where
  "reads_ok db \<longleftrightarrow> (\<forall>b \<in> set (ch_members db). \<forall>r \<in> set (ch_conversations db). \<forall>s.
    mb_conversationId b = cv_id r \<longrightarrow> mb_lastReadMessageSequence b = Some s \<longrightarrow> 0 \<le> s \<and> s \<le> cv_lastMessageSequence r)"

definition positions :: "string \<Rightarrow> durable_event list \<Rightarrow> int list" where
  "positions u events = concat (map (\<lambda>e. map snd (filter (\<lambda>p. fst p = u) (de_recipients e))) events)"

definition created_events :: "durable_event list \<Rightarrow> durable_event list" where
  "created_events events = filter (\<lambda>e. de_eventType e = ''DIRECT_MESSAGE_CREATED'') events"

definition announced :: "chat_db \<Rightarrow> durable_event \<Rightarrow> message_row \<Rightarrow> bool" where
  "announced db e m \<longleftrightarrow> de_messageId e = Some (ms_id m) \<and> de_scopeId e = ms_conversationId m \<and>
    map fst (de_recipients e) = sent_to (ms_conversationId m) db"

definition sync_ok :: "chat_db \<Rightarrow> bool" where
  "sync_ok db \<longleftrightarrow> distinct (map sy_userId (ch_sync db)) \<and> distinct (map de_id (ch_events db)) \<and>
    (\<forall>u. 0 \<le> last_position u (ch_sync db) \<and> positions u (ch_events db) = [1..last_position u (ch_sync db)])"

definition events_ok :: "chat_db \<Rightarrow> bool" where
  "events_ok db \<longleftrightarrow> sync_ok db \<and> list_all2 (announced db) (created_events (ch_events db)) (ch_messages db)"

definition device_keys_ok :: "chat_db \<Rightarrow> bool" where
  "device_keys_ok db \<longleftrightarrow> distinct (map cd_id (ch_devices db)) \<and> distinct (map otk_key (ch_otks db)) \<and>
    distinct (map ub_id (ch_blocks db)) \<and>
    distinct (map (\<lambda>x. (ub_blockerUserId x, ub_blockedUserId x)) (ch_blocks db))"

definition chat_ok :: "chat_db \<Rightarrow> bool" where
  "chat_ok db \<longleftrightarrow> conversations_ok db \<and> messages_ok db \<and> reads_ok db \<and> events_ok db \<and> device_keys_ok db"

section \<open>Frames\<close>

definition chat_keys :: "chat_db \<Rightarrow> (string \<times> string) list" where
  "chat_keys db = map (\<lambda>r. (cv_id r, cv_pairKey r)) (ch_conversations db)"

definition member_keys :: "chat_db \<Rightarrow> (string \<times> string) list" where
  "member_keys db = map (\<lambda>b. (mb_conversationId b, mb_userId b)) (ch_members db)"

lemma keys_frame [simp]:
  "chat_keys (db\<lparr>ch_blocks := bs\<rparr>) = chat_keys db" "member_keys (db\<lparr>ch_blocks := bs\<rparr>) = member_keys db"
  "chat_keys (db\<lparr>ch_devices := ds\<rparr>) = chat_keys db" "member_keys (db\<lparr>ch_devices := ds\<rparr>) = member_keys db"
  "chat_keys (db\<lparr>ch_otks := ks\<rparr>) = chat_keys db" "member_keys (db\<lparr>ch_otks := ks\<rparr>) = member_keys db"
  "chat_keys (set_member c u f db) = chat_keys db"
  by (simp_all add: chat_keys_def member_keys_def set_member_def)

lemma users_of_keys: "map mb_userId (members_of c db) = map snd (filter (\<lambda>p. fst p = c) (member_keys db))"
  by (simp add: members_of_def member_keys_def filter_map comp_def)

lemma sent_to_keys: "member_keys db' = member_keys db \<Longrightarrow> sent_to c db' = sent_to c db"
  unfolding sent_to_def users_of_keys by simp

lemma conversations_ok_keys:
  "conversations_ok db \<longleftrightarrow> distinct (map fst (chat_keys db)) \<and> distinct (map snd (chat_keys db)) \<and>
    distinct (member_keys db) \<and>
    (\<forall>p \<in> set (chat_keys db). \<exists>a b. a \<noteq> b \<and> map snd (filter (\<lambda>q. fst q = fst p) (member_keys db)) = [a, b] \<and>
      snd p = pair_key a b) \<and>
    (\<forall>q \<in> set (member_keys db). fst q \<in> fst ` set (chat_keys db))"
  unfolding conversations_ok_def users_of_keys
  by (simp add: chat_keys_def member_keys_def comp_def image_image)

lemma conversations_ok_frame:
  "chat_keys db' = chat_keys db \<Longrightarrow> member_keys db' = member_keys db \<Longrightarrow> conversations_ok db \<Longrightarrow> conversations_ok db'"
  unfolding conversations_ok_keys by simp

lemma ids_of_keys: "cv_id ` set (ch_conversations db) = fst ` set (chat_keys db)"
  by (simp add: chat_keys_def image_image)

lemma bump_conversations:
  "ch_conversations (bumpDirectInteractionEpoch a b db) = map (\<lambda>c. if cv_pairKey c = pair_key a b
    then c\<lparr>cv_interactionEpoch := cv_interactionEpoch c + 1\<rparr> else c) (ch_conversations db)"
  unfolding bumpDirectInteractionEpoch_def pair_key_def by simp

lemma set_member_frame [simp]:
  "ch_conversations (set_member c u f db) = ch_conversations db"
  "ch_messages (set_member c u f db) = ch_messages db" "ch_sync (set_member c u f db) = ch_sync db"
  "ch_events (set_member c u f db) = ch_events db" "ch_devices (set_member c u f db) = ch_devices db"
  "ch_otks (set_member c u f db) = ch_otks db" "ch_blocks (set_member c u f db) = ch_blocks db"
  "ch_users (set_member c u f db) = ch_users db"
  by (simp_all add: set_member_def)

lemma set_member_keys [simp]:
  "member_keys (set_member c u f db) = member_keys db" if "\<And>b. same_member b (f b)"
  using that by (simp add: member_keys_def set_member_def row_update_def same_member_def)

lemma bump_frame [simp]:
  "ch_members (bumpDirectInteractionEpoch a b db) = ch_members db"
  "ch_messages (bumpDirectInteractionEpoch a b db) = ch_messages db"
  "ch_sync (bumpDirectInteractionEpoch a b db) = ch_sync db"
  "ch_events (bumpDirectInteractionEpoch a b db) = ch_events db"
  "ch_devices (bumpDirectInteractionEpoch a b db) = ch_devices db"
  "ch_otks (bumpDirectInteractionEpoch a b db) = ch_otks db"
  "ch_blocks (bumpDirectInteractionEpoch a b db) = ch_blocks db"
  "ch_users (bumpDirectInteractionEpoch a b db) = ch_users db"
  "chat_keys (bumpDirectInteractionEpoch a b db) = chat_keys db"
  "member_keys (bumpDirectInteractionEpoch a b db) = member_keys db"
  by (simp_all add: bumpDirectInteractionEpoch_def chat_keys_def member_keys_def)

lemma write_event_frame:
  assumes "write_event e t c now x us db = Inr db'"
  shows "ch_conversations db' = ch_conversations db" "ch_members db' = ch_members db"
    "ch_messages db' = ch_messages db" "ch_devices db' = ch_devices db" "ch_otks db' = ch_otks db"
    "ch_blocks db' = ch_blocks db" "ch_users db' = ch_users db" "chat_keys db' = chat_keys db"
    "member_keys db' = member_keys db"
  using assms by (auto simp: write_event_def Let_def chat_keys_def member_keys_def split: if_splits)

lemma accept_frame [simp]:
  "ch_members (accept_message r m db) = ch_members db" "ch_messages (accept_message r m db) = ch_messages db @ [m]"
  "ch_sync (accept_message r m db) = ch_sync db" "ch_events (accept_message r m db) = ch_events db"
  "ch_devices (accept_message r m db) = ch_devices db" "ch_otks (accept_message r m db) = ch_otks db"
  "ch_blocks (accept_message r m db) = ch_blocks db" "ch_users (accept_message r m db) = ch_users db"
  "chat_keys (accept_message r m db) = chat_keys db" "member_keys (accept_message r m db) = member_keys db"
  by (simp_all add: accept_message_def chat_keys_def member_keys_def row_update_def)

section \<open>Steps keep the conversations\<close>

lemma move_conversations:
  assumes "chat_move db db'" and ok: "conversations_ok db"
  shows "conversations_ok db'"
  using assms
proof (cases rule: chat_move.cases)
  case (Open_Chat a b r)
  have absent: "filter (\<lambda>q. fst q = cv_id r) (member_keys db) = []"
    using ok Open_Chat(5) unfolding conversations_ok_keys by (fastforce simp: filter_empty_conv chat_keys_def)
  have keys: "chat_keys db' = chat_keys db @ [(cv_id r, cv_pairKey r)]"
    "member_keys db' = member_keys db @ [(cv_id r, a), (cv_id r, b)]"
    by (simp_all add: Open_Chat(1) chat_keys_def member_keys_def new_member_def)
  have fresh: "cv_id r \<notin> fst ` set (chat_keys db)" "cv_pairKey r \<notin> snd ` set (chat_keys db)"
    using Open_Chat(4,5) by (auto simp: chat_keys_def)
  then have new: "(cv_id r, u) \<notin> set (member_keys db)" for u
    using ok unfolding conversations_ok_keys by (metis fst_conv)
  have old: "map snd (filter (\<lambda>q. fst q = fst p) (member_keys db')) =
      map snd (filter (\<lambda>q. fst q = fst p) (member_keys db))" if "p \<in> set (chat_keys db)" for p
    using that fresh(1) by (auto simp: keys)
  show ?thesis
    using ok Open_Chat(2,3) fresh new unfolding conversations_ok_keys keys(1)
    by (auto simp: keys(2) old[unfolded keys(2)] absent)
qed (use ok in \<open>auto intro!: conversations_ok_frame[OF _ _ ok] simp: write_event_frame\<close>)

section \<open>Steps keep the messages\<close>

lemma messages_ok_frame:
  "ch_messages db' = ch_messages db \<Longrightarrow> ch_conversations db' = ch_conversations db \<Longrightarrow>
    messages_ok db \<Longrightarrow> messages_ok db'"
  by (simp add: messages_ok_def)

lemma numbered_later:
  "numbered r ms \<Longrightarrow> cv_id r' = cv_id r \<Longrightarrow> cv_lastMessageSequence r' = cv_lastMessageSequence r \<Longrightarrow>
    cv_interactionEpoch r \<le> cv_interactionEpoch r' \<Longrightarrow> numbered r' ms"
  unfolding numbered_def by fastforce

lemma numbered_other:
  "numbered r ms \<Longrightarrow> ms_conversationId m \<noteq> cv_id r \<Longrightarrow> numbered r (ms @ [m])"
  by (simp add: numbered_def)

lemma numbered_next:
  assumes "numbered r ms" and "ms_conversationId m = cv_id r" and "ms_sequence m = cv_lastMessageSequence r + 1"
    and "ms_interactionEpoch m = cv_interactionEpoch r" and "cv_id r' = cv_id r"
    and "cv_lastMessageSequence r' = cv_lastMessageSequence r + 1" and "cv_interactionEpoch r' = cv_interactionEpoch r"
  shows "numbered r' (ms @ [m])"
  using assms by (auto simp: numbered_def upto_rec2)

lemma messages_ok_epochs:
  assumes "messages_ok db"
  shows "messages_ok (bumpDirectInteractionEpoch a b (db\<lparr>ch_blocks := bs\<rparr>))"
proof -
  have "cv_id ` set (ch_conversations (bumpDirectInteractionEpoch a b (db\<lparr>ch_blocks := bs\<rparr>))) =
      cv_id ` set (ch_conversations db)"
    by (simp add: ids_of_keys)
  moreover have "\<forall>r \<in> set (ch_conversations (bumpDirectInteractionEpoch a b (db\<lparr>ch_blocks := bs\<rparr>))).
      numbered r (ch_messages db)"
    using assms by (auto simp: messages_ok_def bump_conversations intro: numbered_later)
  ultimately show ?thesis using assms by (simp add: messages_ok_def)
qed

lemma messages_ok_accept:
  assumes ok: "conversations_ok db" "messages_ok db" and r: "r \<in> set (ch_conversations db)"
    and m: "ms_conversationId m = cv_id r" "ms_sequence m = cv_lastMessageSequence r + 1"
      "ms_interactionEpoch m = cv_interactionEpoch r" "message_unique m (ch_messages db)"
      "list_all mention_valid (ms_mentions m)"
  shows "messages_ok (accept_message r m db)"
proof -
  have inj: "x = r" if "x \<in> set (ch_conversations db)" "cv_id x = cv_id r" for x
    using that r ok(1) by (simp add: conversations_ok_def distinct_map inj_on_def)
  have convs: "set (ch_conversations (accept_message r m db)) = (\<lambda>x. if cv_id x = cv_id r then x\<lparr>
      cv_lastMessageSequence := cv_lastMessageSequence x + 1,
      cv_lastMessageAt := max (cv_lastMessageAt x) (ms_createdAt m)\<rparr> else x) ` set (ch_conversations db)"
    by (simp add: accept_message_def set_row_update)
  have "numbered y (ch_messages db @ [m])" if "y \<in> set (ch_conversations (accept_message r m db))" for y
  proof -
    from that convs obtain x where x: "x \<in> set (ch_conversations db)" "y = (if cv_id x = cv_id r then x\<lparr>
      cv_lastMessageSequence := cv_lastMessageSequence x + 1,
      cv_lastMessageAt := max (cv_lastMessageAt x) (ms_createdAt m)\<rparr> else x)" by blast
    have "numbered x (ch_messages db)" using ok(2) x(1) by (simp add: messages_ok_def)
    then show ?thesis
      using x m(1-3) inj[OF x(1)] by (cases "cv_id x = cv_id r") (auto intro: numbered_other numbered_next)
  qed
  moreover have "cv_id ` set (ch_conversations (accept_message r m db)) = cv_id ` set (ch_conversations db)"
    by (simp add: ids_of_keys)
  moreover have "message_rows_ok (ch_messages db @ [m])"
    using ok(2) m(4,5) by (simp add: messages_ok_def message_rows_ok_def message_unique_def)
  ultimately show ?thesis using ok(2) m(1) r by (simp add: messages_ok_def)
qed

lemma move_messages:
  assumes "chat_move db db'" and ok: "conversations_ok db" "messages_ok db"
  shows "messages_ok db'"
  using assms(1)
proof (cases rule: chat_move.cases)
  case (Open_Chat a b r)
  from Open_Chat(5) ok(2) have none: "\<forall>m \<in> set (ch_messages db). ms_conversationId m \<noteq> cv_id r"
    unfolding messages_ok_def list_all_iff by metis
  then have "numbered r (ch_messages db)"
    using Open_Chat(7) by (simp add: numbered_def filter_empty_conv)
  with ok(2) show ?thesis unfolding Open_Chat(1) by (simp add: messages_ok_def list_all_iff)
next
  case (Accept r m a b)
  note w = write_event_frame[OF Accept(11)]
  have "messages_ok (accept_message r m db)" by (rule messages_ok_accept) (use ok Accept in auto)
  then show ?thesis by (simp add: messages_ok_def w)
qed (use ok in \<open>auto intro: messages_ok_epochs messages_ok_frame simp: write_event_frame\<close>)

section \<open>Steps keep read positions, events and keys\<close>

lemma reads_ok_frame:
  assumes "reads_ok db" and "ch_members db' = ch_members db"
    and "\<And>r'. r' \<in> set (ch_conversations db') \<Longrightarrow> \<exists>r \<in> set (ch_conversations db). cv_id r = cv_id r' \<and>
      cv_lastMessageSequence r \<le> cv_lastMessageSequence r'"
  shows "reads_ok db'"
  using assms unfolding reads_ok_def by (metis order_trans)

lemma reads_ok_same:
  "reads_ok db \<Longrightarrow> ch_members db' = ch_members db \<Longrightarrow> ch_conversations db' = ch_conversations db \<Longrightarrow> reads_ok db'"
  by (simp add: reads_ok_def)

lemma reads_ok_epochs: "reads_ok db \<Longrightarrow> reads_ok (bumpDirectInteractionEpoch a b (db\<lparr>ch_blocks := bs\<rparr>))"
proof (erule reads_ok_frame)
  fix r' assume "r' \<in> set (ch_conversations (bumpDirectInteractionEpoch a b (db\<lparr>ch_blocks := bs\<rparr>)))"
  then obtain r where "r \<in> set (ch_conversations db)" "r' = (if cv_pairKey r = pair_key a b
      then r\<lparr>cv_interactionEpoch := cv_interactionEpoch r + 1\<rparr> else r)"
    by (auto simp: bump_conversations)
  then show "\<exists>r \<in> set (ch_conversations db). cv_id r = cv_id r' \<and> cv_lastMessageSequence r \<le> cv_lastMessageSequence r'"
    by (intro bexI[of _ r]) simp_all
qed simp

lemma sequence_bound:
  assumes "messages_ok db" and "r \<in> set (ch_conversations db)" and "m \<in> set (ch_messages db)"
    and "ms_conversationId m = cv_id r"
  shows "1 \<le> ms_sequence m \<and> ms_sequence m \<le> cv_lastMessageSequence r"
proof -
  have "ms_sequence m \<in> set (map ms_sequence (filter (\<lambda>m. ms_conversationId m = cv_id r) (ch_messages db)))"
    using assms(3,4) by simp
  moreover have "map ms_sequence (filter (\<lambda>m. ms_conversationId m = cv_id r) (ch_messages db)) =
      [1..cv_lastMessageSequence r]"
    using assms(1,2) by (simp add: messages_ok_def numbered_def)
  ultimately show ?thesis by (metis atLeastAtMost_iff set_upto)
qed

lemma reads_ok_read:
  assumes ok: "messages_ok db" "reads_ok db" and f: "\<And>b. same_member b (f b)" and b: "member_row c u db = Some b"
    and s: "mb_lastReadMessageSequence (f b) = Some s" "0 \<le> s"
      "s = 0 \<or> mb_lastReadMessageSequence b = Some s \<or>
        (\<exists>m \<in> set (ch_messages db). ms_conversationId m = c \<and> ms_sequence m = s)"
    and d: "distinct (map (\<lambda>b. (mb_conversationId b, mb_userId b)) (ch_members db))"
  shows "reads_ok (set_member c u f db)"
  unfolding reads_ok_def
proof (intro ballI allI impI)
  fix x r t
  assume x: "x \<in> set (ch_members (set_member c u f db))" and r: "r \<in> set (ch_conversations (set_member c u f db))"
    and xr: "mb_conversationId x = cv_id r" "mb_lastReadMessageSequence x = Some t"
  have b': "b \<in> set (ch_members db)" "mb_conversationId b = c" "mb_userId b = u"
    using b by (auto simp: member_row_def dest: findD)
  from x obtain y where y: "y \<in> set (ch_members db)"
    "x = (if (mb_conversationId y, mb_userId y) = (c, u) then f y else y)"
    by (auto simp: set_member_def set_row_update)
  have r': "r \<in> set (ch_conversations db)" using r by simp
  show "0 \<le> t \<and> t \<le> cv_lastMessageSequence r"
  proof (cases "(mb_conversationId y, mb_userId y) = (c, u)")
    case True
    then have "y = b" using d y(1) b' by (simp add: distinct_map inj_on_def)
    then have ts: "t = s" and cr: "c = cv_id r" using y True xr s(1) f[of b] b' by (auto simp: same_member_def)
    have "0 \<le> cv_lastMessageSequence r" using ok(1) r' by (simp add: messages_ok_def numbered_def)
    moreover have "s \<le> cv_lastMessageSequence r" if "mb_lastReadMessageSequence b = Some s"
      using ok(2) b'(1,2) r' cr that unfolding reads_ok_def by metis
    ultimately show ?thesis using s(2,3) ts cr sequence_bound[OF ok(1) r'] by metis
  next
    case False
    then have "x = y" unfolding y(2) by (rule if_not_P)
    then show ?thesis using ok(2) y(1) r' xr unfolding reads_ok_def by metis
  qed
qed

lemma reads_ok_settings:
  assumes "reads_ok db"
    and "\<And>b. same_member b (f b) \<and> mb_lastReadMessageSequence (f b) = mb_lastReadMessageSequence b"
  shows "reads_ok (set_member c u f db)"
proof -
  have "\<exists>y \<in> set (ch_members db). mb_conversationId y = mb_conversationId x \<and>
      mb_lastReadMessageSequence y = mb_lastReadMessageSequence x"
    if "x \<in> set (ch_members (set_member c u f db))" for x
  proof -
    from that obtain y where "y \<in> set (ch_members db)"
      "x = (if (mb_conversationId y, mb_userId y) = (c, u) then f y else y)"
      by (auto simp: set_member_def set_row_update)
    then show ?thesis using assms(2)[of y] by (intro bexI[of _ y]) (simp_all add: same_member_def)
  qed
  with assms(1) show ?thesis unfolding reads_ok_def set_member_frame by metis
qed

lemma move_reads:
  assumes "chat_move db db'" and ok: "conversations_ok db" "messages_ok db" "reads_ok db"
  shows "reads_ok db'"
  using assms(1)
proof (cases rule: chat_move.cases)
  case (Open_Chat a b r)
  have "mb_conversationId x \<noteq> cv_id r" if "x \<in> set (ch_members db)" for x
    using ok(1) that Open_Chat(5) unfolding conversations_ok_def by metis
  moreover have "cv_id q \<noteq> cv_id r" if "q \<in> set (ch_conversations db)" for q
    using that Open_Chat(5) by (metis image_eqI)
  ultimately show ?thesis
    using ok(3) unfolding Open_Chat(1) reads_ok_def by (auto simp: new_member_def)
next
  case (Settings f c u)
  then show ?thesis using reads_ok_settings[OF ok(3)] by simp
next
  case (Read f c u b s)
  show ?thesis
    unfolding Read(1) by (rule reads_ok_read[OF ok(2,3) Read(2,3,4,5,7)]) (use ok(1) in \<open>simp add: conversations_ok_def\<close>)
next
  case (Accept r m a b)
  note w = write_event_frame[OF Accept(11)]
  show ?thesis
  proof (rule reads_ok_frame[OF ok(3)])
    fix x assume "x \<in> set (ch_conversations db')"
    then obtain y where "y \<in> set (ch_conversations db)" "x = (if cv_id y = cv_id r then y\<lparr>
        cv_lastMessageSequence := cv_lastMessageSequence y + 1,
        cv_lastMessageAt := max (cv_lastMessageAt y) (ms_createdAt m)\<rparr> else y)"
      by (auto simp: w accept_message_def set_row_update)
    then show "\<exists>y \<in> set (ch_conversations db). cv_id y = cv_id x \<and> cv_lastMessageSequence y \<le> cv_lastMessageSequence x"
      by (intro bexI[of _ y]) simp_all
  qed (simp add: w)
qed (use reads_ok_same[OF ok(3)] reads_ok_epochs[OF ok(3)] in \<open>simp_all add: write_event_frame\<close>)

text \<open>Positions are given out without gaps.\<close>

lemma last_position_bump:
  "last_position v (bump_position u states) = last_position v states + (if v = u then 1 else 0)"
  if "distinct (map sy_userId states)"
proof (cases "u \<in> sy_userId ` set states")
  case True
  then obtain s where s: "s \<in> set states" "sy_userId s = u" by auto
  have "row_find sy_userId v (row_update sy_userId u (\<lambda>s. s\<lparr>sy_lastPosition := sy_lastPosition s + 1\<rparr>) states) =
      (if v = u then map_option (\<lambda>s. s\<lparr>sy_lastPosition := sy_lastPosition s + 1\<rparr>) (row_find sy_userId v states)
       else row_find sy_userId v states)"
    by (rule row_find_row_update) simp
  moreover have "row_find sy_userId u states = Some s" using row_find_distinct[OF that s(1)] s(2) by simp
  ultimately show ?thesis using True by (simp add: last_position_def bump_position_def)
next
  case False
  then have "row_find sy_userId u states = None" by (simp add: row_find_None)
  with False show ?thesis
    by (auto simp: last_position_def bump_position_def row_find_def find_snoc split: option.split)
qed

lemma bump_users: "distinct (map sy_userId states) \<Longrightarrow> distinct (map sy_userId (bump_position u states))"
  by (auto simp: bump_position_def)

lemma bumps:
  assumes "distinct us" and "distinct (map sy_userId states)"
  shows "distinct (map sy_userId (fold bump_position us states)) \<and>
    (\<forall>v. last_position v (fold bump_position us states) = last_position v states + (if v \<in> set us then 1 else 0))"
  using assms
proof (induction us arbitrary: states)
  case Nil
  then show ?case by simp
next
  case (Cons u us)
  then show ?case using bump_users[of states u] last_position_bump[of states] by auto
qed

lemma positions_snoc:
  "positions v (events @ [e]) = positions v events @ map snd (filter (\<lambda>p. fst p = v) (de_recipients e))"
  by (simp add: positions_def)

lemma filter_recipients:
  "distinct us \<Longrightarrow> map snd (filter (\<lambda>p. fst p = v) (map (\<lambda>u. (u, g u)) us)) = (if v \<in> set us then [g v] else [])"
  by (induction us) auto

lemma write_event_sync:
  assumes "write_event e t c now x us db = Inr db'" and "distinct us" and "sync_ok db"
  shows "sync_ok db'"
proof -
  from bumps[OF assms(2), of "ch_sync db"] assms(3)
  have b: "distinct (map sy_userId (fold bump_position us (ch_sync db)))"
    "\<And>v. last_position v (fold bump_position us (ch_sync db)) = last_position v (ch_sync db) + (if v \<in> set us then 1 else 0)"
    by (auto simp: sync_ok_def)
  show ?thesis
    using assms b
    by (auto simp: sync_ok_def write_event_def Let_def positions_snoc filter_recipients upto_rec2 split: if_splits)
qed

lemma write_event_events:
  assumes "write_event e t c now x us db = Inr db'"
  shows "\<exists>ev. ch_events db' = ch_events db @ [ev] \<and> de_id ev = e \<and> de_eventType ev = t \<and> de_scopeId ev = c \<and>
    de_messageId ev = x \<and> map fst (de_recipients ev) = us"
  using assms by (auto simp: write_event_def Let_def comp_def split: if_splits)

lemma events_ok_frame:
  assumes "events_ok db" and "ch_sync db' = ch_sync db" "ch_events db' = ch_events db" "ch_messages db' = ch_messages db"
    and "member_keys db' = member_keys db"
  shows "events_ok db'"
  using assms(1) unfolding events_ok_def sync_ok_def announced_def[abs_def] assms(2-4) sent_to_keys[OF assms(5)] .

lemma move_events:
  assumes "chat_move db db'" and ok: "conversations_ok db" "messages_ok db" "events_ok db"
  shows "events_ok db'"
  using assms(1)
proof (cases rule: chat_move.cases)
  case (Open_Chat a b r)
  have "sent_to (ms_conversationId m) db' = sent_to (ms_conversationId m) db" if "m \<in> set (ch_messages db)" for m
  proof -
    have "ms_conversationId m \<noteq> cv_id r"
      using that ok(2) Open_Chat(5) unfolding messages_ok_def list_all_iff by metis
    then show ?thesis by (simp add: Open_Chat(1) sent_to_def members_of_def new_member_def)
  qed
  then have "list_all2 (announced db') (created_events (ch_events db)) (ch_messages db)"
    using ok(3) unfolding events_ok_def by (auto simp: announced_def intro: list.rel_mono_strong)
  then show ?thesis using ok(3) unfolding events_ok_def by (simp add: Open_Chat(1) sync_ok_def)
next
  case (Announce e c now u)
  note w = write_event_frame[OF Announce(1)]
  obtain ev where ev: "ch_events db' = ch_events db @ [ev]" "de_eventType ev = ''DIRECT_READ_UPDATED''"
    using write_event_events[OF Announce(1)] by metis
  have keys: "member_keys db' = member_keys db" by (simp add: w)
  have "created_events (ch_events db') = created_events (ch_events db)"
    using ev(2) unfolding ev(1) by (simp add: created_events_def)
  moreover have "announced db' = announced db" by (simp add: fun_eq_iff announced_def sent_to_keys[OF keys])
  ultimately show ?thesis
    using ok(3) write_event_sync[OF Announce(1)] unfolding events_ok_def by (simp add: w)
next
  case (Accept r m a b)
  note w = write_event_frame[OF Accept(11)]
  have keys: "member_keys db' = member_keys db" by (simp add: w)
  have d: "distinct (sent_to (cv_id r) db)"
    using ok(1) Accept(1) by (auto simp: conversations_ok_def sent_to_def)
  have "sync_ok db'"
    using write_event_sync[OF Accept(11) d] ok(3) by (simp add: events_ok_def sync_ok_def)
  moreover obtain ev where ev: "ch_events db' = ch_events db @ [ev]" "de_eventType ev = ''DIRECT_MESSAGE_CREATED''"
    "de_messageId ev = Some (ms_id m)" "de_scopeId ev = cv_id r" "map fst (de_recipients ev) = sent_to (cv_id r) db"
    using write_event_events[OF Accept(11)] by (metis accept_frame(4))
  moreover have "announced db' = announced db" by (simp add: fun_eq_iff announced_def sent_to_keys[OF keys])
  moreover have "announced db ev m" using ev Accept(2) by (simp add: announced_def)
  ultimately show ?thesis
    using ok(3) unfolding events_ok_def by (simp add: w created_events_def list_all2_appendI)
qed (use events_ok_frame[OF ok(3)] in simp_all)

lemma createMany_keys: "distinct (map otk_key rows) \<Longrightarrow> distinct (map otk_key (createMany_otks i keys rows))"
  unfolding createMany_otks_def
  by (induction keys arbitrary: rows) (auto simp: add_otk_def otk_key_def)

lemma createMany_prefix: "\<exists>zs. createMany_otks i keys rows = rows @ zs \<and> list_all (\<lambda>k. ok_consumedAt k = None) zs"
proof (induction keys arbitrary: rows)
  case Nil
  then show ?case by (simp add: createMany_otks_def)
next
  case (Cons k keys)
  obtain zs where "createMany_otks i keys (add_otk i k rows) = add_otk i k rows @ zs"
    "list_all (\<lambda>k. ok_consumedAt k = None) zs" using Cons by metis
  then show ?case by (auto simp: createMany_otks_def add_otk_def)
qed

lemma blocks_pair:
  "hasBlocked a b db \<longleftrightarrow> a \<noteq> b \<and> (a, b) \<in> (\<lambda>x. (ub_blockerUserId x, ub_blockedUserId x)) ` set (ch_blocks db)"
  by (auto simp: hasBlocked_def list_ex_iff blocks_def)

lemma device_keys_ok_frame:
  "device_keys_ok db \<Longrightarrow> ch_devices db' = ch_devices db \<Longrightarrow> ch_otks db' = ch_otks db \<Longrightarrow> ch_blocks db' = ch_blocks db \<Longrightarrow>
    device_keys_ok db'"
  by (simp add: device_keys_ok_def)

lemma move_keys:
  assumes "chat_move db db'" and ok: "device_keys_ok db"
  shows "device_keys_ok db'"
  using assms(1)
proof (cases rule: chat_move.cases)
  case (Block a b x)
  then have "(ub_blockerUserId x, ub_blockedUserId x) \<notin> (\<lambda>x. (ub_blockerUserId x, ub_blockedUserId x)) ` set (ch_blocks db)"
    by (auto simp: blocks_pair blocks_def)
  with Block ok show ?thesis by (simp add: device_keys_ok_def)
next
  case (Unblock a b)
  with ok show ?thesis by (simp add: device_keys_ok_def distinct_map_filter)
next
  case (New_Device d)
  with ok show ?thesis by (simp add: device_keys_ok_def)
next
  case (Device i f)
  have "map cd_id (row_update cd_id i f (ch_devices db)) = map cd_id (ch_devices db)"
    using Device(2) by (auto simp: row_update_def same_device_def)
  with ok Device(1) show ?thesis by (simp add: device_keys_ok_def)
next
  case (Drop_Keys i)
  with ok show ?thesis by (simp add: device_keys_ok_def delete_unused_def distinct_map_filter)
next
  case (Add_Keys i keys)
  with ok show ?thesis by (simp add: device_keys_ok_def createMany_keys)
next
  case (Consume k t)
  have "map otk_key (row_update otk_key (otk_key k) (\<lambda>k. k\<lparr>ok_consumedAt := Some t\<rparr>) (ch_otks db)) =
      map otk_key (ch_otks db)"
    by (rule map_row_update) (simp add: otk_key_def)
  with ok Consume(1) show ?thesis by (simp add: device_keys_ok_def)
qed (use device_keys_ok_frame[OF ok] in \<open>simp_all add: write_event_frame\<close>)

lemma move_ok: "chat_move db db' \<Longrightarrow> chat_ok db \<Longrightarrow> chat_ok db'"
  using move_conversations move_messages move_reads move_events move_keys unfolding chat_ok_def by blast

lemma moves_ok: "chat_move\<^sup>*\<^sup>* db db' \<Longrightarrow> chat_ok db \<Longrightarrow> chat_ok db'"
  by (induction rule: rtranclp_induct) (auto intro: move_ok)

section \<open>What stays\<close>

definition epoch_of :: "string \<Rightarrow> chat_db \<Rightarrow> int option" where
  "epoch_of c db = map_option cv_interactionEpoch (row_find cv_id c (ch_conversations db))"

text \<open>Later tables have what was there: messages and events unchanged, epochs not smaller, used keys used.\<close>

definition chat_later :: "chat_db \<Rightarrow> chat_db \<Rightarrow> bool" where
  "chat_later db db' \<longleftrightarrow> (\<exists>zs. ch_messages db' = ch_messages db @ zs) \<and>
    (\<exists>zs. ch_events db' = ch_events db @ zs) \<and>
    (\<exists>zs. member_keys db' = member_keys db @ zs) \<and> (\<exists>zs. chat_keys db' = chat_keys db @ zs) \<and>
    (\<forall>c e. epoch_of c db = Some e \<longrightarrow> (\<exists>e'. epoch_of c db' = Some e' \<and> e \<le> e')) \<and>
    (\<forall>k \<in> set (ch_otks db). ok_consumedAt k \<noteq> None \<longrightarrow> k \<in> set (ch_otks db'))"

lemma chat_later_refl: "chat_later db db"
  by (simp add: chat_later_def)

lemma chat_later_trans:
  assumes "chat_later a b" and "chat_later b c"
  shows "chat_later a c"
proof -
  have p: "(\<exists>zs. y = x @ zs) \<Longrightarrow> (\<exists>zs. z = y @ zs) \<Longrightarrow> (\<exists>zs. z = x @ zs)" for x y z :: "'x list" by auto
  have "\<forall>i e. epoch_of i a = Some e \<longrightarrow> (\<exists>e'. epoch_of i c = Some e' \<and> e \<le> e')"
    using assms unfolding chat_later_def by (meson order_trans)
  then show ?thesis
    using assms p unfolding chat_later_def by (intro conjI) (metis append_assoc | blast)+
qed

lemma epoch_of_bump:
  "epoch_of c (bumpDirectInteractionEpoch a b db) = (case row_find cv_id c (ch_conversations db) of
     None \<Rightarrow> None | Some r \<Rightarrow> Some (cv_interactionEpoch r + (if cv_pairKey r = pair_key a b then 1 else 0)))"
proof -
  have "row_find cv_id c (map (\<lambda>c. if cv_pairKey c = pair_key a b
      then c\<lparr>cv_interactionEpoch := cv_interactionEpoch c + 1\<rparr> else c) rs) =
    map_option (\<lambda>c. if cv_pairKey c = pair_key a b
      then c\<lparr>cv_interactionEpoch := cv_interactionEpoch c + 1\<rparr> else c) (row_find cv_id c rs)" for rs
    unfolding row_find_def by (induction rs) auto
  note f = this
  show ?thesis unfolding epoch_of_def bump_conversations f by (simp split: option.split)
qed

lemma epoch_of_block:
  "epoch_of c db = Some e \<Longrightarrow> \<exists>e'. epoch_of c (bumpDirectInteractionEpoch a b (db\<lparr>ch_blocks := bs\<rparr>)) = Some e' \<and> e \<le> e'"
  unfolding epoch_of_bump by (auto simp: epoch_of_def split: option.split)

lemma epoch_of_accept [simp]: "epoch_of c (accept_message r m db) = epoch_of c db"
proof -
  have "row_find cv_id c (row_update cv_id (cv_id r) (\<lambda>r. r\<lparr>cv_lastMessageSequence := cv_lastMessageSequence r + 1,
      cv_lastMessageAt := max (cv_lastMessageAt r) (ms_createdAt m)\<rparr>) rs) = (if c = cv_id r then
      map_option (\<lambda>r. r\<lparr>cv_lastMessageSequence := cv_lastMessageSequence r + 1,
      cv_lastMessageAt := max (cv_lastMessageAt r) (ms_createdAt m)\<rparr>) (row_find cv_id c rs) else row_find cv_id c rs)" for rs
    by (rule row_find_row_update) simp
  note f = this
  show ?thesis by (simp add: epoch_of_def accept_message_def f option.map_comp comp_def)
qed

lemma epoch_of_frame: "ch_conversations db' = ch_conversations db \<Longrightarrow> epoch_of c db' = epoch_of c db"
  by (simp add: epoch_of_def)

lemma chat_later_same:
  assumes "ch_messages db' = ch_messages db" "ch_events db' = ch_events db" "member_keys db' = member_keys db"
    "chat_keys db' = chat_keys db" "\<And>c e. epoch_of c db = Some e \<Longrightarrow> \<exists>e'. epoch_of c db' = Some e' \<and> e \<le> e'"
    "\<And>k. k \<in> set (ch_otks db) \<Longrightarrow> ok_consumedAt k \<noteq> None \<Longrightarrow> k \<in> set (ch_otks db')"
  shows "chat_later db db'"
  using assms by (simp add: chat_later_def)

lemma move_later:
  assumes "chat_move db db'" and ok: "device_keys_ok db"
  shows "chat_later db db'"
  using assms(1)
proof (cases rule: chat_move.cases)
  case (Open_Chat a b r)
  then show ?thesis
    by (auto simp: chat_later_def member_keys_def chat_keys_def epoch_of_def row_find_def find_snoc)
next
  case (Announce e c now u)
  note w = write_event_frame[OF Announce(1)] epoch_of_frame[OF write_event_frame(1)[OF Announce(1)]]
  obtain ev where "ch_events db' = ch_events db @ [ev]" using write_event_events[OF Announce(1)] by metis
  then show ?thesis by (simp add: chat_later_def w)
next
  case (Accept r m a b)
  note w = write_event_frame[OF Accept(11)] epoch_of_frame[OF write_event_frame(1)[OF Accept(11)]]
  obtain ev where "ch_events db' = ch_events db @ [ev]" using write_event_events[OF Accept(11)] by (metis accept_frame(4))
  then show ?thesis by (simp add: chat_later_def w)
next
  case (Block a b x)
  show ?thesis unfolding Block(1)
    by (rule chat_later_same) (simp_all add: epoch_of_block)
next
  case (Unblock a b)
  show ?thesis unfolding Unblock(1)
    by (rule chat_later_same) (simp_all add: epoch_of_block)
next
  case (Drop_Keys i)
  show ?thesis unfolding Drop_Keys(1)
    by (rule chat_later_same) (auto simp: delete_unused_def epoch_of_def)
next
  case (Add_Keys i keys)
  show ?thesis unfolding Add_Keys(1)
    using createMany_prefix[of i keys "ch_otks db"] by (intro chat_later_same) (auto simp: epoch_of_def)
next
  case (Consume k t)
  have "x = k" if "x \<in> set (ch_otks db)" "otk_key x = otk_key k" for x
    using ok that Consume(2) by (simp add: device_keys_ok_def distinct_map inj_on_def)
  with Consume(3) show ?thesis unfolding Consume(1)
    by (intro chat_later_same) (force simp: epoch_of_def set_row_update)+
next
  case (Settings f c u)
  then have "member_keys db' = member_keys db" by simp
  with Settings(1) show ?thesis by (auto simp: chat_later_def epoch_of_def)
next
  case (Read f c u b s)
  then have "member_keys db' = member_keys db" by simp
  with Read(1) show ?thesis by (auto simp: chat_later_def epoch_of_def)
qed (auto intro!: chat_later_same simp: epoch_of_def)

lemma moves_later:
  assumes "chat_move\<^sup>*\<^sup>* db db'" and "chat_ok db"
  shows "chat_later db db'"
  using assms(1)
proof (induction rule: rtranclp_induct)
  case base
  then show ?case by (rule chat_later_refl)
next
  case (step y z)
  have "device_keys_ok y" using moves_ok[OF step(1) assms(2)] by (simp add: chat_ok_def)
  from chat_later_trans[OF step(3) move_later[OF step(2) this]] show ?case .
qed

end
