(* ===== verification/Direct_Requests.thy ===== *)
theory Direct_Requests
  imports Direct_Moves
begin

text \<open>
  The requests of direct chats and trust together, run one after the other. A send and the opening
  of a chat read the database before their transaction, so they may decide on any state of the
  history; the transaction itself works on the current one. Every request turns out to be a
  sequence of the steps of \<open>Direct_Moves\<close>.
\<close>

section \<open>Requests\<close>

record chat_params =
  cp_crypto :: crypto
  cp_options :: chat_options
  cp_localeCompare :: "string \<Rightarrow> string \<Rightarrow> int"

datatype chat_action =
    Do_Create string string string nat
  | Do_Privacy string "bool option" "bool option"
  | Do_Read string "string list" string
  | Do_Send string send_message "mention_view list" string nat "chat_error fault"
  | Do_Bundles string
  | Do_Register register_device
  | Do_Rotate string rotate_prekeys "chat_error fault \<times> chat_error fault \<times> chat_error fault"
  | Do_Revoke string
  | Do_Block string string
  | Do_Unblock string

record chat_request =
  cq_actor :: string
  cq_now :: int
  cq_action :: chat_action

datatype chat_answer = Chat_Failed chat_error | Chat_Done | Chat_Bundles "public_bundle list"
  | Chat_Message message_view bool

definition answer_chat :: "('v \<Rightarrow> chat_answer) \<Rightarrow> (chat_error + 'v) \<times> chat_db \<Rightarrow> chat_answer \<times> chat_db" where
  "answer_chat f res = (case res of (Inl e, db) \<Rightarrow> (Chat_Failed e, db) | (Inr v, db) \<Rightarrow> (f v, db))"

text \<open>The history has the current state first; \<open>state_ago k\<close> is the state \<open>k\<close> requests ago.\<close>

definition state_ago :: "nat \<Rightarrow> chat_db list \<Rightarrow> chat_db" where
  "state_ago k hist = hist ! min k (length hist - 1)"

definition handle_chat :: "chat_params \<Rightarrow> chat_request \<Rightarrow> chat_db list \<Rightarrow> chat_answer \<times> chat_db" where
  "handle_chat P q hist =
    (let a = cq_actor q; now = cq_now q; db = hd hist in
     case cq_action q of
       Do_Create peer i surfaceId k \<Rightarrow>
         answer_chat (\<lambda>_. Chat_Done) (create_chat a peer i surfaceId now (state_ago k hist) db)
     | Do_Privacy c share include \<Rightarrow> answer_chat (\<lambda>_. Chat_Done) (updatePrivacy a c share include db)
     | Do_Read c seen e \<Rightarrow> answer_chat (\<lambda>_. Chat_Done) (markRead a c seen e now db)
     | Do_Send c input mentions i k f \<Rightarrow>
         answer_chat (\<lambda>(v, replayed). Chat_Message v replayed)
           (sendWithStatus (cp_crypto P) (cp_options P) (cp_localeCompare P) f a c input mentions i now
             (state_ago k hist) db)
     | Do_Bundles target \<Rightarrow> answer_chat Chat_Bundles (chat_tx No_Fault (prekeyBundles a target now) db)
     | Do_Register input \<Rightarrow> answer_chat (\<lambda>_. Chat_Done) (chat_tx No_Fault (register (cp_crypto P) a input now) db)
     | Do_Rotate d input fs \<Rightarrow> answer_chat (\<lambda>_. Chat_Done) (rotate (cp_crypto P) fs a d input db)
     | Do_Revoke d \<Rightarrow> answer_chat (\<lambda>_. Chat_Done) (chat_tx No_Fault (revoke a d now) db)
     | Do_Block handle i \<Rightarrow> answer_chat (\<lambda>_. Chat_Done) (chat_tx No_Fault (blockUser a handle i now) db)
     | Do_Unblock handle \<Rightarrow> answer_chat (\<lambda>_. Chat_Done) (chat_tx No_Fault (unblockUser a handle) db))"

fun chat_run :: "chat_params \<Rightarrow> chat_request list \<Rightarrow> chat_db list \<Rightarrow> chat_answer list \<times> chat_db list" where
  "chat_run P [] hist = ([], hist)"
| "chat_run P (q # qs) hist = (case handle_chat P q hist of (ans, db) \<Rightarrow>
    case chat_run P qs (db # hist) of (rest, hist') \<Rightarrow> (ans # rest, hist'))"

section \<open>Requests are steps\<close>

named_theorems chat_steps "operations as sequences of steps"

lemma chat_tx_state:
  assumes "\<And>db' v. op db = Inr (db', v) \<Longrightarrow> chat_move\<^sup>*\<^sup>* db db'"
  shows "chat_move\<^sup>*\<^sup>* db (snd (chat_tx f op db))"
  using assms snd_faulty[of f db "op db"] unfolding chat_tx_def
  by (cases "op db") (auto simp: commit_def split: sum.splits)

lemma snd_chat_read [simp]: "snd (chat_read op db) = db"
  by (simp add: chat_read_def)

lemma sbind_chat_read:
  "sbind (chat_read op db) f = (case op db of Inl e \<Rightarrow> (Inl e, db) | Inr a \<Rightarrow> f a db)"
  by (simp add: chat_read_def split: sum.split)

lemma snd_sbind_read [simp]: "snd (sbind m (\<lambda>x db. chat_read (g x) db)) = snd m"
  by (cases m; cases "fst m") auto

lemma directPairKey_Inr: "directPairKey a b = Inr k \<longleftrightarrow> a \<noteq> b \<and> k = pair_key a b"
  by (auto simp: directPairKey_def pair_key_def)

lemma create_steps [chat_steps]:
  "chat_move\<^sup>*\<^sup>* db (snd (create_chat actor peer i sid now snap db))"
proof -
  have "chat_move\<^sup>*\<^sup>* db db'" if "create_conversation actor peer k i sid now db = Inr (db', r)" "actor \<noteq> peer"
    "k = pair_key actor peer" for k db' r
  proof (cases "find (\<lambda>r. cv_pairKey r = k) (ch_conversations db)")
    case None
    define r0 where "r0 = \<lparr>cv_id = i, cv_pairKey = k, cv_surface = Some (sid, ''DIRECT''), cv_createdAt = now,
      cv_lastMessageAt = now, cv_lastMessageSequence = 0, cv_interactionEpoch = 0\<rparr>"
    from that(1) None have db': "db' = db\<lparr>ch_conversations := ch_conversations db @ [r0],
        ch_members := ch_members db @ [new_member (cv_id r0) actor, new_member (cv_id r0) peer]\<rparr>"
      "i \<notin> cv_id ` set (ch_conversations db)" "canInteract actor peer db"
      by (auto simp: create_conversation_def Let_def new_member_def r0_def split: if_splits)
    have "chat_move db db'"
      unfolding db'(1) by (rule Open_Chat) (use that None db'(2,3) in \<open>auto simp: r0_def find_None_iff\<close>)
    then show ?thesis by blast
  qed (use that in \<open>auto simp: create_conversation_def split: if_splits\<close>)
  then show ?thesis
    unfolding create_chat_def sbind_chat_read
    by (auto simp: directPairKey_Inr split: sum.split intro!: chat_tx_state)
qed

lemma privacy_steps [chat_steps]: "chat_move\<^sup>*\<^sup>* db (snd (updatePrivacy actor c share include db))"
proof -
  have "chat_move\<^sup>*\<^sup>* db (snd (chat_tx No_Fault (\<lambda>db. Inr (set_member c actor f db, ())) db))"
    if "\<And>b. same_member b (f b) \<and> mb_lastReadMessageSequence (f b) = mb_lastReadMessageSequence b" for f
    using chat_move.Settings[OF that] by (intro chat_tx_state) auto
  note * = this
  show ?thesis
    unfolding updatePrivacy_def sbind_chat_read
    by (cases "requireMemberConversation actor c db") (auto simp: same_member_def intro!: *)
qed

lemma check_epochs_Inr: "check_epochs db = Inr db' \<longleftrightarrow> list_all (\<lambda>c. cv_interactionEpoch c \<le> EPOCH_MAX) (ch_conversations db) \<and> db' = db"
  by (auto simp: check_epochs_def)

lemma blockUser_Inr:
  assumes "blockUser actor handle i now db = Inr (db', v)"
  obtains (Same) "db' = db"
  | (Blocked) target where "target \<noteq> actor" "\<not> list_ex (blocks actor target) (ch_blocks db)" "i \<notin> ub_id ` set (ch_blocks db)"
      "db' = bumpDirectInteractionEpoch actor target (db\<lparr>ch_blocks := ch_blocks db @
        [\<lparr>ub_id = i, ub_blockerUserId = actor, ub_blockedUserId = target, ub_createdAt = now\<rparr>]\<rparr>)"
proof -
  from assms obtain found where f: "resolveUser handle db = Inr found"
    unfolding blockUser_def rbind_eq_Inr by blast
  then have "found \<noteq> None" using assms by (simp add: blockUser_def split: option.splits)
  then obtain target h where "found = Some (target, h)" by (metis option.exhaust surj_pair)
  with f assms have "db' = db \<or> target \<noteq> actor \<and> \<not> list_ex (blocks actor target) (ch_blocks db) \<and>
      i \<notin> ub_id ` set (ch_blocks db) \<and> db' = bumpDirectInteractionEpoch actor target (db\<lparr>ch_blocks := ch_blocks db @
        [\<lparr>ub_id = i, ub_blockerUserId = actor, ub_blockedUserId = target, ub_createdAt = now\<rparr>]\<rparr>)"
    by (simp add: blockUser_def rbind_eq_Inr check_epochs_Inr split: if_splits)
  with that show thesis by blast
qed

lemma block_steps [chat_steps]: "chat_move\<^sup>*\<^sup>* db (snd (chat_tx f (blockUser actor handle i now) db))"
proof (rule chat_tx_state)
  fix db' v assume "blockUser actor handle i now db = Inr (db', v)"
  then show "chat_move\<^sup>*\<^sup>* db db'"
  proof (cases rule: blockUser_Inr)
    case (Blocked target)
    then show ?thesis by (intro r_into_rtranclp) (auto intro!: Block simp: blocks_def hasBlocked_def)
  qed simp
qed

lemma unblockUser_Inr:
  assumes "unblockUser actor handle db = Inr (db', v)"
  obtains target where "length (filter (blocks actor target) (ch_blocks db)) = 1"
    "db' = bumpDirectInteractionEpoch actor target (db\<lparr>ch_blocks :=
      filter (\<lambda>b. \<not> blocks actor target b) (ch_blocks db)\<rparr>)"
proof -
  from assms obtain found where f: "resolveBlockedUser actor handle db = Inr found"
    unfolding unblockUser_def rbind_eq_Inr by blast
  then have "found \<noteq> None" using assms by (simp add: unblockUser_def split: option.splits)
  then obtain target h where "found = Some (target, h)" by (metis option.exhaust surj_pair)
  with f assms have "length (filter (blocks actor target) (ch_blocks db)) = 1"
    "db' = bumpDirectInteractionEpoch actor target (db\<lparr>ch_blocks :=
      filter (\<lambda>b. \<not> blocks actor target b) (ch_blocks db)\<rparr>)"
    by (simp_all add: unblockUser_def rbind_eq_Inr check_epochs_Inr split: if_splits)
  then show thesis by (rule that)
qed

lemma unblock_steps [chat_steps]: "chat_move\<^sup>*\<^sup>* db (snd (chat_tx f (unblockUser actor handle) db))"
proof (rule chat_tx_state)
  fix db' v assume "unblockUser actor handle db = Inr (db', v)"
  then obtain target where t: "length (filter (blocks actor target) (ch_blocks db)) = 1"
    "db' = bumpDirectInteractionEpoch actor target (db\<lparr>ch_blocks :=
      filter (\<lambda>b. \<not> blocks actor target b) (ch_blocks db)\<rparr>)" by (rule unblockUser_Inr)
  have "list_ex (blocks actor target) (ch_blocks db)"
    using t(1) by (metis filter_False length_0_conv list_ex_iff zero_neq_one)
  then show "chat_move\<^sup>*\<^sup>* db db'" unfolding t(2) by (intro r_into_rtranclp Unblock)
qed

section \<open>Keys\<close>

lemma drop_keys: "chat_move\<^sup>*\<^sup>* db (db\<lparr>ch_otks := delete_unused i (ch_otks db)\<rparr>)"
  by (intro r_into_rtranclp Drop_Keys)

lemma add_keys: "chat_move\<^sup>*\<^sup>* db (db\<lparr>ch_otks := createMany_otks i keys (ch_otks db)\<rparr>)"
  by (intro r_into_rtranclp Add_Keys)

lemma update_device:
  "(\<And>d. d \<in> set (ch_devices db) \<Longrightarrow> cd_id d = i \<Longrightarrow> same_device d (f d)) \<Longrightarrow>
    chat_move\<^sup>*\<^sup>* db (db\<lparr>ch_devices := row_update cd_id i f (ch_devices db)\<rparr>)"
  by (intro r_into_rtranclp Device)

lemma register_steps [chat_steps]: "chat_move\<^sup>*\<^sup>* db (snd (chat_tx f (register C actor input now) db))"
proof (rule chat_tx_state)
  fix db' v assume a: "register C actor input now db = Inr (db', v)"
  show "chat_move\<^sup>*\<^sup>* db db'"
  proof (cases "row_find cd_id (rd_deviceId input) (ch_devices db)")
    case None
    let ?d = "\<lparr>cd_id = rd_deviceId input, cd_userId = actor,
      cd_identityEd25519Public = rd_identityEd25519Public input,
      cd_identityX25519Public = rd_identityX25519Public input,
      cd_signedPrekeyId = rd_signedPrekeyId input, cd_signedPrekeyPublic = rd_signedPrekeyPublic input,
      cd_signedPrekeySignature = rd_signedPrekeySignature input, cd_label = rd_label input,
      cd_revokedAt = None, cd_createdAt = now\<rparr>"
    from None have d: "cd_id ?d \<notin> cd_id ` set (ch_devices db)" by (simp add: row_find_None)
    from None a have db': "db' = (db\<lparr>ch_devices := ch_devices db @ [?d]\<rparr>)\<lparr>ch_otks := createMany_otks (rd_deviceId input)
        (rd_oneTimePrekeys input) (ch_otks (db\<lparr>ch_devices := ch_devices db @ [?d]\<rparr>))\<rparr>"
      by (auto simp: register_def rbind_eq_Inr Let_def split: if_splits)
    show ?thesis
      unfolding db' using New_Device[OF d] add_keys by (rule converse_rtranclp_into_rtranclp)
  next
    case (Some existing)
    let ?f = "\<lambda>d. d\<lparr>cd_signedPrekeyId := rd_signedPrekeyId input,
      cd_signedPrekeyPublic := rd_signedPrekeyPublic input,
      cd_signedPrekeySignature := rd_signedPrekeySignature input,
      cd_label := (case rd_label input of None \<Rightarrow> cd_label d | Some l \<Rightarrow> Some l)\<rparr>"
    have f: "same_device d (?f d)" for d by (simp add: same_device_def)
    from Some a have db': "db' = (let db1 = db\<lparr>ch_devices := row_update cd_id (cd_id existing) ?f (ch_devices db)\<rparr>;
        db2 = db1\<lparr>ch_otks := delete_unused (cd_id existing) (ch_otks db1)\<rparr>
      in db2\<lparr>ch_otks := createMany_otks (cd_id existing) (rd_oneTimePrekeys input) (ch_otks db2)\<rparr>)"
      by (auto simp: register_def rbind_eq_Inr Let_def split: if_splits)
    show ?thesis
      unfolding db' Let_def by (rule rtranclp_trans[OF update_device rtranclp_trans[OF drop_keys add_keys]]) (rule f)
  qed
qed

lemma rotate_steps [chat_steps]: "chat_move\<^sup>*\<^sup>* db (snd (rotate C fs actor d input db))"
proof -
  have u: "chat_move\<^sup>*\<^sup>* db (snd (chat_tx f (\<lambda>db. Inr (db\<lparr>ch_devices := row_update cd_id i (update_prekey device input)
      (ch_devices db)\<rparr>, v)) db))" for f i device v db
    using update_device[of db i "update_prekey device input"]
    by (intro chat_tx_state) (auto simp: same_device_def update_prekey_def)
  have k: "chat_move\<^sup>*\<^sup>* db (snd (replaceUnusedPrekeys f2 f3 i keys db))" for f2 f3 i keys db
    unfolding replaceUnusedPrekeys_def
  proof (rule sbind_state)
    show "chat_move\<^sup>*\<^sup>* db (snd (chat_tx f2 (\<lambda>db. Inr (db\<lparr>ch_otks := delete_unused i (ch_otks db)\<rparr>, ())) db))"
      using drop_keys by (intro chat_tx_state) auto
    fix a st assume st: "chat_move\<^sup>*\<^sup>* db st"
    have "chat_move\<^sup>*\<^sup>* st (snd (chat_tx f3 (\<lambda>db. Inr (db\<lparr>ch_otks := createMany_otks i keys (ch_otks db)\<rparr>, ())) st))"
      using add_keys by (intro chat_tx_state) auto
    with st show "chat_move\<^sup>*\<^sup>* db (snd (if keys = [] then (Inr (), st)
        else chat_tx f3 (\<lambda>db. Inr (db\<lparr>ch_otks := createMany_otks i keys (ch_otks db)\<rparr>, ())) st))" by auto
  qed
  have "chat_move\<^sup>*\<^sup>* db (snd (sbind (chat_tx (fst fs) (\<lambda>db. Inr (db\<lparr>ch_devices :=
        row_update cd_id (cd_id device) (update_prekey device input) (ch_devices db)\<rparr>,
        toDeviceView (update_prekey device input device))) db) (\<lambda>view db.
    sbind (replaceUnusedPrekeys (fst (snd fs)) (snd (snd fs)) (cd_id device) (ro_oneTimePrekeys input) db) (\<lambda>_ db.
    (Inr view, db)))))" for device
  proof (rule sbind_state[where P = "chat_move\<^sup>*\<^sup>* db"], rule u)
    fix a st assume "chat_move\<^sup>*\<^sup>* db st"
    with k show "chat_move\<^sup>*\<^sup>* db (snd (sbind (replaceUnusedPrekeys (fst (snd fs)) (snd (snd fs)) (cd_id device)
        (ro_oneTimePrekeys input) st) (\<lambda>_ db. (Inr a, db))))"
      by (intro sbind_state[where P = "chat_move\<^sup>*\<^sup>* db"]) (auto intro: rtranclp_trans)
  qed
  then show ?thesis unfolding rotate_def sbind_chat_read by (auto split: sum.split)
qed

lemma revoke_steps [chat_steps]:
  assumes "device_keys_ok db"
  shows "chat_move\<^sup>*\<^sup>* db (snd (chat_tx f (revoke actor d now) db))"
proof (rule chat_tx_state)
  fix db' v assume "revoke actor d now db = Inr (db', v)"
  then obtain device where d: "find (\<lambda>x. cd_id x = d \<and> cd_userId x = actor) (ch_devices db) = Some device"
    "db' = db \<or> (cd_revokedAt device = None \<and> db' = db\<lparr>ch_devices :=
      row_update cd_id (cd_id device) (\<lambda>d. d\<lparr>cd_revokedAt := Some now\<rparr>) (ch_devices db)\<rparr>)"
    by (auto simp: revoke_def requireOwnDevice_def res_simps split: if_splits)
  have "x = device" if "x \<in> set (ch_devices db)" "cd_id x = cd_id device" for x
    using assms that findD[OF d(1)] by (simp add: device_keys_ok_def distinct_map inj_on_def)
  note unique = this
  have "same_device x (x\<lparr>cd_revokedAt := Some now\<rparr>)" if "cd_revokedAt device = None"
    "x \<in> set (ch_devices db)" "cd_id x = cd_id device" for x
    using that(1) unique[OF that(2,3)] by (simp add: same_device_def)
  note same = this
  show "chat_move\<^sup>*\<^sup>* db db'"
  proof (cases "db' = db")
    case False
    with d(2) have d': "cd_revokedAt device = None" "db' = db\<lparr>ch_devices :=
      row_update cd_id (cd_id device) (\<lambda>d. d\<lparr>cd_revokedAt := Some now\<rparr>) (ch_devices db)\<rparr>" by auto
    show ?thesis unfolding d'(2) by (rule update_device) (rule same[OF d'(1)])
  qed simp
qed

text \<open>Every bundle takes an unused key, marks it used, and so the keys of one call differ.\<close>

definition handed :: "public_bundle list \<Rightarrow> (string \<times> nat) list" where
  "handed bundles = List.map_filter (\<lambda>b. map_option (Pair (pb_deviceId b)) (pb_oneTimePrekeyId b)) bundles"

definition used_keys :: "otk_row list \<Rightarrow> (string \<times> nat) set" where
  "used_keys rows = otk_key ` {k \<in> set rows. ok_consumedAt k \<noteq> None}"

lemma handed_append [simp]: "handed (xs @ ys) = handed xs @ handed ys"
  by (simp add: handed_def map_filter_def)

lemma next_otk_Some:
  assumes "next_otk d rows = Some k"
  shows "k \<in> set rows" "ok_deviceId k = d" "ok_consumedAt k = None"
proof -
  from assms obtain ks where "js_sort (cmp_on int_cmp (\<lambda>k. int (ok_keyId k)))
      (filter (\<lambda>k. ok_deviceId k = d \<and> ok_consumedAt k = None) rows) = k # ks"
    by (auto simp: next_otk_def split: list.splits)
  then have "set (filter (\<lambda>k. ok_deviceId k = d \<and> ok_consumedAt k = None) rows) = insert k (set ks)"
    by (metis list.simps(15) set_js_sort)
  then have "k \<in> {k \<in> set rows. ok_deviceId k = d \<and> ok_consumedAt k = None}" by simp
  then show "k \<in> set rows" "ok_deviceId k = d" "ok_consumedAt k = None" by auto
qed

lemma used_keys_update:
  assumes "distinct (map otk_key rows)" and "k \<in> set rows" and "ok_consumedAt k = None"
  shows "otk_key k \<notin> used_keys rows"
    and "used_keys (row_update otk_key (otk_key k) (\<lambda>k. k\<lparr>ok_consumedAt := Some t\<rparr>) rows) = insert (otk_key k) (used_keys rows)"
proof -
  show "otk_key k \<notin> used_keys rows"
    using assms by (auto simp: used_keys_def distinct_map inj_on_def)
  have same: "x = k" if "x \<in> set rows" "otk_key x = otk_key k" for x
    using assms(1,2) that by (simp add: distinct_map inj_on_def)
  let ?f = "\<lambda>x. if otk_key x = otk_key k then x\<lparr>ok_consumedAt := Some t\<rparr> else x"
  have key: "otk_key (?f x) = otk_key x" for x by (simp add: otk_key_def)
  have used: "ok_consumedAt (?f x) \<noteq> None \<longleftrightarrow> ok_consumedAt x \<noteq> None \<or> x = k" if "x \<in> set rows" for x
    using same[OF that] by auto
  have "used_keys (map ?f rows) = otk_key ` {y \<in> ?f ` set rows. ok_consumedAt y \<noteq> None}"
    by (simp only: used_keys_def set_map)
  also have "{y \<in> ?f ` set rows. ok_consumedAt y \<noteq> None} = ?f ` {x \<in> set rows. ok_consumedAt (?f x) \<noteq> None}" by blast
  also have "otk_key ` \<dots> = otk_key ` {x \<in> set rows. ok_consumedAt (?f x) \<noteq> None}" by (simp only: image_image key)
  also have "{x \<in> set rows. ok_consumedAt (?f x) \<noteq> None} = insert k {x \<in> set rows. ok_consumedAt x \<noteq> None}"
    using used assms(2) by blast
  finally show "used_keys (row_update otk_key (otk_key k) (\<lambda>k. k\<lparr>ok_consumedAt := Some t\<rparr>) rows) = insert (otk_key k) (used_keys rows)"
    by (simp only: row_update_def used_keys_def image_insert)
qed

lemma consume_all:
  assumes "fold (consume_device t) ds (bs, ch_otks db) = (bs', ks')" and "device_keys_ok db"
  shows "chat_move\<^sup>*\<^sup>* db (db\<lparr>ch_otks := ks'\<rparr>) \<and> (\<exists>zs. handed bs' = handed bs @ zs \<and> distinct zs \<and>
    set zs \<inter> used_keys (ch_otks db) = {} \<and> used_keys ks' = used_keys (ch_otks db) \<union> set zs)"
  using assms
proof (induction ds arbitrary: bs db)
  case Nil
  then have "db\<lparr>ch_otks := ks'\<rparr> = db" "bs = bs'" "ks' = ch_otks db" by auto
  then show ?case by simp
next
  case (Cons d ds)
  show ?case
  proof (cases "next_otk (cd_id d) (ch_otks db)")
    case None
    then obtain b where b: "consume_device t d (bs, ch_otks db) = (bs @ [b], ch_otks db)" "pb_oneTimePrekeyId b = None"
      by (simp add: consume_device_def)
    have "handed [b] = []" using b(2) by (simp add: handed_def map_filter_def)
    with Cons.IH[of "bs @ [b]" db] Cons.prems b(1) show ?thesis by simp
  next
    case (Some k)
    define db1 where "db1 = db\<lparr>ch_otks := row_update otk_key (otk_key k) (\<lambda>k. k\<lparr>ok_consumedAt := Some t\<rparr>) (ch_otks db)\<rparr>"
    from Some obtain b where b: "consume_device t d (bs, ch_otks db) = (bs @ [b], ch_otks db1)"
      "pb_oneTimePrekeyId b = Some (ok_keyId k)" "pb_deviceId b = cd_id d"
      by (simp add: consume_device_def db1_def)
    note k = next_otk_Some[OF Some]
    have h: "handed [b] = [otk_key k]" using b(2,3) k(2) by (simp add: handed_def map_filter_def otk_key_def)
    have m: "chat_move db db1" unfolding db1_def by (rule Consume[OF k(1,3)])
    have ok: "device_keys_ok db1" by (rule move_keys[OF m Cons.prems(2)])
    have u: "otk_key k \<notin> used_keys (ch_otks db)" "used_keys (ch_otks db1) = insert (otk_key k) (used_keys (ch_otks db))"
      using used_keys_update[where rows = "ch_otks db" and k = k] Cons.prems(2) k by (simp_all add: device_keys_ok_def db1_def)
    have "fold (consume_device t) ds (bs @ [b], ch_otks db1) = (bs', ks')" using Cons.prems(1) b(1) by simp
    from Cons.IH[OF this ok] obtain zs where zs: "chat_move\<^sup>*\<^sup>* db1 (db1\<lparr>ch_otks := ks'\<rparr>)"
      "handed bs' = handed bs @ otk_key k # zs" "distinct zs" "set zs \<inter> used_keys (ch_otks db1) = {}"
      "used_keys ks' = used_keys (ch_otks db1) \<union> set zs" by (auto simp: h)
    have "chat_move\<^sup>*\<^sup>* db (db\<lparr>ch_otks := ks'\<rparr>)"
      using converse_rtranclp_into_rtranclp[OF m zs(1)] by (simp add: db1_def)
    moreover have "distinct (otk_key k # zs)" "set (otk_key k # zs) \<inter> used_keys (ch_otks db) = {}"
      "used_keys ks' = used_keys (ch_otks db) \<union> set (otk_key k # zs)"
      using zs(3-5) u by auto
    ultimately show ?thesis using zs(2) by blast
  qed
qed

lemma consumePrekeyBundles_steps:
  assumes "consumePrekeyBundlesForUser u t db = (db', bundles)" and "device_keys_ok db"
  shows "chat_move\<^sup>*\<^sup>* db db'" "distinct (handed bundles)" "set (handed bundles) \<inter> used_keys (ch_otks db) = {}"
    "used_keys (ch_otks db') = used_keys (ch_otks db) \<union> set (handed bundles)" "ch_messages db' = ch_messages db"
proof -
  obtain ks where "fold (consume_device t) (js_sort (cmp_on string_cmp cd_id)
      (filter (\<lambda>d. cd_userId d = u \<and> cd_revokedAt d = None) (ch_devices db))) ([], ch_otks db) = (bundles, ks)"
    and db': "db' = db\<lparr>ch_otks := ks\<rparr>"
    using assms(1) by (auto simp: consumePrekeyBundlesForUser_def split: prod.splits)
  from consume_all[OF this(1) assms(2)] db'
  show "chat_move\<^sup>*\<^sup>* db db'" "distinct (handed bundles)" "set (handed bundles) \<inter> used_keys (ch_otks db) = {}"
    "used_keys (ch_otks db') = used_keys (ch_otks db) \<union> set (handed bundles)" "ch_messages db' = ch_messages db"
    by (auto simp: handed_def map_filter_def)
qed

lemma prekeyBundles_Inr:
  "prekeyBundles actor target t db = Inr (db', bundles) \<Longrightarrow> consumePrekeyBundlesForUser target t db = (db', bundles)"
  by (auto simp: prekeyBundles_def rbind_eq_Inr split: if_splits)

lemma bundles_steps [chat_steps]:
  "device_keys_ok db \<Longrightarrow> chat_move\<^sup>*\<^sup>* db (snd (chat_tx f (prekeyBundles actor target t) db))"
  by (rule chat_tx_state) (metis consumePrekeyBundles_steps(1) prekeyBundles_Inr)

section \<open>Read positions\<close>

lemma observed_fold:
  fixes P :: "'m \<Rightarrow> bool" and seq :: "'m \<Rightarrow> int"
  defines "g \<equiv> fold (\<lambda>m mx. if P m \<and> seq m > mx then seq m else mx)"
  shows "mx \<le> g ms mx \<and> (g ms mx = mx \<or> (\<exists>m \<in> set ms. P m \<and> seq m = g ms mx)) \<and>
    (\<forall>m \<in> set ms. P m \<longrightarrow> seq m \<le> g ms mx)"
proof (induction ms arbitrary: mx)
  case Nil
  then show ?case by (simp add: g_def)
next
  case (Cons m ms)
  have g: "g (m # ms) mx = g ms (if P m \<and> seq m > mx then seq m else mx)" by (simp add: g_def)
  show ?case using Cons[of "if P m \<and> seq m > mx then seq m else mx"] unfolding g by (auto split: if_splits)
qed

lemma observed_bounds:
  "0 \<le> observed_peer_sequence actor ms"
  "observed_peer_sequence actor ms = 0 \<or> (\<exists>m \<in> set ms. ms_senderUserId m \<noteq> actor \<and> ms_sequence m = observed_peer_sequence actor ms)"
  "m \<in> set ms \<Longrightarrow> ms_senderUserId m \<noteq> actor \<Longrightarrow> ms_sequence m \<le> observed_peer_sequence actor ms"
  using observed_fold[of 0 "\<lambda>m. ms_senderUserId m \<noteq> actor" ms_sequence ms]
  unfolding observed_peer_sequence_def by auto

definition read_before :: "chat_member \<Rightarrow> int" where
  "read_before b = (case mb_lastReadMessageSequence b of None \<Rightarrow> 0 | Some s \<Rightarrow> s)"

definition seen_rows :: "string \<Rightarrow> string list \<Rightarrow> chat_db \<Rightarrow> message_row list" where
  "seen_rows c seen db = filter (\<lambda>m. ms_conversationId m = c \<and> ms_id m \<in> set seen) (ch_messages db)"

definition read_after :: "string \<Rightarrow> string \<Rightarrow> string list \<Rightarrow> chat_member \<Rightarrow> chat_db \<Rightarrow> int" where
  "read_after actor c seen b db = (if seen = [] then read_before b
    else max (read_before b) (observed_peer_sequence actor (seen_rows c seen db)))"

definition reading :: "string list \<Rightarrow> int \<Rightarrow> int \<Rightarrow> chat_member \<Rightarrow> chat_member \<Rightarrow> chat_member" where
  "reading seen s now b0 b = b\<lparr>mb_lastReadAt := Some now, mb_lastReadMessageSequence :=
    (if seen \<noteq> [] \<and> Some s \<noteq> mb_lastReadMessageSequence b0 then Some s else mb_lastReadMessageSequence b)\<rparr>"

lemma mark_read_Inr:
  assumes "mark_read_tx actor c seen e now db = Inr (db', u)"
  obtains b where "member_row c actor db = Some b" "seen \<noteq> [] \<Longrightarrow> length (seen_rows c seen db) = length seen"
    "if read_before b < read_after actor c seen b db
     then directReadUpdated e c now actor (set_member c actor (reading seen (read_after actor c seen b db) now b) db) = Inr db'
     else db' = set_member c actor (reading seen (read_after actor c seen b db) now b) db"
proof -
  from assms obtain b where b: "member_row c actor db = Some b"
    unfolding mark_read_tx_def rbind_eq_Inr the_row_eq by blast
  have f: "reading seen (read_after actor c seen b db) now b = (\<lambda>b'. b'\<lparr>mb_lastReadAt := Some now,
      mb_lastReadMessageSequence := (if seen \<noteq> [] \<and> Some (read_after actor c seen b db) \<noteq>
        mb_lastReadMessageSequence b then Some (read_after actor c seen b db) else mb_lastReadMessageSequence b')\<rparr>)"
    by (simp add: reading_def fun_eq_iff)
  have n: "(if seen \<noteq> [] \<and> observed_peer_sequence actor (seen_rows c seen db) > read_before b
      then observed_peer_sequence actor (seen_rows c seen db) else read_before b) = read_after actor c seen b db"
    by (simp add: read_after_def)
  note e = assms[unfolded mark_read_tx_def b the_row_simps rbind_simps Let_def, folded read_before_def seen_rows_def,
      unfolded n, folded f]
  from e have "seen \<noteq> [] \<longrightarrow> length (seen_rows c seen db) = length seen" by (auto split: if_splits)
  moreover from e have "if read_before b < read_after actor c seen b db
     then directReadUpdated e c now actor (set_member c actor (reading seen (read_after actor c seen b db) now b) db) = Inr db'
     else db' = set_member c actor (reading seen (read_after actor c seen b db) now b) db"
    by (simp add: rbind_eq_Inr split: if_splits)
  ultimately show thesis using that b by blast
qed

lemma reading_step:
  assumes "member_row c actor db = Some b"
  shows "chat_move\<^sup>*\<^sup>* db (set_member c actor (reading seen (read_after actor c seen b db) now b) db)"
proof -
  let ?s = "read_after actor c seen b db"
  have f: "same_member x (reading seen ?s now b x)" for x by (simp add: same_member_def reading_def)
  show ?thesis
  proof (cases "seen \<noteq> [] \<and> Some ?s \<noteq> mb_lastReadMessageSequence b")
    case False
    then show ?thesis
      using f by (intro r_into_rtranclp Settings) (auto simp: reading_def)
  next
    case True
    then have s: "?s = max (read_before b) (observed_peer_sequence actor (seen_rows c seen db))"
      by (simp add: read_after_def)
    have "0 \<le> ?s" unfolding s using observed_bounds(1)[of actor "seen_rows c seen db"] by linarith
    moreover have "t \<le> ?s" if "mb_lastReadMessageSequence b = Some t" for t
      using that by (simp add: s read_before_def)
    moreover have "?s = 0 \<or> mb_lastReadMessageSequence b = Some ?s \<or>
        (\<exists>m \<in> set (ch_messages db). ms_conversationId m = c \<and> ms_sequence m = ?s)"
    proof (cases "observed_peer_sequence actor (seen_rows c seen db) \<le> read_before b")
      case True
      then have "?s = read_before b" by (simp add: s)
      then show ?thesis by (auto simp: read_before_def split: option.splits)
    next
      case False
      then have "?s = observed_peer_sequence actor (seen_rows c seen db)" by (simp add: s)
      with observed_bounds(2)[of actor "seen_rows c seen db"] show ?thesis by (auto simp: seen_rows_def)
    qed
    moreover have "mb_lastReadMessageSequence (reading seen ?s now b b) = Some ?s" using True by (simp add: reading_def)
    ultimately show ?thesis using f assms by (intro r_into_rtranclp Read)
  qed
qed

lemma member_in_keys: "member_row c u db = Some b \<Longrightarrow> (c, u) \<in> set (member_keys db)"
  unfolding member_row_def member_keys_def by (drule findD) force

lemma read_steps [chat_steps]: "chat_move\<^sup>*\<^sup>* db (snd (markRead actor c seen e now db))"
proof -
  have "chat_move\<^sup>*\<^sup>* db (snd (chat_tx No_Fault (mark_read_tx actor c seen e now) db))"
  proof (rule chat_tx_state)
    fix db' u assume "mark_read_tx actor c seen e now db = Inr (db', u)"
    then show "chat_move\<^sup>*\<^sup>* db db'"
    proof (cases rule: mark_read_Inr)
      case (1 b)
      let ?db = "set_member c actor (reading seen (read_after actor c seen b db) now b) db"
      note r = reading_step[OF 1(1), of seen now]
      show ?thesis
      proof (cases "read_before b < read_after actor c seen b db")
        case True
        then have "write_event e ''DIRECT_READ_UPDATED'' c now None [actor] ?db = Inr db'"
          using 1(3) by (simp add: directReadUpdated_def)
        moreover have "(c, actor) \<in> (\<lambda>b. (mb_conversationId b, mb_userId b)) ` set (ch_members ?db)"
          using member_in_keys[OF 1(1)] set_member_keys[of "reading seen (read_after actor c seen b db) now b" c actor db]
          by (simp add: member_keys_def reading_def same_member_def flip: set_map)
        ultimately have "chat_move ?db db'" by (rule Announce)
        with r show ?thesis by (rule rtranclp.rtrancl_into_rtrancl)
      qed (use r 1(3) in simp)
    qed
  qed
  then show ?thesis unfolding markRead_def by simp
qed

end
