(* ===== verification/Direct_Sends.thy ===== *)
theory Direct_Sends
  imports Direct_Requests
begin

text \<open>
  A send as a step: what its checks found, what its transaction does, and that both together
  accept at most one message of the conversation.
\<close>

section \<open>The transaction\<close>

lemma message_unique_mentions [simp]: "message_unique (m\<lparr>ms_mentions := x\<rparr>) rows = message_unique m rows"
  by (simp add: message_unique_def)

lemma insert_message_Inr:
  "insert_message m db = Inr (db1, m') \<longleftrightarrow> (\<exists>r. row_find cv_id (ms_conversationId m) (ch_conversations db) = Some r \<and>
    m' = m\<lparr>ms_sequence := cv_lastMessageSequence r + 1\<rparr> \<and> message_unique m' (ch_messages db) \<and>
    db1 = accept_message r m' db)"
  by (auto simp: insert_message_def rbind_eq_Inr the_row_eq Let_def accept_message_def)

lemma insert_mentions_accept:
  assumes "insert_mentions (ms_id m) mentions (accept_message r m db) = Inr db2"
    and "ms_id m \<notin> ms_id ` set (ch_messages db)" and "ms_mentions m = []"
  shows "db2 = accept_message r (m\<lparr>ms_mentions := mentions\<rparr>) db" and "list_all mention_valid mentions"
proof -
  have "m\<lparr>ms_mentions := []\<rparr> = m" using assms(3) by (cases m) simp
  moreover have "row_update ms_id (ms_id m) f (ch_messages db @ [m]) = ch_messages db @ [f m]" for f
    using row_update_absent[OF assms(2)] by (simp add: row_update_def)
  ultimately show "db2 = accept_message r (m\<lparr>ms_mentions := mentions\<rparr>) db" "list_all mention_valid mentions"
    using assms(1) by (auto simp: insert_mentions_def accept_message_def split: if_splits)
qed

definition sent_message :: "string \<Rightarrow> string \<Rightarrow> string \<Rightarrow> send_message \<Rightarrow> mention_view list \<Rightarrow> string \<Rightarrow> int \<Rightarrow>
    conversation_row \<Rightarrow> message_row" where
  "sent_message actor c deviceId input mentions i now r = (new_message actor c deviceId input i now)\<lparr>
    ms_sequence := cv_lastMessageSequence r + 1, ms_mentions := mentions\<rparr>"

lemma sent_message_simps [simp]:
  "ms_id (sent_message actor c d input mentions i now r) = i"
  "ms_conversationId (sent_message actor c d input mentions i now r) = c"
  "ms_senderUserId (sent_message actor c d input mentions i now r) = actor"
  "ms_senderDeviceId (sent_message actor c d input mentions i now r) = d"
  "ms_clientMessageId (sent_message actor c d input mentions i now r) = sm_clientMessageId input"
  "ms_contentCommitmentB64 (sent_message actor c d input mentions i now r) = sm_contentCommitmentB64 input"
  "ms_kind (sent_message actor c d input mentions i now r) = sm_kind input"
  "ms_interactionEpoch (sent_message actor c d input mentions i now r) = sm_interactionEpoch input"
  "ms_sequence (sent_message actor c d input mentions i now r) = cv_lastMessageSequence r + 1"
  "ms_createdAt (sent_message actor c d input mentions i now r) = now"
  "ms_envelopes (sent_message actor c d input mentions i now r) = map (envelope_row_of d) (sm_envelopes input)"
  "ms_mentions (sent_message actor c d input mentions i now r) = mentions"
  by (simp_all add: sent_message_def new_message_def)

lemma send_tx_Inr:
  assumes "send_tx actor c input mentions device memberIds i now db = Inr (db', v, replayed)"
  obtains (Replayed) "db' = db" "replayed" "findExactReplay actor c input db = Inr (Some v)"
  | (Accepted) peer r m where "\<not> replayed" "findExactReplay actor c input db = Inr None"
      "find (\<lambda>u. u \<noteq> actor) memberIds = Some peer" "canInteract actor peer db"
      "row_find cv_id c (ch_conversations db) = Some r" "cv_interactionEpoch r = sm_interactionEpoch input"
      "m = sent_message actor c (cd_id device) input mentions i now r" "message_unique m (ch_messages db)"
      "list_all mention_valid mentions" "directMessageCreated c i now memberIds (accept_message r m db) = Inr db'"
      "v = toMessageView m (cd_id device) mentions"
proof -
  from assms obtain peer replay where p: "find (\<lambda>u. u \<noteq> actor) memberIds = Some peer"
    and x: "findExactReplay actor c input db = Inr replay"
    unfolding send_tx_def rbind_eq_Inr the_row_eq by blast
  note a = assms[unfolded send_tx_def p x the_row_simps rbind_simps]
  show thesis
  proof (cases replay)
    case (Some w)
    with a x that(1) show thesis by simp
  next
    case None
    from a[unfolded None, simplified] obtain db1 m1 db2 where g: "canInteract actor peer db"
        "map_option cv_interactionEpoch (row_find cv_id c (ch_conversations db)) = Some (sm_interactionEpoch input)"
      and m1: "insert_message (new_message actor c (cd_id device) input i now) db = Inr (db1, m1)"
      and db2: "insert_mentions (ms_id m1) mentions db1 = Inr db2"
      and e: "directMessageCreated c (ms_id m1) (ms_createdAt m1) memberIds db2 = Inr db'"
      and v: "v = toMessageView m1 (cd_id device) mentions" "\<not> replayed"
      by (auto simp: rbind_eq_Inr guard_res_eq)
    from m1 obtain r where r: "row_find cv_id c (ch_conversations db) = Some r"
      "m1 = (new_message actor c (cd_id device) input i now)\<lparr>ms_sequence := cv_lastMessageSequence r + 1\<rparr>"
      "message_unique m1 (ch_messages db)" "db1 = accept_message r m1 db"
      by (auto simp: insert_message_Inr new_message_def)
    define m where "m = sent_message actor c (cd_id device) input mentions i now r"
    have m: "m = m1\<lparr>ms_mentions := mentions\<rparr>" by (simp add: m_def sent_message_def r(2))
    have fresh: "ms_id m1 \<notin> ms_id ` set (ch_messages db)" using r(3) by (simp add: message_unique_def)
    have none: "ms_mentions m1 = []" by (simp add: r(2) new_message_def)
    note im = insert_mentions_accept[OF db2[unfolded r(4)] fresh none]
    have "directMessageCreated c i now memberIds (accept_message r m db) = Inr db'"
      using e unfolding im(1) m by (simp add: r(2) new_message_def)
    moreover have "v = toMessageView m (cd_id device) mentions" by (simp add: v(1) m toMessageView_def)
    moreover have "message_unique m (ch_messages db)" using r(3) by (simp add: m)
    ultimately show thesis using that(2)[OF v(2) x[unfolded None] p g(1) r(1) _ m_def] g(2) r(1) im(2) by simp
  qed
qed

section \<open>The checks\<close>

lemma send_checks_replay:
  assumes "send_checks C opts lc actor c input snap = Inr (Inl v)"
  shows "findExactReplay actor c input snap = Inr (Some v)"
proof -
  from assms obtain replay where x: "findExactReplay actor c input snap = Inr replay"
    unfolding send_checks_def rbind_eq_Inr Let_def by blast
  show ?thesis
  proof (cases replay)
    case None
    with assms x show ?thesis by (auto simp: send_checks_def rbind_eq_Inr Let_def)
  next
    case (Some w)
    with assms x show ?thesis by (auto simp: send_checks_def rbind_eq_Inr Let_def)
  qed
qed

lemma send_checks_Inr:
  assumes "send_checks C opts lc actor c input snap = Inr (Inr (device, memberIds))"
  obtains r where "requireMemberConversation actor c snap = Inr r" "memberIds = map mb_userId (members_of c snap)"
    "requireOwnActiveDevice actor (sm_senderDeviceId input) snap = Inr device"
    "findExactReplay actor c input snap = Inr None"
proof -
  from assms obtain r replay where r: "requireMemberConversation actor c snap = Inr r"
    and x: "findExactReplay actor c input snap = Inr replay"
    unfolding send_checks_def rbind_eq_Inr Let_def by blast
  show thesis
  proof (cases replay)
    case None
    note a = assms[unfolded send_checks_def r x None Let_def rbind_simps option.case]
    from a obtain d where d: "requireOwnActiveDevice actor (sm_senderDeviceId input) snap = Inr d"
      unfolding rbind_eq_Inr by blast
    have "d = device \<and> memberIds = map mb_userId (members_of c snap)"
      using a unfolding d by (auto simp: rbind_eq_Inr)
    then show thesis using that r d x None by simp
  next
    case (Some w)
    with assms r x show thesis by (simp add: send_checks_def)
  qed
qed

lemma requireMember_Inr:
  assumes "requireMemberConversation actor c db = Inr r"
  shows "r \<in> set (ch_conversations db)" "cv_id r = c" "actor \<in> set (map mb_userId (members_of c db))"
proof -
  from assms have f: "find (\<lambda>r. cv_id r = c \<and> member_row c actor db \<noteq> None) (ch_conversations db) = Some r"
    by (simp add: requireMemberConversation_def the_row_eq)
  from findD[OF f] show "r \<in> set (ch_conversations db)" "cv_id r = c" by auto
  from findD[OF f] obtain b where "member_row c actor db = Some b" by auto
  then show "actor \<in> set (map mb_userId (members_of c db))"
    by (auto simp: member_row_def members_of_def dest: findD)
qed

text \<open>A conversation keeps the two members it was opened with.\<close>

lemma members_later:
  assumes "conversations_ok snap" and "conversations_ok db" and "chat_later snap db"
    and "c \<in> cv_id ` set (ch_conversations snap)"
  obtains x y where "x \<noteq> y" "map mb_userId (members_of c snap) = [x, y]" "map mb_userId (members_of c db) = [x, y]"
proof -
  from assms(3) obtain zs ks where z: "member_keys db = member_keys snap @ zs" "chat_keys db = chat_keys snap @ ks"
    unfolding chat_later_def by blast
  have two: "\<exists>x y. x \<noteq> y \<and> map mb_userId (members_of c d) = [x, y]"
    if "conversations_ok d" "c \<in> cv_id ` set (ch_conversations d)" for d
  proof -
    from that(2) obtain r where "r \<in> set (ch_conversations d)" "cv_id r = c" by auto
    moreover from that(1) have "\<forall>r \<in> set (ch_conversations d). \<exists>a b. a \<noteq> b \<and>
        map mb_userId (members_of (cv_id r) d) = [a, b] \<and> cv_pairKey r = pair_key a b"
      unfolding conversations_ok_def by (elim conjE)
    ultimately obtain a b where "a \<noteq> b \<and> map mb_userId (members_of c d) = [a, b]" by metis
    then show ?thesis by (intro exI)
  qed
  from two[OF assms(1,4)] obtain x y where xy: "x \<noteq> y" "map mb_userId (members_of c snap) = [x, y]" by metis
  have "c \<in> cv_id ` set (ch_conversations db)" using assms(4) unfolding ids_of_keys z(2) by auto
  from two[OF assms(2) this] obtain x' y' where xy': "map mb_userId (members_of c db) = [x', y']" by metis
  have "map mb_userId (members_of c db) = map mb_userId (members_of c snap) @
      map snd (filter (\<lambda>p. fst p = c) zs)" by (simp add: users_of_keys z(1))
  with xy' xy(2) have "map mb_userId (members_of c db) = [x, y]" by simp
  then show thesis by (rule that[OF xy])
qed

section \<open>A send as a step\<close>

lemma accepted_step:
  assumes r: "r \<in> set (ch_conversations db)" "cv_id r = c" and m: "ms_conversationId m = c"
      "ms_sequence m = cv_lastMessageSequence r + 1" "ms_interactionEpoch m = cv_interactionEpoch r"
      "ms_senderUserId m = a" "message_unique m (ch_messages db)" "list_all mention_valid (ms_mentions m)"
    and ab: "a \<noteq> b" "map mb_userId (members_of c db) \<in> {[a, b], [b, a]}" "canInteract a b db"
    and e: "directMessageCreated c (ms_id m) (ms_createdAt m) (map mb_userId (members_of c db)) (accept_message r m db) = Inr db'"
  shows "chat_move db db'"
proof -
  have d: "distinct (map mb_userId (members_of c db))" using ab(1,2) by auto
  have "write_event (ms_id m) ''DIRECT_MESSAGE_CREATED'' c (ms_createdAt m) (Some (ms_id m))
      (sent_to c db) (accept_message r m db) = Inr db'"
    using e by (simp add: directMessageCreated_def sent_to_def Let_def distinct_remdups_id[OF d] split: if_splits)
  then show ?thesis using assms by (intro Accept[of r db m a b]) auto
qed

lemma pair_other:
  "x \<noteq> y \<Longrightarrow> a \<in> {x, y} \<Longrightarrow> find (\<lambda>u. u \<noteq> a) [x, y] = Some b \<Longrightarrow> a \<noteq> b \<and> [x, y] \<in> {[a, b], [b, a]}"
  by (auto split: if_splits)

lemma own_device_id: "requireOwnActiveDevice actor d db = Inr device \<Longrightarrow> cd_id device = d"
  by (auto simp: requireOwnActiveDevice_def requireOwnDevice_def rbind_eq_Inr the_row_eq split: if_splits dest: findD)

lemma send_tx_cases:
  assumes ok: "conversations_ok snap" "conversations_ok db" "chat_later snap db"
    and checks: "send_checks C opts lc actor c input snap = Inr (Inr (device, memberIds))"
    and tx: "send_tx actor c input mentions device memberIds i now db = Inr (db', v, replayed)"
  obtains (Replayed) "db' = db" "replayed" "findExactReplay actor c input db = Inr (Some v)"
  | (Accepted) b r m where "\<not> replayed" "findExactReplay actor c input db = Inr None"
      "m = sent_message actor c (sm_senderDeviceId input) input mentions i now r"
      "r \<in> set (ch_conversations db)" "cv_id r = c" "cv_interactionEpoch r = sm_interactionEpoch input"
      "message_unique m (ch_messages db)" "list_all mention_valid mentions"
      "actor \<noteq> b" "map mb_userId (members_of c db) \<in> {[actor, b], [b, actor]}" "canInteract actor b db"
      "directMessageCreated c i now (map mb_userId (members_of c db)) (accept_message r m db) = Inr db'"
      "v = toMessageView m (sm_senderDeviceId input) mentions"
  using tx
proof (cases rule: send_tx_Inr)
  case Replayed
  then show thesis by (rule that(1))
next
  case (Accepted peer r m)
  from checks obtain r0 where r0: "requireMemberConversation actor c snap = Inr r0"
    "memberIds = map mb_userId (members_of c snap)"
    "requireOwnActiveDevice actor (sm_senderDeviceId input) snap = Inr device" by (rule send_checks_Inr)
  note q = requireMember_Inr[OF r0(1)] and d = own_device_id[OF r0(3)]
  have "c \<in> cv_id ` set (ch_conversations snap)" using q(1,2) by blast
  from members_later[OF ok this] obtain x y where xy: "x \<noteq> y" "map mb_userId (members_of c snap) = [x, y]"
    "map mb_userId (members_of c db) = [x, y]" by metis
  have "actor \<in> {x, y}" using q(3) xy(2) by auto
  with xy Accepted(3) r0(2) have p: "actor \<noteq> peer" "map mb_userId (members_of c db) \<in> {[actor, peer], [peer, actor]}"
    using pair_other[of x y actor peer] by auto
  have r: "r \<in> set (ch_conversations db)" "cv_id r = c" using row_find_Some[OF Accepted(5)] by auto
  have same: "memberIds = map mb_userId (members_of c db)" using xy r0(2) by simp
  show thesis
    by (rule that(2)[OF Accepted(1,2,7)[unfolded d] r Accepted(6,8,9) p Accepted(4,10,11)[unfolded same d]])
qed

lemma send_tx_step:
  assumes "conversations_ok snap" "conversations_ok db" "chat_later snap db"
    and "send_checks C opts lc actor c input snap = Inr (Inr (device, memberIds))"
    and "send_tx actor c input mentions device memberIds i now db = Inr (db', v, replayed)"
  shows "chat_move\<^sup>*\<^sup>* db db'"
  using assms
proof (cases rule: send_tx_cases)
  case (Accepted b r m)
  have "chat_move db db'"
    by (rule accepted_step[OF Accepted(4,5) _ _ _ _ Accepted(7) _ Accepted(9-11)])
      (use Accepted(3,6,8,12) in simp_all)
  then show ?thesis by blast
qed simp

lemma snd_send_commit:
  "snd (send_commit f actor c input mentions device memberIds i now db) =
    snd (chat_tx f (send_tx actor c input mentions device memberIds i now) db)"
  by (auto simp: send_commit_def split: prod.split sum.split option.split)

lemma send_steps:
  assumes "chat_ok snap" and "chat_move\<^sup>*\<^sup>* snap db"
  shows "chat_move\<^sup>*\<^sup>* db (snd (sendWithStatus C opts lc f actor c input mentions i now snap db))"
proof (cases "send_checks C opts lc actor c input snap")
  case (Inr checked)
  show ?thesis
  proof (cases checked)
    case (Inr p)
    obtain device memberIds where p: "p = (device, memberIds)" by (cases p)
    have ok: "conversations_ok snap" "conversations_ok db" "chat_later snap db"
      using assms(1) moves_ok[OF assms(2,1)] moves_later[OF assms(2,1)] by (simp_all add: chat_ok_def)
    have "chat_move\<^sup>*\<^sup>* db (snd (chat_tx f (send_tx actor c input mentions device memberIds i now) db))"
    proof (rule chat_tx_state)
      fix db' v assume "send_tx actor c input mentions device memberIds i now db = Inr (db', v)"
      then show "chat_move\<^sup>*\<^sup>* db db'"
        using send_tx_step[OF ok] \<open>send_checks C opts lc actor c input snap = Inr checked\<close> Inr p
        by (cases v) blast
    qed
    then show ?thesis
      using \<open>send_checks C opts lc actor c input snap = Inr checked\<close> Inr p
      by (simp add: sendWithStatus_def snd_send_commit)
  qed (simp add: sendWithStatus_def Inr)
qed (simp add: sendWithStatus_def)

end
