(* ===== verification/Direct_Properties.thy ===== *)
theory Direct_Properties
  imports Direct_Sends
begin

text \<open>
  What a history of requests to direct chats keeps and promises: the tables stay consistent, a block
  silences a pair and ends the epoch of what was signed before it, a send is accepted at most once
  and answered alike afterwards, a one-time prekey is handed out once.
\<close>

section \<open>Histories\<close>

definition history_ok :: "chat_db list \<Rightarrow> bool" where
  "history_ok hist \<longleftrightarrow> hist \<noteq> [] \<and> (\<forall>s \<in> set hist. chat_ok s \<and> chat_move\<^sup>*\<^sup>* s (hd hist))"

lemma state_ago_in: "hist \<noteq> [] \<Longrightarrow> state_ago k hist \<in> set hist"
  unfolding state_ago_def by (rule nth_mem) (cases hist, auto)

lemma snd_answer_chat [simp]: "snd (answer_chat f res) = snd res"
  by (auto simp: answer_chat_def split: prod.split sum.split)

lemma handle_moves:
  assumes "history_ok hist"
  shows "chat_move\<^sup>*\<^sup>* (hd hist) (snd (handle_chat P q hist))"
proof -
  have h: "device_keys_ok (hd hist)" using assms by (simp add: history_ok_def chat_ok_def)
  have s: "chat_ok (state_ago k hist)" "chat_move\<^sup>*\<^sup>* (state_ago k hist) (hd hist)" for k
    using assms state_ago_in unfolding history_ok_def by blast+
  note send = send_steps[OF s]
  show ?thesis
    unfolding handle_chat_def Let_def by (cases "cq_action q") (simp_all add: chat_steps send h)
qed

lemma history_step:
  assumes "history_ok hist" and "handle_chat P q hist = (ans, db)"
  shows "history_ok (db # hist)"
proof -
  have m: "chat_move\<^sup>*\<^sup>* (hd hist) db" using handle_moves[OF assms(1), of P q] assms(2) by simp
  have "chat_ok (hd hist)" using assms(1) by (simp add: history_ok_def)
  then have "chat_ok db" using m by (rule moves_ok[rotated])
  with assms(1) m show ?thesis unfolding history_ok_def by (auto intro: rtranclp_trans)
qed

lemma run_history:
  assumes "history_ok hist" and "chat_run P qs hist = (answers, hist')"
  shows "history_ok hist' \<and> (\<exists>new. hist' = new @ hist)"
  using assms
proof (induction qs arbitrary: hist answers)
  case Nil
  then show ?case by simp
next
  case (Cons q qs)
  obtain ans db where q: "handle_chat P q hist = (ans, db)" by fastforce
  obtain rest where r: "chat_run P qs (db # hist) = (rest, hist')"
    using Cons.prems(2) q by (auto split: prod.splits)
  from Cons.IH[OF history_step[OF Cons.prems(1) q] r] show ?case by auto
qed

lemma history_start: "chat_ok db \<Longrightarrow> history_ok [db]"
  by (simp add: history_ok_def)

lemma history_hd: "history_ok hist \<Longrightarrow> chat_ok (hd hist)"
  by (simp add: history_ok_def)

lemma history_moves:
  "history_ok (new @ hist) \<Longrightarrow> hist \<noteq> [] \<Longrightarrow> chat_move\<^sup>*\<^sup>* (hd hist) (hd (new @ hist))"
  by (simp add: history_ok_def)


section \<open>Which requests change messages and blocks\<close>

lemma chat_tx_frame:
  assumes "\<And>db' v. op db = Inr (db', v) \<Longrightarrow> g db' = g db"
  shows "g (snd (chat_tx f op db)) = g db"
  using assms snd_faulty[of f db "op db"] unfolding chat_tx_def
  by (cases "op db") (auto simp: commit_def split: sum.splits)

definition talk :: "chat_db \<Rightarrow> message_row list \<times> block_row list" where
  "talk db = (ch_messages db, ch_blocks db)"

lemma talk_write: "write_event e t c now x us db = Inr db' \<Longrightarrow> talk db' = talk db"
  by (simp add: talk_def write_event_frame)

named_theorems quiet "requests that leave messages and blocks alone"

lemma create_quiet [quiet]: "talk (snd (create_chat actor peer i sid now snap db)) = talk db"
proof -
  have "talk (snd (chat_tx No_Fault (create_conversation actor peer k i sid now) db)) = talk db" for k
    by (rule chat_tx_frame) (auto simp: create_conversation_def Let_def talk_def split: if_splits option.splits)
  then show ?thesis
    unfolding create_chat_def sbind_chat_read by (auto split: sum.split)
qed

lemma privacy_quiet [quiet]: "talk (snd (updatePrivacy actor c share include db)) = talk db"
proof -
  have "talk (snd (chat_tx No_Fault (\<lambda>db. Inr (set_member c actor f db, ())) db)) = talk db" for f
    by (rule chat_tx_frame) (auto simp: talk_def)
  then show ?thesis unfolding updatePrivacy_def sbind_chat_read by (auto split: sum.split)
qed

lemma read_quiet [quiet]: "talk (snd (markRead actor c seen e now db)) = talk db"
proof -
  have "talk (snd (chat_tx No_Fault (mark_read_tx actor c seen e now) db)) = talk db"
  proof (rule chat_tx_frame)
    fix db' u assume "mark_read_tx actor c seen e now db = Inr (db', u)"
    then show "talk db' = talk db"
    proof (cases rule: mark_read_Inr)
      case (1 b)
      from 1(3) show ?thesis
        by (auto simp: directReadUpdated_def talk_def dest: write_event_frame split: if_splits)
    qed
  qed
  then show ?thesis unfolding markRead_def by simp
qed

lemma bundles_quiet [quiet]: "talk (snd (chat_tx f (prekeyBundles actor target t) db)) = talk db"
  by (rule chat_tx_frame)
    (auto simp: prekeyBundles_def consumePrekeyBundlesForUser_def talk_def rbind_eq_Inr split: if_splits prod.splits)

lemma register_quiet [quiet]: "talk (snd (chat_tx f (register C actor input now) db)) = talk db"
  by (rule chat_tx_frame)
    (auto simp: register_def rbind_eq_Inr Let_def talk_def split: option.splits if_splits)

lemma revoke_quiet [quiet]: "talk (snd (chat_tx f (revoke actor d now) db)) = talk db"
  by (rule chat_tx_frame) (auto simp: revoke_def rbind_eq_Inr talk_def split: if_splits)

lemma rotate_quiet [quiet]: "talk (snd (rotate C fs actor d input db)) = talk db"
proof -
  have t: "talk (snd (chat_tx f (\<lambda>db. Inr (db\<lparr>ch_devices := h db\<rparr>, v)) s)) = talk s"
    "talk (snd (chat_tx f (\<lambda>db. Inr (db\<lparr>ch_otks := h' db\<rparr>, v)) s)) = talk s" for f h h' s and v :: 'v
    by (rule chat_tx_frame, simp add: talk_def)+
  have k: "talk (snd (replaceUnusedPrekeys f2 f3 i keys s)) = talk s" for f2 f3 i keys s
    unfolding replaceUnusedPrekeys_def
    by (rule sbind_state[where P = "\<lambda>x. talk x = talk s"]) (auto simp: t)
  have "talk (snd (sbind (replaceUnusedPrekeys f2 f3 i keys s) (\<lambda>_ db. (Inr v, db)))) = talk s" for f2 f3 i keys s v
    by (rule sbind_state[where P = "\<lambda>x. talk x = talk s"]) (auto simp: k)
  note k' = this
  have "talk (snd (sbind (chat_tx (fst fs) (\<lambda>db. Inr (db\<lparr>ch_devices :=
        row_update cd_id (cd_id device) (update_prekey device input) (ch_devices db)\<rparr>,
        toDeviceView (update_prekey device input device))) db) (\<lambda>view db.
    sbind (replaceUnusedPrekeys (fst (snd fs)) (snd (snd fs)) (cd_id device) (ro_oneTimePrekeys input) db) (\<lambda>_ db.
    (Inr view, db))))) = talk db" for device
    by (rule sbind_state[where P = "\<lambda>x. talk x = talk db"]) (auto simp: t k')
  then show ?thesis unfolding rotate_def sbind_chat_read by (auto split: sum.split)
qed

lemma block_messages: "ch_messages (snd (chat_tx f (blockUser actor handle i now) db)) = ch_messages db"
proof (rule chat_tx_frame)
  fix db' v assume "blockUser actor handle i now db = Inr (db', v)"
  then show "ch_messages db' = ch_messages db" by (cases rule: blockUser_Inr) simp_all
qed

lemma unblock_messages: "ch_messages (snd (chat_tx f (unblockUser actor handle) db)) = ch_messages db"
proof (rule chat_tx_frame)
  fix db' v assume "unblockUser actor handle db = Inr (db', v)"
  then obtain target where "db' = bumpDirectInteractionEpoch actor target (db\<lparr>ch_blocks :=
      filter (\<lambda>b. \<not> blocks actor target b) (ch_blocks db)\<rparr>)" by (rule unblockUser_Inr)
  then show "ch_messages db' = ch_messages db" by simp
qed

text \<open>A message that a send adds, to tables \<open>db\<close>.\<close>

definition added_by_send :: "string \<Rightarrow> string \<Rightarrow> send_message \<Rightarrow> mention_view list \<Rightarrow> string \<Rightarrow> chat_db \<Rightarrow> message_row \<Rightarrow> bool" where
  "added_by_send actor c input mentions i db m \<longleftrightarrow> (\<exists>b r now.
    m = sent_message actor c (sm_senderDeviceId input) input mentions i now r \<and>
    r \<in> set (ch_conversations db) \<and> cv_id r = c \<and> cv_interactionEpoch r = sm_interactionEpoch input \<and>
    message_unique m (ch_messages db) \<and> list_all mention_valid mentions \<and> actor \<noteq> b \<and>
    map mb_userId (members_of c db) \<in> {[actor, b], [b, actor]} \<and> canInteract actor b db \<and>
    findExactReplay actor c input db = Inr None)"

lemma send_messages:
  assumes "chat_ok snap" and "chat_move\<^sup>*\<^sup>* snap db"
    and res: "snd (sendWithStatus C opts lc f actor c input mentions i now snap db) = db'"
  shows "db' = db \<or> ch_blocks db' = ch_blocks db \<and>
    (\<exists>m. ch_messages db' = ch_messages db @ [m] \<and> added_by_send actor c input mentions i db m)"
proof (cases "send_checks C opts lc actor c input snap")
  case (Inl e)
  with res show ?thesis by (simp add: sendWithStatus_def)
next
  case (Inr checked)
  have ok: "conversations_ok snap" "conversations_ok db" "chat_later snap db"
    using assms(1) moves_ok[OF assms(2,1)] moves_later[OF assms(2,1)] by (simp_all add: chat_ok_def)
  show ?thesis
  proof (cases checked)
    case (Inl v)
    with res Inr show ?thesis by (simp add: sendWithStatus_def)
  next
    case right: (Inr p)
    obtain device memberIds where p: "p = (device, memberIds)" by (cases p)
    note checks = Inr[unfolded right p]
    let ?tx = "send_tx actor c input mentions device memberIds i now db"
    have "snd (faulty f db ?tx) = db'"
      using res Inr right p by (simp add: sendWithStatus_def snd_send_commit chat_tx_def)
    then have "db' = db \<or> commit db ?tx = db'" using snd_faulty[of f db ?tx] by metis
    then consider "db' = db" | v replayed where "?tx = Inr (db', v, replayed)"
      by (cases ?tx) (auto simp: commit_def)
    then show ?thesis
    proof cases
      case (2 v replayed)
      with ok checks show ?thesis
      proof (cases rule: send_tx_cases)
        case (Accepted b r m)
        have "ch_messages db' = ch_messages db @ [m]" "ch_blocks db' = ch_blocks db"
          using Accepted(12) by (auto simp: directMessageCreated_def Let_def write_event_frame split: if_splits)
        moreover have "added_by_send actor c input mentions i db m"
          unfolding added_by_send_def
          by (intro exI[of _ b] exI[of _ r] exI[of _ now] conjI) (rule Accepted)+
        ultimately show ?thesis by blast
      qed simp
    qed simp
  qed
qed

lemma handle_messages:
  assumes "history_ok hist"
  shows "ch_messages (snd (handle_chat P q hist)) = ch_messages (hd hist) \<or>
    (\<exists>c input mentions i k f m. cq_action q = Do_Send c input mentions i k f \<and>
      ch_messages (snd (handle_chat P q hist)) = ch_messages (hd hist) @ [m] \<and>
      added_by_send (cq_actor q) c input mentions i (hd hist) m)"
proof -
  have quiet': "ch_messages (snd (handle_chat P q hist)) = ch_messages (hd hist)"
    if "talk (snd (handle_chat P q hist)) = talk (hd hist)" using that by (simp add: talk_def)
  show ?thesis
  proof (cases "cq_action q")
    case (Do_Send c input mentions i k f)
    have s: "chat_ok (state_ago k hist)" "chat_move\<^sup>*\<^sup>* (state_ago k hist) (hd hist)"
      using assms state_ago_in unfolding history_ok_def by blast+
    from send_messages[OF s refl] Do_Send show ?thesis
      by (simp add: handle_chat_def Let_def) metis
  qed (simp_all add: handle_chat_def Let_def block_messages unblock_messages
      quiet[THEN arg_cong, of fst, unfolded talk_def fst_conv])
qed

section \<open>Blocks\<close>

text \<open>
  C31: while one of the two users of a conversation blocks the other, nobody adds a message to it:
  whatever request is handled next, with whatever older reads it decided on, the messages of the
  conversation stay what they are.
\<close>

theorem blocked_pair_silent:
  assumes "chat_ok db" and "chat_run P qs [db] = (answers, hist)"
    and "map mb_userId (members_of c (hd hist)) = [a, b]"
    and "hasBlocked a b (hd hist) \<or> hasBlocked b a (hd hist)"
  shows "filter (\<lambda>m. ms_conversationId m = c) (ch_messages (snd (handle_chat P q hist))) =
    filter (\<lambda>m. ms_conversationId m = c) (ch_messages (hd hist))"
proof -
  have h: "history_ok hist" using run_history[OF history_start[OF assms(1)] assms(2)] by blast
  have no: "\<not> canInteract a b (hd hist)" "\<not> canInteract b a (hd hist)"
    using assms(4) canInteract_iff[of a b] canInteract_iff[of b a] by (auto simp: hasBlocked_def)
  from handle_messages[OF h, of P q] show ?thesis
  proof (elim disjE exE conjE)
    fix c' input mentions i k f m
    assume m: "ch_messages (snd (handle_chat P q hist)) = ch_messages (hd hist) @ [m]"
      "added_by_send (cq_actor q) c' input mentions i (hd hist) m"
    from m(2) obtain y where y: "ms_conversationId m = c'" "canInteract (cq_actor q) y (hd hist)"
      "map mb_userId (members_of c' (hd hist)) \<in> {[cq_actor q, y], [y, cq_actor q]}"
      by (auto simp: added_by_send_def)
    have "c' \<noteq> c" using y(2,3) assms(3) no by auto
    with m(1) y(1) show ?thesis by simp
  qed simp
qed

lemma string_cmp_both: "string_cmp a b \<le> 0 \<Longrightarrow> string_cmp b a \<le> 0 \<Longrightarrow> a = b"
  using string_cmp_antisym[of a b] string_cmp_antisym[of b a] string_cmp_0[of a b] by linarith

lemma pair_key_sym: "pair_key a b = pair_key b a"
proof -
  note string_cmp_both[of a b]
  moreover have "string_cmp a b \<le> 0 \<or> string_cmp b a \<le> 0"
    using string_cmp_antisym[of a b] by linarith
  ultimately show ?thesis by (auto simp: pair_key_def)
qed

lemma block_frame:
  "snd (sendWithStatus C opts lc f actor c input mentions i now snap db) = db' \<Longrightarrow> chat_ok snap \<Longrightarrow>
    chat_move\<^sup>*\<^sup>* snap db \<Longrightarrow> ch_blocks db' = ch_blocks db"
  by (metis send_messages)

text \<open>The blocks of a pair change only together with the epoch of its conversation.\<close>

definition block_change :: "chat_db \<Rightarrow> chat_db \<Rightarrow> bool" where
  "block_change db db' \<longleftrightarrow> (\<exists>u v bs. db' = bumpDirectInteractionEpoch u v (db\<lparr>ch_blocks := bs\<rparr>) \<and>
    (\<forall>x y. {x, y} \<noteq> {u, v} \<longrightarrow> hasBlocked x y db' = hasBlocked x y db))"

lemma block_changes:
  "snd (chat_tx f (blockUser actor handle i now) db) = db \<or> block_change db (snd (chat_tx f (blockUser actor handle i now) db))"
proof -
  have "db' = db \<or> block_change db db'" if "blockUser actor handle i now db = Inr (db', v)" for db' v
    using that
  proof (cases rule: blockUser_Inr)
    case (Blocked target)
    then have "block_change db db'"
      unfolding block_change_def by (intro exI[of _ actor] exI[of _ target] exI conjI) (auto simp: hasBlocked_def blocks_def)
    then show ?thesis by simp
  qed simp
  then show ?thesis using snd_faulty[of f db "blockUser actor handle i now db"]
    unfolding chat_tx_def by (cases "blockUser actor handle i now db") (auto simp: commit_def split: sum.splits prod.splits)
qed

lemma unblock_changes:
  "snd (chat_tx f (unblockUser actor handle) db) = db \<or> block_change db (snd (chat_tx f (unblockUser actor handle) db))"
proof -
  have "block_change db db'" if "unblockUser actor handle db = Inr (db', v)" for db' v
  proof -
    from that obtain target where d: "db' = bumpDirectInteractionEpoch actor target (db\<lparr>ch_blocks :=
        filter (\<lambda>b. \<not> blocks actor target b) (ch_blocks db)\<rparr>)" by (rule unblockUser_Inr)
    show ?thesis
      unfolding block_change_def
      by (intro exI[of _ actor] exI[of _ target] exI conjI, rule d)
        (auto simp: d hasBlocked_def blocks_def list_ex_iff)
  qed
  then show ?thesis using snd_faulty[of f db "unblockUser actor handle db"]
    unfolding chat_tx_def by (cases "unblockUser actor handle db") (auto simp: commit_def split: sum.splits prod.splits)
qed

lemma handle_blocks:
  assumes "history_ok hist"
  shows "ch_blocks (snd (handle_chat P q hist)) = ch_blocks (hd hist) \<or> block_change (hd hist) (snd (handle_chat P q hist))"
proof (cases "cq_action q")
  case (Do_Send c input mentions i k f)
  have s: "chat_ok (state_ago k hist)" "chat_move\<^sup>*\<^sup>* (state_ago k hist) (hd hist)"
    using assms state_ago_in unfolding history_ok_def by blast+
  from block_frame[OF refl s] Do_Send show ?thesis by (simp add: handle_chat_def Let_def)
next
  case (Do_Block handle i)
  then show ?thesis using block_changes[of No_Fault "cq_actor q" handle i "cq_now q" "hd hist"]
    by (auto simp: handle_chat_def Let_def)
next
  case (Do_Unblock handle)
  then show ?thesis using unblock_changes[of No_Fault "cq_actor q" handle "hd hist"]
    by (auto simp: handle_chat_def Let_def)
qed (simp_all add: handle_chat_def Let_def quiet[THEN arg_cong, of snd, unfolded talk_def snd_conv])

lemma move_messages_new:
  assumes "chat_move x y"
  shows "ch_messages y = ch_messages x \<or> (\<exists>m r. ch_messages y = ch_messages x @ [m] \<and> r \<in> set (ch_conversations x) \<and>
    cv_id r = ms_conversationId m \<and> ms_interactionEpoch m = cv_interactionEpoch r)"
  using assms
proof (cases rule: chat_move.cases)
  case (Accept r m a b)
  then have "ch_messages y = ch_messages x @ [m]" by (simp add: write_event_frame(3)[OF Accept(11)])
  with Accept(1,2,4) show ?thesis by metis
qed (simp_all add: write_event_frame)

lemma epoch_of_row: "conversations_ok db \<Longrightarrow> r \<in> set (ch_conversations db) \<Longrightarrow> epoch_of (cv_id r) db = Some (cv_interactionEpoch r)"
  using row_find_distinct[of cv_id "ch_conversations db" r] by (simp add: epoch_of_def conversations_ok_def)

lemma pair_of:
  assumes "conversations_ok db" and "r \<in> set (ch_conversations db)" and "map mb_userId (members_of (cv_id r) db) = [a, b]"
  shows "cv_pairKey r = pair_key a b"
proof -
  from assms(1) have "\<forall>r \<in> set (ch_conversations db). \<exists>x y. x \<noteq> y \<and>
      map mb_userId (members_of (cv_id r) db) = [x, y] \<and> cv_pairKey r = pair_key x y"
    unfolding conversations_ok_def by (elim conjE)
  with assms(2) obtain x y where "map mb_userId (members_of (cv_id r) db) = [x, y]" "cv_pairKey r = pair_key x y" by metis
  with assms(3) show ?thesis by simp
qed

lemma moves_fence:
  assumes "chat_move\<^sup>*\<^sup>* x y" and "chat_ok x" and "epoch_of c x = Some e1"
  shows "\<forall>m \<in> set (ch_messages y). ms_conversationId m = c \<longrightarrow> ms_interactionEpoch m < e1 \<longrightarrow> m \<in> set (ch_messages x)"
  using assms(1)
proof (induction rule: rtranclp_induct)
  case base
  then show ?case by simp
next
  case (step y z)
  have "chat_later x y" by (rule moves_later[OF step(1) assms(2)])
  with assms(3) obtain e' where e: "epoch_of c y = Some e'" "e1 \<le> e'" unfolding chat_later_def by blast
  have "conversations_ok y" using moves_ok[OF step(1) assms(2)] by (simp add: chat_ok_def)
  note row = epoch_of_row[OF this]
  from move_messages_new[OF step(2)] step(3) show ?case
  proof (elim disjE exE conjE)
    fix m r assume z: "ch_messages z = ch_messages y @ [m]" "r \<in> set (ch_conversations y)"
      "cv_id r = ms_conversationId m" "ms_interactionEpoch m = cv_interactionEpoch r"
    have "\<not> ms_interactionEpoch m < e1" if "ms_conversationId m = c"
      using row[OF z(2)] z(3,4) e that by simp
    with step(3) z(1) show ?thesis by auto
  qed simp
qed

text \<open>
  C32: a block ends what was signed before it. If a device was told epoch \<open>e\<close> for a conversation and
  then one of its two users blocked the other, no message of epoch \<open>e\<close> or before is accepted in the
  conversation any more, also not after the block is taken back.
\<close>

theorem block_fences_epoch:
  assumes "chat_ok db" and "chat_run P qs [db] = (answers, hist)"
    and "prepareSend u c d (hd hist) = Inr e" and "map mb_userId (members_of c (hd hist)) = [a, b]"
    and "handle_chat P q hist = (ans, db1)"
    and "hasBlocked a b db1 \<and> \<not> hasBlocked a b (hd hist) \<or> hasBlocked b a db1 \<and> \<not> hasBlocked b a (hd hist)"
    and "chat_run P qs' (db1 # hist) = (answers', hist')"
  shows "\<forall>m \<in> set (ch_messages (hd hist')). ms_conversationId m = c \<longrightarrow> ms_interactionEpoch m \<le> e \<longrightarrow>
    m \<in> set (ch_messages (hd hist))"
proof -
  have h: "history_ok hist" using run_history[OF history_start[OF assms(1)] assms(2)] by blast
  have h1: "history_ok (db1 # hist)" by (rule history_step[OF h assms(5)])
  have db1: "db1 = snd (handle_chat P q hist)" using assms(5) by simp
  have ok: "conversations_ok (hd hist)" "chat_ok db1" using h h1 by (auto simp: history_ok_def chat_ok_def)
  from assms(3) obtain r where r: "row_find cv_id c (ch_conversations (hd hist)) = Some r" "e = cv_interactionEpoch r"
    by (auto simp: prepareSend_def rbind_eq_Inr the_row_eq split: if_splits)
  have rc: "r \<in> set (ch_conversations (hd hist))" "cv_id r = c" using row_find_Some[OF r(1)] by auto
  have key: "cv_pairKey r = pair_key a b"
    by (rule pair_of[OF ok(1) rc(1) assms(4)[folded rc(2)]])
  have "ch_blocks db1 \<noteq> ch_blocks (hd hist)" using assms(6) by (auto simp: hasBlocked_def)
  then have "block_change (hd hist) db1" using handle_blocks[OF h, of P q] db1 by simp
  then obtain v w bs where bump: "db1 = bumpDirectInteractionEpoch v w ((hd hist)\<lparr>ch_blocks := bs\<rparr>)"
    and same: "\<forall>x y. {x, y} \<noteq> {v, w} \<longrightarrow> hasBlocked x y db1 = hasBlocked x y (hd hist)"
    unfolding block_change_def by blast
  have "{a, b} = {v, w}"
  proof (rule ccontr)
    assume n: "{a, b} \<noteq> {v, w}"
    then have "{b, a} \<noteq> {v, w}" by (simp add: insert_commute)
    from same[rule_format, OF n] same[rule_format, OF this] assms(6) show False by simp
  qed
  then have "pair_key v w = pair_key a b" using pair_key_sym[of a b] by (auto simp: doubleton_eq_iff)
  then have "epoch_of c db1 = Some (e + 1)"
    unfolding bump epoch_of_bump using r key by simp
  moreover obtain new where n: "history_ok hist'" "hist' = new @ db1 # hist"
    using run_history[OF h1 assms(7)] by blast
  have "chat_move\<^sup>*\<^sup>* db1 (hd hist')" using history_moves[of new "db1 # hist"] n by simp
  ultimately have "\<forall>m \<in> set (ch_messages (hd hist')). ms_conversationId m = c \<longrightarrow> ms_interactionEpoch m < e + 1 \<longrightarrow>
      m \<in> set (ch_messages db1)" using moves_fence ok(2) by blast
  moreover have "ch_messages db1 = ch_messages (hd hist)" by (simp add: bump)
  ultimately show ?thesis by auto
qed

section \<open>Replays\<close>

lemma sorted_strings_unique:
  assumes "sorted_wrt (\<lambda>a b. string_cmp a b \<le> 0) xs" and "sorted_wrt (\<lambda>a b. string_cmp a b \<le> 0) ys" and "mset xs = mset ys"
  shows "xs = ys"
  using assms
proof (induction xs arbitrary: ys)
  case Nil
  then show ?case by simp
next
  case (Cons x xs)
  from Cons.prems(3) obtain y ys' where y: "ys = y # ys'" by (cases ys) auto
  have "x \<in> set ys" "y \<in> set (x # xs)"
    using mset_eq_setD[OF Cons.prems(3)] y by auto
  then have "x = y" using Cons.prems(1,2) string_cmp_both[of x y] y by auto
  with Cons y show ?case by simp
qed

lemma js_sort_strings: "mset xs = mset ys \<Longrightarrow> js_sort string_cmp xs = js_sort string_cmp ys"
  using comparator.sorted_js_sort[OF comparator_string] by (intro sorted_strings_unique) simp_all

lemma replay_envelopes:
  assumes "distinct (map wd_recipientDeviceId envelopes)"
  shows "sameReplayEnvelopes (map (envelope_row_of d) envelopes) envelopes"
proof -
  have "map_of (map (\<lambda>x. (wd_recipientDeviceId x, x)) envelopes) (wd_recipientDeviceId e) = Some e"
    if "e \<in> set envelopes" for e
    using assms that by (intro map_of_is_SomeI) (auto simp: comp_def)
  with assms show ?thesis by (simp add: sameReplayEnvelopes_def list_all_iff envelope_row_of_def)
qed

lemma readMentions_valid: "list_all mention_valid (ms_mentions m) \<Longrightarrow>
    readMentions m = js_sort (cmp_on int_cmp (\<lambda>v. int (mv_startOffset v))) (ms_mentions m)"
  unfolding readMentions_def by (rule filter_True) (simp add: list_all_iff mention_valid_def)

lemma replay_mentions:
  assumes "list_all mention_valid (ms_mentions m)"
    and "mset (map stored_canonical (ms_mentions m)) = mset (map input_canonical incoming)"
  shows "sameReplayMentions (readMentions m) incoming"
proof -
  have "length (ms_mentions m) = length incoming" using mset_eq_length[OF assms(2)] by simp
  moreover have "mset (map stored_canonical (readMentions m)) = mset (map input_canonical incoming)"
    using assms(2) by (simp add: readMentions_valid[OF assms(1)])
  ultimately show ?thesis
    using js_sort_strings by (simp add: sameReplayMentions_def readMentions_valid[OF assms(1)])
qed

lemma find_middle: "\<forall>x \<in> set xs. \<not> Q x \<Longrightarrow> Q m \<Longrightarrow> find Q (xs @ m # zs) = Some m"
  by (induction xs) auto

text \<open>What was added once is found by a later send with the same client id.\<close>

lemma added_later:
  assumes ok: "conversations_ok db" "conversations_ok s" and later: "chat_later db s"
    and added: "added_by_send actor c input mentions i db m" and rows: "ch_messages s = ch_messages db @ m # zs"
  shows "member_row c actor s \<noteq> None" "find_message c actor (sm_clientMessageId input) s = Some m"
    "\<exists>r. requireMemberConversation actor c s = Inr r" "c \<in> cv_id ` set (ch_conversations db)"
proof -
  from added obtain b r now where a: "m = sent_message actor c (sm_senderDeviceId input) input mentions i now r"
    "r \<in> set (ch_conversations db)" "cv_id r = c" "message_unique m (ch_messages db)"
    "map mb_userId (members_of c db) \<in> {[actor, b], [b, actor]}"
    unfolding added_by_send_def by auto
  show c: "c \<in> cv_id ` set (ch_conversations db)" using a(2,3) by blast
  from members_later[OF ok later this] obtain x y where xy: "map mb_userId (members_of c db) = [x, y]"
    "map mb_userId (members_of c s) = [x, y]" by metis
  then have "actor \<in> set (map mb_userId (members_of c s))" using a(5) by auto
  then show mem: "member_row c actor s \<noteq> None" by (auto simp: member_row_def members_of_def find_None_iff)
  obtain ks where "chat_keys s = chat_keys db @ ks" using later unfolding chat_later_def by blast
  then have "c \<in> cv_id ` set (ch_conversations s)" using c unfolding ids_of_keys by auto
  then have "find (\<lambda>r. cv_id r = c \<and> member_row c actor s \<noteq> None) (ch_conversations s) \<noteq> None"
    using mem by (auto simp: find_None_iff)
  then show "\<exists>r. requireMemberConversation actor c s = Inr r" by (auto simp: requireMemberConversation_def the_row_eq)
  have "\<forall>x \<in> set (ch_messages db). \<not> (ms_conversationId x = c \<and> ms_senderUserId x = actor \<and>
      ms_clientMessageId x = sm_clientMessageId input)"
    using a(1,4) by (auto simp: message_unique_def)
  then show "find_message c actor (sm_clientMessageId input) s = Some m"
    unfolding find_message_def rows by (rule find_middle) (simp add: a(1))
qed

lemma replay_of_added:
  assumes "conversations_ok db" "conversations_ok s" "chat_later db s"
    and "added_by_send actor c input mentions i db m" "ch_messages s = ch_messages db @ m # zs"
  shows "findExactReplay actor c input s \<noteq> Inr None"
    and "mset (map stored_canonical mentions) = mset (map input_canonical (sm_mentions input)) \<Longrightarrow>
      findExactReplay actor c input s = Inr (Some (toMessageView m (sm_senderDeviceId input) (readMentions m)))"
proof -
  note f = added_later[OF assms]
  from assms(4) obtain r now where m: "m = sent_message actor c (sm_senderDeviceId input) input mentions i now r"
    "message_unique m (ch_messages db)" "list_all mention_valid mentions" "cv_interactionEpoch r = sm_interactionEpoch input"
    unfolding added_by_send_def by blast
  show "findExactReplay actor c input s \<noteq> Inr None" using f(1,2) by (simp add: findExactReplay_def)
  assume mentions: "mset (map stored_canonical mentions) = mset (map input_canonical (sm_mentions input))"
  have "sameReplayMentions (readMentions m) (sm_mentions input)"
    using m(3) mentions by (intro replay_mentions) (simp_all add: m(1))
  moreover have "sameReplayEnvelopes (ms_envelopes m) (sm_envelopes input)"
    using m(2) by (simp add: m(1) message_unique_def comp_def envelope_row_of_def replay_envelopes)
  ultimately show "findExactReplay actor c input s = Inr (Some (toMessageView m (sm_senderDeviceId input) (readMentions m)))"
    using f(1,2) by (simp add: findExactReplay_def) (simp add: m(1))
qed

lemma resend_silent:
  assumes "findExactReplay actor c input db \<noteq> Inr None"
  shows "snd (sendWithStatus C opts lc f actor c input mentions i now snap db) = db"
proof (cases "send_checks C opts lc actor c input snap")
  case (Inr checked)
  have "snd (chat_tx f (send_tx actor c input mentions device ids i now) db) = db" for device ids
  proof (rule chat_tx_frame[where g = "\<lambda>x. x"])
    fix db' v assume "send_tx actor c input mentions device ids i now db = Inr (db', v)"
    moreover obtain w replayed where "v = (w, replayed)" by (cases v)
    ultimately have "send_tx actor c input mentions device ids i now db = Inr (db', w, replayed)" by simp
    then show "db' = db" using assms by (cases rule: send_tx_Inr) simp_all
  qed
  with Inr show ?thesis
    by (cases checked) (auto simp: sendWithStatus_def snd_send_commit split: prod.split)
qed (simp add: sendWithStatus_def)

text \<open>
  C33: a send takes effect exactly once. When a send adds a message, sending the same again at any
  later time, with any older reads and any faults, leaves the tables as they are; and when the
  message's mentions are those of the request, the answer of a repetition that reads the current
  state is that message, marked as a replay, whether or not the first answer arrived.
\<close>

theorem send_exactly_once:
  assumes "chat_ok db" and "chat_run P qs [db] = (answers, hist)"
    and "cq_action q = Do_Send c input mentions i k f" and "handle_chat P q hist = (ans, db1)"
    and "ch_messages db1 \<noteq> ch_messages (hd hist)" and "chat_run P qs' (db1 # hist) = (answers', hist')"
  shows "\<exists>m. ch_messages db1 = ch_messages (hd hist) @ [m] \<and> ms_id m = i \<and>
    (\<forall>q' mentions' i' k' f'. cq_actor q' = cq_actor q \<longrightarrow> cq_action q' = Do_Send c input mentions' i' k' f' \<longrightarrow>
      snd (handle_chat P q' hist') = hd hist' \<and>
      (mset (map stored_canonical mentions) = mset (map input_canonical (sm_mentions input)) \<longrightarrow> k' = 0 \<longrightarrow>
        fst (handle_chat P q' hist') = Chat_Message (toMessageView m (sm_senderDeviceId input) (readMentions m)) True))"
proof -
  let ?a = "cq_actor q" and ?s = "hd hist'"
  have h: "history_ok hist" using run_history[OF history_start[OF assms(1)] assms(2)] by blast
  have h1: "history_ok (db1 # hist)" by (rule history_step[OF h assms(4)])
  from run_history[OF h1 assms(6)] obtain new where n: "history_ok hist'" "hist' = new @ db1 # hist" by blast
  from handle_messages[OF h, of P q] assms(3-5) obtain m where m: "ch_messages db1 = ch_messages (hd hist) @ [m]"
    "added_by_send ?a c input mentions i (hd hist) m" by auto
  have "chat_move\<^sup>*\<^sup>* db1 ?s" using history_moves[of new "db1 # hist"] n by simp
  moreover have ok: "chat_ok (hd hist)" "chat_ok db1" "chat_ok ?s"
    using history_hd[OF h] history_hd[OF h1] history_hd[OF n(1)] by simp_all
  ultimately have "chat_later db1 ?s" by (intro moves_later)
  then obtain zs where zs: "ch_messages ?s = ch_messages (hd hist) @ m # zs" using m(1) by (auto simp: chat_later_def)
  have "chat_move\<^sup>*\<^sup>* (hd hist) ?s"
    using history_moves[of "new @ [db1]" hist] n h by (simp add: history_ok_def)
  then have later: "chat_later (hd hist) ?s" using ok(1) by (rule moves_later)
  have conv: "conversations_ok (hd hist)" "conversations_ok ?s" using ok by (simp_all add: chat_ok_def)
  note replay = replay_of_added[OF conv later m(2) zs]
  obtain r0 where member: "requireMemberConversation ?a c ?s = Inr r0" using added_later(3)[OF conv later m(2) zs] by blast
  have i: "ms_id m = i" using m(2) by (auto simp: added_by_send_def)
  have snap0: "state_ago 0 hist' = ?s" using n(2) by (simp add: state_ago_def hd_conv_nth)
  have "snd (handle_chat P q' hist') = ?s" if "cq_actor q' = ?a" "cq_action q' = Do_Send c input mentions' i' k' f'"
    for q' mentions' i' k' f'
    using that resend_silent[OF replay(1)] by (simp add: handle_chat_def Let_def)
  moreover have "fst (handle_chat P q' hist') = Chat_Message (toMessageView m (sm_senderDeviceId input) (readMentions m)) True"
    if "cq_actor q' = ?a" "cq_action q' = Do_Send c input mentions' i' 0 f'"
      "mset (map stored_canonical mentions) = mset (map input_canonical (sm_mentions input))" for q' mentions' i' f'
    using that(1,2) by (simp add: handle_chat_def Let_def snap0 sendWithStatus_def send_checks_def member
        replay(2)[OF that(3)] answer_chat_def)
  ultimately show ?thesis using m(1) i by blast
qed

section \<open>Read positions\<close>

lemma member_row_find: "member_row c u d = row_find (\<lambda>b. (mb_conversationId b, mb_userId b)) (c, u) (ch_members d)"
  by (simp add: member_row_def row_find_def)

lemma member_row_set:
  assumes "distinct (map (\<lambda>b. (mb_conversationId b, mb_userId b)) (ch_members db))" and "\<And>b. same_member b (f b)"
  shows "member_row c' u' (set_member c u f db) =
    (if (c', u') = (c, u) then map_option f (member_row c' u' db) else member_row c' u' db)"
proof -
  let ?key = "\<lambda>b. (mb_conversationId b, mb_userId b)"
  have "row_find ?key (c', u') (row_update ?key (c, u) f (ch_members db)) =
      (if (c', u') = (c, u) then map_option f (row_find ?key (c', u') (ch_members db)) else row_find ?key (c', u') (ch_members db))"
    by (rule row_find_row_update) (use assms(2) in \<open>simp add: same_member_def\<close>)
  then show ?thesis unfolding member_row_find set_member_def by simp
qed

lemma member_conversation:
  assumes "conversations_ok db" and "member_row c actor db = Some b"
  obtains r where "b \<in> set (ch_members db)" "mb_conversationId b = c" "r \<in> set (ch_conversations db)" "cv_id r = c"
proof -
  have b: "b \<in> set (ch_members db)" "mb_conversationId b = c"
    using assms(2) by (auto simp: member_row_def dest: findD)
  have "\<forall>b \<in> set (ch_members db). mb_conversationId b \<in> cv_id ` set (ch_conversations db)"
    using assms(1) unfolding conversations_ok_def by (elim conjE)
  with b that show thesis by auto
qed

text \<open>Messages are numbered from 1, so one that was never read counts as read up to 0.\<close>

lemma unread_count:
  assumes "chat_ok db" and "member_row c actor db = Some b"
  shows "readUnreadCount actor c db = length (filter (\<lambda>m. ms_conversationId m = c \<and> ms_senderUserId m \<noteq> actor \<and>
    read_before b < ms_sequence m) (ch_messages db))"
proof -
  have ok: "conversations_ok db" "messages_ok db" using assms(1) by (simp_all add: chat_ok_def)
  from member_conversation[OF ok(1) assms(2)] obtain r where r: "r \<in> set (ch_conversations db)" "cv_id r = c" by metis
  have "0 < ms_sequence m" if "m \<in> set (ch_messages db)" "ms_conversationId m = c" for m
    using sequence_bound[OF ok(2) r(1) that(1)] that(2) r(2) by simp
  then show ?thesis
    by (auto simp: readUnreadCount_def assms(2) read_before_def split: option.split intro!: arg_cong[where f = length] filter_cong)
qed

lemma length_filter_mono: "(\<And>x. x \<in> set xs \<Longrightarrow> Q x \<Longrightarrow> R x) \<Longrightarrow> length (filter Q xs) \<le> length (filter R xs)"
  by (induction xs) auto


section \<open>One-time prekeys\<close>

definition keys_of :: "chat_answer \<Rightarrow> (string \<times> nat) list" where
  "keys_of ans = (case ans of Chat_Bundles bundles \<Rightarrow> handed bundles | _ \<Rightarrow> [])"

lemma keys_of_simps [simp]:
  "keys_of Chat_Done = []" "keys_of (Chat_Message v r) = []" "keys_of (Chat_Failed e) = []"
  "keys_of (Chat_Bundles bundles) = handed bundles"
  by (simp_all add: keys_of_def)

lemma keys_of_answer:
  "(\<And>v. keys_of (f v) = []) \<Longrightarrow> keys_of (fst (answer_chat f res)) = []"
  by (auto simp: answer_chat_def split: prod.split sum.split)

lemma used_later: "chat_later db db' \<Longrightarrow> used_keys (ch_otks db) \<subseteq> used_keys (ch_otks db')"
  unfolding chat_later_def used_keys_def by blast

lemma handle_keys:
  assumes "history_ok hist" and "handle_chat P q hist = (ans, db')"
  shows "distinct (keys_of ans)" "set (keys_of ans) \<inter> used_keys (ch_otks (hd hist)) = {}"
    "used_keys (ch_otks (hd hist)) \<union> set (keys_of ans) \<subseteq> used_keys (ch_otks db')"
proof -
  have h: "chat_ok (hd hist)" by (rule history_hd[OF assms(1)])
  have m: "chat_move\<^sup>*\<^sup>* (hd hist) db'" using handle_moves[OF assms(1), of P q] assms(2) by simp
  have l: "used_keys (ch_otks (hd hist)) \<subseteq> used_keys (ch_otks db')" by (rule used_later[OF moves_later[OF m h]])
  have "distinct (keys_of ans) \<and> set (keys_of ans) \<inter> used_keys (ch_otks (hd hist)) = {} \<and> set (keys_of ans) \<subseteq> used_keys (ch_otks db')"
  proof (cases "\<exists>target. cq_action q = Do_Bundles target")
    case True
    then obtain target where t: "cq_action q = Do_Bundles target" by blast
    have "device_keys_ok (hd hist)" using h by (simp add: chat_ok_def)
    note c = consumePrekeyBundles_steps[OF prekeyBundles_Inr this]
    show ?thesis
    proof (cases "prekeyBundles (cq_actor q) target (cq_now q) (hd hist)")
      case (Inl e)
      with assms(2) t show ?thesis by (auto simp: handle_chat_def Let_def chat_tx_def answer_chat_def keys_of_def)
    next
      case (Inr r)
      obtain d bundles where "r = (d, bundles)" by (cases r)
      with Inr assms(2) t have "ans = Chat_Bundles bundles" "db' = d" "prekeyBundles (cq_actor q) target (cq_now q) (hd hist) = Inr (d, bundles)"
        by (auto simp: handle_chat_def Let_def chat_tx_def answer_chat_def)
      with c[OF this(3)] show ?thesis by (simp add: keys_of_def)
    qed
  next
    case False
    have "ans = fst (handle_chat P q hist)" using assms(2) by simp
    also have "keys_of \<dots> = []"
      unfolding handle_chat_def Let_def using False
      by (cases "cq_action q") (auto intro!: keys_of_answer split: prod.split)
    finally show ?thesis by simp
  qed
  with l show "distinct (keys_of ans)" "set (keys_of ans) \<inter> used_keys (ch_otks (hd hist)) = {}"
    "used_keys (ch_otks (hd hist)) \<union> set (keys_of ans) \<subseteq> used_keys (ch_otks db')" by auto
qed

lemma run_keys:
  assumes "history_ok hist" and "chat_run P qs hist = (answers, hist')"
  shows "distinct (concat (map keys_of answers)) \<and> set (concat (map keys_of answers)) \<inter> used_keys (ch_otks (hd hist)) = {}"
  using assms
proof (induction qs arbitrary: hist answers)
  case Nil
  then show ?case by simp
next
  case (Cons q qs)
  obtain ans db where q: "handle_chat P q hist = (ans, db)" by fastforce
  obtain rest where r: "chat_run P qs (db # hist) = (rest, hist')" "answers = ans # rest"
    using Cons.prems(2) q by (auto split: prod.splits)
  note k = handle_keys[OF Cons.prems(1) q]
  from Cons.IH[OF history_step[OF Cons.prems(1) q] r(1)] k show ?case
    unfolding r(2) by (auto simp del: set_concat)
qed

text \<open>
  C35: a one-time prekey is handed out at most once. Over any history of requests, registrations and
  rotations that publish the same key numbers again included, the keys in all prekey bundles that
  were answered are different from each other, and none had been used before.
\<close>

theorem prekeys_handed_once:
  assumes "chat_ok db" and "chat_run P qs [db] = (answers, hist)"
  shows "distinct (concat (map keys_of answers)) \<and>
    set (concat (map keys_of answers)) \<inter> used_keys (ch_otks db) = {}"
  using run_keys[OF history_start[OF assms(1)] assms(2)] by simp

section \<open>A sample history\<close>

text \<open>
  Two users with a device each and a chat; one sends a message whose answer is lost, the other
  blocks and unblocks. For the sample every signature passes.
\<close>

definition sample_device_row :: "string \<Rightarrow> string \<Rightarrow> int \<Rightarrow> crypto_device" where
  "sample_device_row d u t = \<lparr>cd_id = d, cd_userId = u, cd_identityEd25519Public = [], cd_identityX25519Public = [],
    cd_signedPrekeyId = 1, cd_signedPrekeyPublic = [], cd_signedPrekeySignature = [], cd_label = None,
    cd_revokedAt = None, cd_createdAt = t\<rparr>"

definition sample_member :: "string \<Rightarrow> chat_member" where
  "sample_member u = \<lparr>mb_conversationId = ''c'', mb_userId = u, mb_lastReadAt = None, mb_lastReadMessageSequence = None,
    mb_shareOwnHistoryWithVimla = False, mb_includePeerHistoryWhenInvoking = False\<rparr>"

definition sample_chat :: chat_db where
  "sample_chat = \<lparr>ch_users = [''a'', ''b''],
    ch_handles = [\<lparr>hd_id = ''ha'', hd_handle = ''ann'', hd_normalized = ''ann'', hd_kind = ''USER'',
        hd_status = ''ACTIVE'', hd_userId = Some ''a''\<rparr>,
      \<lparr>hd_id = ''hb'', hd_handle = ''bob'', hd_normalized = ''bob'', hd_kind = ''USER'',
        hd_status = ''ACTIVE'', hd_userId = Some ''b''\<rparr>],
    ch_profiles = [\<lparr>pf_userId = ''a'', pf_handleId = ''ha'', pf_displayName = ''A'', pf_avatarUrl = None\<rparr>,
      \<lparr>pf_userId = ''b'', pf_handleId = ''hb'', pf_displayName = ''B'', pf_avatarUrl = None\<rparr>],
    ch_blocks = [], ch_devices = [sample_device_row ''da'' ''a'' 2, sample_device_row ''db'' ''b'' 3],
    ch_otks = [\<lparr>ok_deviceId = ''da'', ok_keyId = 1, ok_publicKey = ''k'', ok_consumedAt = None\<rparr>,
      \<lparr>ok_deviceId = ''db'', ok_keyId = 1, ok_publicKey = ''k'', ok_consumedAt = None\<rparr>],
    ch_conversations = [\<lparr>cv_id = ''c'', cv_pairKey = ''a:b'', cv_surface = Some (''s'', ''DIRECT''), cv_createdAt = 1,
      cv_lastMessageAt = 1, cv_lastMessageSequence = 0, cv_interactionEpoch = 0\<rparr>],
    ch_members = [sample_member ''a'', sample_member ''b''], ch_messages = [], ch_sync = [], ch_events = []\<rparr>"

definition sample_params :: chat_params where
  "sample_params = \<lparr>cp_crypto = sample_crypto\<lparr>cr_verify := (\<lambda>_ _ _. True)\<rparr>, cp_options = DEFAULTS,
    cp_localeCompare = string_cmp\<rparr>"

definition sample_wire :: "string \<Rightarrow> nat \<Rightarrow> wire_dto" where
  "sample_wire d n = \<lparr>we_headerB64 = [], we_ciphertextB64 = [], we_dhPublicB64 = [], we_messageNumber = n,
    we_previousChainLength = 0, we_senderSignatureB64 = [], we_x3dhInit = None, wd_recipientDeviceId = d\<rparr>"

definition sample_send :: "string \<Rightarrow> nat \<Rightarrow> send_message" where
  "sample_send k n = \<lparr>sm_clientMessageId = k, sm_contentCommitmentB64 = None, sm_senderDeviceId = ''da'',
    sm_interactionEpoch = 0, sm_kind = OPERATOR_INVOKE, sm_envelopes = [sample_wire ''da'' n, sample_wire ''db'' n],
    sm_mentions = []\<rparr>"

definition ask :: "string \<Rightarrow> int \<Rightarrow> chat_action \<Rightarrow> chat_request" where
  "ask u t x = \<lparr>cq_actor = u, cq_now = t, cq_action = x\<rparr>"

definition sample_first :: chat_request where
  "sample_first = ask ''a'' 5 (Do_Send ''c'' (sample_send ''x'' 0) [] ''m'' 0 (Fail_After (ChatDbError ''P1017'')))"

lemma sample_chat_ok: "chat_ok sample_chat"
  unfolding chat_ok_def
proof (intro conjI)
  have k: "pair_key ''a'' ''b'' = ''a:b''" by code_simp
  show "conversations_ok sample_chat"
    by (simp add: conversations_ok_def sample_chat_def members_of_def sample_member_def k[symmetric])
  show "messages_ok sample_chat" "reads_ok sample_chat" "events_ok sample_chat"
  by (simp_all add: sample_chat_def sample_member_def messages_ok_def message_rows_ok_def reads_ok_def numbered_def
      events_ok_def sync_ok_def last_position_def row_find_def positions_def created_events_def)
  show "device_keys_ok sample_chat" by (simp add: device_keys_ok_def sample_chat_def sample_device_row_def otk_key_def)
qed

lemma b64_empty: "b64ToBytes [] = Some []" by code_simp

lemma sample_checks:
  "send_checks (cp_crypto sample_params) (cp_options sample_params) lc ''a'' ''c'' (sample_send k 0) sample_chat =
    Inr (Inr (sample_device_row ''da'' ''a'' 2, [''a'', ''b'']))"
  by (simp add: send_checks_def sample_chat_def requireMemberConversation_def member_row_def sample_member_def
    findExactReplay_def find_message_def requireOwnActiveDevice_def requireOwnDevice_def sample_send_def
    sample_device_row_def sample_params_def DEFAULTS_def sample_wire_def members_of_def assertEnvelope_def
    b64_empty verifyDirectMessage_def guard_res_def row_find_def)

definition sample_sent :: chat_db where
  "sample_sent = snd (send_commit (Fail_After (ChatDbError ''P1017'')) ''a'' ''c'' (sample_send ''x'' 0) []
    (sample_device_row ''da'' ''a'' 2) [''a'', ''b''] ''m'' 5 sample_chat)"

definition sample_block :: chat_request where
  "sample_block = ask ''b'' 6 (Do_Block ''@Ann'' ''k'')"

definition sample_blocked :: chat_db where
  "sample_blocked = snd (chat_tx No_Fault (blockUser ''b'' ''@Ann'' ''k'' 6) sample_sent)"

definition sample_unblock :: chat_request where
  "sample_unblock = ask ''b'' 7 (Do_Unblock ''ann'')"

definition sample_unblocked :: chat_db where
  "sample_unblocked = snd (chat_tx No_Fault (unblockUser ''b'' ''ann'') sample_blocked)"

lemma sample_steps:
  "snd (handle_chat sample_params sample_first [sample_chat]) = sample_sent"
  "snd (handle_chat sample_params sample_block [sample_sent, sample_chat]) = sample_blocked"
  "snd (handle_chat sample_params sample_unblock [sample_blocked, sample_sent, sample_chat]) = sample_unblocked"
  by (simp_all add: handle_chat_def Let_def sample_first_def sample_block_def sample_unblock_def ask_def state_ago_def
      sendWithStatus_def sample_checks sample_sent_def sample_blocked_def sample_unblocked_def)

lemma sample_run1: "chat_run sample_params [sample_first] [sample_chat] =
    ([fst (handle_chat sample_params sample_first [sample_chat])], [sample_sent, sample_chat])"
  using sample_steps(1) by (cases "handle_chat sample_params sample_first [sample_chat]") simp

lemma sample_sent_ok: "chat_ok sample_sent"
  using run_history[OF history_start[OF sample_chat_ok] sample_run1] by (simp add: history_ok_def)

lemma sample_run2: "\<exists>answers. chat_run sample_params [sample_first, sample_block] [sample_chat] =
    (answers, [sample_blocked, sample_sent, sample_chat])"
  using sample_steps(1,2) by (cases "handle_chat sample_params sample_first [sample_chat]";
      cases "handle_chat sample_params sample_block [sample_sent, sample_chat]") simp

lemma sample_values:
  "map ms_id (ch_messages sample_sent) = [''m'']" "ch_messages sample_chat = []"
  "map mb_userId (members_of ''c'' sample_sent) = [''a'', ''b'']" "map mb_userId (members_of ''c'' sample_blocked) = [''a'', ''b'']"
  "hasBlocked ''b'' ''a'' sample_blocked" "\<not> hasBlocked ''b'' ''a'' sample_sent"
  "prepareSend ''a'' ''c'' ''da'' sample_sent = Inr 0" "prepareSend ''a'' ''c'' ''da'' sample_unblocked = Inr 2"
  "map ms_id (ch_messages sample_blocked) = [''m'']"
  by code_simp+


lemma blocked_pair_silent_witness:
  "hasBlocked ''b'' ''a'' sample_blocked \<and>
    filter (\<lambda>m. ms_conversationId m = ''c'') (ch_messages (snd (handle_chat sample_params sample_first [sample_blocked, sample_sent, sample_chat]))) =
    filter (\<lambda>m. ms_conversationId m = ''c'') (ch_messages sample_blocked)"
proof -
  obtain answers where "chat_run sample_params [sample_first, sample_block] [sample_chat] =
    (answers, [sample_blocked, sample_sent, sample_chat])" using sample_run2 by blast
  from blocked_pair_silent[OF sample_chat_ok this, where c = "''c''" and a = "''a''" and b = "''b''" and q = sample_first]
    sample_values(4,5)
  show ?thesis by simp
qed

lemma block_fences_epoch_witness:
  "prepareSend ''a'' ''c'' ''da'' sample_sent = Inr 0 \<and> prepareSend ''a'' ''c'' ''da'' sample_unblocked = Inr 2 \<and>
    set (filter (\<lambda>m. ms_conversationId m = ''c'' \<and> ms_interactionEpoch m \<le> 0) (ch_messages sample_unblocked)) \<subseteq>
      set (ch_messages sample_sent)"
proof -
  obtain ans where a: "handle_chat sample_params sample_block [sample_sent, sample_chat] = (ans, sample_blocked)"
    using sample_steps(2) by (metis prod.collapse)
  obtain ans' where b: "chat_run sample_params [sample_unblock] (sample_blocked # [sample_sent, sample_chat]) =
      (ans', [sample_unblocked, sample_blocked, sample_sent, sample_chat])"
    using sample_steps(3) by (cases "handle_chat sample_params sample_unblock [sample_blocked, sample_sent, sample_chat]") simp
  from block_fences_epoch[OF sample_chat_ok sample_run1, of "''a''" "''c''" "''da''" 0 "''a''" "''b''", OF _ _ a _ b]
    sample_values(3,5,6,7,8) show ?thesis by auto
qed

lemma send_exactly_once_witness:
  "\<exists>m. ch_messages sample_sent = [m] \<and> snd (handle_chat sample_params sample_first [sample_sent, sample_chat]) = sample_sent \<and>
    fst (handle_chat sample_params sample_first [sample_sent, sample_chat]) =
      Chat_Message (toMessageView m ''da'' (readMentions m)) True"
proof -
  obtain ans where a: "handle_chat sample_params sample_first [sample_chat] = (ans, sample_sent)"
    using sample_steps(1) by (metis prod.collapse)
  have q: "cq_action sample_first = Do_Send ''c'' (sample_send ''x'' 0) [] ''m'' 0 (Fail_After (ChatDbError ''P1017''))"
    "sm_senderDeviceId (sample_send ''x'' 0) = ''da''" "sm_mentions (sample_send ''x'' 0) = []"
    by (simp_all add: sample_first_def ask_def sample_send_def)
  have n: "ch_messages sample_sent \<noteq> ch_messages (hd [sample_chat])" using sample_values(1,2) by auto
  have r: "chat_run sample_params [] [sample_chat] = ([], [sample_chat])"
    "chat_run sample_params [] (sample_sent # [sample_chat]) = ([], [sample_sent, sample_chat])" by simp_all
  from send_exactly_once[OF sample_chat_ok r(1) q(1) a n r(2)] obtain m where m: "ch_messages sample_sent = [m]"
    and again: "\<forall>q' mentions' i' k' f'. cq_actor q' = cq_actor sample_first \<longrightarrow>
      cq_action q' = Do_Send ''c'' (sample_send ''x'' 0) mentions' i' k' f' \<longrightarrow>
      snd (handle_chat sample_params q' [sample_sent, sample_chat]) = sample_sent \<and>
      (k' = 0 \<longrightarrow> fst (handle_chat sample_params q' [sample_sent, sample_chat]) =
        Chat_Message (toMessageView m ''da'' (readMentions m)) True)"
    using sample_values(2) by (auto simp: q(2,3))
  from again[rule_format, OF refl q(1)] m show ?thesis by simp
qed


definition sample_fetch :: chat_request where
  "sample_fetch = ask ''a'' 8 (Do_Bundles ''b'')"

lemma sample_fetched: "\<exists>answers hist. chat_run sample_params [sample_fetch, sample_fetch] [sample_chat] = (answers, hist) \<and>
    concat (map keys_of answers) = [(''db'', 1)]"
proof -
  let ?tx = "\<lambda>db. answer_chat Chat_Bundles (chat_tx No_Fault (prekeyBundles ''a'' ''b'' 8) db)"
  have h: "handle_chat sample_params sample_fetch hist = ?tx (hd hist)" for hist
    by (simp add: handle_chat_def Let_def sample_fetch_def ask_def)
  have "keys_of (fst (?tx sample_chat)) = [(''db'', 1)]" "keys_of (fst (?tx (snd (?tx sample_chat)))) = []"
    by code_simp+
  moreover obtain a1 d1 a2 d2 where "?tx sample_chat = (a1, d1)" "?tx d1 = (a2, d2)" by (metis prod.collapse)
  ultimately show ?thesis by (simp add: h)
qed

lemma prekeys_handed_once_witness:
  "\<exists>answers hist. chat_run sample_params [sample_fetch, sample_fetch] [sample_chat] = (answers, hist) \<and>
    concat (map keys_of answers) = [(''db'', 1)] \<and> distinct (concat (map keys_of answers))"
proof -
  obtain answers hist where "chat_run sample_params [sample_fetch, sample_fetch] [sample_chat] = (answers, hist)"
    "concat (map keys_of answers) = [(''db'', 1)]" using sample_fetched by blast
  with prekeys_handed_once[OF sample_chat_ok this(1)] show ?thesis by blast
qed

end
