(* ===== verification/Sync_Cursor.thy ===== *)
theory Sync_Cursor
  imports E2ee_Bytes
begin

text \<open>
  \<open>apps/api/src/sync/sync-cursor.codec.ts\<close>: the opaque cursor of the sync stream, a position and
  the head of the snapshot being read, signed for one user with HMAC-SHA256. The primitive
  \<open>hmac\<close> of \<open>node:crypto\<close> is an argument. A decoded payload with a byte above 127 is refused
  like any other text the pattern of a payload does not match.
\<close>

section \<open>The codec\<close>

datatype cursor_error = SyncCursorDecodeError | CursorZodError

record cursor_state =
  cs_position :: int
  cs_snapshotHead :: int

definition MAX_BIGINT_64 :: int where "MAX_BIGINT_64 = 9223372036854775807"

definition CURSOR_DOMAIN :: string where "CURSOR_DOMAIN = ''vimla-sync-cursor-v1''"

definition base64url :: "bytes \<Rightarrow> string" where
  "base64url bs = map (\<lambda>c. if c = CHR ''+'' then CHR ''-'' else if c = CHR ''/'' then CHR ''_'' else c)
    (filter (\<lambda>c. c \<noteq> CHR ''='') (bytesToB64 bs))"

text \<open>Node decodes either alphabet, skips other characters and drops an incomplete group.\<close>

definition base64url_value :: "char \<Rightarrow> nat option" where
  "base64url_value c = (if c = CHR ''-'' then Some 62 else if c = CHR ''_'' then Some 63 else b64_value c)"

definition base64url_decode :: "string \<Rightarrow> bytes" where
  "base64url_decode s = map of_nat (b64_groups (List.map_filter base64url_value s))"

definition url_char :: "char \<Rightarrow> bool" where
  "url_char c \<longleftrightarrow> c \<noteq> CHR ''+'' \<and> c \<noteq> CHR ''/'' \<and> base64url_value c \<noteq> None"

text \<open>\<open>cursor.split(".")\<close> into two parts, and the schema of a cursor.\<close>

definition split_at :: "char \<Rightarrow> string \<Rightarrow> string \<times> string" where
  "split_at sep s = (takeWhile (\<lambda>c. c \<noteq> sep) s, drop 1 (dropWhile (\<lambda>c. c \<noteq> sep) s))"

definition syncCursorSchema :: "string \<Rightarrow> bool" where
  "syncCursorSchema s \<longleftrightarrow> length s \<le> 512 \<and> CHR ''.'' \<in> set s \<and>
    (let (a, b) = split_at CHR ''.'' s in a \<noteq> [] \<and> b \<noteq> [] \<and> list_all url_char a \<and> list_all url_char b)"

definition assertCursorState :: "cursor_state \<Rightarrow> cursor_error + unit" where
  "assertCursorState state = guard_res
    (cs_position state < 0 \<or> cs_position state > MAX_BIGINT_64 \<or>
     cs_snapshotHead state < 0 \<or> cs_snapshotHead state > MAX_BIGINT_64 \<or>
     cs_snapshotHead state < cs_position state) SyncCursorDecodeError"

definition sign_cursor :: "(bytes \<Rightarrow> bytes \<Rightarrow> bytes) \<Rightarrow> string \<Rightarrow> string \<Rightarrow> string \<Rightarrow> string" where
  "sign_cursor hmac secret userId payload =
    base64url (hmac (utf8 secret) (utf8 CURSOR_DOMAIN @ [0] @ utf8 userId @ [0] @ utf8 payload))"

definition cursor_payload :: "cursor_state \<Rightarrow> string" where
  "cursor_payload state = ''1:'' @ decimal_of_int (cs_position state) @ '':'' @ decimal_of_int (cs_snapshotHead state)"

definition encodeCursor ::
    "(bytes \<Rightarrow> bytes \<Rightarrow> bytes) \<Rightarrow> string \<Rightarrow> string \<Rightarrow> cursor_state \<Rightarrow> cursor_error + string" where
  "encodeCursor hmac secret userId state =
    rbind (assertCursorState state) (\<lambda>_.
      let payload = cursor_payload state;
          cursor = base64url (utf8 payload) @ ''.'' @ sign_cursor hmac secret userId payload
      in if syncCursorSchema cursor then Inr cursor else Inl CursorZodError)"

text \<open>The pattern \<open>/^1:(0|[1-9]\d{0,18}):(0|[1-9]\d{0,18})$/\<close>.\<close>

definition ascii_text :: "bytes \<Rightarrow> string option" where
  "ascii_text bs = (if list_all (\<lambda>b. unat b < 128) bs then Some (map (\<lambda>b. char_of (unat b)) bs) else None)"

definition position_text :: "string \<Rightarrow> bool" where
  "position_text s \<longleftrightarrow> s = ''0'' \<or>
    (s \<noteq> [] \<and> length s \<le> 19 \<and> hd s \<noteq> CHR ''0'' \<and> list_all is_digit s)"

definition payload_match :: "string \<Rightarrow> (string \<times> string) option" where
  "payload_match payload =
    (if take 2 payload = ''1:'' \<and> CHR '':'' \<in> set (drop 2 payload) then
       (let (a, b) = split_at CHR '':'' (drop 2 payload) in
        if position_text a \<and> position_text b then Some (a, b) else None)
     else None)"

definition decodeCursor ::
    "(bytes \<Rightarrow> bytes \<Rightarrow> bytes) \<Rightarrow> string \<Rightarrow> string \<Rightarrow> string \<Rightarrow> cursor_error + cursor_state" where
  "decodeCursor hmac secret userId cursor =
    (if \<not> syncCursorSchema cursor then Inl SyncCursorDecodeError
     else let (encodedPayload, encodedSignature) = split_at CHR ''.'' cursor;
              supplied = base64url_decode encodedSignature in
     case ascii_text (base64url_decode encodedPayload) of
       None \<Rightarrow> Inl SyncCursorDecodeError
     | Some payload \<Rightarrow>
         let expected = base64url_decode (sign_cursor hmac secret userId payload) in
         if length supplied \<noteq> length expected \<or> \<not> constantTimeEqual supplied expected
         then Inl SyncCursorDecodeError
         else (case payload_match payload of
             None \<Rightarrow> Inl SyncCursorDecodeError
           | Some (positionText, snapshotHeadText) \<Rightarrow>
               let state = \<lparr>cs_position = bigint_of_string positionText,
                            cs_snapshotHead = bigint_of_string snapshotHeadText\<rparr>
               in rbind (assertCursorState state) (\<lambda>_. Inr state)))"

section \<open>Base64url\<close>

definition url_map :: "char \<Rightarrow> char" where
  "url_map c = (if c = CHR ''+'' then CHR ''-'' else if c = CHR ''/'' then CHR ''_'' else c)"

lemma base64url_url_map: "base64url bs = map url_map (filter (\<lambda>c. c \<noteq> CHR ''='') (btoa (map unat bs)))"
  by (simp add: base64url_def url_map_def bytesToB64_def)

lemma url_value:
  assumes "n < 64"
  shows "base64url_value (url_map (b64_char n)) = Some n" "url_char (url_map (b64_char n))" "b64_char n \<noteq> CHR ''=''"
proof -
  have v: "b64_value (b64_char n) = Some n" "b64_char n \<noteq> CHR ''=''"
    using b64_value_char[OF assms] b64_char_plain[OF assms] by simp_all
  have marks: "b64_value CHR ''+'' = Some 62" "b64_value CHR ''/'' = Some 63" "b64_value CHR ''-'' = None"
    "b64_value CHR ''_'' = None" by code_simp+
  show "b64_char n \<noteq> CHR ''=''" by (rule v(2))
  show val: "base64url_value (url_map (b64_char n)) = Some n"
    using v marks by (auto simp: base64url_value_def url_map_def)
  then show "url_char (url_map (b64_char n))" by (auto simp: url_char_def url_map_def)
qed

lemma base64url_groups:
  "list_all (\<lambda>n. n < 256) ns \<Longrightarrow>
    b64_groups (List.map_filter base64url_value (map url_map (filter (\<lambda>c. c \<noteq> CHR ''='') (btoa ns)))) = ns"
  by (induction ns rule: btoa.induct) (auto simp: url_value six_bits regroup List.map_filter_simps)

lemma base64url_roundtrip [simp]: "base64url_decode (base64url bs) = bs"
  by (simp add: base64url_decode_def base64url_url_map base64url_groups[OF unat_byte] comp_def)

lemma url_chars: "list_all (\<lambda>n. n < 256) ns \<Longrightarrow>
    list_all url_char (map url_map (filter (\<lambda>c. c \<noteq> CHR ''='') (btoa ns)))"
  by (induction ns rule: btoa.induct) (auto simp: url_value six_bits)

lemma base64url_chars: "list_all url_char (base64url bs)"
  unfolding base64url_url_map by (rule url_chars[OF unat_byte])

lemma base64url_Nil [simp]: "base64url bs = [] \<longleftrightarrow> bs = []"
proof
  assume "base64url bs = []"
  moreover have "base64url_decode [] = []" by (simp add: base64url_decode_def List.map_filter_simps)
  ultimately show "bs = []" using base64url_roundtrip[of bs] by simp
qed (simp add: base64url_url_map)

lemma length_btoa: "length (btoa ns) = 4 * ((length ns + 2) div 3)"
proof (induction ns rule: btoa.induct)
  case (4 a b c rest)
  have "(length (a # b # c # rest) + 2) div 3 = (length rest + 2) div 3 + 1" by simp
  with 4 show ?case by simp
qed simp_all

lemma length_base64url: "length (base64url bs) \<le> 4 * ((length bs + 2) div 3)"
  using length_filter_le[of "\<lambda>c. c \<noteq> CHR ''=''" "btoa (map unat bs)"]
  by (simp add: base64url_url_map length_btoa)

lemma url_char_plain: "url_char c \<Longrightarrow> c \<noteq> CHR ''.''"
proof -
  have "\<not> url_char CHR ''.''" by code_simp
  then show "url_char c \<Longrightarrow> c \<noteq> CHR ''.''" by metis
qed

lemma split_at_join:
  "sep \<notin> set a \<Longrightarrow> split_at sep (a @ sep # b) = (a, b)"
  by (auto simp: split_at_def takeWhile_append dropWhile_append)

lemma split_at_parts: "sep \<in> set s \<Longrightarrow> split_at sep s = (a, b) \<Longrightarrow> s = a @ sep # b"
proof (induction s arbitrary: a)
  case (Cons c s)
  show ?case
  proof (cases "c = sep")
    case True
    with Cons.prems show ?thesis by (simp add: split_at_def)
  next
    case False
    with Cons.prems(2) have "split_at sep s = (tl a, b)" "a = c # tl a" by (auto simp: split_at_def)
    with Cons.IH[of "tl a"] Cons.prems(1) False show ?thesis by simp
  qed
qed simp

section \<open>Positions as text\<close>

lemma decimal_head: "0 < n \<Longrightarrow> hd (decimal_of_nat n) \<noteq> CHR ''0''"
proof (induction n rule: decimal_of_nat.induct)
  case (1 n)
  show ?case
  proof (cases "n < 10")
    case True
    have "list_all (\<lambda>m. char_of (48 + m) \<noteq> CHR ''0'') [1..<10::nat]" by code_simp
    with True 1(2) show ?thesis by (subst decimal_of_nat.simps) (simp add: list_all_iff)
  next
    case False
    with 1 show ?thesis by (subst decimal_of_nat.simps) (simp add: decimal_of_nat_nonempty)
  qed
qed

lemma decimal_length: "n < 10 ^ Suc k \<Longrightarrow> length (decimal_of_nat n) \<le> Suc k"
proof (induction k arbitrary: n)
  case 0
  then show ?case by (subst decimal_of_nat.simps) simp
next
  case (Suc k)
  have "length (decimal_of_nat (n div 10)) \<le> Suc k"
    using Suc.prems by (intro Suc.IH) (simp add: less_mult_imp_div_less mult.commute)
  then show ?case by (subst decimal_of_nat.simps) simp
qed

lemma position_text_decimal:
  assumes "0 \<le> i" and "i \<le> MAX_BIGINT_64"
  shows "position_text (decimal_of_int i)" "length (decimal_of_int i) \<le> 19"
    "bigint_of_string (decimal_of_int i) = i" "CHR '':'' \<notin> set (decimal_of_int i)" "list_all is_digit (decimal_of_int i)"
proof -
  obtain n where n: "i = int n" using assms(1) by (metis nonneg_int_cases)
  have l: "length (decimal_of_nat n) \<le> Suc 18"
    by (rule decimal_length) (use assms(2) n in \<open>simp add: MAX_BIGINT_64_def\<close>)
  have zero: "decimal_of_nat 0 = ''0''" by code_simp
  show "position_text (decimal_of_int i)"
    using l decimal_head[of n] by (cases "n = 0") (simp_all add: n decimal_of_int_def position_text_def zero
        decimal_of_nat_nonempty list_all_digit_decimal)
  show "length (decimal_of_int i) \<le> 19" using l by (simp add: n decimal_of_int_def)
  show "list_all is_digit (decimal_of_int i)" by (simp add: n decimal_of_int_def list_all_digit_decimal)
  moreover have "\<not> is_digit CHR '':''" by code_simp
  ultimately show "CHR '':'' \<notin> set (decimal_of_int i)" by (auto simp: list_all_iff)
  obtain c cs where d: "decimal_of_nat n = c # cs" "c \<noteq> CHR ''-''" by (rule decimal_of_nat_Cons[of n]) auto
  have "nat_of_digits 0 (c # cs) = n" using nat_of_digits_decimal[of n] by (simp only: d(1))
  then show "bigint_of_string (decimal_of_int i) = i" using d by (simp add: n decimal_of_int_def)
qed

section \<open>Encoding and decoding\<close>

definition cursor_valid :: "cursor_state \<Rightarrow> bool" where
  "cursor_valid state \<longleftrightarrow> 0 \<le> cs_position state \<and> cs_position state \<le> cs_snapshotHead state \<and>
    cs_snapshotHead state \<le> MAX_BIGINT_64"

lemma assertCursorState_iff: "assertCursorState state = Inr u \<longleftrightarrow> cursor_valid state"
  by (auto simp: assertCursorState_def cursor_valid_def guard_res_eq)

lemma valid_position:
  assumes "cursor_valid state"
  shows "0 \<le> cs_position state" "cs_position state \<le> MAX_BIGINT_64" "0 \<le> cs_snapshotHead state"
    "cs_snapshotHead state \<le> MAX_BIGINT_64"
  using assms by (auto simp: cursor_valid_def)

definition ascii :: "string \<Rightarrow> bool" where
  "ascii s \<longleftrightarrow> list_all (\<lambda>c. (of_char c :: nat) < 128) s"

lemma utf8_ascii: "ascii s \<Longrightarrow> utf8 s = map (\<lambda>c. of_nat (of_char c)) s"
  by (induction s) (simp_all add: ascii_def utf8_def utf8_char_def)

lemma ascii_text_utf8: "ascii s \<Longrightarrow> ascii_text (utf8 s) = Some s"
  by (auto simp: ascii_text_def utf8_ascii ascii_def list_all_iff unat_byte_of_nat intro!: map_idI)

lemma ascii_text_Some: "ascii_text bs = Some s \<longleftrightarrow> ascii s \<and> bs = utf8 s"
proof
  assume h: "ascii_text bs = Some s"
  then have small: "list_all (\<lambda>b. unat b < 128) bs" and s: "s = map (\<lambda>b. char_of (unat b)) bs"
    by (auto simp: ascii_text_def split: if_splits)
  then have "ascii s" by (auto simp: ascii_def list_all_iff)
  moreover have "map (\<lambda>c. of_nat (of_char c)) s = bs"
    using small by (auto simp: s list_all_iff intro!: map_idI)
  ultimately show "ascii s \<and> bs = utf8 s" by (simp add: utf8_ascii)
qed (auto simp: ascii_text_utf8)

lemma payload_ascii:
  assumes "cursor_valid state"
  shows "ascii (cursor_payload state)"
    "length (cursor_payload state) \<le> 41"
    "payload_match (cursor_payload state) =
      Some (decimal_of_int (cs_position state), decimal_of_int (cs_snapshotHead state))"
proof -
  note v = valid_position[OF assms]
  note t = position_text_decimal[OF v(1,2)] position_text_decimal[OF v(3,4)]
  have digit: "ascii s" if "list_all is_digit s" for s
    using that by (auto simp: ascii_def list_all_iff is_digit_def)
  show "ascii (cursor_payload state)"
    using digit[OF t(5)] digit[OF t(10)] by (simp add: cursor_payload_def ascii_def)
  show "length (cursor_payload state) \<le> 41" using t(2) t(7) by (simp add: cursor_payload_def)
  show "payload_match (cursor_payload state) =
      Some (decimal_of_int (cs_position state), decimal_of_int (cs_snapshotHead state))"
    using t(1,4,6) split_at_join[OF t(4)] by (simp add: payload_match_def cursor_payload_def)
qed

lemma cursor_schema:
  assumes "list_all url_char a" "list_all url_char b" "a \<noteq> []" "b \<noteq> []" "length a + length b < 512"
  shows "syncCursorSchema (a @ CHR ''.'' # b)" "split_at CHR ''.'' (a @ CHR ''.'' # b) = (a, b)"
proof -
  have "CHR ''.'' \<notin> set a" using assms(1) url_char_plain by (auto simp: list_all_iff)
  then show split: "split_at CHR ''.'' (a @ CHR ''.'' # b) = (a, b)" using split_at_join by simp
  show "syncCursorSchema (a @ CHR ''.'' # b)" using assms split by (simp add: syncCursorSchema_def)
qed

definition hmac_sha256_size :: "(bytes \<Rightarrow> bytes \<Rightarrow> bytes) \<Rightarrow> bool" where
  "hmac_sha256_size hmac \<longleftrightarrow> (\<forall>key message. length (hmac key message) = 32)"

lemma cursor_text:
  assumes "hmac_sha256_size hmac" and "cursor_valid state"
  defines "p \<equiv> cursor_payload state"
  shows "encodeCursor hmac secret u state = Inr (base64url (utf8 p) @ CHR ''.'' # sign_cursor hmac secret u p)"
    "syncCursorSchema (base64url (utf8 p) @ CHR ''.'' # sign_cursor hmac secret u p)"
    "split_at CHR ''.'' (base64url (utf8 p) @ CHR ''.'' # sign_cursor hmac secret u p) =
      (base64url (utf8 p), sign_cursor hmac secret u p)"
proof -
  define bs where "bs = hmac (utf8 secret) (utf8 CURSOR_DOMAIN @ [0] @ utf8 u @ [0] @ utf8 p)"
  have sig: "sign_cursor hmac secret u p = base64url bs" by (simp add: sign_cursor_def bs_def)
  have l: "length bs = 32" using assms(1) by (simp add: bs_def hmac_sha256_size_def)
  have u: "length (utf8 p) \<le> 41" using payload_ascii(1,2)[OF assms(2)] by (simp add: p_def utf8_ascii)
  have ne: "utf8 p \<noteq> []" "bs \<noteq> []" using l by (auto simp: p_def cursor_payload_def utf8_def utf8_char_def)
  have "length (base64url (utf8 p)) \<le> 4 * ((41 + 2) div 3)"
    by (rule order.trans[OF length_base64url]) (use u in \<open>intro mult_le_mono div_le_mono, simp_all\<close>)
  moreover have "length (base64url bs) \<le> 44" using length_base64url[of bs] l by simp
  ultimately have s: "length (base64url (utf8 p)) + length (base64url bs) < 512" by simp
  note c = cursor_schema[OF base64url_chars base64url_chars _ _ s, unfolded base64url_Nil, OF ne, folded sig]
  show "syncCursorSchema (base64url (utf8 p) @ CHR ''.'' # sign_cursor hmac secret u p)" by (rule c(1))
  show "split_at CHR ''.'' (base64url (utf8 p) @ CHR ''.'' # sign_cursor hmac secret u p) =
      (base64url (utf8 p), sign_cursor hmac secret u p)" by (rule c(2))
  obtain un where "assertCursorState state = Inr un" using assms(2) assertCursorState_iff[of state "()"] by simp
  then show "encodeCursor hmac secret u state = Inr (base64url (utf8 p) @ CHR ''.'' # sign_cursor hmac secret u p)"
    using c(1) by (simp add: encodeCursor_def p_def Let_def)
qed

text \<open>The pattern admits canonical numbers only, so the text of a payload is that of its state.\<close>

lemma decimal_of_digits:
  assumes "list_all is_digit s" "s \<noteq> []" "hd s \<noteq> CHR ''0''"
  shows "decimal_of_nat (nat_of_digits 0 s) = s"
  using assms
proof (induction s rule: rev_induct)
  case (snoc c s)
  have "c = char_of (48 + (of_char c - 48 :: nat))" "of_char c - 48 < (10::nat)"
    using snoc.prems(1) by (auto simp: is_digit_def)
  then obtain d :: nat where d: "c = char_of (48 + d)" "d < 10" by blast
  then have last: "(of_char c :: nat) - 48 = d" by simp
  show ?case
  proof (cases "s = []")
    case True
    with d last show ?thesis by (subst decimal_of_nat.simps) simp
  next
    case False
    with snoc have ih: "decimal_of_nat (nat_of_digits 0 s) = s" by simp
    have "nat_of_digits 0 s \<noteq> 0"
    proof
      assume "nat_of_digits 0 s = 0"
      moreover have "decimal_of_nat 0 = ''0''" by code_simp
      ultimately show False using ih snoc.prems(3) False by (metis hd_append2 list.sel(1))
    qed
    then show ?thesis using d last ih by (subst decimal_of_nat.simps) (simp add: nat_of_digits_append)
  qed
qed simp

lemma position_text_canonical: "position_text s \<Longrightarrow> decimal_of_int (bigint_of_string s) = s"
proof -
  assume s: "position_text s"
  show ?thesis
  proof (cases "s = ''0''")
    case True
    have "decimal_of_int (bigint_of_string ''0'') = ''0''" by code_simp
    with True show ?thesis by simp
  next
    case False
    with s have d: "list_all is_digit s" "s \<noteq> []" "hd s \<noteq> CHR ''0''" by (auto simp: position_text_def)
    moreover have "\<not> is_digit CHR ''-''" by code_simp
    ultimately have "bigint_of_string s = int (nat_of_digits 0 s)" by (cases s) auto
    then show ?thesis using decimal_of_digits[OF d] by (simp add: decimal_of_int_def)
  qed
qed

lemma payload_match_Some:
  assumes "payload_match payload = Some (x, y)"
  shows "payload = cursor_payload \<lparr>cs_position = bigint_of_string x, cs_snapshotHead = bigint_of_string y\<rparr>"
proof -
  from assms have h: "take 2 payload = ''1:''" "CHR '':'' \<in> set (drop 2 payload)"
    "split_at CHR '':'' (drop 2 payload) = (x, y)" "position_text x" "position_text y"
    by (auto simp: payload_match_def split: if_splits prod.splits)
  have "payload = ''1:'' @ x @ CHR '':'' # y"
    using split_at_parts[OF h(2,3)] append_take_drop_id[of 2 payload] h(1) by simp
  then show ?thesis using h(4,5) by (simp add: cursor_payload_def position_text_canonical)
qed

lemma cursor_state_eta: "\<lparr>cs_position = cs_position state, cs_snapshotHead = cs_snapshotHead state\<rparr> = state"
  by simp

text \<open>A cursor decodes to what was encoded, and what decodes is signed.\<close>

lemma encode_decode:
  assumes "hmac_sha256_size hmac"
  shows "(\<exists>cursor. encodeCursor hmac secret u state = Inr cursor \<and> decodeCursor hmac secret u cursor = Inr state) \<or>
    (encodeCursor hmac secret u state = Inl SyncCursorDecodeError \<and> \<not> cursor_valid state)"
proof (cases "cursor_valid state")
  case True
  note c = cursor_text[OF assms True, of secret u]
  have "assertCursorState state = Inr ()" using True assertCursorState_iff by blast
  then show ?thesis
    using c(1) valid_position[OF True]
    by (auto simp: decodeCursor_def c(2,3) ascii_text_utf8 payload_ascii[OF True] position_text_decimal Let_def cursor_state_eta)
next
  case False
  then have "assertCursorState state = Inl SyncCursorDecodeError"
    by (auto simp: assertCursorState_def cursor_valid_def guard_res_def)
  with False show ?thesis by (simp add: encodeCursor_def)
qed

lemma decode_iff:
  "decodeCursor hmac secret u cursor = Inr state \<longleftrightarrow> cursor_valid state \<and> syncCursorSchema cursor \<and>
    base64url_decode (fst (split_at CHR ''.'' cursor)) = utf8 (cursor_payload state) \<and>
    base64url_decode (snd (split_at CHR ''.'' cursor)) =
      hmac (utf8 secret) (utf8 CURSOR_DOMAIN @ [0] @ utf8 u @ [0] @ utf8 (cursor_payload state))"
proof -
  obtain a b where ab: "split_at CHR ''.'' cursor = (a, b)" by fastforce
  have sig: "base64url_decode (sign_cursor hmac secret u p) =
      hmac (utf8 secret) (utf8 CURSOR_DOMAIN @ [0] @ utf8 u @ [0] @ utf8 p)" for p
    by (simp add: sign_cursor_def)
  have valid: "assertCursorState state = Inr () \<longleftrightarrow> cursor_valid state" by (rule assertCursorState_iff)
  show ?thesis
  proof
    assume "decodeCursor hmac secret u cursor = Inr state"
    then obtain p x y where "syncCursorSchema cursor" "ascii_text (base64url_decode a) = Some p"
      "base64url_decode b = base64url_decode (sign_cursor hmac secret u p)" "payload_match p = Some (x, y)"
      "state = \<lparr>cs_position = bigint_of_string x, cs_snapshotHead = bigint_of_string y\<rparr>" "cursor_valid state"
      by (auto simp: decodeCursor_def ab Let_def res_simps assertCursorState_iff
          split: if_splits option.splits prod.splits)
    then show "cursor_valid state \<and> syncCursorSchema cursor \<and>
      base64url_decode (fst (split_at CHR ''.'' cursor)) = utf8 (cursor_payload state) \<and>
      base64url_decode (snd (split_at CHR ''.'' cursor)) =
        hmac (utf8 secret) (utf8 CURSOR_DOMAIN @ [0] @ utf8 u @ [0] @ utf8 (cursor_payload state))"
      by (simp add: ab sig ascii_text_Some flip: payload_match_Some)
  next
    assume h: "cursor_valid state \<and> syncCursorSchema cursor \<and>
      base64url_decode (fst (split_at CHR ''.'' cursor)) = utf8 (cursor_payload state) \<and>
      base64url_decode (snd (split_at CHR ''.'' cursor)) =
        hmac (utf8 secret) (utf8 CURSOR_DOMAIN @ [0] @ utf8 u @ [0] @ utf8 (cursor_payload state))"
    then have "cursor_valid state" by simp
    then show "decodeCursor hmac secret u cursor = Inr state"
      using h valid valid_position[OF \<open>cursor_valid state\<close>]
      by (simp add: decodeCursor_def ab ascii_text_utf8 payload_ascii position_text_decimal sig Let_def cursor_state_eta)
  qed
qed

definition cursor_signature :: "(bytes \<Rightarrow> bytes \<Rightarrow> bytes) \<Rightarrow> string \<Rightarrow> string \<Rightarrow> cursor_state \<Rightarrow> bytes" where
  "cursor_signature hmac secret userId state =
    hmac (utf8 secret) (utf8 CURSOR_DOMAIN @ [0] @ utf8 userId @ [0] @ utf8 (cursor_payload state))"

text \<open>Decoding refuses with one error only.\<close>

lemma decode_cases:
  assumes "decodeCursor hmac secret u cursor \<noteq> Inl SyncCursorDecodeError"
  obtains state where "decodeCursor hmac secret u cursor = Inr state"
  using assms
  by (auto simp: decodeCursor_def assertCursorState_def guard_res_def rbind_def Let_def
      split: if_splits option.splits prod.splits)

text \<open>
  C37: the cursors the service hands out are accepted again as what they say, and only invalid states
  have none. Exactly those texts are accepted whose two parts decode to the payload of a valid state and
  to the signature of that payload for the user who presents them: a cursor made for another user is
  accepted only when the two signatures collide.
\<close>

theorem sync_cursor_exact:
  assumes "hmac_sha256_size hmac"
  shows "(if cursor_valid state
       then \<exists>cursor. encodeCursor hmac secret u state = Inr cursor \<and> decodeCursor hmac secret u cursor = Inr state
       else encodeCursor hmac secret u state = Inl SyncCursorDecodeError) \<and>
    (decodeCursor hmac secret u cursor = Inr state \<longleftrightarrow> cursor_valid state \<and> syncCursorSchema cursor \<and>
      base64url_decode (fst (split_at CHR ''.'' cursor)) = utf8 (cursor_payload state) \<and>
      base64url_decode (snd (split_at CHR ''.'' cursor)) = cursor_signature hmac secret u state) \<and>
    (encodeCursor hmac secret v state = Inr cursor \<longrightarrow> decodeCursor hmac secret u cursor \<noteq> Inl SyncCursorDecodeError \<longrightarrow>
      cursor_signature hmac secret u state = cursor_signature hmac secret v state)"
proof (intro conjI impI)
  assume "encodeCursor hmac secret v state = Inr cursor" "decodeCursor hmac secret u cursor \<noteq> Inl SyncCursorDecodeError"
  moreover from this(2) obtain other where "decodeCursor hmac secret u cursor = Inr other" by (rule decode_cases)
  ultimately show "cursor_signature hmac secret u state = cursor_signature hmac secret v state"
    using encode_decode[OF assms(1), of secret v state] by (auto simp: decode_iff cursor_signature_def)
qed (use encode_decode[OF assms(1), of secret u state] decode_iff in \<open>auto simp: cursor_signature_def\<close>)

lemma sync_cursor_exact_witness:
  "\<exists>cursor. encodeCursor (\<lambda>k m. replicate 32 7) ''s'' ''u'' \<lparr>cs_position = 4, cs_snapshotHead = 9\<rparr> = Inr cursor \<and>
    decodeCursor (\<lambda>k m. replicate 32 7) ''s'' ''u'' cursor = Inr \<lparr>cs_position = 4, cs_snapshotHead = 9\<rparr>"
proof -
  have "hmac_sha256_size (\<lambda>k m. replicate 32 (7 :: 8 word))" by (simp add: hmac_sha256_size_def)
  moreover have "cursor_valid \<lparr>cs_position = 4, cs_snapshotHead = 9\<rparr>" by (simp add: cursor_valid_def MAX_BIGINT_64_def)
  moreover note sync_cursor_exact[of "\<lambda>k m. replicate 32 7" "\<lparr>cs_position = 4, cs_snapshotHead = 9\<rparr>" "''s''" "''u''" "[]" "[]",
      THEN conjunct1]
  ultimately show ?thesis by (simp only: if_True)
qed

end
