(* ===== verification/Sync_Service.thy ===== *)
theory Sync_Service
  imports Sync_Cursor Chat_Db
begin

text \<open>
  \<open>apps/api/src/sync/sync.service.ts\<close> and \<open>sync.controller.ts\<close> with the schemas of
  \<open>contracts/src/sync.ts\<close>: one page of the durable events of a user, read from a position up to
  the head of the snapshot the cursor was opened with. \<open>isUuid\<close> is the check of \<open>z.uuid()\<close>;
  instants are milliseconds, which print as ISO dates.
\<close>

section \<open>Tables, deltas and errors\<close>

record stored_event =
  se_id :: string
  se_eventType :: string
  se_changeKind :: string
  se_scopeKind :: string
  se_scopeId :: string
  se_occurredAt :: int
  se_payload :: json

record recipient_row =
  rp_userId :: string
  rp_position :: int
  rp_event :: stored_event

record sync_tables =
  tb_states :: "sync_state list"
  tb_recipients :: "recipient_row list"
  tb_members :: "(string \<times> string) list"

record sync_delta =
  dl_eventId :: string
  dl_eventType :: string
  dl_changeKind :: string
  dl_scopeId :: string
  dl_occurredAt :: int
  dl_conversationId :: string
  dl_messageId :: "string option"

record 'd sync_response =
  deltas :: "'d list"
  nextCursor :: string
  hasMore :: bool

datatype sync_error =
    BadRequest string
  | Conflict string
  | InternalServerError string
  | CodecThrown cursor_error
  | ResponseZodError

record sync_params =
  sp_hmac :: "bytes \<Rightarrow> bytes \<Rightarrow> bytes"
  sp_secret :: string
  sp_isUuid :: "string \<Rightarrow> bool"

definition defaultPageSize :: nat where "defaultPageSize = 100"
definition maxPageSize :: nat where "maxPageSize = 200"
definition maxScanPerPage :: nat where "maxScanPerPage = 500"

section \<open>Deltas\<close>

definition supported_kind :: "string \<Rightarrow> string option" where
  "supported_kind eventType =
    (if eventType = ''DIRECT_MESSAGE_CREATED'' \<or> eventType = ''DIRECT_READ_UPDATED'' then Some ''UPSERT_REF''
     else if eventType = ''DIRECT_MESSAGE_DELETED'' then Some ''TOMBSTONE'' else None)"

definition assertSupportedSyncEvent :: "stored_event \<Rightarrow> sync_error + unit" where
  "assertSupportedSyncEvent event = guard_res
    (\<not> (supported_kind (se_eventType event) = Some (se_changeKind event) \<and> se_scopeKind event = ''DIRECT_CHAT''))
    (InternalServerError ''Unsupported durable sync event'')"

definition payload_fields :: "string \<Rightarrow> string list" where
  "payload_fields eventType =
    (if eventType = ''DIRECT_READ_UPDATED'' then [''conversationId''] else [''conversationId'', ''messageId''])"

definition payload_uuid :: "(string \<Rightarrow> bool) \<Rightarrow> json \<Rightarrow> string \<Rightarrow> string option" where
  "payload_uuid isUuid j k = (case json_get j k of
     Some (JStr s) \<Rightarrow> if isUuid s then Some s else None | _ \<Rightarrow> None)"

text \<open>The union of the three strict delta schemas; only one of them has a given event type.\<close>

definition syncDeltaSchema :: "(string \<Rightarrow> bool) \<Rightarrow> stored_event \<Rightarrow> sync_delta option" where
  "syncDeltaSchema isUuid event =
    (let eventType = se_eventType event; payload = se_payload event; fields = payload_fields eventType in
     case payload_uuid isUuid payload ''conversationId'' of
       None \<Rightarrow> None
     | Some conversationId \<Rightarrow>
         let messageId = payload_uuid isUuid payload ''messageId''; created = eventType = ''DIRECT_MESSAGE_CREATED'' in
         if supported_kind eventType = Some (se_changeKind event) \<and> se_scopeKind event = ''DIRECT_CHAT'' \<and>
            isUuid (se_id event) \<and> isUuid (se_scopeId event) \<and>
            (case payload of JObj fs \<Rightarrow> list_all (\<lambda>f. fst f \<in> set fields) fs | _ \<Rightarrow> False) \<and>
            (eventType = ''DIRECT_READ_UPDATED'' \<or> messageId \<noteq> None) \<and>
            se_scopeId event = conversationId \<and> (\<not> created \<or> messageId = Some (se_id event))
         then Some \<lparr>dl_eventId = se_id event, dl_eventType = eventType, dl_changeKind = se_changeKind event,
           dl_scopeId = se_scopeId event, dl_occurredAt = se_occurredAt event, dl_conversationId = conversationId,
           dl_messageId = (if eventType = ''DIRECT_READ_UPDATED'' then None else messageId)\<rparr>
         else None)"

definition toSyncDelta :: "(string \<Rightarrow> bool) \<Rightarrow> stored_event \<Rightarrow> sync_error + sync_delta" where
  "toSyncDelta isUuid event =
    the_row (InternalServerError ''Persisted sync event is invalid'') (syncDeltaSchema isUuid event)"

section \<open>One page\<close>

definition candidates :: "string \<Rightarrow> int \<Rightarrow> int \<Rightarrow> nat \<Rightarrow> sync_tables \<Rightarrow> recipient_row list" where
  "candidates userId position snapshotHead scanLimit tb =
    take scanLimit (sort_key rp_position
      (filter (\<lambda>r. rp_userId r = userId \<and> position < rp_position r \<and> rp_position r \<le> snapshotHead) (tb_recipients tb)))"

definition allowed_chats :: "string \<Rightarrow> recipient_row list \<Rightarrow> sync_tables \<Rightarrow> string set" where
  "allowed_chats userId rows tb =
    (let ids = map (\<lambda>r. se_scopeId (rp_event r)) (filter (\<lambda>r. se_eventType (rp_event r) = ''DIRECT_MESSAGE_CREATED'' \<or>
         se_eventType (rp_event r) = ''DIRECT_READ_UPDATED'') rows)
     in set (map fst (filter (\<lambda>m. snd m = userId \<and> fst m \<in> set ids) (tb_members tb))))"

definition eligible :: "string set \<Rightarrow> recipient_row \<Rightarrow> bool" where
  "eligible allowed row \<longleftrightarrow>
    se_eventType (rp_event row) = ''DIRECT_MESSAGE_DELETED'' \<or> se_scopeId (rp_event row) \<in> allowed"

fun collect_page ::
    "(string \<Rightarrow> bool) \<Rightarrow> nat \<Rightarrow> string set \<Rightarrow> recipient_row list \<Rightarrow> sync_delta list \<Rightarrow> int \<Rightarrow>
      sync_error + sync_delta list \<times> int" where
  "collect_page isUuid limit allowed [] ds nextPosition = Inr (ds, nextPosition)"
| "collect_page isUuid limit allowed (candidate # rest) ds nextPosition =
    (if eligible allowed candidate then
       if limit \<le> length ds then Inr (ds, nextPosition)
       else rbind (toSyncDelta isUuid (rp_event candidate)) (\<lambda>d.
         if limit \<le> length (ds @ [d]) then Inr (ds @ [d], rp_position candidate)
         else collect_page isUuid limit allowed rest (ds @ [d]) (rp_position candidate))
     else if limit \<le> length ds then Inr (ds, rp_position candidate)
     else collect_page isUuid limit allowed rest ds (rp_position candidate))"

definition state_positions :: "string \<Rightarrow> sync_tables \<Rightarrow> int \<times> int" where
  "state_positions userId tb = (case row_find sy_userId userId (tb_states tb) of
     None \<Rightarrow> (0, 0) | Some s \<Rightarrow> (sy_lastPosition s, sy_minRetainedPosition s))"

definition open_cursor ::
    "sync_params \<Rightarrow> string \<Rightarrow> string option \<Rightarrow> int \<Rightarrow> sync_error + int \<times> int" where
  "open_cursor sp userId cursor currentHead = (case cursor of
     None \<Rightarrow> Inr (0, currentHead)
   | Some c \<Rightarrow> if c = [] then Inr (0, currentHead) else
       (case decodeCursor (sp_hmac sp) (sp_secret sp) userId c of
          Inl SyncCursorDecodeError \<Rightarrow> Inl (BadRequest ''sync_cursor_invalid'')
        | Inl e \<Rightarrow> Inl (CodecThrown e)
        | Inr decoded \<Rightarrow> Inr (cs_position decoded,
            if cs_position decoded = cs_snapshotHead decoded then currentHead else cs_snapshotHead decoded)))"

definition syncRead ::
    "sync_params \<Rightarrow> string \<Rightarrow> string option \<Rightarrow> nat \<Rightarrow> sync_tables \<Rightarrow> sync_error + sync_delta sync_response" where
  "syncRead sp userId cursor limit tb =
    (let (currentHead, minRetained) = state_positions userId tb in
     rbind (open_cursor sp userId cursor currentHead) (\<lambda>(position, snapshotHead).
     rbind (guard_res (position < minRetained \<or> position > currentHead \<or> snapshotHead > currentHead)
       (Conflict ''sync_cursor_stale'')) (\<lambda>_.
     let scanLimit = min maxScanPerPage (max limit (limit * 4));
         rows = candidates userId position snapshotHead scanLimit tb
     in rbind (map_res (\<lambda>r. assertSupportedSyncEvent (rp_event r)) rows) (\<lambda>_.
     rbind (collect_page (sp_isUuid sp) limit (allowed_chats userId rows tb) rows [] position) (\<lambda>(ds, nextPosition).
     rbind (guard_res (rows = [] \<and> nextPosition < snapshotHead)
       (InternalServerError ''Sync stream is inconsistent'')) (\<lambda>_.
     rbind (map_sum CodecThrown id (encodeCursor (sp_hmac sp) (sp_secret sp) userId
         \<lparr>cs_position = nextPosition, cs_snapshotHead = snapshotHead\<rparr>)) (\<lambda>next.
     if length ds \<le> maxPageSize \<and> syncCursorSchema next
     then Inr \<lparr>deltas = ds, nextCursor = next, hasMore = nextPosition < snapshotHead\<rparr>
     else Inl ResponseZodError)))))))"

section \<open>The controller\<close>

text \<open>
  A query after the framework parsed it: \<open>sq_limit\<close> is what \<open>z.coerce.number()\<close> makes of the text,
  with \<open>None\<close> inside for a number that is not an integer.
\<close>

record sync_query =
  sq_protocolVersion :: "string option"
  sq_cursor :: "string option"
  sq_limit :: "int option option"
  sq_otherKeys :: bool

definition query_limit :: "sync_query \<Rightarrow> nat option" where
  "query_limit query = (case sq_limit query of
     None \<Rightarrow> Some defaultPageSize
   | Some None \<Rightarrow> None
   | Some (Some n) \<Rightarrow> if 1 \<le> n \<and> n \<le> int maxPageSize then Some (nat n) else None)"

definition readSync ::
    "sync_params \<Rightarrow> string \<Rightarrow> sync_query option \<Rightarrow> sync_tables \<Rightarrow> sync_error + sync_delta sync_response" where
  "readSync sp userId query tb = (case query of
     None \<Rightarrow> Inl (BadRequest ''validation_error'')
   | Some q \<Rightarrow>
     if sq_protocolVersion q \<noteq> Some ''1'' then Inl (BadRequest ''sync_protocol_unsupported'')
     else if (case sq_cursor q of None \<Rightarrow> False | Some c \<Rightarrow> \<not> syncCursorSchema c)
     then Inl (BadRequest ''sync_cursor_invalid'')
     else if sq_otherKeys q then Inl (BadRequest ''validation_error'')
     else (case query_limit q of
         None \<Rightarrow> Inl (BadRequest ''validation_error'')
       | Some limit \<Rightarrow> syncRead sp userId (sq_cursor q) limit tb))"

section \<open>The stream of a user\<close>

definition stream :: "string \<Rightarrow> sync_tables \<Rightarrow> recipient_row list" where
  "stream u tb = sort_key rp_position (filter (\<lambda>r. rp_userId r = u) (tb_recipients tb))"

definition rows_between :: "string \<Rightarrow> sync_tables \<Rightarrow> int \<Rightarrow> int \<Rightarrow> recipient_row list" where
  "rows_between u tb p n = filter (\<lambda>r. p < rp_position r \<and> rp_position r \<le> n) (stream u tb)"

definition visible :: "string \<Rightarrow> sync_tables \<Rightarrow> recipient_row \<Rightarrow> bool" where
  "visible u tb row \<longleftrightarrow> se_eventType (rp_event row) = ''DIRECT_MESSAGE_DELETED'' \<or>
    (se_scopeId (rp_event row), u) \<in> set (tb_members tb)"

definition row_delta :: "sync_params \<Rightarrow> recipient_row \<Rightarrow> sync_delta" where
  "row_delta sp row = the (syncDeltaSchema (sp_isUuid sp) (rp_event row))"

definition deltas_between :: "sync_params \<Rightarrow> string \<Rightarrow> sync_tables \<Rightarrow> int \<Rightarrow> int \<Rightarrow> sync_delta list" where
  "deltas_between sp u tb p n = map (row_delta sp) (filter (visible u tb) (rows_between u tb p n))"

definition row_valid :: "sync_params \<Rightarrow> recipient_row \<Rightarrow> bool" where
  "row_valid sp row \<longleftrightarrow> assertSupportedSyncEvent (rp_event row) = Inr () \<and>
    syncDeltaSchema (sp_isUuid sp) (rp_event row) \<noteq> None"

text \<open>The retained positions of a user are numbered without a gap, and every event can be shown.\<close>

definition stream_ok :: "sync_params \<Rightarrow> string \<Rightarrow> sync_tables \<Rightarrow> bool" where
  "stream_ok sp u tb \<longleftrightarrow> (case state_positions u tb of (head, low) \<Rightarrow>
    0 \<le> low \<and> low \<le> head \<and> head \<le> MAX_BIGINT_64 \<and> map rp_position (stream u tb) = [low + 1..head]) \<and>
    list_all (row_valid sp) (stream u tb)"

lemma candidates_rows: "candidates u p h k tb = take k (rows_between u tb p h)"
  unfolding candidates_def rows_between_def stream_def filter_sort filter_filter
  by (simp add: conj_ac)

lemma upto_append: "low \<le> p \<Longrightarrow> p \<le> n \<Longrightarrow> [low + 1..n] = [low + 1..p] @ [p + 1..n]" for low :: int
  by (cases "low = p") (auto intro: upto_split2)

lemma filter_upto:
  fixes p n low head :: int
  assumes "low \<le> p" "n \<le> head"
  shows "filter (\<lambda>x. p < x \<and> x \<le> n) [low + 1..head] = [p + 1..n]"
proof (cases "p \<le> n")
  case True
  with assms have "[low + 1..head] = [low + 1..p] @ [p + 1..n] @ [n + 1..head]"
    by (simp add: upto_append[of low p head] upto_append[of p n head])
  then show ?thesis by (simp add: filter_empty_conv filter_id_conv)
qed (auto simp: filter_empty_conv)

lemma rows_positions:
  assumes "stream_ok sp u tb" "state_positions u tb = (head, low)" "low \<le> p" "n \<le> head"
  shows "map rp_position (rows_between u tb p n) = [p + 1..n]"
  using assms filter_map[of "\<lambda>x. p < x \<and> x \<le> n" rp_position "stream u tb"]
  by (simp add: rows_between_def stream_ok_def comp_def filter_upto)

lemma rows_valid: "stream_ok sp u tb \<Longrightarrow> r \<in> set (rows_between u tb p n) \<Longrightarrow> row_valid sp r"
  by (auto simp: stream_ok_def rows_between_def list_all_iff)

lemma rows_split:
  assumes "stream_ok sp u tb" "state_positions u tb = (head, low)" "low \<le> p" "p + int k \<le> h" "h \<le> head"
  shows "take k (rows_between u tb p h) = rows_between u tb p (p + int k)"
    "rows_between u tb p h = rows_between u tb p (p + int k) @ rows_between u tb (p + int k) h"
proof -
  have "filter (\<lambda>r. p < rp_position r \<and> rp_position r \<le> h) xs =
      filter (\<lambda>r. p < rp_position r \<and> rp_position r \<le> p + int k) xs @
      filter (\<lambda>r. p + int k < rp_position r \<and> rp_position r \<le> h) xs"
    if "sorted (map rp_position xs)" for xs
    using that
  proof (induction xs)
    case (Cons a xs)
    then have "filter (\<lambda>r. p < rp_position r \<and> rp_position r \<le> p + int k) xs = []" if "p + int k < rp_position a"
      using that by (fastforce simp: filter_empty_conv)
    with Cons assms(4) show ?case by auto
  qed simp
  moreover have "sorted (map rp_position (stream u tb))" by (simp add: stream_def)
  ultimately show split: "rows_between u tb p h = rows_between u tb p (p + int k) @ rows_between u tb (p + int k) h"
    by (simp add: rows_between_def)
  have "map rp_position (rows_between u tb p (p + int k)) = [p + 1..p + int k]"
    by (rule rows_positions[OF assms(1,2,3)]) (use assms in simp)
  then have "length (rows_between u tb p (p + int k)) = k" by (metis add_diff_cancel_left' length_map length_upto nat_int diff_add_cancel add.commute diff_diff_eq2 add_diff_cancel_right')
  then show "take k (rows_between u tb p h) = rows_between u tb p (p + int k)" using split by simp
qed

text \<open>The loop over the candidates takes some of them, all when the page is not full.\<close>

lemma collect_takes:
  assumes "list_all (row_valid sp) rows" and "map rp_position rows = [p + 1..p + int (length rows)]"
    and "length ds < limit"
  shows "\<exists>k \<le> length rows. (rows \<noteq> [] \<longrightarrow> 0 < k) \<and>
    collect_page (sp_isUuid sp) limit allowed rows ds p =
      Inr (ds @ map (row_delta sp) (filter (eligible allowed) (take k rows)), p + int k) \<and>
    length (ds @ map (row_delta sp) (filter (eligible allowed) (take k rows))) \<le> limit"
  using assms
proof (induction rows arbitrary: ds p)
  case (Cons r rows)
  have pos: "rp_position r = p + 1" "map rp_position rows = [(p + 1) + 1..(p + 1) + int (length rows)]"
    using Cons.prems(2) by (simp_all add: upto_rec1[of "p + 1"] add.assoc)
  have delta: "toSyncDelta (sp_isUuid sp) (rp_event r) = Inr (row_delta sp r)"
    using Cons.prems(1) by (auto simp: row_valid_def toSyncDelta_def row_delta_def)
  define ds' where "ds' = (if eligible allowed r then ds @ [row_delta sp r] else ds)"
  show ?case
  proof (cases "length ds' < limit")
    case True
    have step: "collect_page (sp_isUuid sp) limit allowed (r # rows) ds p =
        collect_page (sp_isUuid sp) limit allowed rows ds' (p + 1)"
      using True Cons.prems(3) by (auto simp: ds'_def delta pos(1))
    from Cons.IH[OF _ pos(2) True] Cons.prems(1) obtain k where k: "k \<le> length rows"
      "collect_page (sp_isUuid sp) limit allowed rows ds' (p + 1) =
        Inr (ds' @ map (row_delta sp) (filter (eligible allowed) (take k rows)), p + 1 + int k)"
      "length (ds' @ map (row_delta sp) (filter (eligible allowed) (take k rows))) \<le> limit"
      by auto
    then show ?thesis unfolding step by (intro exI[of _ "Suc k"]) (auto simp: ds'_def)
  next
    case False
    then have "eligible allowed r" "limit = length ds + 1" using Cons.prems(3) by (auto simp: ds'_def split: if_splits)
    then show ?thesis using Cons.prems(3) by (intro exI[of _ 1]) (simp add: delta pos(1))
  qed
qed auto

lemma eligible_visible:
  assumes "r \<in> set rows" "row_valid sp r"
  shows "eligible (allowed_chats u rows tb) r \<longleftrightarrow> visible u tb r"
proof -
  have "supported_kind (se_eventType (rp_event r)) \<noteq> None"
    using assms(2) by (auto simp: row_valid_def assertSupportedSyncEvent_def guard_res_eq)
  then have "se_eventType (rp_event r) \<in> {''DIRECT_MESSAGE_CREATED'', ''DIRECT_READ_UPDATED'', ''DIRECT_MESSAGE_DELETED''}"
    by (auto simp: supported_kind_def split: if_splits)
  with assms(1) show ?thesis
    by (auto simp: eligible_def visible_def allowed_chats_def Let_def image_iff)
qed

lemma map_res_unit:
  assumes "list_all (\<lambda>x. f x = Inr ()) xs"
  shows "map_res f xs = Inr (map (\<lambda>_. ()) xs)"
  using assms by (induction xs) auto

lemma open_cursor_Inr:
  assumes "open_cursor sp u cursor head = Inr (p, h)" "0 \<le> head"
  shows "0 \<le> p" "p \<le> head \<Longrightarrow> p \<le> h"
  using assms decode_iff
  by (auto simp: open_cursor_def cursor_valid_def split: option.splits if_splits sum.splits cursor_error.splits)

lemma candidate_rows:
  fixes scan :: nat
  assumes ok: "stream_ok sp u tb" "state_positions u tb = (head, low)" and "low \<le> p" "p \<le> h" "h \<le> head"
  defines "len \<equiv> min scan (nat (h - p))"
  shows "candidates u p h scan tb = rows_between u tb p (p + int len)" "length (candidates u p h scan tb) = len"
    "p + int len \<le> h" "k \<le> len \<Longrightarrow> take k (candidates u p h scan tb) = rows_between u tb p (p + int k)"
    "list_all (row_valid sp) (candidates u p h scan tb)"
    "map rp_position (candidates u p h scan tb) = [p + 1..p + int len]"
proof -
  show len: "p + int len \<le> h" using assms(4) by (simp add: len_def)
  have "map rp_position (rows_between u tb p h) = [p + 1..h]" by (rule rows_positions[OF ok]) (use assms in auto)
  then have total: "length (rows_between u tb p h) = nat (h - p)"
    by (metis length_map length_upto diff_diff_eq2 add.commute add_diff_cancel_left' diff_add_cancel)
  have "candidates u p h scan tb = take len (rows_between u tb p h)"
    using total by (simp add: candidates_rows len_def min_def)
  then show rows: "candidates u p h scan tb = rows_between u tb p (p + int len)"
    using rows_split(1)[OF ok _ len] assms by simp
  show "length (candidates u p h scan tb) = len" using total by (simp add: candidates_rows len_def)
  show "list_all (row_valid sp) (candidates u p h scan tb)" using rows_valid[OF ok(1)] by (simp add: rows list_all_iff)
  show "map rp_position (candidates u p h scan tb) = [p + 1..p + int len]"
    unfolding rows by (rule rows_positions[OF ok]) (use assms len in auto)
  show "k \<le> len \<Longrightarrow> take k (candidates u p h scan tb) = rows_between u tb p (p + int k)"
    unfolding rows by (rule rows_split(1)[OF ok]) (use assms len in auto)
qed

lemma page_taken:
  assumes ok: "stream_ok sp u tb" "state_positions u tb = (head, low)" and "low \<le> p" "p \<le> h" "h \<le> head" "0 < limit"
  defines "rows \<equiv> candidates u p h (min maxScanPerPage (limit * 4)) tb"
  shows "\<exists>n. p \<le> n \<and> n \<le> h \<and> (p < h \<longrightarrow> p < n) \<and> length (deltas_between sp u tb p n) \<le> limit \<and>
    collect_page (sp_isUuid sp) limit (allowed_chats u rows tb) rows [] p = Inr (deltas_between sp u tb p n, n)"
proof -
  let ?allowed = "allowed_chats u rows tb"
  note rows = candidate_rows[OF assms(1-5), where scan = "min maxScanPerPage (limit * 4)", folded rows_def]
  obtain k where k: "k \<le> length rows" "rows \<noteq> [] \<longrightarrow> 0 < k"
    "collect_page (sp_isUuid sp) limit ?allowed rows [] p =
      Inr (map (row_delta sp) (filter (eligible ?allowed) (take k rows)), p + int k)"
    "length (filter (eligible ?allowed) (take k rows)) \<le> limit"
    using collect_takes[OF rows(5), of p "[]" limit ?allowed] rows(2,6) assms(6) by auto
  have "filter (eligible ?allowed) (take k rows) = filter (visible u tb) (take k rows)"
    using rows(5) eligible_visible by (intro filter_cong refl) (metis in_set_takeD list_all_iff)
  moreover have "take k rows = rows_between u tb p (p + int k)" by (rule rows(4)) (use k(1) rows(2) in simp)
  ultimately have ds: "map (row_delta sp) (filter (eligible ?allowed) (take k rows)) = deltas_between sp u tb p (p + int k)"
    by (simp add: deltas_between_def)
  moreover have "p < p + int k" if "p < h"
  proof -
    have "0 < length rows" using that assms(6) by (simp add: rows(2) maxScanPerPage_def)
    then show ?thesis using k(2) by auto
  qed
  moreover have "p + int k \<le> h" using k(1) rows(3) unfolding rows(2) by linarith
  moreover have "length (deltas_between sp u tb p (p + int k)) \<le> limit" using k(4) by (simp flip: ds)
  ultimately show ?thesis using k(3) by (intro exI[of _ "p + int k"]) simp
qed

text \<open>
  A page of the stream of a user is exactly the visible events from the position of its cursor up
  to the position of the next one, at most \<open>limit\<close> of them; the next cursor is further on
  unless the snapshot is exhausted, and a cursor outside the retained stream is refused as stale.
\<close>

lemma page_exact:
  assumes ok: "stream_ok sp u tb" "hmac_sha256_size (sp_hmac sp)" "state_positions u tb = (head, low)"
    and cursor: "open_cursor sp u cursor head = Inr (p, h)" and limit: "0 < limit" "limit \<le> maxPageSize"
  shows "if p < low \<or> head < p \<or> head < h then syncRead sp u cursor limit tb = Inl (Conflict ''sync_cursor_stale'')
    else \<exists>n next. p \<le> n \<and> n \<le> h \<and> (p < h \<longrightarrow> p < n) \<and>
      encodeCursor (sp_hmac sp) (sp_secret sp) u \<lparr>cs_position = n, cs_snapshotHead = h\<rparr> = Inr next \<and>
      length (deltas_between sp u tb p n) \<le> limit \<and>
      syncRead sp u cursor limit tb = Inr \<lparr>deltas = deltas_between sp u tb p n, nextCursor = next, hasMore = n < h\<rparr>"
proof (cases "p < low \<or> head < p \<or> head < h")
  case True
  then show ?thesis by (simp add: syncRead_def ok(3) cursor guard_res_def)
next
  case False
  define rows where "rows = candidates u p h (min maxScanPerPage (limit * 4)) tb"
  have bounds: "0 \<le> low" "low \<le> head" "head \<le> MAX_BIGINT_64" using ok(1,3) by (simp_all add: stream_ok_def)
  have ph: "0 \<le> p" "p \<le> h" "low \<le> p" "h \<le> head" using open_cursor_Inr[OF cursor] bounds False by auto
  obtain n where n: "p \<le> n" "n \<le> h" "p < h \<longrightarrow> p < n" "length (deltas_between sp u tb p n) \<le> limit"
    "collect_page (sp_isUuid sp) limit (allowed_chats u rows tb) rows [] p = Inr (deltas_between sp u tb p n, n)"
    using page_taken[OF ok(1,3) ph(3,2,4) limit(1)] by (auto simp: rows_def)
  have "cursor_valid \<lparr>cs_position = n, cs_snapshotHead = h\<rparr>" using ph bounds n(1,2) by (simp add: cursor_valid_def)
  then obtain nx where enc: "syncCursorSchema nx"
    "encodeCursor (sp_hmac sp) (sp_secret sp) u \<lparr>cs_position = n, cs_snapshotHead = h\<rparr> = Inr nx"
    using cursor_text[OF ok(2)] by metis
  have empty: "\<not> (rows = [] \<and> n < h)" using n(3,5) by (cases "p < h") auto
  have valid: "list_all (\<lambda>r. assertSupportedSyncEvent (rp_event r) = Inr ()) rows"
    using candidate_rows(5)[OF ok(1,3) ph(3,2,4)] by (simp add: rows_def list_all_iff row_valid_def)
  have "syncRead sp u cursor limit tb = Inr \<lparr>deltas = deltas_between sp u tb p n, nextCursor = nx, hasMore = n < h\<rparr>"
    using False n(4,5) empty enc limit(2)
    by (simp add: syncRead_def ok(3) cursor guard_res_def rows_def[symmetric] map_res_unit[OF valid] Let_def)
  then show ?thesis using False n enc(2) by auto
qed

end
