(* ===== verification/Sync_Engine.thy ===== *)
theory Sync_Engine
  imports Sync_Service
begin

text \<open>
  \<open>client-core/src/sync-engine.ts\<close>: the client's synchronisation state machine. At most one run is
  active; where it awaits a promise is a value of \<open>sync_await\<close>, and between two awaits the code
  runs without interruption. An event settles the promise the run waits for, fires the retry timer or
  is a call of the client; an event that does not fit the state does nothing. \<open>en_calls\<close> lists the
  calls the engine made of its options, which do not call the engine back.
\<close>

section \<open>State, promises and events\<close>

datatype sync_engine_state = STOPPED | IDLE | SYNCING | RETRY_WAIT | TERMINAL

datatype sync_failure_kind = Kind_CURSOR_STALE | Kind_RETRY | Kind_TERMINAL

datatype 'e sync_thrown = Thrown 'e | Cursor_Did_Not_Advance

text \<open>The flag tells the second snapshot, after a stale cursor was cleared, from the first.\<close>

datatype ('d, 'e) sync_await =
    Await_Cursor bool
  | Await_Page bool "string option"
  | Await_Apply bool "string option" "'d sync_response"
  | Await_Write bool "'d sync_response"
  | Await_Clear
  | Await_Snapshot bool "'e sync_thrown option"
  | Await_Finally

datatype ('d, 'e) engine_call =
    Call_read
  | Call_write string
  | Call_clear
  | Call_page "string option" "nat option"
  | Call_apply "'d list"
  | Call_onStateChange sync_engine_state
  | Call_onError "'e sync_thrown"
  | Call_setTimeout int
  | Call_clearTimeout

datatype ('d, 'e) sync_event =
    Start | Stop | Request | Timer_Fires
  | Cursor_Is "string option" | Page_Is "'d sync_response" | Done | Rejected 'e | Turn

record 'e sync_options =
  op_pageSize :: "nat option"
  op_retryBaseMs :: "int option"
  op_retryMaxMs :: "int option"
  op_classifyError :: "('e sync_thrown \<Rightarrow> sync_failure_kind) option"

record ('d, 'e) sync_engine =
  en_currentState :: sync_engine_state
  en_stopped :: bool
  en_queued :: bool
  en_activeRun :: "('d, 'e) sync_await option"
  en_retryTimer :: "int option"
  en_retryAttempt :: nat
  en_calls :: "('d, 'e) engine_call list"

definition DEFAULT_RETRY_BASE_MS :: int where "DEFAULT_RETRY_BASE_MS = 500"
definition DEFAULT_RETRY_MAX_MS :: int where "DEFAULT_RETRY_MAX_MS = 10000"

definition new_engine :: "('d, 'e) sync_engine" where
  "new_engine = \<lparr>en_currentState = STOPPED, en_stopped = True, en_queued = False, en_activeRun = None,
    en_retryTimer = None, en_retryAttempt = 0, en_calls = []\<rparr>"

section \<open>Operations\<close>

definition retryDelay :: "int \<Rightarrow> int \<Rightarrow> int \<Rightarrow> int" where
  "retryDelay attempt baseMs maxMs = min maxMs (baseMs * 2 ^ nat (min (max attempt 0) 8))"

definition emit :: "('d, 'e) engine_call \<Rightarrow> ('d, 'e) sync_engine \<Rightarrow> ('d, 'e) sync_engine" where
  "emit c e = e\<lparr>en_calls := en_calls e @ [c]\<rparr>"

definition await :: "('d, 'e) sync_await \<Rightarrow> ('d, 'e) sync_engine \<Rightarrow> ('d, 'e) sync_engine" where
  "await w e = e\<lparr>en_activeRun := Some w\<rparr>"

definition setState :: "sync_engine_state \<Rightarrow> ('d, 'e) sync_engine \<Rightarrow> ('d, 'e) sync_engine" where
  "setState s e = (if en_currentState e = s then e else emit (Call_onStateChange s) (e\<lparr>en_currentState := s\<rparr>))"

definition cancelRetry :: "('d, 'e) sync_engine \<Rightarrow> ('d, 'e) sync_engine" where
  "cancelRetry e = (if en_retryTimer e = None then e else emit Call_clearTimeout (e\<lparr>en_retryTimer := None\<rparr>))"

definition classify :: "'e sync_options \<Rightarrow> 'e sync_thrown \<Rightarrow> sync_failure_kind" where
  "classify opts x = (case op_classifyError opts of None \<Rightarrow> Kind_RETRY | Some f \<Rightarrow> f x)"

text \<open>\<open>drain\<close> from the head of its loop to its next await.\<close>

definition drain :: "('d, 'e) sync_engine \<Rightarrow> ('d, 'e) sync_engine" where
  "drain e = (if en_queued e \<and> \<not> en_stopped e
     then await (Await_Cursor False) (emit Call_read (setState SYNCING (e\<lparr>en_queued := False\<rparr>)))
     else await Await_Finally e)"

definition requestSync :: "('d, 'e) sync_engine \<Rightarrow> ('d, 'e) sync_engine" where
  "requestSync e =
    (if en_stopped e \<or> en_currentState e = TERMINAL then e
     else let e' = e\<lparr>en_queued := True\<rparr> in
       if en_retryTimer e' \<noteq> None then e'
       else if en_activeRun e' \<noteq> None then e'
       else drain e')"

definition start :: "('d, 'e) sync_engine \<Rightarrow> ('d, 'e) sync_engine" where
  "start e = (if \<not> en_stopped e then e else requestSync (setState IDLE (e\<lparr>en_stopped := False\<rparr>)))"

definition stop :: "('d, 'e) sync_engine \<Rightarrow> ('d, 'e) sync_engine" where
  "stop e = setState STOPPED (cancelRetry (e\<lparr>en_stopped := True, en_queued := False\<rparr>))"

definition handleFailure ::
    "'e sync_options \<Rightarrow> sync_failure_kind \<Rightarrow> ('d, 'e) sync_engine \<Rightarrow> ('d, 'e) sync_engine" where
  "handleFailure opts kind e =
    (if kind = Kind_TERMINAL then setState TERMINAL (e\<lparr>en_queued := False\<rparr>)
     else let delay = retryDelay (int (en_retryAttempt e))
            (case op_retryBaseMs opts of None \<Rightarrow> DEFAULT_RETRY_BASE_MS | Some b \<Rightarrow> b)
            (case op_retryMaxMs opts of None \<Rightarrow> DEFAULT_RETRY_MAX_MS | Some m \<Rightarrow> m);
          e' = setState RETRY_WAIT (e\<lparr>en_retryAttempt := en_retryAttempt e + 1, en_queued := True\<rparr>)
      in emit (Call_setTimeout delay) (e'\<lparr>en_retryTimer := Some delay\<rparr>))"

definition timer_fires :: "('d, 'e) sync_engine \<Rightarrow> ('d, 'e) sync_engine" where
  "timer_fires e = (if en_retryTimer e = None then e else requestSync (e\<lparr>en_retryTimer := None\<rparr>))"

text \<open>\<open>syncSnapshot\<close>: the head of its loop, and what follows once a page has been applied.\<close>

definition fetch_page ::
    "'e sync_options \<Rightarrow> bool \<Rightarrow> string option \<Rightarrow> ('d, 'e) sync_engine \<Rightarrow> ('d, 'e) sync_engine" where
  "fetch_page opts reset cursor e =
    (if en_stopped e then await (Await_Snapshot reset None) e
     else await (Await_Page reset cursor) (emit (Call_page cursor (op_pageSize opts)) e))"

definition write_cursor ::
    "bool \<Rightarrow> string option \<Rightarrow> 'd sync_response \<Rightarrow> ('d, 'e) sync_engine \<Rightarrow> ('d, 'e) sync_engine" where
  "write_cursor reset cursor response e =
    (if hasMore response \<and> Some (nextCursor response) = cursor
     then await (Await_Snapshot reset (Some Cursor_Did_Not_Advance)) e
     else await (Await_Write reset response) (emit (Call_write (nextCursor response)) e))"

definition page_arrived ::
    "bool \<Rightarrow> string option \<Rightarrow> 'd sync_response \<Rightarrow> ('d, 'e) sync_engine \<Rightarrow> ('d, 'e) sync_engine" where
  "page_arrived reset cursor response e =
    (if en_stopped e then await (Await_Snapshot reset None) e
     else if deltas response \<noteq> []
     then await (Await_Apply reset cursor response) (emit (Call_apply (deltas response)) e)
     else write_cursor reset cursor response e)"

definition page_applied ::
    "bool \<Rightarrow> string option \<Rightarrow> 'd sync_response \<Rightarrow> ('d, 'e) sync_engine \<Rightarrow> ('d, 'e) sync_engine" where
  "page_applied reset cursor response e =
    (if en_stopped e then await (Await_Snapshot reset None) e else write_cursor reset cursor response e)"

definition cursor_written ::
    "'e sync_options \<Rightarrow> bool \<Rightarrow> 'd sync_response \<Rightarrow> ('d, 'e) sync_engine \<Rightarrow> ('d, 'e) sync_engine" where
  "cursor_written opts reset response e =
    (if hasMore response then fetch_page opts reset (Some (nextCursor response)) e
     else await (Await_Snapshot reset None) e)"

text \<open>\<open>drain\<close> after its await of \<open>syncSnapshot\<close>, or of the clearing of a stale cursor.\<close>

definition snapshot_done :: "('d, 'e) sync_engine \<Rightarrow> ('d, 'e) sync_engine" where
  "snapshot_done e = (let e' = e\<lparr>en_retryAttempt := 0\<rparr> in
     drain (if en_stopped e' then e' else setState IDLE e'))"

definition reset_failed ::
    "'e sync_options \<Rightarrow> 'e sync_thrown \<Rightarrow> ('d, 'e) sync_engine \<Rightarrow> ('d, 'e) sync_engine" where
  "reset_failed opts x e =
    (if en_stopped e then await Await_Finally e
     else await Await_Finally (handleFailure opts (classify opts x) (emit (Call_onError x) e)))"

definition snapshot_failed ::
    "'e sync_options \<Rightarrow> 'e sync_thrown \<Rightarrow> ('d, 'e) sync_engine \<Rightarrow> ('d, 'e) sync_engine" where
  "snapshot_failed opts x e =
    (if en_stopped e then await Await_Finally e
     else let kind = classify opts x; e' = emit (Call_onError x) e in
       if kind = Kind_CURSOR_STALE then await Await_Clear (emit Call_clear e')
       else await Await_Finally (handleFailure opts kind e'))"

definition run_finally :: "('d, 'e) sync_engine \<Rightarrow> ('d, 'e) sync_engine" where
  "run_finally e = (let e' = e\<lparr>en_activeRun := None\<rparr> in
     if en_queued e' \<and> \<not> en_stopped e' \<and> en_currentState e' \<noteq> TERMINAL \<and> en_retryTimer e' = None
     then requestSync e' else e')"

section \<open>Steps\<close>

definition fulfilled ::
    "'e sync_options \<Rightarrow> ('d, 'e) sync_event \<Rightarrow> ('d, 'e) sync_await \<Rightarrow> ('d, 'e) sync_engine \<Rightarrow> ('d, 'e) sync_engine" where
  "fulfilled opts ev w e = (case (w, ev) of
     (Await_Cursor reset, Cursor_Is cursor) \<Rightarrow> fetch_page opts reset cursor e
   | (Await_Page reset cursor, Page_Is response) \<Rightarrow> page_arrived reset cursor response e
   | (Await_Apply reset cursor response, Done) \<Rightarrow> page_applied reset cursor response e
   | (Await_Write reset response, Done) \<Rightarrow> cursor_written opts reset response e
   | (Await_Clear, Done) \<Rightarrow> await (Await_Cursor True) (emit Call_read e)
   | (Await_Snapshot reset None, Turn) \<Rightarrow> snapshot_done e
   | (Await_Snapshot False (Some x), Turn) \<Rightarrow> snapshot_failed opts x e
   | (Await_Snapshot True (Some x), Turn) \<Rightarrow> reset_failed opts x e
   | (Await_Finally, Turn) \<Rightarrow> run_finally e
   | _ \<Rightarrow> e)"

definition rejected ::
    "'e sync_options \<Rightarrow> 'e \<Rightarrow> ('d, 'e) sync_await \<Rightarrow> ('d, 'e) sync_engine \<Rightarrow> ('d, 'e) sync_engine" where
  "rejected opts x w e = (case w of
     Await_Cursor reset \<Rightarrow> await (Await_Snapshot reset (Some (Thrown x))) e
   | Await_Page reset _ \<Rightarrow> await (Await_Snapshot reset (Some (Thrown x))) e
   | Await_Apply reset _ _ \<Rightarrow> await (Await_Snapshot reset (Some (Thrown x))) e
   | Await_Write reset _ \<Rightarrow> await (Await_Snapshot reset (Some (Thrown x))) e
   | Await_Clear \<Rightarrow> reset_failed opts (Thrown x) e
   | _ \<Rightarrow> e)"

definition engine_step ::
    "'e sync_options \<Rightarrow> ('d, 'e) sync_event \<Rightarrow> ('d, 'e) sync_engine \<Rightarrow> ('d, 'e) sync_engine" where
  "engine_step opts ev e = (case ev of
     Start \<Rightarrow> start e | Stop \<Rightarrow> stop e | Request \<Rightarrow> requestSync e | Timer_Fires \<Rightarrow> timer_fires e
   | Rejected x \<Rightarrow> (case en_activeRun e of None \<Rightarrow> e | Some w \<Rightarrow> rejected opts x w e)
   | _ \<Rightarrow> (case en_activeRun e of None \<Rightarrow> e | Some w \<Rightarrow> fulfilled opts ev w e))"

definition engine_run ::
    "'e sync_options \<Rightarrow> ('d, 'e) sync_event list \<Rightarrow> ('d, 'e) sync_engine \<Rightarrow> ('d, 'e) sync_engine" where
  "engine_run opts evs e = fold (engine_step opts) evs e"

section \<open>The engine is never stuck\<close>

definition run_waits :: "('d, 'e) sync_engine \<Rightarrow> bool" where
  "run_waits e \<longleftrightarrow> en_activeRun e \<noteq> None \<and> en_activeRun e \<noteq> Some Await_Finally"

text \<open>
  What each state promises. Whatever is queued has a run or a timer that will serve it, a retry timer
  runs in \<open>RETRY_WAIT\<close> only and never beside a run that waits for an option.
\<close>

definition engine_ok :: "('d, 'e) sync_engine \<Rightarrow> bool" where
  "engine_ok e = (case en_currentState e of
     STOPPED \<Rightarrow> en_stopped e \<and> \<not> en_queued e \<and> en_retryTimer e = None
   | IDLE \<Rightarrow> \<not> en_stopped e \<and> en_retryTimer e = None \<and> (en_queued e \<longrightarrow> en_activeRun e \<noteq> None)
   | SYNCING \<Rightarrow> \<not> en_stopped e \<and> en_retryTimer e = None \<and> run_waits e
   | RETRY_WAIT \<Rightarrow> \<not> en_stopped e \<and> en_queued e \<and> \<not> run_waits e \<and>
       (en_retryTimer e = None \<longrightarrow> en_activeRun e = Some Await_Finally)
   | TERMINAL \<Rightarrow> \<not> en_stopped e \<and> \<not> en_queued e \<and> en_retryTimer e = None \<and> \<not> run_waits e)"

text \<open>While the code of a run executes, there is no timer and no final state.\<close>

definition executing :: "('d, 'e) sync_engine \<Rightarrow> bool" where
  "executing e = (case en_currentState e of
     STOPPED \<Rightarrow> en_stopped e \<and> \<not> en_queued e \<and> en_retryTimer e = None
   | IDLE \<Rightarrow> \<not> en_stopped e \<and> en_retryTimer e = None
   | SYNCING \<Rightarrow> \<not> en_stopped e \<and> en_retryTimer e = None
   | _ \<Rightarrow> False)"

lemma executing_waits: "engine_ok e \<Longrightarrow> run_waits e \<Longrightarrow> executing e"
  by (cases "en_currentState e") (simp_all add: engine_ok_def executing_def)

lemma waits_iff [simp]: "run_waits (await w e) \<longleftrightarrow> w \<noteq> Await_Finally"
  by (simp add: run_waits_def await_def)

lemma engine_fields [simp]:
  "en_currentState (emit c e) = en_currentState e" "en_stopped (emit c e) = en_stopped e"
  "en_queued (emit c e) = en_queued e" "en_retryTimer (emit c e) = en_retryTimer e"
  "en_activeRun (emit c e) = en_activeRun e" "en_retryAttempt (emit c e) = en_retryAttempt e"
  "en_currentState (await w e) = en_currentState e" "en_stopped (await w e) = en_stopped e"
  "en_queued (await w e) = en_queued e" "en_retryTimer (await w e) = en_retryTimer e"
  "en_activeRun (await w e) = Some w" "en_retryAttempt (await w e) = en_retryAttempt e"
  "en_currentState (setState s e) = s" "en_stopped (setState s e) = en_stopped e"
  "en_queued (setState s e) = en_queued e" "en_retryTimer (setState s e) = en_retryTimer e"
  "en_activeRun (setState s e) = en_activeRun e" "en_retryAttempt (setState s e) = en_retryAttempt e"
  "en_currentState (cancelRetry e) = en_currentState e" "en_stopped (cancelRetry e) = en_stopped e"
  "en_queued (cancelRetry e) = en_queued e" "en_retryTimer (cancelRetry e) = None"
  "en_activeRun (cancelRetry e) = en_activeRun e"
  by (simp_all add: emit_def await_def setState_def cancelRetry_def)

lemma executing_emit [simp]: "executing (emit c e) = executing e"
  by (cases "en_currentState e") (simp_all add: executing_def)

lemma ok_await: "executing e \<Longrightarrow> w \<noteq> Await_Finally \<Longrightarrow> engine_ok (await w e)"
  by (cases "en_currentState e") (simp_all add: engine_ok_def executing_def)

lemma ok_finally: "executing e \<Longrightarrow> en_currentState e \<noteq> SYNCING \<Longrightarrow> engine_ok (await Await_Finally e)"
  by (cases "en_currentState e") (simp_all add: engine_ok_def executing_def)

lemma executing_stopped: "executing e \<Longrightarrow> en_stopped e \<longleftrightarrow> en_currentState e = STOPPED"
  by (cases "en_currentState e") (simp_all add: executing_def)

lemma ok_drain:
  assumes "executing e" and "en_currentState e = SYNCING \<Longrightarrow> en_queued e"
  shows "engine_ok (drain e)"
proof (cases "en_queued e \<and> \<not> en_stopped e")
  case True
  then have "engine_ok (await (Await_Cursor False) (emit Call_read (setState SYNCING (e\<lparr>en_queued := False\<rparr>))))"
    using assms(1) by (cases "en_currentState e") (simp_all add: engine_ok_def executing_def)
  with True show ?thesis by (simp add: drain_def)
next
  case False
  then have "en_currentState e \<noteq> SYNCING" using assms executing_stopped[OF assms(1)] by auto
  then show ?thesis using False ok_finally[OF assms(1)] by (auto simp: drain_def)
qed

lemma ok_failure:
  assumes "executing e" and "\<not> en_stopped e"
  shows "engine_ok (await Await_Finally (handleFailure opts kind e))"
  using assms by (cases "en_currentState e") (simp_all add: handleFailure_def engine_ok_def executing_def Let_def)

lemma ok_failed:
  assumes "executing e"
  shows "engine_ok (reset_failed opts x e)" "engine_ok (snapshot_failed opts x e)"
  using assms executing_stopped[OF assms]
  by (simp_all add: reset_failed_def snapshot_failed_def Let_def ok_failure ok_await ok_finally)

lemma ok_snapshot:
  assumes "executing e"
  shows "engine_ok (fetch_page opts reset c e)" "engine_ok (write_cursor reset c r e)"
    "engine_ok (page_arrived reset c r e)" "engine_ok (page_applied reset c r e)" "engine_ok (cursor_written opts reset r e)"
  using assms by (simp_all add: fetch_page_def write_cursor_def page_arrived_def page_applied_def cursor_written_def ok_await)

lemma ok_done: "executing e \<Longrightarrow> engine_ok (snapshot_done e)"
  unfolding snapshot_done_def Let_def
  by (rule ok_drain; cases "en_currentState e") (simp_all add: executing_def)

text \<open>When a request may be made, and what the client's calls and the timer do.\<close>

definition ready :: "('d, 'e) sync_engine \<Rightarrow> bool" where
  "ready e = (case en_currentState e of
     STOPPED \<Rightarrow> engine_ok e
   | IDLE \<Rightarrow> \<not> en_stopped e \<and> en_retryTimer e = None
   | SYNCING \<Rightarrow> \<not> en_stopped e \<and> en_retryTimer e = None \<and> run_waits e
   | RETRY_WAIT \<Rightarrow> \<not> en_stopped e \<and> \<not> run_waits e
   | TERMINAL \<Rightarrow> engine_ok e)"

lemma drain_queued: "en_queued e \<Longrightarrow> \<not> en_stopped e \<Longrightarrow> en_retryTimer e = None \<Longrightarrow> engine_ok (drain e)"
  by (simp add: drain_def engine_ok_def)

lemma run_waits_queued [simp]: "run_waits (e\<lparr>en_queued := q\<rparr>) = run_waits e"
  by (simp add: run_waits_def)

lemma ok_request:
  assumes "ready e"
  shows "engine_ok (requestSync e)"
proof (cases "en_stopped e \<or> en_currentState e = TERMINAL")
  case True
  with assms show ?thesis by (cases "en_currentState e") (simp_all add: ready_def requestSync_def)
next
  case live: False
  show ?thesis
  proof (cases "en_retryTimer e = None \<and> en_activeRun e = None")
    case True
    then show ?thesis using live by (simp add: requestSync_def Let_def drain_queued)
  next
    case False
    then have "requestSync e = e\<lparr>en_queued := True\<rparr>" using live by (auto simp: requestSync_def Let_def)
    then show ?thesis using assms live False
      by (cases "en_currentState e") (auto simp: ready_def engine_ok_def run_waits_def)
  qed
qed

lemma ready_ok: "engine_ok e \<Longrightarrow> ready e"
  by (cases "en_currentState e") (simp_all add: ready_def engine_ok_def)

lemma ok_client:
  assumes "engine_ok e"
  shows "engine_ok (start e)" "engine_ok (stop e)" "engine_ok (requestSync e)" "engine_ok (timer_fires e)"
    "en_activeRun e = Some Await_Finally \<Longrightarrow> engine_ok (run_finally e)"
proof -
  show "engine_ok (stop e)" by (simp add: stop_def engine_ok_def)
  show "engine_ok (requestSync e)" by (rule ok_request[OF ready_ok[OF assms]])
  have "ready (setState IDLE (e\<lparr>en_stopped := False\<rparr>))" if "en_stopped e"
    using that assms by (cases "en_currentState e") (simp_all add: ready_def engine_ok_def)
  then show "engine_ok (start e)" using assms by (simp add: start_def ok_request)
  have "ready (e\<lparr>en_retryTimer := None\<rparr>)" if "en_retryTimer e \<noteq> None"
    using that assms by (cases "en_currentState e") (simp_all add: ready_def engine_ok_def run_waits_def)
  then show "engine_ok (timer_fires e)" using assms by (simp add: timer_fires_def ok_request)
  assume f: "en_activeRun e = Some Await_Finally"
  let ?e = "e\<lparr>en_activeRun := None\<rparr>"
  show "engine_ok (run_finally e)"
  proof (cases "en_queued e \<and> \<not> en_stopped e \<and> en_currentState e \<noteq> TERMINAL \<and> en_retryTimer e = None")
    case True
    then have "ready ?e" using assms f by (cases "en_currentState e") (simp_all add: ready_def engine_ok_def run_waits_def)
    with True show ?thesis by (simp add: run_finally_def Let_def ok_request)
  next
    case False
    then have "run_finally e = ?e" by (auto simp: run_finally_def Let_def)
    with False assms f show ?thesis by (cases "en_currentState e") (simp_all add: engine_ok_def run_waits_def)
  qed
qed

lemma ok_rejected:
  assumes "engine_ok e" "en_activeRun e = Some w"
  shows "engine_ok (rejected opts x w e)"
proof (cases w)
  case Await_Finally
  then show ?thesis using assms(1) by (simp add: rejected_def)
next
  case (Await_Snapshot a b)
  then show ?thesis using assms(1) by (simp add: rejected_def)
qed (use assms executing_waits[OF assms(1)] in \<open>simp_all add: rejected_def run_waits_def ok_await ok_failed\<close>)

lemma ok_fulfilled:
  assumes "engine_ok e" "en_activeRun e = Some w"
  shows "engine_ok (fulfilled opts ev w e)"
proof (cases "w = Await_Finally")
  case True
  then show ?thesis using assms ok_client(5) by (cases ev) (simp_all add: fulfilled_def)
next
  case False
  then have "executing e" using executing_waits[OF assms(1)] assms(2) by (simp add: run_waits_def)
  then show ?thesis using assms(1) False
    by (auto simp: fulfilled_def ok_await ok_failed ok_snapshot ok_done
        split: sync_await.splits sync_event.splits bool.splits option.splits)
qed

lemma ok_step: "engine_ok e \<Longrightarrow> engine_ok (engine_step opts ev e)"
  by (cases ev) (simp_all add: engine_step_def ok_client ok_rejected ok_fulfilled split: option.split)

lemma reachable_ok: "engine_ok (engine_run opts evs (new_engine :: ('d, 'e) sync_engine))"
proof -
  have "engine_ok (fold (engine_step opts) evs e)" if "engine_ok e" for e :: "('d, 'e) sync_engine"
    using that by (induction evs arbitrary: e) (simp_all add: ok_step)
  moreover have "engine_ok (new_engine :: ('d, 'e) sync_engine)" by (simp add: engine_ok_def new_engine_def)
  ultimately show ?thesis by (simp add: engine_run_def)
qed

section \<open>A stopped engine is silent\<close>

text \<open>
  Whatever was under way, a stopped engine reads no page, applies nothing, stores and clears no
  cursor and starts no timer until it is started again: it at most reads the stored cursor once.
\<close>

definition silent_from :: "('d, 'e) sync_engine \<Rightarrow> nat" where
  "silent_from e = (if en_activeRun e = Some Await_Clear then 1 else 0)"

lemma stopped_quiet:
  assumes "engine_ok e" "en_stopped e"
  shows "en_currentState e = STOPPED" "\<not> en_queued e" "en_retryTimer e = None"
  using assms by (cases "en_currentState e"; simp add: engine_ok_def)+

lemma calls_fields [simp]:
  "en_calls (emit c e) = en_calls e @ [c]" "en_calls (await w e) = en_calls e"
  by (simp_all add: emit_def await_def)

lemma stopped_fulfilled:
  assumes "engine_ok e" "en_stopped e" "en_activeRun e = Some w"
  shows "\<exists>k. en_calls (fulfilled opts ev w e) = en_calls e @ replicate k Call_read \<and> en_stopped (fulfilled opts ev w e) \<and>
    k + silent_from (fulfilled opts ev w e) \<le> silent_from e"
proof -
  note q = stopped_quiet[OF assms(1,2)] assms(2,3)
  have await: "\<exists>k. en_calls (await v e) = en_calls e @ replicate k Call_read \<and> en_stopped (await v e) \<and>
      k + silent_from (await v e) \<le> silent_from e" if "v \<noteq> Await_Clear" for v
    using that q by (intro exI[of _ 0]) (simp add: silent_from_def)
  have same: "\<exists>k. en_calls e = en_calls e @ replicate k Call_read \<and> en_stopped e \<and> k + silent_from e \<le> silent_from e"
    using q by (intro exI[of _ 0]) simp
  have reread: "\<exists>k. en_calls (await (Await_Cursor True) (emit Call_read e)) = en_calls e @ replicate k Call_read \<and>
      en_stopped (await (Await_Cursor True) (emit Call_read e)) \<and>
      k + silent_from (await (Await_Cursor True) (emit Call_read e)) \<le> silent_from e" if "w = Await_Clear"
    using that q by (intro exI[of _ 1]) (simp add: silent_from_def)
  have written: "\<exists>k. en_calls (cursor_written opts b r e) = en_calls e @ replicate k Call_read \<and>
      en_stopped (cursor_written opts b r e) \<and> k + silent_from (cursor_written opts b r e) \<le> silent_from e" for b r
    using q by (intro exI[of _ 0]) (simp add: cursor_written_def fetch_page_def silent_from_def)
  have finished: "\<exists>k. en_calls (drain (e\<lparr>en_retryAttempt := 0\<rparr>)) = en_calls e @ replicate k Call_read \<and>
      en_stopped (drain (e\<lparr>en_retryAttempt := 0\<rparr>)) \<and> k + silent_from (drain (e\<lparr>en_retryAttempt := 0\<rparr>)) \<le> silent_from e"
    using q by (intro exI[of _ 0]) (simp add: drain_def silent_from_def)
  have closed: "\<exists>k. en_calls (run_finally e) = en_calls e @ replicate k Call_read \<and>
      en_stopped (run_finally e) \<and> k + silent_from (run_finally e) \<le> silent_from e"
    using q by (intro exI[of _ 0]) (simp add: run_finally_def silent_from_def)
  show ?thesis
    using q await same reread written finished closed
    by (auto simp: fulfilled_def fetch_page_def page_arrived_def page_applied_def snapshot_done_def
        snapshot_failed_def reset_failed_def Let_def
        split: sync_await.splits sync_event.splits bool.splits option.splits)
qed

lemma stopped_step:
  assumes "engine_ok e" "en_stopped e" "ev \<noteq> Start"
  shows "\<exists>k. en_calls (engine_step opts ev e) = en_calls e @ replicate k Call_read \<and> en_stopped (engine_step opts ev e) \<and>
      k + silent_from (engine_step opts ev e) \<le> silent_from e"
proof -
  note q = stopped_quiet[OF assms(1,2)] assms(2)
  have rejected: "\<exists>k. en_calls (rejected opts x w e) = en_calls e @ replicate k Call_read \<and> en_stopped (rejected opts x w e) \<and>
      k + silent_from (rejected opts x w e) \<le> silent_from e" if "en_activeRun e = Some w" for x w
    using q that by (intro exI[of _ 0]) (auto simp: rejected_def reset_failed_def silent_from_def split: sync_await.splits)
  have stopped: "stop e = e" using q by (simp add: stop_def cancelRetry_def setState_def)
  show ?thesis
  proof (cases ev)
    case (Rejected x)
    then show ?thesis using q rejected by (cases "en_activeRun e") (auto simp: engine_step_def intro: exI[of _ 0])
  qed (use assms q stopped stopped_fulfilled[OF assms(1,2)] in
    \<open>auto simp: engine_step_def requestSync_def timer_fires_def intro: exI[of _ 0] split: option.split\<close>)
qed

lemma stopped_run:
  assumes "Start \<notin> set later" "engine_ok e" "en_stopped e"
  shows "\<exists>k. en_calls (fold (engine_step opts) later e) = en_calls e @ replicate k Call_read \<and> k \<le> silent_from e \<and>
    en_stopped (fold (engine_step opts) later e) \<and> engine_ok (fold (engine_step opts) later e)"
  using assms
proof (induction later arbitrary: e)
  case (Cons ev later)
  then obtain k where k: "en_calls (engine_step opts ev e) = en_calls e @ replicate k Call_read"
    "en_stopped (engine_step opts ev e)" "k + silent_from (engine_step opts ev e) \<le> silent_from e"
    using stopped_step[of e ev opts] by auto
  moreover obtain m where "en_calls (fold (engine_step opts) later (engine_step opts ev e)) =
      en_calls (engine_step opts ev e) @ replicate m Call_read" "m \<le> silent_from (engine_step opts ev e)"
    "en_stopped (fold (engine_step opts) later (engine_step opts ev e))"
    "engine_ok (fold (engine_step opts) later (engine_step opts ev e))"
    using Cons.IH[OF _ ok_step[OF Cons.prems(2)] k(2)] Cons.prems(1) by auto
  ultimately show ?case by (intro exI[of _ "k + m"]) (simp add: replicate_add)
qed (auto intro: exI[of _ 0])

lemma silent_from_le: "silent_from e \<le> 1"
  by (simp add: silent_from_def)

section \<open>Where a step leaves the run\<close>

text \<open>Outside the reading, applying and storing of a page.\<close>

definition between_pages :: "('d, 'e) sync_await option \<Rightarrow> bool" where
  "between_pages r = (case r of
     Some (Await_Page _ _) \<Rightarrow> False | Some (Await_Apply _ _ _) \<Rightarrow> False | Some (Await_Write _ _) \<Rightarrow> False | _ \<Rightarrow> True)"

lemma between_pages_simps [simp]:
  "between_pages None" "between_pages (Some (Await_Cursor b))" "between_pages (Some Await_Clear)"
  "between_pages (Some (Await_Snapshot b x))" "between_pages (Some Await_Finally)"
  by (simp_all add: between_pages_def)

lemma between_drain [simp]: "between_pages (en_activeRun (drain e))"
  by (simp add: drain_def)

lemma run_request: "en_activeRun (requestSync e) = en_activeRun e \<or> between_pages (en_activeRun (requestSync e))"
  by (simp add: requestSync_def Let_def)

lemma run_plain_step:
  assumes "ev \<in> {Start, Stop, Request, Timer_Fires, Turn} \<union> range Rejected"
  shows "en_activeRun (engine_step opts ev e) = en_activeRun e \<or> between_pages (en_activeRun (engine_step opts ev e))"
proof -
  have client: "en_activeRun (f e) = en_activeRun e \<or> between_pages (en_activeRun (f e))"
    if "f \<in> {start, stop, requestSync, timer_fires}" for f
    using that run_request[of e] run_request[of "setState IDLE (e\<lparr>en_stopped := False\<rparr>)"]
      run_request[of "e\<lparr>en_retryTimer := None\<rparr>"]
    by (auto simp: start_def stop_def timer_fires_def)
  have turn: "between_pages (en_activeRun (fulfilled opts Turn w e)) \<or> en_activeRun (fulfilled opts Turn w e) = en_activeRun e" for w
    using run_request[of "e\<lparr>en_activeRun := None\<rparr>"]
    by (auto simp: fulfilled_def snapshot_done_def snapshot_failed_def reset_failed_def run_finally_def Let_def
        split: sync_await.splits bool.splits option.splits)
  have failed: "between_pages (en_activeRun (rejected opts x w e)) \<or> en_activeRun (rejected opts x w e) = en_activeRun e" for x w
    by (simp add: rejected_def reset_failed_def split: sync_await.splits)
  show ?thesis
  proof (cases ev)
    case Turn
    then show ?thesis using turn by (cases "en_activeRun e") (auto simp: engine_step_def)
  next
    case (Rejected x)
    then show ?thesis using failed by (cases "en_activeRun e") (auto simp: engine_step_def)
  qed (use assms client in \<open>auto simp: engine_step_def\<close>)
qed

lemma run_cursor_step:
  "en_activeRun e = Some (Await_Cursor b) \<Longrightarrow>
    en_activeRun (engine_step opts (Cursor_Is c) e) \<in> {Some (Await_Snapshot b None), Some (Await_Page b c)}"
  by (simp add: engine_step_def fulfilled_def fetch_page_def)

lemma run_page_step:
  assumes "en_activeRun e = Some (Await_Page b c)"
  shows "en_activeRun (engine_step opts (Page_Is r) e) = Some (Await_Apply b c r) \<or>
    between_pages (en_activeRun (engine_step opts (Page_Is r) e)) \<or>
    en_activeRun (engine_step opts (Page_Is r) e) = Some (Await_Write b r) \<and> deltas r = []"
  using assms by (simp add: engine_step_def fulfilled_def page_arrived_def write_cursor_def)

lemma run_applied_step:
  assumes "en_activeRun e = Some (Await_Apply b c r)"
  shows "between_pages (en_activeRun (engine_step opts Done e)) \<or> en_activeRun (engine_step opts Done e) = Some (Await_Write b r)"
  using assms by (simp add: engine_step_def fulfilled_def page_applied_def write_cursor_def)

lemma run_written_step:
  assumes "en_activeRun e = Some (Await_Write b r)"
  shows "between_pages (en_activeRun (engine_step opts Done e)) \<or>
    en_activeRun (engine_step opts Done e) = Some (Await_Page b (Some (nextCursor r)))"
  using assms by (simp add: engine_step_def fulfilled_def cursor_written_def fetch_page_def)

lemma run_cleared_step:
  "en_activeRun e = Some Await_Clear \<Longrightarrow> between_pages (en_activeRun (engine_step opts Done e))"
  by (simp add: engine_step_def fulfilled_def)

end
