(* ===== verification/Sync_Delivery.thy ===== *)
theory Sync_Delivery
  imports Sync_Engine Direct_Properties
begin

text \<open>
  The parts of the sync stream together: the durable events of direct chats as the service reads
  them, the cursor store of \<open>web-sync.ts\<close>, the engine, and the deltas the client has applied, while
  requests to direct chats go on. Every delta up to the stored cursor has been applied.
\<close>

section \<open>The stored events\<close>

text \<open>The row \<open>durable-events.ts\<close> creates for an event, and the tables the service reads.\<close>

definition stored_event_of :: "durable_event \<Rightarrow> stored_event" where
  "stored_event_of e = \<lparr>se_id = de_id e, se_eventType = de_eventType e, se_changeKind = ''UPSERT_REF'',
    se_scopeKind = ''DIRECT_CHAT'', se_scopeId = de_scopeId e, se_occurredAt = de_occurredAt e,
    se_payload = JObj ((''conversationId'', JStr (de_scopeId e)) #
      (case de_messageId e of None \<Rightarrow> [] | Some m \<Rightarrow> [(''messageId'', JStr m)]))\<rparr>"

definition event_rows :: "durable_event \<Rightarrow> recipient_row list" where
  "event_rows e = map (\<lambda>(u, p). \<lparr>rp_userId = u, rp_position = p, rp_event = stored_event_of e\<rparr>) (de_recipients e)"

definition sync_tables_of :: "chat_db \<Rightarrow> sync_tables" where
  "sync_tables_of db = \<lparr>tb_states = ch_sync db, tb_recipients = concat (map event_rows (ch_events db)),
    tb_members = member_keys db\<rparr>"

section \<open>What every state of the tables promises the stream\<close>

definition event_typed :: "chat_db \<Rightarrow> durable_event \<Rightarrow> bool" where
  "event_typed db e \<longleftrightarrow>
    (de_eventType e = ''DIRECT_MESSAGE_CREATED'' \<and> de_messageId e = Some (de_id e) \<or>
     de_eventType e = ''DIRECT_READ_UPDATED'' \<and> de_messageId e = None) \<and>
    (\<forall>u \<in> fst ` set (de_recipients e). (de_scopeId e, u) \<in> set (member_keys db))"

definition events_typed :: "chat_db \<Rightarrow> bool" where
  "events_typed db \<longleftrightarrow> list_all (event_typed db) (ch_events db) \<and>
    list_all (\<lambda>s. sy_minRetainedPosition s = 0) (ch_sync db)"

lemma event_typed_mono: "event_typed db e \<Longrightarrow> set (member_keys db) \<subseteq> set (member_keys db') \<Longrightarrow> event_typed db' e"
  by (auto simp: event_typed_def)

lemma bump_retained:
  "list_all (\<lambda>s. sy_minRetainedPosition s = 0) states \<Longrightarrow>
    list_all (\<lambda>s. sy_minRetainedPosition s = 0) (fold bump_position us states)"
proof (induction us arbitrary: states)
  case (Cons u us)
  have "list_all (\<lambda>s. sy_minRetainedPosition s = 0) (bump_position u states)"
    using Cons.prems by (auto simp: bump_position_def list_all_iff set_row_update)
  with Cons.IH show ?case by simp
qed simp

lemma write_event_typed:
  assumes w: "write_event e t c now x us db = Inr db'" and ok: "events_typed db"
    and new: "t = ''DIRECT_MESSAGE_CREATED'' \<and> x = Some e \<or> t = ''DIRECT_READ_UPDATED'' \<and> x = None"
      "\<forall>u \<in> set us. (c, u) \<in> set (member_keys db)"
  shows "events_typed db'" "\<exists>ev. ch_events db' = ch_events db @ [ev]"
proof -
  obtain ev where ev: "ch_events db' = ch_events db @ [ev]" "de_id ev = e" "de_eventType ev = t" "de_scopeId ev = c"
    "de_messageId ev = x" "map fst (de_recipients ev) = us"
    using write_event_events[OF w] by blast
  then show "\<exists>ev. ch_events db' = ch_events db @ [ev]" by blast
  have keys: "member_keys db' = member_keys db" using write_event_frame(9)[OF w] .
  have "fst ` set (de_recipients ev) = set us" using ev(6) by (metis set_map)
  then have "event_typed db' ev" using ev new by (auto simp: event_typed_def keys)
  moreover have "list_all (event_typed db') (ch_events db)"
    using ok event_typed_mono keys by (auto simp: events_typed_def list_all_iff)
  moreover have "ch_sync db' = fold bump_position us (ch_sync db)"
    using w by (auto simp: write_event_def Let_def split: if_splits)
  ultimately show "events_typed db'"
    using ok bump_retained by (simp add: events_typed_def ev(1))
qed

definition events_grow :: "chat_db \<Rightarrow> chat_db \<Rightarrow> bool" where
  "events_grow db db' \<longleftrightarrow> (\<exists>new. ch_events db' = ch_events db @ new) \<and>
    set (member_keys db) \<subseteq> set (member_keys db')"

lemma events_typed_frame:
  "events_typed db \<Longrightarrow> ch_events db' = ch_events db \<Longrightarrow> ch_sync db' = ch_sync db \<Longrightarrow>
    set (member_keys db) \<subseteq> set (member_keys db') \<Longrightarrow> events_typed db' \<and> events_grow db db'"
  by (auto simp: events_typed_def events_grow_def list_all_iff intro: event_typed_mono)

lemma move_typed:
  assumes "chat_move db db'" and ok: "events_typed db"
  shows "events_typed db' \<and> events_grow db db'"
  using assms(1)
proof (cases rule: chat_move.cases)
  case (Open_Chat a b r)
  show ?thesis by (rule events_typed_frame[OF ok]) (auto simp: Open_Chat(1) member_keys_def)
next
  case (Announce e c now u)
  have "\<forall>v \<in> set [u]. (c, v) \<in> set (member_keys db)" using Announce(2) by (simp add: member_keys_def)
  from write_event_typed[OF Announce(1) ok _ this] show ?thesis
    using write_event_frame(9)[OF Announce(1)] by (auto simp: events_grow_def)
next
  case (Accept r m a b)
  let ?db = "accept_message r m db"
  have "events_typed ?db" using events_typed_frame[OF ok, of ?db] by simp
  moreover have "\<forall>u \<in> set (sent_to (cv_id r) db). (cv_id r, u) \<in> set (member_keys ?db)"
    by (force simp: sent_to_def members_of_def member_keys_def)
  ultimately show ?thesis
    using write_event_typed[OF Accept(11)] write_event_frame(9)[OF Accept(11)] by (auto simp: events_grow_def)
qed (use events_typed_frame[OF ok, of db'] in simp_all)

lemma moves_typed:
  assumes "chat_move\<^sup>*\<^sup>* db db'" and "events_typed db"
  shows "events_typed db' \<and> events_grow db db'"
  using assms
proof (induction rule: rtranclp_induct)
  case base
  then show ?case by (simp add: events_grow_def)
next
  case (step y z)
  then have y: "events_typed y" "events_grow db y" by blast+
  then show ?case using move_typed[OF step.hyps(2) y(1)] unfolding events_grow_def by (metis append.assoc subset_trans)
qed

section \<open>The stream the service reads\<close>

definition head_of :: "string \<Rightarrow> chat_db \<Rightarrow> int" where
  "head_of u db = last_position u (ch_sync db)"

text \<open>Columns of type \<open>uuid\<close> and 64-bit positions, as the schema of the tables has them.\<close>

definition columns_ok :: "sync_params \<Rightarrow> chat_db \<Rightarrow> bool" where
  "columns_ok sp db \<longleftrightarrow> list_all (\<lambda>e. sp_isUuid sp (de_id e) \<and> sp_isUuid sp (de_scopeId e)) (ch_events db) \<and>
    list_all (\<lambda>s. sy_lastPosition s \<le> MAX_BIGINT_64) (ch_sync db)"

definition event_delta :: "sync_params \<Rightarrow> durable_event \<Rightarrow> sync_delta" where
  "event_delta sp e = the (syncDeltaSchema (sp_isUuid sp) (stored_event_of e))"

definition addressed :: "string \<Rightarrow> durable_event \<Rightarrow> int \<Rightarrow> bool" where
  "addressed u e p \<longleftrightarrow> (u, p) \<in> set (de_recipients e)"

lemma positions_iff: "p \<in> set (positions u events) \<longleftrightarrow> (\<exists>e \<in> set events. addressed u e p)"
  by (force simp: positions_def addressed_def)

lemma state_positions_of:
  assumes "events_typed db"
  shows "state_positions u (sync_tables_of db) = (head_of u db, 0)"
proof (cases "row_find sy_userId u (ch_sync db)")
  case (Some s)
  then have "sy_minRetainedPosition s = 0"
    using assms row_find_Some[OF Some] by (simp add: events_typed_def list_all_iff)
  with Some show ?thesis by (simp add: state_positions_def sync_tables_of_def head_of_def last_position_def)
qed (simp add: state_positions_def sync_tables_of_def head_of_def last_position_def)

lemma rows_of:
  "row \<in> set (stream u (sync_tables_of db)) \<longleftrightarrow> (\<exists>e \<in> set (ch_events db). \<exists>p. addressed u e p \<and>
    row = \<lparr>rp_userId = u, rp_position = p, rp_event = stored_event_of e\<rparr>)"
  by (auto simp: stream_def sync_tables_of_def event_rows_def addressed_def)

lemma stream_positions:
  assumes "sync_ok db"
  shows "map rp_position (stream u (sync_tables_of db)) = [1..head_of u db]"
proof -
  have one: "map rp_position (filter (\<lambda>r. rp_userId r = u) (event_rows e)) = map snd (filter (\<lambda>p. fst p = u) (de_recipients e))" for e
    by (simp add: event_rows_def filter_map comp_def case_prod_beta)
  let ?rows = "filter (\<lambda>r. rp_userId r = u) (concat (map event_rows (ch_events db)))"
  have "map rp_position ?rows = positions u (ch_events db)"
    by (simp add: positions_def filter_concat map_concat comp_def one)
  also have "\<dots> = [1..head_of u db]" using assms by (simp add: sync_ok_def head_of_def)
  finally have rows: "map rp_position ?rows = [1..head_of u db]" .
  then have "sort_key rp_position ?rows = ?rows" by (intro sort_key_id_if_sorted) simp
  with rows show ?thesis by (simp add: stream_def sync_tables_of_def)
qed

lemma typed_row:
  assumes "event_typed db e" "sp_isUuid sp (de_id e)" "sp_isUuid sp (de_scopeId e)" "addressed u e p"
  defines "row \<equiv> \<lparr>rp_userId = u, rp_position = p, rp_event = stored_event_of e\<rparr>"
  shows "row_valid sp row" "visible u (sync_tables_of db) row" "row_delta sp row = event_delta sp e"
proof -
  have c: "payload_uuid f (JObj ((''conversationId'', JStr c) # rest)) ''conversationId'' = (if f c then Some c else None)"
    "payload_uuid f (JObj [(''conversationId'', JStr c), (''messageId'', JStr m)]) ''messageId'' = (if f m then Some m else None)"
    for f c m rest
    by (simp_all add: payload_uuid_def json_get_def)
  show "row_valid sp row"
    using assms(1-3) by (auto simp: row_def row_valid_def event_typed_def assertSupportedSyncEvent_def guard_res_def
        stored_event_of_def supported_kind_def syncDeltaSchema_def payload_fields_def c Let_def)
  show "visible u (sync_tables_of db) row"
    using assms(1,4) by (force simp: row_def visible_def event_typed_def stored_event_of_def sync_tables_of_def addressed_def)
  show "row_delta sp row = event_delta sp e" by (simp add: row_def row_delta_def event_delta_def)
qed

lemma stream_ok_of:
  assumes "sync_ok db" "events_typed db" "columns_ok sp db"
  shows "stream_ok sp u (sync_tables_of db)"
proof -
  have "0 \<le> head_of u db" using assms(1) by (simp add: sync_ok_def head_of_def)
  moreover have "head_of u db \<le> MAX_BIGINT_64"
    using assms(3) by (auto simp: head_of_def last_position_def columns_ok_def list_all_iff MAX_BIGINT_64_def
        dest: row_find_Some split: option.split)
  moreover have "list_all (row_valid sp) (stream u (sync_tables_of db))"
  proof -
    have "row_valid sp \<lparr>rp_userId = u, rp_position = p, rp_event = stored_event_of e\<rparr>"
      if "e \<in> set (ch_events db)" "addressed u e p" for e p
      using that assms(2,3) by (intro typed_row(1)[of db]) (simp_all add: events_typed_def columns_ok_def list_all_iff)
    then show ?thesis by (auto simp: list_all_iff rows_of)
  qed
  ultimately show ?thesis
    using state_positions_of[OF assms(2), of u] stream_positions[OF assms(1)] by (simp add: stream_ok_def)
qed

text \<open>Between two positions the client is sent the events that are addressed to the user there.\<close>

lemma deltas_between_set:
  assumes "events_typed db" "columns_ok sp db"
  shows "set (deltas_between sp u (sync_tables_of db) p n) =
    {event_delta sp e | e q. e \<in> set (ch_events db) \<and> addressed u e q \<and> p < q \<and> q \<le> n}"
proof -
  have typed: "event_typed db e" "sp_isUuid sp (de_id e)" "sp_isUuid sp (de_scopeId e)" if "e \<in> set (ch_events db)" for e
    using that assms by (simp_all add: events_typed_def columns_ok_def list_all_iff)
  show ?thesis
    unfolding deltas_between_def rows_between_def set_map set_filter
    by (force simp: rows_of typed_row(2,3)[OF typed])
qed

section \<open>web-sync.ts\<close>

text \<open>The cursor store of a tab; a storage operation may throw, which each operation survives.\<close>

record web_store =
  ws_stored :: "string option"
  ws_memoryCursor :: "string option option"

definition new_store :: web_store where
  "new_store = \<lparr>ws_stored = None, ws_memoryCursor = None\<rparr>"

definition store_read :: "bool \<Rightarrow> web_store \<Rightarrow> string option \<times> web_store" where
  "store_read throws ws =
    (if throws then (case ws_memoryCursor ws of None \<Rightarrow> None | Some m \<Rightarrow> m, ws)
     else (ws_stored ws, ws\<lparr>ws_memoryCursor := Some (ws_stored ws)\<rparr>))"

definition store_write :: "bool \<Rightarrow> string \<Rightarrow> web_store \<Rightarrow> web_store" where
  "store_write throws cursor ws = (let ws' = ws\<lparr>ws_memoryCursor := Some (Some cursor)\<rparr> in
     if throws then ws' else ws'\<lparr>ws_stored := Some cursor\<rparr>)"

definition store_clear :: "bool \<Rightarrow> web_store \<Rightarrow> web_store" where
  "store_clear throws ws = (let ws' = ws\<lparr>ws_memoryCursor := Some None\<rparr> in
     if throws then ws' else ws'\<lparr>ws_stored := None\<rparr>)"

datatype client_error = AuthRequiredError | ClientApiError string | OtherError

definition classifySyncError :: "client_error sync_thrown \<Rightarrow> sync_failure_kind" where
  "classifySyncError error = (case error of
     Thrown AuthRequiredError \<Rightarrow> Kind_TERMINAL
   | Thrown (ClientApiError code) \<Rightarrow>
       if code = ''sync_cursor_stale'' \<or> code = ''sync_cursor_invalid'' then Kind_CURSOR_STALE else Kind_RETRY
   | _ \<Rightarrow> Kind_RETRY)"

text \<open>
  \<open>client-api/src/sync.ts\<close>: the client checks the cursor before it sends the request, and the
  transport turns an answer that is not a page into an error with its code.
\<close>

definition error_code :: "sync_error \<Rightarrow> string" where
  "error_code e = (case e of BadRequest code \<Rightarrow> code | Conflict code \<Rightarrow> code | _ \<Rightarrow> ''internal_error'')"

definition client_read ::
    "sync_params \<Rightarrow> string \<Rightarrow> string option \<Rightarrow> nat option \<Rightarrow> sync_tables \<Rightarrow> client_error + sync_delta sync_response" where
  "client_read sp u cursor limit tb =
    (if (case cursor of None \<Rightarrow> False | Some c \<Rightarrow> \<not> syncCursorSchema c) then Inl OtherError
     else map_sum (\<lambda>e. ClientApiError (error_code e)) id
       (readSync sp u (Some \<lparr>sq_protocolVersion = Some ''1'', sq_cursor = cursor,
         sq_limit = map_option (\<lambda>n. Some (int n)) limit, sq_otherKeys = False\<rparr>) tb))"

section \<open>The stream from end to end\<close>

text \<open>
  The tables of direct chats with their past, the engine of one tab of user \<open>u\<close>, its cursor store
  and the deltas its sink has applied. A page may be read from any earlier state of the tables; a sink
  that fails has applied some of the deltas.
\<close>

type_synonym web_engine = "(sync_delta, client_error) sync_engine"

record sync_world =
  wd_hist :: "chat_db list"
  wd_engine :: web_engine
  wd_store :: web_store
  wd_applied :: "sync_delta list"

datatype world_event =
    Chat_Request chat_request
  | Tab_Start | Tab_Stop | Tab_Request | Tab_Timer | Tab_Turn
  | Storage_Answers bool
  | Page_Answers nat
  | Page_Lost client_error
  | Sink_Applied
  | Sink_Failed nat client_error

definition engine_does ::
    "client_error sync_options \<Rightarrow> (sync_delta, client_error) sync_event \<Rightarrow> sync_world \<Rightarrow> sync_world" where
  "engine_does opts ev w = w\<lparr>wd_engine := engine_step opts ev (wd_engine w)\<rparr>"

definition world_step ::
    "chat_params \<Rightarrow> sync_params \<Rightarrow> client_error sync_options \<Rightarrow> string \<Rightarrow> world_event \<Rightarrow> sync_world \<Rightarrow> sync_world" where
  "world_step P sp opts u ev w = (case ev of
     Chat_Request q \<Rightarrow> w\<lparr>wd_hist := snd (handle_chat P q (wd_hist w)) # wd_hist w\<rparr>
   | Tab_Start \<Rightarrow> engine_does opts Start w
   | Tab_Stop \<Rightarrow> engine_does opts Stop w
   | Tab_Request \<Rightarrow> engine_does opts Request w
   | Tab_Timer \<Rightarrow> engine_does opts Timer_Fires w
   | Tab_Turn \<Rightarrow> engine_does opts Turn w
   | Storage_Answers throws \<Rightarrow> (case en_activeRun (wd_engine w) of
         Some (Await_Cursor reset) \<Rightarrow> (case store_read throws (wd_store w) of (cursor, ws) \<Rightarrow>
           engine_does opts (Cursor_Is cursor) (w\<lparr>wd_store := ws\<rparr>))
       | Some (Await_Write reset r) \<Rightarrow>
           engine_does opts Done (w\<lparr>wd_store := store_write throws (nextCursor r) (wd_store w)\<rparr>)
       | Some Await_Clear \<Rightarrow> engine_does opts Done (w\<lparr>wd_store := store_clear throws (wd_store w)\<rparr>)
       | _ \<Rightarrow> w)
   | Page_Answers k \<Rightarrow> (case en_activeRun (wd_engine w) of
         Some (Await_Page reset cursor) \<Rightarrow>
           (case client_read sp u cursor (op_pageSize opts) (sync_tables_of (state_ago k (wd_hist w))) of
              Inl e \<Rightarrow> engine_does opts (Rejected e) w | Inr r \<Rightarrow> engine_does opts (Page_Is r) w)
       | _ \<Rightarrow> w)
   | Page_Lost e \<Rightarrow> (case en_activeRun (wd_engine w) of
         Some (Await_Page reset cursor) \<Rightarrow> engine_does opts (Rejected e) w | _ \<Rightarrow> w)
   | Sink_Applied \<Rightarrow> (case en_activeRun (wd_engine w) of
         Some (Await_Apply reset cursor r) \<Rightarrow>
           engine_does opts Done (w\<lparr>wd_applied := wd_applied w @ deltas r\<rparr>) | _ \<Rightarrow> w)
   | Sink_Failed k e \<Rightarrow> (case en_activeRun (wd_engine w) of
         Some (Await_Apply reset cursor r) \<Rightarrow>
           engine_does opts (Rejected e) (w\<lparr>wd_applied := wd_applied w @ take k (deltas r)\<rparr>) | _ \<Rightarrow> w))"

definition world_run ::
    "chat_params \<Rightarrow> sync_params \<Rightarrow> client_error sync_options \<Rightarrow> string \<Rightarrow> world_event list \<Rightarrow> sync_world \<Rightarrow> sync_world" where
  "world_run P sp opts u evs w = fold (world_step P sp opts u) evs w"

definition new_world :: "chat_db \<Rightarrow> sync_world" where
  "new_world db = \<lparr>wd_hist = [db], wd_engine = new_engine, wd_store = new_store, wd_applied = []\<rparr>"

section \<open>Cursors whose events have been delivered\<close>

definition delivered :: "sync_params \<Rightarrow> string \<Rightarrow> chat_db \<Rightarrow> sync_delta set \<Rightarrow> int \<Rightarrow> bool" where
  "delivered sp u db ds n \<longleftrightarrow> (\<forall>e \<in> set (ch_events db). \<forall>q. addressed u e q \<longrightarrow> q \<le> n \<longrightarrow> event_delta sp e \<in> ds)"

definition known :: "sync_params \<Rightarrow> string \<Rightarrow> chat_db \<Rightarrow> sync_delta set \<Rightarrow> string \<Rightarrow> bool" where
  "known sp u db ds c \<longleftrightarrow> (\<exists>st. decodeCursor (sp_hmac sp) (sp_secret sp) u c = Inr st \<and>
    cs_snapshotHead st \<le> head_of u db \<and> delivered sp u db ds (cs_position st))"

lemma known_mono: "known sp u db ds c \<Longrightarrow> ds \<subseteq> ds' \<Longrightarrow> known sp u db ds' c"
  unfolding known_def delivered_def by blast

text \<open>Later events have later positions.\<close>

lemma later_positions:
  assumes "sync_ok db" "sync_ok db'" "events_grow db db'"
  shows "head_of u db \<le> head_of u db'"
    "e \<in> set (ch_events db') \<Longrightarrow> addressed u e q \<Longrightarrow> 0 < q \<and> q \<le> head_of u db'"
    "e \<in> set (ch_events db') \<Longrightarrow> addressed u e q \<Longrightarrow> q \<le> head_of u db \<Longrightarrow> e \<in> set (ch_events db)"
proof -
  obtain new where new: "ch_events db' = ch_events db @ new" using assms(3) by (auto simp: events_grow_def)
  have pos: "positions u (ch_events db) = [1..head_of u db]" "positions u (ch_events db') = [1..head_of u db']"
    "0 \<le> head_of u db" "0 \<le> head_of u db'"
    using assms(1,2) by (simp_all add: sync_ok_def head_of_def)
  have split: "[1..head_of u db'] = [1..head_of u db] @ positions u new"
    using pos unfolding new by (simp add: positions_def)
  then have "length [1..head_of u db] \<le> length [1..head_of u db']" by simp
  then show "head_of u db \<le> head_of u db'" using pos(3,4) by simp
  show "0 < q \<and> q \<le> head_of u db'" if "e \<in> set (ch_events db')" "addressed u e q"
  proof -
    have "q \<in> set (positions u (ch_events db'))" unfolding positions_iff using that by blast
    then show ?thesis unfolding pos(2) by simp
  qed
  then have low: "0 < q" if "e \<in> set (ch_events db')" "addressed u e q" using that by blast
  show "e \<in> set (ch_events db)" if e: "e \<in> set (ch_events db')" "addressed u e q" "q \<le> head_of u db"
  proof (rule ccontr)
    assume "e \<notin> set (ch_events db)"
    with e new have "e \<in> set new" by simp
    with e(2) have "q \<in> set (positions u new)" by (auto simp: positions_iff)
    moreover have "distinct ([1..head_of u db] @ positions u new)" by (simp flip: split)
    moreover have "q \<in> set [1..head_of u db]" using low[OF e(1,2)] e(3) by simp
    ultimately show False by auto
  qed
qed

lemma known_grow:
  assumes "known sp u db ds c" "sync_ok db" "sync_ok db'" "events_grow db db'"
  shows "known sp u db' ds c"
proof -
  from assms(1) obtain st where st: "decodeCursor (sp_hmac sp) (sp_secret sp) u c = Inr st"
    "cs_snapshotHead st \<le> head_of u db" "delivered sp u db ds (cs_position st)"
    by (auto simp: known_def)
  have "cs_position st \<le> cs_snapshotHead st" using st(1) by (simp add: decode_iff cursor_valid_def)
  then have "delivered sp u db' ds (cs_position st)"
    using st(2,3) later_positions(3)[OF assms(2-4)] unfolding delivered_def by (meson order.trans)
  then show ?thesis using st(1,2) later_positions(1)[OF assms(2-4), of u] by (auto simp: known_def)
qed

section \<open>A page extends what its cursor promises\<close>

text \<open>
  What a page the service answers holds, for the tables \<open>db\<close> later on: its deltas are events of the
  user, and once they are applied everything up to its next cursor has been.
\<close>

definition page_ok :: "sync_params \<Rightarrow> string \<Rightarrow> chat_db \<Rightarrow> sync_delta set \<Rightarrow> sync_delta sync_response \<Rightarrow> bool" where
  "page_ok sp u db ds r \<longleftrightarrow> known sp u db (ds \<union> set (deltas r)) (nextCursor r) \<and>
    set (deltas r) \<subseteq> {event_delta sp e | e q. e \<in> set (ch_events db) \<and> addressed u e q}"

definition tables_ok :: "sync_params \<Rightarrow> chat_db \<Rightarrow> bool" where
  "tables_ok sp db \<longleftrightarrow> sync_ok db \<and> events_typed db \<and> columns_ok sp db"

lemma query_limit_range: "query_limit q = Some n \<Longrightarrow> 0 < n \<and> n \<le> maxPageSize"
  by (auto simp: query_limit_def defaultPageSize_def maxPageSize_def split: option.splits if_splits)

lemma map_sum_Inr: "map_sum f id x = Inr r \<Longrightarrow> (x = Inr r \<Longrightarrow> P) \<Longrightarrow> P"
  by (cases x) simp_all

lemma client_read_Inr:
  assumes "client_read sp u c limit tb = Inr r"
  obtains n where "syncRead sp u c n tb = Inr r" "0 < n" "n \<le> maxPageSize" "c \<noteq> None \<Longrightarrow> syncCursorSchema (the c)"
proof -
  from assms obtain n where "query_limit \<lparr>sq_protocolVersion = Some ''1'', sq_cursor = c,
      sq_limit = map_option (\<lambda>n. Some (int n)) limit, sq_otherKeys = False\<rparr> = Some n"
    "syncRead sp u c n tb = Inr r" "c \<noteq> None \<longrightarrow> syncCursorSchema (the c)"
    by (auto simp: client_read_def readSync_def split: option.splits if_splits elim!: map_sum_Inr)
  with query_limit_range that show ?thesis by blast
qed

lemma syncRead_cursor:
  assumes "syncRead sp u c n tb = Inr r" "state_positions u tb = (head, low)"
  obtains p h where "open_cursor sp u c head = Inr (p, h)"
  using assms by (cases "open_cursor sp u c head") (auto simp: syncRead_def)

lemma page_answer:
  assumes ok: "tables_ok sp old" "tables_ok sp db" "events_grow old db" "hmac_sha256_size (sp_hmac sp)"
    and r: "client_read sp u c limit (sync_tables_of old) = Inr r"
    and c: "\<And>x. c = Some x \<Longrightarrow> known sp u db ds x"
  shows "page_ok sp u db ds r"
proof -
  have st: "stream_ok sp u (sync_tables_of old)" "state_positions u (sync_tables_of old) = (head_of u old, 0)"
    using ok(1) stream_ok_of state_positions_of by (simp_all add: tables_ok_def)
  note grow = later_positions[OF _ _ ok(3)]
  have s: "sync_ok old" "sync_ok db" using ok(1,2) by (simp_all add: tables_ok_def)
  obtain n where n: "syncRead sp u c n (sync_tables_of old) = Inr r" "0 < n" "n \<le> maxPageSize"
    using client_read_Inr[OF r] by metis
  obtain p h where ph: "open_cursor sp u c (head_of u old) = Inr (p, h)" by (rule syncRead_cursor[OF n(1) st(2)])
  note page = page_exact[OF st(1) ok(4) st(2) ph n(2,3)]
  show ?thesis
  proof (cases "p < 0 \<or> head_of u old < p \<or> head_of u old < h")
    case True
    with page n(1) show ?thesis by simp
  next
    case False
    with page obtain m nx where m: "p \<le> m" "m \<le> h"
      "encodeCursor (sp_hmac sp) (sp_secret sp) u \<lparr>cs_position = m, cs_snapshotHead = h\<rparr> = Inr nx"
      "r = \<lparr>deltas = deltas_between sp u (sync_tables_of old) p m, nextCursor = nx, hasMore = m < h\<rparr>"
      using n(1) by auto
    have decode: "decodeCursor (sp_hmac sp) (sp_secret sp) u nx = Inr \<lparr>cs_position = m, cs_snapshotHead = h\<rparr>"
      using encode_decode[OF ok(4)] m(3) by (metis Inr_inject Inl_Inr_False)
    have ds: "set (deltas r) = {event_delta sp e | e q. e \<in> set (ch_events old) \<and> addressed u e q \<and> p < q \<and> q \<le> m}"
      using deltas_between_set[of old sp u p m] ok(1) by (simp add: m(4) tables_ok_def)
    have before: "delivered sp u db ds p"
    proof (cases c)
      case None
      then have "p = 0" using ph by (simp add: open_cursor_def)
      then show ?thesis using grow(2)[OF s, of _ u] by (fastforce simp: delivered_def)
    next
      case (Some x)
      from c[OF Some] obtain st where x: "decodeCursor (sp_hmac sp) (sp_secret sp) u x = Inr st"
        "delivered sp u db ds (cs_position st)" by (auto simp: known_def)
      then have "x \<noteq> []" by (auto simp: decode_iff syncCursorSchema_def)
      then have "p = cs_position st" using ph x(1) by (simp add: Some open_cursor_def)
      with x(2) show ?thesis by simp
    qed
    have "delivered sp u db (ds \<union> set (deltas r)) m"
      using before grow(3)[OF s, of _ u] False m(2) unfolding delivered_def ds by fastforce
    moreover have "h \<le> head_of u db" using grow(1)[OF s, of u] False by linarith
    ultimately have "known sp u db (ds \<union> set (deltas r)) (nextCursor r)" using decode by (simp add: known_def m(4))
    moreover have "set (ch_events old) \<subseteq> set (ch_events db)" using ok(3) by (auto simp: events_grow_def)
    ultimately show ?thesis unfolding page_ok_def ds by blast
  qed
qed

section \<open>Delivery\<close>

definition user_deltas :: "sync_params \<Rightarrow> string \<Rightarrow> chat_db \<Rightarrow> sync_delta set" where
  "user_deltas sp u db = {event_delta sp e | e q. e \<in> set (ch_events db) \<and> addressed u e q}"

definition run_ok :: "sync_params \<Rightarrow> string \<Rightarrow> chat_db \<Rightarrow> sync_delta set \<Rightarrow>
    (sync_delta, client_error) sync_await option \<Rightarrow> bool" where
  "run_ok sp u db ds run = (case run of
     Some (Await_Page _ (Some c)) \<Rightarrow> known sp u db ds c
   | Some (Await_Apply _ _ r) \<Rightarrow> page_ok sp u db ds r
   | Some (Await_Write _ r) \<Rightarrow> known sp u db ds (nextCursor r)
   | _ \<Rightarrow> True)"

definition world_ok :: "sync_params \<Rightarrow> string \<Rightarrow> sync_world \<Rightarrow> bool" where
  "world_ok sp u w \<longleftrightarrow> history_ok (wd_hist w) \<and> (\<forall>s \<in> set (wd_hist w). tables_ok sp s) \<and>
    (\<forall>c. ws_stored (wd_store w) = Some c \<or> ws_memoryCursor (wd_store w) = Some (Some c) \<longrightarrow>
      known sp u (hd (wd_hist w)) (set (wd_applied w)) c) \<and>
    run_ok sp u (hd (wd_hist w)) (set (wd_applied w)) (en_activeRun (wd_engine w)) \<and>
    set (wd_applied w) \<subseteq> user_deltas sp u (hd (wd_hist w))"

lemma between_ok [simp]: "between_pages run \<Longrightarrow> run_ok sp u db ds run"
  by (auto simp: run_ok_def between_pages_def split: option.splits sync_await.splits)

lemma run_ok_simps [simp]:
  "run_ok sp u db ds (Some (Await_Page b None))"
  "run_ok sp u db ds (Some (Await_Page b (Some c))) = known sp u db ds c"
  "run_ok sp u db ds (Some (Await_Apply b c' r)) = page_ok sp u db ds r"
  "run_ok sp u db ds (Some (Await_Write b r)) = known sp u db ds (nextCursor r)"
  by (simp_all add: run_ok_def)

lemma engine_does_ok:
  assumes "world_ok sp u w" and "run_ok sp u (hd (wd_hist w)) (set (wd_applied w)) (en_activeRun (engine_step opts ev (wd_engine w)))"
  shows "world_ok sp u (engine_does opts ev w)"
  using assms by (simp add: world_ok_def engine_does_def)

lemma plain_does_ok:
  assumes "world_ok sp u w" and "ev \<in> {Start, Stop, Request, Timer_Fires, Turn} \<union> range Rejected"
  shows "world_ok sp u (engine_does opts ev w)"
  using run_plain_step[OF assms(2), of opts "wd_engine w"] assms(1)
  by (intro engine_does_ok[OF assms(1)]) (auto simp: world_ok_def)

text \<open>More deltas applied, all of them events of the user.\<close>

lemma applied_ok:
  assumes "world_ok sp u w" and "set new \<subseteq> user_deltas sp u (hd (wd_hist w))" and "between_pages (en_activeRun e)"
  shows "world_ok sp u (w\<lparr>wd_applied := wd_applied w @ new, wd_engine := e\<rparr>)"
  using assms known_mono[of sp u "hd (wd_hist w)" "set (wd_applied w)" _ "set (wd_applied w) \<union> set new"]
  by (auto simp: world_ok_def)

lemma storage_ok:
  assumes w: "world_ok sp u w"
  shows "world_ok sp u (world_step P sp opts u (Storage_Answers throws) w)"
proof (cases "en_activeRun (wd_engine w)")
  case (Some run)
  let ?k = "known sp u (hd (wd_hist w)) (set (wd_applied w))"
  show ?thesis
  proof (cases run)
    case (Await_Cursor b)
    obtain c ws where r: "store_read throws (wd_store w) = (c, ws)" by fastforce
    have kept: "?k x" if "c = Some x \<or> ws_stored ws = Some x \<or> ws_memoryCursor ws = Some (Some x)" for x
      using that r w by (auto simp: store_read_def world_ok_def split: if_splits option.splits)
    then have "world_ok sp u (w\<lparr>wd_store := ws\<rparr>)" using w by (auto simp: world_ok_def)
    moreover have "run_ok sp u (hd (wd_hist w)) (set (wd_applied w)) (en_activeRun (engine_step opts (Cursor_Is c) (wd_engine w)))"
      using run_cursor_step[of "wd_engine w" b opts c] kept Some Await_Cursor by (cases c) auto
    ultimately show ?thesis using Some Await_Cursor r engine_does_ok[of sp u "w\<lparr>wd_store := ws\<rparr>"]
      by (simp add: world_step_def)
  next
    case (Await_Write b r)
    have k: "?k (nextCursor r)" using w Some Await_Write by (simp add: world_ok_def)
    then have "world_ok sp u (w\<lparr>wd_store := store_write throws (nextCursor r) (wd_store w)\<rparr>)"
      using w by (auto simp: world_ok_def store_write_def Let_def split: if_splits)
    moreover have "run_ok sp u (hd (wd_hist w)) (set (wd_applied w)) (en_activeRun (engine_step opts Done (wd_engine w)))"
      using run_written_step[of "wd_engine w" b r opts] k Some Await_Write by auto
    ultimately show ?thesis using Some Await_Write engine_does_ok[of sp u "w\<lparr>wd_store := _\<rparr>"] by (simp add: world_step_def)
  next
    case Await_Clear
    have "world_ok sp u (w\<lparr>wd_store := store_clear throws (wd_store w)\<rparr>)"
      using w by (auto simp: world_ok_def store_clear_def Let_def split: if_splits)
    then show ?thesis using Some Await_Clear run_cleared_step[of "wd_engine w" opts] engine_does_ok[of sp u "w\<lparr>wd_store := _\<rparr>"]
      by (simp add: world_step_def)
  qed (use w Some in \<open>simp_all add: world_step_def\<close>)
qed (use w in \<open>simp add: world_step_def\<close>)

lemma hist_state: "history_ok hist \<Longrightarrow> state_ago k hist \<in> set hist"
  by (rule state_ago_in) (simp add: history_ok_def)

lemma page_ok_deltas: "page_ok sp u db ds r \<Longrightarrow> set (deltas r) \<subseteq> user_deltas sp u db"
  by (simp add: page_ok_def user_deltas_def)

lemma page_ok_empty: "page_ok sp u db ds r \<Longrightarrow> deltas r = [] \<Longrightarrow> known sp u db ds (nextCursor r)"
  by (simp add: page_ok_def)

lemma page_step_ok:
  assumes w: "world_ok sp u w" and hmac: "hmac_sha256_size (sp_hmac sp)"
  shows "world_ok sp u (world_step P sp opts u (Page_Answers k) w)"
proof (cases "\<exists>b c. en_activeRun (wd_engine w) = Some (Await_Page b c)")
  case True
  then obtain b c where run: "en_activeRun (wd_engine w) = Some (Await_Page b c)" by blast
  let ?old = "state_ago k (wd_hist w)" and ?ds = "set (wd_applied w)"
  have old: "?old \<in> set (wd_hist w)" using w hist_state by (simp add: world_ok_def)
  have ok: "tables_ok sp ?old" "tables_ok sp (hd (wd_hist w))" "events_grow ?old (hd (wd_hist w))"
    using w old moves_typed[of ?old "hd (wd_hist w)"] by (auto simp: world_ok_def history_ok_def tables_ok_def)
  show ?thesis
  proof (cases "client_read sp u c (op_pageSize opts) (sync_tables_of ?old)")
    case (Inl e)
    then show ?thesis using run plain_does_ok[OF w] by (simp add: world_step_def)
  next
    case (Inr r)
    have "page_ok sp u (hd (wd_hist w)) ?ds r"
      by (rule page_answer[OF ok hmac Inr]) (use w run in \<open>auto simp: world_ok_def\<close>)
    then have "run_ok sp u (hd (wd_hist w)) ?ds (en_activeRun (engine_step opts (Page_Is r) (wd_engine w)))"
      using run_page_step[OF run, of opts r] page_ok_empty by auto
    then show ?thesis using run Inr engine_does_ok[OF w] by (simp add: world_step_def)
  qed
next
  case False
  then show ?thesis using w by (auto simp: world_step_def split: option.split sync_await.split)
qed

lemma sink_step_ok:
  assumes w: "world_ok sp u w" and ev: "ev = Sink_Applied \<or> ev = Sink_Failed k e"
  shows "world_ok sp u (world_step P sp opts u ev w)"
proof (cases "\<exists>b c r. en_activeRun (wd_engine w) = Some (Await_Apply b c r)")
  case True
  then obtain b c r where run: "en_activeRun (wd_engine w) = Some (Await_Apply b c r)" by blast
  let ?db = "hd (wd_hist w)" and ?ds = "set (wd_applied w)"
  have page: "page_ok sp u ?db ?ds r" using w run by (simp add: world_ok_def)
  have more: "world_ok sp u (w\<lparr>wd_applied := wd_applied w @ new, wd_engine := engine\<rparr>)"
    if "set new \<subseteq> set (deltas r)" "between_pages (en_activeRun engine)" for new engine
    using applied_ok[OF w _ that(2)] that(1) page_ok_deltas[OF page] by blast
  have failed: "between_pages (en_activeRun (engine_step opts (Rejected e) (wd_engine w)))"
    using run by (simp add: engine_step_def rejected_def)
  from ev show ?thesis
  proof
    assume ev: "ev = Sink_Applied"
    let ?e = "engine_step opts Done (wd_engine w)"
    show ?thesis
    proof (cases "between_pages (en_activeRun ?e)")
      case True
      then show ?thesis using more[of "deltas r" ?e] run ev by (simp add: world_step_def engine_does_def)
    next
      case False
      then have "en_activeRun ?e = Some (Await_Write b r)" using run_applied_step[OF run] by blast
      moreover have "world_ok sp u (w\<lparr>wd_applied := wd_applied w @ deltas r, wd_engine := new_engine\<rparr>)"
        by (rule more) (simp_all add: new_engine_def)
      moreover have "known sp u ?db (?ds \<union> set (deltas r)) (nextCursor r)" using page by (simp add: page_ok_def)
      ultimately show ?thesis using run ev by (simp add: world_step_def engine_does_def world_ok_def)
    qed
  next
    assume "ev = Sink_Failed k e"
    then show ?thesis using more[OF set_take_subset failed] run by (simp add: world_step_def engine_does_def)
  qed
next
  case False
  then show ?thesis using w ev by (auto simp: world_step_def split: option.split sync_await.split)
qed

lemma chat_step_ok:
  assumes w: "world_ok sp u w" and columns: "columns_ok sp (snd (handle_chat P q (wd_hist w)))"
  shows "world_ok sp u (world_step P sp opts u (Chat_Request q) w)"
proof -
  obtain ans db where q: "handle_chat P q (wd_hist w) = (ans, db)" by fastforce
  let ?old = "hd (wd_hist w)"
  have hist: "history_ok (wd_hist w)" "tables_ok sp ?old"
    using w by (auto simp: world_ok_def history_ok_def)
  have new: "history_ok (db # wd_hist w)" by (rule history_step[OF hist(1) q])
  have "chat_move\<^sup>*\<^sup>* ?old db" using handle_moves[OF hist(1), of P q] q by simp
  then have grow: "events_typed db" "events_grow ?old db" using moves_typed hist(2) by (auto simp: tables_ok_def)
  have sync: "sync_ok ?old" "sync_ok db"
    using hist(2) history_hd[OF new] by (simp_all add: tables_ok_def chat_ok_def events_ok_def)
  have tables: "tables_ok sp db" using grow(1) sync(2) columns q by (simp add: tables_ok_def)
  have known: "known sp u db ds c" if "known sp u ?old ds c" for ds c
    by (rule known_grow[OF that sync grow(2)])
  have sub: "user_deltas sp u ?old \<subseteq> user_deltas sp u db"
    using grow(2) by (fastforce simp: user_deltas_def events_grow_def)
  have "page_ok sp u db ds r" if "page_ok sp u ?old ds r" for ds r
    using that known sub unfolding page_ok_def user_deltas_def by blast
  then have "run_ok sp u db (set (wd_applied w)) (en_activeRun (wd_engine w))"
    using w known unfolding world_ok_def run_ok_def by (auto split: option.splits sync_await.splits)
  then show ?thesis
    using w new tables known sub by (auto simp: world_ok_def world_step_def q)
qed

lemma world_step_ok:
  assumes "world_ok sp u w" "hmac_sha256_size (sp_hmac sp)" "\<forall>s \<in> set (wd_hist (world_step P sp opts u ev w)). columns_ok sp s"
  shows "world_ok sp u (world_step P sp opts u ev w)"
proof (cases ev)
  case (Chat_Request q)
  then show ?thesis using chat_step_ok[OF assms(1)] assms(3) by (simp add: world_step_def)
next
  case (Page_Lost e)
  then show ?thesis using plain_does_ok[OF assms(1)] assms(1)
    by (auto simp: world_step_def split: option.split sync_await.split)
next
  case (Storage_Answers throws)
  then show ?thesis using storage_ok[OF assms(1)] by simp
next
  case (Page_Answers k)
  then show ?thesis using page_step_ok[OF assms(1,2)] by simp
next
  case Sink_Applied
  then show ?thesis using sink_step_ok[OF assms(1)] by blast
next
  case (Sink_Failed k e)
  then show ?thesis using sink_step_ok[OF assms(1)] by blast
qed (use plain_does_ok[OF assms(1)] in \<open>simp_all add: world_step_def\<close>)

lemma step_hist: "set (wd_hist w) \<subseteq> set (wd_hist (world_step P sp opts u ev w))"
  by (auto simp: world_step_def engine_does_def split: world_event.split option.split sync_await.split prod.split sum.split)

text \<open>The tables a history starts from: those of \<open>chats_stay_consistent\<close>, with events as they are written.\<close>

lemma world_run_ok:
  assumes "chat_ok db" "events_typed db" "hmac_sha256_size (sp_hmac sp)"
    and "\<forall>s \<in> set (wd_hist (world_run P sp opts u evs (new_world db))). columns_ok sp s"
  shows "world_ok sp u (world_run P sp opts u evs (new_world db))"
  using assms(4)
proof (induction evs rule: rev_induct)
  case Nil
  have "known sp u db {} c" if "ws_stored new_store = Some c" for c using that by (simp add: new_store_def)
  then show ?case
    using assms(1,2) Nil by (simp add: world_run_def world_ok_def new_world_def history_start tables_ok_def
        chat_ok_def events_ok_def new_engine_def new_store_def)
next
  case (snoc ev evs)
  let ?w = "world_run P sp opts u evs (new_world db)"
  have run: "world_run P sp opts u (evs @ [ev]) (new_world db) = world_step P sp opts u ev ?w" by (simp add: world_run_def)
  have "\<forall>s \<in> set (wd_hist ?w). columns_ok sp s" using snoc.prems step_hist unfolding run by blast
  then show ?case using snoc world_step_ok[OF _ assms(3)] unfolding run by blast
qed

text \<open>
  C38: at-least-once delivery from end to end. Whatever requests to direct chats go on, whatever
  old states pages are read from, whatever requests, pages, applications and storage operations fail, and
  however the tab starts and stops its engine: whenever the tab would resume from a stored cursor, the
  service signed it for this user, and every event addressed to the user up to its position has
  been applied; and nothing but events addressed to the user is ever applied.
\<close>

theorem sync_delivers_every_event:
  assumes "chat_ok db" "events_typed db" "hmac_sha256_size (sp_hmac sp)"
    and "w = world_run P sp opts u evs (new_world db)" "\<forall>s \<in> set (wd_hist w). columns_ok sp s"
  shows "(\<forall>throws. case fst (store_read throws (wd_store w)) of
      None \<Rightarrow> True
    | Some c \<Rightarrow> (case decodeCursor (sp_hmac sp) (sp_secret sp) u c of
          Inl e \<Rightarrow> False
        | Inr st \<Rightarrow> \<forall>e \<in> set (ch_events (hd (wd_hist w))). \<forall>q. addressed u e q \<longrightarrow> q \<le> cs_position st \<longrightarrow>
            event_delta sp e \<in> set (wd_applied w))) \<and>
    (\<forall>d \<in> set (wd_applied w). \<exists>e \<in> set (ch_events (hd (wd_hist w))). \<exists>q. addressed u e q \<and> d = event_delta sp e)"
proof -
  have ok: "world_ok sp u w" using world_run_ok[OF assms(1-3)] assms(4,5) by blast
  have "known sp u (hd (wd_hist w)) (set (wd_applied w)) c" if "fst (store_read throws (wd_store w)) = Some c" for throws c
    using that ok by (auto simp: world_ok_def store_read_def split: if_splits option.splits)
  then show ?thesis
    using ok by (auto simp: known_def delivered_def world_ok_def user_deltas_def split: option.split sum.split) fastforce+
qed

section \<open>A sample world\<close>

definition sample_sync :: sync_params where
  "sample_sync = \<lparr>sp_hmac = (\<lambda>key message. replicate 32 7), sp_secret = ''s'', sp_isUuid = (\<lambda>s. s \<noteq> [])\<rparr>"

definition sample_options :: "client_error sync_options" where
  "sample_options = \<lparr>op_pageSize = None, op_retryBaseMs = None, op_retryMaxMs = None, op_classifyError = Some classifySyncError\<rparr>"

definition sample_events :: "world_event list" where
  "sample_events = [Chat_Request sample_first, Tab_Start, Storage_Answers False, Page_Answers 0, Sink_Applied, Storage_Answers True]"

lemma other_hist: "(\<And>q. ev \<noteq> Chat_Request q) \<Longrightarrow> wd_hist (world_step P sp opts u ev w) = wd_hist w"
  by (auto simp: world_step_def engine_does_def split: world_event.split option.split sync_await.split prod.split sum.split)

lemma sample_tables:
  "hmac_sha256_size (sp_hmac sample_sync)" "events_typed sample_chat" "columns_ok sample_sync sample_chat"
  "columns_ok sample_sync sample_sent" "ch_events sample_chat = []" "length (ch_events sample_sent) = 1"
proof -
  show "hmac_sha256_size (sp_hmac sample_sync)" by (simp add: hmac_sha256_size_def sample_sync_def)
  show "events_typed sample_chat" "columns_ok sample_sync sample_chat" "ch_events sample_chat = []"
    by (simp_all add: events_typed_def columns_ok_def sample_chat_def)
  have "map (\<lambda>e. (de_id e, de_scopeId e)) (ch_events sample_sent) = [(''m'', ''c'')]"
    "list_all (\<lambda>s. sy_lastPosition s = 1) (ch_sync sample_sent)" by code_simp+
  then show "columns_ok sample_sync sample_sent" "length (ch_events sample_sent) = 1"
    by (auto simp: columns_ok_def sample_sync_def MAX_BIGINT_64_def list_all_iff map_eq_Cons_conv)
qed

lemma sample_hist: "wd_hist (world_run sample_params sample_sync sample_options u (Chat_Request sample_first # evs) (new_world sample_chat)) =
    [sample_sent, sample_chat]"
  if "list_all (\<lambda>ev. case ev of Chat_Request q \<Rightarrow> False | _ \<Rightarrow> True) evs"
proof -
  have "wd_hist (world_run P sp opts u evs w) = wd_hist w" for P sp opts w
    using that other_hist by (induction evs arbitrary: w) (auto simp: world_run_def split: world_event.splits)
  then show ?thesis using sample_steps(1) by (simp add: world_run_def world_step_def new_world_def)
qed

lemma sync_delivers_every_event_witness:
  "\<exists>w. w = world_run sample_params sample_sync sample_options ''b'' sample_events (new_world sample_chat) \<and>
    wd_hist w = [sample_sent, sample_chat] \<and>
    (case fst (store_read True (wd_store w)) of
      None \<Rightarrow> True
    | Some c \<Rightarrow> (case decodeCursor (sp_hmac sample_sync) ''s'' ''b'' c of
          Inl e \<Rightarrow> False
        | Inr st \<Rightarrow> {event_delta sample_sync e | e q. e \<in> set (ch_events sample_sent) \<and> addressed ''b'' e q \<and> q \<le> cs_position st}
            \<subseteq> set (wd_applied w)))"
proof -
  let ?w = "world_run sample_params sample_sync sample_options ''b'' sample_events (new_world sample_chat)"
  have h: "wd_hist ?w = [sample_sent, sample_chat]" unfolding sample_events_def by (rule sample_hist) simp
  have s: "sync_params.sp_secret sample_sync = ''s''" by (simp add: sample_sync_def)
  from sync_delivers_every_event[OF sample_chat_ok sample_tables(2,1) refl, of sample_params sample_options "''b''" sample_events]
  have "\<forall>throws. case fst (store_read throws (wd_store ?w)) of None \<Rightarrow> True
    | Some c \<Rightarrow> (case decodeCursor (sp_hmac sample_sync) (sync_params.sp_secret sample_sync) ''b'' c of Inl e \<Rightarrow> False
        | Inr st \<Rightarrow> \<forall>e \<in> set (ch_events (hd (wd_hist ?w))). \<forall>q. addressed ''b'' e q \<longrightarrow> q \<le> cs_position st \<longrightarrow>
            event_delta sample_sync e \<in> set (wd_applied ?w))"
    using sample_tables(3,4) by (simp add: h)
  from this[THEN spec, of True] h s show ?thesis by (auto split: option.splits sum.splits)
qed

section \<open>Where recovery fails\<close>

text \<open>
  A stored cursor that is not of the form of one is refused by the client itself, whose error counts as
  one to retry: it is never cleared. And when removing the stored cursor throws, the next reading brings
  it back over the cleared one in memory.
\<close>

theorem malformed_cursor_retried:
  "\<not> syncCursorSchema c \<Longrightarrow> client_read sp u (Some c) limit tb = Inl OtherError \<and>
    classifySyncError (Thrown OtherError) = Kind_RETRY"
  by (simp add: client_read_def classifySyncError_def)

theorem failed_clear_forgotten: "fst (store_read False (store_clear True ws)) = ws_stored ws"
  by (simp add: store_read_def store_clear_def Let_def)

end
