(* ===== verification/Sync_Progress.thy ===== *)
theory Sync_Progress
  imports Sync_Delivery
begin

text \<open>
  When nothing disturbs the tab, a sync request brings it to the head of the snapshot its cursor was
  opened with, and a second one to the head of the stream.
\<close>

section \<open>Undisturbed steps\<close>

text \<open>The settled promise, storage and sink in order, the page read from the current tables.\<close>

definition success :: "(sync_delta, client_error) sync_await \<Rightarrow> world_event" where
  "success run = (case run of
     Await_Page _ _ \<Rightarrow> Page_Answers 0
   | Await_Apply _ _ _ \<Rightarrow> Sink_Applied
   | Await_Snapshot _ _ \<Rightarrow> Tab_Turn
   | Await_Finally \<Rightarrow> Tab_Turn
   | _ \<Rightarrow> Storage_Answers False)"

definition settle ::
    "chat_params \<Rightarrow> sync_params \<Rightarrow> client_error sync_options \<Rightarrow> string \<Rightarrow> sync_world \<Rightarrow> sync_world" where
  "settle P sp opts u w = (case en_activeRun (wd_engine w) of
     None \<Rightarrow> w | Some run \<Rightarrow> world_step P sp opts u (success run) w)"

definition page_size_ok :: "client_error sync_options \<Rightarrow> bool" where
  "page_size_ok opts \<longleftrightarrow> (case op_pageSize opts of None \<Rightarrow> True | Some n \<Rightarrow> 0 < n \<and> n \<le> maxPageSize)"

text \<open>A run in progress that was neither stopped nor asked for more.\<close>

definition fetching :: "web_engine \<Rightarrow> bool" where
  "fetching e \<longleftrightarrow> \<not> en_stopped e \<and> \<not> en_queued e \<and> en_retryTimer e = None \<and> en_currentState e = SYNCING"

lemma fetching_simps [simp]: "fetching (emit c e) = fetching e" "fetching (await run e) = fetching e"
  by (simp_all add: fetching_def)

lemma settle_ok:
  assumes "world_ok sp u w" "hmac_sha256_size (sp_hmac sp)"
  shows "world_ok sp u (settle P sp opts u w) \<and> wd_hist (settle P sp opts u w) = wd_hist w"
proof (cases "en_activeRun (wd_engine w)")
  case (Some run)
  have "wd_hist (world_step P sp opts u (success run) w) = wd_hist w"
    by (auto simp: world_step_def success_def engine_does_def split: sync_await.split option.split prod.split sum.split)
  moreover have "\<forall>s \<in> set (wd_hist w). columns_ok sp s" using assms(1) by (simp add: world_ok_def tables_ok_def)
  ultimately show ?thesis using world_step_ok[OF assms, of P opts "success run"] Some by (simp add: settle_def)
qed (use assms in \<open>simp add: settle_def\<close>)

lemma settles_ok:
  assumes "world_ok sp u w" "hmac_sha256_size (sp_hmac sp)"
  shows "world_ok sp u ((settle P sp opts u ^^ k) w) \<and> wd_hist ((settle P sp opts u ^^ k) w) = wd_hist w"
  using assms by (induction k) (simp_all add: settle_ok)

section \<open>One page\<close>

definition at_cursor :: "sync_params \<Rightarrow> string \<Rightarrow> chat_db \<Rightarrow> string option \<Rightarrow> int \<Rightarrow> int \<Rightarrow> bool" where
  "at_cursor sp u db c p h \<longleftrightarrow> open_cursor sp u c (head_of u db) = Inr (p, h) \<and> p \<le> h \<and> h \<le> head_of u db"

lemma next_cursor:
  assumes "hmac_sha256_size (sp_hmac sp)" and "encodeCursor (sp_hmac sp) (sp_secret sp) u \<lparr>cs_position = n, cs_snapshotHead = h\<rparr> = Inr nx"
  shows "decodeCursor (sp_hmac sp) (sp_secret sp) u nx = Inr \<lparr>cs_position = n, cs_snapshotHead = h\<rparr>"
    "n < h \<Longrightarrow> open_cursor sp u (Some nx) head = Inr (n, h)" "n = h \<Longrightarrow> open_cursor sp u (Some nx) head = Inr (h, head)"
proof -
  show d: "decodeCursor (sp_hmac sp) (sp_secret sp) u nx = Inr \<lparr>cs_position = n, cs_snapshotHead = h\<rparr>"
    using encode_decode[OF assms(1)] assms(2) by (metis Inr_inject Inl_Inr_False)
  then have "nx \<noteq> []" by (auto simp: decode_iff syncCursorSchema_def)
  with d show "n < h \<Longrightarrow> open_cursor sp u (Some nx) head = Inr (n, h)" "n = h \<Longrightarrow> open_cursor sp u (Some nx) head = Inr (h, head)"
    by (simp_all add: open_cursor_def)
qed

lemma client_page:
  assumes ok: "tables_ok sp db" "hmac_sha256_size (sp_hmac sp)" "page_size_ok opts"
    and c: "at_cursor sp u db c p h" "\<And>x. c = Some x \<Longrightarrow> syncCursorSchema x"
  shows "\<exists>n nx ds. p \<le> n \<and> n \<le> h \<and> (p < h \<longrightarrow> p < n) \<and>
    encodeCursor (sp_hmac sp) (sp_secret sp) u \<lparr>cs_position = n, cs_snapshotHead = h\<rparr> = Inr nx \<and>
    client_read sp u c (op_pageSize opts) (sync_tables_of db) = Inr \<lparr>deltas = ds, nextCursor = nx, hasMore = n < h\<rparr>"
proof -
  define limit where "limit = (case op_pageSize opts of None \<Rightarrow> defaultPageSize | Some n \<Rightarrow> n)"
  have limit: "0 < limit" "limit \<le> maxPageSize"
    using ok(3) by (auto simp: limit_def page_size_ok_def defaultPageSize_def maxPageSize_def split: option.splits)
  have st: "stream_ok sp u (sync_tables_of db)" "state_positions u (sync_tables_of db) = (head_of u db, 0)"
    using ok(1) stream_ok_of state_positions_of by (simp_all add: tables_ok_def)
  have open': "open_cursor sp u c (head_of u db) = Inr (p, h)" "p \<le> h" "h \<le> head_of u db" using c(1) by (simp_all add: at_cursor_def)
  have "0 \<le> head_of u db" using ok(1) by (simp add: tables_ok_def sync_ok_def head_of_def)
  then have "\<not> (p < 0 \<or> head_of u db < p \<or> head_of u db < h)" using open_cursor_Inr(1)[OF open'(1)] open'(2,3) by auto
  moreover have "client_read sp u c (op_pageSize opts) (sync_tables_of db) =
      map_sum (\<lambda>e. ClientApiError (error_code e)) id (syncRead sp u c limit (sync_tables_of db))"
    using c(2) ok(3) by (auto simp: client_read_def readSync_def query_limit_def limit_def page_size_ok_def
        split: option.splits)
  ultimately show ?thesis using page_exact[OF st(1) ok(2) st(2) open'(1) limit] by auto
qed

lemma funpow_more: "(f ^^ a) x = y \<Longrightarrow> (f ^^ b) y = z \<Longrightarrow> (f ^^ (b + a)) x = z"
  by (simp add: funpow_add)

text \<open>From asking for a page to asking for the next one, or to the end of the snapshot.\<close>

lemma settle_page:
  assumes w: "world_ok sp u w" "hmac_sha256_size (sp_hmac sp)" "page_size_ok opts"
    and run: "en_activeRun (wd_engine w) = Some (Await_Page b c)" "fetching (wd_engine w)"
    and c: "at_cursor sp u (hd (wd_hist w)) c p h"
  shows "\<exists>k n nx w'. (settle P sp opts u ^^ k) w = w' \<and> p \<le> n \<and> n \<le> h \<and> (p < h \<longrightarrow> p < n) \<and>
    encodeCursor (sp_hmac sp) (sp_secret sp) u \<lparr>cs_position = n, cs_snapshotHead = h\<rparr> = Inr nx \<and>
    fetching (wd_engine w') \<and> ws_stored (wd_store w') = Some nx \<and>
    en_activeRun (wd_engine w') = Some (if n < h then Await_Page b (Some nx) else Await_Snapshot b None)"
proof -
  have tables: "tables_ok sp (hd (wd_hist w))" and known: "c = Some x \<Longrightarrow> known sp u (hd (wd_hist w)) (set (wd_applied w)) x" for x
    using w(1) run(1) by (auto simp: world_ok_def history_ok_def)
  have schema: "syncCursorSchema x" if "c = Some x" for x using known[OF that] by (auto simp: known_def decode_iff)
  obtain n nx ds where page: "p \<le> n" "n \<le> h" "p < h \<longrightarrow> p < n"
    "encodeCursor (sp_hmac sp) (sp_secret sp) u \<lparr>cs_position = n, cs_snapshotHead = h\<rparr> = Inr nx"
    "client_read sp u c (op_pageSize opts) (sync_tables_of (hd (wd_hist w))) = Inr \<lparr>deltas = ds, nextCursor = nx, hasMore = n < h\<rparr>"
    using client_page[OF tables w(2,3) c schema] by metis
  let ?r = "\<lparr>deltas = ds, nextCursor = nx, hasMore = n < h\<rparr>"
  have now: "state_ago 0 (wd_hist w) = hd (wd_hist w)"
    using w(1) by (cases "wd_hist w") (auto simp: state_ago_def world_ok_def history_ok_def)
  have advanced: "\<not> (n < h \<and> Some nx = c)"
  proof
    assume n: "n < h \<and> Some nx = c"
    then have "Inr (n, h) = (Inr (p, h) :: sync_error + int \<times> int)"
      using next_cursor(2)[OF w(2) page(4)] c by (simp add: at_cursor_def)
    then show False using n page(3) by auto
  qed
  define w1 where "w1 = settle P sp opts u w"
  define w2 where "w2 = (if ds = [] then w1 else settle P sp opts u w1)"
  have w1: "w1 = w\<lparr>wd_engine := page_arrived b c ?r (wd_engine w)\<rparr>"
    using run(1) page(5) by (simp add: w1_def settle_def success_def world_step_def now engine_does_def engine_step_def fulfilled_def)
  have w2: "fetching (wd_engine w2)" "en_activeRun (wd_engine w2) = Some (Await_Write b ?r)"
    using run(2) advanced by (auto simp: w2_def w1 page_arrived_def write_cursor_def settle_def success_def world_step_def
        engine_does_def engine_step_def fulfilled_def page_applied_def fetching_def)
  define w3 where "w3 = settle P sp opts u w2"
  have w3: "wd_engine w3 = cursor_written opts b ?r (wd_engine w2)" "ws_stored (wd_store w3) = Some nx"
    using w2(2) by (simp_all add: w3_def settle_def success_def world_step_def engine_does_def engine_step_def fulfilled_def
        store_write_def Let_def)
  have "fetching (wd_engine w3)"
    "en_activeRun (wd_engine w3) = Some (if n < h then Await_Page b (Some nx) else Await_Snapshot b None)"
    using w2(1) by (auto simp: w3 cursor_written_def fetch_page_def fetching_def)
  moreover have "\<exists>k. (settle P sp opts u ^^ k) w = w3"
  proof (cases "ds = []")
    case True
    then show ?thesis by (intro exI[of _ 2]) (simp add: w3_def w2_def w1_def numeral_2_eq_2)
  next
    case False
    then show ?thesis by (intro exI[of _ 3]) (simp add: w3_def w2_def w1_def numeral_3_eq_3)
  qed
  ultimately show ?thesis using page w3(2) by blast
qed

section \<open>A whole snapshot\<close>

lemma settle_snapshot:
  assumes w: "world_ok sp u w" "hmac_sha256_size (sp_hmac sp)" "page_size_ok opts"
    and run: "en_activeRun (wd_engine w) = Some (Await_Page b c)" "fetching (wd_engine w)"
    and c: "at_cursor sp u (hd (wd_hist w)) c p h"
  shows "\<exists>k nx w'. (settle P sp opts u ^^ k) w = w' \<and> fetching (wd_engine w') \<and>
    en_activeRun (wd_engine w') = Some (Await_Snapshot b None) \<and> ws_stored (wd_store w') = Some nx \<and>
    decodeCursor (sp_hmac sp) (sp_secret sp) u nx = Inr \<lparr>cs_position = h, cs_snapshotHead = h\<rparr>"
  using w(1) run c
proof (induction "nat (h - p)" arbitrary: w c p rule: less_induct)
  case less
  obtain k n nx w' where page: "(settle P sp opts u ^^ k) w = w'" "p \<le> n" "n \<le> h" "p < h \<longrightarrow> p < n"
    "encodeCursor (sp_hmac sp) (sp_secret sp) u \<lparr>cs_position = n, cs_snapshotHead = h\<rparr> = Inr nx"
    "fetching (wd_engine w')" "ws_stored (wd_store w') = Some nx"
    "en_activeRun (wd_engine w') = Some (if n < h then Await_Page b (Some nx) else Await_Snapshot b None)"
    using settle_page[OF less.prems(1) w(2,3) less.prems(2-4), of P] by metis
  have w': "world_ok sp u w'" "wd_hist w' = wd_hist w"
    using settles_ok[OF less.prems(1) w(2), where k = k and P = P and opts = opts] page(1) by auto
  note next_c = next_cursor[OF w(2) page(5)]
  show ?case
  proof (cases "n < h")
    case True
    have "at_cursor sp u (hd (wd_hist w')) (Some nx) n h"
      using next_c(2)[OF True] less.prems(4) page(3) by (simp add: at_cursor_def w'(2))
    moreover have "nat (h - n) < nat (h - p)" using True page(2,4) by auto
    ultimately obtain m ny w'' where "(settle P sp opts u ^^ m) w' = w''" "fetching (wd_engine w'')"
      "en_activeRun (wd_engine w'') = Some (Await_Snapshot b None)" "ws_stored (wd_store w'') = Some ny"
      "decodeCursor (sp_hmac sp) (sp_secret sp) u ny = Inr \<lparr>cs_position = h, cs_snapshotHead = h\<rparr>"
      using less.hyps[OF _ w'(1) _ page(6), of n "Some nx"] page(8) True by auto
    then show ?thesis using funpow_more[OF page(1)] by blast
  next
    case False
    then have "n = h" using page(3) by simp
    then show ?thesis using page(1,6,7,8) next_c(1) by auto
  qed
qed

definition idle_engine :: "web_engine \<Rightarrow> bool" where
  "idle_engine e \<longleftrightarrow> en_currentState e = IDLE \<and> \<not> en_stopped e \<and> \<not> en_queued e \<and> en_retryTimer e = None \<and> en_activeRun e = None"

text \<open>Where the stored cursor of a tab starts: at the snapshot it was in, or at the head once that is done.\<close>

lemma stored_cursor:
  assumes w: "world_ok sp u w"
  shows "\<exists>p h. at_cursor sp u (hd (wd_hist w)) (ws_stored (wd_store w)) p h \<and>
    (\<forall>nx q. ws_stored (wd_store w) = Some nx \<longrightarrow>
      decodeCursor (sp_hmac sp) (sp_secret sp) u nx = Inr \<lparr>cs_position = q, cs_snapshotHead = q\<rparr> \<longrightarrow> h = head_of u (hd (wd_hist w)))"
proof (cases "ws_stored (wd_store w)")
  case None
  have "0 \<le> head_of u (hd (wd_hist w))"
    using w by (auto simp: world_ok_def history_ok_def tables_ok_def sync_ok_def head_of_def)
  then show ?thesis using None by (simp add: at_cursor_def open_cursor_def)
next
  case (Some x)
  then obtain st where st: "decodeCursor (sp_hmac sp) (sp_secret sp) u x = Inr st" "cs_snapshotHead st \<le> head_of u (hd (wd_hist w))"
    using w by (auto simp: world_ok_def known_def)
  have "x \<noteq> []" "cs_position st \<le> cs_snapshotHead st"
    using st(1) by (auto simp: decode_iff syncCursorSchema_def cursor_valid_def)
  then show ?thesis using Some st by (auto simp: at_cursor_def open_cursor_def)
qed

lemma settle_run:
  assumes w: "world_ok sp u w" "hmac_sha256_size (sp_hmac sp)" "page_size_ok opts"
    and run: "en_activeRun (wd_engine w) = Some (Await_Cursor False)" "fetching (wd_engine w)"
  shows "\<exists>k nx h w'. (settle P sp opts u ^^ k) w = w' \<and> world_ok sp u w' \<and>
    wd_hist w' = wd_hist w \<and> idle_engine (wd_engine w') \<and> ws_stored (wd_store w') = Some nx \<and>
    decodeCursor (sp_hmac sp) (sp_secret sp) u nx = Inr \<lparr>cs_position = h, cs_snapshotHead = h\<rparr> \<and>
    (\<forall>ny q. ws_stored (wd_store w) = Some ny \<longrightarrow>
      decodeCursor (sp_hmac sp) (sp_secret sp) u ny = Inr \<lparr>cs_position = q, cs_snapshotHead = q\<rparr> \<longrightarrow> h = head_of u (hd (wd_hist w)))"
proof -
  define w1 where "w1 = settle P sp opts u w"
  obtain p h where c: "at_cursor sp u (hd (wd_hist w)) (ws_stored (wd_store w)) p h"
    "\<forall>ny q. ws_stored (wd_store w) = Some ny \<longrightarrow>
      decodeCursor (sp_hmac sp) (sp_secret sp) u ny = Inr \<lparr>cs_position = q, cs_snapshotHead = q\<rparr> \<longrightarrow> h = head_of u (hd (wd_hist w))"
    using stored_cursor[OF w(1)] by blast
  have w1: "world_ok sp u w1" "wd_hist w1 = wd_hist w" using settle_ok[OF w(1,2)] by (simp_all add: w1_def)
  have read: "en_activeRun (wd_engine w1) = Some (Await_Page False (ws_stored (wd_store w)))" "fetching (wd_engine w1)"
    using run by (simp_all add: w1_def world_step_def engine_does_def engine_step_def
        settle_def success_def store_read_def fulfilled_def fetch_page_def fetching_def)
  obtain k nx w2 where w2: "(settle P sp opts u ^^ k) w1 = w2" "fetching (wd_engine w2)"
    "en_activeRun (wd_engine w2) = Some (Await_Snapshot False None)" "ws_stored (wd_store w2) = Some nx"
    "decodeCursor (sp_hmac sp) (sp_secret sp) u nx = Inr \<lparr>cs_position = h, cs_snapshotHead = h\<rparr>"
    using settle_snapshot[OF w1(1) w(2,3) read, of p h P] c(1) w1(2) by metis
  define w3 where "w3 = (settle P sp opts u ^^ 2) w2"
  have w3: "idle_engine (wd_engine w3)" "ws_stored (wd_store w3) = Some nx"
    using w2(2,3,4) by (simp_all add: w3_def numeral_2_eq_2 settle_def success_def world_step_def engine_does_def
        engine_step_def fulfilled_def snapshot_done_def drain_def run_finally_def fetching_def idle_engine_def Let_def)
  have "(settle P sp opts u ^^ (2 + (k + 1))) w = w3"
    by (rule funpow_more[OF funpow_more[OF _ w2(1)]]) (simp_all add: w1_def w3_def)
  moreover have "world_ok sp u w3" "wd_hist w3 = wd_hist w"
    using settles_ok[OF w1(1) w(2), where k = k and P = P and opts = opts] w2(1) w1(2)
      settles_ok[OF _ w(2), of u w2, where k = 2 and P = P and opts = opts] by (auto simp: w3_def)
  ultimately show ?thesis using w3 w2(5) c(2) by blast
qed

lemma settle_request:
  assumes w: "world_ok sp u w" "hmac_sha256_size (sp_hmac sp)" "page_size_ok opts" and idle: "idle_engine (wd_engine w)"
  shows "\<exists>k nx h w'. (settle P sp opts u ^^ k) (world_step P sp opts u Tab_Request w) = w' \<and> world_ok sp u w' \<and>
    wd_hist w' = wd_hist w \<and> idle_engine (wd_engine w') \<and> ws_stored (wd_store w') = Some nx \<and>
    decodeCursor (sp_hmac sp) (sp_secret sp) u nx = Inr \<lparr>cs_position = h, cs_snapshotHead = h\<rparr> \<and>
    (\<forall>ny q. ws_stored (wd_store w) = Some ny \<longrightarrow>
      decodeCursor (sp_hmac sp) (sp_secret sp) u ny = Inr \<lparr>cs_position = q, cs_snapshotHead = q\<rparr> \<longrightarrow> h = head_of u (hd (wd_hist w)))"
proof -
  let ?w = "world_step P sp opts u Tab_Request w"
  have "world_ok sp u ?w" "wd_hist ?w = wd_hist w" "wd_store ?w = wd_store w"
    using plain_does_ok[OF w(1)] by (simp_all add: world_step_def engine_does_def)
  moreover have "en_activeRun (wd_engine ?w) = Some (Await_Cursor False)" "fetching (wd_engine ?w)"
    using idle by (simp_all add: world_step_def engine_does_def engine_step_def requestSync_def idle_engine_def
        drain_def fetching_def Let_def)
  ultimately show ?thesis using settle_run[OF _ w(2,3), of u ?w P] by metis
qed

text \<open>
  C39: progress. From any reachable world whose engine is idle, whatever cursor earlier
  failures and tabs left behind: after two sync requests whose pages, applications and storage operations
  succeed, the engine is idle again and exactly the events addressed to the user have been applied.
\<close>

theorem sync_catches_up:
  assumes "chat_ok db" "events_typed db" "hmac_sha256_size (sp_hmac sp)" "page_size_ok opts"
    and "w = world_run P sp opts u evs (new_world db)" "\<forall>s \<in> set (wd_hist w). columns_ok sp s"
    and "idle_engine (wd_engine w)"
  shows "\<exists>k m w'. w' = (settle P sp opts u ^^ m) (world_step P sp opts u Tab_Request
      ((settle P sp opts u ^^ k) (world_step P sp opts u Tab_Request w))) \<and>
    idle_engine (wd_engine w') \<and> wd_hist w' = wd_hist w \<and>
    set (wd_applied w') = {event_delta sp e | e q. e \<in> set (ch_events (hd (wd_hist w))) \<and> addressed u e q}"
proof -
  have ok: "world_ok sp u w" using world_run_ok[OF assms(1-3)] assms(5,6) by blast
  obtain k nx h w1 where w1: "(settle P sp opts u ^^ k) (world_step P sp opts u Tab_Request w) = w1" "world_ok sp u w1"
    "wd_hist w1 = wd_hist w" "idle_engine (wd_engine w1)" "ws_stored (wd_store w1) = Some nx"
    "decodeCursor (sp_hmac sp) (sp_secret sp) u nx = Inr \<lparr>cs_position = h, cs_snapshotHead = h\<rparr>"
    using settle_request[OF ok assms(3,4,7), of P] by metis
  obtain m ny w2 where w2: "(settle P sp opts u ^^ m) (world_step P sp opts u Tab_Request w1) = w2" "world_ok sp u w2"
    "wd_hist w2 = wd_hist w" "idle_engine (wd_engine w2)" "ws_stored (wd_store w2) = Some ny"
    "decodeCursor (sp_hmac sp) (sp_secret sp) u ny =
      Inr \<lparr>cs_position = head_of u (hd (wd_hist w)), cs_snapshotHead = head_of u (hd (wd_hist w))\<rparr>"
    using settle_request[OF w1(2) assms(3,4) w1(4), of P] w1(3,5,6) by metis
  let ?db = "hd (wd_hist w)"
  have "delivered sp u ?db (set (wd_applied w2)) (head_of u ?db)"
    using w2(2,3,5,6) by (auto simp: world_ok_def known_def)
  moreover have "q \<le> head_of u ?db" if "e \<in> set (ch_events ?db)" "addressed u e q" for e q
  proof -
    have "sync_ok ?db" using ok by (auto simp: world_ok_def history_ok_def tables_ok_def)
    then show ?thesis using later_positions(2)[of ?db ?db e u q] that by (simp add: events_grow_def)
  qed
  ultimately have "user_deltas sp u ?db \<subseteq> set (wd_applied w2)" by (auto simp: delivered_def user_deltas_def)
  moreover have "set (wd_applied w2) \<subseteq> user_deltas sp u ?db" using w2(2,3) by (simp add: world_ok_def)
  ultimately have "set (wd_applied w2) = user_deltas sp u ?db" by blast
  then show ?thesis using w1(1) w2(1,3,4) by (auto simp: user_deltas_def)
qed

section \<open>A sample tab that catches up\<close>

lemma settles_are_steps:
  "\<exists>evs. list_all (\<lambda>ev. case ev of Chat_Request q \<Rightarrow> False | _ \<Rightarrow> True) evs \<and>
    (settle P sp opts u ^^ k) w = world_run P sp opts u evs w"
proof (induction k)
  case 0
  show ?case by (intro exI[of _ "[]"]) (simp add: world_run_def)
next
  case (Suc k)
  then obtain evs where evs: "list_all (\<lambda>ev. case ev of Chat_Request q \<Rightarrow> False | _ \<Rightarrow> True) evs"
    "(settle P sp opts u ^^ k) w = world_run P sp opts u evs w" by blast
  then have step: "(settle P sp opts u ^^ Suc k) w = settle P sp opts u (world_run P sp opts u evs w)" by simp
  show ?case
  proof (cases "en_activeRun (wd_engine (world_run P sp opts u evs w))")
    case None
    then have "settle P sp opts u (world_run P sp opts u evs w) = world_run P sp opts u evs w" by (simp add: settle_def)
    then show ?thesis unfolding step using evs(1) by metis
  next
    case (Some run)
    then have "settle P sp opts u (world_run P sp opts u evs w) = world_run P sp opts u (evs @ [success run]) w"
      by (simp add: settle_def world_run_def)
    moreover have "case success run of Chat_Request q \<Rightarrow> False | _ \<Rightarrow> True" by (simp add: success_def split: sync_await.split)
    ultimately show ?thesis unfolding step using evs(1) by (intro exI[of _ "evs @ [success run]"]) simp
  qed
qed

text \<open>A tab that starts while a message is there.\<close>

lemma sample_idle:
  obtains evs where "wd_hist (world_run sample_params sample_sync sample_options ''b'' evs (new_world sample_chat)) = [sample_sent, sample_chat]"
    "idle_engine (wd_engine (world_run sample_params sample_sync sample_options ''b'' evs (new_world sample_chat)))"
proof -
  let ?run = "world_run sample_params sample_sync sample_options ''b''"
  let ?w = "?run [Chat_Request sample_first, Tab_Start] (new_world sample_chat)"
  have hist: "wd_hist ?w = [sample_sent, sample_chat]" by (rule sample_hist) simp
  have ok: "world_ok sample_sync ''b'' ?w"
    by (rule world_run_ok[OF sample_chat_ok sample_tables(2,1)]) (use hist sample_tables(3,4) in simp)
  have "en_activeRun (wd_engine ?w) = Some (Await_Cursor False)" "fetching (wd_engine ?w)"
    by (simp_all add: world_run_def world_step_def engine_does_def new_world_def new_engine_def engine_step_def start_def
        requestSync_def drain_def fetching_def Let_def)
  moreover have "page_size_ok sample_options" by (simp add: page_size_ok_def sample_options_def)
  ultimately obtain k where k: "idle_engine (wd_engine ((settle sample_params sample_sync sample_options ''b'' ^^ k) ?w))"
    using settle_run[OF ok sample_tables(1)] by blast
  obtain evs where evs: "list_all (\<lambda>ev. case ev of Chat_Request q \<Rightarrow> False | _ \<Rightarrow> True) evs"
    "(settle sample_params sample_sync sample_options ''b'' ^^ k) ?w = ?run evs ?w"
    using settles_are_steps by blast
  have "?run evs ?w = ?run (Chat_Request sample_first # Tab_Start # evs) (new_world sample_chat)" by (simp add: world_run_def)
  then show ?thesis using k evs that[of "Chat_Request sample_first # Tab_Start # evs"] sample_hist[of "Tab_Start # evs"] by simp
qed

lemma sync_catches_up_witness:
  "\<exists>evs k m w w'. w = world_run sample_params sample_sync sample_options ''b'' evs (new_world sample_chat) \<and>
    wd_hist w = [sample_sent, sample_chat] \<and> idle_engine (wd_engine w) \<and>
    w' = (settle sample_params sample_sync sample_options ''b'' ^^ m) (world_step sample_params sample_sync sample_options ''b'' Tab_Request
      ((settle sample_params sample_sync sample_options ''b'' ^^ k) (world_step sample_params sample_sync sample_options ''b'' Tab_Request w))) \<and>
    set (wd_applied w') = {event_delta sample_sync e | e q. e \<in> set (ch_events sample_sent) \<and> addressed ''b'' e q}"
proof -
  obtain evs where evs: "wd_hist (world_run sample_params sample_sync sample_options ''b'' evs (new_world sample_chat)) = [sample_sent, sample_chat]"
    "idle_engine (wd_engine (world_run sample_params sample_sync sample_options ''b'' evs (new_world sample_chat)))"
    by (rule sample_idle)
  have "page_size_ok sample_options" by (simp add: page_size_ok_def sample_options_def)
  from sync_catches_up[OF sample_chat_ok sample_tables(2,1) this refl _ evs(2)] evs sample_tables(3,4)
  show ?thesis by auto
qed

end
