(* ===== verification/Web_Sync.thy ===== *)
theory Web_Sync
  imports Sync_Progress
begin

text \<open>
  \<open>subscribeWebSync\<close> of \<open>web-sync.ts\<close>: the engine of a tab together with its realtime connection,
  which is retried on its own timer and whose events only ask the engine to synchronise. An installation
  is being fetched exactly while \<open>wb_connecting\<close>; \<open>wb_live\<close> counts the realtime subscriptions that
  were opened and not closed.
\<close>

section \<open>The state of a tab\<close>

record web_sync =
  wb_stopped :: bool
  wb_realtimeStop :: bool
  wb_realtimeConnecting :: bool
  wb_realtimeRetryAttempt :: nat
  wb_realtimeRetry :: "int option"
  wb_live :: nat
  wb_engine :: web_engine

datatype web_event =
    Installed
  | Install_Failed client_error
  | Realtime_Open | Realtime_Heartbeat | Realtime_Event bool
  | Retry_Due
  | Online | Page_Show | Visibility bool
  | Unsubscribe
  | Engine_Event "(sync_delta, client_error) sync_event"

section \<open>Operations\<close>

definition tell_engine ::
    "client_error sync_options \<Rightarrow> (sync_delta, client_error) sync_event \<Rightarrow> web_sync \<Rightarrow> web_sync" where
  "tell_engine opts ev t = t\<lparr>wb_engine := engine_step opts ev (wb_engine t)\<rparr>"

definition tab_requestSync :: "client_error sync_options \<Rightarrow> web_sync \<Rightarrow> web_sync" where
  "tab_requestSync opts t = (if wb_stopped t then t else tell_engine opts Request t)"

definition clearRealtimeRetry :: "web_sync \<Rightarrow> web_sync" where
  "clearRealtimeRetry t = t\<lparr>wb_realtimeRetry := None\<rparr>"

definition scheduleRealtimeRetry :: "web_sync \<Rightarrow> web_sync" where
  "scheduleRealtimeRetry t =
    (if wb_stopped t \<or> wb_realtimeStop t \<or> wb_realtimeRetry t \<noteq> None then t
     else t\<lparr>wb_realtimeRetry := Some (retryDelay (int (wb_realtimeRetryAttempt t)) DEFAULT_RETRY_BASE_MS DEFAULT_RETRY_MAX_MS),
            wb_realtimeRetryAttempt := wb_realtimeRetryAttempt t + 1\<rparr>)"

text \<open>\<open>connectRealtime\<close> up to the installation it awaits, and after it.\<close>

definition connectRealtime :: "web_sync \<Rightarrow> web_sync" where
  "connectRealtime t =
    (if wb_stopped t \<or> wb_realtimeConnecting t \<or> wb_realtimeStop t then t else t\<lparr>wb_realtimeConnecting := True\<rparr>)"

definition installed :: "web_sync \<Rightarrow> web_sync" where
  "installed t =
    (if wb_stopped t then t\<lparr>wb_realtimeConnecting := False\<rparr>
     else t\<lparr>wb_realtimeRetryAttempt := 0, wb_realtimeStop := True, wb_live := wb_live t + 1, wb_realtimeConnecting := False\<rparr>)"

definition install_failed :: "client_error \<Rightarrow> web_sync \<Rightarrow> web_sync" where
  "install_failed error t =
    (if wb_stopped t then t\<lparr>wb_realtimeConnecting := False\<rparr>
     else if error = AuthRequiredError \<or> error = ClientApiError ''installation_revoked'' \<or>
             error = ClientApiError ''installation_limit_reached''
     then t\<lparr>wb_realtimeConnecting := False\<rparr>
     else (scheduleRealtimeRetry t)\<lparr>wb_realtimeConnecting := False\<rparr>)"

definition onOnline :: "client_error sync_options \<Rightarrow> web_sync \<Rightarrow> web_sync" where
  "onOnline opts t = (let t' = tab_requestSync opts t in
     if wb_realtimeStop t' then t' else connectRealtime (clearRealtimeRetry t'))"

definition onVisibility :: "client_error sync_options \<Rightarrow> bool \<Rightarrow> web_sync \<Rightarrow> web_sync" where
  "onVisibility opts shown t = (if shown then onOnline opts t else t)"

definition subscribeWebSync :: "client_error sync_options \<Rightarrow> web_sync" where
  "subscribeWebSync opts = connectRealtime (tell_engine opts Start
    \<lparr>wb_stopped = False, wb_realtimeStop = False, wb_realtimeConnecting = False, wb_realtimeRetryAttempt = 0,
     wb_realtimeRetry = None, wb_live = 0, wb_engine = new_engine\<rparr>)"

definition unsubscribe :: "client_error sync_options \<Rightarrow> web_sync \<Rightarrow> web_sync" where
  "unsubscribe opts t = (let t' = clearRealtimeRetry (t\<lparr>wb_stopped := True\<rparr>) in
     tell_engine opts Stop (t'\<lparr>wb_live := (if wb_realtimeStop t' then wb_live t' - 1 else wb_live t'), wb_realtimeStop := False\<rparr>))"

text \<open>
  The listeners are removed by \<open>unsubscribe\<close>, and the subscription it closes reports nothing more. The
  engine is started by \<open>subscribeWebSync\<close> only.
\<close>

definition web_step :: "client_error sync_options \<Rightarrow> web_event \<Rightarrow> web_sync \<Rightarrow> web_sync" where
  "web_step opts ev t = (case ev of
     Installed \<Rightarrow> if wb_realtimeConnecting t then installed t else t
   | Install_Failed e \<Rightarrow> if wb_realtimeConnecting t then install_failed e t else t
   | Realtime_Open \<Rightarrow> if wb_realtimeStop t then tab_requestSync opts t else t
   | Realtime_Heartbeat \<Rightarrow> if wb_realtimeStop t then tab_requestSync opts t else t
   | Realtime_Event durable \<Rightarrow> if wb_realtimeStop t \<and> durable then tab_requestSync opts t else t
   | Retry_Due \<Rightarrow> if wb_realtimeRetry t = None then t else connectRealtime (t\<lparr>wb_realtimeRetry := None\<rparr>)
   | Online \<Rightarrow> if wb_stopped t then t else onOnline opts t
   | Page_Show \<Rightarrow> if wb_stopped t then t else tab_requestSync opts t
   | Visibility shown \<Rightarrow> if wb_stopped t then t else onVisibility opts shown t
   | Unsubscribe \<Rightarrow> if wb_stopped t then t else unsubscribe opts t
   | Engine_Event ev \<Rightarrow> (if ev \<in> {Start, Stop, Request} then t else tell_engine opts ev t))"

definition web_run :: "client_error sync_options \<Rightarrow> web_event list \<Rightarrow> web_sync" where
  "web_run opts evs = fold (web_step opts) evs (subscribeWebSync opts)"

section \<open>One connection at most, and none afterwards\<close>

definition tab_ok :: "web_sync \<Rightarrow> bool" where
  "tab_ok t \<longleftrightarrow> engine_ok (wb_engine t) \<and> (en_stopped (wb_engine t) \<longleftrightarrow> wb_stopped t) \<and>
    wb_live t = (if wb_realtimeStop t then 1 else 0) \<and>
    (wb_realtimeStop t \<longrightarrow> \<not> wb_realtimeConnecting t) \<and>
    (wb_stopped t \<longrightarrow> \<not> wb_realtimeStop t \<and> wb_realtimeRetry t = None)"

lemma stopped_keeps:
  assumes "ev \<notin> {Start, Stop}"
  shows "en_stopped (engine_step opts ev e) = en_stopped e"
proof -
  have request: "en_stopped (requestSync e) = en_stopped e" for e :: "('a, 'b) sync_engine"
    by (simp add: requestSync_def drain_def Let_def)
  have drain: "en_stopped (drain e) = en_stopped e" for e :: "('a, 'b) sync_engine"
    by (simp add: drain_def)
  have failure: "en_stopped (handleFailure opts kind e) = en_stopped e" for kind and e :: "('a, 'b) sync_engine"
    by (simp add: handleFailure_def Let_def)
  have "en_stopped (fulfilled opts ev w e) = en_stopped e" for w
    by (auto simp: fulfilled_def fetch_page_def page_arrived_def page_applied_def write_cursor_def cursor_written_def
        snapshot_done_def snapshot_failed_def reset_failed_def run_finally_def request drain failure Let_def
        split: sync_await.splits sync_event.splits bool.splits option.splits)
  moreover have "en_stopped (rejected opts x w e) = en_stopped e" for w x
    by (auto simp: rejected_def reset_failed_def failure split: sync_await.splits)
  ultimately show ?thesis
    using assms by (auto simp: engine_step_def timer_fires_def request split: sync_event.split option.split)
qed

lemma tell_ok: "tab_ok t \<Longrightarrow> ev \<notin> {Start, Stop} \<Longrightarrow> tab_ok (tell_engine opts ev t)"
  by (simp add: tab_ok_def tell_engine_def ok_step stopped_keeps)

lemma connect_ok: "tab_ok t \<Longrightarrow> tab_ok (connectRealtime t)"
  by (simp add: tab_ok_def connectRealtime_def)

lemma clear_ok: "tab_ok t \<Longrightarrow> tab_ok (t\<lparr>wb_realtimeRetry := None\<rparr>)"
  by (simp add: tab_ok_def)

lemma web_step_ok: "tab_ok t \<Longrightarrow> tab_ok (web_step opts ev t)"
proof -
  assume t: "tab_ok t"
  have request: "tab_ok (tab_requestSync opts t)" using tell_ok[OF t] t by (simp add: tab_requestSync_def)
  then have online: "tab_ok (onOnline opts t)"
    by (simp add: onOnline_def Let_def clearRealtimeRetry_def connect_ok clear_ok)
  show ?thesis
  proof (cases ev)
    case Installed
    then show ?thesis using t by (auto simp: web_step_def installed_def tab_ok_def)
  next
    case (Install_Failed e)
    then show ?thesis using t
      by (cases "wb_stopped t") (auto simp: web_step_def install_failed_def scheduleRealtimeRetry_def tab_ok_def)
  next
    case Unsubscribe
    have "en_stopped (stop e)" for e :: web_engine by (simp add: stop_def)
    moreover have "engine_ok (stop (wb_engine t))" by (rule ok_client(2)) (use t in \<open>simp add: tab_ok_def\<close>)
    ultimately show ?thesis using t Unsubscribe
      by (simp add: web_step_def unsubscribe_def tell_engine_def clearRealtimeRetry_def engine_step_def tab_ok_def Let_def)
  next
    case (Engine_Event ev)
    then show ?thesis using t tell_ok[OF t] by (simp add: web_step_def)
  qed (use t request online connect_ok clear_ok in \<open>simp_all add: web_step_def onVisibility_def\<close>)
qed

lemma start_ok: "tab_ok (subscribeWebSync opts)"
proof -
  have "engine_ok (engine_step opts Start new_engine :: web_engine)"
    by (rule ok_step) (simp add: engine_ok_def new_engine_def)
  moreover have "\<not> en_stopped (engine_step opts Start new_engine :: web_engine)"
    by (simp add: engine_step_def start_def new_engine_def requestSync_def drain_def)
  ultimately show ?thesis
    unfolding subscribeWebSync_def by (intro connect_ok) (simp add: tab_ok_def tell_engine_def)
qed

lemma web_run_ok: "tab_ok (web_run opts evs)"
proof -
  have "tab_ok t \<Longrightarrow> tab_ok (fold (web_step opts) evs t)" for t
    by (induction evs arbitrary: t) (simp_all add: web_step_ok)
  then show ?thesis using start_ok by (simp add: web_run_def)
qed

lemma stopped_tab_step:
  assumes "wb_stopped t"
  shows "wb_stopped (web_step opts ev t) \<and>
    (\<exists>evs. Start \<notin> set evs \<and> wb_engine (web_step opts ev t) = fold (engine_step opts) evs (wb_engine t))"
proof (cases ev)
  case (Engine_Event x)
  show ?thesis
  proof (cases "x \<in> {Start, Stop, Request}")
    case True
    then show ?thesis using assms Engine_Event by (auto simp: web_step_def intro: exI[of _ "[]"])
  next
    case False
    then show ?thesis using assms Engine_Event by (intro conjI exI[of _ "[x]"]) (auto simp: web_step_def tell_engine_def)
  qed
qed (use assms in \<open>auto simp: web_step_def installed_def install_failed_def tab_requestSync_def connectRealtime_def
  intro: exI[of _ "[]"]\<close>)

lemma stopped_tab_run:
  assumes "wb_stopped t"
  shows "wb_stopped (fold (web_step opts) later t) \<and>
    (\<exists>evs. Start \<notin> set evs \<and> wb_engine (fold (web_step opts) later t) = fold (engine_step opts) evs (wb_engine t))"
  using assms
proof (induction later arbitrary: t)
  case Nil
  then show ?case by (auto intro: exI[of _ "[]"])
next
  case (Cons ev later)
  from stopped_tab_step[OF Cons.prems, of opts ev] obtain evs where evs: "Start \<notin> set evs"
    "wb_engine (web_step opts ev t) = fold (engine_step opts) evs (wb_engine t)" "wb_stopped (web_step opts ev t)" by blast
  from Cons.IH[OF evs(3)] obtain more where "Start \<notin> set more"
    "wb_engine (fold (web_step opts) later (web_step opts ev t)) = fold (engine_step opts) more (wb_engine (web_step opts ev t))"
    "wb_stopped (fold (web_step opts) later (web_step opts ev t))" by blast
  then show ?case using evs(1,2) by (intro conjI exI[of _ "evs @ more"]) simp_all
qed


end
