(* ===== verification/Spec2Isabelle.thy ===== *)
theory Spec2Isabelle
  imports Fee_Economics Usage_Properties Payment_States Entitlements Checkout Payment_Properties Ai_Budget
    Ai_Estimate Ai_Reconcile_Properties Orch_Order Ratchet_Log Workspace_Requests Direct_Context
    Direct_Properties Web_Sync
begin

text \<open>
  Vimla: a verification library for the core logic of the monorepo (TypeScript under
  \<open>src/packages\<close> and \<open>src/apps\<close>).

  The parts of the system and how they interact. Users pay for plans and top-ups
  (\<open>packages/billing\<close>): a payment, once the provider confirms it, grants a usage bucket; every
  use of a model reserves money in the buckets of its user, is settled at its actual cost or
  released. \<open>packages/ai\<close> computes what a request may cost before it is sent, chooses how many
  tokens the money allows, and prices the usage that the provider reports.
  \<open>packages/orchestration\<close> holds plans of many such requests: it validates the graph of a plan
  before it is stored and decides from the states of the sources which requests may run.
  Independently of these, \<open>packages/e2ee\<close> encrypts direct chats between devices, and
  \<open>packages/client-core\<close> with \<open>crypto-store.ts\<close> of \<open>apps/web\<close> keeps the ratchet states of
  a device consistent between browser tabs. On the server \<open>packages/direct-chats\<close> stores the
  encrypted messages and hands out the published keys, and \<open>packages/trust\<close> decides from the
  blocks of users who may interact. The events that the messages leave behind reach a browser tab as a
  stream of pages: the sync service of \<open>apps/api\<close> reads them, the engine of
  \<open>packages/client-core\<close> asks for them, applies them and stores how far it has come.

  Which theory models what:

  \<^item> \<open>Vimla_Prelude\<close>: throwing computations as sums, tables as lists of rows, transactions and
    their contract (locale \<open>transactional\<close>), the stable sort and its contract
    (locale \<open>comparator\<close>).
  \<^item> \<open>Money\<close>, \<open>Fee_Economics\<close>, \<open>Payment_States\<close>, \<open>Entitlements\<close>, \<open>Checkout\<close>:
    \<open>money.ts\<close>, \<open>errors.ts\<close>, \<open>fee-estimate.ts\<close>, \<open>tariff-simulator.ts\<close>,
    \<open>payment-states.ts\<close>, \<open>entitlements.ts\<close>, \<open>policy.ts\<close>, \<open>billing-subject.ts\<close>.
  \<^item> \<open>Allocation\<close>: \<open>allocation.ts\<close>. \<open>Billing_Db\<close>, \<open>Usage_Engine\<close>: the tables
    (\<open>schema.prisma\<close>) and the usage half of \<open>billing-engine.ts\<close>. \<open>Usage_Pool\<close> is the abstract
    account of a bucket, \<open>Usage_Refinement\<close> shows that the loops of the engine implement its
    steps, \<open>Usage_Accounting\<close> the invariant \<open>usage_ok\<close>, \<open>Usage_Properties\<close> the theorems.
  \<^item> \<open>Billing_Catalog\<close>: published plans, policies and prices (\<open>effective-plan.ts\<close> and the
    catalog part of the engine). \<open>Payment_Engine\<close>: payments, grants, refunds, economics
    (the other half of \<open>billing-engine.ts\<close>, \<open>payment-events.ts\<close>, \<open>payment-economics.ts\<close>).
    \<open>Payment_Invariant\<close> and \<open>Payment_Properties\<close>: the invariant \<open>billing_ok\<close>, which
    contains \<open>usage_ok\<close>, its preservation by every request, and the theorems.
  \<^item> \<open>Ai_Cost\<close>, \<open>Ai_Budget\<close>, \<open>Ai_Estimate\<close>: \<open>cost.ts\<close>, \<open>usage.ts\<close>,
    \<open>execution-budget.ts\<close>, \<open>estimate.ts\<close>. The locale \<open>affordable\<close> is what the binary search
    needs of a cost function; the interpretation \<open>reservation\<close> gives it the code's.
  \<^item> \<open>Effects\<close>: calls that change the state even when they throw, and transactions that fail
    before or after they commit. \<open>Orders\<close>: comparators built from keys, as \<open>orderBy\<close> clauses.
  \<^item> \<open>Ai_Reconcile\<close>, \<open>Ai_Reconcile_Properties\<close>: \<open>reconciliation.ts\<close>, which ends AI requests
    that a crash left open, over the tables of billing and with its operations.
  \<^item> \<open>Keyset\<close>: paging by cursors (locale \<open>keyset\<close>); \<open>Workspace_Db\<close>, \<open>Workspace_Tasks\<close>,
    \<open>Workspace_Lists\<close>, \<open>Workspace_Notes\<close>, \<open>Workspace_Requests\<close>: the services of
    \<open>packages/workspace\<close>, the interpretation of \<open>keyset\<close> for each order they page by, and
    the invariant \<open>workspace_ok\<close> that every request keeps.
  \<^item> \<open>Orch_Readiness\<close>, \<open>Orch_Graph\<close>, \<open>Orch_Order\<close>: the plan contract, \<open>readiness.ts\<close>,
    \<open>graph.ts\<close>, and the invariant of its ordering loop.
  \<^item> \<open>E2ee_Bytes\<close>, \<open>E2ee_Ratchet\<close>, \<open>E2ee_Protocol\<close>, \<open>E2ee_Session\<close>: \<open>bytes.ts\<close>,
    \<open>kdf.ts\<close>, \<open>ratchet.ts\<close>, \<open>keys.ts\<close>, \<open>x3dh.ts\<close>, \<open>envelope.ts\<close>, and what two honest
    parties get from them.
  \<^item> \<open>Ratchet_Lease\<close>, \<open>Ratchet_Store\<close>, \<open>Ratchet_Log\<close>: \<open>direct-chat-ratchet-coordination.ts\<close>
    and the ratchet transactions of \<open>crypto-store.ts\<close>; the log they implement.

  \<^item> \<open>Chat_Db\<close>: the tables of direct chats, \<open>policy.ts\<close> and \<open>pair-key.ts\<close>.
    \<open>Trust\<close>: blocks, reports and handles. \<open>Direct_Devices\<close>, \<open>Direct_Chats\<close>,
    \<open>Direct_Messages\<close>, \<open>Direct_Context\<close>: \<open>device-service.ts\<close>, \<open>durable-events.ts\<close>,
    \<open>direct-chat-service.ts\<close>, \<open>consent.ts\<close>. \<open>Direct_Moves\<close> is a step relation on the tables
    with its invariant \<open>chat_ok\<close>; \<open>Direct_Requests\<close> and \<open>Direct_Sends\<close> show that every request
    is a sequence of such steps, \<open>Direct_Properties\<close> what follows for histories of requests.

  \<^item> \<open>Sync_Cursor\<close>, \<open>Sync_Service\<close>: \<open>sync-cursor.codec.ts\<close>, \<open>sync.service.ts\<close> and its
    controller. \<open>Sync_Engine\<close>: \<open>sync-engine.ts\<close>, a state machine over the promises it awaits.
    \<open>Sync_Delivery\<close>: the stream over the tables of direct chats, with the cursor store of
    \<open>web-sync.ts\<close> and the sink, and the invariant \<open>world_ok\<close>; \<open>Sync_Progress\<close>: what
    undisturbed runs reach; \<open>Web_Sync\<close>: the tab with its realtime connection.

  How state and operations correspond. A database is a record of tables, a table a list of rows in
  insertion order; an operation returns its result with the new database, or the error it throws.
  A \<open>$transaction\<close> or an IndexedDB transaction is one step that either commits or leaves the
  state as it was: row locks and object-store locks serialise them. Clock readings, random
  identifiers and drawn keys are arguments. Amounts are unbounded integers as the code's
  \<open>bigint\<close>; JavaScript numbers that count are naturals or integers, with the safe-integer checks
  of the code written out; text that is measured in bytes is a list of 16-bit code units, and byte
  strings are lists of 8-bit words. The ratchet changes its state in place even when it throws, so
  there every operation returns the state with its result or error.

  What the groups of lemmas show. For the tables: an invariant per record, that every operation keeps
  it, and what each operation returns on every branch; for the loops: an equation or an invariant;
  for the protocols: a link between the two states that every step re-establishes; for the ratchet
  store: a simulation by the log. Each property is numbered C1 to C40 where it is proved,
  with an instance on concrete input after it when it has hypotheses.

  Bounds and fuel. No function uses fuel: \<open>budget_loop\<close> ends by the width of its interval,
  \<open>order_loop\<close> by the queue and the positive in-degrees, \<open>skip_loop\<close> by the keys left to skip,
  \<open>retry_loop\<close> by its attempts. A chain of the ratchet may skip 200 keys, so the properties of
  encrypted conversations hold for up to 200 messages per turn; that of the ratchet store holds
  while versions stay safe integers.

  The pages of a sync run end because each one moves the cursor forward (\<open>settle_snapshot\<close>).

  Parameters and their hypotheses. \<open>crypto_ok\<close> states what the noble libraries document of X25519,
  Ed25519 and ChaCha20-Poly1305, \<open>protector_ok\<close> what authenticated encryption gives; both have
  concrete instances in the witnesses. Nothing is assumed of the key derivation.
  Of HMAC-SHA256 the sync cursors need its length only (\<open>hmac_sha256_size\<close>), and \<open>columns_ok\<close> says
  that the columns of type uuid and bigint hold such values.

  Requests and reads. Requests to direct chats run one after the other, but what a request reads
  before its transaction may come from any earlier state, and its transaction may fail before or
  after the commit. \<open>chat_move\<close> says what may happen to the tables at all; refining it gives the
  invariant for every interleaving of that kind.

  Asynchronous code. Between two awaits the code runs alone, so the engine is a step function over the
  promise it waits for; the environment settles promises, fires timers and makes calls in any order.

  Not modelled: other HTTP controllers, workers and the web front end (wiring and presentation); the
  provider clients of billing and AI (network); schemas, prompts and semantic planning of the
  orchestration; context, memory and retrieval; operator and notification services; the
  rate limits of the sync service, which count in Redis; the payment
  service, which wraps the engine modelled here; the text of cursors and the compare functions
  of \<open>packages/workspace\<close> that only its tests use.
\<close>

end
